(* ===== verification/KpPrelude.thy ===== *)
theory KpPrelude
  imports Main "HOL-Library.Multiset"
begin

text \<open>
  Shared ground of the development: names for the identifiers and clock values of the
  program, the two list idioms nearly every handler of the frontend is written with
  (``rewrite the row with this id'', ``sort by this comparator''), and three interfaces that
  several components provide:
  \<^item> \<open>row_edit\<close> / \<open>row_undo\<close>: an edit of one row of an id-keyed list, and an edit with an
    undo, as every optimistic write of the board performs it;
  \<^item> \<open>js_comparator\<close>: a comparator handed to \<^verbatim>\<open>Array.prototype.sort\<close>;
  \<^item> \<open>event_machine\<close>: a component with state that reacts to events one at a time (the
    JavaScript event loop) and keeps an invariant.
\<close>

named_theorems row_simps \<open>facts on rows of an id-keyed list\<close>
named_theorems js_simps \<open>facts on the JavaScript list functions\<close>

type_synonym ident = string
type_synonym ms = int

section \<open>JavaScript list functions\<close>

definition js_some :: "('a \<Rightarrow> bool) \<Rightarrow> 'a list \<Rightarrow> bool" where
  "js_some P xs = list_ex P xs"

definition js_includes :: "'a list \<Rightarrow> 'a \<Rightarrow> bool" where
  "js_includes xs x = List.member xs x"

lemma js_some_iff [simp, js_simps]: "js_some P xs \<longleftrightarrow> (\<exists>x\<in>set xs. P x)"
  by (simp add: js_some_def list_ex_iff)

lemma js_includes_iff [simp, js_simps]: "js_includes xs x \<longleftrightarrow> x \<in> set xs"
  by (simp add: js_includes_def)

lemma find_SomeD: "List.find P xs = Some x \<Longrightarrow> P x \<and> x \<in> set xs"
  by (induction xs) (auto split: if_splits)

lemma find_None_iff2 [js_simps]: "List.find P xs = None \<longleftrightarrow> (\<forall>x\<in>set xs. \<not> P x)"
  by (induction xs) auto

lemma find_eq_NoneD: "List.find P xs = None \<Longrightarrow> x \<in> set xs \<Longrightarrow> \<not> P x"
  by (simp add: find_None_iff2)

lemma find_cong_pred: "(\<And>x. x \<in> set xs \<Longrightarrow> P x = Q x) \<Longrightarrow> List.find P xs = List.find Q xs"
  by (induction xs) auto

section \<open>Rewriting the row with an id\<close>

text \<open>\<^verbatim>\<open>rows.map((r) => (r.id === i ? f(r) : r))\<close>, the idiom of every state setter.\<close>

definition modify_row :: "('r \<Rightarrow> 'k) \<Rightarrow> 'k \<Rightarrow> ('r \<Rightarrow> 'r) \<Rightarrow> 'r list \<Rightarrow> 'r list" where
  "modify_row key i f rows = map (\<lambda>r. if key r = i then f r else r) rows"

lemma modify_row_Nil [simp]: "modify_row key i f [] = []"
  by (simp add: modify_row_def)

lemma modify_row_Cons [simp]:
  "modify_row key i f (r # rows) = (if key r = i then f r else r) # modify_row key i f rows"
  by (simp add: modify_row_def)

lemma length_modify_row [simp]: "length (modify_row key i f rows) = length rows"
  by (simp add: modify_row_def)

lemma modify_row_absent: "i \<notin> key ` set rows \<Longrightarrow> modify_row key i f rows = rows"
  by (induction rows) auto

lemma modify_row_cong:
  "(\<And>r. r \<in> set rows \<Longrightarrow> key r = i \<Longrightarrow> f r = g r) \<Longrightarrow> modify_row key i f rows = modify_row key i g rows"
  by (induction rows) auto

lemma modify_row_id: "(\<And>r. r \<in> set rows \<Longrightarrow> key r = i \<Longrightarrow> f r = r) \<Longrightarrow> modify_row key i f rows = rows"
  by (induction rows) auto

lemma set_modify_row:
  "set (modify_row key i f rows) = {r \<in> set rows. key r \<noteq> i} \<union> f ` {r \<in> set rows. key r = i}"
  by (auto simp: modify_row_def)

lemma mem_modify_row:
  "r \<in> set (modify_row key i f rows) \<Longrightarrow>
     (r \<in> set rows \<and> key r \<noteq> i) \<or> (\<exists>r0\<in>set rows. key r0 = i \<and> r = f r0)"
  by (auto simp: set_modify_row)

lemma modify_row_filter_other:
  assumes "\<And>r. key (f r) = key r"
  shows "filter (\<lambda>r. key r \<noteq> i) (modify_row key i f rows) = filter (\<lambda>r. key r \<noteq> i) rows"
  by (induction rows) (auto simp: assms)

locale row_edit =
  fixes key :: "'r \<Rightarrow> 'k" and edit :: "'r \<Rightarrow> 'r"
  assumes keeps_key: "key (edit r) = key r"
begin

lemma keys_modify [simp]: "map key (modify_row key i edit rows) = map key rows"
  by (induction rows) (auto simp: keeps_key)

lemma find_hit:
  "List.find (\<lambda>r. key r = i) (modify_row key i edit rows) =
     map_option edit (List.find (\<lambda>r. key r = i) rows)"
  by (induction rows) (auto simp: keeps_key)

lemma find_miss:
  "i \<noteq> j \<Longrightarrow> List.find (\<lambda>r. key r = j) (modify_row key i edit rows) = List.find (\<lambda>r. key r = j) rows"
  by (induction rows) (auto simp: keeps_key)

lemma distinct_keys: "distinct (map key (modify_row key i edit rows)) = distinct (map key rows)"
  by simp

lemma others_untouched:
  "r \<in> set rows \<Longrightarrow> key r \<noteq> i \<Longrightarrow> r \<in> set (modify_row key i edit rows)"
  by (simp add: set_modify_row)

end

text \<open>An edit together with what takes it back, where \<open>ok\<close> says when it can.\<close>

locale row_undo = row_edit +
  fixes undo :: "'r \<Rightarrow> 'r" and ok :: "'r \<Rightarrow> bool"
  assumes undo_key: "key (undo r) = key r"
    and undo_edit: "ok r \<Longrightarrow> undo (edit r) = r"
begin

lemma undo_modify:
  "(\<And>r. r \<in> set rows \<Longrightarrow> key r = i \<Longrightarrow> ok r) \<Longrightarrow>
     modify_row key i undo (modify_row key i edit rows) = rows"
  by (induction rows) (auto simp: keeps_key undo_edit)

text \<open>Another row written between the edit and its undo keeps that write.\<close>

lemma undo_keeps_other_edit:
  assumes ok: "\<And>r. r \<in> set rows \<Longrightarrow> key r = i \<Longrightarrow> ok r"
    and other: "\<And>r. key (g r) = key r" and neq: "j \<noteq> i"
  shows "modify_row key i undo (modify_row key j g (modify_row key i edit rows))
         = modify_row key j g rows"
  using ok by (induction rows) (use neq in \<open>auto simp: keeps_key undo_edit undo_key other\<close>)

end

section \<open>Array.prototype.sort\<close>

text \<open>
  The sort of the language is stable: equal elements keep their order. For a consistent
  comparator the stable sorted arrangement is unique, and insertion computes it.
\<close>

fun js_insert :: "('a \<Rightarrow> 'a \<Rightarrow> int) \<Rightarrow> 'a \<Rightarrow> 'a list \<Rightarrow> 'a list" where
  "js_insert cmp x [] = [x]"
| "js_insert cmp x (y # ys) = (if cmp x y \<le> 0 then x # y # ys else y # js_insert cmp x ys)"

fun js_sort :: "('a \<Rightarrow> 'a \<Rightarrow> int) \<Rightarrow> 'a list \<Rightarrow> 'a list" where
  "js_sort cmp [] = []"
| "js_sort cmp (x # xs) = js_insert cmp x (js_sort cmp xs)"

lemma mset_js_insert [simp]: "mset (js_insert cmp x xs) = add_mset x (mset xs)"
  by (induction xs) auto

lemma mset_js_sort [simp, js_simps]: "mset (js_sort cmp xs) = mset xs"
  by (induction xs) auto

lemma set_js_insert [simp]: "set (js_insert cmp x xs) = insert x (set xs)"
  by (induction xs) auto

lemma set_js_sort [simp, js_simps]: "set (js_sort cmp xs) = set xs"
  by (induction xs) auto

lemma length_js_sort [simp, js_simps]: "length (js_sort cmp xs) = length xs"
  by (metis mset_js_sort size_mset)

lemma distinct_js_sort [simp]: "distinct (js_sort cmp xs) = distinct xs"
  by (metis mset_js_sort mset_eq_imp_distinct_iff)

locale js_comparator =
  fixes cmp :: "'a \<Rightarrow> 'a \<Rightarrow> int"
  assumes cmp_flip: "cmp a b \<le> 0 \<or> cmp b a \<le> 0"
    and cmp_trans: "cmp a b \<le> 0 \<Longrightarrow> cmp b c \<le> 0 \<Longrightarrow> cmp a c \<le> 0"
begin

definition before :: "'a \<Rightarrow> 'a \<Rightarrow> bool" where
  "before a b \<longleftrightarrow> cmp a b \<le> 0"

lemma sorted_insert:
  "sorted_wrt before xs \<Longrightarrow> sorted_wrt before (js_insert cmp x xs)"
proof (induction xs)
  case Nil
  then show ?case by simp
next
  case (Cons y ys)
  show ?case
  proof (cases "cmp x y \<le> 0")
    case True
    with Cons.prems show ?thesis by (auto simp: before_def intro: cmp_trans)
  next
    case False
    with cmp_flip [of x y] have "cmp y x \<le> 0" by simp
    with False Cons show ?thesis by (auto simp: before_def)
  qed
qed

lemma sorted_sort: "sorted_wrt before (js_sort cmp xs)"
  by (induction xs) (auto intro: sorted_insert)

lemma sorted_sort_cmp: "sorted_wrt (\<lambda>a b. cmp a b \<le> 0) (js_sort cmp xs)"
  using sorted_sort [of xs] by (simp add: before_def [abs_def])

lemma insert_filter:
  assumes cls: "\<And>a b. P a \<Longrightarrow> P b \<Longrightarrow> cmp a b \<le> 0"
  shows "filter P (js_insert cmp x xs) = filter P (x # xs)"
proof (induction xs)
  case Nil
  then show ?case by simp
next
  case (Cons y ys)
  then show ?case using cls [of x y] by auto
qed

text \<open>Stability: elements the comparator does not tell apart keep their order.\<close>

lemma sort_stable:
  assumes "\<And>a b. P a \<Longrightarrow> P b \<Longrightarrow> cmp a b \<le> 0"
  shows "filter P (js_sort cmp xs) = filter P xs"
  by (induction xs) (use insert_filter [OF assms] in auto)

end

section \<open>Event machines\<close>

locale event_machine =
  fixes step :: "'s \<Rightarrow> 'e \<Rightarrow> 's" and inv :: "'s \<Rightarrow> bool" and start :: 's
  assumes inv_start: "inv start"
    and inv_step: "inv s \<Longrightarrow> inv (step s e)"
begin

lemma inv_run_from: "inv s \<Longrightarrow> inv (foldl step s es)"
  by (induction es arbitrary: s) (auto intro: inv_step)

lemma inv_run: "inv (foldl step start es)"
  by (rule inv_run_from [OF inv_start])

end

end
