(* ===== verification/BoardTypes.thy ===== *)
theory BoardTypes
  imports KpPrelude Complex_Main
begin

text \<open>
  The board's data: the status vocabulary, one card (\<open>operation\<close>), the roster, the depot and
  the fleet, and the payloads of the REST interface as the frontend types them
  (\<^verbatim>\<open>frontend/lib/contexts/operations/types.ts\<close>, \<^verbatim>\<open>personnel-context.tsx\<close>,
  \<^verbatim>\<open>materials-context.tsx\<close>, \<^verbatim>\<open>lib/api/types\<close>).

  Conventions: \<^verbatim>\<open>null\<close> and an absent field are \<open>None\<close>; an identifier is an \<open>ident\<close>; a
  \<^verbatim>\<open>Date\<close> is its epoch value in milliseconds, \<open>None\<close> for the Invalid Date; a finite
  JavaScript number is the rational it denotes.
\<close>

section \<open>Dates, numbers and truthiness of the language\<close>

type_synonym js_date = "ms option"
type_synonym coordinates = "(rat \<times> rat) option"

text \<open>The two parsers of the language the mapping calls, as parameters of the model:
  \<^verbatim>\<open>new Date(s)\<close> (\<open>None\<close>: Invalid Date), \<^verbatim>\<open>Number(s)\<close> (\<open>None\<close>: not finite) and
  \<^verbatim>\<open>String(n)\<close>.\<close>

record js_runtime =
  parse_date :: "string \<Rightarrow> js_date"
  parse_number :: "string \<Rightarrow> rat option"
  show_number :: "rat \<Rightarrow> string"

text \<open>\<^verbatim>\<open>s || d\<close> on a string that may be null: the empty string is falsy too.\<close>

definition or_str :: "string option \<Rightarrow> string \<Rightarrow> string" where
  "or_str s d = (case s of None \<Rightarrow> d | Some t \<Rightarrow> if t = [] then d else t)"

definition or_null :: "string option \<Rightarrow> string option" where
  "or_null s = (case s of None \<Rightarrow> None | Some t \<Rightarrow> if t = [] then None else Some t)"

text \<open>\<^verbatim>\<open>v ?? d\<close>.\<close>

definition nullish :: "'a option \<Rightarrow> 'a \<Rightarrow> 'a" where
  "nullish v d = (case v of None \<Rightarrow> d | Some x \<Rightarrow> x)"

lemma nullish_simps [simp]: "nullish None d = d" "nullish (Some x) d = x"
  by (simp_all add: nullish_def)

lemma or_str_simps [simp]: "or_str None d = d" "or_str (Some []) d = d"
  "s \<noteq> [] \<Longrightarrow> or_str (Some s) d = s"
  by (simp_all add: or_str_def)

section \<open>Vocabulary\<close>

datatype incident_status = Incoming | Reko | RekoDone | Enroute | Active | Returning | Complete

datatype priority = High | Medium | Low

text \<open>The wire word of each status, and its inverse (\<^verbatim>\<open>isIncidentStatus\<close> is its domain).\<close>

fun status_word :: "incident_status \<Rightarrow> string" where
  "status_word Incoming = ''incoming''"
| "status_word Reko = ''reko''"
| "status_word RekoDone = ''reko_done''"
| "status_word Enroute = ''enroute''"
| "status_word Active = ''active''"
| "status_word Returning = ''returning''"
| "status_word Complete = ''complete''"

definition all_statuses :: "incident_status list" where
  "all_statuses = [Incoming, Reko, RekoDone, Enroute, Active, Returning, Complete]"

definition status_of_word :: "string \<Rightarrow> incident_status option" where
  "status_of_word w = List.find (\<lambda>s. status_word s = w) all_statuses"

definition is_incident_status :: "string \<Rightarrow> bool" where
  "is_incident_status w = (status_of_word w \<noteq> None)"

datatype status_group = GroupOpen | GroupActive | GroupCompleted

fun status_to_group :: "incident_status \<Rightarrow> status_group" where
  "status_to_group Incoming = GroupOpen"
| "status_to_group Reko = GroupOpen"
| "status_to_group RekoDone = GroupOpen"
| "status_to_group Enroute = GroupActive"
| "status_to_group Active = GroupActive"
| "status_to_group Returning = GroupCompleted"
| "status_to_group Complete = GroupCompleted"

lemma status_of_word_status_word [simp]: "status_of_word (status_word s) = Some s"
  by (cases s) (simp_all add: status_of_word_def all_statuses_def)

lemma status_of_word_SomeD: "status_of_word w = Some s \<Longrightarrow> status_word s = w"
  by (auto simp: status_of_word_def dest: find_SomeD)

lemma set_all_statuses [simp]: "set all_statuses = UNIV"
  by (auto simp: all_statuses_def intro: incident_status.exhaust)

text \<open>The order of the board's columns, left to right (\<open>Kanban\<close> proves that it is the order of
  the column table).\<close>

fun status_index :: "incident_status \<Rightarrow> nat" where
  "status_index Incoming = 0"
| "status_index Reko = 1"
| "status_index RekoDone = 2"
| "status_index Enroute = 3"
| "status_index Active = 4"
| "status_index Returning = 5"
| "status_index Complete = 6"

lemma status_index_inj: "status_index a = status_index b \<Longrightarrow> a = b"
  by (cases a; cases b) simp_all

instantiation incident_status :: linorder
begin

definition less_eq_incident_status :: "incident_status \<Rightarrow> incident_status \<Rightarrow> bool" where
  "less_eq_incident_status a b \<longleftrightarrow> status_index a \<le> status_index b"

definition less_incident_status :: "incident_status \<Rightarrow> incident_status \<Rightarrow> bool" where
  "less_incident_status a b \<longleftrightarrow> status_index a < status_index b"

instance
  by standard
    (auto simp: less_eq_incident_status_def less_incident_status_def intro: status_index_inj)

end

section \<open>One card\<close>

record crew_member =
  cm_personnelId :: ident
  cm_assignmentId :: "ident option"
  cm_name :: string

record operation_vehicle =
  ov_vehicleId :: ident
  ov_assignmentId :: "ident option"
  ov_name :: string
  ov_callsign :: "string option"
  ov_driverStay :: "bool option"

record reko_summary =
  rs_isRelevant :: bool
  rs_hasDangers :: bool
  rs_dangerTypes :: "string list"
  rs_personnelCount :: "int option"
  rs_estimatedDuration :: "rat option"
  rs_summaryText :: "string option"
  rs_photos :: "string list"

record named_person =
  np_id :: ident
  np_name :: string

text \<open>A request of the field, carried through the board unread: the fields the board names.\<close>

record field_request =
  fr_id :: ident
  fr_kind :: string
  fr_status :: string
  fr_label :: string

record operation =
  op_id :: ident
  op_number :: "int option"
  op_location :: string
  op_locationDisplay :: "string option"
  op_vehicle :: "string option"
  op_vehicles :: "operation_vehicle list"
  op_incidentType :: string
  op_dispatchTime :: js_date
  op_crew :: "crew_member list"
  op_priority :: priority
  op_status :: incident_status
  op_coordinates :: coordinates
  op_materials :: "ident list"
  op_notes :: string
  op_contact :: string
  op_contactPhone :: string
  op_internalNotes :: string
  op_nachbarhilfe :: bool
  op_nachbarhilfeNote :: string
  op_amWarten :: bool
  op_amWartenNote :: string
  op_zuFuss :: bool
  op_groupId :: "ident option"
  op_groupPosition :: int
  op_source :: "string option"
  op_fromRealAlarm :: "bool option"
  op_possibleDuplicateOf :: "ident option"
  op_statusChangedAt :: "js_date option"
  op_hasCompletedReko :: bool
  op_rekoArrivedAt :: "js_date option"
  op_rekoArrivedByKp :: "bool option"
  op_fieldCompleteReportedAt :: "js_date option"
  op_fieldCompleteReportedBy :: "ident option"
  op_fieldArrivedAt :: "js_date option"
  op_fieldArrivedBy :: "ident option"
  op_fieldArrivedByAutomation :: "bool option"
  op_pickupNeeded :: "bool option"
  op_pickupNote :: "string option"
  op_pickupRequestedAt :: "js_date option"
  op_pickupRequestedBy :: "ident option"
  op_fieldRequests :: "field_request list option"
  op_hasSchadenplatzRapport :: "bool option"
  op_hasSchadenplatzRapportDraft :: "bool option"
  op_hasBeenDispatched :: "bool option"
  op_rekoSummary :: "reko_summary option"
  op_assignedReko :: "named_person option"
  op_leaderId :: "ident option"
  op_leaderName :: "string option"
  op_materialAssignments :: "ident \<rightharpoonup> ident"

section \<open>Roster, depot, fleet\<close>

datatype person_status = PAvailable | PAssigned | PUnavailable

record person =
  p_id :: ident
  p_name :: string
  p_role :: "string option"
  p_status :: person_status
  p_tags :: "string list"
  p_isReko :: bool
  p_isOnAuftrag :: bool
  p_isDriver :: bool
  p_driverVehicleId :: "ident option"
  p_driverVehicleName :: "string option"
  p_isMagazin :: bool
  p_isTelefondienst :: bool
  p_isKommandoposten :: bool
  p_roleSortOrder :: int
  p_checkedInAt :: "string option"

datatype material_status = MAvailable | MAssigned

record material =
  m_id :: ident
  m_name :: string
  m_category :: string
  m_type :: string
  m_status :: material_status
  m_outOfService :: bool
  m_outOfServiceSince :: "string option"
  m_categorySortOrder :: int
  m_consumable :: bool
  m_groupId :: "ident option"

record api_vehicle =
  v_id :: ident
  v_name :: string
  v_type :: string
  v_display_order :: int
  v_radio_call_sign :: string
  v_out_of_service :: bool

section \<open>Payloads of the board load\<close>

datatype function_type = FDriver | FReko | FMagazin | FTelefondienst | FKommandoposten

record special_function =
  sf_personnel_id :: ident
  sf_function_type :: function_type
  sf_vehicle_id :: "ident option"
  sf_vehicle_name :: "string option"

datatype resource_kind = KPersonnel | KVehicle | KMaterial

text \<open>\<^verbatim>\<open>resource_type\<close> is a plain string on the wire; a word that is none of the three is
  \<open>None\<close> and no branch of the code takes it.\<close>

record api_assignment =
  a_id :: ident
  a_incident_id :: ident
  a_resource_type :: "resource_kind option"
  a_resource_id :: ident
  a_driver_stay :: bool
  a_is_leader :: bool

record dangers =
  d_fire :: bool
  d_fire_danger :: bool
  d_explosion :: bool
  d_collapse :: bool
  d_chemical :: bool
  d_electrical :: bool

record effort =
  e_personnel_count :: "int option"
  e_estimated_duration_hours :: "rat option"

record api_reko_summary =
  ars_has_completed_reko :: bool
  ars_is_relevant :: "bool option"
  ars_dangers :: "dangers option"
  ars_effort :: "effort option"
  ars_summary_text :: "string option"
  ars_photos :: "string list option"

record api_incident =
  i_id :: ident
  i_number :: "int option"
  i_title :: string
  i_type :: string
  i_priority :: priority
  i_location_address :: "string option"
  i_location_display :: "string option"
  i_location_lat :: "string option"
  i_location_lng :: "string option"
  i_status :: incident_status
  i_group_id :: "ident option"
  i_group_position :: "int option"
  i_source :: "string option"
  i_from_real_alarm :: "bool option"
  i_description :: "string option"
  i_contact :: "string option"
  i_contact_phone :: "string option"
  i_internal_notes :: "string option"
  i_nachbarhilfe :: bool
  i_nachbarhilfe_note :: "string option"
  i_am_warten :: bool
  i_am_warten_note :: "string option"
  i_zu_fuss :: bool
  i_created_at :: string
  i_status_changed_at :: "string option"
  i_has_completed_reko :: bool
  i_reko_arrived_at :: "string option"
  i_reko_arrived_by_kp :: "bool option"
  i_field_complete_reported_at :: "string option"
  i_field_complete_reported_by :: "ident option"
  i_field_arrived_at :: "string option"
  i_field_arrived_by :: "ident option"
  i_field_arrived_by_automation :: "bool option"
  i_has_schadenplatz_rapport :: "bool option"
  i_has_schadenplatz_rapport_draft :: "bool option"
  i_has_been_dispatched :: "bool option"
  i_pickup_needed :: "bool option"
  i_pickup_note :: "string option"
  i_pickup_requested_at :: "string option"
  i_pickup_requested_by :: "ident option"
  i_field_requests :: "field_request list option"
  i_leader_name :: "string option"
  i_effective_leader_id :: "ident option"
  i_possible_duplicate_of_id :: "ident option"

record restliste_unit =
  ru_incident_id :: ident
  ru_incident_title :: "string option"
  ru_location_address :: "string option"
  ru_material_id :: "ident option"
  ru_since :: "string option"

section \<open>Blank rows\<close>

text \<open>A card, a person and a device with nothing on them, the starting point of the concrete
  inputs of the development.\<close>

definition blank_card :: "ident \<Rightarrow> incident_status \<Rightarrow> operation" where
  "blank_card i s =
     \<lparr>op_id = i, op_number = None, op_location = [], op_locationDisplay = None, op_vehicle = None,
      op_vehicles = [], op_incidentType = [], op_dispatchTime = None, op_crew = [],
      op_priority = Low, op_status = s, op_coordinates = None, op_materials = [], op_notes = [],
      op_contact = [], op_contactPhone = [], op_internalNotes = [], op_nachbarhilfe = False,
      op_nachbarhilfeNote = [], op_amWarten = False, op_amWartenNote = [], op_zuFuss = False,
      op_groupId = None, op_groupPosition = 0, op_source = None, op_fromRealAlarm = None,
      op_possibleDuplicateOf = None, op_statusChangedAt = None, op_hasCompletedReko = False,
      op_rekoArrivedAt = None, op_rekoArrivedByKp = None, op_fieldCompleteReportedAt = None,
      op_fieldCompleteReportedBy = None, op_fieldArrivedAt = None, op_fieldArrivedBy = None,
      op_fieldArrivedByAutomation = None, op_pickupNeeded = None, op_pickupNote = None,
      op_pickupRequestedAt = None, op_pickupRequestedBy = None, op_fieldRequests = None,
      op_hasSchadenplatzRapport = None, op_hasSchadenplatzRapportDraft = None,
      op_hasBeenDispatched = None, op_rekoSummary = None, op_assignedReko = None,
      op_leaderId = None, op_leaderName = None, op_materialAssignments = Map.empty\<rparr>"

definition blank_person :: "ident \<Rightarrow> person" where
  "blank_person i =
     \<lparr>p_id = i, p_name = i, p_role = None, p_status = PAvailable, p_tags = [], p_isReko = False,
      p_isOnAuftrag = False, p_isDriver = False, p_driverVehicleId = None,
      p_driverVehicleName = None, p_isMagazin = False, p_isTelefondienst = False,
      p_isKommandoposten = False, p_roleSortOrder = 0, p_checkedInAt = None\<rparr>"

definition blank_material :: "ident \<Rightarrow> material" where
  "blank_material i =
     \<lparr>m_id = i, m_name = i, m_category = [], m_type = [], m_status = MAvailable,
      m_outOfService = False, m_outOfServiceSince = None, m_categorySortOrder = 0,
      m_consumable = False, m_groupId = None\<rparr>"

lemma blank_card_simps [simp]:
  "op_id (blank_card i s) = i" "op_status (blank_card i s) = s" "op_crew (blank_card i s) = []"
  "op_vehicles (blank_card i s) = []" "op_materials (blank_card i s) = []"
  "op_groupId (blank_card i s) = None" "op_materialAssignments (blank_card i s) = Map.empty"
  by (simp_all add: blank_card_def)

lemma blank_person_simps [simp]: "p_id (blank_person i) = i" "p_status (blank_person i) = PAvailable"
  by (simp_all add: blank_person_def)

lemma blank_material_simps [simp]: "m_id (blank_material i) = i" "m_status (blank_material i) = MAvailable"
  "m_outOfService (blank_material i) = False" "m_consumable (blank_material i) = False"
  by (simp_all add: blank_material_def)

end
