(* ===== verification/Durations.thy ===== *)
theory Durations
  imports BoardTypes
begin

text \<open>
  \<^verbatim>\<open>frontend/lib/duration.ts\<close>: a span in milliseconds split into days, hours and minutes, and
  its notations on the board (\<open>12'\<close>, \<open>1h 23'\<close>, \<open>1d 10h\<close>), in the header clock and spoken.
  A span is \<open>None\<close> where the number of the language is not finite.
\<close>

section \<open>Decimal notation of a number\<close>

fun show_nat :: "nat \<Rightarrow> string" where
  "show_nat n = (if n < 10 then [char_of (48 + n)] else show_nat (n div 10) @ [char_of (48 + n mod 10)])"

declare show_nat.simps [simp del]

fun read_digits :: "nat \<Rightarrow> string \<Rightarrow> nat" where
  "read_digits acc [] = acc"
| "read_digits acc (c # cs) = read_digits (10 * acc + (of_char c - 48)) cs"

lemma read_digits_append: "read_digits acc (xs @ ys) = read_digits (read_digits acc xs) ys"
  by (induction xs arbitrary: acc) auto

lemma read_show_nat: "read_digits 0 (show_nat n) = n"
proof (induction n rule: show_nat.induct)
  case (1 n)
  show ?case
  proof (cases "n < 10")
    case True
    then show ?thesis by (subst show_nat.simps) simp
  next
    case False
    with "1.IH" have "read_digits 0 (show_nat (n div 10)) = n div 10" by simp
    moreover have "48 + n mod 10 < 256" by simp
    ultimately show ?thesis
      using False by (subst show_nat.simps) (simp add: read_digits_append)
  qed
qed

lemma show_nat_inj: "show_nat m = show_nat n \<longleftrightarrow> m = n"
  by (metis read_show_nat)

definition is_digit :: "char \<Rightarrow> bool" where
  "is_digit c = (48 \<le> (of_char c :: nat) \<and> (of_char c :: nat) \<le> 57)"

lemma show_nat_digits: "c \<in> set (show_nat n) \<Longrightarrow> is_digit c"
proof (induction n rule: show_nat.induct)
  case (1 n)
  have m: "n mod 10 < 10" by simp
  show ?case
  proof (cases "n < 10")
    case True
    with "1.prems" show ?thesis
      by (auto simp: show_nat.simps [of n] is_digit_def)
  next
    case False
    with 1 m show ?thesis
      by (auto simp: show_nat.simps [of n] is_digit_def)
  qed
qed

lemma show_nat_not_Nil [simp]: "show_nat n \<noteq> []"
  by (subst show_nat.simps) simp

definition pad_start2 :: "string \<Rightarrow> string" where
  "pad_start2 s = replicate (2 - length s) (CHR ''0'') @ s"

section \<open>Splitting\<close>

record duration_parts =
  totalMinutes :: nat
  days :: nat
  hours :: nat
  minutes :: nat

definition minute_ms :: int where
  "minute_ms = 60000"

definition split_duration :: "ms option \<Rightarrow> duration_parts" where
  "split_duration sp =
     (let total = (case sp of None \<Rightarrow> 0 | Some t \<Rightarrow> nat (max 0 (t div minute_ms)));
          totalHours = total div 60
      in \<lparr>totalMinutes = total, days = totalHours div 24, hours = totalHours mod 24,
          minutes = total mod 60\<rparr>)"

datatype duration_style = BoardStyle | ClockStyle

definition format_duration :: "ms option \<Rightarrow> duration_style \<Rightarrow> string" where
  "format_duration sp style =
     (let p = split_duration sp
      in if days p > 0 then show_nat (days p) @ ''d '' @ show_nat (hours p) @ ''h''
         else let totalHours = totalMinutes p div 60
              in (case style of
                    ClockStyle \<Rightarrow>
                      (if totalHours > 0
                       then show_nat totalHours @ ''h '' @ pad_start2 (show_nat (minutes p)) @ ''m''
                       else show_nat (minutes p) @ ''m'')
                  | BoardStyle \<Rightarrow>
                      (if totalHours > 0
                       then show_nat totalHours @ ''h '' @ show_nat (minutes p) @ [CHR 0x27]
                       else show_nat (minutes p) @ [CHR 0x27])))"

definition format_duration_since :: "js_date \<Rightarrow> ms \<Rightarrow> duration_style \<Rightarrow> string" where
  "format_duration_since since now style = format_duration (map_option (\<lambda>t. now - t) since) style"

datatype duration_unit = UDays | UHours | UMinutes

definition format_duration_long :: "ms option \<Rightarrow> (duration_unit \<Rightarrow> nat \<Rightarrow> string) \<Rightarrow> string" where
  "format_duration_long sp t =
     (let p = split_duration sp
      in if days p > 0
         then (if hours p > 0 then t UDays (days p) @ '' '' @ t UHours (hours p) else t UDays (days p))
         else let totalHours = totalMinutes p div 60
              in if totalHours > 0
                 then (if minutes p > 0 then t UHours totalHours @ '' '' @ t UMinutes (minutes p)
                       else t UHours totalHours)
                 else t UMinutes (minutes p))"

section \<open>Properties\<close>

lemma split_duration_total:
  "totalMinutes (split_duration sp) =
     1440 * days (split_duration sp) + 60 * hours (split_duration sp) + minutes (split_duration sp)"
proof -
  have eq: "m = 1440 * (m div 60 div 24) + 60 * (m div 60 mod 24) + m mod 60" for m :: nat
  proof -
    have "m = 60 * (m div 60) + m mod 60" by simp
    moreover have "m div 60 = 24 * (m div 60 div 24) + m div 60 mod 24" by simp
    ultimately show ?thesis by linarith
  qed
  show ?thesis unfolding split_duration_def Let_def by (simp only: duration_parts.simps) (rule eq)
qed

lemma split_duration_bounds:
  "hours (split_duration sp) < 24" "minutes (split_duration sp) < 60"
  by (simp_all add: split_duration_def Let_def)

lemma split_duration_minutes:
  "0 \<le> t \<Longrightarrow> int (totalMinutes (split_duration (Some t))) = t div 60000"
  by (simp add: split_duration_def Let_def minute_ms_def pos_imp_zdiv_nonneg_iff)

lemma split_duration_nonpos: "t \<le> 0 \<Longrightarrow> totalMinutes (split_duration (Some t)) = 0"
proof -
  assume "t \<le> 0"
  then have "t div 60000 \<le> 0 div 60000" by (rule zdiv_mono1) simp
  then show ?thesis by (simp add: split_duration_def Let_def minute_ms_def)
qed

lemma days_zero_iff: "days (split_duration sp) = 0 \<longleftrightarrow> totalMinutes (split_duration sp) < 1440"
  using split_duration_total [of sp] split_duration_bounds [of sp] by linarith

text \<open>A number followed by a non-digit is read back up to that character.\<close>

lemma show_nat_prefix_inj:
  assumes "show_nat m @ c # xs = show_nat n @ d # ys" "\<not> is_digit c" "\<not> is_digit d"
  shows "m = n \<and> c = d \<and> xs = ys"
proof -
  have tw: "takeWhile is_digit (show_nat k @ e # zs) = show_nat k" if "\<not> is_digit e" for k e zs
    using that by (subst takeWhile_append2) (auto intro: show_nat_digits)
  from assms have "show_nat m = show_nat n" by (metis tw)
  with assms(1) show ?thesis by (simp add: show_nat_inj)
qed

lemma nondigits [simp]: "\<not> is_digit (CHR ''h'')" "\<not> is_digit (CHR ''d'')" "\<not> is_digit (CHR 0x27)"
  "\<not> is_digit (CHR ''m'')"
  by (simp_all add: is_digit_def)

lemma format_board_below_day:
  "totalMinutes (split_duration sp) < 1440 \<Longrightarrow>
     format_duration sp BoardStyle =
       (let total = totalMinutes (split_duration sp)
        in if total \<ge> 60 then show_nat (total div 60) @ CHR ''h'' # CHR '' '' # show_nat (total mod 60) @ [CHR 0x27]
           else show_nat total @ [CHR 0x27])"
proof -
  assume "totalMinutes (split_duration sp) < 1440"
  then have d: "days (split_duration sp) = 0" by (simp add: days_zero_iff)
  moreover have "minutes (split_duration sp) = totalMinutes (split_duration sp) mod 60"
    by (simp add: split_duration_def Let_def)
  ultimately show ?thesis
    by (auto simp: format_duration_def Let_def div_greater_zero_iff not_le)
qed

lemma format_board_inj:
  assumes "totalMinutes (split_duration a) < 1440" "totalMinutes (split_duration b) < 1440"
    and eq: "format_duration a BoardStyle = format_duration b BoardStyle"
  shows "totalMinutes (split_duration a) = totalMinutes (split_duration b)"
proof -
  let ?a = "totalMinutes (split_duration a)" and ?b = "totalMinutes (split_duration b)"
  note fa = format_board_below_day [OF assms(1), unfolded Let_def]
    and fb = format_board_below_day [OF assms(2), unfolded Let_def]
  note eq' = eq [unfolded fa fb]
  consider "?a \<ge> 60" "?b \<ge> 60" | "?a \<ge> 60" "?b < 60" | "?a < 60" "?b \<ge> 60" | "?a < 60" "?b < 60"
    by linarith
  then show ?thesis
  proof cases
    case 1
    with eq' have
      "show_nat (?a div 60) @ CHR ''h'' # CHR '' '' # show_nat (?a mod 60) @ [CHR 0x27] =
       show_nat (?b div 60) @ CHR ''h'' # CHR '' '' # show_nat (?b mod 60) @ [CHR 0x27]" by simp
    from show_nat_prefix_inj [OF this] have "?a div 60 = ?b div 60" "?a mod 60 = ?b mod 60"
      by (auto simp: show_nat_inj)
    then show ?thesis by (metis div_mult_mod_eq)
  next
    case 2
    with eq' have "show_nat (?a div 60) @ CHR ''h'' # CHR '' '' # show_nat (?a mod 60) @ [CHR 0x27]
      = show_nat ?b @ CHR 0x27 # []" by simp
    from show_nat_prefix_inj [OF this] show ?thesis by simp
  next
    case 3
    with eq' have "show_nat (?b div 60) @ CHR ''h'' # CHR '' '' # show_nat (?b mod 60) @ [CHR 0x27]
      = show_nat ?a @ CHR 0x27 # []" by simp
    from show_nat_prefix_inj [OF this] show ?thesis by simp
  next
    case 4
    with eq' show ?thesis by (simp add: show_nat_inj)
  qed
qed

text \<open>
  For every two spans below one day, the board's notation is the same text exactly
  when the spans have the same whole minutes: the chip neither merges nor splits minutes, and a
  span of a negative length (clock skew) reads like zero.
\<close>

theorem board_duration_faithful:
  assumes "a < 86400000" "b < 86400000"
  shows "format_duration (Some a) BoardStyle = format_duration (Some b) BoardStyle \<longleftrightarrow>
         max 0 (a div 60000) = max 0 (b div 60000)"
proof -
  have tm: "int (totalMinutes (split_duration (Some t))) = max 0 (t div 60000)" for t
    by (simp add: split_duration_def Let_def minute_ms_def)
  have lt: "totalMinutes (split_duration (Some t)) < 1440" if "t < 86400000" for t
  proof -
    from that have "t div 60000 < 1440" by (simp add: div_less_iff_less_mult)
    with tm [of t] show ?thesis by linarith
  qed
  show ?thesis
  proof
    assume "format_duration (Some a) BoardStyle = format_duration (Some b) BoardStyle"
    from format_board_inj [OF lt [OF assms(1)] lt [OF assms(2)] this]
    have "int (totalMinutes (split_duration (Some a))) = int (totalMinutes (split_duration (Some b)))"
      by (rule arg_cong)
    then show "max 0 (a div 60000) = max 0 (b div 60000)" by (simp only: tm)
  next
    assume "max 0 (a div 60000) = max 0 (b div 60000)"
    with tm [of a] tm [of b] have eq: "totalMinutes (split_duration (Some a)) = totalMinutes (split_duration (Some b))"
      by linarith
    with format_board_below_day [OF lt [OF assms(1)]] format_board_below_day [OF lt [OF assms(2)]]
    show "format_duration (Some a) BoardStyle = format_duration (Some b) BoardStyle" by simp
  qed
qed

theorem board_duration_faithful_witness:
  "format_duration (Some 4980000) BoardStyle \<noteq> format_duration (Some 5040000) BoardStyle"
  using board_duration_faithful [of 4980000 5040000] by simp

end
