(* ===== verification/JsText.thy ===== *)
theory JsText
  imports KpPrelude "HOL-Library.Sublist" "HOL-Library.Char_ord"
begin

text \<open>
  The string functions of the language on the model's text. A \<open>string\<close> is a list of 8-bit
  characters, read as the first 256 code points of Unicode (Latin-1, which holds every letter
  of the station's German); on those the functions below compute what the engine computes.
\<close>

section \<open>Case, white space, substrings\<close>

definition lower_char :: "char \<Rightarrow> char" where
  "lower_char c =
     (let n = (of_char c :: nat)
      in if (65 \<le> n \<and> n \<le> 90) \<or> (192 \<le> n \<and> n \<le> 222 \<and> n \<noteq> 215) then char_of (n + 32) else c)"

definition js_lower :: "string \<Rightarrow> string" where
  "js_lower s = map lower_char s"

definition is_space :: "char \<Rightarrow> bool" where
  "is_space c = (let n = (of_char c :: nat) in (9 \<le> n \<and> n \<le> 13) \<or> n = 32 \<or> n = 160)"

definition trim_start :: "string \<Rightarrow> string" where
  "trim_start s = dropWhile is_space s"

definition trim_end :: "string \<Rightarrow> string" where
  "trim_end s = rev (dropWhile is_space (rev s))"

definition js_trim :: "string \<Rightarrow> string" where
  "js_trim s = trim_end (trim_start s)"

definition str_includes :: "string \<Rightarrow> string \<Rightarrow> bool" where
  "str_includes s sub = sublist sub s"

definition starts_with :: "string \<Rightarrow> string \<Rightarrow> bool" where
  "starts_with s pre = prefix pre s"

fun str_join :: "string \<Rightarrow> string list \<Rightarrow> string" where
  "str_join sep [] = []"
| "str_join sep [x] = x"
| "str_join sep (x # y # ys) = x @ sep @ str_join sep (y # ys)"

text \<open>\<^verbatim>\<open>split\<close> at single characters: \<open>split_on\<close> for a class of characters, \<open>js_split\<close> for one.\<close>

fun split_on :: "(char \<Rightarrow> bool) \<Rightarrow> string \<Rightarrow> string list" where
  "split_on P [] = [[]]"
| "split_on P (c # cs) =
     (if P c then [] # split_on P cs
      else case split_on P cs of w # ws \<Rightarrow> (c # w) # ws | [] \<Rightarrow> [[c]])"

definition js_split :: "char \<Rightarrow> string \<Rightarrow> string list" where
  "js_split sep s = split_on (\<lambda>c. c = sep) s"

section \<open>Facts\<close>

lemma char_code_less: "(of_char c :: nat) < 256"
  by (metis of_char_mod_256 mod_less_divisor zero_less_numeral)

lemma lower_char_fixed: "of_char (lower_char c) \<notin> {65..90::nat}"
proof -
  have "(of_char c :: nat) < 256" by (rule char_code_less)
  then show ?thesis by (auto simp: lower_char_def Let_def)
qed

lemma lower_char_idem [simp]: "lower_char (lower_char c) = lower_char c"
proof -
  have b: "(of_char c :: nat) < 256" by (rule char_code_less)
  show ?thesis
  proof (cases "(65 \<le> (of_char c :: nat) \<and> of_char c \<le> (90 :: nat)) \<or>
                (192 \<le> (of_char c :: nat) \<and> of_char c \<le> (222 :: nat) \<and> of_char c \<noteq> (215 :: nat))")
    case True
    then have "lower_char c = char_of (of_char c + 32 :: nat)" by (simp add: lower_char_def Let_def)
    moreover from True have "(of_char c :: nat) + 32 < 256" by auto
    ultimately show ?thesis using True by (auto simp: lower_char_def Let_def)
  next
    case False
    then have "lower_char c = c" by (simp only: lower_char_def Let_def if_False)
    then show ?thesis by simp
  qed
qed

lemma js_lower_idem [simp]: "js_lower (js_lower s) = js_lower s"
  by (simp add: js_lower_def)

lemma str_includes_refl [simp]: "str_includes s s"
  by (simp add: str_includes_def)

lemma str_includes_Nil [simp]: "str_includes s []"
  by (simp add: str_includes_def)

lemma starts_with_Nil [simp]: "starts_with s []"
  by (simp add: starts_with_def)

lemma starts_with_includes: "starts_with s p \<Longrightarrow> str_includes s p"
  by (simp add: starts_with_def str_includes_def)

lemma trim_end_fixed: "s = [] \<or> \<not> is_space (last s) \<Longrightarrow> trim_end s = s"
  by (cases s rule: rev_cases) (auto simp: trim_end_def)

lemma js_trim_Nil [simp]: "js_trim [] = []"
  by (simp add: js_trim_def trim_start_def trim_end_def)

lemma trim_end_last: "trim_end s = [] \<or> \<not> is_space (last (trim_end s))"
proof (cases "dropWhile is_space (rev s)")
  case (Cons c cs)
  then have "\<not> is_space c" by (simp add: dropWhile_eq_Cons_conv)
  with Cons show ?thesis by (simp add: trim_end_def)
qed (simp add: trim_end_def)

lemma trim_end_prefix: "prefix (trim_end s) s"
  by (metis suffix_dropWhile suffix_to_prefix rev_rev_ident trim_end_def)

lemma trim_start_fixed: "s = [] \<or> \<not> is_space (hd s) \<Longrightarrow> trim_start s = s"
  by (cases s) (auto simp: trim_start_def)

lemma trim_start_hd: "trim_start s = [] \<or> \<not> is_space (hd (trim_start s))"
  by (metis hd_dropWhile trim_start_def)

lemma prefix_hd: "prefix p s \<Longrightarrow> p = [] \<or> hd p = hd s \<and> s \<noteq> []"
  by (cases p; cases s) auto

lemma js_trim_idem [simp]: "js_trim (js_trim s) = js_trim s"
proof -
  from prefix_hd [OF trim_end_prefix [of "trim_start s"]] trim_start_hd [of s]
  have "js_trim s = [] \<or> \<not> is_space (hd (js_trim s))" by (auto simp: js_trim_def)
  then have "trim_start (js_trim s) = js_trim s" by (rule trim_start_fixed)
  moreover have "trim_end (js_trim s) = js_trim s"
    unfolding js_trim_def by (rule trim_end_fixed) (rule trim_end_last)
  ultimately show ?thesis by (metis js_trim_def)
qed

lemma split_on_plain: "\<forall>c\<in>set s. \<not> P c \<Longrightarrow> split_on P s = [s]"
  by (induction s) auto

lemma split_on_first: "\<forall>c\<in>set w. \<not> P c \<Longrightarrow> P c \<Longrightarrow> split_on P (w @ c # r) = w # split_on P r"
  by (induction w) auto

lemma js_split_join: "ws \<noteq> [] \<Longrightarrow> (\<And>w. w \<in> set ws \<Longrightarrow> c \<notin> set w) \<Longrightarrow> js_split c (str_join [c] ws) = ws"
proof (induction "[c]" ws rule: str_join.induct)
  case (2 x)
  then have "\<forall>d\<in>set x. d \<noteq> c" by auto
  then show ?case by (simp add: js_split_def split_on_plain)
next
  case (3 x y ys)
  then have "\<forall>d\<in>set x. d \<noteq> c" by auto
  then have "js_split c (str_join [c] (x # y # ys)) = x # js_split c (str_join [c] (y # ys))"
    by (simp add: js_split_def split_on_first)
  with 3 show ?case by simp
qed simp

end
