(* ===== verification/Kanban.thy ===== *)
theory Kanban
  imports Durations JsText "HOL-Library.Word"
begin

text \<open>
  \<^verbatim>\<open>frontend/lib/kanban-utils.ts\<close>: the board's columns, the colour a card takes, the stops of an
  Auftrag (incident group) and which of them may be started, and the age of a card.
\<close>

section \<open>Columns and status accents\<close>

record status_accent =
  sa_surface :: string
  sa_border :: string
  sa_text :: string
  sa_dot :: string

definition neutral_accent :: status_accent where
  "neutral_accent =
     \<lparr>sa_surface = ''bg-zinc-200/80 dark:bg-zinc-800/70'', sa_border = ''border-l-zinc-500'',
      sa_text = ''text-zinc-600 dark:text-zinc-400'', sa_dot = ''bg-zinc-500''\<rparr>"

fun status_accent_of :: "incident_status \<Rightarrow> status_accent" where
  "status_accent_of Incoming = neutral_accent"
| "status_accent_of Reko =
     \<lparr>sa_surface = ''bg-violet-100/80 dark:bg-violet-950/70'', sa_border = ''border-l-violet-500'',
      sa_text = ''text-violet-700 dark:text-violet-400'', sa_dot = ''bg-violet-500''\<rparr>"
| "status_accent_of RekoDone = neutral_accent"
| "status_accent_of Enroute = neutral_accent"
| "status_accent_of Active =
     \<lparr>sa_surface = ''bg-fuchsia-100/80 dark:bg-fuchsia-950/70'', sa_border = ''border-l-fuchsia-500'',
      sa_text = ''text-fuchsia-700 dark:text-fuchsia-400'', sa_dot = ''bg-fuchsia-500''\<rparr>"
| "status_accent_of Returning = neutral_accent"
| "status_accent_of Complete = neutral_accent"

record board_column =
  col_id :: incident_status
  col_status :: "incident_status list"
  col_color :: string
  col_collapsible :: bool

definition mk_column :: "incident_status \<Rightarrow> bool \<Rightarrow> board_column" where
  "mk_column s folded = \<lparr>col_id = s, col_status = [s], col_color = sa_surface (status_accent_of s),
                       col_collapsible = folded\<rparr>"

definition columns :: "board_column list" where
  "columns =
     [mk_column Incoming False, mk_column Reko False, mk_column RekoDone False,
      mk_column Enroute False, mk_column Active False, mk_column Returning False,
      mk_column Complete True]"

definition default_collapsed_column_ids :: "incident_status list" where
  "default_collapsed_column_ids = map col_id (filter col_collapsible columns)"

definition status_badge_class :: "incident_status \<Rightarrow> string" where
  "status_badge_class s =
     ''border-transparent '' @ sa_surface (status_accent_of s) @ '' '' @ sa_text (status_accent_of s)"

text \<open>\<^verbatim>\<open>findIndex\<close>: \<open>- 1\<close> where nothing matches.\<close>

fun find_index :: "('a \<Rightarrow> bool) \<Rightarrow> 'a list \<Rightarrow> int" where
  "find_index P [] = - 1"
| "find_index P (x # xs) =
     (if P x then 0 else let i = find_index P xs in if i < 0 then - 1 else i + 1)"

definition status_column_index :: "incident_status \<Rightarrow> int" where
  "status_column_index s = find_index (\<lambda>c. js_includes (col_status c) s) columns"

definition is_backward_transition :: "incident_status \<Rightarrow> incident_status \<Rightarrow> bool" where
  "is_backward_transition fr to =
     (let i = status_column_index fr; j = status_column_index to
      in if i < 0 \<or> j < 0 then False else j < i)"

section \<open>Colours\<close>

datatype color_dimension = ByPriority | ByReko | ByVehicle | ByType | ByAuftrag

record color_group =
  cg_key :: string
  cg_label :: string
  cg_color :: string

record color_group_source =
  cgs_id :: ident
  cgs_name :: string
  cgs_color :: "string option"

definition accent_palette :: "string list" where
  "accent_palette =
     [''#ef4444'', ''#f97316'', ''#eab308'', ''#22c55e'', ''#14b8a6'',
      ''#3b82f6'', ''#6366f1'', ''#a855f7'', ''#ec4899'', ''#0ea5e9'',
      ''#84cc16'', ''#f43f5e'']"

definition priority_colors :: "(string \<times> string) list" where
  "priority_colors = [(''high'', ''#ef4444''), (''medium'', ''#f59e0b''), (''low'', ''#94a3b8'')]"

fun priority_label :: "priority \<Rightarrow> string" where
  "priority_label High = ''Hoch''"
| "priority_label Medium = ''Mittel''"
| "priority_label Low = ''Niedrig''"

fun priority_word :: "priority \<Rightarrow> string" where
  "priority_word High = ''high''"
| "priority_word Medium = ''medium''"
| "priority_word Low = ''low''"

definition incident_type_marker_colors :: "(string \<times> string) list" where
  "incident_type_marker_colors =
     [(''brandbekaempfung'', ''#ef4444''), (''bma_unechte_alarme'', ''#991b1b''),
      (''elementarereignis'', ''#3b82f6''), (''oelwehr'', ''#f97316''),
      (''chemiewehr'', ''#eab308''), (''strahlenwehr'', ''#d946ef''),
      (''strassenrettung'', ''#22c55e''), (''technische_hilfeleistung'', ''#14b8a6''),
      (''einsatz_bahnanlagen'', ''#92400e''), (''dienstleistungen'', ''#8b5cf6''),
      (''diverse_einsaetze'', ''#64748b''), (''gerettete_menschen'', ''#64748b''),
      (''gerettete_tiere'', ''#64748b'')]"

text \<open>The hash runs in 32 bits (\<^verbatim>\<open>| 0\<close>); the intermediate \<^verbatim>\<open>h * 31 + code\<close> stays far below
  \<open>2 ^ 53\<close>, so the double is exact and the wrap is the word's.\<close>

definition hash_step :: "32 word \<Rightarrow> char \<Rightarrow> 32 word" where
  "hash_step h c = h * 31 + word_of_nat (of_char c)"

definition hash_string :: "string \<Rightarrow> nat" where
  "hash_string s = nat \<bar>sint (foldl hash_step 0 s)\<bar>"

definition color_accent :: "string \<Rightarrow> color_dimension \<Rightarrow> color_group_source list \<Rightarrow> string" where
  "color_accent key dmn groups =
     (let hashed = accent_palette ! (hash_string key mod length accent_palette)
      in case dmn of
           ByPriority \<Rightarrow> (case map_of priority_colors key of Some c \<Rightarrow> c | None \<Rightarrow> ''#64748b'')
         | ByType \<Rightarrow> (case map_of incident_type_marker_colors key of Some c \<Rightarrow> c | None \<Rightarrow> hashed)
         | ByAuftrag \<Rightarrow>
             (case List.find (\<lambda>g. cgs_id g = key) groups of
                Some g \<Rightarrow> or_str (cgs_color g) hashed
              | None \<Rightarrow> hashed)
         | _ \<Rightarrow> hashed)"

definition color_group_for ::
  "(string \<Rightarrow> string) \<Rightarrow> operation \<Rightarrow> color_dimension \<Rightarrow> color_group_source list \<Rightarrow> color_group option" where
  "color_group_for type_label op dmn groups =
     (let (key, label, hueKey) =
        (case dmn of
           ByReko \<Rightarrow> (map_option np_id (op_assignedReko op), map_option np_name (op_assignedReko op), None)
         | ByVehicle \<Rightarrow>
             (case op_vehicles op of
                [] \<Rightarrow> (None, None, None)
              | v # _ \<Rightarrow> (Some (ov_vehicleId v), Some (ov_name v), Some (ov_name v)))
         | ByType \<Rightarrow>
             (Some (op_incidentType op),
              if op_incidentType op = [] then None else Some (type_label (op_incidentType op)), None)
         | ByPriority \<Rightarrow>
             (Some (priority_word (op_priority op)), Some (priority_label (op_priority op)), None)
         | ByAuftrag \<Rightarrow>
             (op_groupId op,
              (case or_null (op_groupId op) of
                 None \<Rightarrow> None
               | Some k \<Rightarrow> map_option cgs_name (List.find (\<lambda>g. cgs_id g = k) groups)), None))
      in case or_null key of
           None \<Rightarrow> None
         | Some k \<Rightarrow> Some \<lparr>cg_key = k, cg_label = nullish label k,
                            cg_color = color_accent (nullish hueKey k) dmn groups\<rparr>)"

section \<open>Stops of an Auftrag\<close>

record incident_group =
  ig_id :: ident
  ig_name :: string
  ig_stopIds :: "ident list"
  ig_assignments :: "(resource_kind \<times> ident) list"

definition find_auftrag_for_stop :: "incident_group list \<Rightarrow> operation option \<Rightarrow> incident_group option" where
  "find_auftrag_for_stop groups op =
     (case op of
        None \<Rightarrow> None
      | Some o1 \<Rightarrow>
          let by_stops = List.find (\<lambda>g. js_includes (ig_stopIds g) (op_id o1)) groups
          in (case or_null (op_groupId o1) of
                None \<Rightarrow> by_stops
              | Some gid \<Rightarrow>
                  (case List.find (\<lambda>g. ig_id g = gid) groups of
                     Some g \<Rightarrow> Some g
                   | None \<Rightarrow> by_stops)))"

definition finished_stop_statuses :: "incident_status list" where
  "finished_stop_statuses = [Returning, Complete]"

definition started_stop_statuses :: "incident_status list" where
  "started_stop_statuses = Active # finished_stop_statuses"

fun remaining_route_stops :: "ident list \<Rightarrow> operation list \<Rightarrow> ident \<Rightarrow> operation list" where
  "remaining_route_stops [] ops exceptId = []"
| "remaining_route_stops (stopId # ids) ops exceptId =
     (if stopId = exceptId then remaining_route_stops ids ops exceptId
      else case List.find (\<lambda>c. op_id c = stopId) ops of
             Some stop \<Rightarrow>
               if \<not> js_includes finished_stop_statuses (op_status stop)
               then stop # remaining_route_stops ids ops exceptId
               else remaining_route_stops ids ops exceptId
           | None \<Rightarrow> remaining_route_stops ids ops exceptId)"

definition startable_next_stop :: "ident list \<Rightarrow> operation list \<Rightarrow> ident \<Rightarrow> operation option" where
  "startable_next_stop stopIds ops exceptId =
     (let stops = List.map_filter (\<lambda>stopId. List.find (\<lambda>c. op_id c = stopId) ops) stopIds
      in if js_some (\<lambda>s. op_id s \<noteq> exceptId \<and> op_status s = Active) stops then None
         else List.find (\<lambda>s. op_id s \<noteq> exceptId \<and> \<not> js_includes started_stop_statuses (op_status s)) stops)"

datatype stop_mirror_status = MIncoming | MEnroute | MActive | MReturning | MComplete

fun stop_status_label_key :: "stop_mirror_status \<Rightarrow> string" where
  "stop_status_label_key MIncoming = ''offen''"
| "stop_status_label_key MEnroute = ''disponiert''"
| "stop_status_label_key MActive = ''einsatz''"
| "stop_status_label_key MReturning = ''beendet''"
| "stop_status_label_key MComplete = ''abgeschlossen''"

fun mirror_column :: "stop_mirror_status \<Rightarrow> incident_status" where
  "mirror_column MIncoming = Incoming"
| "mirror_column MEnroute = Enroute"
| "mirror_column MActive = Active"
| "mirror_column MReturning = Returning"
| "mirror_column MComplete = Complete"

definition stop_status_text_class :: "stop_mirror_status \<Rightarrow> string" where
  "stop_status_text_class m = sa_text (status_accent_of (mirror_column m))"

definition stop_status_border_class :: "stop_mirror_status \<Rightarrow> string" where
  "stop_status_border_class m = sa_border (status_accent_of (mirror_column m))"

definition to_stop_mirror_status :: "operation option \<Rightarrow> stop_mirror_status" where
  "to_stop_mirror_status op =
     (case op of
        None \<Rightarrow> MIncoming
      | Some o1 \<Rightarrow>
          if op_status o1 = Complete then MComplete
          else if op_status o1 = Returning then MReturning
          else if op_status o1 = Active then MActive
          else if op_status o1 = Enroute then MEnroute
          else MIncoming)"

section \<open>Age\<close>

datatype age_class = AgeNormal | AgeWarn | AgeAlarm

definition age_level :: "ms \<Rightarrow> js_date \<Rightarrow> age_class" where
  "age_level now date =
     (case date of
        None \<Rightarrow> AgeNormal
      | Some d \<Rightarrow>
          let mins = max 0 ((now - d) div 60000)
          in if mins \<ge> 120 then AgeAlarm else if mins \<ge> 60 then AgeWarn else AgeNormal)"

definition is_overdue :: "ms \<Rightarrow> operation \<Rightarrow> bool" where
  "is_overdue now op =
     (if op_status op = Complete \<or> op_status op = Returning then False
      else age_level now (nullish (op_statusChangedAt op) (op_dispatchTime op)) \<noteq> AgeNormal)"

definition age_chip_class :: "ms \<Rightarrow> js_date \<Rightarrow> string" where
  "age_chip_class now date =
     (case age_level now date of
        AgeAlarm \<Rightarrow> ''text-red-600 dark:text-red-400 font-medium''
      | AgeWarn \<Rightarrow> ''text-amber-700 dark:text-amber-500 font-medium''
      | AgeNormal \<Rightarrow> ''text-muted-foreground'')"

definition get_time_since :: "js_date \<Rightarrow> ms \<Rightarrow> string" where
  "get_time_since date now = format_duration_since date now BoardStyle"

section \<open>Lemmas\<close>

lemma column_index [simp]: "status_column_index s = int (status_index s)"
  by (cases s) (simp_all add: status_column_index_def columns_def mk_column_def Let_def)

lemma palette_index: "hash_string key mod length accent_palette < length accent_palette"
  by (simp add: accent_palette_def)

lemma hash_string_bound: "hash_string s \<le> 2 ^ 31"
proof -
  have "- (2 ^ 31) \<le> sint (foldl hash_step 0 s)" "sint (foldl hash_step 0 s) < 2 ^ 31"
    using sint_range_size [of "foldl hash_step 0 s"] by (simp_all add: word_size)
  then show ?thesis by (simp add: hash_string_def)
qed

lemma stops_are_found:
  "s \<in> set (List.map_filter (\<lambda>i. List.find (\<lambda>c. op_id c = i) ops) ids) \<Longrightarrow> s \<in> set ops \<and> op_id s \<in> set ids"
  by (auto simp: List.map_filter_def dest: find_SomeD split: option.splits)

lemma remaining_route_stops_filter:
  "remaining_route_stops ids ops ex =
     filter (\<lambda>s. op_id s \<noteq> ex \<and> op_status s \<notin> set finished_stop_statuses)
       (List.map_filter (\<lambda>i. List.find (\<lambda>c. op_id c = i) ops) ids)"
proof (induction ids)
  case Nil
  then show ?case by (simp add: List.map_filter_simps)
next
  case (Cons i ids)
  show ?case
  proof (cases "List.find (\<lambda>c. op_id c = i) ops")
    case None
    with Cons show ?thesis by (simp add: List.map_filter_simps)
  next
    case (Some s)
    then have "op_id s = i" by (auto dest: find_SomeD)
    with Some Cons show ?thesis by (simp add: List.map_filter_simps)
  qed
qed

lemma find_hd_filter: "List.find P xs = (case filter P xs of [] \<Rightarrow> None | x # _ \<Rightarrow> Some x)"
  by (induction xs) auto

lemma mirror_least: "mirror_column (to_stop_mirror_status (Some op1)) \<le> op_status op1"
  by (cases "op_status op1") (simp_all add: to_stop_mirror_status_def less_eq_incident_status_def)

section \<open>Properties\<close>

text \<open>
  A status change is taken for a correction exactly when it goes to an earlier status in
  the board's left-to-right order; so the corrections are a strict linear order: of two different
  statuses exactly one direction is a correction, and no status is its own.
\<close>

theorem backward_is_the_board_order:
  "is_backward_transition a b \<longleftrightarrow> b < a"
  by (simp add: is_backward_transition_def less_incident_status_def Let_def)

text \<open>
  The stop the board offers to start is decided by the same route the board calls
  unfinished: nothing while another unfinished stop is in Einsatz, and otherwise the first of the
  remaining stops in route order. The two functions never name different stops.
\<close>

theorem startable_is_first_remaining:
  "startable_next_stop ids ops ex =
     (if \<exists>s\<in>set (remaining_route_stops ids ops ex). op_status s = Active then None
      else case remaining_route_stops ids ops ex of [] \<Rightarrow> None | s # _ \<Rightarrow> Some s)"
proof -
  let ?stops = "List.map_filter (\<lambda>i. List.find (\<lambda>c. op_id c = i) ops) ids"
  have busy: "(\<exists>s\<in>set (remaining_route_stops ids ops ex). op_status s = Active) \<longleftrightarrow>
      (\<exists>s\<in>set ?stops. op_id s \<noteq> ex \<and> op_status s = Active)"
    by (auto simp: remaining_route_stops_filter finished_stop_statuses_def)
  show ?thesis
  proof (cases "\<exists>s\<in>set ?stops. op_id s \<noteq> ex \<and> op_status s = Active")
    case True
    with busy show ?thesis by (simp add: startable_next_stop_def Let_def)
  next
    case False
    then have "startable_next_stop ids ops ex =
        List.find (\<lambda>s. op_id s \<noteq> ex \<and> \<not> js_includes started_stop_statuses (op_status s)) ?stops"
      by (auto simp: startable_next_stop_def Let_def)
    also have "\<dots> = List.find (\<lambda>s. op_id s \<noteq> ex \<and> op_status s \<notin> set finished_stop_statuses) ?stops"
      by (intro find_cong_pred) (use False in \<open>auto simp: started_stop_statuses_def\<close>)
    also have "\<dots> = (case remaining_route_stops ids ops ex of [] \<Rightarrow> None | s # _ \<Rightarrow> Some s)"
      by (simp only: find_hd_filter remaining_route_stops_filter)
    finally show ?thesis by (simp only: busy False if_False)
  qed
qed

end
