(* ===== verification/ResourceStatus.thy ===== *)
theory ResourceStatus
  imports BoardTypes JsText
begin

text \<open>
  \<^verbatim>\<open>frontend/lib/resource-status.ts\<close>: what a person, a device and a vehicle count as on the
  board (free, gebunden, out), the roster search, and the counters under the sidebars.
\<close>

section \<open>States\<close>

datatype resource_state = RAvailable | RAssigned | RUnavailable | RMaintenance

definition to_resource_state :: "string option \<Rightarrow> resource_state" where
  "to_resource_state status =
     (case status of
        None \<Rightarrow> RUnavailable
      | Some w \<Rightarrow>
          if w = ''available'' then RAvailable
          else if w = ''assigned'' \<or> w = ''planned'' then RAssigned
          else if w = ''maintenance'' then RMaintenance
          else RUnavailable)"

fun person_status_word :: "person_status \<Rightarrow> string" where
  "person_status_word PAvailable = ''available''"
| "person_status_word PAssigned = ''assigned''"
| "person_status_word PUnavailable = ''unavailable''"

fun material_status_word :: "material_status \<Rightarrow> string" where
  "material_status_word MAvailable = ''available''"
| "material_status_word MAssigned = ''assigned''"

definition person_resource_state :: "person \<Rightarrow> resource_state" where
  "person_resource_state p =
     (let base = to_resource_state (Some (person_status_word (p_status p)))
      in if base = RAvailable \<and> (p_isReko p \<or> p_isOnAuftrag p) then RAssigned else base)"

definition is_person_occupied :: "person \<Rightarrow> bool" where
  "is_person_occupied p =
     (p_status p = PAssigned \<or> p_isReko p \<or> p_isOnAuftrag p \<or> p_isDriver p \<or> p_isMagazin p
      \<or> p_isTelefondienst p \<or> p_isKommandoposten p)"

definition material_resource_state :: "material \<Rightarrow> resource_state" where
  "material_resource_state m =
     (if m_outOfService m then RUnavailable
      else if m_consumable m then RAvailable
      else to_resource_state (Some (material_status_word (m_status m))))"

definition vehicle_resource_state :: "bool \<Rightarrow> bool \<Rightarrow> resource_state" where
  "vehicle_resource_state outOfService assigned =
     (if outOfService then RUnavailable else if assigned then RAssigned else RAvailable)"

section \<open>Roster search\<close>

definition person_matches_query :: "person \<Rightarrow> string \<Rightarrow> bool" where
  "person_matches_query p query =
     (let q = js_lower (js_trim query);
          has = (\<lambda>s. str_includes (js_lower s) q)
      in if q = [] then True
         else has (p_name p)
            \<or> (case or_null (p_role p) of None \<Rightarrow> False | Some r \<Rightarrow> has r)
            \<or> (p_isReko p \<and> str_includes ''reko'' q)
            \<or> (p_isDriver p \<and> (str_includes ''fahrer'' q \<or> str_includes ''driver'' q))
            \<or> (case or_null (p_driverVehicleName p) of None \<Rightarrow> False | Some v \<Rightarrow> has v)
            \<or> (p_isMagazin p \<and> str_includes ''magazin'' q)
            \<or> (p_isTelefondienst p \<and> str_includes ''telefondienst'' q)
            \<or> (p_isKommandoposten p \<and> str_includes ''kommandoposten'' q)
            \<or> js_some has (p_tags p))"

section \<open>Counters\<close>

record resource_summary =
  sum_free :: int
  sum_bound :: int
  sum_total :: int

definition summarize_roster :: "person list \<Rightarrow> resource_summary" where
  "summarize_roster ps =
     (let bound = foldl (\<lambda>n p. if is_person_occupied p then n + 1 else n) 0 ps
      in \<lparr>sum_free = int (length ps) - bound, sum_bound = bound, sum_total = int (length ps)\<rparr>)"

definition summarize_materials :: "material list \<Rightarrow> resource_summary" where
  "summarize_materials ms =
     (let free = foldl (\<lambda>n m. if material_resource_state m = RAvailable then n + 1 else n) 0 ms
      in \<lparr>sum_free = free, sum_bound = int (length ms) - free, sum_total = int (length ms)\<rparr>)"

section \<open>Lemmas\<close>

lemma count_foldl:
  "foldl (\<lambda>n x. if P x then n + 1 else n) (k::int) xs = k + int (length (filter P xs))"
  by (induction xs arbitrary: k) auto

lemma length_filter_split: "length xs = length (filter P xs) + length (filter (\<lambda>x. \<not> P x) xs)"
  by (induction xs) auto

text \<open>The counter and the list under it go by one predicate.\<close>

lemma roster_free_is_filter:
  "sum_free (summarize_roster ps) = int (length (filter (\<lambda>p. \<not> is_person_occupied p) ps))"
  using length_filter_split [of ps is_person_occupied]
  by (simp add: summarize_roster_def Let_def count_foldl)

lemma material_free_is_filter:
  "sum_free (summarize_materials ms) = int (length (filter (\<lambda>m. material_resource_state m = RAvailable) ms))"
  by (simp add: summarize_materials_def Let_def count_foldl)

text \<open>Whoever the status table calls gebunden is hidden by the filter on available people too.\<close>

lemma assigned_is_occupied: "person_resource_state p = RAssigned \<Longrightarrow> is_person_occupied p"
  by (cases "p_status p")
    (auto simp: person_resource_state_def to_resource_state_def is_person_occupied_def split: if_splits)

lemma matches_own_name: "person_matches_query p (p_name p)"
proof -
  have "sublist (js_trim s) s" for s
  proof -
    have "sublist (trim_end t) t" for t using trim_end_prefix [of t] by simp
    moreover have "sublist (trim_start s) s" unfolding trim_start_def
      by (simp add: suffix_dropWhile)
    ultimately show ?thesis unfolding js_trim_def using sublist_order.order_trans by blast
  qed
  then have "sublist (js_lower (js_trim (p_name p))) (js_lower (p_name p))"
    unfolding js_lower_def by (rule map_mono_sublist)
  then show ?thesis by (simp add: person_matches_query_def str_includes_def Let_def)
qed

end
