(* ===== verification/ReleaseUndo.thy ===== *)
theory ReleaseUndo
  imports Kanban
begin

text \<open>
  Small decision modules of the board: the undo of a release (\<^verbatim>\<open>release-undo.ts\<close>), the memory of
  recent crew removals (\<^verbatim>\<open>recent-removals.ts\<close>), the Fahrer row of the conflict prompt
  (\<^verbatim>\<open>driver-conflict.ts\<close>), the outcome of restoring a deleted incident
  (\<^verbatim>\<open>restore-incident.ts\<close>), and who owes a Rapport (\<^verbatim>\<open>rapport-visibility.ts\<close>,
  \<^verbatim>\<open>feld-assignment.ts\<close>).
\<close>

section \<open>Undo of a release\<close>

datatype released =
    RelPersonnel (rel_op: ident) (rel_person: ident) (rel_name: string) (rel_label: string)
  | RelMaterial (rel_op: ident) (rel_material: ident) (rel_name: string) (rel_label: string)
  | RelVehicle (rel_op: ident) (rel_vehicle: ident) (rel_name: string) (rel_label: string)
  | RelStop (rel_group: ident) (rel_incident: ident) (rel_name: string) (rel_label: string)
      (rel_position: "nat option")
  | RelRoute (rel_group: ident) (rel_kind: resource_kind) (rel_resource: ident) (rel_name: string)
      (rel_label: string)

record restore_state =
  st_operations :: "operation list"
  st_groups :: "incident_group list"
  st_personnel :: "person list"
  st_materials :: "material list"
  st_oosVehicles :: "ident list"
  st_labelOf :: "ident \<Rightarrow> string"

datatype restore_block =
    TargetGone | TargetClosed | AlreadyBack | Elsewhere string | OutOfService | ResourceGone | Unavailable

definition is_closed :: "incident_status \<Rightarrow> bool" where
  "is_closed s = js_includes [Complete] s"

definition group_holds :: "resource_kind \<Rightarrow> ident \<Rightarrow> incident_group \<Rightarrow> bool" where
  "group_holds k r g = js_some (\<lambda>(k', r'). k' = k \<and> r' = r) (ig_assignments g)"

definition check_stop :: "ident \<Rightarrow> ident \<Rightarrow> incident_group \<Rightarrow> restore_state \<Rightarrow> restore_block option" where
  "check_stop groupId incidentId grp st =
     (case List.find (\<lambda>o1. op_id o1 = incidentId) (st_operations st) of
        None \<Rightarrow> Some ResourceGone
      | Some o1 \<Rightarrow>
          if js_includes (ig_stopIds grp) incidentId \<or> op_groupId o1 = Some groupId then Some AlreadyBack
          else case or_null (op_groupId o1) of
                 None \<Rightarrow> None
               | Some gid \<Rightarrow>
                   (case List.find (\<lambda>g. ig_id g = gid) (st_groups st) of
                      Some other \<Rightarrow> Some (Elsewhere (ig_name other))
                    | None \<Rightarrow> None))"

definition check_route :: "resource_kind \<Rightarrow> ident \<Rightarrow> incident_group \<Rightarrow> restore_state \<Rightarrow> restore_block option" where
  "check_route k r grp st =
     (if group_holds k r grp then Some AlreadyBack
      else if k = KVehicle \<and> js_includes (st_oosVehicles st) r then Some OutOfService
      else
        let rest = (case List.find (\<lambda>g. ig_id g \<noteq> ig_id grp \<and> group_holds k r g) (st_groups st) of
                      Some other \<Rightarrow> Some (Elsewhere (ig_name other))
                    | None \<Rightarrow> None)
        in if k = KMaterial
           then (case List.find (\<lambda>m. m_id m = r) (st_materials st) of
                   None \<Rightarrow> Some ResourceGone
                 | Some m \<Rightarrow>
                     if m_outOfService m then Some OutOfService
                     else if m_consumable m then None
                     else rest)
           else rest)"

definition elsewhere :: "restore_state \<Rightarrow> operation \<Rightarrow> (operation \<Rightarrow> bool) \<Rightarrow> restore_block option" where
  "elsewhere st op1 holds =
     (case List.find (\<lambda>o1. op_id o1 \<noteq> op_id op1 \<and> \<not> is_closed (op_status o1) \<and> holds o1) (st_operations st) of
        Some holder \<Rightarrow> Some (Elsewhere (st_labelOf st (op_id holder)))
      | None \<Rightarrow> None)"

definition crew_holds :: "ident \<Rightarrow> operation \<Rightarrow> bool" where
  "crew_holds p op1 = js_some (\<lambda>m. cm_personnelId m = p) (op_crew op1)"

definition vehicle_holds :: "ident \<Rightarrow> operation \<Rightarrow> bool" where
  "vehicle_holds v op1 = js_some (\<lambda>x. ov_vehicleId x = v) (op_vehicles op1)"

definition material_holds :: "ident \<Rightarrow> operation \<Rightarrow> bool" where
  "material_holds m op1 = js_includes (op_materials op1) m"

definition check_restore :: "released \<Rightarrow> restore_state \<Rightarrow> restore_block option" where
  "check_restore rel st =
     (let target = (\<lambda>opId body.
            case List.find (\<lambda>o1. op_id o1 = opId) (st_operations st) of
              None \<Rightarrow> Some TargetGone
            | Some op1 \<Rightarrow> if is_closed (op_status op1) then Some TargetClosed else body op1);
          route = (\<lambda>gid body.
            case List.find (\<lambda>g. ig_id g = gid) (st_groups st) of
              None \<Rightarrow> Some TargetGone
            | Some g \<Rightarrow> body g)
      in case rel of
           RelStop gid iid _ _ _ \<Rightarrow> route gid (\<lambda>g. check_stop gid iid g st)
         | RelRoute gid k r _ _ \<Rightarrow> route gid (\<lambda>g. check_route k r g st)
         | RelPersonnel opId p _ _ \<Rightarrow>
             target opId (\<lambda>op1.
               if crew_holds p op1 then Some AlreadyBack
               else case List.find (\<lambda>x. p_id x = p) (st_personnel st) of
                      None \<Rightarrow> Some ResourceGone
                    | Some x \<Rightarrow>
                        if p_status x = PUnavailable then Some Unavailable
                        else elsewhere st op1 (crew_holds p))
         | RelVehicle opId v _ _ \<Rightarrow>
             target opId (\<lambda>op1.
               if vehicle_holds v op1 then Some AlreadyBack
               else if js_includes (st_oosVehicles st) v then Some OutOfService
               else elsewhere st op1 (vehicle_holds v))
         | RelMaterial opId m _ _ \<Rightarrow>
             target opId (\<lambda>op1.
               if material_holds m op1 then Some AlreadyBack
               else case List.find (\<lambda>x. m_id x = m) (st_materials st) of
                      None \<Rightarrow> Some ResourceGone
                    | Some x \<Rightarrow>
                        if m_outOfService x then Some OutOfService
                        else if m_consumable x then None
                        else elsewhere st op1 (material_holds m)))"

section \<open>Recent removals\<close>

record recent_removal =
  rr_incidentId :: ident
  rr_incidentLabel :: string
  rr_removedAt :: ms

type_synonym recent_removals = "ident \<rightharpoonup> recent_removal"

definition recent_removal_window_ms :: ms where
  "recent_removal_window_ms = 5 * 60 * 1000"

definition record_removal :: "recent_removals \<Rightarrow> ident \<Rightarrow> ident \<Rightarrow> string \<Rightarrow> ms \<Rightarrow> recent_removals" where
  "record_removal store p inc label now =
     store(p \<mapsto> \<lparr>rr_incidentId = inc, rr_incidentLabel = label, rr_removedAt = now\<rparr>)"

text \<open>The lookup prunes the entry it finds expired: the new store is returned with the answer.\<close>

definition find_recent_removal ::
  "recent_removals \<Rightarrow> ident \<Rightarrow> ident \<Rightarrow> ms \<Rightarrow> ms \<Rightarrow> recent_removal option \<times> recent_removals" where
  "find_recent_removal store p newInc now window =
     (case store p of
        None \<Rightarrow> (None, store)
      | Some e \<Rightarrow>
          if rr_incidentId e = newInc then (None, store)
          else if now - rr_removedAt e > window then (None, store(p := None))
          else (Some e, store))"

definition prune_expired :: "recent_removals \<Rightarrow> ms \<Rightarrow> ms \<Rightarrow> recent_removals" where
  "prune_expired store now window =
     (\<lambda>p. case store p of
            None \<Rightarrow> None
          | Some e \<Rightarrow> if now - rr_removedAt e > window then None else Some e)"

section \<open>The Fahrer role in the conflict prompt\<close>

definition driven_elsewhere ::
  "person option \<Rightarrow> operation list \<Rightarrow> ident \<Rightarrow> (ident \<times> string \<times> ident) option" where
  "driven_elsewhere p ops target =
     (case p of
        None \<Rightarrow> None
      | Some x \<Rightarrow>
          if \<not> p_isDriver x then None
          else case (or_null (p_driverVehicleId x), or_null (p_driverVehicleName x)) of
                 (Some vid, Some vname) \<Rightarrow>
                   (case List.find (vehicle_holds vid) ops of
                      None \<Rightarrow> None
                    | Some op1 \<Rightarrow> if op_id op1 = target then None else Some (vid, vname, op_id op1))
               | _ \<Rightarrow> None)"

section \<open>Restoring a deleted incident\<close>

datatype restore_outcome = ROk | RConflict | RNetwork | RError
datatype restore_action = RefreshSuccess | RefreshSilent | ActionError

fun decide_restore_action :: "restore_outcome \<Rightarrow> restore_action" where
  "decide_restore_action ROk = RefreshSuccess"
| "decide_restore_action RConflict = RefreshSilent"
| "decide_restore_action RNetwork = ActionError"
| "decide_restore_action RError = ActionError"

section \<open>The Schadenplatz-Rapport and the field's feed\<close>

definition is_dispatched_status :: "incident_status \<Rightarrow> bool" where
  "is_dispatched_status s = js_includes [Enroute, Active, Returning] s"

definition rapport_applies :: "bool \<Rightarrow> incident_status option \<Rightarrow> bool \<Rightarrow> bool \<Rightarrow> bool" where
  "rapport_applies hasBeenDispatched status hasReport rekoNotRelevant =
     (if hasReport then True
      else if rekoNotRelevant \<and> status = Some Complete then False
      else if hasBeenDispatched then True
      else case status of None \<Rightarrow> False | Some s \<Rightarrow> is_dispatched_status s)"

datatype assignment_source = SrcCrew | SrcReko | SrcDriver | SrcMagazin
datatype rapport_state = RapportNone | RapportDraft | RapportSubmitted

record feld_assignment =
  fa_source :: assignment_source
  fa_is_active :: bool
  fa_incident_status :: incident_status
  fa_arrived_at :: "string option"
  fa_field_complete_reported_at :: "string option"
  fa_rapport_state :: rapport_state
  fa_has_been_dispatched :: bool
  fa_reko :: "bool option option"  \<comment> \<open>the Reko-Meldung and its \<^verbatim>\<open>is_relevant\<close>\<close>

definition incident_has_rapport :: "feld_assignment \<Rightarrow> bool" where
  "incident_has_rapport a =
     rapport_applies (fa_has_been_dispatched a) (Some (fa_incident_status a))
       (fa_rapport_state a \<noteq> RapportNone) (fa_reko a = Some (Some False))"

definition assignment_rapport_applies :: "feld_assignment \<Rightarrow> bool" where
  "assignment_rapport_applies a = (fa_source a = SrcCrew \<and> incident_has_rapport a)"

definition owes_rapport :: "feld_assignment \<Rightarrow> bool" where
  "owes_rapport a = (fa_rapport_state a \<noteq> RapportSubmitted \<and> assignment_rapport_applies a)"

definition reko_window_closed :: "feld_assignment \<Rightarrow> bool" where
  "reko_window_closed a =
     (fa_source a = SrcReko \<and> fa_reko a = None
      \<and> js_includes [Enroute, Active, Returning, Complete] (fa_incident_status a))"

definition is_live_assignment :: "feld_assignment \<Rightarrow> bool" where
  "is_live_assignment a = (fa_is_active a \<and> \<not> reko_window_closed a)"

definition feed_bucket :: "feld_assignment \<Rightarrow> nat" where
  "feed_bucket a =
     (if is_live_assignment a \<and> or_null (fa_arrived_at a) \<noteq> None then 0
      else if owes_rapport a then 1
      else if is_live_assignment a then 2
      else 3)"

datatype journey = Approach | OnSite | JReturning

definition journey_state :: "feld_assignment \<Rightarrow> journey option" where
  "journey_state a =
     (if \<not> is_live_assignment a then None
      else if or_null (fa_field_complete_reported_at a) \<noteq> None \<or> fa_incident_status a = Returning
      then Some JReturning
      else if or_null (fa_arrived_at a) \<noteq> None then Some OnSite
      else Some Approach)"

section \<open>Lemmas\<close>

lemma elsewhere_None:
  "elsewhere st op1 holds = None \<longleftrightarrow>
     (\<forall>o1\<in>set (st_operations st). op_id o1 \<noteq> op_id op1 \<longrightarrow> is_closed (op_status o1) \<or> \<not> holds o1)"
  by (auto simp: elsewhere_def find_None_iff2 dest: find_SomeD split: option.splits)

lemma prune_then_find:
  "fst (find_recent_removal (prune_expired store now w) p inc now w) =
   fst (find_recent_removal store p inc now w)"
  by (auto simp: find_recent_removal_def prune_expired_def split: option.splits)

lemma find_keeps_live_entries:
  "store q = Some e \<Longrightarrow> now - rr_removedAt e \<le> w \<Longrightarrow> snd (find_recent_removal store p inc now w) q = Some e"
  by (auto simp: find_recent_removal_def split: option.splits)

lemma unrelevant_closed_without_report:
  "fa_rapport_state a = RapportNone \<Longrightarrow> fa_reko a = Some (Some False) \<Longrightarrow>
     fa_incident_status a = Complete \<Longrightarrow> \<not> owes_rapport a"
  by (simp add: owes_rapport_def assignment_rapport_applies_def incident_has_rapport_def rapport_applies_def)

lemma find_unique:
  assumes "distinct (map key xs)" "x \<in> set xs" "key x = k"
  shows "List.find (\<lambda>x. key x = k) xs = Some x"
  using assms by (induction xs) auto

definition holders_free :: "restore_state \<Rightarrow> (operation \<Rightarrow> bool) \<Rightarrow> bool" where
  "holders_free st holds = (\<forall>o1\<in>set (st_operations st). is_closed (op_status o1) \<or> \<not> holds o1)"

lemma elsewhere_free:
  assumes d: "distinct (map op_id (st_operations st))"
    and f: "List.find (\<lambda>o1. op_id o1 = i) (st_operations st) = Some op1"
    and e: "elsewhere st op1 holds = None" and n: "\<not> holds op1"
  shows "holders_free st holds"
  unfolding holders_free_def
proof
  fix o1 assume o1: "o1 \<in> set (st_operations st)"
  show "is_closed (op_status o1) \<or> \<not> holds o1"
  proof (cases "op_id o1 = op_id op1")
    case True
    from f have "op_id op1 = i" by (auto dest: find_SomeD)
    with d o1 f True have "o1 = op1" by (simp add: find_unique)
    with n show ?thesis by simp
  next
    case False
    with e o1 show ?thesis by (auto simp: elsewhere_None)
  qed
qed

section \<open>Properties\<close>

text \<open>
  The undo of a release tries only where it takes nothing from anybody: when it may
  run for a person, a vehicle or a device that is not a consumable, the target incident exists and
  is open, and no open incident on the board holds that resource.
\<close>

theorem undo_takes_from_nobody:
  assumes "distinct (map op_id (st_operations st))"
    and "check_restore rel st = None"
  shows "case rel of
           RelPersonnel i p _ _ \<Rightarrow> holders_free st (crew_holds p)
         | RelVehicle i v _ _ \<Rightarrow> holders_free st (vehicle_holds v) \<and> v \<notin> set (st_oosVehicles st)
         | RelMaterial i m _ _ \<Rightarrow> \<exists>x. List.find (\<lambda>x. m_id x = m) (st_materials st) = Some x \<and> \<not> m_outOfService x
               \<and> (m_consumable x \<or> holders_free st (material_holds m))
         | RelStop g i _ _ _ \<Rightarrow> \<forall>g1\<in>set (st_groups st). ig_id g1 = g \<longrightarrow>
               (\<exists>o1. List.find (\<lambda>o1. op_id o1 = i) (st_operations st) = Some o1 \<and> op_groupId o1 \<noteq> Some g)
         | RelRoute g k r _ _ \<Rightarrow> (k = KMaterial \<and> (\<exists>x\<in>set (st_materials st). m_id x = r \<and> m_consumable x)) \<or> (\<forall>g1\<in>set (st_groups st). ig_id g1 \<noteq> g \<longrightarrow> \<not> group_holds k r g1)"
proof (cases rel)
  case (RelPersonnel i p n l)
  with assms show ?thesis
    by (auto simp: check_restore_def split: option.splits if_splits intro: elsewhere_free)
next
  case (RelVehicle i v n l)
  with assms show ?thesis
    by (auto simp: check_restore_def split: option.splits if_splits intro: elsewhere_free)
next
  case (RelMaterial i m n l)
  with assms show ?thesis
    by (auto simp: check_restore_def split: option.splits if_splits intro: elsewhere_free)
next
  case (RelStop g i n l pos)
  with assms show ?thesis
    by (auto simp: check_restore_def check_stop_def split: option.splits if_splits)
next
  case (RelRoute g k r n l)
  with assms show ?thesis
    by (auto simp: check_restore_def check_route_def Let_def find_None_iff2
        dest: find_SomeD split: option.splits if_splits)
qed

theorem undo_takes_from_nobody_witness:
  "holders_free \<lparr>st_operations = [blank_card ''a'' Active, blank_card ''b'' Reko], st_groups = [],
     st_personnel = [blank_person ''p''], st_materials = [], st_oosVehicles = [],
     st_labelOf = (\<lambda>i. i)\<rparr> (crew_holds ''p'')"
  using undo_takes_from_nobody
    [of "\<lparr>st_operations = [blank_card ''a'' Active, blank_card ''b'' Reko], st_groups = [],
       st_personnel = [blank_person ''p''], st_materials = [], st_oosVehicles = [],
       st_labelOf = (\<lambda>i. i)\<rparr>" "RelPersonnel ''a'' ''p'' ''P'' ''A''"]
  by (simp add: check_restore_def is_closed_def crew_holds_def elsewhere_def)

text \<open>
  The feed never hides a missing Rapport: an assignment is in one of the two top
  buckets exactly when the crew stands there, or its Rapport applies and nobody has filed it.
\<close>

theorem owed_rapport_stays_on_top:
  "feed_bucket a \<le> 1 \<longleftrightarrow>
     owes_rapport a \<or> (is_live_assignment a \<and> or_null (fa_arrived_at a) \<noteq> None)"
  by (simp add: feed_bucket_def)

end
