(* ===== verification/Reconcile.thy ===== *)
theory Reconcile
  imports ReleaseUndo
begin

text \<open>
  One board load: \<^verbatim>\<open>contexts/operations/mapping.ts\<close> (an API incident becomes a card) and
  \<^verbatim>\<open>contexts/operations/reconcile.ts\<close> (incidents, roster, depot, fleet, special functions,
  assignments and Reko summaries of one Ereignis become what the board draws), with the
  coordinate conversions of \<^verbatim>\<open>coordinate-parser.ts\<close>. The engine's \<^verbatim>\<open>Date\<close>, \<^verbatim>\<open>Number\<close> and
  \<^verbatim>\<open>String\<close> and the message catalogue are parameters.
\<close>

section \<open>Coordinates\<close>

definition api_coordinates_to_tuple :: "js_runtime \<Rightarrow> string option \<Rightarrow> string option \<Rightarrow> coordinates" where
  "api_coordinates_to_tuple rt latitude longitude =
     (case (latitude, longitude) of
        (Some la, Some lo) \<Rightarrow>
          (case (parse_number rt la, parse_number rt lo) of
             (Some lat, Some lng) \<Rightarrow> Some (lat, lng)
           | _ \<Rightarrow> None)
      | _ \<Rightarrow> None)"

definition coordinates_to_api_fields :: "js_runtime \<Rightarrow> coordinates \<Rightarrow> string option \<times> string option" where
  "coordinates_to_api_fields rt c =
     (case c of
        Some (lat, lng) \<Rightarrow> (Some (show_number rt lat), Some (show_number rt lng))
      | None \<Rightarrow> (None, None))"

definition is_valid_coordinate :: "rat \<Rightarrow> rat \<Rightarrow> bool" where
  "is_valid_coordinate lat lon = (lat \<ge> -90 \<and> lat \<le> 90 \<and> lon \<ge> -180 \<and> lon \<le> 180)"

section \<open>Mapping\<close>

definition reko_danger_types :: "(string \<Rightarrow> string) \<Rightarrow> dangers option \<Rightarrow> string list" where
  "reko_danger_types tr ds =
     (case ds of
        None \<Rightarrow> []
      | Some d \<Rightarrow>
          (if d_fire d then [tr ''fire''] else [])
          @ (if d_fire_danger d then [tr ''fireDanger''] else [])
          @ (if d_explosion d then [tr ''explosion''] else [])
          @ (if d_collapse d then [tr ''collapse''] else [])
          @ (if d_chemical d then [tr ''chemical''] else [])
          @ (if d_electrical d then [tr ''electrical''] else []))"

record on_site_unit =
  osu_incidentId :: ident
  osu_address :: "string option"
  osu_since :: "string option"

fun on_site_from :: "(ident \<rightharpoonup> on_site_unit) \<Rightarrow> restliste_unit list \<Rightarrow> (ident \<rightharpoonup> on_site_unit)" where
  "on_site_from acc [] = acc"
| "on_site_from acc (u # us) =
     (case or_null (ru_material_id u) of
        None \<Rightarrow> on_site_from acc us
      | Some m \<Rightarrow>
          on_site_from (acc(m \<mapsto> \<lparr>osu_incidentId = ru_incident_id u,
             osu_address = (case ru_location_address u of Some a \<Rightarrow> Some a | None \<Rightarrow> ru_incident_title u),
             osu_since = ru_since u\<rparr>)) us)"

definition to_material_on_site :: "restliste_unit list option \<Rightarrow> (ident \<rightharpoonup> on_site_unit)" where
  "to_material_on_site rl = on_site_from Map.empty (nullish rl [])"

text \<open>\<^verbatim>\<open>s ? new Date(s) : null\<close>.\<close>

definition date_or_null :: "js_runtime \<Rightarrow> string option \<Rightarrow> js_date option" where
  "date_or_null rt s = map_option (parse_date rt) (or_null s)"

definition api_incident_to_operation :: "js_runtime \<Rightarrow> api_incident \<Rightarrow> operation" where
  "api_incident_to_operation rt i =
     \<lparr>op_id = i_id i,
      op_number = i_number i,
      op_location = or_str (i_location_address i) (i_title i),
      op_locationDisplay = i_location_display i,
      op_vehicle = None,
      op_vehicles = [],
      op_incidentType = or_str (Some (i_type i)) ''elementarereignis'',
      op_dispatchTime = parse_date rt (i_created_at i),
      op_crew = [],
      op_priority = i_priority i,
      op_status = i_status i,
      op_coordinates = api_coordinates_to_tuple rt (i_location_lat i) (i_location_lng i),
      op_materials = [],
      op_notes = or_str (i_description i) [],
      op_contact = or_str (i_contact i) [],
      op_contactPhone = or_str (i_contact_phone i) [],
      op_internalNotes = or_str (i_internal_notes i) [],
      op_nachbarhilfe = i_nachbarhilfe i,
      op_nachbarhilfeNote = or_str (i_nachbarhilfe_note i) [],
      op_amWarten = i_am_warten i,
      op_amWartenNote = or_str (i_am_warten_note i) [],
      op_zuFuss = i_zu_fuss i,
      op_groupId = i_group_id i,
      op_groupPosition = nullish (i_group_position i) 0,
      op_source = Some (or_str (i_source i) ''operator''),
      op_fromRealAlarm = Some (nullish (i_from_real_alarm i) False),
      op_possibleDuplicateOf = i_possible_duplicate_of_id i,
      op_statusChangedAt = date_or_null rt (i_status_changed_at i),
      op_hasCompletedReko = i_has_completed_reko i,
      op_rekoArrivedAt = date_or_null rt (i_reko_arrived_at i),
      op_rekoArrivedByKp = Some (nullish (i_reko_arrived_by_kp i) False),
      op_fieldCompleteReportedAt = date_or_null rt (i_field_complete_reported_at i),
      op_fieldCompleteReportedBy = i_field_complete_reported_by i,
      op_fieldArrivedAt = date_or_null rt (i_field_arrived_at i),
      op_fieldArrivedBy = i_field_arrived_by i,
      op_fieldArrivedByAutomation = Some (nullish (i_field_arrived_by_automation i) False),
      op_pickupNeeded = Some (nullish (i_pickup_needed i) False),
      op_pickupNote = Some (or_str (i_pickup_note i) []),
      op_pickupRequestedAt = date_or_null rt (i_pickup_requested_at i),
      op_pickupRequestedBy = i_pickup_requested_by i,
      op_fieldRequests = Some (nullish (i_field_requests i) []),
      op_hasSchadenplatzRapport = Some (nullish (i_has_schadenplatz_rapport i) False),
      op_hasSchadenplatzRapportDraft = Some (nullish (i_has_schadenplatz_rapport_draft i) False),
      op_hasBeenDispatched = Some (nullish (i_has_been_dispatched i) False),
      op_rekoSummary = None,
      op_assignedReko = None,
      op_leaderId = i_effective_leader_id i,
      op_leaderName = i_leader_name i,
      op_materialAssignments = Map.empty\<rparr>"

section \<open>Reconciliation\<close>

record event_snapshot =
  sn_incidents :: "api_incident list"
  sn_personnel :: "person list"
  sn_materials :: "material list"
  sn_vehicles :: "api_vehicle list"
  sn_functions :: "special_function list"
  sn_assignments :: "ident \<rightharpoonup> api_assignment list"
  sn_summaries :: "ident \<rightharpoonup> api_reko_summary"

record event_state =
  es_ops :: "operation list"
  es_personnel :: "person list"
  es_materials :: "material list"

text \<open>The sets the load collects; a JavaScript \<^verbatim>\<open>Set\<close> is the list of its insertions.\<close>

record role_sets =
  rl_reko :: "ident list"
  rl_driver :: "ident \<rightharpoonup> ident \<times> string"
  rl_magazin :: "ident list"
  rl_telefondienst :: "ident list"
  rl_kommandoposten :: "ident list"
  rl_assigned :: "ident list"

definition no_roles :: role_sets where
  "no_roles = \<lparr>rl_reko = [], rl_driver = Map.empty, rl_magazin = [], rl_telefondienst = [],
               rl_kommandoposten = [], rl_assigned = []\<rparr>"

definition add_function :: "role_sets \<Rightarrow> special_function \<Rightarrow> role_sets" where
  "add_function r f =
     (let p = sf_personnel_id f; busy = r\<lparr>rl_assigned := p # rl_assigned r\<rparr>
      in case sf_function_type f of
           FReko \<Rightarrow> r\<lparr>rl_reko := p # rl_reko r\<rparr>
         | FDriver \<Rightarrow> busy\<lparr>rl_driver := (rl_driver r)(p \<mapsto> (or_str (sf_vehicle_id f) [], or_str (sf_vehicle_name f) []))\<rparr>
         | FMagazin \<Rightarrow> busy\<lparr>rl_magazin := p # rl_magazin r\<rparr>
         | FTelefondienst \<Rightarrow> busy\<lparr>rl_telefondienst := p # rl_telefondienst r\<rparr>
         | FKommandoposten \<Rightarrow> busy\<lparr>rl_kommandoposten := p # rl_kommandoposten r\<rparr>)"

definition collect_roles :: "special_function list \<Rightarrow> role_sets" where
  "collect_roles fs = foldl add_function no_roles fs"

text \<open>\<^verbatim>\<open>new Map(rows.map((r) => [r.id, r]))\<close>: the last row of an id wins.\<close>

definition index_by :: "('r \<Rightarrow> ident) \<Rightarrow> 'r list \<Rightarrow> (ident \<rightharpoonup> 'r)" where
  "index_by key rows = map_of (rev (map (\<lambda>r. (key r, r)) rows))"

record card_load =
  cl_op :: operation
  cl_persons :: "ident list"
  cl_materials :: "ident list"

definition add_assignment ::
  "(ident \<rightharpoonup> person) \<Rightarrow> (ident \<rightharpoonup> api_vehicle) \<Rightarrow> ident list \<Rightarrow> card_load \<Rightarrow> api_assignment \<Rightarrow> card_load" where
  "add_assignment personById vehicleById rekoIds c a =
     (let op1 = cl_op c; r = a_resource_id a
      in case a_resource_type a of
           Some KPersonnel \<Rightarrow>
             (case personById r of
                None \<Rightarrow> c
              | Some p \<Rightarrow>
                  if js_includes rekoIds (p_id p)
                  then c\<lparr>cl_op := op1\<lparr>op_assignedReko := Some \<lparr>np_id = p_id p, np_name = p_name p\<rparr>\<rparr>\<rparr>
                  else
                    let op2 = op1\<lparr>op_crew := op_crew op1 @ [\<lparr>cm_personnelId = p_id p,
                          cm_assignmentId = Some (a_id a), cm_name = p_name p\<rparr>]\<rparr>
                    in c\<lparr>cl_op := (if a_is_leader a
                           then op2\<lparr>op_leaderId := Some (p_id p), op_leaderName := Some (p_name p)\<rparr> else op2),
                         cl_persons := p_id p # cl_persons c\<rparr>)
         | Some KMaterial \<Rightarrow>
             c\<lparr>cl_op := op1\<lparr>op_materials := op_materials op1 @ [r],
                 op_materialAssignments := (op_materialAssignments op1)(r \<mapsto> a_id a)\<rparr>,
               cl_materials := r # cl_materials c\<rparr>
         | Some KVehicle \<Rightarrow>
             (case vehicleById r of
                None \<Rightarrow> c
              | Some v \<Rightarrow>
                  c\<lparr>cl_op := op1\<lparr>op_vehicles := op_vehicles op1 @ [\<lparr>ov_vehicleId = v_id v,
                      ov_assignmentId = Some (a_id a), ov_name = v_name v,
                      ov_callsign = or_null (Some (v_radio_call_sign v)),
                      ov_driverStay = Some (a_driver_stay a)\<rparr>]\<rparr>\<rparr>)
         | None \<Rightarrow> c)"

definition load_card ::
  "(ident \<rightharpoonup> person) \<Rightarrow> (ident \<rightharpoonup> api_vehicle) \<Rightarrow> ident list \<Rightarrow> (ident \<rightharpoonup> api_assignment list) \<Rightarrow> operation
     \<Rightarrow> card_load" where
  "load_card personById vehicleById rekoIds assignments op1 =
     foldl (add_assignment personById vehicleById rekoIds)
       \<lparr>cl_op = op1, cl_persons = [], cl_materials = []\<rparr> (nullish (assignments (op_id op1)) [])"

definition vehicle_order_cmp :: "(ident \<rightharpoonup> int) \<Rightarrow> operation_vehicle \<Rightarrow> operation_vehicle \<Rightarrow> int" where
  "vehicle_order_cmp order a b =
     nullish (order (ov_vehicleId a)) 0 - nullish (order (ov_vehicleId b)) 0"

definition sort_vehicles :: "(ident \<rightharpoonup> int) \<Rightarrow> operation \<Rightarrow> operation" where
  "sort_vehicles order op1 = op1\<lparr>op_vehicles := js_sort (vehicle_order_cmp order) (op_vehicles op1)\<rparr>"

definition fold_reko_summary :: "(string \<Rightarrow> string) \<Rightarrow> (ident \<rightharpoonup> api_reko_summary) \<Rightarrow> operation \<Rightarrow> operation" where
  "fold_reko_summary tr summaries op1 =
     (case summaries (op_id op1) of
        None \<Rightarrow> op1
      | Some s \<Rightarrow>
          if \<not> ars_has_completed_reko s then op1
          else
            let ds = reko_danger_types tr (ars_dangers s)
            in op1\<lparr>op_hasCompletedReko := True,
                 op_rekoSummary := Some \<lparr>rs_isRelevant = nullish (ars_is_relevant s) False,
                   rs_hasDangers = (length ds > 0), rs_dangerTypes = ds,
                   rs_personnelCount = Option.bind (ars_effort s) e_personnel_count,
                   rs_estimatedDuration = Option.bind (ars_effort s) e_estimated_duration_hours,
                   rs_summaryText = ars_summary_text s, rs_photos = nullish (ars_photos s) []\<rparr>\<rparr>)"

definition scope_person :: "role_sets \<Rightarrow> ident list \<Rightarrow> person \<Rightarrow> person" where
  "scope_person r assigned p =
     p\<lparr>p_status := (if js_includes assigned (p_id p) then PAssigned else PAvailable),
       p_isReko := js_includes (rl_reko r) (p_id p),
       p_isDriver := (rl_driver r (p_id p) \<noteq> None),
       p_driverVehicleId := or_null (map_option fst (rl_driver r (p_id p))),
       p_driverVehicleName := or_null (map_option snd (rl_driver r (p_id p))),
       p_isMagazin := js_includes (rl_magazin r) (p_id p),
       p_isTelefondienst := js_includes (rl_telefondienst r) (p_id p),
       p_isKommandoposten := js_includes (rl_kommandoposten r) (p_id p)\<rparr>"

definition scope_material :: "ident list \<Rightarrow> material \<Rightarrow> material" where
  "scope_material assigned m =
     m\<lparr>m_status := (if js_includes assigned (m_id m) then MAssigned else MAvailable)\<rparr>"

definition load_cards :: "js_runtime \<Rightarrow> event_snapshot \<Rightarrow> card_load list" where
  "load_cards rt sn =
     map (load_card (index_by p_id (sn_personnel sn)) (index_by v_id (sn_vehicles sn))
            (rl_reko (collect_roles (sn_functions sn))) (sn_assignments sn))
       (map (api_incident_to_operation rt) (sn_incidents sn))"

definition build_event_state :: "js_runtime \<Rightarrow> (string \<Rightarrow> string) \<Rightarrow> event_snapshot \<Rightarrow> event_state" where
  "build_event_state rt tr sn =
     (let roles = collect_roles (sn_functions sn);
          cards = load_cards rt sn;
          order = index_by v_id (sn_vehicles sn);
          finish = (\<lambda>c. fold_reko_summary tr (sn_summaries sn)
                     (sort_vehicles (\<lambda>i. map_option v_display_order (order i)) (cl_op c)))
      in \<lparr>es_ops = map finish cards,
          es_personnel = map (scope_person roles (rl_assigned roles @ concat (map cl_persons cards))) (sn_personnel sn),
          es_materials = map (scope_material (concat (map cl_materials cards))) (sn_materials sn)\<rparr>)"

section \<open>Lemmas\<close>

interpretation fleet: js_comparator "vehicle_order_cmp order" for order
  by unfold_locales (auto simp: vehicle_order_cmp_def)

lemma reko_roles_from: "set (rl_reko (foldl add_function r fs)) =
     set (rl_reko r) \<union> sf_personnel_id ` {f \<in> set fs. sf_function_type f = FReko}"
  by (induction fs arbitrary: r) (auto simp: add_function_def Let_def split: function_type.splits)

lemma assigned_roles_from: "set (rl_assigned (foldl add_function r fs)) =
     set (rl_assigned r) \<union> sf_personnel_id ` {f \<in> set fs. sf_function_type f \<noteq> FReko}"
  by (induction fs arbitrary: r) (auto simp: add_function_def Let_def split: function_type.splits)

lemma driver_roles_from: "dom (rl_driver (foldl add_function r fs)) =
     dom (rl_driver r) \<union> sf_personnel_id ` {f \<in> set fs. sf_function_type f = FDriver}"
  by (induction fs arbitrary: r) (auto simp: add_function_def Let_def split: function_type.splits)

lemmas role_facts = reko_roles_from assigned_roles_from driver_roles_from

lemma roles_reko: "set (rl_reko (collect_roles fs)) = sf_personnel_id ` {f \<in> set fs. sf_function_type f = FReko}"
  by (simp add: collect_roles_def role_facts no_roles_def)

lemma roles_assigned:
  "set (rl_assigned (collect_roles fs)) = sf_personnel_id ` {f \<in> set fs. sf_function_type f \<noteq> FReko}"
  by (simp add: collect_roles_def role_facts no_roles_def)

lemma roles_assigned_iff:
  "p \<in> set (rl_assigned (collect_roles fs)) \<longleftrightarrow>
     (\<exists>f\<in>set fs. sf_personnel_id f = p \<and> sf_function_type f \<noteq> FReko)"
  by (auto simp: roles_assigned)

text \<open>What every assignment folded into a card keeps.\<close>

definition card_ok :: "ident list \<Rightarrow> card_load \<Rightarrow> bool" where
  "card_ok rekoIds c =
     (cm_personnelId ` set (op_crew (cl_op c)) = set (cl_persons c)
      \<and> set (cl_persons c) \<inter> set rekoIds = {}
      \<and> set (op_materials (cl_op c)) = set (cl_materials c)
      \<and> dom (op_materialAssignments (cl_op c)) = set (op_materials (cl_op c))
      \<and> (\<forall>r. op_assignedReko (cl_op c) = Some r \<longrightarrow> np_id r \<in> set rekoIds))"

definition start_card :: "js_runtime \<Rightarrow> api_incident \<Rightarrow> card_load" where
  "start_card rt i = \<lparr>cl_op = api_incident_to_operation rt i, cl_persons = [], cl_materials = []\<rparr>"

lemma start_card_ok: "card_ok rekoIds (start_card rt i)"
  by (simp add: card_ok_def start_card_def api_incident_to_operation_def)

lemma add_assignment_ok: "card_ok rekoIds c \<Longrightarrow> card_ok rekoIds (add_assignment pb vb rekoIds c a)"
  by (auto simp: card_ok_def add_assignment_def Let_def split: option.splits resource_kind.splits)

interpretation load: event_machine "add_assignment pb vb rekoIds" "card_ok rekoIds" "start_card rt i"
  for pb vb rekoIds rt i
  by unfold_locales (auto intro: start_card_ok add_assignment_ok)

lemma load_card_start:
  "load_card pb vb rekoIds asg (api_incident_to_operation rt i) =
     foldl (add_assignment pb vb rekoIds) (start_card rt i) (nullish (asg (i_id i)) [])"
  by (simp add: load_card_def start_card_def api_incident_to_operation_def)

lemma load_cards_ok: "c \<in> set (load_cards rt sn) \<Longrightarrow> card_ok (rl_reko (collect_roles (sn_functions sn))) c"
  by (auto simp: load_cards_def load_card_start intro: load.inv_run)

lemma finish_keeps [simp]:
  "op_crew (fold_reko_summary tr sm (sort_vehicles ord op1)) = op_crew op1"
  "op_materials (fold_reko_summary tr sm (sort_vehicles ord op1)) = op_materials op1"
  "op_materialAssignments (fold_reko_summary tr sm (sort_vehicles ord op1)) = op_materialAssignments op1"
  "op_assignedReko (fold_reko_summary tr sm (sort_vehicles ord op1)) = op_assignedReko op1"
  "op_vehicles (fold_reko_summary tr sm (sort_vehicles ord op1)) = js_sort (vehicle_order_cmp ord) (op_vehicles op1)"
  by (simp_all add: fold_reko_summary_def sort_vehicles_def Let_def split: option.splits)

definition display_order :: "event_snapshot \<Rightarrow> ident \<Rightarrow> int" where
  "display_order sn i = nullish (map_option v_display_order (index_by v_id (sn_vehicles sn) i)) 0"

definition finish_card :: "(string \<Rightarrow> string) \<Rightarrow> event_snapshot \<Rightarrow> card_load \<Rightarrow> operation" where
  "finish_card tr sn c = fold_reko_summary tr (sn_summaries sn)
     (sort_vehicles (\<lambda>i. map_option v_display_order (index_by v_id (sn_vehicles sn) i)) (cl_op c))"

lemma es_ops_finish: "es_ops (build_event_state rt tr sn) = map (finish_card tr sn) (load_cards rt sn)"
  by (simp add: build_event_state_def Let_def finish_card_def)

lemma crew_holds_image: "crew_holds q op1 \<longleftrightarrow> q \<in> cm_personnelId ` set (op_crew op1)"
  by (auto simp: crew_holds_def)

lemma finish_crew_holds:
  "card_ok rk c \<Longrightarrow> crew_holds q (finish_card tr sn c) \<longleftrightarrow> q \<in> set (cl_persons c)"
  by (simp add: finish_card_def crew_holds_image card_ok_def)

lemma finish_material_holds:
  "card_ok rk c \<Longrightarrow> material_holds q (finish_card tr sn c) \<longleftrightarrow> q \<in> set (cl_materials c)"
  by (simp add: finish_card_def material_holds_def card_ok_def)

lemma event_crew_holds:
  "(\<exists>op1\<in>set (es_ops (build_event_state rt tr sn)). crew_holds q op1) \<longleftrightarrow>
     q \<in> set (concat (map cl_persons (load_cards rt sn)))"
  by (simp add: es_ops_finish finish_crew_holds [OF load_cards_ok] cong: bex_cong)

lemma event_material_holds:
  "(\<exists>op1\<in>set (es_ops (build_event_state rt tr sn)). material_holds q op1) \<longleftrightarrow>
     q \<in> set (concat (map cl_materials (load_cards rt sn)))"
  by (simp add: es_ops_finish finish_material_holds [OF load_cards_ok] cong: bex_cong)

text \<open>A loaded card: devices and their assignment rows agree, nobody on Reko is in a crew, the
  named Reko person holds that function, the vehicles stand in the fleet's order.\<close>

definition loaded_card_ok :: "event_snapshot \<Rightarrow> operation \<Rightarrow> bool" where
  "loaded_card_ok sn op1 =
     (dom (op_materialAssignments op1) = set (op_materials op1)
      \<and> (\<forall>f\<in>set (sn_functions sn). sf_function_type f = FReko \<longrightarrow> \<not> crew_holds (sf_personnel_id f) op1)
      \<and> (\<forall>r. op_assignedReko op1 = Some r \<longrightarrow>
            (\<exists>f\<in>set (sn_functions sn). sf_function_type f = FReko \<and> sf_personnel_id f = np_id r))
      \<and> sorted_wrt (\<lambda>a b. display_order sn (ov_vehicleId a) \<le> display_order sn (ov_vehicleId b)) (op_vehicles op1))"

section \<open>Properties\<close>

text \<open>
  The roster the board load produces agrees with its cards, person by person and in the
  order fetched: a person reads as assigned exactly when they hold a function of the Ereignis other
  than Reko, or stand in the crew of one of the cards.
\<close>

theorem roster_agrees_with_cards:
  "map (\<lambda>p. (p_id p, p_status p)) (es_personnel (build_event_state rt tr sn)) =
   map (\<lambda>p. (p_id p,
     if (\<exists>f\<in>set (sn_functions sn). sf_personnel_id f = p_id p \<and> sf_function_type f \<noteq> FReko)
        \<or> (\<exists>op1\<in>set (es_ops (build_event_state rt tr sn)). crew_holds (p_id p) op1)
     then PAssigned else PAvailable)) (sn_personnel sn)"
proof -
  note crew = event_crew_holds [of rt tr sn]
  show ?thesis
    unfolding crew by (simp add: build_event_state_def Let_def scope_person_def roles_assigned_iff)
qed

text \<open>
  The depot the board load produces agrees with its cards and keeps the station's word
  on readiness: a device reads as assigned exactly when one of the cards lists it, and its
  out-of-service flag is the one that was fetched, whatever the assignments say.
\<close>

theorem depot_agrees_with_cards:
  "map (\<lambda>m. (m_id m, m_status m, m_outOfService m)) (es_materials (build_event_state rt tr sn)) =
   map (\<lambda>m. (m_id m,
     if \<exists>op1\<in>set (es_ops (build_event_state rt tr sn)). material_holds (m_id m) op1
     then MAssigned else MAvailable, m_outOfService m)) (sn_materials sn)"
proof -
  note held = event_material_holds [of rt tr sn]
  show ?thesis
    unfolding held by (auto simp: build_event_state_def Let_def scope_material_def)
qed

text \<open>
  Every card a board load produces is well formed: its assignment rows name exactly its
  devices, no holder of the Reko function is in its crew, a named Reko person holds the function,
  and its vehicles stand in the configured display order.
\<close>

theorem loaded_cards_well_formed:
  "list_all (loaded_card_ok sn) (es_ops (build_event_state rt tr sn))"
  unfolding list_all_iff
proof
  fix op1 assume "op1 \<in> set (es_ops (build_event_state rt tr sn))"
  then obtain c where c: "c \<in> set (load_cards rt sn)" and op1: "op1 = finish_card tr sn c"
    by (auto simp: es_ops_finish)
  from load_cards_ok [OF c] have ok: "card_ok (rl_reko (collect_roles (sn_functions sn))) c" .
  have "sorted_wrt (\<lambda>a b. display_order sn (ov_vehicleId a) \<le> display_order sn (ov_vehicleId b)) (op_vehicles op1)"
    using fleet.sorted_sort_cmp [of "\<lambda>i. map_option v_display_order (index_by v_id (sn_vehicles sn) i)"]
    by (simp add: op1 finish_card_def vehicle_order_cmp_def display_order_def)
  moreover from ok have "\<not> crew_holds (sf_personnel_id f) op1"
    if "f \<in> set (sn_functions sn)" "sf_function_type f = FReko" for f
    using that by (auto simp: op1 finish_crew_holds [OF ok] card_ok_def roles_reko)
  moreover from ok have "\<exists>f\<in>set (sn_functions sn). sf_function_type f = FReko \<and> sf_personnel_id f = np_id r"
    if "op_assignedReko op1 = Some r" for r
  proof -
    from ok that have "np_id r \<in> set (rl_reko (collect_roles (sn_functions sn)))"
      by (simp add: card_ok_def op1 finish_card_def)
    then obtain f where "f \<in> set (sn_functions sn)" "sf_function_type f = FReko" "np_id r = sf_personnel_id f"
      by (auto simp: roles_reko)
    then show ?thesis by metis
  qed
  moreover from ok have "dom (op_materialAssignments op1) = set (op_materials op1)"
    by (simp add: op1 finish_card_def card_ok_def)
  ultimately show "loaded_card_ok sn op1" by (auto simp: loaded_card_ok_def)
qed

text \<open>
  Writing a position to the API fields and reading it back gives the same position, and
  clearing it clears both fields, provided \<^verbatim>\<open>Number\<close> reads back what \<^verbatim>\<open>String\<close> wrote.
\<close>

theorem coordinates_roundtrip:
  assumes "\<And>lat lng. c = Some (lat, lng) \<Longrightarrow>
             parse_number rt (show_number rt lat) = Some lat \<and> parse_number rt (show_number rt lng) = Some lng"
  shows "api_coordinates_to_tuple rt (fst (coordinates_to_api_fields rt c)) (snd (coordinates_to_api_fields rt c)) = c"
  using assms by (auto simp: api_coordinates_to_tuple_def coordinates_to_api_fields_def split: option.splits)

theorem coordinates_roundtrip_witness:
  "api_coordinates_to_tuple
     \<lparr>parse_date = (\<lambda>s. None), parse_number = (\<lambda>s. if s = ''47.5'' then Some (95 / 2) else if s = ''7'' then Some 7 else None),
      show_number = (\<lambda>n. if n = 95 / 2 then ''47.5'' else ''7'')\<rparr> (Some ''47.5'') (Some ''7'') = Some (95 / 2, 7)"
  using coordinates_roundtrip [of "Some (95 / 2, 7)"
     "\<lparr>parse_date = (\<lambda>s. None), parse_number = (\<lambda>s. if s = ''47.5'' then Some (95 / 2) else if s = ''7'' then Some 7 else None),
      show_number = (\<lambda>n. if n = 95 / 2 then ''47.5'' else ''7'')\<rparr>"]
  by (simp add: coordinates_to_api_fields_def)

end
