(* ===== verification/HttpTransport.thy ===== *)
theory HttpTransport
  imports Durations JsText BoardTypes
begin

text \<open>
  The transport under the API client: \<^verbatim>\<open>lib/api/http.ts\<close> (one request with retry, backoff and the
  outage voice), \<^verbatim>\<open>lib/api/error-codes.ts\<close> and the error classes of \<^verbatim>\<open>lib/api/types/common.ts\<close>.
  The network is the list of what each \<^verbatim>\<open>fetch\<close> of the request does; \<open>None\<close> as the result says that
  the request is still waiting for an answer the list does not hold. The message catalogue, the body
  parser and the random jitter are parameters.
\<close>

section \<open>Values and errors\<close>

datatype js_value =
    JNull | JBool bool | JNum rat | JStr string | JArr "js_value list" | JObj "(string \<times> js_value) list"

type_synonym error_params = "(string \<times> js_value) list"

record api_error =
  ae_message :: string
  ae_status :: int
  ae_isConflict :: bool
  ae_code :: "string option"
  ae_params :: "error_params option"

datatype js_error = ErrApi api_error | ErrNetwork | ErrOther string

definition is_conflict_error :: "js_error \<Rightarrow> bool" where
  "is_conflict_error err = (case err of ErrApi e \<Rightarrow> ae_status e = 409 | _ \<Rightarrow> False)"

definition is_network_error :: "js_error \<Rightarrow> bool" where
  "is_network_error err = (err = ErrNetwork)"

section \<open>Error bodies\<close>

definition field_of :: "js_value \<Rightarrow> string \<Rightarrow> js_value option" where
  "field_of v k = (case v of JObj fs \<Rightarrow> map_of fs k | _ \<Rightarrow> None)"

definition is_scalar_param :: "js_value \<Rightarrow> bool" where
  "is_scalar_param v = (case v of JStr _ \<Rightarrow> True | JNum _ \<Rightarrow> True | _ \<Rightarrow> False)"

definition entries_of :: "js_value \<Rightarrow> (string \<times> js_value) list" where
  "entries_of v =
     (case v of
        JObj fs \<Rightarrow> fs
      | JArr xs \<Rightarrow> map (\<lambda>(i, x). (show_nat i, x)) (enumerate 0 xs)
      | _ \<Rightarrow> [])"

definition error_params_of :: "js_value \<Rightarrow> error_params option" where
  "error_params_of body =
     (case field_of body ''params'' of
        Some (JObj fs) \<Rightarrow> Some (filter (\<lambda>(_, v). is_scalar_param v) fs)
      | Some (JArr xs) \<Rightarrow> Some (filter (\<lambda>(_, v). is_scalar_param v) (entries_of (JArr xs)))
      | _ \<Rightarrow> None)"

definition error_code_of :: "js_value \<Rightarrow> string option" where
  "error_code_of body = (case field_of body ''code'' of Some (JStr c) \<Rightarrow> Some c | _ \<Rightarrow> None)"

text \<open>\<^verbatim>\<open>/^[a-z0-9_]+$/\<close>.\<close>

definition is_code_word :: "string \<Rightarrow> bool" where
  "is_code_word c = (c \<noteq> [] \<and> list_all (\<lambda>x. let n = (of_char x :: nat)
     in (97 \<le> n \<and> n \<le> 122) \<or> (48 \<le> n \<and> n \<le> 57) \<or> n = 95) c)"

type_synonym catalogue = "string \<rightharpoonup> (error_params \<Rightarrow> string)"

definition message_for_error_code :: "catalogue \<Rightarrow> js_value \<Rightarrow> string option" where
  "message_for_error_code cat body =
     (case error_code_of body of
        None \<Rightarrow> None
      | Some c \<Rightarrow>
          if \<not> is_code_word c then None
          else case cat c of
                 None \<Rightarrow> None
               | Some say \<Rightarrow> Some (say (nullish (error_params_of body) [])))"

section \<open>Reachability and the one voice per outage\<close>

record tab_state =
  ts_reachable :: bool
  ts_claims :: int
  ts_toastsUp :: "string list"
  ts_toasts :: "string list"      \<comment> \<open>toasts raised, in order\<close>
  ts_expired :: nat               \<comment> \<open>session-expired events\<close>

definition connection_toast_id :: string where
  "connection_toast_id = ''api-connection-lost''"

definition show_outage_toast :: "string \<Rightarrow> tab_state \<Rightarrow> tab_state" where
  "show_outage_toast i t =
     (if ts_claims t > 0 \<or> js_includes (ts_toastsUp t) i then t
      else t\<lparr>ts_toastsUp := ts_toastsUp t @ [i], ts_toasts := ts_toasts t @ [i]\<rparr>)"

definition dismiss_outage_toast :: "string \<Rightarrow> tab_state \<Rightarrow> tab_state" where
  "dismiss_outage_toast i t = t\<lparr>ts_toastsUp := filter (\<lambda>x. x \<noteq> i) (ts_toastsUp t)\<rparr>"

definition claim_outage_voice :: "tab_state \<Rightarrow> tab_state" where
  "claim_outage_voice t = t\<lparr>ts_claims := ts_claims t + 1, ts_toastsUp := []\<rparr>"

text \<open>The release the claim returns; \<open>released\<close> is its own flag.\<close>

definition release_outage_voice :: "bool \<Rightarrow> tab_state \<Rightarrow> bool \<times> tab_state" where
  "release_outage_voice released t =
     (if released then (True, t) else (True, t\<lparr>ts_claims := ts_claims t - 1\<rparr>))"

definition set_rest_reachable :: "bool \<Rightarrow> tab_state \<Rightarrow> tab_state" where
  "set_rest_reachable r t = (if ts_reachable t = r then t else t\<lparr>ts_reachable := r\<rparr>)"

definition mark_rest_unreachable :: "bool \<Rightarrow> tab_state \<Rightarrow> tab_state" where
  "mark_rest_unreachable skipToast t =
     (let t1 = set_rest_reachable False t
      in if skipToast then t1 else show_outage_toast connection_toast_id t1)"

definition mark_rest_reachable :: "tab_state \<Rightarrow> tab_state" where
  "mark_rest_reachable t = dismiss_outage_toast connection_toast_id (set_rest_reachable True t)"

section \<open>One request\<close>

text \<open>\<^verbatim>\<open>Math.round\<close> of the delay with its jitter; \<open>random\<close> is the value of \<^verbatim>\<open>Math.random()\<close>.\<close>

definition backoff_delay :: "nat \<Rightarrow> rat \<Rightarrow> int" where
  "backoff_delay retryCount random =
     (let delay = min (1000 * 2 ^ retryCount) 16000 :: rat;
          jitter = delay * (2 / 10) * (random - 1 / 2)
      in \<lfloor>delay + jitter + 1 / 2\<rfloor>)"

datatype body_result = BodyJson js_value | BodyInvalid string | BodyLost

record http_response =
  rp_status :: int
  rp_statusText :: string
  rp_errorText :: "string option"   \<comment> \<open>\<open>None\<close>: reading the text failed\<close>
  rp_isJson :: bool
  rp_body :: body_result

datatype fetch_outcome = FResponse http_response | FTypeError | FTimeout | FAborted string

record http_env =
  he_catalogue :: catalogue
  he_translate :: "string \<Rightarrow> string"
  he_showInt :: "int \<Rightarrow> string"
  he_showValue :: "js_value \<Rightarrow> string"   \<comment> \<open>\<^verbatim>\<open>String(v)\<close>\<close>
  he_parseJson :: "string \<Rightarrow> js_value option"

record http_request =
  rq_endpoint :: string
  rq_isGet :: bool
  rq_skipToast :: bool
  rq_maxRetries :: "nat option"

definition max_retries :: "http_request \<Rightarrow> nat" where
  "max_retries rq = nullish (rq_maxRetries rq) (if rq_isGet rq then 3 else 0)"

definition response_ok :: "http_response \<Rightarrow> bool" where
  "response_ok r = (200 \<le> rp_status r \<and> rp_status r \<le> 299)"

definition is_retryable_status :: "int \<Rightarrow> bool" where
  "is_retryable_status s = (s \<ge> 500 \<or> s = 429 \<or> s = 408)"

definition truthy :: "js_value \<Rightarrow> bool" where
  "truthy v = (case v of JNull \<Rightarrow> False | JBool b \<Rightarrow> b | JNum n \<Rightarrow> n \<noteq> 0 | JStr s \<Rightarrow> s \<noteq> []
               | JArr _ \<Rightarrow> True | JObj _ \<Rightarrow> True)"

definition detail_or :: "string \<Rightarrow> http_env \<Rightarrow> js_value \<Rightarrow> string" where
  "detail_or base env body =
     (case field_of body ''detail'' of
        Some d \<Rightarrow> if truthy d then (case d of JStr t \<Rightarrow> t | _ \<Rightarrow> he_showValue env d) else base
      | None \<Rightarrow> base)"

definition error_of_response :: "http_env \<Rightarrow> http_response \<Rightarrow> api_error" where
  "error_of_response env r =
     (let text = (case rp_errorText r of Some t \<Rightarrow> t | None \<Rightarrow> he_translate env ''errors.api.noErrorDetails'');
          base = he_showInt env (rp_status r) @ '' '' @ rp_statusText r;
          json = he_parseJson env text;
          fromText = (if text \<noteq> [] \<and> length text < 200 then text else base);
          msg = (case json of
             None \<Rightarrow> fromText
           | Some JNull \<Rightarrow> fromText
           | Some body \<Rightarrow>
               (case or_null (message_for_error_code (he_catalogue env) body) of
                  Some m \<Rightarrow> m
                | None \<Rightarrow> detail_or base env body))
      in \<lparr>ae_message = msg, ae_status = rp_status r, ae_isConflict = (rp_status r = 409),
          ae_code = Option.bind json error_code_of, ae_params = Option.bind json error_params_of\<rparr>)"

text \<open>What one attempt comes to: a retry, or the end of the request.\<close>

datatype attempt = Retry | Finished "js_error + js_value option"

definition network_failure :: "http_request \<Rightarrow> nat \<Rightarrow> tab_state \<Rightarrow> attempt \<times> tab_state" where
  "network_failure rq n t =
     (if n < max_retries rq then (Retry, t)
      else (Finished (if rq_isGet rq then Inr None else Inl ErrNetwork),
            mark_rest_unreachable (rq_skipToast rq) t))"

definition handle_response :: "http_env \<Rightarrow> http_request \<Rightarrow> nat \<Rightarrow> http_response \<Rightarrow> tab_state \<Rightarrow> attempt \<times> tab_state" where
  "handle_response env rq n r t0 =
     (let t = mark_rest_reachable t0
      in if \<not> response_ok r then
           (if rp_status r = 401 \<and> rq_endpoint rq = ''/api/sync/config''
            then (Finished (Inl (ErrOther ''Unauthorized'')), t)
            else if is_retryable_status (rp_status r) \<and> n < max_retries rq then (Retry, t)
            else
              let e = error_of_response env r;
                  t1 = (if rp_status r = 401 then t\<lparr>ts_expired := ts_expired t + 1\<rparr> else t);
                  t2 = (if \<not> rq_skipToast rq \<and> rp_status r \<noteq> 401 \<and> \<not> ae_isConflict e
                        then t1\<lparr>ts_toasts := ts_toasts t1 @ [ae_message e]\<rparr> else t1)
              in (Finished (Inl (ErrApi e)), t2))
         else if rp_status r = 204 \<or> \<not> rp_isJson r then (Finished (Inr None), t)
         else case rp_body r of
                BodyJson v \<Rightarrow> (Finished (Inr (Some v)), t)
              | BodyInvalid m \<Rightarrow> (Finished (Inl (ErrOther m)), t)
              | BodyLost \<Rightarrow> network_failure rq n t)"

definition attempt_fetch :: "http_env \<Rightarrow> http_request \<Rightarrow> nat \<Rightarrow> fetch_outcome \<Rightarrow> tab_state \<Rightarrow> attempt \<times> tab_state" where
  "attempt_fetch env rq n f t =
     (case f of
        FResponse r \<Rightarrow> handle_response env rq n r t
      | FTypeError \<Rightarrow> network_failure rq n t
      | FTimeout \<Rightarrow> network_failure rq n t
      | FAborted m \<Rightarrow> (Finished (Inl (ErrOther m)), t))"

text \<open>The loop: how many fetches were made, how the request ended, the tab's state.\<close>

fun request_from ::
  "http_env \<Rightarrow> http_request \<Rightarrow> nat \<Rightarrow> fetch_outcome list \<Rightarrow> tab_state
     \<Rightarrow> nat \<times> (js_error + js_value option) option \<times> tab_state" where
  "request_from env rq n [] t = (n, None, t)"
| "request_from env rq n (f # fs) t =
     (case attempt_fetch env rq n f t of
        (Retry, t1) \<Rightarrow> request_from env rq (n + 1) fs t1
      | (Finished res, t1) \<Rightarrow> (n + 1, Some res, t1))"

definition request ::
  "http_env \<Rightarrow> http_request \<Rightarrow> fetch_outcome list \<Rightarrow> tab_state
     \<Rightarrow> nat \<times> (js_error + js_value option) option \<times> tab_state" where
  "request env rq fs t = request_from env rq 0 fs t"

section \<open>Lemmas\<close>

lemma network_failure_retry: "fst (network_failure rq n t) = Retry \<Longrightarrow> n < max_retries rq"
  by (auto simp: network_failure_def split: if_splits)

lemma attempt_retry: "fst (attempt_fetch env rq n f t) = Retry \<Longrightarrow> n < max_retries rq"
  by (auto simp: attempt_fetch_def handle_response_def Let_def network_failure_retry
      split: fetch_outcome.splits if_splits body_result.splits)

lemma request_from_attempts:
  "n \<le> max_retries rq \<Longrightarrow> fst (request_from env rq n fs t) \<le> max_retries rq + 1"
proof (induction fs arbitrary: n t)
  case Nil
  then show ?case by simp
next
  case (Cons f fs)
  show ?case
  proof (cases "attempt_fetch env rq n f t")
    case (Pair a t1)
    show ?thesis
    proof (cases a)
      case Retry
      with Pair attempt_retry [of env rq n f t] have "n < max_retries rq" by simp
      with Pair Retry Cons.IH [of "n + 1" t1] show ?thesis by simp
    next
      case (Finished res)
      with Pair Cons.prems show ?thesis by simp
    qed
  qed
qed

lemma request_from_returns:
  "n \<le> max_retries rq \<Longrightarrow> max_retries rq + 1 - n \<le> length fs \<Longrightarrow>
     fst (snd (request_from env rq n fs t)) \<noteq> None"
proof (induction fs arbitrary: n t)
  case Nil
  then show ?case by simp
next
  case (Cons f fs)
  show ?case
  proof (cases "attempt_fetch env rq n f t")
    case (Pair a t1)
    show ?thesis
    proof (cases a)
      case Retry
      with Pair attempt_retry [of env rq n f t] have "n < max_retries rq" by simp
      with Pair Retry Cons.IH [of "n + 1" t1] Cons.prems show ?thesis by simp
    next
      case (Finished res)
      with Pair show ?thesis by simp
    qed
  qed
qed

lemma backoff_bounds:
  assumes "0 \<le> random" "random \<le> 1"
  shows "900 \<le> backoff_delay n random" "backoff_delay n random \<le> 17600"
proof -
  define d where "d = min (1000 * 2 ^ n) (16000 :: rat)"
  have d: "1000 \<le> d" "d \<le> 16000" by (simp_all add: d_def)
  have val: "backoff_delay n random = \<lfloor>d + d * (2 / 10) * (random - 1 / 2) + 1 / 2\<rfloor>"
    by (simp add: backoff_delay_def d_def Let_def)
  have lo: "d * (2 / 10) * (- 1 / 2) \<le> d * (2 / 10) * (random - 1 / 2)"
    by (rule mult_left_mono) (use d assms in auto)
  have hi: "d * (2 / 10) * (random - 1 / 2) \<le> d * (2 / 10) * (1 / 2)"
    by (rule mult_left_mono) (use d assms in auto)
  show "900 \<le> backoff_delay n random"
    unfolding val le_floor_iff using lo d by simp
  show "backoff_delay n random \<le> 17600"
  proof -
    from d have "d * (2 / 10) * (1 / 2) \<le> 1600" by simp
    with hi d have "d + d * (2 / 10) * (random - 1 / 2) + 1 / 2 < 17601" by linarith
    then have "d + d * (2 / 10) * (random - 1 / 2) + 1 / 2 < of_int 17600 + 1" by simp
    then show ?thesis unfolding val by (simp only: floor_le_iff)
  qed
qed

definition is_network_outcome :: "fetch_outcome \<Rightarrow> bool" where
  "is_network_outcome f = (f = FTypeError \<or> f = FTimeout)"

lemma mutation_finish:
  assumes "attempt_fetch env rq n f t = (Finished (Inr v), t1)" "\<not> rq_isGet rq"
  shows "\<exists>r. f = FResponse r \<and> response_ok r"
  using assms by (auto simp: attempt_fetch_def handle_response_def network_failure_def Let_def
      split: fetch_outcome.splits if_splits body_result.splits)

section \<open>Properties\<close>

text \<open>
  A request is sent a bounded number of times and always ends: a write without its own
  retry count is fetched at most once whatever the network does (so a write whose answer was lost is
  never replayed), a read at most four times, and as soon as the network has answered every attempt
  the request has a result.
\<close>

theorem writes_are_sent_once:
  "fst (request env rq fs t) \<le> max_retries rq + 1 \<and>
   (rq_maxRetries rq = None \<and> \<not> rq_isGet rq \<longrightarrow> fst (request env rq fs t) \<le> 1) \<and>
   (max_retries rq < length fs \<longrightarrow> fst (snd (request env rq fs t)) \<noteq> None)"
  using request_from_attempts [of 0 rq env fs t] request_from_returns [of 0 rq fs env t]
  by (auto simp: request_def max_retries_def)

theorem writes_are_sent_once_witness:
  "\<forall>env t. fst (request env \<lparr>rq_endpoint = ''/api/incidents'', rq_isGet = False, rq_skipToast = False, rq_maxRetries = None\<rparr>
      [FTimeout, FTypeError] t) \<le> 1"
  using writes_are_sent_once [of _ "\<lparr>rq_endpoint = ''/api/incidents'', rq_isGet = False, rq_skipToast = False, rq_maxRetries = None\<rparr>"
      "[FTimeout, FTypeError]"]
  by simp

text \<open>
  A write never reports success that did not happen: a request that is not a read resolves
  only when the server answered it with a success status; a network failure, a timeout and every error
  status make it reject, so the caller's rollback runs.
\<close>

theorem writes_fail_loudly:
  assumes "\<not> rq_isGet rq" and "fst (snd (request env rq fs t)) = Some (Inr v)"
  shows "\<exists>r. FResponse r \<in> set fs \<and> response_ok r"
proof -
  have "fst (snd (request_from env rq n fs t)) = Some (Inr v) \<Longrightarrow> \<exists>r. FResponse r \<in> set fs \<and> response_ok r" for n
  proof (induction fs arbitrary: n t)
    case Nil
    then show ?case by simp
  next
    case (Cons f fs)
    obtain a t1 where a: "attempt_fetch env rq n f t = (a, t1)" by (rule prod.exhaust)
    show ?case
    proof (cases a)
      case Retry
      with a Cons show ?thesis by auto
    next
      case (Finished res)
      with a Cons.prems have "attempt_fetch env rq n f t = (Finished (Inr v), t1)" by simp
      from mutation_finish [OF this assms(1)] show ?thesis by auto
    qed
  qed
  with assms(2) show ?thesis by (simp add: request_def)
qed

theorem writes_fail_loudly_witness:
  "\<exists>r. FResponse r \<in> set [FResponse \<lparr>rp_status = 204, rp_statusText = [], rp_errorText = None, rp_isJson = False, rp_body = BodyLost\<rparr>]
     \<and> response_ok r"
  by (rule writes_fail_loudly
        [of "\<lparr>rq_endpoint = [], rq_isGet = False, rq_skipToast = False, rq_maxRetries = None\<rparr>"
            "\<lparr>he_catalogue = Map.empty, he_translate = (\<lambda>s. s), he_showInt = (\<lambda>_. []), he_showValue = (\<lambda>_. []), he_parseJson = (\<lambda>_. None)\<rparr>"
            "[FResponse \<lparr>rp_status = 204, rp_statusText = [], rp_errorText = None, rp_isJson = False, rp_body = BodyLost\<rparr>]"
            "\<lparr>ts_reachable = True, ts_claims = 0, ts_toastsUp = [], ts_toasts = [], ts_expired = 0\<rparr>" None])
    (simp_all add: request_def attempt_fetch_def handle_response_def response_ok_def Let_def)

end
