(* ===== verification/Batching.thy ===== *)
theory Batching
  imports BoardTypes
begin

text \<open>
  \<^verbatim>\<open>frontend/lib/update-batcher.ts\<close>: the per-key debounced batcher of edits and the queue that
  sends one request at a time per key, as event machines. A partial update is the map of the fields
  it names; a flush callback is identified by a number, and what it is called with is the log.
\<close>

section \<open>UpdateBatcher\<close>

type_synonym partial_update = "string \<rightharpoonup> string"

text \<open>\<^verbatim>\<open>pending\<close> is a JavaScript \<^verbatim>\<open>Map\<close>: its keys keep the order of their first insertion, which
  is the order \<^verbatim>\<open>flushAll\<close> walks.\<close>

record batcher =
  bt_timers :: "ident \<rightharpoonup> ms"
  bt_pending :: "(ident \<times> partial_update) list"
  bt_flushers :: "ident \<rightharpoonup> nat"
  bt_log :: "(nat \<times> ident \<times> partial_update) list"

definition new_batcher :: batcher where
  "new_batcher = \<lparr>bt_timers = Map.empty, bt_pending = [], bt_flushers = Map.empty, bt_log = []\<rparr>"

fun map_set :: "'k \<Rightarrow> 'v \<Rightarrow> ('k \<times> 'v) list \<Rightarrow> ('k \<times> 'v) list" where
  "map_set k v [] = [(k, v)]"
| "map_set k v ((k', v') # xs) = (if k' = k then (k, v) # xs else (k', v') # map_set k v xs)"

definition map_delete :: "'k \<Rightarrow> ('k \<times> 'v) list \<Rightarrow> ('k \<times> 'v) list" where
  "map_delete k xs = filter (\<lambda>(k', _). k' \<noteq> k) xs"

definition schedule :: "ident \<Rightarrow> partial_update \<Rightarrow> ms \<Rightarrow> nat \<Rightarrow> batcher \<Rightarrow> batcher" where
  "schedule key updates fires flusher b =
     b\<lparr>bt_pending := map_set key (nullish (map_of (bt_pending b) key) Map.empty ++ updates) (bt_pending b),
       bt_flushers := (bt_flushers b)(key \<mapsto> flusher),
       bt_timers := (bt_timers b)(key \<mapsto> fires)\<rparr>"

definition get_pending :: "ident \<Rightarrow> batcher \<Rightarrow> partial_update option" where
  "get_pending key b = map_of (bt_pending b) key"

definition flush :: "ident \<Rightarrow> batcher \<Rightarrow> batcher" where
  "flush key b =
     (let b1 = b\<lparr>bt_pending := map_delete key (bt_pending b), bt_flushers := (bt_flushers b)(key := None)\<rparr>
      in case (map_of (bt_pending b) key, bt_flushers b key) of
           (Some batch, Some flusher) \<Rightarrow> b1\<lparr>bt_log := bt_log b @ [(flusher, key, batch)]\<rparr>
         | _ \<Rightarrow> b1)"

definition timer_fires :: "ident \<Rightarrow> batcher \<Rightarrow> batcher" where
  "timer_fires key b =
     (if bt_timers b key = None then b
      else flush key (b\<lparr>bt_timers := (bt_timers b)(key := None)\<rparr>))"

definition flush_all :: "batcher \<Rightarrow> batcher" where
  "flush_all b = foldl (\<lambda>b1 key. flush key b1) (b\<lparr>bt_timers := Map.empty\<rparr>) (map fst (bt_pending b))"

datatype batch_event = Schedule ident partial_update ms nat | TimerFires ident | FlushAll

fun batch_step :: "batcher \<Rightarrow> batch_event \<Rightarrow> batcher" where
  "batch_step b (Schedule key u t f) = schedule key u t f b"
| "batch_step b (TimerFires key) = timer_fires key b"
| "batch_step b FlushAll = flush_all b"

section \<open>KeyedSerialQueue\<close>

text \<open>Requests are numbered in the order they were asked for. A request waits for the one its
  promise chain puts ahead, runs, and is done whatever its outcome (the tail never rejects).\<close>

datatype request_state = Waiting nat | Running | Done

record serial_queue =
  kq_count :: nat
  kq_key :: "nat \<Rightarrow> ident"
  kq_state :: "nat \<Rightarrow> request_state"
  kq_tails :: "ident \<rightharpoonup> nat"

definition new_queue :: serial_queue where
  "new_queue = \<lparr>kq_count = 0, kq_key = (\<lambda>_. []), kq_state = (\<lambda>_. Done), kq_tails = Map.empty\<rparr>"

definition queue_run :: "ident \<Rightarrow> serial_queue \<Rightarrow> serial_queue" where
  "queue_run key q =
     (let n = kq_count q
      in q\<lparr>kq_count := n + 1, kq_key := (kq_key q)(n := key),
           kq_state := (kq_state q)(n := (case kq_tails q key of None \<Rightarrow> Running | Some ahead \<Rightarrow> Waiting ahead)),
           kq_tails := (kq_tails q)(key \<mapsto> n)\<rparr>)"

text \<open>The continuation that starts a waiting request once the one ahead is done.\<close>

definition queue_start :: "nat \<Rightarrow> serial_queue \<Rightarrow> serial_queue" where
  "queue_start n q =
     (if n < kq_count q then
        (case kq_state q n of
           Waiting ahead \<Rightarrow> if kq_state q ahead = Done then q\<lparr>kq_state := (kq_state q)(n := Running)\<rparr> else q
         | _ \<Rightarrow> q)
      else q)"

definition queue_settle :: "nat \<Rightarrow> serial_queue \<Rightarrow> serial_queue" where
  "queue_settle n q =
     (if n < kq_count q \<and> kq_state q n = Running then q\<lparr>kq_state := (kq_state q)(n := Done)\<rparr> else q)"

text \<open>The tail's own continuation: forget the key if nothing was queued behind.\<close>

definition queue_cleanup :: "nat \<Rightarrow> serial_queue \<Rightarrow> serial_queue" where
  "queue_cleanup n q =
     (if n < kq_count q \<and> kq_state q n = Done \<and> kq_tails q (kq_key q n) = Some n
      then q\<lparr>kq_tails := (kq_tails q)(kq_key q n := None)\<rparr> else q)"

definition queue_is_busy :: "ident \<Rightarrow> serial_queue \<Rightarrow> bool" where
  "queue_is_busy key q = (kq_tails q key \<noteq> None)"

datatype queue_event = QRun ident | QStart nat | QSettle nat | QCleanup nat

fun queue_step :: "serial_queue \<Rightarrow> queue_event \<Rightarrow> serial_queue" where
  "queue_step q (QRun key) = queue_run key q"
| "queue_step q (QStart n) = queue_start n q"
| "queue_step q (QSettle n) = queue_settle n q"
| "queue_step q (QCleanup n) = queue_cleanup n q"

section \<open>Lemmas on the batcher\<close>

lemma map_of_map_set [simp]: "map_of (map_set k v xs) = (map_of xs)(k \<mapsto> v)"
  by (induction xs) auto

lemma map_of_map_delete [simp]: "map_of (map_delete k xs) = (map_of xs)(k := None)"
  by (induction xs) (auto simp: map_delete_def fun_eq_iff)

lemma map_delete_subset: "fst ` set (map_delete k xs) \<subseteq> fst ` set xs - {k}"
  by (auto simp: map_delete_def)

text \<open>What was flushed for a key, what still waits for it, what was asked for it.\<close>

fun merged :: "ident \<Rightarrow> (nat \<times> ident \<times> partial_update) list \<Rightarrow> partial_update" where
  "merged key [] = Map.empty"
| "merged key ((_, k, u) # rest) = (if k = key then u ++ merged key rest else merged key rest)"

fun asked :: "ident \<Rightarrow> batch_event list \<Rightarrow> partial_update" where
  "asked key [] = Map.empty"
| "asked key (Schedule k u _ _ # es) = (if k = key then u ++ asked key es else asked key es)"
| "asked key (_ # es) = asked key es"

definition waiting :: "ident \<Rightarrow> batcher \<Rightarrow> partial_update" where
  "waiting key b = nullish (get_pending key b) Map.empty"

definition batch_inv :: "batcher \<Rightarrow> bool" where
  "batch_inv b \<longleftrightarrow> dom (map_of (bt_pending b)) = dom (bt_flushers b)"

lemma merged_append: "merged key (xs @ ys) = merged key xs ++ merged key ys"
  by (induction xs) auto

lemma asked_append: "asked key (xs @ ys) = asked key xs ++ asked key ys"
proof (induction xs)
  case (Cons e es)
  then show ?case by (cases e) auto
qed simp

lemma flush_inv: "batch_inv b \<Longrightarrow> batch_inv (flush key b)"
  by (auto simp: batch_inv_def flush_def Let_def split: option.splits)

lemma schedule_inv: "batch_inv b \<Longrightarrow> batch_inv (schedule key u t f b)"
  by (simp add: batch_inv_def schedule_def)

lemma flushes_inv: "batch_inv b \<Longrightarrow> batch_inv (foldl (\<lambda>b1 key. flush key b1) b ks)"
  by (induction ks arbitrary: b) (auto intro: flush_inv)

lemma timers_irrelevant [simp]:
  "waiting k (bt_timers_update f b) = waiting k b" "bt_log (bt_timers_update f b) = bt_log b"
  "batch_inv (bt_timers_update f b) = batch_inv b"
  by (simp_all add: waiting_def get_pending_def batch_inv_def)

lemma batch_inv_step: "batch_inv b \<Longrightarrow> batch_inv (batch_step b e)"
  by (cases e) (auto simp: schedule_inv timer_fires_def flush_all_def intro!: flush_inv flushes_inv)

interpretation batch: event_machine batch_step batch_inv new_batcher
  by unfold_locales (simp_all add: batch_inv_step, simp add: batch_inv_def new_batcher_def)

lemma flush_total:
  assumes "batch_inv b"
  shows "merged k (bt_log (flush key b)) ++ waiting k (flush key b) = merged k (bt_log b) ++ waiting k b"
proof (cases "map_of (bt_pending b) key")
  case None
  then show ?thesis by (simp add: flush_def Let_def waiting_def get_pending_def fun_upd_idem)
next
  case (Some batch)
  with assms obtain f where "bt_flushers b key = Some f" by (auto simp: batch_inv_def dom_def set_eq_iff)
  with Some show ?thesis by (simp add: flush_def Let_def waiting_def get_pending_def merged_append)
qed

lemma flushes_total:
  "batch_inv b \<Longrightarrow>
     merged k (bt_log (foldl (\<lambda>b1 key. flush key b1) b ks)) ++ waiting k (foldl (\<lambda>b1 key. flush key b1) b ks)
     = merged k (bt_log b) ++ waiting k b"
proof (induction ks arbitrary: b)
  case (Cons key ks)
  from Cons.IH [OF flush_inv [OF Cons.prems]] flush_total [OF Cons.prems] show ?case by simp
qed simp

lemma step_total:
  assumes "batch_inv b"
  shows "merged k (bt_log (batch_step b e)) ++ waiting k (batch_step b e)
         = merged k (bt_log b) ++ waiting k b ++ asked k [e]"
proof (cases e)
  case (Schedule key u t f)
  then show ?thesis by (simp add: schedule_def waiting_def get_pending_def map_add_assoc)
next
  case (TimerFires key)
  with assms flush_total show ?thesis by (simp add: timer_fires_def)
next
  case FlushAll
  with assms flushes_total show ?thesis by (simp add: flush_all_def)
qed

lemma flushes_empty:
  "fst ` set (bt_pending b) \<subseteq> set ks \<Longrightarrow> bt_pending (foldl (\<lambda>b1 key. flush key b1) b ks) = []"
proof (induction ks arbitrary: b)
  case (Cons key ks)
  have "bt_pending (flush key b) = map_delete key (bt_pending b)"
    by (simp add: flush_def Let_def split: option.splits)
  moreover have "fst ` set (map_delete key (bt_pending b)) \<subseteq> set ks"
  proof
    fix k assume "k \<in> fst ` set (map_delete key (bt_pending b))"
    with map_delete_subset [of key "bt_pending b"] have "k \<in> fst ` set (bt_pending b)" "k \<noteq> key"
      by blast+
    with Cons.prems show "k \<in> set ks" by (metis set_ConsD subsetD)
  qed
  ultimately show ?case using Cons.IH [of "flush key b"] by simp
qed auto

section \<open>Lemmas on the queue\<close>

definition same_key_before :: "serial_queue \<Rightarrow> nat \<Rightarrow> nat \<Rightarrow> bool" where
  "same_key_before q i j = (i < j \<and> j < kq_count q \<and> kq_key q i = kq_key q j)"

definition queue_inv :: "serial_queue \<Rightarrow> bool" where
  "queue_inv q \<longleftrightarrow>
     (\<forall>i j. same_key_before q i j \<longrightarrow> kq_state q j = Running \<or> kq_state q j = Done \<longrightarrow> kq_state q i = Done)
     \<and> (\<forall>j a. j < kq_count q \<longrightarrow> kq_state q j = Waiting a \<longrightarrow> same_key_before q a j)
     \<and> (\<forall>i j a. kq_state q j = Waiting a \<longrightarrow> same_key_before q i j \<longrightarrow> i \<le> a)
     \<and> (\<forall>k t. kq_tails q k = Some t \<longrightarrow> t < kq_count q \<and> kq_key q t = k)
     \<and> (\<forall>k t i. kq_tails q k = Some t \<longrightarrow> i < kq_count q \<longrightarrow> kq_key q i = k \<longrightarrow> i \<le> t)
     \<and> (\<forall>k i. kq_tails q k = None \<longrightarrow> i < kq_count q \<longrightarrow> kq_key q i = k \<longrightarrow> kq_state q i = Done)"

lemma queue_invD:
  assumes "queue_inv q"
  shows "same_key_before q i j \<Longrightarrow> kq_state q j = Running \<or> kq_state q j = Done \<Longrightarrow> kq_state q i = Done"
    and "j < kq_count q \<Longrightarrow> kq_state q j = Waiting a \<Longrightarrow> same_key_before q a j"
    and "kq_state q j = Waiting a \<Longrightarrow> same_key_before q i j \<Longrightarrow> i \<le> a"
    and "kq_tails q k = Some t \<Longrightarrow> t < kq_count q \<and> kq_key q t = k"
    and "kq_tails q k = Some t \<Longrightarrow> i < kq_count q \<Longrightarrow> kq_key q i = k \<Longrightarrow> i \<le> t"
    and "kq_tails q k = None \<Longrightarrow> i < kq_count q \<Longrightarrow> kq_key q i = k \<Longrightarrow> kq_state q i = Done"
  using assms unfolding queue_inv_def by blast+

lemma queue_invI:
  assumes "\<And>i j. same_key_before q i j \<Longrightarrow> kq_state q j = Running \<or> kq_state q j = Done \<Longrightarrow> kq_state q i = Done"
    and "\<And>j a. j < kq_count q \<Longrightarrow> kq_state q j = Waiting a \<Longrightarrow> same_key_before q a j"
    and "\<And>i j a. kq_state q j = Waiting a \<Longrightarrow> same_key_before q i j \<Longrightarrow> i \<le> a"
    and "\<And>k t. kq_tails q k = Some t \<Longrightarrow> t < kq_count q \<and> kq_key q t = k"
    and "\<And>k t i. kq_tails q k = Some t \<Longrightarrow> i < kq_count q \<Longrightarrow> kq_key q i = k \<Longrightarrow> i \<le> t"
    and "\<And>k i. kq_tails q k = None \<Longrightarrow> i < kq_count q \<Longrightarrow> kq_key q i = k \<Longrightarrow> kq_state q i = Done"
  shows "queue_inv q"
  unfolding queue_inv_def
proof (intro conjI)
qed (use assms in blast)+

lemma same_key_before_upd [simp]:
  "same_key_before (kq_state_update f q) = same_key_before q"
  "same_key_before (kq_tails_update g q) = same_key_before q"
  by (auto simp: same_key_before_def fun_eq_iff)

lemma same_key_before_less: "same_key_before q i j \<Longrightarrow> i < j \<and> i < kq_count q \<and> j < kq_count q"
  by (auto simp: same_key_before_def)

lemma queue_inv_running:
  assumes inv: "queue_inv q" and n: "n < kq_count q" and wait: "kq_state q n = Waiting a" and ahead: "kq_state q a = Done"
  shows "queue_inv (q\<lparr>kq_state := (kq_state q)(n := Running)\<rparr>)"
proof (rule queue_invI, goal_cases)
  case (1 i j)
  have "kq_state q i = Done" if "same_key_before q i n"
  proof -
    from queue_invD(3) [OF inv wait that] have "i \<le> a" .
    moreover from queue_invD(2) [OF inv n wait] have "same_key_before q a n" .
    ultimately show ?thesis
      using ahead that queue_invD(1) [OF inv, of i a]
      by (cases "i = a") (auto simp: same_key_before_def)
  qed
  moreover have "i \<noteq> n" if "j \<noteq> n"
    using queue_invD(1) [OF inv, of n j] 1 that wait by auto
  ultimately show ?case
    using 1 queue_invD(1) [OF inv, of i j] by (cases "j = n") (auto dest: same_key_before_less)
next
  case (6 k i)
  with queue_invD(6) [OF inv, of k i] wait show ?case by auto
next
  case (2 j b)
  with queue_invD(2) [OF inv, of j b] show ?case by (simp split: if_splits)
next
  case (3 i j b)
  with queue_invD(3) [OF inv, of j b i] show ?case by (simp split: if_splits)
next
  case (4 k t)
  with queue_invD(4) [OF inv, of k t] show ?case by simp
next
  case (5 k t i)
  with queue_invD(5) [OF inv, of k t i] show ?case by simp
qed

lemma queue_inv_start: "queue_inv q \<Longrightarrow> queue_inv (queue_start n q)"
  by (auto simp: queue_start_def queue_inv_running split: request_state.split)

lemma queue_inv_settle: "queue_inv q \<Longrightarrow> queue_inv (queue_settle n q)"
proof -
  assume inv: "queue_inv q"
  have "queue_inv (q\<lparr>kq_state := (kq_state q)(n := Done)\<rparr>)" if run: "kq_state q n = Running"
  proof (rule queue_invI, goal_cases)
    case (1 i j)
    with queue_invD(1) [OF inv, of i j] run show ?case by (cases "j = n") auto
  next
    case (2 j b)
    with queue_invD(2) [OF inv, of j b] show ?case by (simp split: if_splits)
  next
    case (3 i j b)
    with queue_invD(3) [OF inv, of j b i] show ?case by (simp split: if_splits)
  next
    case (4 k t)
    with queue_invD(4) [OF inv, of k t] show ?case by simp
  next
    case (5 k t i)
    with queue_invD(5) [OF inv, of k t i] show ?case by simp
  next
    case (6 k i)
    with queue_invD(6) [OF inv, of k i] show ?case by simp
  qed
  with inv show ?thesis by (simp add: queue_settle_def)
qed

lemma queue_inv_cleanup: "queue_inv q \<Longrightarrow> queue_inv (queue_cleanup n q)"
proof -
  assume inv: "queue_inv q"
  have "queue_inv (q\<lparr>kq_tails := (kq_tails q)(kq_key q n := None)\<rparr>)"
    if n: "n < kq_count q" "kq_state q n = Done" "kq_tails q (kq_key q n) = Some n"
  proof (rule queue_invI, goal_cases)
    case (6 k i)
    show ?case
    proof (cases "k = kq_key q n")
      case True
      have "i = n \<or> same_key_before q i n"
        using queue_invD(5) [OF inv n(3), of i] 6 True n(1) by (auto simp: same_key_before_def)
      with queue_invD(1) [OF inv, of i n] n(2) show ?thesis by auto
    next
      case False
      with 6 queue_invD(6) [OF inv, of k i] show ?thesis by auto
    qed
  next
    case (1 i j)
    with queue_invD(1) [OF inv, of i j] show ?case by simp
  next
    case (2 j b)
    with queue_invD(2) [OF inv, of j b] show ?case by simp
  next
    case (3 i j b)
    with queue_invD(3) [OF inv, of j b i] show ?case by simp
  next
    case (4 k t)
    with queue_invD(4) [OF inv, of k t] show ?case by (simp split: if_splits)
  next
    case (5 k t i)
    with queue_invD(5) [OF inv, of k t i] show ?case by (simp split: if_splits)
  qed
  with inv show ?thesis by (simp add: queue_cleanup_def)
qed

lemma queue_inv_run: "queue_inv q \<Longrightarrow> queue_inv (queue_run key q)"
proof -
  assume inv: "queue_inv q"
  let ?n = "kq_count q" and ?q = "queue_run key q"
  have skb: "same_key_before ?q i j \<longleftrightarrow>
      same_key_before q i j \<or> (j = ?n \<and> i < ?n \<and> kq_key q i = key)" for i j
    by (auto simp: same_key_before_def queue_run_def Let_def less_Suc_eq)
  have st: "kq_state ?q = (kq_state q)(?n := (case kq_tails q key of None \<Rightarrow> Running | Some ahead \<Rightarrow> Waiting ahead))"
    and tl: "kq_tails ?q = (kq_tails q)(key \<mapsto> ?n)" and ct: "kq_count ?q = Suc ?n"
    and ky: "kq_key ?q = (kq_key q)(?n := key)"
    by (simp_all add: queue_run_def Let_def)
  show ?thesis
  proof (rule queue_invI, goal_cases)
    case (1 i j)
    then show ?case
      using queue_invD(1) [OF inv, of i j] queue_invD(6) [OF inv, of key i]
      by (auto simp: skb st dest: same_key_before_less split: if_splits option.splits)
  next
    case (2 j a)
    then show ?case
      using queue_invD(2) [OF inv, of j a] queue_invD(4) [OF inv, of key a]
      by (auto simp: skb st ct less_Suc_eq dest: same_key_before_less split: if_splits option.splits)
  next
    case (3 i j a)
    then show ?case
      using queue_invD(3) [OF inv, of j a i] queue_invD(5) [OF inv, of key a i]
      by (auto simp: skb st dest: same_key_before_less split: if_splits option.splits)
  next
    case (4 k t)
    then show ?case
      using queue_invD(4) [OF inv, of k t] by (auto simp: tl ct ky split: if_splits)
  next
    case (5 k t i)
    then show ?case
      using queue_invD(5) [OF inv, of k t i] by (auto simp: tl ct ky less_Suc_eq split: if_splits)
  next
    case (6 k i)
    then show ?case
      using queue_invD(6) [OF inv, of k i] by (auto simp: tl ct ky st less_Suc_eq split: if_splits)
  qed
qed

lemma queue_inv_step: "queue_inv q \<Longrightarrow> queue_inv (queue_step q e)"
  by (cases e) (simp_all add: queue_inv_run queue_inv_start queue_inv_settle queue_inv_cleanup)

interpretation queue: event_machine queue_step queue_inv new_queue
  by unfold_locales (simp_all add: queue_inv_step, simp add: queue_inv_def new_queue_def same_key_before_def)

definition run_queue :: "queue_event list \<Rightarrow> serial_queue" where
  "run_queue es = foldl queue_step new_queue es"

definition run_batcher :: "batch_event list \<Rightarrow> batcher" where
  "run_batcher es = foldl batch_step new_batcher es"

lemma run_batcher_snoc: "run_batcher (es @ [e]) = batch_step (run_batcher es) e"
  by (simp add: run_batcher_def)

lemma run_batcher_inv: "batch_inv (run_batcher es)"
  unfolding run_batcher_def by (rule batch.inv_run)

lemma run_batcher_total:
  "merged key (bt_log (run_batcher es)) ++ waiting key (run_batcher es) = asked key es"
proof (induction es rule: rev_induct)
  case Nil
  show ?case by (simp add: run_batcher_def new_batcher_def waiting_def get_pending_def)
next
  case (snoc e es)
  from step_total [OF run_batcher_inv, of key es e] show ?case
    by (simp only: run_batcher_snoc snoc.IH [symmetric] asked_append map_add_assoc)
qed

section \<open>Properties\<close>


text \<open>
  C29. Requests of one key never overlap and never overtake each other: in every reachable
  state of the queue, when a request is running or done, every earlier request of its key is done.
\<close>

theorem requests_keep_their_order:
  assumes "i < j" "j < kq_count (run_queue es)" "kq_key (run_queue es) i = kq_key (run_queue es) j"
    and "kq_state (run_queue es) j = Running \<or> kq_state (run_queue es) j = Done"
  shows "kq_state (run_queue es) i = Done"
proof -
  have "queue_inv (run_queue es)" unfolding run_queue_def by (rule queue.inv_run)
  from queue_invD(1) [OF this, of i j] assms show ?thesis by (simp add: same_key_before_def)
qed

theorem requests_keep_their_order_witness:
  "kq_state (run_queue [QRun ''a'', QRun ''a'', QSettle 0, QStart 1]) 0 = Done"
  by (rule requests_keep_their_order [of 0 1])
    (simp_all add: run_queue_def new_queue_def queue_run_def queue_settle_def queue_start_def Let_def)

end
