(* ===== verification/FieldSave.thy ===== *)
theory FieldSave
  imports HttpTransport Batching
begin

text \<open>
  \<^verbatim>\<open>frontend/lib/field-save.ts\<close>: what the incident detail says under a text field. Each field of an
  incident has an entry (draft, base, acked text, version, requests in flight); a batch of edits carries
  a ticket that pins the versions it was cut from. The module's state is its scope, its entries (a
  JavaScript \<^verbatim>\<open>Map\<close>, in insertion order) and the watchers. The key of an entry is the triple the code
  joins with \<^verbatim>\<open>|\<close>; identifiers do not contain that character.
\<close>

section \<open>Fields, conflicts, failures\<close>

datatype saved_text_field = FNotes | FContact | FContactPhone | FInternalNotes | FNachbarhilfeNote | FAmWartenNote

definition saved_text_fields :: "saved_text_field list" where
  "saved_text_fields = [FNotes, FContact, FContactPhone, FInternalNotes, FNachbarhilfeNote, FAmWartenNote]"

fun field_word :: "saved_text_field \<Rightarrow> string" where
  "field_word FNotes = ''notes''"
| "field_word FContact = ''contact''"
| "field_word FContactPhone = ''contactPhone''"
| "field_word FInternalNotes = ''internalNotes''"
| "field_word FNachbarhilfeNote = ''nachbarhilfeNote''"
| "field_word FAmWartenNote = ''amWartenNote''"

definition is_saved_text_field :: "string \<Rightarrow> bool" where
  "is_saved_text_field key = js_includes (map field_word saved_text_fields) key"

fun saved_text_api_field :: "saved_text_field \<Rightarrow> string" where
  "saved_text_api_field FNotes = ''description''"
| "saved_text_api_field FContact = ''contact''"
| "saved_text_api_field FContactPhone = ''contact_phone''"
| "saved_text_api_field FInternalNotes = ''internal_notes''"
| "saved_text_api_field FNachbarhilfeNote = ''nachbarhilfe_note''"
| "saved_text_api_field FAmWartenNote = ''am_warten_note''"

record field_conflict =
  fc_text :: string
  fc_by :: "string option"
  fc_at :: "string option"

text \<open>\<^verbatim>\<open>String(v)\<close> of a parameter value (parameters are strings and numbers) and its absence.\<close>

definition param_string :: "js_runtime \<Rightarrow> js_value \<Rightarrow> string" where
  "param_string rt v = (case v of JStr s \<Rightarrow> s | JNum n \<Rightarrow> show_number rt n | _ \<Rightarrow> [])"

definition param_or_null :: "js_runtime \<Rightarrow> error_params \<Rightarrow> string \<Rightarrow> string option" where
  "param_or_null rt ps k = (case map_of ps k of None \<Rightarrow> None | Some JNull \<Rightarrow> None | Some v \<Rightarrow> Some (param_string rt v))"

definition text_conflict_of :: "js_runtime \<Rightarrow> js_error \<Rightarrow> (saved_text_field \<times> field_conflict) option" where
  "text_conflict_of rt err =
     (case err of
        ErrApi e \<Rightarrow>
          if ae_status e \<noteq> 409 \<or> ae_code e \<noteq> Some ''text_conflict'' then None
          else
            let ps = nullish (ae_params e) []
            in (case List.find (\<lambda>f. map_of ps ''field'' = Some (JStr (saved_text_api_field f))) saved_text_fields of
                  None \<Rightarrow> None
                | Some f \<Rightarrow> Some (f, \<lparr>fc_text = nullish (param_or_null rt ps ''current'') [],
                                      fc_by = param_or_null rt ps ''changed_by'',
                                      fc_at = param_or_null rt ps ''changed_at''\<rparr>))
      | _ \<Rightarrow> None)"

datatype save_failure =
    SfNetwork | SfSession | SfForbidden | SfConflict | SfRejected | SfServer | SfUnknown

definition classify_save_failure :: "js_error \<Rightarrow> save_failure" where
  "classify_save_failure err =
     (case err of
        ErrNetwork \<Rightarrow> SfNetwork
      | ErrApi e \<Rightarrow>
          if ae_status e = 401 then SfSession
          else if ae_status e = 403 then SfForbidden
          else if ae_status e = 409 then SfConflict
          else if ae_status e \<ge> 500 then SfServer
          else if ae_status e \<ge> 400 then SfRejected
          else SfUnknown
      | ErrOther _ \<Rightarrow> SfUnknown)"

section \<open>Entries, tickets, state\<close>

datatype save_status = SPending | SSaving | SSaved | SFailed

record save_entry =
  se_status :: save_status
  se_draft :: "string option"
  se_base :: string
  se_acked :: string
  se_conflict :: "field_conflict option"
  se_savedAt :: "ms option"
  se_reason :: "save_failure option"
  se_version :: nat
  se_inFlight :: nat

type_synonym save_key = "string option \<times> ident \<times> saved_text_field"

record save_ticket =
  tk_scope :: "string option"
  tk_incident :: ident
  tk_versions :: "(saved_text_field \<times> nat) list"
  tk_texts :: "(saved_text_field \<times> string) list"
  tk_textBase :: "(string \<times> string) list"

record field_save =
  fs_scope :: "string option"
  fs_entries :: "(save_key \<times> save_entry) list"
  fs_watchers :: "ident \<rightharpoonup> int"

definition new_field_save :: field_save where
  "new_field_save = \<lparr>fs_scope = None, fs_entries = [], fs_watchers = Map.empty\<rparr>"

section \<open>Scope\<close>

text \<open>\<^verbatim>\<open>s.split(':')[0] || null\<close>.\<close>

definition user_of :: "string option \<Rightarrow> string option" where
  "user_of s = (case s of None \<Rightarrow> None | Some t \<Rightarrow> or_null (Some (takeWhile (\<lambda>c. c \<noteq> CHR '':'') t)))"

definition user_of_key :: "save_key \<Rightarrow> string option" where
  "user_of_key k = user_of (fst k)"

definition field_save_scope :: "string option \<Rightarrow> string option \<Rightarrow> string option" where
  "field_save_scope userId eventId =
     (case or_null userId of None \<Rightarrow> None | Some u \<Rightarrow> Some (u @ '':'' @ nullish eventId []))"

definition set_field_save_scope :: "string option \<Rightarrow> field_save \<Rightarrow> field_save" where
  "set_field_save_scope nxt s =
     (if nxt = fs_scope s then s
      else s\<lparr>fs_entries := filter (\<lambda>(k, _). \<not> (user_of nxt = None \<or> user_of_key k \<noteq> user_of nxt)) (fs_entries s),
             fs_scope := nxt\<rparr>)"

definition get_field_save :: "ident \<Rightarrow> saved_text_field \<Rightarrow> field_save \<Rightarrow> save_entry option" where
  "get_field_save inc f s = map_of (fs_entries s) (fs_scope s, inc, f)"

section \<open>Edits and requests\<close>

definition edited_entry :: "string \<Rightarrow> string \<Rightarrow> save_entry option \<Rightarrow> save_entry" where
  "edited_entry value serverValue prev =
     (case prev of
        Some p \<Rightarrow>
          \<lparr>se_status = SPending, se_draft = Some value,
           se_base = (if se_draft p \<noteq> None then se_base p else serverValue),
           se_acked = (if se_draft p \<noteq> None then se_acked p else serverValue),
           se_conflict = (if se_draft p \<noteq> None then se_conflict p else None),
           se_savedAt = se_savedAt p, se_reason = None, se_version = se_version p + 1,
           se_inFlight = se_inFlight p\<rparr>
      | None \<Rightarrow>
          \<lparr>se_status = SPending, se_draft = Some value, se_base = serverValue, se_acked = serverValue,
           se_conflict = None, se_savedAt = None, se_reason = None, se_version = 1, se_inFlight = 0\<rparr>)"

definition note_field_edit :: "ident \<Rightarrow> saved_text_field \<Rightarrow> string \<Rightarrow> string \<Rightarrow> field_save \<Rightarrow> field_save" where
  "note_field_edit inc f value serverValue s =
     (let k = (fs_scope s, inc, f)
      in s\<lparr>fs_entries := map_set k (edited_entry value serverValue (map_of (fs_entries s) k)) (fs_entries s)\<rparr>)"

definition note_field_queued ::
  "ident \<Rightarrow> (saved_text_field \<times> string) list \<Rightarrow> string option \<Rightarrow> field_save \<Rightarrow> save_ticket" where
  "note_field_queued inc texts atScope s =
     \<lparr>tk_scope = atScope, tk_incident = inc,
      tk_versions = List.map_filter (\<lambda>(f, _). map_option (\<lambda>e. (f, se_version e))
                      (map_of (fs_entries s) (atScope, inc, f))) texts,
      tk_texts = texts, tk_textBase = []\<rparr>"

text \<open>Rewriting the entry of one field, where there is one.\<close>

definition update_entry :: "save_key \<Rightarrow> (save_entry \<Rightarrow> save_entry) \<Rightarrow> (save_key \<times> save_entry) list \<Rightarrow> (save_key \<times> save_entry) list" where
  "update_entry k g es = (case map_of es k of None \<Rightarrow> es | Some e \<Rightarrow> map_set k (g e) es)"

definition update_fields ::
  "save_ticket \<Rightarrow> (saved_text_field \<Rightarrow> nat \<Rightarrow> save_entry \<Rightarrow> save_entry) \<Rightarrow> (save_key \<times> save_entry) list
     \<Rightarrow> (save_key \<times> save_entry) list" where
  "update_fields tk g es =
     foldl (\<lambda>es1 (f, v). update_entry (tk_scope tk, tk_incident tk, f) (g f v) es1) es (tk_versions tk)"

definition sent_entry :: "saved_text_field \<Rightarrow> nat \<Rightarrow> save_entry \<Rightarrow> save_entry" where
  "sent_entry f v e =
     e\<lparr>se_inFlight := se_inFlight e + 1,
       se_status := (if se_version e = v \<and> se_status e = SPending then SSaving else se_status e)\<rparr>"

definition note_field_send :: "save_ticket \<Rightarrow> field_save \<Rightarrow> save_ticket \<times> field_save" where
  "note_field_send tk s =
     (tk\<lparr>tk_textBase := List.map_filter (\<lambda>(f, _).
           map_option (\<lambda>e. (saved_text_api_field f, se_acked e))
             (map_of (fs_entries s) (tk_scope tk, tk_incident tk, f))) (tk_versions tk)\<rparr>,
      s\<lparr>fs_entries := update_fields tk sent_entry (fs_entries s)\<rparr>)"

datatype save_outcome = SaveOk | SaveFailed save_failure "(saved_text_field \<times> field_conflict) option"

definition settled_entry :: "ms \<Rightarrow> save_ticket \<Rightarrow> save_outcome \<Rightarrow> saved_text_field \<Rightarrow> nat \<Rightarrow> save_entry \<Rightarrow> save_entry" where
  "settled_entry now tk outcome f v e =
     (let left = se_inFlight e - 1;
          acked = (if outcome = SaveOk then nullish (map_of (tk_texts tk) f) (se_acked e) else se_acked e)
      in if se_version e \<noteq> v then e\<lparr>se_inFlight := left, se_acked := acked\<rparr>
         else case outcome of
                SaveOk \<Rightarrow>
                  if left > 0 then e\<lparr>se_inFlight := left, se_acked := acked\<rparr>
                  else e\<lparr>se_inFlight := left, se_acked := acked, se_status := SSaved, se_draft := None,
                         se_conflict := None, se_savedAt := Some now, se_reason := None\<rparr>
              | SaveFailed reason conflict \<Rightarrow>
                  e\<lparr>se_inFlight := left, se_status := SFailed, se_reason := Some reason,
                    se_conflict := (case conflict of
                       Some (cf, c) \<Rightarrow> if cf = f then Some c else se_conflict e
                     | None \<Rightarrow> se_conflict e)\<rparr>)"

definition note_field_settled :: "ms \<Rightarrow> save_ticket \<Rightarrow> save_outcome \<Rightarrow> field_save \<Rightarrow> field_save" where
  "note_field_settled now tk outcome s =
     s\<lparr>fs_entries := update_fields tk (settled_entry now tk outcome) (fs_entries s)\<rparr>"

datatype conflict_choice = Mine | Theirs

definition resolve_field_conflict :: "ident \<Rightarrow> saved_text_field \<Rightarrow> conflict_choice \<Rightarrow> field_save \<Rightarrow> field_save" where
  "resolve_field_conflict inc f choice s =
     (let k = (fs_scope s, inc, f)
      in case map_of (fs_entries s) k of
           None \<Rightarrow> s
         | Some e \<Rightarrow>
             (case se_conflict e of
                None \<Rightarrow> s
              | Some c \<Rightarrow>
                  (if choice = Theirs then s\<lparr>fs_entries := map_delete k (fs_entries s)\<rparr>
                   else s\<lparr>fs_entries := map_set k (e\<lparr>se_acked := fc_text c, se_conflict := None\<rparr>) (fs_entries s)\<rparr>)))"

definition unsaved_field_drafts :: "ident option \<Rightarrow> field_save \<Rightarrow> (ident \<times> saved_text_field) list" where
  "unsaved_field_drafts incident s =
     (case user_of (fs_scope s) of
        None \<Rightarrow> []
      | Some user \<Rightarrow>
          map (\<lambda>((_, i, f), _). (i, f))
            (filter (\<lambda>((sc, i, f), e). se_status e = SFailed \<and> user_of sc = Some user
                \<and> (case incident of None \<Rightarrow> True | Some j \<Rightarrow> i = j \<and> sc = fs_scope s)) (fs_entries s)))"

section \<open>Watchers\<close>

definition watch_field_save :: "ident \<Rightarrow> field_save \<Rightarrow> field_save" where
  "watch_field_save i s = s\<lparr>fs_watchers := (fs_watchers s)(i \<mapsto> nullish (fs_watchers s i) 0 + 1)\<rparr>"

definition unwatch_field_save :: "ident \<Rightarrow> field_save \<Rightarrow> field_save" where
  "unwatch_field_save i s =
     (let n = nullish (fs_watchers s i) 1 - 1
      in s\<lparr>fs_watchers := (if n \<le> 0 then (fs_watchers s)(i := None) else (fs_watchers s)(i \<mapsto> n))\<rparr>)"

definition is_field_save_watched :: "ident \<Rightarrow> field_save \<Rightarrow> bool" where
  "is_field_save_watched i s = (nullish (fs_watchers s i) 0 > 0)"

section \<open>Lemmas\<close>

lemma map_of_update_entry:
  "map_of (update_entry k g es) k' = (if k' = k then map_option g (map_of es k) else map_of es k')"
  by (auto simp: update_entry_def split: option.splits)

text \<open>Rewriting the fields of a ticket acts on each entry by itself.\<close>

lemma map_of_update_fields_from:
  "distinct (map fst vs) \<Longrightarrow>
     map_of (foldl (\<lambda>es1 (f, v). update_entry (sc, i, f) (g f v) es1) es vs) (sc', i', f') =
       (if sc' = sc \<and> i' = i then
          (case map_of vs f' of None \<Rightarrow> map_of es (sc, i, f') | Some v \<Rightarrow> map_option (g f' v) (map_of es (sc, i, f')))
        else map_of es (sc', i', f'))"
proof (induction vs arbitrary: es)
  case Nil
  then show ?case by simp
next
  case (Cons x vs)
  obtain f v where x: "x = (f, v)" by (cases x)
  have "map_of vs f = None" using Cons.prems x by (auto simp: map_of_eq_None_iff)
  with Cons x show ?case by (auto simp: map_of_update_entry split: option.splits)
qed

lemma map_of_update_fields:
  "distinct (map fst (tk_versions tk)) \<Longrightarrow>
     map_of (update_fields tk g es) (sc', i', f') =
       (if sc' = tk_scope tk \<and> i' = tk_incident tk then
          (case map_of (tk_versions tk) f' of
             None \<Rightarrow> map_of es (tk_scope tk, tk_incident tk, f')
           | Some v \<Rightarrow> map_option (g f' v) (map_of es (tk_scope tk, tk_incident tk, f')))
        else map_of es (sc', i', f'))"
  unfolding update_fields_def by (rule map_of_update_fields_from)

lemma map_of_map_filter:
  assumes "distinct (map fst xs)"
  shows "map_of (List.map_filter (\<lambda>(k, x). map_option (\<lambda>e. (k, h e)) (m k)) xs) f =
           (if f \<in> fst ` set xs then map_option h (m f) else None)"
  using assms by (induction xs) (auto simp: List.map_filter_simps split: option.splits)

lemma keys_map_filter_subset:
  "fst ` set (List.map_filter (\<lambda>(k, x). map_option (\<lambda>e. (k, h e)) (m k)) xs) \<subseteq> fst ` set xs"
  by (induction xs) (auto simp: List.map_filter_simps split: option.splits)

lemma distinct_keys_map_filter:
  "distinct (map fst xs) \<Longrightarrow> distinct (map fst (List.map_filter (\<lambda>(k, x). map_option (\<lambda>e. (k, h e)) (m k)) xs))"
proof (induction xs)
  case (Cons x xs)
  with keys_map_filter_subset [of h m xs] show ?case
    by (cases x) (auto simp: List.map_filter_simps subset_iff split: option.splits)
qed (simp add: List.map_filter_simps)

section \<open>Editing one incident\<close>

text \<open>
  The life of the text fields of one incident, in one scope: the operator types, a batch of what is held
  as a draft is cut, the per-incident queue sends the batches one at a time in the order they were cut
  (\<^verbatim>\<open>KeyedSerialQueue\<close>), a request settles, the operator keeps their own text in a conflict.
  \<open>sr_newest\<close> remembers the newest text typed into each field.
\<close>

record save_run =
  sr_fs :: field_save
  sr_queue :: "save_ticket list"
  sr_flying :: "save_ticket option"
  sr_newest :: "saved_text_field \<rightharpoonup> string"

datatype save_event =
    SvEdit saved_text_field string string
  | SvQueue "saved_text_field list"
  | SvSend
  | SvSettle ms save_outcome
  | SvMine saved_text_field

definition drafts_of :: "ident \<Rightarrow> saved_text_field list \<Rightarrow> field_save \<Rightarrow> (saved_text_field \<times> string) list" where
  "drafts_of inc fds s =
     List.map_filter (\<lambda>f. map_option (\<lambda>d. (f, d)) (Option.bind (get_field_save inc f s) se_draft)) (remdups fds)"

fun save_step :: "ident \<Rightarrow> save_run \<Rightarrow> save_event \<Rightarrow> save_run" where
  "save_step inc r (SvEdit f value serverValue) =
     r\<lparr>sr_fs := note_field_edit inc f value serverValue (sr_fs r), sr_newest := (sr_newest r)(f \<mapsto> value)\<rparr>"
| "save_step inc r (SvQueue fds) =
     r\<lparr>sr_queue := sr_queue r @ [note_field_queued inc (drafts_of inc fds (sr_fs r)) (fs_scope (sr_fs r)) (sr_fs r)]\<rparr>"
| "save_step inc r SvSend =
     (case (sr_flying r, sr_queue r) of
        (None, t # ts) \<Rightarrow>
          (let (t', s') = note_field_send t (sr_fs r) in r\<lparr>sr_fs := s', sr_flying := Some t', sr_queue := ts\<rparr>)
      | _ \<Rightarrow> r)"
| "save_step inc r (SvSettle now outcome) =
     (case sr_flying r of
        None \<Rightarrow> r
      | Some t \<Rightarrow> r\<lparr>sr_fs := note_field_settled now t outcome (sr_fs r), sr_flying := None\<rparr>)"
| "save_step inc r (SvMine f) = r\<lparr>sr_fs := resolve_field_conflict inc f Mine (sr_fs r)\<rparr>"

definition start_run :: "string option \<Rightarrow> save_run" where
  "start_run sc = \<lparr>sr_fs = new_field_save\<lparr>fs_scope := sc\<rparr>, sr_queue = [], sr_flying = None, sr_newest = Map.empty\<rparr>"

definition outstanding :: "save_run \<Rightarrow> save_ticket list" where
  "outstanding r = (case sr_flying r of None \<Rightarrow> [] | Some t \<Rightarrow> [t]) @ sr_queue r"

definition carries :: "save_ticket \<Rightarrow> saved_text_field \<Rightarrow> nat \<Rightarrow> bool" where
  "carries t f v = (map_of (tk_versions t) f = Some v)"

definition ticket_ok :: "ident \<Rightarrow> string option \<Rightarrow> save_ticket \<Rightarrow> bool" where
  "ticket_ok inc sc t = (tk_scope t = sc \<and> tk_incident t = inc \<and> distinct (map fst (tk_versions t)))"

text \<open>What holds between the entry of a field, the newest text and the outstanding tickets.\<close>

definition entry_ok :: "save_ticket list \<Rightarrow> bool \<Rightarrow> string option \<Rightarrow> saved_text_field \<Rightarrow> save_entry \<Rightarrow> bool" where
  "entry_ok ts flies newest f e \<longleftrightarrow>
     newest \<noteq> None
     \<and> (se_draft e \<noteq> None \<longrightarrow> se_draft e = newest)
     \<and> se_inFlight e = (if flies then 1 else 0)
     \<and> (\<forall>t\<in>set ts. \<forall>v. carries t f v \<longrightarrow>
          v \<le> se_version e \<and> map_of (tk_texts t) f \<noteq> None \<and> (v = se_version e \<longrightarrow> map_of (tk_texts t) f = newest))
     \<and> sorted_wrt (\<lambda>t1 t2. \<forall>v1 v2. carries t1 f v1 \<longrightarrow> carries t2 f v2 \<longrightarrow> v1 \<le> v2) ts
     \<and> (se_status e = SSaved \<longrightarrow>
          se_draft e = None \<and> se_conflict e = None \<and> newest = Some (se_acked e)
          \<and> (\<forall>t\<in>set ts. \<forall>v. carries t f v \<longrightarrow> v = se_version e))"

definition field_ok :: "ident \<Rightarrow> save_run \<Rightarrow> saved_text_field \<Rightarrow> bool" where
  "field_ok inc r f =
     (case get_field_save inc f (sr_fs r) of
        None \<Rightarrow> (\<forall>t\<in>set (outstanding r). \<forall>v. \<not> carries t f v)
      | Some e \<Rightarrow> entry_ok (outstanding r) (\<exists>t v. sr_flying r = Some t \<and> carries t f v) (sr_newest r f) f e)"

definition save_inv :: "ident \<Rightarrow> string option \<Rightarrow> save_run \<Rightarrow> bool" where
  "save_inv inc sc r \<longleftrightarrow> fs_scope (sr_fs r) = sc \<and> (\<forall>t\<in>set (outstanding r). ticket_ok inc sc t) \<and> (\<forall>f. field_ok inc r f)"

lemma save_inv_start: "save_inv inc sc (start_run sc)"
  by (simp add: save_inv_def start_run_def field_ok_def get_field_save_def new_field_save_def outstanding_def)

lemma entry_ok_edit:
  assumes "case prev of None \<Rightarrow> (\<forall>t\<in>set ts. \<forall>v. \<not> carries t f v) \<and> \<not> flies | Some e \<Rightarrow> entry_ok ts flies newest f e"
  shows "entry_ok ts flies (Some value) f (edited_entry value serverValue prev)"
proof (cases prev)
  case None
  with assms show ?thesis by (auto simp: entry_ok_def edited_entry_def sorted_wrt_iff_nth_less)
next
  case (Some e)
  with assms show ?thesis by (fastforce simp: entry_ok_def edited_entry_def)
qed

lemma save_inv_edit: "save_inv inc sc r \<Longrightarrow> save_inv inc sc (save_step inc r (SvEdit f value serverValue))"
proof -
  assume inv: "save_inv inc sc r"
  let ?r = "save_step inc r (SvEdit f value serverValue)"
  have out: "outstanding ?r = outstanding r" "sr_flying ?r = sr_flying r" by (simp_all add: outstanding_def)
  have entry: "get_field_save inc g (sr_fs ?r) =
      (if g = f then Some (edited_entry value serverValue (get_field_save inc f (sr_fs r)))
       else get_field_save inc g (sr_fs r))" for g
    by (simp add: get_field_save_def note_field_edit_def Let_def)
  have "field_ok inc ?r g" for g
  proof (cases "g = f")
    case True
    from inv have "field_ok inc r f" by (simp add: save_inv_def)
    then have "case get_field_save inc f (sr_fs r) of
        None \<Rightarrow> (\<forall>t\<in>set (outstanding r). \<forall>v. \<not> carries t f v) \<and> \<not> (\<exists>t v. sr_flying r = Some t \<and> carries t f v)
      | Some e \<Rightarrow> entry_ok (outstanding r) (\<exists>t v. sr_flying r = Some t \<and> carries t f v) (sr_newest r f) f e"
      by (auto simp: field_ok_def outstanding_def split: option.splits)
    from entry_ok_edit [OF this] True show ?thesis
      by (simp add: field_ok_def entry out del: save_step.simps) simp
  next
    case False
    from inv have "field_ok inc r g" by (simp add: save_inv_def)
    with False show ?thesis
      by (simp add: field_ok_def entry out del: save_step.simps cong: option.case_cong) (simp cong: option.case_cong)
  qed
  with inv show ?thesis by (simp add: save_inv_def out del: save_step.simps) (simp add: note_field_edit_def Let_def)
qed


lemma drafts_keys: "distinct (map fst (drafts_of inc fds s))"
proof -
  have "distinct fs \<Longrightarrow> distinct (map fst (List.map_filter (\<lambda>f. map_option (\<lambda>d. (f, d)) (g f)) fs)) \<and>
      fst ` set (List.map_filter (\<lambda>f. map_option (\<lambda>d. (f, d)) (g f)) fs) \<subseteq> set fs" for fs and g :: "saved_text_field \<Rightarrow> string option"
    by (induction fs) (auto simp: List.map_filter_simps split: option.splits)
  then show ?thesis by (simp add: drafts_of_def)
qed

lemma drafts_text:
  "map_of (drafts_of inc fds s) f =
     (if f \<in> set fds then Option.bind (get_field_save inc f s) se_draft else None)"
proof -
  have "distinct fs \<Longrightarrow> map_of (List.map_filter (\<lambda>f. map_option (\<lambda>d. (f, d)) (g f)) fs) f =
      (if f \<in> set fs then g f else None)" for fs and g :: "saved_text_field \<Rightarrow> string option"
    by (induction fs) (auto simp: List.map_filter_simps split: option.splits)
  then show ?thesis by (simp add: drafts_of_def)
qed

text \<open>The ticket of a batch: it carries a field exactly when that field held a draft, with the newest
  version and the draft's text.\<close>

lemma queued_carries:
  assumes "t = note_field_queued inc (drafts_of inc fds s) (fs_scope s) s"
  shows "carries t f v \<longleftrightarrow> (\<exists>e d. f \<in> set fds \<and> get_field_save inc f s = Some e \<and> se_draft e = Some d \<and> v = se_version e)"
    and "carries t f v \<Longrightarrow> map_of (tk_texts t) f = Option.bind (get_field_save inc f s) se_draft"
proof -
  have mem: "f \<in> fst ` set (drafts_of inc fds s) \<longleftrightarrow> (\<exists>d. map_of (drafts_of inc fds s) f = Some d)"
    by (metis map_of_eq_None_iff not_None_eq)
  have "map_of (tk_versions t) f =
      (if f \<in> fst ` set (drafts_of inc fds s) then map_option se_version (map_of (fs_entries s) (fs_scope s, inc, f)) else None)"
    unfolding assms note_field_queued_def
    using map_of_map_filter [OF drafts_keys, of se_version "\<lambda>f. map_of (fs_entries s) (fs_scope s, inc, f)"]
    by simp
  then show iff: "carries t f v \<longleftrightarrow> (\<exists>e d. f \<in> set fds \<and> get_field_save inc f s = Some e \<and> se_draft e = Some d \<and> v = se_version e)"
    unfolding carries_def mem drafts_text get_field_save_def
    by (cases "map_of (fs_entries s) (fs_scope s, inc, f)"; cases "f \<in> set fds") (auto split: if_splits)
  show "carries t f v \<Longrightarrow> map_of (tk_texts t) f = Option.bind (get_field_save inc f s) se_draft"
    using iff by (auto simp: assms note_field_queued_def drafts_text)
qed

lemma queued_ok: "ticket_ok inc (fs_scope s) (note_field_queued inc (drafts_of inc fds s) (fs_scope s) s)"
  using distinct_keys_map_filter [OF drafts_keys, of se_version "\<lambda>f. map_of (fs_entries s) (fs_scope s, inc, f)"]
  by (simp add: ticket_ok_def note_field_queued_def)

lemma save_inv_queue: "save_inv inc sc r \<Longrightarrow> save_inv inc sc (save_step inc r (SvQueue fds))"
proof -
  assume inv: "save_inv inc sc r"
  let ?r = "save_step inc r (SvQueue fds)"
  define t where "t = note_field_queued inc (drafts_of inc fds (sr_fs r)) (fs_scope (sr_fs r)) (sr_fs r)"
  note carr = queued_carries [OF t_def]
  have out: "outstanding ?r = outstanding r @ [t]" by (simp add: outstanding_def t_def)
  have same: "sr_fs ?r = sr_fs r" "sr_flying ?r = sr_flying r" "sr_newest ?r = sr_newest r" by simp_all
  have "field_ok inc ?r f" for f
  proof (cases "get_field_save inc f (sr_fs r)")
    case None
    from inv have "field_ok inc r f" by (simp add: save_inv_def)
    with None show ?thesis by (simp add: field_ok_def out same carr del: save_step.simps)
  next
    case (Some e)
    from inv have "field_ok inc r f" by (simp add: save_inv_def)
    with Some have ok: "entry_ok (outstanding r) (\<exists>t v. sr_flying r = Some t \<and> carries t f v) (sr_newest r f) f e"
      by (simp add: field_ok_def)
    have t: "v = se_version e" "map_of (tk_texts t) f = sr_newest r f" "se_draft e \<noteq> None" if "carries t f v" for v
      using that carr(1) [of f v] carr(2) [of f v] Some ok by (auto simp: entry_ok_def)
    from ok t have "entry_ok (outstanding r @ [t]) (\<exists>t v. sr_flying r = Some t \<and> carries t f v) (sr_newest r f) f e"
      by (fastforce simp: entry_ok_def sorted_wrt_append)
    with Some show ?thesis by (simp add: field_ok_def out same del: save_step.simps)
  qed
  moreover have "ticket_ok inc sc t" using inv queued_ok [of inc "sr_fs r" fds] by (simp add: t_def save_inv_def)
  ultimately show ?thesis using inv by (auto simp: save_inv_def out same simp del: save_step.simps)
qed


lemma tickets_ok: "save_inv inc sc r \<Longrightarrow> t \<in> set (outstanding r) \<Longrightarrow> ticket_ok inc sc t"
  by (simp add: save_inv_def)

lemma entry_after_update:
  assumes "ticket_ok inc (fs_scope s) t"
  shows "get_field_save inc f (s\<lparr>fs_entries := update_fields t g (fs_entries s)\<rparr>) =
    (case map_of (tk_versions t) f of None \<Rightarrow> get_field_save inc f s | Some v \<Rightarrow> map_option (g f v) (get_field_save inc f s))"
  using assms map_of_update_fields [of t g "fs_entries s" "fs_scope s" inc f]
  by (auto simp: ticket_ok_def get_field_save_def split: option.splits)

lemma entry_ok_send:
  assumes "entry_ok ts False newest f e" "carries t f v"
  shows "entry_ok ts True newest f (sent_entry f v e)"
  using assms by (simp add: entry_ok_def sent_entry_def)

lemma save_inv_send: "save_inv inc sc r \<Longrightarrow> save_inv inc sc (save_step inc r SvSend)"
proof (cases "sr_flying r = None \<and> sr_queue r \<noteq> []")
  case True
  assume inv: "save_inv inc sc r"
  from True obtain t ts where q: "sr_queue r = t # ts" and fl: "sr_flying r = None" by (cases "sr_queue r") auto
  define t' where "t' = fst (note_field_send t (sr_fs r))"
  define s' where "s' = (sr_fs r)\<lparr>fs_entries := update_fields t sent_entry (fs_entries (sr_fs r))\<rparr>"
  have step: "save_step inc r SvSend = r\<lparr>sr_fs := s', sr_flying := Some t', sr_queue := ts\<rparr>"
    by (simp add: q fl t'_def s'_def note_field_send_def)
  have t': "carries t' = carries t" "tk_texts t' = tk_texts t" "ticket_ok inc sc t' = ticket_ok inc sc t"
    by (simp_all add: t'_def note_field_send_def carries_def [abs_def] ticket_ok_def)
  have out: "outstanding r = t # ts" "outstanding (save_step inc r SvSend) = t' # ts"
    by (simp_all del: save_step.simps add: step outstanding_def q fl)
  from inv out have tok: "ticket_ok inc (fs_scope (sr_fs r)) t" by (simp add: save_inv_def)
  have same: "entry_ok (t' # ts) b nw f e = entry_ok (t # ts) b nw f e" for b nw f e
    by (simp add: entry_ok_def t')
  have "field_ok inc (save_step inc r SvSend) f" for f
  proof (cases "get_field_save inc f (sr_fs r)")
    case None
    from inv have "field_ok inc r f" by (simp add: save_inv_def)
    with None show ?thesis
      by (simp del: save_step.simps add: step field_ok_def s'_def entry_after_update [OF tok] outstanding_def q fl t' split: option.splits)
  next
    case (Some e)
    from inv have "field_ok inc r f" by (simp add: save_inv_def)
    with Some fl out have ok: "entry_ok (t # ts) False (sr_newest r f) f e" by (simp add: field_ok_def)
    show ?thesis
    proof (cases "map_of (tk_versions t) f")
      case None
      then have "Ex (carries t f) = False" by (auto simp: carries_def)
      with ok have "entry_ok (t # ts) (Ex (carries t f)) (sr_newest r f) f e" by (simp only:)
      with Some None show ?thesis
        by (simp del: save_step.simps add: step field_ok_def s'_def entry_after_update [OF tok] outstanding_def same t')
    next
      case v: (Some v)
      then have c: "carries t f v" by (simp add: carries_def)
      then have "(\<exists>v. carries t f v) = True" by blast
      with entry_ok_send [OF ok c] Some v show ?thesis
        by (simp del: save_step.simps add: step field_ok_def s'_def entry_after_update [OF tok] outstanding_def same t')
    qed
  qed
  with inv out t' show ?thesis by (auto simp del: save_step.simps simp: save_inv_def step s'_def)
next
  case False
  assume inv: "save_inv inc sc r"
  from False have "save_step inc r SvSend = r" by (auto split: option.splits list.splits)
  with inv show ?thesis by simp
qed

lemma entry_ok_settle:
  assumes ok: "entry_ok (t # ts) True newest f e" and c: "carries t f v"
  shows "entry_ok ts False newest f (settled_entry now t outcome f v e)"
proof -
  from ok c have v: "v \<le> se_version e" "v = se_version e \<Longrightarrow> map_of (tk_texts t) f = newest"
    and later: "\<And>t' v'. t' \<in> set ts \<Longrightarrow> carries t' f v' \<Longrightarrow> v \<le> v' \<and> v' \<le> se_version e"
    by (auto simp: entry_ok_def)
  have saved: "se_status e = SSaved \<Longrightarrow> v = se_version e" using ok c by (auto simp: entry_ok_def)
  show ?thesis
  proof (cases "se_version e = v")
    case False
    with ok saved show ?thesis by (auto simp: entry_ok_def settled_entry_def Let_def)
  next
    case True
    with later have "\<And>t' v'. t' \<in> set ts \<Longrightarrow> carries t' f v' \<Longrightarrow> v' = se_version e" by force
    with True v ok show ?thesis
      by (cases outcome) (auto simp: entry_ok_def settled_entry_def Let_def)
  qed
qed

lemma entry_ok_drop:
  "entry_ok (t # ts) flies newest f e \<Longrightarrow> \<forall>v. \<not> carries t f v \<Longrightarrow> entry_ok ts flies newest f e"
  by (auto simp: entry_ok_def)

lemma save_inv_settle: "save_inv inc sc r \<Longrightarrow> save_inv inc sc (save_step inc r (SvSettle now outcome))"
proof (cases "sr_flying r")
  case None
  assume "save_inv inc sc r"
  with None show ?thesis by simp
next
  case (Some t)
  assume inv: "save_inv inc sc r"
  define s' where "s' = note_field_settled now t outcome (sr_fs r)"
  have step: "save_step inc r (SvSettle now outcome) = r\<lparr>sr_fs := s', sr_flying := None\<rparr>"
    by (simp add: Some s'_def)
  have out: "outstanding r = t # sr_queue r" by (simp add: outstanding_def Some)
  from inv out have tok: "ticket_ok inc (fs_scope (sr_fs r)) t" by (simp add: save_inv_def)
  note after = entry_after_update [OF tok, of _ "settled_entry now t outcome", folded note_field_settled_def s'_def]
  have "field_ok inc (save_step inc r (SvSettle now outcome)) f" for f
  proof (cases "get_field_save inc f (sr_fs r)")
    case None
    from inv have "field_ok inc r f" by (simp add: save_inv_def)
    with None out show ?thesis
      by (simp del: save_step.simps add: step field_ok_def after outstanding_def split: option.splits)
  next
    case e: (Some e)
    from inv have "field_ok inc r f" by (simp add: save_inv_def)
    with e Some out have ok: "entry_ok (t # sr_queue r) (\<exists>v. carries t f v) (sr_newest r f) f e"
      by (simp add: field_ok_def)
    show ?thesis
    proof (cases "map_of (tk_versions t) f")
      case None
      then have "\<forall>v. \<not> carries t f v" by (simp add: carries_def)
      with entry_ok_drop [OF ok this] e None show ?thesis
        by (simp del: save_step.simps add: step field_ok_def after outstanding_def)
    next
      case (Some v)
      then have c: "carries t f v" by (simp add: carries_def)
      then have "(\<exists>v. carries t f v) = True" by blast
      with ok have "entry_ok (t # sr_queue r) True (sr_newest r f) f e" by simp
      from entry_ok_settle [OF this c] e Some show ?thesis
        by (simp del: save_step.simps add: step field_ok_def after outstanding_def)
    qed
  qed
  moreover have "fs_scope s' = fs_scope (sr_fs r)" by (simp add: s'_def note_field_settled_def)
  ultimately show ?thesis using inv out by (auto simp del: save_step.simps simp: save_inv_def step outstanding_def)
qed

lemma save_inv_mine: "save_inv inc sc r \<Longrightarrow> save_inv inc sc (save_step inc r (SvMine f))"
proof -
  assume inv: "save_inv inc sc r"
  have out: "outstanding (r\<lparr>sr_fs := s\<rparr>) = outstanding r" for s by (simp add: outstanding_def)
  show ?thesis
  proof (cases "get_field_save inc f (sr_fs r)")
    case None
    with inv show ?thesis by (simp add: resolve_field_conflict_def get_field_save_def Let_def)
  next
    case (Some e)
    show ?thesis
    proof (cases "se_conflict e")
      case None
      with Some inv show ?thesis by (simp add: resolve_field_conflict_def get_field_save_def Let_def)
    next
      case (Some c)
      let ?e = "e\<lparr>se_acked := fc_text c, se_conflict := None\<rparr>"
      let ?s = "resolve_field_conflict inc f Mine (sr_fs r)"
      have entry: "get_field_save inc g ?s = (if g = f then Some ?e else get_field_save inc g (sr_fs r))" for g
        using Some \<open>get_field_save inc f (sr_fs r) = Some e\<close>
        by (auto simp: resolve_field_conflict_def get_field_save_def Let_def)
      have "field_ok inc (r\<lparr>sr_fs := ?s\<rparr>) g" for g
      proof -
        from inv have "field_ok inc r g" by (simp add: save_inv_def)
        with Some \<open>get_field_save inc f (sr_fs r) = Some e\<close> show ?thesis
          by (cases "g = f") (auto simp: field_ok_def entry out entry_ok_def cong: option.case_cong)
      qed
      moreover have "fs_scope ?s = fs_scope (sr_fs r)"
        by (simp add: resolve_field_conflict_def Let_def split: option.splits)
      ultimately show ?thesis using inv by (simp add: save_inv_def out)
    qed
  qed
qed

lemma save_inv_step: "save_inv inc sc r \<Longrightarrow> save_inv inc sc (save_step inc r e)"
  by (cases e) (simp_all only: save_inv_edit save_inv_queue save_inv_send save_inv_settle save_inv_mine)

interpretation saving: event_machine "save_step inc" "save_inv inc sc" "start_run sc" for inc sc
  by unfold_locales (simp_all only: save_inv_start save_inv_step)

definition run_saves :: "ident \<Rightarrow> string option \<Rightarrow> save_event list \<Rightarrow> save_run" where
  "run_saves inc sc es = foldl (save_step inc) (start_run sc) es"

lemma run_saves_inv: "save_inv inc sc (run_saves inc sc es)"
  unfolding run_saves_def by (rule saving.inv_run)

section \<open>Properties\<close>



text \<open>
  Nothing an operator typed survives into another operator's session: after the scope
  moves to another user (or to nobody), no entry of anybody but that user is left, so no draft of the
  previous user can be shown or listed as unsaved.
\<close>

theorem scope_change_drops_foreign_drafts:
  assumes "nxt \<noteq> fs_scope s"
  shows "list_all (\<lambda>(k, _). user_of nxt \<noteq> None \<and> user_of_key k = user_of nxt) (fs_entries (set_field_save_scope nxt s)) \<and>
         (user_of nxt = None \<longrightarrow> fs_entries (set_field_save_scope nxt s) = [])"
  using assms by (auto simp: set_field_save_scope_def list_all_iff)

theorem scope_change_drops_foreign_drafts_witness:
  "fs_entries (set_field_save_scope None
     (note_field_edit ''i'' FNotes ''text'' [] (new_field_save\<lparr>fs_scope := Some ''u:e''\<rparr>))) = []"
  using scope_change_drops_foreign_drafts [of None "note_field_edit ''i'' FNotes ''text'' [] (new_field_save\<lparr>fs_scope := Some ''u:e''\<rparr>)"]
  by (simp add: user_of_def note_field_edit_def Let_def)

lemma retyped_entry:
  "map_of (fs_entries s) (fs_scope s, inc, f) = None \<Longrightarrow> texts \<noteq> [] \<Longrightarrow>
   \<exists>e. get_field_save inc f (foldl (\<lambda>s1 x. note_field_edit inc f x sv s1) s texts) = Some e \<and>
       se_version e = length texts \<and> se_inFlight e = 0 \<and> se_draft e = Some (last texts) \<and>
       fs_scope (foldl (\<lambda>s1 x. note_field_edit inc f x sv s1) s texts) = fs_scope s"
proof (induction texts rule: rev_induct)
  case Nil
  then show ?case by simp
next
  case (snoc x texts)
  show ?case
  proof (cases "texts = []")
    case True
    with snoc show ?thesis
      by (simp add: get_field_save_def note_field_edit_def edited_entry_def Let_def)
  next
    case False
    with snoc show ?thesis
      by (auto simp: get_field_save_def note_field_edit_def edited_entry_def Let_def)
  qed
qed

text \<open>
  The receipt of a request can be mistaken for that of a newer text: taking the other writer's
  text in a conflict forgets the entry and with it the version count, so when the operator then types as
  often as the version of a request that is still in flight, the confirmation of that old text marks the
  new one, which was never sent, as saved and drops its draft.
\<close>

theorem restarted_version_is_mistaken:
  assumes "map_of (fs_entries s) (fs_scope s, inc, f) = Some e" "se_conflict e \<noteq> None"
    and "texts \<noteq> []"
    and "tk = \<lparr>tk_scope = fs_scope s, tk_incident = inc, tk_versions = [(f, length texts)],
               tk_texts = [(f, old)], tk_textBase = b\<rparr>"
    and "s' = note_field_settled now tk SaveOk
               (foldl (\<lambda>s1 x. note_field_edit inc f x sv s1) (resolve_field_conflict inc f Theirs s) texts)"
  shows "\<exists>e'. get_field_save inc f s' = Some e' \<and> se_status e' = SSaved \<and> se_draft e' = None \<and> se_acked e' = old"
proof -
  let ?r = "resolve_field_conflict inc f Theirs s"
  have "map_of (fs_entries ?r) (fs_scope ?r, inc, f) = None" and sc: "fs_scope ?r = fs_scope s"
    using assms(1,2) by (auto simp: resolve_field_conflict_def Let_def)
  from retyped_entry [OF this(1) assms(3), of sv] obtain e1 where
    e1: "get_field_save inc f (foldl (\<lambda>s1 x. note_field_edit inc f x sv s1) ?r texts) = Some e1"
      "se_version e1 = length texts" "se_inFlight e1 = 0"
      "fs_scope (foldl (\<lambda>s1 x. note_field_edit inc f x sv s1) ?r texts) = fs_scope s"
    using sc by auto
  with assms(4,5) show ?thesis
    by (simp add: note_field_settled_def get_field_save_def map_of_update_fields settled_entry_def Let_def)
qed

theorem restarted_version_is_mistaken_witness:
  "\<exists>e'. get_field_save ''i'' FNotes (note_field_settled 5
       \<lparr>tk_scope = Some ''u:e'', tk_incident = ''i'', tk_versions = [(FNotes, 2)], tk_texts = [(FNotes, ''old'')], tk_textBase = []\<rparr> SaveOk
       (foldl (\<lambda>s1 x. note_field_edit ''i'' FNotes x [] s1)
         (resolve_field_conflict ''i'' FNotes Theirs
           \<lparr>fs_scope = Some ''u:e'', fs_entries = [((Some ''u:e'', ''i'', FNotes),
              \<lparr>se_status = SSaving, se_draft = Some ''old'', se_base = [], se_acked = [],
               se_conflict = Some \<lparr>fc_text = ''other'', fc_by = None, fc_at = None\<rparr>, se_savedAt = None,
               se_reason = None, se_version = 2, se_inFlight = 1\<rparr>)], fs_watchers = Map.empty\<rparr>)
         [''n'', ''new''])) = Some e' \<and> se_status e' = SSaved \<and> se_draft e' = None \<and> se_acked e' = ''old''"
proof -
  let ?e = "\<lparr>se_status = SSaving, se_draft = Some ''old'', se_base = [], se_acked = [],
      se_conflict = Some \<lparr>fc_text = ''other'', fc_by = None, fc_at = None\<rparr>, se_savedAt = None,
      se_reason = None, se_version = 2, se_inFlight = 1\<rparr>"
  let ?s = "\<lparr>fs_scope = Some ''u:e'', fs_entries = [((Some ''u:e'', ''i'', FNotes), ?e)], fs_watchers = Map.empty\<rparr>"
  let ?tk = "\<lparr>tk_scope = Some ''u:e'', tk_incident = ''i'', tk_versions = [(FNotes, 2)],
      tk_texts = [(FNotes, ''old'')], tk_textBase = []\<rparr>"
  have "map_of (fs_entries ?s) (fs_scope ?s, ''i'', FNotes) = Some ?e" "se_conflict ?e \<noteq> None"
    "[''n'', ''new''] \<noteq> []"
    "?tk = \<lparr>tk_scope = fs_scope ?s, tk_incident = ''i'', tk_versions = [(FNotes, length [''n'', ''new''])],
       tk_texts = [(FNotes, ''old'')], tk_textBase = []\<rparr>"
    by simp_all
  from restarted_version_is_mistaken [OF this refl, of 5 "[]"] show ?thesis .
qed

end
