(* ===== verification/ReloadScheduler.thy ===== *)
theory ReloadScheduler
  imports BoardTypes
begin

text \<open>
  \<^verbatim>\<open>frontend/lib/reload-scheduler.ts\<close>: the single-flight, coalescing scheduler of the board's
  full reload, as an event machine. An event is one turn of the event loop: a call of a public
  method, the debounce timer firing, the running load settling (its \<^verbatim>\<open>finally\<close>), or the
  continuation of the follow-up running. The value the caller's gate answers with is part of the
  event that asks it. Every load started gets the next number; the log remembers for each whether an
  explicit request asked for it and what the gate would have said.
\<close>

section \<open>State\<close>

record scheduler =
  sc_inFlight :: "nat option"
  sc_followUp :: "nat option"       \<comment> \<open>the run the follow-up waits for\<close>
  sc_followUpExplicit :: bool
  sc_debounceTimer :: "ms option"   \<comment> \<open>when the armed timer fires\<close>
  sc_debounceStartedAt :: "ms option"
  sc_disposed :: bool
  sc_running :: "nat list"          \<comment> \<open>loads that have not settled\<close>
  sc_log :: "(bool \<times> bool) list"   \<comment> \<open>every load started: asked explicitly? gate open?\<close>
  sc_held :: nat                    \<comment> \<open>calls of \<^verbatim>\<open>onAutoLoadHeld\<close>\<close>

definition remote_update_debounce_ms :: ms where
  "remote_update_debounce_ms = 200"

definition remote_update_max_wait_ms :: ms where
  "remote_update_max_wait_ms = 1000"

definition new_scheduler :: scheduler where
  "new_scheduler = \<lparr>sc_inFlight = None, sc_followUp = None, sc_followUpExplicit = False,
     sc_debounceTimer = None, sc_debounceStartedAt = None, sc_disposed = False,
     sc_running = [], sc_log = [], sc_held = 0\<rparr>"

definition sched_busy :: "scheduler \<Rightarrow> bool" where
  "sched_busy s = (sc_inFlight s \<noteq> None \<or> sc_followUp s \<noteq> None \<or> sc_debounceTimer s \<noteq> None)"

section \<open>Operations\<close>

definition clear_debounce :: "scheduler \<Rightarrow> scheduler" where
  "clear_debounce s = s\<lparr>sc_debounceTimer := None, sc_debounceStartedAt := None\<rparr>"

definition start_load :: "bool \<Rightarrow> bool \<Rightarrow> scheduler \<Rightarrow> scheduler" where
  "start_load explicit gate s =
     (let run = length (sc_log s)
      in s\<lparr>sc_log := sc_log s @ [(explicit, gate)], sc_running := run # sc_running s,
           sc_inFlight := Some run\<rparr>)"

text \<open>The gate, with the held load reported to the caller.\<close>

definition gated_start :: "bool \<Rightarrow> bool \<Rightarrow> scheduler \<Rightarrow> scheduler" where
  "gated_start explicit gate s =
     (if \<not> explicit \<and> \<not> gate then s\<lparr>sc_held := sc_held s + 1\<rparr>
      else start_load explicit gate s)"

definition enqueue :: "bool \<Rightarrow> bool \<Rightarrow> scheduler \<Rightarrow> scheduler" where
  "enqueue explicit gate s =
     (if sc_disposed s then s
      else
        let s1 = clear_debounce s
        in if sc_inFlight s1 = None \<and> sc_followUp s1 = None then gated_start explicit gate s1
           else
             let s2 = (if explicit then s1\<lparr>sc_followUpExplicit := True\<rparr> else s1)
             in if sc_followUp s2 = None then s2\<lparr>sc_followUp := sc_inFlight s2\<rparr> else s2)"

definition request_debounced :: "ms \<Rightarrow> scheduler \<Rightarrow> scheduler" where
  "request_debounced now s =
     (if sc_disposed s then s
      else
        let started = nullish (sc_debounceStartedAt s) now;
            waited = now - started;
            delay = max 0 (min remote_update_debounce_ms (remote_update_max_wait_ms - waited))
        in s\<lparr>sc_debounceStartedAt := Some started, sc_debounceTimer := Some (now + delay)\<rparr>)"

definition debounce_fires :: "bool \<Rightarrow> scheduler \<Rightarrow> scheduler" where
  "debounce_fires gate s =
     (if sc_debounceTimer s = None then s else enqueue False gate (clear_debounce s))"

definition load_settles :: "nat \<Rightarrow> scheduler \<Rightarrow> scheduler" where
  "load_settles run s =
     (if run \<in> set (sc_running s)
      then s\<lparr>sc_running := removeAll run (sc_running s),
             sc_inFlight := (if sc_inFlight s = Some run then None else sc_inFlight s)\<rparr>
      else s)"

text \<open>The continuation queued on the run it waited for; it can only run once that has settled.\<close>

definition follow_up_runs :: "bool \<Rightarrow> scheduler \<Rightarrow> scheduler" where
  "follow_up_runs gate s =
     (case sc_followUp s of
        None \<Rightarrow> s
      | Some current \<Rightarrow>
          if current \<in> set (sc_running s) then s
          else
            let wasExplicit = sc_followUpExplicit s;
                s1 = s\<lparr>sc_followUp := None, sc_followUpExplicit := False\<rparr>
            in if sc_disposed s1 then s1 else gated_start wasExplicit gate s1)"

definition dispose :: "scheduler \<Rightarrow> scheduler" where
  "dispose s = clear_debounce (s\<lparr>sc_disposed := True\<rparr>)"

datatype sched_event =
    Request bool            \<comment> \<open>\<^verbatim>\<open>request\<close>\<close>
  | RequestAuto bool        \<comment> \<open>\<^verbatim>\<open>requestAuto\<close>\<close>
  | RequestDebounced ms
  | DebounceFires bool
  | LoadSettles nat
  | FollowUpRuns bool
  | Dispose

fun sched_step :: "scheduler \<Rightarrow> sched_event \<Rightarrow> scheduler" where
  "sched_step s (Request gate) = enqueue True gate s"
| "sched_step s (RequestAuto gate) = enqueue False gate s"
| "sched_step s (RequestDebounced now) = request_debounced now s"
| "sched_step s (DebounceFires gate) = debounce_fires gate s"
| "sched_step s (LoadSettles run) = load_settles run s"
| "sched_step s (FollowUpRuns gate) = follow_up_runs gate s"
| "sched_step s Dispose = dispose s"

section \<open>Invariant\<close>

definition sched_inv :: "scheduler \<Rightarrow> bool" where
  "sched_inv s \<longleftrightarrow>
     sc_running s = (case sc_inFlight s of None \<Rightarrow> [] | Some r \<Rightarrow> [r])
     \<and> (\<forall>r. sc_inFlight s = Some r \<longrightarrow> r < length (sc_log s))
     \<and> (\<forall>r w. sc_inFlight s = Some r \<longrightarrow> sc_followUp s = Some w \<longrightarrow> w = r)
     \<and> (sc_followUpExplicit s \<longrightarrow> sc_followUp s \<noteq> None)
     \<and> (sc_debounceTimer s = None \<longleftrightarrow> sc_debounceStartedAt s = None)
     \<and> (sc_disposed s \<longrightarrow> sc_debounceTimer s = None)
     \<and> list_all (\<lambda>(explicit, gate). explicit \<or> gate) (sc_log s)"

lemmas sched_defs = enqueue_def clear_debounce_def gated_start_def start_load_def
  request_debounced_def debounce_fires_def load_settles_def follow_up_runs_def dispose_def Let_def

lemma sched_inv_start: "sched_inv new_scheduler"
  by (simp add: sched_inv_def new_scheduler_def)

lemma sched_inv_enqueue: "sched_inv s \<Longrightarrow> sched_inv (enqueue e g s)"
  by (auto simp: sched_inv_def sched_defs split: option.splits)

lemma sched_inv_clear: "sched_inv s \<Longrightarrow> sched_inv (clear_debounce s)"
  by (simp add: sched_inv_def sched_defs)

lemma sched_inv_settles: "sched_inv s \<Longrightarrow> sched_inv (load_settles r s)"
  by (auto simp: sched_inv_def sched_defs split: option.splits)

lemma sched_inv_follow: "sched_inv s \<Longrightarrow> sched_inv (follow_up_runs g s)"
  by (auto simp: sched_inv_def sched_defs split: option.splits)

lemma sched_inv_step: "sched_inv s \<Longrightarrow> sched_inv (sched_step s ev)"
  by (cases ev)
    (auto simp: sched_inv_enqueue sched_inv_settles sched_inv_follow debounce_fires_def sched_inv_clear
      intro: sched_inv_enqueue [OF sched_inv_clear],
     auto simp: sched_inv_def sched_defs)

interpretation sched: event_machine sched_step sched_inv new_scheduler
  by unfold_locales (simp_all add: sched_inv_start sched_inv_step)

definition run_scheduler :: "sched_event list \<Rightarrow> scheduler" where
  "run_scheduler es = foldl sched_step new_scheduler es"

lemma run_inv: "sched_inv (run_scheduler es)"
  unfolding run_scheduler_def by (rule sched.inv_run)

lemma run_snoc: "run_scheduler (es @ fs) = foldl sched_step (run_scheduler es) fs"
  by (simp add: run_scheduler_def)

section \<open>Lemmas\<close>

text \<open>The debounce has a ceiling: further calls push the timer back, but not beyond the maximal
  wait after the first of them.\<close>

lemma debounce_ceiling:
  assumes "sc_disposed s = False" "nullish (sc_debounceStartedAt s) now \<le> now"
  obtains d t0 where "sc_debounceTimer (request_debounced now s) = Some d"
    "sc_debounceStartedAt (request_debounced now s) = Some t0"
    "t0 = nullish (sc_debounceStartedAt s) now" "now \<le> d" "d \<le> now + 200" "d \<le> max now (t0 + 1000)"
  using assms by (simp add: sched_defs remote_update_debounce_ms_def remote_update_max_wait_ms_def)

text \<open>A disposed scheduler starts nothing any more, whatever happens to it.\<close>

lemma disposed_step: "sc_disposed s \<Longrightarrow> sc_disposed (sched_step s ev) \<and> sc_log (sched_step s ev) = sc_log s"
  by (cases ev) (auto simp: sched_defs split: option.splits)

lemma disposed_run: "sc_disposed s \<Longrightarrow> sc_log (foldl sched_step s es) = sc_log s"
proof (induction es arbitrary: s)
  case Nil
  then show ?case by simp
next
  case (Cons e es)
  from disposed_step [OF Cons.prems, of e] Cons.IH show ?case by simp
qed

lemma log_grows: "length (sc_log s) \<le> length (sc_log (sched_step s ev))"
  by (cases ev) (auto simp: sched_defs split: option.splits)

text \<open>What an explicit request leaves behind: a load started at once, or an explicit follow-up
  waiting for the load in flight or already due.\<close>

lemma request_answered:
  assumes "sched_inv s" "\<not> sc_disposed s"
  shows "(sc_log (enqueue True g s) = sc_log s @ [(True, g)]) \<or>
         (sc_log (enqueue True g s) = sc_log s \<and> sc_followUpExplicit (enqueue True g s)
          \<and> sc_followUp (enqueue True g s) \<noteq> None \<and> \<not> sc_disposed (enqueue True g s))"
  using assms by (cases "sc_inFlight s"; cases "sc_followUp s") (auto simp: sched_defs)

lemma settled_enables_follow_up:
  assumes "sched_inv s" "sc_followUp s = Some w"
  shows "w \<notin> set (sc_running (load_settles w s))"
  using assms by (auto simp: sched_defs)

lemma explicit_follow_up_starts:
  assumes "sched_inv s" "\<not> sc_disposed s" "sc_followUpExplicit s" "sc_followUp s = Some w"
  shows "sc_log (follow_up_runs g (load_settles w s)) = sc_log s @ [(True, g)]"
  using assms by (auto simp: sched_defs)

section \<open>Properties\<close>

text \<open>
  The scheduler is single-flight: after any sequence of requests, timer firings, settling
  loads and continuations, at most one load is running, and it is the one the scheduler knows to
  be in flight.
\<close>

theorem single_flight:
  "length (sc_running (run_scheduler es)) \<le> 1 \<and>
   sc_running (run_scheduler es) =
     (case sc_inFlight (run_scheduler es) of None \<Rightarrow> [] | Some r \<Rightarrow> [r])"
proof -
  from run_inv [of es] have "sc_running (run_scheduler es) =
      (case sc_inFlight (run_scheduler es) of None \<Rightarrow> [] | Some r \<Rightarrow> [r])"
    by (simp add: sched_inv_def)
  then show ?thesis by (auto split: option.splits)
qed

text \<open>
  Every load the scheduler ever starts was asked for by an explicit request or passed
  the gate at the moment it started, and once it is disposed it starts no load any more.
\<close>

theorem automatic_loads_pass_the_gate:
  "list_all (\<lambda>(explicit, gate). explicit \<or> gate) (sc_log (run_scheduler es)) \<and>
   sc_log (run_scheduler (es @ Dispose # fs)) = sc_log (run_scheduler es)"
proof
  show "list_all (\<lambda>(explicit, gate). explicit \<or> gate) (sc_log (run_scheduler es))"
    using run_inv [of es] by (simp add: sched_inv_def)
  have "sc_disposed (sched_step (run_scheduler es) Dispose)"
    "sc_log (sched_step (run_scheduler es) Dispose) = sc_log (run_scheduler es)"
    by (simp_all add: sched_defs)
  then show "sc_log (run_scheduler (es @ Dispose # fs)) = sc_log (run_scheduler es)"
    by (simp add: run_snoc disposed_run del: sched_step.simps)
qed

text \<open>
  An explicit reload is never lost, whatever the gate says: from every reachable state of
  a scheduler that is not disposed, the request starts a load at once, or the load in flight leads to
  one when it settles and its continuation runs, even with the gate closed.
\<close>

theorem explicit_request_is_answered:
  assumes "\<not> sc_disposed (run_scheduler es)"
  shows "sc_log (run_scheduler (es @ [Request False])) = sc_log (run_scheduler es) @ [(True, False)]
         \<or> (\<exists>w. sc_log (run_scheduler (es @ [Request False, LoadSettles w, FollowUpRuns False]))
                = sc_log (run_scheduler es) @ [(True, False)])"
proof -
  let ?s = "run_scheduler es" and ?t = "enqueue True False (run_scheduler es)"
  have inv: "sched_inv ?t" by (rule sched_inv_enqueue) (rule run_inv)
  from request_answered [OF run_inv assms, of False] show ?thesis
  proof
    assume "sc_log ?t = sc_log ?s @ [(True, False)]"
    then show ?thesis by (simp add: run_snoc)
  next
    assume wait: "sc_log ?t = sc_log ?s \<and> sc_followUpExplicit ?t \<and> sc_followUp ?t \<noteq> None \<and> \<not> sc_disposed ?t"
    then obtain w where "sc_followUp ?t = Some w" by auto
    with wait explicit_follow_up_starts [OF inv, of w False] show ?thesis
      by (intro disjI2 exI [of _ w]) (simp add: run_snoc)
  qed
qed

theorem explicit_request_is_answered_witness:
  "sc_log (run_scheduler [RequestAuto True]) = [(False, True)] \<and>
   (\<exists>w. sc_log (run_scheduler [RequestAuto True, Request False, LoadSettles w, FollowUpRuns False])
        = [(False, True), (True, False)])"
proof -
  have "\<not> sc_disposed (run_scheduler [RequestAuto True])"
    "sc_log (run_scheduler [RequestAuto True]) = [(False, True)]"
    "sc_log (run_scheduler ([RequestAuto True] @ [Request False])) = [(False, True)]"
    by (simp_all add: run_scheduler_def new_scheduler_def sched_defs)
  with explicit_request_is_answered [of "[RequestAuto True]"] show ?thesis by simp
qed

text \<open>
  Any number of requests made while one load is running coalesce into one follow-up: as
  long as the load has not settled, the scheduler starts no second load, however
  many requests of any kind arrive.
\<close>

theorem requests_coalesce:
  assumes "sc_inFlight (run_scheduler es) \<noteq> None"
    and "\<And>e. e \<in> set fs \<Longrightarrow> (\<forall>r. e \<noteq> LoadSettles r)"
  shows "sc_log (run_scheduler (es @ fs)) = sc_log (run_scheduler es)"
proof -
  have "sched_inv s \<Longrightarrow> sc_inFlight s \<noteq> None \<Longrightarrow> (\<forall>e\<in>set fs. \<forall>r. e \<noteq> LoadSettles r) \<Longrightarrow>
      sc_log (foldl sched_step s fs) = sc_log s" for s
  proof (induction fs arbitrary: s)
    case Nil
    then show ?case by simp
  next
    case (Cons e fs)
    have "sc_inFlight (sched_step s e) \<noteq> None \<and> sc_log (sched_step s e) = sc_log s"
      using Cons.prems by (cases e) (auto simp: sched_defs sched_inv_def split: option.splits)
    with Cons.IH [OF sched_inv_step [OF Cons.prems(1)], of e] Cons.prems(3) show ?case by simp
  qed
  with run_inv [of es] assms show ?thesis by (auto simp: run_snoc)
qed

theorem requests_coalesce_witness:
  "sc_log (run_scheduler ([Request True] @ [RequestAuto True, Request False, RequestDebounced 5])) = [(True, True)]"
proof -
  have "sc_inFlight (run_scheduler [Request True]) \<noteq> None"
    "sc_log (run_scheduler [Request True]) = [(True, True)]"
    by (simp_all add: run_scheduler_def new_scheduler_def sched_defs)
  with requests_coalesce [of "[Request True]" "[RequestAuto True, Request False, RequestDebounced 5]"]
  show ?thesis by auto
qed

end
