(* ===== verification/BoardSync.thy ===== *)
theory BoardSync
  imports Reconcile ReloadScheduler
begin

text \<open>
  The board's loader and its live wiring: \<^verbatim>\<open>contexts/operations/use-board-sync.ts\<close> with the decisions
  of \<^verbatim>\<open>sync-cooldown.ts\<close>. The state is what the hook keeps in refs and React state; a load is split
  where the code awaits, into its start (which fixes its number, its Ereignis, the mutation epoch and
  the version it read first) and its end (success with everything it fetched, or failure). The time,
  the socket's state, the cooldown and the random jitter are arguments of the step that reads them.
  Two fields are history only: \<open>bs_boardOf\<close>, the Ereignis the cards on screen were fetched for, and
  \<open>bs_inFlight\<close>, the loads that have started and not ended.
\<close>

section \<open>Decisions\<close>

datatype sync_decision = SyncFetch | SyncQueue | SyncSkip

definition decide_remote_update_action :: "bool \<Rightarrow> sync_decision" where
  "decide_remote_update_action inCooldown = (if inCooldown then SyncQueue else SyncFetch)"

definition decide_poll_tick_action :: "bool \<Rightarrow> bool \<Rightarrow> sync_decision" where
  "decide_poll_tick_action isLoading inCooldown =
     (if isLoading then SyncSkip else if inCooldown then SyncQueue else SyncFetch)"

definition decide_cooldown_clear_action :: "bool \<Rightarrow> bool \<Rightarrow> sync_decision" where
  "decide_cooldown_clear_action pendingReplay stillInCooldown =
     (if stillInCooldown then SyncSkip else if \<not> pendingReplay then SyncSkip else SyncFetch)"

datatype socket_status = SockConnected | SockConnecting | SockDisconnected | SockError

definition should_start_polling_on_mount :: "socket_status \<Rightarrow> bool" where
  "should_start_polling_on_mount st = (st \<noteq> SockConnected)"

section \<open>State\<close>

record board_load =
  ld_id :: nat
  ld_event :: ident
  ld_epoch :: nat
  ld_version :: "string option"

record load_payload =
  pl_snapshot :: event_snapshot
  pl_total :: int
  pl_onSite :: "restliste_unit list option"
  pl_settings :: "(string \<rightharpoonup> string) option"

record board_sync =
  bs_mounted :: bool
  bs_loadId :: nat
  bs_event :: "ident option"
  bs_ops :: "operation list"
  bs_personnel :: "person list"
  bs_materials :: "material list"
  bs_onSite :: "ident \<rightharpoonup> on_site_unit"
  bs_oosVehicles :: "ident list"
  bs_functions :: "special_function list"
  bs_vehicles :: "api_vehicle list"
  bs_settings :: "string \<rightharpoonup> string"
  bs_homeCity :: string
  bs_total :: "int option"
  bs_lastSyncAt :: "ms option"
  bs_loadError :: bool
  bs_loaded :: bool
  bs_initial :: bool
  bs_known :: "ident list"
  bs_version :: "string option"
  bs_pendingReplay :: bool
  bs_epoch :: nat
  bs_polling :: bool
  bs_backoff :: int
  bs_liveSince :: "ms option"
  bs_alerts :: nat
  bs_boardOf :: "ident option"
  bs_inFlight :: "board_load list"

definition new_board_sync :: board_sync where
  "new_board_sync = \<lparr>bs_mounted = False, bs_loadId = 0, bs_event = None, bs_ops = [], bs_personnel = [],
     bs_materials = [], bs_onSite = Map.empty, bs_oosVehicles = [], bs_functions = [], bs_vehicles = [],
     bs_settings = Map.empty, bs_homeCity = [], bs_total = None, bs_lastSyncAt = None,
     bs_loadError = False, bs_loaded = False, bs_initial = True, bs_known = [], bs_version = None,
     bs_pendingReplay = False, bs_epoch = 0, bs_polling = False, bs_backoff = 1, bs_liveSince = None,
     bs_alerts = 0, bs_boardOf = None, bs_inFlight = []\<rparr>"

section \<open>Polling\<close>

definition next_backoff :: "bool \<Rightarrow> int \<Rightarrow> int" where
  "next_backoff success b = (if success then 1 else min (b * 2) 6)"

text \<open>\<^verbatim>\<open>random\<close> is the value of \<^verbatim>\<open>Math.random()\<close>; \<^verbatim>\<open>Math.round\<close> rounds a half up.\<close>

definition poll_interval :: "int \<Rightarrow> rat \<Rightarrow> int" where
  "poll_interval backoff random =
     \<lfloor>5000 * of_int backoff * (1 + (random * 2 - 1) * (2 / 10)) + 1 / 2\<rfloor>"

definition get_next_poll_interval :: "bool \<Rightarrow> rat \<Rightarrow> board_sync \<Rightarrow> int \<times> board_sync" where
  "get_next_poll_interval success random bs =
     (let b = next_backoff success (bs_backoff bs) in (poll_interval b random, bs\<lparr>bs_backoff := b\<rparr>))"

definition start_polling :: "board_sync \<Rightarrow> board_sync" where
  "start_polling bs = (if bs_polling bs then bs else bs\<lparr>bs_polling := True, bs_backoff := 1\<rparr>)"

definition stop_polling :: "board_sync \<Rightarrow> board_sync" where
  "stop_polling bs = bs\<lparr>bs_polling := False\<rparr>"

definition stop_polling_if_socket_carries :: "socket_status \<Rightarrow> board_sync \<Rightarrow> board_sync" where
  "stop_polling_if_socket_carries st bs = (if st = SockConnected then stop_polling bs else bs)"

text \<open>The tick up to its network call: the decision, and the replay a cooldown queues.\<close>

definition poll_tick :: "bool \<Rightarrow> bool \<Rightarrow> board_sync \<Rightarrow> sync_decision \<times> board_sync" where
  "poll_tick isLoading inCooldown bs =
     (let d = decide_poll_tick_action isLoading inCooldown
      in (d, if d = SyncQueue then bs\<lparr>bs_pendingReplay := True\<rparr> else bs))"

text \<open>The version the tick asked for has arrived: whether an automatic reload is requested, and
  the state with the board confirmed fresh where it is not.\<close>

definition poll_version :: "ms \<Rightarrow> socket_status \<Rightarrow> string \<Rightarrow> board_sync \<Rightarrow> bool \<times> board_sync" where
  "poll_version now st version bs =
     (if Some version \<noteq> bs_version bs then (True, bs\<lparr>bs_version := Some version\<rparr>)
      else (False, stop_polling_if_socket_carries st (bs\<lparr>bs_lastSyncAt := Some now, bs_loadError := False\<rparr>)))"

definition poll_failed :: "board_sync \<Rightarrow> board_sync" where
  "poll_failed bs = bs\<lparr>bs_backoff := min (bs_backoff bs * 2) 6\<rparr>"

section \<open>Loading\<close>

definition begin_load :: "string option \<Rightarrow> board_sync \<Rightarrow> board_sync" where
  "begin_load version bs =
     (case (bs_mounted bs, bs_event bs) of
        (True, Some e) \<Rightarrow>
          (let n = bs_loadId bs + 1
           in bs\<lparr>bs_loadId := n,
                 bs_inFlight := bs_inFlight bs @
                   [\<lparr>ld_id = n, ld_event = e, ld_epoch = bs_epoch bs, ld_version = version\<rparr>]\<rparr>)
      | _ \<Rightarrow> bs)"

definition end_load :: "board_load \<Rightarrow> board_sync \<Rightarrow> board_sync" where
  "end_load ld bs = bs\<lparr>bs_inFlight := removeAll ld (bs_inFlight bs)\<rparr>"

definition alert_count :: "operation list \<Rightarrow> board_sync \<Rightarrow> nat" where
  "alert_count ops bs =
     (if bs_known bs \<noteq> [] \<and>
         js_some (\<lambda>o1. op_priority o1 = High \<and> \<not> js_includes (bs_known bs) (op_id o1)) ops
      then bs_alerts bs + 1 else bs_alerts bs)"

definition commit_load ::
  "ms \<Rightarrow> socket_status \<Rightarrow> board_load \<Rightarrow> load_payload \<Rightarrow> event_state \<Rightarrow> board_sync \<Rightarrow> board_sync" where
  "commit_load now st ld pl es bs =
     (let sn = pl_snapshot pl;
          bs1 = bs\<lparr>bs_ops := es_ops es, bs_personnel := es_personnel es, bs_materials := es_materials es,
                   bs_onSite := (case pl_onSite pl of None \<Rightarrow> bs_onSite bs | Some r \<Rightarrow> to_material_on_site (Some r)),
                   bs_oosVehicles := map v_id (filter v_out_of_service (sn_vehicles sn)),
                   bs_functions := sn_functions sn, bs_vehicles := sn_vehicles sn,
                   bs_total := Some (pl_total pl),
                   bs_settings := nullish (pl_settings pl) (bs_settings bs),
                   bs_homeCity := (case pl_settings pl of None \<Rightarrow> bs_homeCity bs
                                   | Some s \<Rightarrow> or_str (s ''home_city'') []),
                   bs_loaded := True, bs_lastSyncAt := Some now, bs_loadError := False,
                   bs_initial := False, bs_boardOf := Some (ld_event ld)\<rparr>
      in (stop_polling_if_socket_carries st bs1)\<lparr>bs_version := ld_version ld\<rparr>)"

text \<open>\<^verbatim>\<open>replayPendingUpdatesRef\<close>: whether an automatic reload is requested.\<close>

definition replay_pending :: "bool \<Rightarrow> board_sync \<Rightarrow> bool \<times> board_sync" where
  "replay_pending inCooldown bs =
     (if decide_cooldown_clear_action (bs_pendingReplay bs) inCooldown = SyncSkip then (False, bs)
      else (True, bs\<lparr>bs_pendingReplay := False\<rparr>))"

definition load_succeeds ::
  "js_runtime \<Rightarrow> (string \<Rightarrow> string) \<Rightarrow> ms \<Rightarrow> socket_status \<Rightarrow> bool \<Rightarrow> board_load \<Rightarrow> load_payload
     \<Rightarrow> board_sync \<Rightarrow> bool \<times> board_sync" where
  "load_succeeds rt tr now st inCooldown ld pl bs0 =
     (let bs = end_load ld bs0; es = build_event_state rt tr (pl_snapshot pl)
      in if ld_id ld \<noteq> bs_loadId bs then (False, bs)
         else
           let bs1 = bs\<lparr>bs_alerts := alert_count (es_ops es) bs, bs_known := map op_id (es_ops es)\<rparr>
           in if bs_epoch bs1 \<noteq> ld_epoch ld
              then replay_pending inCooldown (bs1\<lparr>bs_pendingReplay := True\<rparr>)
              else (False, commit_load now st ld pl es bs1))"

definition load_fails :: "board_load \<Rightarrow> board_sync \<Rightarrow> board_sync" where
  "load_fails ld bs0 =
     (let bs = end_load ld bs0
      in if ld_id ld \<noteq> bs_loadId bs then bs
         else start_polling (bs\<lparr>bs_loadError := True, bs_loaded := True, bs_initial := False\<rparr>))"

section \<open>The effect: selecting an Ereignis, and its cleanup\<close>

definition switch_event :: "ident \<Rightarrow> board_sync \<Rightarrow> board_sync" where
  "switch_event e bs =
     (let bs1 = (if bs_event bs \<noteq> None \<and> bs_event bs \<noteq> Some e
                 then bs\<lparr>bs_ops := [], bs_personnel := [], bs_materials := [], bs_onSite := Map.empty,
                         bs_functions := [], bs_total := None, bs_lastSyncAt := None,
                         bs_loadError := False, bs_loaded := False, bs_initial := True, bs_known := [],
                         bs_version := None, bs_boardOf := None\<rparr>
                 else bs)
      in bs1\<lparr>bs_event := Some e, bs_mounted := True\<rparr>)"

definition no_event :: "bool \<Rightarrow> board_sync \<Rightarrow> board_sync" where
  "no_event isEventLoaded bs =
     bs\<lparr>bs_ops := [], bs_personnel := [], bs_materials := [], bs_event := None, bs_lastSyncAt := None,
        bs_loadError := False, bs_loaded := (isEventLoaded \<or> bs_loaded bs), bs_boardOf := None\<rparr>"

definition cleanup :: "board_sync \<Rightarrow> board_sync" where
  "cleanup bs = (if bs_mounted bs
     then (stop_polling bs)\<lparr>bs_mounted := False, bs_loadId := bs_loadId bs + 1\<rparr> else bs)"

text \<open>The effect body: the previous instance's cleanup runs first. \<open>sel = None\<close>: nothing selected.\<close>

definition run_effect :: "bool \<Rightarrow> bool \<Rightarrow> socket_status \<Rightarrow> ident option \<Rightarrow> board_sync \<Rightarrow> board_sync" where
  "run_effect signedIn isEventLoaded st sel bs =
     (let bs1 = cleanup bs
      in if \<not> signedIn then bs1
         else case sel of
                None \<Rightarrow> no_event isEventLoaded bs1
              | Some e \<Rightarrow>
                  let bs2 = switch_event e bs1
                  in if should_start_polling_on_mount st then start_polling bs2 else bs2)"

section \<open>Socket\<close>

definition apply_driver_stay_update :: "ident \<Rightarrow> ident \<Rightarrow> bool option \<Rightarrow> operation list \<Rightarrow> operation list" where
  "apply_driver_stay_update asg incident stay ops =
     (if asg = [] \<or> incident = [] then ops
      else map (\<lambda>o1.
             if op_id o1 \<noteq> incident then o1
             else if \<not> js_some (\<lambda>v. ov_assignmentId v = Some asg) (op_vehicles o1) then o1
             else o1\<lparr>op_vehicles := map (\<lambda>v. if ov_assignmentId v = Some asg
                        then v\<lparr>ov_driverStay := Some (nullish stay False)\<rparr> else v) (op_vehicles o1)\<rparr>) ops)"

text \<open>The status handler; the flag says whether a debounced reload is requested.\<close>

definition status_change :: "ms \<Rightarrow> socket_status \<Rightarrow> board_sync \<Rightarrow> bool \<times> board_sync" where
  "status_change now st bs =
     (let bs1 = (if st = SockConnected then
                   (if bs_liveSince bs = None then bs\<lparr>bs_liveSince := Some now\<rparr> else bs)
                 else case bs_liveSince bs of
                        None \<Rightarrow> bs
                      | Some live \<Rightarrow>
                          (case bs_lastSyncAt bs of
                             Some c \<Rightarrow> (if c \<ge> live then bs\<lparr>bs_lastSyncAt := Some now\<rparr> else bs)
                           | None \<Rightarrow> bs)\<lparr>bs_liveSince := None\<rparr>)
      in if st = SockDisconnected \<or> st = SockError then (False, start_polling bs1)
         else if st = SockConnected then (True, stop_polling bs1)
         else (False, bs1))"

section \<open>The hook as an event machine\<close>

datatype sync_event =
    EffectRuns bool bool socket_status "ident option"
  | BeginLoad "string option"
  | LoadSucceeds ms socket_status bool board_load load_payload
  | LoadFails board_load
  | Mutation
  | PollTick bool bool
  | PollVersion ms socket_status string
  | PollFailed
  | Replay bool
  | StatusChange ms socket_status
  | DriverStay ident ident "bool option"

fun sync_step :: "js_runtime \<Rightarrow> (string \<Rightarrow> string) \<Rightarrow> board_sync \<Rightarrow> sync_event \<Rightarrow> board_sync" where
  "sync_step rt tr s (EffectRuns a b st sel) = run_effect a b st sel s"
| "sync_step rt tr s (BeginLoad v) = begin_load v s"
| "sync_step rt tr s (LoadSucceeds now st cool ld pl) =
     (if ld \<in> set (bs_inFlight s) then snd (load_succeeds rt tr now st cool ld pl s) else s)"
| "sync_step rt tr s (LoadFails ld) = (if ld \<in> set (bs_inFlight s) then load_fails ld s else s)"
| "sync_step rt tr s Mutation = s\<lparr>bs_epoch := bs_epoch s + 1\<rparr>"
| "sync_step rt tr s (PollTick busy cool) = snd (poll_tick busy cool s)"
| "sync_step rt tr s (PollVersion now st v) = snd (poll_version now st v s)"
| "sync_step rt tr s PollFailed = poll_failed s"
| "sync_step rt tr s (Replay cool) = snd (replay_pending cool s)"
| "sync_step rt tr s (StatusChange now st) = snd (status_change now st s)"
| "sync_step rt tr s (DriverStay a i b) = s\<lparr>bs_ops := apply_driver_stay_update a i b (bs_ops s)\<rparr>"

definition sync_inv :: "board_sync \<Rightarrow> bool" where
  "sync_inv s \<longleftrightarrow>
     (\<forall>ld\<in>set (bs_inFlight s). ld_id ld \<le> bs_loadId s)
     \<and> (\<forall>ld\<in>set (bs_inFlight s). ld_id ld = bs_loadId s \<longrightarrow> bs_mounted s \<and> bs_event s = Some (ld_event ld))
     \<and> (bs_boardOf s = None \<longrightarrow> bs_ops s = [])
     \<and> (bs_boardOf s \<noteq> None \<longrightarrow> bs_boardOf s = bs_event s)"

text \<open>The parts of the state the invariant reads, and what leaves them alone.\<close>

definition core :: "board_sync \<Rightarrow> board_load list \<times> nat \<times> bool \<times> ident option \<times> operation list \<times> ident option" where
  "core s = (bs_inFlight s, bs_loadId s, bs_mounted s, bs_event s, bs_ops s, bs_boardOf s)"

lemma sync_inv_core: "core s = core t \<Longrightarrow> sync_inv s = sync_inv t"
  by (simp add: core_def sync_inv_def)

lemma core_unchanged [simp]:
  "core (start_polling s) = core s" "core (stop_polling s) = core s"
  "core (stop_polling_if_socket_carries st s) = core s"
  "core (snd (poll_tick b c s)) = core s" "core (snd (poll_version now st v s)) = core s"
  "core (poll_failed s) = core s" "core (snd (replay_pending c s)) = core s"
  "core (snd (status_change now st s)) = core s"
  by (simp_all add: core_def start_polling_def stop_polling_def stop_polling_if_socket_carries_def
      poll_tick_def poll_version_def poll_failed_def replay_pending_def status_change_def Let_def
      split: option.splits)

lemma sync_inv_end: "sync_inv s \<Longrightarrow> sync_inv (end_load ld s)"
  by (auto simp: sync_inv_def end_load_def)

lemma sync_inv_begin: "sync_inv s \<Longrightarrow> sync_inv (begin_load v s)"
  by (fastforce simp: sync_inv_def begin_load_def Let_def split: option.splits bool.splits)

lemma sync_inv_fails: "sync_inv s \<Longrightarrow> sync_inv (load_fails ld s)"
proof -
  assume inv: "sync_inv s"
  show ?thesis
  proof (cases "ld_id ld = bs_loadId (end_load ld s)")
    case True
    have "core (load_fails ld s) = core (end_load ld s)"
      using True by (simp add: load_fails_def Let_def) (simp add: core_def)
    with sync_inv_end [OF inv] show ?thesis by (metis sync_inv_core)
  next
    case False
    with sync_inv_end [OF inv] show ?thesis by (simp add: load_fails_def Let_def)
  qed
qed

lemma core_commit:
  "core (commit_load now st ld pl es s) =
     (bs_inFlight s, bs_loadId s, bs_mounted s, bs_event s, es_ops es, Some (ld_event ld))"
  by (simp add: core_def commit_load_def Let_def stop_polling_if_socket_carries_def stop_polling_def)

lemma load_succeeds_cases:
  obtains (stale) "snd (load_succeeds rt tr now st cool ld pl s) = end_load ld s" "ld_id ld \<noteq> bs_loadId s"
  | (replay) "core (snd (load_succeeds rt tr now st cool ld pl s)) = core (end_load ld s)"
      "bs_epoch s \<noteq> ld_epoch ld" "ld_id ld = bs_loadId s"
  | (commit) "core (snd (load_succeeds rt tr now st cool ld pl s)) =
      (removeAll ld (bs_inFlight s), bs_loadId s, bs_mounted s, bs_event s,
       es_ops (build_event_state rt tr (pl_snapshot pl)), Some (ld_event ld))"
      "bs_epoch s = ld_epoch ld" "ld_id ld = bs_loadId s"
proof -
  consider "ld_id ld \<noteq> bs_loadId s" | "ld_id ld = bs_loadId s" "bs_epoch s \<noteq> ld_epoch ld"
    | "ld_id ld = bs_loadId s" "bs_epoch s = ld_epoch ld" by blast
  then show ?thesis
  proof cases
    case 1
    then show ?thesis by (intro stale) (simp_all add: load_succeeds_def Let_def end_load_def)
  next
    case 2
    then show ?thesis
      by (intro replay) (simp_all add: load_succeeds_def Let_def end_load_def, simp add: core_def)
  next
    case 3
    then show ?thesis
      by (intro commit) (simp_all add: load_succeeds_def Let_def end_load_def core_commit)
  qed
qed

lemma sync_inv_succeeds:
  assumes inv: "sync_inv s" and ld: "ld \<in> set (bs_inFlight s)"
  shows "sync_inv (snd (load_succeeds rt tr now st cool ld pl s))"
proof (cases rule: load_succeeds_cases [of rt tr now st cool ld pl s])
  case stale
  with sync_inv_end [OF inv] show ?thesis by simp
next
  case replay
  with sync_inv_end [OF inv] show ?thesis by (metis sync_inv_core)
next
  case commit
  from inv ld commit(3) have ev: "bs_event s = Some (ld_event ld)" by (auto simp: sync_inv_def)
  let ?r = "snd (load_succeeds rt tr now st cool ld pl s)"
  from commit(1) have "bs_inFlight ?r = removeAll ld (bs_inFlight s)" "bs_loadId ?r = bs_loadId s"
    "bs_mounted ?r = bs_mounted s" "bs_event ?r = bs_event s" "bs_boardOf ?r = Some (ld_event ld)"
    by (simp_all add: core_def)
  with inv ev show ?thesis by (auto simp: sync_inv_def)
qed

lemma sync_inv_cleanup: "sync_inv s \<Longrightarrow> sync_inv (cleanup s) \<and> \<not> bs_mounted (cleanup s)"
  by (auto simp: sync_inv_def cleanup_def stop_polling_def)

lemma sync_inv_switch: "sync_inv s \<Longrightarrow> \<not> bs_mounted s \<Longrightarrow> sync_inv (switch_event e s)"
  by (auto simp: sync_inv_def switch_event_def Let_def)

lemma sync_inv_none: "sync_inv s \<Longrightarrow> \<not> bs_mounted s \<Longrightarrow> sync_inv (no_event l s)"
  by (auto simp: sync_inv_def no_event_def)

lemma sync_inv_effect: "sync_inv s \<Longrightarrow> sync_inv (run_effect a b st sel s)"
proof -
  assume "sync_inv s"
  then have c: "sync_inv (cleanup s)" "\<not> bs_mounted (cleanup s)" by (simp_all add: sync_inv_cleanup)
  have "sync_inv (start_polling t) = sync_inv t" for t by (rule sync_inv_core) simp
  with c sync_inv_switch [OF c] sync_inv_none [OF c] show ?thesis
    by (simp add: run_effect_def Let_def split: option.splits)
qed

lemma sync_inv_step: "sync_inv s \<Longrightarrow> sync_inv (sync_step rt tr s e)"
proof (cases e)
  case Mutation
  assume "sync_inv s"
  with Mutation show ?thesis by (simp add: sync_inv_def)
next
  case (DriverStay a i b)
  assume "sync_inv s"
  with DriverStay show ?thesis by (auto simp: sync_inv_def apply_driver_stay_update_def)
qed (use sync_inv_effect sync_inv_begin sync_inv_succeeds sync_inv_fails sync_inv_core [OF core_unchanged(4)]
    sync_inv_core [OF core_unchanged(5)] sync_inv_core [OF core_unchanged(6)]
    sync_inv_core [OF core_unchanged(7)] sync_inv_core [OF core_unchanged(8)] in \<open>simp_all\<close>)

interpretation board: event_machine "sync_step rt tr" sync_inv new_board_sync for rt tr
  by unfold_locales (simp_all add: sync_inv_step, simp add: sync_inv_def new_board_sync_def)

definition run_board :: "js_runtime \<Rightarrow> (string \<Rightarrow> string) \<Rightarrow> sync_event list \<Rightarrow> board_sync" where
  "run_board rt tr es = foldl (sync_step rt tr) new_board_sync es"

section \<open>Properties\<close>




text \<open>
  A reload that failed is taken for a good one by the poller: when the poll finds a new
  server version and the reload it asks for fails, the next poll finds the version it has already noted,
  confirms the board as fresh, clears the error and hands back to the socket, while the cards on screen
  are still the ones from before. (The comment at that branch says the opposite.)
\<close>

theorem failed_reload_is_confirmed_fresh:
  assumes "bs_mounted s" "bs_event s = Some e" "bs_version s \<noteq> Some v"
    and "ld = \<lparr>ld_id = bs_loadId s + 1, ld_event = e, ld_epoch = bs_epoch s, ld_version = Some v\<rparr>"
    and "t = foldl (sync_step rt tr) s
               [PollVersion now1 st v, BeginLoad (Some v), LoadFails ld, PollVersion now2 SockConnected v]"
  shows "bs_ops t = bs_ops s \<and> bs_lastSyncAt t = Some now2 \<and> \<not> bs_loadError t \<and> \<not> bs_polling t"
  using assms
  by (simp add: poll_version_def begin_load_def load_fails_def end_load_def start_polling_def
      stop_polling_if_socket_carries_def stop_polling_def Let_def)

theorem failed_reload_is_confirmed_fresh_witness:
  "\<forall>rt tr. \<not> bs_loadError (foldl (sync_step rt tr) (new_board_sync\<lparr>bs_mounted := True, bs_event := Some ''e''\<rparr>)
      [PollVersion 1 SockConnected ''v2'', BeginLoad (Some ''v2''),
       LoadFails \<lparr>ld_id = 1, ld_event = ''e'', ld_epoch = 0, ld_version = Some ''v2''\<rparr>,
       PollVersion 2 SockConnected ''v2''])"
proof -
  let ?s = "new_board_sync\<lparr>bs_mounted := True, bs_event := Some ''e''\<rparr>"
  have "bs_mounted ?s" "bs_event ?s = Some ''e''" "bs_version ?s \<noteq> Some ''v2''"
    "bs_loadId ?s = 0" "bs_epoch ?s = 0"
    by (simp_all add: new_board_sync_def)
  then show ?thesis
    using failed_reload_is_confirmed_fresh [of ?s "''e''" "''v2''" _ _ _ _ 1 SockConnected 2, OF _ _ _ refl refl]
    by simp
qed

end
