(* ===== verification/DispatchMatch.thy ===== *)
theory DispatchMatch
  imports JsText Durations
begin

text \<open>
  The text half of type-to-dispatch (\<^verbatim>\<open>frontend/lib/command-dispatch.ts\<close>): folding, words, the typo
  allowance and the match of typed words against a name. The accented letters of the phrases are written
  by their code point. The distance is proved to allow exactly one slip, the search for the best match to
  find it.
\<close>

section \<open>Folding\<close>

text \<open>One letter without its diacritics (the decomposition of Unicode, on the letters of Latin-1), and the
  sharp s as two letters.\<close>

definition fold_char :: "char \<Rightarrow> string" where
  "fold_char c =
     (let n = (of_char c :: nat)
      in if n = 223 then ''ss''
         else if 224 \<le> n \<and> n \<le> 229 then ''a''
         else if n = 231 then ''c''
         else if 232 \<le> n \<and> n \<le> 235 then ''e''
         else if 236 \<le> n \<and> n \<le> 239 then ''i''
         else if n = 241 then ''n''
         else if 242 \<le> n \<and> n \<le> 246 then ''o''
         else if 249 \<le> n \<and> n \<le> 252 then ''u''
         else if n = 253 \<or> n = 255 then ''y''
         else [c])"

definition fold_text :: "string \<Rightarrow> string" where
  "fold_text s = concat (map fold_char (js_lower s))"

definition transcribe_char :: "char \<Rightarrow> string" where
  "transcribe_char c =
     (let n = (of_char c :: nat)
      in if n = 228 then ''ae'' else if n = 246 then ''oe'' else if n = 252 then ''ue'' else [c])"

definition fold_transcribed :: "string \<Rightarrow> string" where
  "fold_transcribed s = fold_text (concat (map transcribe_char (js_lower s)))"

section \<open>Words\<close>

text \<open>\<^verbatim>\<open>text.split(/[...]+/)\<close>: the pieces between the runs of separators.\<close>

function split_runs :: "(char \<Rightarrow> bool) \<Rightarrow> string \<Rightarrow> string list" where
  "split_runs sep s =
     (case dropWhile (\<lambda>c. \<not> sep c) s of
        [] \<Rightarrow> [takeWhile (\<lambda>c. \<not> sep c) s]
      | c # rest \<Rightarrow> takeWhile (\<lambda>c. \<not> sep c) s # split_runs sep (dropWhile sep rest))"
  by pat_completeness auto
termination
proof (relation "measure (\<lambda>(sep, s). length s)")
  fix sep s c rest
  assume "dropWhile (\<lambda>c. \<not> sep c) s = c # rest"
  then have "length (c # rest) \<le> length s" by (metis length_dropWhile_le)
  moreover have "length (dropWhile sep rest) \<le> length rest" by (rule length_dropWhile_le)
  ultimately show "((sep, dropWhile sep rest), sep, s) \<in> measure (\<lambda>(sep, s). length s)" by simp
qed simp

declare split_runs.simps [simp del]

definition is_word_sep :: "char \<Rightarrow> bool" where
  "is_word_sep c = (is_space c \<or> c \<in> set ''-./,()'')"

definition split_words :: "string \<Rightarrow> string list" where
  "split_words s = filter (\<lambda>w. w \<noteq> []) (map js_trim (split_runs is_word_sep s))"

type_synonym spellings = "string list"

definition to_words :: "string \<Rightarrow> spellings list" where
  "to_words s =
     map (\<lambda>raw. let plain = fold_text raw; transcribed = fold_transcribed raw
                in if plain = transcribed then [plain] else [plain, transcribed]) (split_words s)"

section \<open>The typo allowance\<close>

text \<open>The distance table is filled row by row in place; row and column 0 are the lengths.\<close>

definition cell :: "string \<Rightarrow> string \<Rightarrow> (nat \<Rightarrow> nat \<Rightarrow> nat) \<Rightarrow> nat \<Rightarrow> nat \<Rightarrow> nat" where
  "cell a b d i j =
     (let cost = (if a ! (i - 1) = b ! (j - 1) then 0 else 1);
          m = min (min (d (i - 1) j + 1) (d i (j - 1) + 1)) (d (i - 1) (j - 1) + cost)
      in if i > 1 \<and> j > 1 \<and> a ! (i - 1) = b ! (j - 2) \<and> a ! (i - 2) = b ! (j - 1)
         then min m (d (i - 2) (j - 2) + 1) else m)"

definition fill_row :: "string \<Rightarrow> string \<Rightarrow> (nat \<Rightarrow> nat \<Rightarrow> nat) \<Rightarrow> nat \<Rightarrow> (nat \<Rightarrow> nat \<Rightarrow> nat)" where
  "fill_row a b d i = foldl (\<lambda>d j. d(i := (d i)(j := cell a b d i j))) d [1..<length b + 1]"

definition edit_distance :: "string \<Rightarrow> string \<Rightarrow> nat" where
  "edit_distance a b =
     foldl (fill_row a b) (\<lambda>i j. if j = 0 then i else if i = 0 then j else 0) [1..<length a + 1] (length a) (length b)"

definition all_digits :: "string \<Rightarrow> bool" where
  "all_digits s = (s \<noteq> [] \<and> list_all is_digit s)"

text \<open>3 the whole word, 2 a beginning, 1 a beginning with one slip, 0 no match.\<close>

fun word_level_from :: "nat \<Rightarrow> string \<Rightarrow> spellings \<Rightarrow> nat" where
  "word_level_from best token [] = best"
| "word_level_from best token (sp # rest) =
     (if sp = token then 3
      else if 2 \<le> length token \<and> starts_with sp token then word_level_from 2 token rest
      else if best < 1 \<and> 4 \<le> length token \<and> \<not> all_digits token
      then
        let whole = edit_distance token sp \<le> 1;
            head = length token < length sp \<and> edit_distance token (take (length token) sp) \<le> 1
        in word_level_from (if whole \<or> head then 1 else best) token rest
      else word_level_from best token rest)"

definition word_level :: "string \<Rightarrow> spellings \<Rightarrow> nat" where
  "word_level token w = word_level_from 0 token w"

section \<open>Matching a span of words against a name\<close>

record alias_match =
  am_min :: nat
  am_sum :: nat
  am_complete :: bool
  am_words :: "nat list"

definition filler_words :: "string list" where
  "filler_words = [''im'', ''en'', ''in'', ''/'']"

text \<open>The search: every token takes a word of the name not taken yet, left to right; the first of the best
  results stays. A result is (least level, sum, words taken in the order of the tokens).\<close>

definition take_better :: "(nat \<times> nat \<times> nat list) option \<Rightarrow> nat \<times> nat \<times> nat list \<Rightarrow> (nat \<times> nat \<times> nat list) option" where
  "take_better best r =
     (case (best, r) of
        (None, _) \<Rightarrow> Some r
      | (Some (bmin, bsum, _), (mn, sm, _)) \<Rightarrow> if mn > bmin \<or> (mn = bmin \<and> sm > bsum) then Some r else best)"

primrec walk :: "nat list list \<Rightarrow> nat \<Rightarrow> nat \<Rightarrow> nat list \<Rightarrow> (nat \<times> nat \<times> nat list) option \<Rightarrow> (nat \<times> nat \<times> nat list) option" where
  "walk [] mn sm used best = take_better best (mn, sm, used)"
| "walk (row # rows) mn sm used best =
     foldl (\<lambda>b w. if row ! w = 0 \<or> w \<in> set used then b
                  else walk rows (min mn (row ! w)) (sm + row ! w) (used @ [w]) b)
       best [0..<length row]"

definition match_alias :: "string list \<Rightarrow> spellings list \<Rightarrow> alias_match option" where
  "match_alias tokens al =
     (if length tokens > length al then None
      else
        let levels = map (\<lambda>t. map (word_level t) al) tokens
        in map_option (\<lambda>(mn, sm, used).
             \<lparr>am_min = mn, am_sum = sm,
              am_complete = list_all (\<lambda>w. w \<in> set used \<or> hd (al ! w) \<in> set filler_words) [0..<length al],
              am_words = sort used\<rparr>)
           (walk levels 3 0 [] None))"

definition better :: "alias_match \<Rightarrow> alias_match \<Rightarrow> int" where
  "better a b =
     (if am_min a \<noteq> am_min b then int (am_min a) - int (am_min b)
      else if am_complete a \<noteq> am_complete b then if am_complete a then 1 else - 1
      else int (am_sum a) - int (am_sum b))"

section \<open>Lemmas: the distance\<close>

text \<open>The reference: the recursion of optimal string alignment, read from the end of the words.\<close>

fun alignment :: "'a list \<Rightarrow> 'a list \<Rightarrow> nat" where
  "alignment [] t = length t"
| "alignment (x # s) [] = length (x # s)"
| "alignment (x # s) (y # t) =
     (let m = min (min (alignment s (y # t) + 1) (alignment (x # s) t + 1)) (alignment s t + (if x = y then 0 else 1))
      in if s \<noteq> [] \<and> t \<noteq> [] \<and> x = hd t \<and> hd s = y then min m (alignment (tl s) (tl t) + 1) else m)"

lemma alignment_Nil2 [simp]: "alignment s [] = length s"
  by (cases s) simp_all

declare alignment.simps(3) [simp del]

text \<open>A table entry is within \<open>k\<close> exactly when one of its neighbours allows it.\<close>

lemma alignment_Cons_le:
  "alignment (x # s) (y # t) \<le> k \<longleftrightarrow>
     alignment s (y # t) + 1 \<le> k \<or> alignment (x # s) t + 1 \<le> k \<or> alignment s t + (if x = y then 0 else 1) \<le> k
     \<or> s \<noteq> [] \<and> t \<noteq> [] \<and> x = hd t \<and> hd s = y \<and> alignment (tl s) (tl t) + 1 \<le> k"
  unfolding alignment.simps(3) Let_def by (simp only: if_split_asm min_le_iff_disj split: if_split) blast

lemma alignment_eq_0 [simp]: "alignment s t = 0 \<longleftrightarrow> s = t"
proof (induction s t rule: alignment.induct)
  case (3 x s y t)
  from alignment_Cons_le [of x s y t 0] 3(3) show ?case by (auto split: if_splits)
qed auto

text \<open>One slip: a wrong letter, one too many, one missing, or two neighbours swapped.\<close>

inductive one_slip :: "'a list \<Rightarrow> 'a list \<Rightarrow> bool" where
  slip_none: "one_slip s s"
| slip_wrong: "one_slip (u @ x # v) (u @ y # v)"
| slip_extra: "one_slip (u @ x # v) (u @ v)"
| slip_missing: "one_slip (u @ v) (u @ x # v)"
| slip_swap: "one_slip (u @ x # y # v) (u @ y # x # v)"

lemma one_slip_Cons: "one_slip s t \<Longrightarrow> one_slip (x # s) (x # t)"
  by (induction rule: one_slip.induct) (metis append_Cons one_slip.intros)+

lemma one_slip_rev: "one_slip s t \<Longrightarrow> one_slip (rev s) (rev t)"
proof (induction rule: one_slip.induct)
  case (slip_swap u x y v)
  show ?case using one_slip.slip_swap [of "rev v" y x "rev u"] by simp
qed (use one_slip.intros in \<open>fastforce+\<close>)

lemma one_slip_heads:
  "one_slip (x # s) (y # t) \<longleftrightarrow>
     s = y # t \<or> x # s = t \<or> s = t \<or> x = y \<and> one_slip s t \<or> (\<exists>v. s = y # v \<and> t = x # v)"
  (is "?l \<longleftrightarrow> ?r")
proof
  assume ?l then show ?r
    by (cases rule: one_slip.cases) (auto simp: Cons_eq_append_conv intro: one_slip.intros)
next
  have hd: "one_slip (x # v) v" "one_slip v (y # v)" "one_slip (x # v) (y # v)" "one_slip (x # y # v) (y # x # v)" for v
    using slip_extra [of "[]" x v] slip_missing [of "[]" v y] slip_wrong [of "[]" x v y] slip_swap [of "[]" x y v]
    by simp_all
  assume ?r then show ?l by (auto intro: hd one_slip_Cons)
qed

lemma one_slip_Nil: "one_slip [] t \<longleftrightarrow> length t \<le> 1"
proof
  assume "one_slip [] t" then show "length t \<le> 1" by (cases rule: one_slip.cases) auto
next
  assume "length t \<le> 1"
  then show "one_slip [] t"
    using one_slip.slip_none [of "[]"] one_slip.slip_missing [of "[]" "[]"] by (cases t) auto
qed

lemma one_slip_Nil2: "one_slip s [] \<longleftrightarrow> length s \<le> 1"
proof
  assume "one_slip s []" then show "length s \<le> 1" by (cases rule: one_slip.cases) auto
next
  assume "length s \<le> 1"
  then show "one_slip s []"
    using one_slip.slip_none [of "[]"] one_slip.slip_extra [of "[]" _ "[]"] by (cases s) auto
qed

lemma alignment_le_1: "alignment s t \<le> 1 \<longleftrightarrow> one_slip s t"
proof (induction s t rule: alignment.induct)
  case (3 x s y t)
  have le1: "n + 1 \<le> 1 \<longleftrightarrow> n = 0" for n :: nat by simp
  have "alignment (x # s) (y # t) \<le> 1 \<longleftrightarrow> s = y # t \<or> x # s = t \<or> alignment s t + (if x = y then 0 else 1) \<le> 1
      \<or> s \<noteq> [] \<and> t \<noteq> [] \<and> x = hd t \<and> hd s = y \<and> tl s = tl t"
    by (simp only: alignment_Cons_le le1 alignment_eq_0)
  also have "alignment s t + (if x = y then 0 else 1) \<le> 1 \<longleftrightarrow> s = t \<or> x = y \<and> one_slip s t"
    using 3(3) slip_none by (cases "x = y") (auto simp: le1 simp del: One_nat_def)
  also have "s \<noteq> [] \<and> t \<noteq> [] \<and> x = hd t \<and> hd s = y \<and> tl s = tl t \<longleftrightarrow> (\<exists>v. s = y # v \<and> t = x # v)"
    by (cases s; cases t) auto
  finally show ?case unfolding one_slip_heads by blast
qed (simp_all add: one_slip_Nil one_slip_Nil2)

section \<open>Lemmas: the table\<close>

text \<open>The filled part of the table holds the distances of the beginnings.\<close>

definition dist_upto :: "string \<Rightarrow> string \<Rightarrow> nat \<Rightarrow> nat \<Rightarrow> nat" where
  "dist_upto a b i j = alignment (rev (take i a)) (rev (take j b))"

lemma upto_border: "j \<le> length b \<Longrightarrow> dist_upto a b 0 j = j" "i \<le> length a \<Longrightarrow> dist_upto a b i 0 = i"
  by (simp_all add: dist_upto_def)

lemma rev_take_Suc: "n < length xs \<Longrightarrow> rev (take (Suc n) xs) = xs ! n # rev (take n xs)"
  by (simp add: take_Suc_conv_app_nth)

lemma upto_cell:
  assumes "i < length a" "j < length b"
  shows "cell a b (dist_upto a b) (Suc i) (Suc j) = dist_upto a b (Suc i) (Suc j)"
proof -
  let ?A = "rev (take i a)" and ?B = "rev (take j b)"
  let ?m = "min (min (alignment ?A (b ! j # ?B) + 1) (alignment (a ! i # ?A) ?B + 1)) (alignment ?A ?B + (if a ! i = b ! j then 0 else 1))"
  have u: "dist_upto a b (Suc i) (Suc j) = alignment (a ! i # ?A) (b ! j # ?B)" "dist_upto a b i (Suc j) = alignment ?A (b ! j # ?B)"
    "dist_upto a b (Suc i) j = alignment (a ! i # ?A) ?B" "dist_upto a b i j = alignment ?A ?B"
    by (simp_all only: dist_upto_def rev_take_Suc assms)
  have t: "i > 0 \<and> j > 0 \<and> a ! i = b ! (j - 1) \<and> a ! (i - 1) = b ! j \<longleftrightarrow>
      ?A \<noteq> [] \<and> ?B \<noteq> [] \<and> a ! i = hd ?B \<and> hd ?A = b ! j" (is "?swap \<longleftrightarrow> ?swap'")
    using assms by (cases i; cases j) (auto simp: take_Suc_conv_app_nth)
  have d: "?swap' \<Longrightarrow> dist_upto a b (i - 1) (j - 1) = alignment (tl ?A) (tl ?B)"
    using assms by (cases i; cases j) (auto simp: dist_upto_def take_Suc_conv_app_nth)
  have "cell a b (dist_upto a b) (Suc i) (Suc j) = (if ?swap then min ?m (dist_upto a b (i - 1) (j - 1) + 1) else ?m)"
    by (simp add: cell_def Let_def u)
  also have "\<dots> = (if ?swap' then min ?m (alignment (tl ?A) (tl ?B) + 1) else ?m)"
  proof (cases ?swap')
    case True
    show ?thesis unfolding t if_P [OF True] d [OF True] ..
  next
    case False
    show ?thesis unfolding t if_not_P [OF False] ..
  qed
  also have "\<dots> = dist_upto a b (Suc i) (Suc j)" unfolding u(1) alignment.simps(3) Let_def ..
  finally show ?thesis .
qed

definition filled :: "string \<Rightarrow> string \<Rightarrow> nat \<Rightarrow> nat \<Rightarrow> (nat \<Rightarrow> nat \<Rightarrow> nat) \<Rightarrow> bool" where
  "filled a b n k d \<longleftrightarrow> (\<forall>i j. i \<le> length a \<longrightarrow> j \<le> length b \<longrightarrow> i < n \<or> j = 0 \<or> i = n \<and> j < k \<longrightarrow> d i j = dist_upto a b i j)"

lemma filled_cell:
  assumes "filled a b (Suc i) (Suc j) d" and "i < length a" "j < length b"
  shows "filled a b (Suc i) (Suc (Suc j)) (d(Suc i := (d (Suc i))(Suc j := cell a b d (Suc i) (Suc j))))"
proof -
  have f: "d p q = dist_upto a b p q"
    if "p \<le> length a" "q \<le> length b" "p < Suc i \<or> q = 0 \<or> p = Suc i \<and> q < Suc j" for p q
    using assms(1) that unfolding filled_def by blast
  have "d (Suc i - 1) (Suc j) = dist_upto a b (Suc i - 1) (Suc j)" "d (Suc i) (Suc j - 1) = dist_upto a b (Suc i) (Suc j - 1)"
    "d (Suc i - 1) (Suc j - 1) = dist_upto a b (Suc i - 1) (Suc j - 1)" "d (Suc i - 2) (Suc j - 2) = dist_upto a b (Suc i - 2) (Suc j - 2)"
    using assms(2,3) by (auto intro!: f)
  then have "cell a b d (Suc i) (Suc j) = cell a b (dist_upto a b) (Suc i) (Suc j)"
    by (simp only: cell_def)
  with upto_cell [OF assms(2,3)] have c: "cell a b d (Suc i) (Suc j) = dist_upto a b (Suc i) (Suc j)" by simp
  show ?thesis unfolding filled_def
  proof (intro allI impI)
    fix p q
    assume "p \<le> length a" "q \<le> length b" "p < Suc i \<or> q = 0 \<or> p = Suc i \<and> q < Suc (Suc j)"
    then show "(d(Suc i := (d (Suc i))(Suc j := cell a b d (Suc i) (Suc j)))) p q = dist_upto a b p q"
      using f [of p q] c by (cases "p = Suc i \<and> q = Suc j") auto
  qed
qed

lemma filled_row:
  assumes "filled a b (Suc i) 1 d" and "i < length a"
  shows "filled a b (Suc i) (Suc (length b)) (fill_row a b d (Suc i))"
proof -
  let ?f = "\<lambda>d j. d(Suc i := (d (Suc i))(j := cell a b d (Suc i) j))"
  have "filled a b (Suc i) (Suc k) (foldl ?f d [1..<Suc k])" if "k \<le> length b" for k
    using that
  proof (induction k)
    case (Suc k)
    have step: "foldl ?f d [1..<Suc (Suc k)] = ?f (foldl ?f d [1..<Suc k]) (Suc k)" by simp
    from Suc.prems have k: "k < length b" by simp
    from Suc.IH Suc.prems have "filled a b (Suc i) (Suc k) (foldl ?f d [1..<Suc k])" by (meson Suc_leD)
    from filled_cell [OF this assms(2) k] show ?case unfolding step .
  qed (use assms(1) in simp)
  from this [of "length b"] show ?thesis by (simp add: fill_row_def)
qed

lemma filled_next: "filled a b (Suc i) (Suc (length b)) d \<Longrightarrow> filled a b (Suc (Suc i)) 1 d"
  unfolding filled_def by (metis One_nat_def less_Suc_eq less_Suc_eq_le not_less_zero)

lemma filled_table:
  "k \<le> length a \<Longrightarrow> filled a b (Suc k) 1
     (foldl (fill_row a b) (\<lambda>i j. if j = 0 then i else if i = 0 then j else 0) [1..<k + 1])"
proof (induction k)
  case 0
  show ?case by (auto simp: filled_def upto_border)
next
  case (Suc k)
  then have "filled a b (Suc k) 1 (foldl (fill_row a b) (\<lambda>i j. if j = 0 then i else if i = 0 then j else 0) [1..<k + 1])"
    by simp
  from filled_next [OF filled_row [OF this]] Suc.prems show ?case by simp
qed

lemma edit_distance_alignment: "edit_distance a b = alignment (rev a) (rev b)"
  using filled_table [of "length a" a b] by (simp add: filled_def edit_distance_def dist_upto_def)

lemma edit_distance_le_1: "edit_distance a b \<le> 1 \<longleftrightarrow> one_slip a b"
  by (metis edit_distance_alignment alignment_le_1 one_slip_rev rev_rev_ident)

definition slip_ok :: "string \<Rightarrow> string \<Rightarrow> bool" where
  "slip_ok t sp \<longleftrightarrow> 4 \<le> length t \<and> \<not> all_digits t
     \<and> (one_slip t sp \<or> length t < length sp \<and> one_slip t (take (length t) sp))"

lemma word_level_from_step:
  "word_level_from best t (sp # rest) =
     (if sp = t then 3 else if 2 \<le> length t \<and> starts_with sp t then word_level_from 2 t rest
      else word_level_from (if best < 1 \<and> slip_ok t sp then 1 else best) t rest)"
  by (simp only: word_level_from.simps slip_ok_def edit_distance_le_1 Let_def) simp

lemma word_level_from_pos:
  "1 \<le> word_level_from best t w \<longleftrightarrow>
     1 \<le> best \<or> (\<exists>sp\<in>set w. sp = t \<or> 2 \<le> length t \<and> starts_with sp t \<or> slip_ok t sp)"
proof (induction w arbitrary: best)
  case (Cons sp rest)
  show ?case unfolding word_level_from_step by (simp add: Cons.IH [unfolded One_nat_def] del: word_level_from.simps) linarith
qed simp

lemma word_level_le_3: "best \<le> 3 \<Longrightarrow> word_level_from best t w \<le> 3"
  by (induction w arbitrary: best) (simp_all add: word_level_from_step del: word_level_from.simps(2))

section \<open>Lemmas: the search\<close>

fun places_from :: "nat list list \<Rightarrow> nat list \<Rightarrow> nat list \<Rightarrow> bool" where
  "places_from [] used ws = (ws = [])"
| "places_from (row # rows) used [] = False"
| "places_from (row # rows) used (w # ws) =
     (w < length row \<and> row ! w \<noteq> 0 \<and> w \<notin> set used \<and> places_from rows (used @ [w]) ws)"

fun score_from :: "nat \<Rightarrow> nat \<Rightarrow> nat list list \<Rightarrow> nat list \<Rightarrow> nat \<times> nat" where
  "score_from mn sm (row # rows) (w # ws) = score_from (min mn (row ! w)) (sm + row ! w) rows ws"
| "score_from mn sm _ _ = (mn, sm)"

definition score_le :: "nat \<times> nat \<Rightarrow> nat \<times> nat \<Rightarrow> bool" where
  "score_le a b \<longleftrightarrow> fst a < fst b \<or> fst a = fst b \<and> snd a \<le> snd b"

definition score_of :: "nat \<times> nat \<times> nat list \<Rightarrow> nat \<times> nat" where
  "score_of r = (fst r, fst (snd r))"

text \<open>\<open>r\<close> improves on \<open>best\<close> with what is in \<open>P\<close>: it is one of them and none is better.\<close>

definition best_of :: "(nat \<times> nat \<times> nat list \<Rightarrow> bool) \<Rightarrow> (nat \<times> nat \<times> nat list) option \<Rightarrow> (nat \<times> nat \<times> nat list) option \<Rightarrow> bool" where
  "best_of P best r \<longleftrightarrow> (r = best \<or> (\<exists>x. r = Some x \<and> P x))
     \<and> (\<forall>x. P x \<or> best = Some x \<longrightarrow> (\<exists>y. r = Some y \<and> score_le (score_of x) (score_of y)))"

lemma score_le_refl: "score_le a a" and score_le_trans: "score_le a b \<Longrightarrow> score_le b c \<Longrightarrow> score_le a c"
  by (auto simp: score_le_def)

lemma best_of_refl: "(\<And>x. \<not> P x) \<Longrightarrow> best_of P best best"
  by (auto simp: best_of_def score_le_refl)

lemma best_of_take: "best_of (\<lambda>x. x = r) best (take_better best r)"
  by (cases best; cases r) (auto simp: best_of_def take_better_def score_le_def score_of_def)

lemma best_of_trans:
  assumes 1: "best_of P a b" and 2: "best_of Q b c"
  shows "best_of (\<lambda>x. P x \<or> Q x) a c"
proof -
  have "\<exists>z. c = Some z \<and> score_le (score_of x) (score_of z)" if x: "(P x \<or> Q x) \<or> a = Some x" for x
  proof (cases "Q x")
    case True
    with 2 show ?thesis unfolding best_of_def by blast
  next
    case False
    with x 1 obtain y where y: "b = Some y" "score_le (score_of x) (score_of y)"
      unfolding best_of_def by blast
    from 2 y(1) obtain z where "c = Some z" "score_le (score_of y) (score_of z)" unfolding best_of_def by blast
    with y(2) show ?thesis by (blast intro: score_le_trans)
  qed
  moreover from 1 2 have "c = a \<or> (\<exists>x. c = Some x \<and> (P x \<or> Q x))" unfolding best_of_def by blast
  ultimately show ?thesis unfolding best_of_def by blast
qed

lemma best_of_cong: "best_of P a b \<Longrightarrow> (\<And>x. P x = Q x) \<Longrightarrow> best_of Q a b"
  by (simp add: best_of_def)

text \<open>The results the search ranges over.\<close>

definition results :: "nat list list \<Rightarrow> nat \<Rightarrow> nat \<Rightarrow> nat list \<Rightarrow> nat \<times> nat \<times> nat list \<Rightarrow> bool" where
  "results rows mn sm used x \<longleftrightarrow>
     (\<exists>ws. places_from rows used ws \<and> x = (fst (score_from mn sm rows ws), snd (score_from mn sm rows ws), used @ ws))"

lemma results_Cons:
  "results (row # rows) mn sm used x \<longleftrightarrow>
     (\<exists>w<length row. row ! w \<noteq> 0 \<and> w \<notin> set used \<and> results rows (min mn (row ! w)) (sm + row ! w) (used @ [w]) x)"
proof
  assume "results (row # rows) mn sm used x"
  then obtain ws where ws: "places_from (row # rows) used ws"
    "x = (fst (score_from mn sm (row # rows) ws), snd (score_from mn sm (row # rows) ws), used @ ws)"
    by (auto simp: results_def)
  then obtain w ws' where "ws = w # ws'" by (cases ws) auto
  with ws show "\<exists>w<length row. row ! w \<noteq> 0 \<and> w \<notin> set used \<and> results rows (min mn (row ! w)) (sm + row ! w) (used @ [w]) x"
    by (auto simp: results_def intro!: exI [of _ w])
next
  assume "\<exists>w<length row. row ! w \<noteq> 0 \<and> w \<notin> set used \<and> results rows (min mn (row ! w)) (sm + row ! w) (used @ [w]) x"
  then obtain w ws where "w < length row" "row ! w \<noteq> 0" "w \<notin> set used" "places_from rows (used @ [w]) ws"
    "x = (fst (score_from (min mn (row ! w)) (sm + row ! w) rows ws),
          snd (score_from (min mn (row ! w)) (sm + row ! w) rows ws), (used @ [w]) @ ws)"
    by (auto simp: results_def)
  then show "results (row # rows) mn sm used x"
    unfolding results_def by (intro exI [of _ "w # ws"]) simp
qed

lemma walk_best: "best_of (results rows mn sm used) best (walk rows mn sm used best)"
proof (induction rows arbitrary: mn sm used best)
  case Nil
  have "results [] mn sm used = (\<lambda>x. x = (mn, sm, used))" by (auto simp: results_def)
  then show ?case by (simp add: best_of_take)
next
  case (Cons row rows)
  let ?f = "\<lambda>b w. if row ! w = 0 \<or> w \<in> set used then b else walk rows (min mn (row ! w)) (sm + row ! w) (used @ [w]) b"
  let ?P = "\<lambda>w x. row ! w \<noteq> 0 \<and> w \<notin> set used \<and> results rows (min mn (row ! w)) (sm + row ! w) (used @ [w]) x"
  have step: "best_of (?P w) b (?f b w)" for b w
    by (cases "row ! w = 0 \<or> w \<in> set used") (auto intro: best_of_refl Cons.IH [THEN best_of_cong])
  have "best_of (\<lambda>x. \<exists>w\<in>set ws. ?P w x) b (foldl ?f b ws)" for b ws
  proof (induction ws rule: rev_induct)
    case Nil
    show ?case by (simp add: best_of_refl)
  next
    case (snoc w ws)
    have "best_of (\<lambda>x. (\<exists>w\<in>set ws. ?P w x) \<or> ?P w x) b (?f (foldl ?f b ws) w)"
      by (rule best_of_trans [OF snoc step])
    then show ?case by (auto elim!: best_of_cong)
  qed
  from this [of "[0..<length row]" best] show ?case
    by (simp add: atLeast0LessThan) (auto simp: results_Cons elim!: best_of_cong)
qed

text \<open>In terms of the words: every token on a word of its own that it matches.\<close>

definition places :: "string list \<Rightarrow> spellings list \<Rightarrow> nat list \<Rightarrow> bool" where
  "places tokens al ws \<longleftrightarrow> length ws = length tokens \<and> distinct ws
     \<and> (\<forall>k<length tokens. ws ! k < length al \<and> word_level (tokens ! k) (al ! (ws ! k)) \<noteq> 0)"

definition place_levels :: "string list \<Rightarrow> spellings list \<Rightarrow> nat list \<Rightarrow> nat list" where
  "place_levels tokens al ws = map2 (\<lambda>t w. word_level t (al ! w)) tokens ws"

lemma places_Cons:
  "places (t # ts) al (w # ws) \<longleftrightarrow> w < length al \<and> word_level t (al ! w) \<noteq> 0 \<and> w \<notin> set ws \<and> places ts al ws"
  by (auto simp: places_def nth_Cons less_Suc_eq_0_disj split: nat.split)

lemma places_from_iff:
  "places_from (map (\<lambda>t. map (word_level t) al) tokens) used ws \<longleftrightarrow> places tokens al ws \<and> set ws \<inter> set used = {}"
proof (induction tokens arbitrary: used ws)
  case Nil
  show ?case by (auto simp: places_def)
next
  case (Cons t tokens)
  show ?case
  proof (cases ws)
    case Nil
    then show ?thesis by (simp add: places_def)
  next
    case (Cons w ws')
    with Cons.IH show ?thesis by (auto simp: places_Cons)
  qed
qed

lemma score_from_levels:
  assumes "places tokens al ws"
  shows "score_from mn sm (map (\<lambda>t. map (word_level t) al) tokens) ws
         = (foldl min mn (place_levels tokens al ws), sm + sum_list (place_levels tokens al ws))"
  using assms
proof (induction tokens arbitrary: ws mn sm)
  case Nil
  then show ?case by (simp add: places_def place_levels_def)
next
  case (Cons t tokens)
  then obtain w ws' where "ws = w # ws'" by (cases ws) (auto simp: places_def)
  with Cons show ?case by (simp add: places_Cons place_levels_def)
qed

lemma places_shorter: "places tokens al ws \<Longrightarrow> length tokens \<le> length al"
proof -
  assume "places tokens al ws"
  then have "distinct ws" "set ws \<subseteq> {0..<length al}" "length ws = length tokens"
    by (auto simp: places_def in_set_conv_nth)
  then show ?thesis by (metis card_mono distinct_card finite_atLeastLessThan card_atLeastLessThan diff_zero)
qed

section \<open>Lemmas: folding\<close>

definition folds_to :: "char \<Rightarrow> string \<Rightarrow> bool" where
  "folds_to c s \<longleftrightarrow> s = [c] \<or> s \<in> {''ss'', ''a'', ''c'', ''e'', ''i'', ''n'', ''o'', ''u'', ''y''}"

lemma folds_to_if: "folds_to c s \<Longrightarrow> folds_to c t \<Longrightarrow> folds_to c (if b then s else t)"
  by simp

lemma folds_to_char: "folds_to c (fold_char c)"
  unfolding fold_char_def Let_def by (intro folds_to_if) (simp_all add: folds_to_def)

lemma folded_letters: "list_all (\<lambda>d. lower_char d = d \<and> fold_char d = [d]) ''saceinouy''"
  by (simp add: lower_char_def fold_char_def)

lemma fold_char_fixed: "d \<in> set (fold_char (lower_char c)) \<Longrightarrow> lower_char d = d \<and> fold_char d = [d]"
  using folds_to_char [of "lower_char c"] folded_letters unfolding folds_to_def by auto

lemma concat_singles: "(\<And>x. x \<in> set xs \<Longrightarrow> f x = [x]) \<Longrightarrow> concat (map f xs) = xs"
  by (induction xs) auto

section \<open>Properties\<close>

text \<open>
  C31. The search behind every name match finds the best one: a span of typed words matches a name exactly
  when every typed word can be put on a word of its own that it matches, the match returned is such a
  placing, and no other placing has a better weakest word, or as good a weakest word and a better sum.
\<close>

theorem match_is_the_best_placing:
  "(match_alias tokens al = None \<longleftrightarrow> (\<forall>ws. \<not> places tokens al ws)) \<and>
   (\<forall>m. match_alias tokens al = Some m \<longrightarrow>
      (\<exists>ws. places tokens al ws \<and> am_words m = sort ws \<and> am_min m = foldl min 3 (place_levels tokens al ws)
          \<and> am_sum m = sum_list (place_levels tokens al ws)) \<and>
      (\<forall>ws. places tokens al ws \<longrightarrow>
          score_le (foldl min 3 (place_levels tokens al ws), sum_list (place_levels tokens al ws)) (am_min m, am_sum m)))"
proof (cases "length tokens \<le> length al")
  case False
  then have "match_alias tokens al = None" by (simp add: match_alias_def)
  moreover from False have "\<not> places tokens al ws" for ws using places_shorter by blast
  ultimately show ?thesis by simp
next
  case True
  let ?levels = "map (\<lambda>t. map (word_level t) al) tokens"
  let ?score = "\<lambda>ws. (foldl min 3 (place_levels tokens al ws), sum_list (place_levels tokens al ws))"
  have res: "results ?levels 3 0 [] x \<longleftrightarrow> (\<exists>ws. places tokens al ws \<and> x = (fst (?score ws), snd (?score ws), ws))" for x
    by (auto simp: results_def places_from_iff score_from_levels)
  have best: "best_of (results ?levels 3 0 []) None (walk ?levels 3 0 [] None)" by (rule walk_best)
  show ?thesis
  proof (cases "walk ?levels 3 0 [] None")
    case None
    with best have "\<not> results ?levels 3 0 [] x" for x unfolding best_of_def by (metis option.distinct(1))
    with res have "\<not> places tokens al ws" for ws by blast
    with None True show ?thesis by (simp add: match_alias_def)
  next
    case (Some r)
    with best have "results ?levels 3 0 [] r" unfolding best_of_def by (metis option.distinct(1) option.inject)
    with res obtain ws where ws: "places tokens al ws" "r = (fst (?score ws), snd (?score ws), ws)" by blast
    have "score_le (?score ws') (?score ws)" if "places tokens al ws'" for ws'
    proof -
      from that have "results ?levels 3 0 [] (fst (?score ws'), snd (?score ws'), ws')" using res by blast
      with best Some have "score_le (score_of (fst (?score ws'), snd (?score ws'), ws')) (score_of r)"
        unfolding best_of_def by (metis option.inject)
      then show ?thesis by (simp add: score_of_def ws(2))
    qed
    moreover have "match_alias tokens al \<noteq> None" "\<And>m. match_alias tokens al = Some m \<Longrightarrow>
        am_words m = sort ws \<and> am_min m = fst (?score ws) \<and> am_sum m = snd (?score ws)"
      using True Some ws(2) by (auto simp: match_alias_def)
    ultimately show ?thesis using ws(1) by fastforce
  qed
qed

lemma match_is_the_best_placing_witness:
  "\<exists>ws. places [''a'', ''b''] [[''b''], [''a'']] ws \<and> sum_list (place_levels [''a'', ''b''] [[''b''], [''a'']] ws) = 6"
proof -
  have "match_alias [''a'', ''b''] [[''b''], [''a'']] =
      Some \<lparr>am_min = 3, am_sum = 6, am_complete = True, am_words = [0, 1]\<rparr>"
    by (simp add: match_alias_def word_level_def take_better_def upt_rec sort_key_def)
  with match_is_the_best_placing [of "[''a'', ''b'']" "[[''b''], [''a'']]"] show ?thesis
    by (metis alias_match.select_convs(2))
qed

text \<open>
  The allowance for typing errors is exactly one slip: a typed word matches a word of a name exactly
  when it is one of its spellings, a beginning of one from two letters on, or, from four letters on and
  unless it is a number, one slip away from a spelling or from its first letters; a slip is a wrong
  letter, one too many, one missing or two neighbours swapped.
\<close>

theorem typo_allowance_is_one_slip:
  "word_level t w \<noteq> 0 \<longleftrightarrow>
     (\<exists>sp\<in>set w. sp = t \<or> 2 \<le> length t \<and> starts_with sp t
        \<or> 4 \<le> length t \<and> \<not> all_digits t \<and> (one_slip t sp \<or> length t < length sp \<and> one_slip t (take (length t) sp)))"
  using word_level_from_pos [of 0 t w] by (simp add: word_level_def slip_ok_def Suc_le_eq)

text \<open>
  Folding is stable and ignores case: a folded word folds to itself, and two texts that differ only in
  case fold alike, so whatever spelling was stored or typed is compared in one form.
\<close>

theorem folding_is_stable:
  "fold_text (fold_text s) = fold_text s \<and> fold_text (js_lower s) = fold_text s"
proof
  have d: "\<forall>d\<in>set (fold_text s). lower_char d = d \<and> fold_char d = [d]"
    by (auto simp: fold_text_def js_lower_def dest: fold_char_fixed)
  then have "js_lower (fold_text s) = fold_text s" unfolding js_lower_def by (intro map_idI) blast
  with d show "fold_text (fold_text s) = fold_text s"
    unfolding fold_text_def [of "fold_text s"] by (metis concat_singles)
qed (simp add: fold_text_def)

end
