(* ===== verification/Dispatch.thy ===== *)
theory Dispatch
  imports DispatchMatch BoardTypes
begin

text \<open>
  Type-to-dispatch (\<^verbatim>\<open>frontend/lib/command-dispatch.ts\<close>): the vocabulary, its candidates, the parse of a
  typed line into tokens and a plan, and the completion of the word being typed. Numbers of incidents are
  natural. A token's fields that the code leaves undefined are \<open>None\<close> or \<open>False\<close>. Candidates are compared
  by their position in the list, the identity of the objects in the code.
\<close>

section \<open>Vocabulary\<close>

record dispatch_incident =
  di_id :: ident
  di_number :: nat
  di_label :: string
  di_type :: "string option"
  di_status :: incident_status
  di_priority :: priority

record resource_entry =
  re_id :: ident
  re_name :: string
  re_detail :: "string option"
  re_incidentIds :: "ident list option"

record vehicle_entry = resource_entry +
  ve_type :: "string option"
  ve_callSign :: "string option"
  ve_outOfService :: bool

record material_entry = resource_entry +
  me_outOfService :: bool
  me_available :: "bool option"

record dispatch_vocabulary =
  dv_incidents :: "dispatch_incident list"
  dv_persons :: "resource_entry list"
  dv_vehicles :: "vehicle_entry list"
  dv_materials :: "material_entry list"

datatype dispatch_kind = DkPerson | DkVehicle | DkMaterial

record dispatch_resource =
  dr_kind :: dispatch_kind
  dr_id :: ident
  dr_name :: string
  dr_detail :: "string option"
  dr_incidentIds :: "ident list"
  dr_outOfService :: bool

datatype dispatch_target =
    TResource dispatch_resource
  | TStatus incident_status
  | TPriority priority
  | TIncident dispatch_incident

definition acute :: "nat \<Rightarrow> string" where
  "acute n = [char_of n]"

definition status_phrases :: "(incident_status \<times> string list) list" where
  "status_phrases =
     [(Incoming, [''eingegangen'', ''eingang'', ''neu'', ''re'' @ acute 231 @ ''u'', ''nouveau'']),
      (Reko, [''reko'', ''reconnaissance'', ''reco'']),
      (RekoDone, [''reko abgeschlossen'', ''reko fertig'', ''rekofertig'', ''reko done'',
                  ''reconnaissance termin'' @ acute 233 @ ''e'', ''reco termin'' @ acute 233 @ ''e'']),
      (Enroute, [''disponiert'', ''anfahrt'', ''unterwegs'', ''engag'' @ acute 233, ''en route'']),
      (Active, [''im einsatz'', ''einsatz'', ''en intervention'', ''intervention'']),
      (Returning, [''beendet'', ''r'' @ acute 252 @ ''ckfahrt'', ''termin'' @ acute 233, ''retour'']),
      (Complete, [''abgeschlossen'', ''erledigt'', ''cl'' @ acute 244 @ ''tur'' @ acute 233, ''ferm'' @ acute 233])]"

definition priority_phrases :: "(priority \<times> string list) list" where
  "priority_phrases =
     [(High, [''hoch'', ''high'', ''dringend'', ''haute'', acute 233 @ ''lev'' @ acute 233 @ ''e'', ''urgent'']),
      (Medium, [''mittel'', ''normal'', ''medium'', ''moyenne'']),
      (Low, [''niedrig'', ''tief'', ''low'', ''basse'', ''faible''])]"

section \<open>Candidates\<close>

record candidate =
  cd_target :: dispatch_target
  cd_aliases :: "spellings list list"
  cd_spellings :: "string list"
  cd_bundle :: "string option"
  cd_available :: bool

fun status_slug :: "incident_status \<Rightarrow> string" where
  "status_slug s = status_word s"

fun priority_slug :: "priority \<Rightarrow> string" where
  "priority_slug High = ''high''"
| "priority_slug Medium = ''medium''"
| "priority_slug Low = ''low''"

fun kind_slug :: "dispatch_kind \<Rightarrow> string" where
  "kind_slug DkPerson = ''person''"
| "kind_slug DkVehicle = ''vehicle''"
| "kind_slug DkMaterial = ''material''"

fun target_key :: "dispatch_target \<Rightarrow> string" where
  "target_key (TStatus s) = ''status:'' @ status_slug s"
| "target_key (TPriority p) = ''priority:'' @ priority_slug p"
| "target_key (TIncident i) = ''incident:'' @ di_id i"
| "target_key (TResource r) = kind_slug (dr_kind r) @ '':'' @ dr_id r"

definition max_span :: nat where
  "max_span = 3"

text \<open>The address up to the first comma, or the number where that is no span.\<close>

definition incident_spelling :: "dispatch_incident \<Rightarrow> string" where
  "incident_spelling i =
     (let head = js_trim (takeWhile (\<lambda>c. c \<noteq> CHR '','') (di_label i));
          n = length (split_words head)
      in if n > 0 \<and> n \<le> max_span then head else show_nat (di_number i))"

definition person_candidate :: "resource_entry \<Rightarrow> candidate" where
  "person_candidate p =
     \<lparr>cd_target = TResource \<lparr>dr_kind = DkPerson, dr_id = re_id p, dr_name = re_name p, dr_detail = re_detail p,
        dr_incidentIds = nullish (re_incidentIds p) [], dr_outOfService = False\<rparr>,
      cd_aliases = [to_words (re_name p)], cd_spellings = [re_name p], cd_bundle = None, cd_available = False\<rparr>"

definition is_compact_sep :: "char \<Rightarrow> bool" where
  "is_compact_sep c = (is_space c \<or> c \<in> set ''-./'')"

text \<open>The names of a vehicle: as written, without its gaps, its type, its call sign; each with what the
  completion writes.\<close>

definition vehicle_names :: "vehicle_entry \<Rightarrow> (string \<times> string) list" where
  "vehicle_names v =
     (let compact = filter (\<lambda>c. \<not> is_compact_sep c) (re_name v)
      in [(re_name v, re_name v)]
         @ (if compact \<noteq> re_name v then [(compact, re_name v)] else [])
         @ (case or_null (ve_type v) of
              Some t \<Rightarrow> if fold_text t \<noteq> fold_text (re_name v) then [(t, t)] else []
            | None \<Rightarrow> [])
         @ (case or_null (ve_callSign v) of Some c \<Rightarrow> [(c, c)] | None \<Rightarrow> []))"

definition vehicle_candidate :: "vehicle_entry \<Rightarrow> candidate" where
  "vehicle_candidate v =
     \<lparr>cd_target = TResource \<lparr>dr_kind = DkVehicle, dr_id = re_id v, dr_name = re_name v, dr_detail = re_detail v,
        dr_incidentIds = nullish (re_incidentIds v) [], dr_outOfService = ve_outOfService v\<rparr>,
      cd_aliases = map (to_words \<circ> fst) (vehicle_names v), cd_spellings = map snd (vehicle_names v),
      cd_bundle = None, cd_available = False\<rparr>"

definition material_candidate :: "material_entry \<Rightarrow> candidate" where
  "material_candidate m =
     \<lparr>cd_target = TResource \<lparr>dr_kind = DkMaterial, dr_id = re_id m, dr_name = re_name m, dr_detail = re_detail m,
        dr_incidentIds = nullish (re_incidentIds m) [], dr_outOfService = me_outOfService m\<rparr>,
      cd_aliases = [to_words (re_name m)], cd_spellings = [re_name m], cd_bundle = Some (fold_text (re_name m)),
      cd_available = (me_available m \<noteq> Some False \<and> \<not> me_outOfService m)\<rparr>"

definition incident_candidate :: "dispatch_incident \<Rightarrow> candidate" where
  "incident_candidate i =
     (let al = to_words (di_label i) # (case or_null (di_type i) of Some t \<Rightarrow> [to_words t] | None \<Rightarrow> [])
      in \<lparr>cd_target = TIncident i, cd_aliases = al, cd_spellings = map (\<lambda>_. incident_spelling i) al,
          cd_bundle = None, cd_available = False\<rparr>)"

definition word_candidate :: "dispatch_target \<Rightarrow> string list \<Rightarrow> candidate" where
  "word_candidate t phrases =
     \<lparr>cd_target = t, cd_aliases = map to_words phrases, cd_spellings = phrases, cd_bundle = None, cd_available = False\<rparr>"

definition build_candidates :: "dispatch_vocabulary \<Rightarrow> candidate list" where
  "build_candidates v =
     map person_candidate (dv_persons v) @ map vehicle_candidate (dv_vehicles v)
     @ map material_candidate (dv_materials v) @ map incident_candidate (dv_incidents v)
     @ map (\<lambda>(s, ps). word_candidate (TStatus s) ps) status_phrases
     @ map (\<lambda>(p, ps). word_candidate (TPriority p) ps) priority_phrases"

section \<open>Ranking\<close>

record ranked =
  rk_index :: nat
  rk_candidate :: candidate
  rk_match :: alias_match

definition best_alias :: "string list \<Rightarrow> candidate \<Rightarrow> alias_match option" where
  "best_alias tokens c =
     foldl (\<lambda>best al. case match_alias tokens al of
              None \<Rightarrow> best
            | Some m \<Rightarrow> (case best of None \<Rightarrow> Some m | Some b \<Rightarrow> if better m b > 0 then Some m else best))
       None (cd_aliases c)"

definition is_incident_target :: "dispatch_target \<Rightarrow> bool" where
  "is_incident_target t = (case t of TIncident _ \<Rightarrow> True | _ \<Rightarrow> False)"

definition rank_one :: "string list \<Rightarrow> nat \<times> candidate \<Rightarrow> ranked option" where
  "rank_one tokens ic =
     (let c = snd ic
      in if list_all all_digits tokens \<and> is_incident_target (cd_target c) then None
         else case best_alias tokens c of
                None \<Rightarrow> None
              | Some m \<Rightarrow> if length tokens = 1 \<or> am_min m \<ge> 2
                  then Some \<lparr>rk_index = fst ic, rk_candidate = c, rk_match = m\<rparr> else None)"

definition rank_cmp :: "ranked \<Rightarrow> ranked \<Rightarrow> int" where
  "rank_cmp a b = better (rk_match b) (rk_match a)"

definition rank :: "string list \<Rightarrow> candidate list \<Rightarrow> ranked list" where
  "rank tokens cs = js_sort rank_cmp (List.map_filter (rank_one tokens) (List.enumerate 0 cs))"

datatype target_category = CatResource | CatWord | CatIncident

fun target_category_of :: "dispatch_target \<Rightarrow> target_category" where
  "target_category_of (TIncident _) = CatIncident"
| "target_category_of (TResource _) = CatResource"
| "target_category_of _ = CatWord"

text \<open>The equally best, and a whole word of another kind beside a whole word; identical devices are one.\<close>

definition top_entries :: "ranked list \<Rightarrow> ranked list" where
  "top_entries rs =
     (case rs of
        [] \<Rightarrow> []
      | best # _ \<Rightarrow>
          let top = filter (\<lambda>e. better (rk_match e) (rk_match best) = 0) rs
          in if am_min (rk_match best) = 3
             then foldl (\<lambda>t e. if rk_index e \<in> set (map rk_index t) \<or> am_min (rk_match e) \<noteq> 3 then t
                    else if target_category_of (cd_target (rk_candidate e))
                            \<noteq> target_category_of (cd_target (rk_candidate best)) then t @ [e] else t) top rs
             else top)"

definition top_tier :: "ranked list \<Rightarrow> ranked list" where
  "top_tier rs =
     (let top = top_entries rs; bundles = map (cd_bundle \<circ> rk_candidate) top
      in if length top > 1 \<and> length (remdups bundles) = 1 \<and> hd bundles \<noteq> None
         then [nullish (List.find (cd_available \<circ> rk_candidate) top) (hd top)]
         else top)"

section \<open>Tokens\<close>

record raw_token =
  rt_text :: string
  rt_folded :: string
  rt_start :: int
  rt_end :: int

definition is_separator :: "char \<Rightarrow> bool" where
  "is_separator c = (is_space c \<or> c \<in> set ''+>!,;'')"

text \<open>\<^verbatim>\<open>s.indexOf(sub, cursor)\<close>.\<close>

fun first_at :: "string \<Rightarrow> string \<Rightarrow> nat option" where
  "first_at sub [] = (if sub = [] then Some 0 else None)"
| "first_at sub (c # s) = (if starts_with (c # s) sub then Some 0 else map_option Suc (first_at sub s))"

definition index_of :: "string \<Rightarrow> string \<Rightarrow> int \<Rightarrow> int" where
  "index_of s sub cursor =
     (case first_at sub (drop (nat cursor) s) of None \<Rightarrow> - 1 | Some k \<Rightarrow> int (nat cursor) + int k)"

definition add_part :: "string \<Rightarrow> int \<times> raw_token list \<Rightarrow> string \<Rightarrow> int \<times> raw_token list" where
  "add_part input st part =
     (if part = [] then st
      else
        let start = index_of input part (fst st); stop = start + int (length part)
        in (stop, snd st @ [\<lparr>rt_text = part, rt_folded = fold_text part, rt_start = start, rt_end = stop\<rparr>]))"

definition tokenize :: "string \<Rightarrow> raw_token list" where
  "tokenize input = snd (foldl (add_part input) (0, []) (split_runs is_separator input))"

definition incident_number :: "raw_token \<Rightarrow> nat option" where
  "incident_number t =
     (let s = (case rt_folded t of c # cs \<Rightarrow> if c = CHR ''#'' then cs else c # cs | [] \<Rightarrow> [])
      in if all_digits s \<and> length s \<le> 6 then Some (read_digits 0 s) else None)"

datatype token_state = TkIncident | TkMatch | TkAmbiguous | TkUnknown | TkIgnored | TkFiller
datatype token_confirm = ConfirmTypo | ConfirmSplit
datatype name_word = NameFirst | NameLater

record dispatch_token =
  dt_text :: string
  dt_start :: int
  dt_end :: int
  dt_state :: token_state
  dt_target :: "dispatch_target option"
  dt_incident :: "dispatch_incident option"
  dt_choices :: "dispatch_target list"
  dt_pickKey :: string
  dt_exact :: bool
  dt_typo :: bool
  dt_picked :: bool
  dt_confirm :: "token_confirm option"
  dt_nameWord :: "name_word option"

definition new_token :: "string \<Rightarrow> int \<Rightarrow> int \<Rightarrow> token_state \<Rightarrow> string \<Rightarrow> dispatch_token" where
  "new_token txt from until st key =
     \<lparr>dt_text = txt, dt_start = from, dt_end = until, dt_state = st, dt_target = None, dt_incident = None,
      dt_choices = [], dt_pickKey = key, dt_exact = False, dt_typo = False, dt_picked = False,
      dt_confirm = None, dt_nameWord = None\<rparr>"

section \<open>Parsing\<close>

datatype dispatch_plan =
    PlanNone
  | PlanOpen dispatch_incident bool
  | PlanJump dispatch_resource bool
  | PlanDispatch dispatch_incident "(dispatch_resource \<times> bool \<times> nat list) list"
      "incident_status option" "priority option" bool
  | BlockedAmbiguous "dispatch_incident option"
  | BlockedUnknown nat
  | BlockedNeedsIncident

record parse_state =
  ps_tokens :: "dispatch_token list"
  ps_incident :: "dispatch_incident option"
  ps_loose :: bool

definition by_number :: "dispatch_vocabulary \<Rightarrow> nat \<Rightarrow> dispatch_incident list" where
  "by_number v n = filter (\<lambda>i. di_number i = n) (dv_incidents v)"

text \<open>\<open>None\<close>: no incident has the number, and nothing is taken.\<close>

definition take_incident :: "dispatch_vocabulary \<Rightarrow> raw_token \<Rightarrow> nat \<Rightarrow> parse_state \<Rightarrow> parse_state option" where
  "take_incident v r n st =
     (case by_number v n of
        [] \<Rightarrow> None
      | [i] \<Rightarrow> Some (st\<lparr>ps_tokens := ps_tokens st @ [(new_token (rt_text r) (rt_start r) (rt_end r) TkIncident
                 (CHR ''#'' # show_nat n))\<lparr>dt_incident := Some i\<rparr>], ps_incident := Some i\<rparr>)
      | _ \<Rightarrow> Some (st\<lparr>ps_tokens := ps_tokens st @ [new_token (rt_text r) (rt_start r) (rt_end r) TkAmbiguous
                 (CHR ''#'' # show_nat n)]\<rparr>))"

text \<open>The longest span, of at most three words, that matches anything; \<open>im\<close> and \<open>en\<close> alone are glue.\<close>

definition matching_span :: "candidate list \<Rightarrow> raw_token list \<Rightarrow> nat option" where
  "matching_span cs raw =
     List.find (\<lambda>n. \<not> (n = 1 \<and> rt_folded (hd raw) \<in> set filler_words) \<and> rank (map rt_folded (take n raw)) cs \<noteq> [])
       (rev [1..<min max_span (length raw) + 1])"

definition key_index :: "candidate list \<Rightarrow> string \<Rightarrow> nat option" where
  "key_index cs k = map_of (rev (map (\<lambda>(n, c). (target_key (cd_target c), n)) (List.enumerate 0 cs))) k"

definition picked_entry :: "candidate list \<Rightarrow> (string \<rightharpoonup> string) \<Rightarrow> string \<Rightarrow> ranked list \<Rightarrow> ranked option" where
  "picked_entry cs picks key rs =
     (case or_null (picks key) of
        None \<Rightarrow> None
      | Some k \<Rightarrow> (case key_index cs k of
                     None \<Rightarrow> None
                   | Some n \<Rightarrow> List.find (\<lambda>e. rk_index e = n) rs))"

definition chosen_entry :: "candidate list \<Rightarrow> (string \<rightharpoonup> string) \<Rightarrow> string \<Rightarrow> ranked list \<Rightarrow> ranked option" where
  "chosen_entry cs picks key rs =
     (case picked_entry cs picks key rs of
        Some e \<Rightarrow> Some e
      | None \<Rightarrow> (case top_tier rs of [e] \<Rightarrow> Some e | _ \<Rightarrow> None))"

definition is_person :: "dispatch_target \<Rightarrow> bool" where
  "is_person t = (case t of TResource r \<Rightarrow> dr_kind r = DkPerson | _ \<Rightarrow> False)"

text \<open>The token of a matching span.\<close>

definition chosen_token :: "dispatch_token \<Rightarrow> nat \<Rightarrow> bool \<Rightarrow> ranked \<Rightarrow> dispatch_token" where
  "chosen_token t n picked e =
     t\<lparr>dt_target := Some (cd_target (rk_candidate e)), dt_exact := (am_min (rk_match e) = 3),
       dt_typo := (am_min (rk_match e) = 1), dt_picked := picked,
       dt_nameWord := (if is_person (cd_target (rk_candidate e)) \<and> n = 1
                       then Some (if am_words (rk_match e) = [] \<or> hd (am_words (rk_match e)) \<noteq> 0 then NameLater else NameFirst)
                       else None)\<rparr>"

definition span_token :: "candidate list \<Rightarrow> (string \<rightharpoonup> string) \<Rightarrow> raw_token list \<Rightarrow> parse_state \<Rightarrow> parse_state" where
  "span_token cs picks sl st =
     (let key = str_join '' '' (map rt_folded sl);
          rs = rank (map rt_folded sl) cs;
          t = new_token (str_join '' '' (map rt_text sl)) (rt_start (hd sl)) (rt_end (last sl)) TkMatch key
      in case chosen_entry cs picks key rs of
           None \<Rightarrow> st\<lparr>ps_tokens := ps_tokens st @
             [t\<lparr>dt_state := TkAmbiguous, dt_choices := map (cd_target \<circ> rk_candidate) (take 8 (top_tier rs))\<rparr>]\<rparr>
         | Some e \<Rightarrow>
             let t1 = chosen_token t (length sl) (picked_entry cs picks key rs \<noteq> None) e
             in (case cd_target (rk_candidate e) of
                   TIncident i \<Rightarrow>
                     if dt_typo t1 \<and> \<not> dt_picked t1
                     then st\<lparr>ps_tokens := ps_tokens st @
                       [t1\<lparr>dt_state := TkAmbiguous, dt_confirm := Some ConfirmTypo, dt_choices := [TIncident i]\<rparr>]\<rparr>
                     else if ps_incident st = None
                     then st\<lparr>ps_tokens := ps_tokens st @ [t1\<lparr>dt_state := TkIncident, dt_incident := Some i\<rparr>],
                             ps_incident := Some i, ps_loose := (\<not> dt_exact t1 \<and> \<not> dt_picked t1)\<rparr>
                     else st\<lparr>ps_tokens := ps_tokens st @ [t1\<lparr>dt_state := TkIgnored\<rparr>]\<rparr>
                 | _ \<Rightarrow> st\<lparr>ps_tokens := ps_tokens st @ [t1]\<rparr>))"

text \<open>A word no candidate matches: a late number, glue, or unknown.\<close>

definition lone_token :: "dispatch_vocabulary \<Rightarrow> raw_token \<Rightarrow> parse_state \<Rightarrow> parse_state" where
  "lone_token v r st =
     (let plain = st\<lparr>ps_tokens := ps_tokens st @ [new_token (rt_text r) (rt_start r) (rt_end r)
                (if rt_folded r \<in> set filler_words then TkFiller else TkUnknown) (rt_folded r)]\<rparr>
      in case incident_number r of
           Some n \<Rightarrow> if ps_incident st = None
             then (case take_incident v r n st of Some st2 \<Rightarrow> st2 | None \<Rightarrow> plain) else plain
         | None \<Rightarrow> plain)"

lemma matching_spanD:
  assumes "matching_span cs raw = Some n"
  shows "1 \<le> n \<and> n \<le> length raw \<and> n \<le> max_span \<and> rank (map rt_folded (take n raw)) cs \<noteq> []"
proof -
  from assms [unfolded matching_span_def, THEN find_SomeD]
  have "n \<in> set (rev [1..<min max_span (length raw) + 1])" "rank (map rt_folded (take n raw)) cs \<noteq> []" by blast+
  then show ?thesis by auto
qed

function parse_words ::
  "dispatch_vocabulary \<Rightarrow> candidate list \<Rightarrow> (string \<rightharpoonup> string) \<Rightarrow> raw_token list \<Rightarrow> parse_state \<Rightarrow> parse_state" where
  "parse_words v cs picks [] st = st"
| "parse_words v cs picks (r # raw) st =
     (case matching_span cs (r # raw) of
        Some n \<Rightarrow> parse_words v cs picks (drop n (r # raw)) (span_token cs picks (take n (r # raw)) st)
      | None \<Rightarrow> parse_words v cs picks raw (lone_token v r st))"
  by pat_completeness auto
termination
  by (relation "measure (\<lambda>(v, cs, picks, raw, st). length raw)") (auto dest: matching_spanD)

declare parse_words.simps(2) [simp del]

section \<open>The plan\<close>

definition is_resource :: "dispatch_target option \<Rightarrow> bool" where
  "is_resource t = (case t of Some (TResource _) \<Rightarrow> True | _ \<Rightarrow> False)"

definition recognised :: "dispatch_token list \<Rightarrow> nat list" where
  "recognised ts = filter (\<lambda>k. dt_state (ts ! k) = TkMatch \<or> dt_state (ts ! k) = TkAmbiguous) [0..<length ts]"

definition any_ambiguous :: "dispatch_token list \<Rightarrow> bool" where
  "any_ambiguous ts = list_ex (\<lambda>t. dt_state t = TkAmbiguous) ts"

definition ask_token :: "token_confirm \<Rightarrow> dispatch_token \<Rightarrow> dispatch_token" where
  "ask_token why t = t\<lparr>dt_state := TkAmbiguous, dt_confirm := Some why,
     dt_choices := (case dt_target t of None \<Rightarrow> [] | Some x \<Rightarrow> [x])\<rparr>"

definition ask_typos :: "nat list \<Rightarrow> dispatch_token list \<Rightarrow> dispatch_token list" where
  "ask_typos ks ts =
     foldl (\<lambda>ts k. let t = ts ! k
                  in if is_resource (dt_target t) \<and> dt_typo t \<and> \<not> dt_picked t then ts[k := ask_token ConfirmTypo t] else ts) ts ks"

definition person_id :: "dispatch_target option \<Rightarrow> ident option" where
  "person_id t = (case t of Some (TResource r) \<Rightarrow> if dr_kind r = DkPerson then Some (dr_id r) else None | _ \<Rightarrow> None)"

text \<open>Two neighbouring words, a first name of one person and a surname of another, that may be one name.\<close>

definition split_pair :: "nat \<Rightarrow> nat \<Rightarrow> dispatch_token list \<Rightarrow> bool" where
  "split_pair k1 k2 ts =
     (let a = ts ! k1; b = ts ! k2
      in dt_state a = TkMatch \<and> dt_state b = TkMatch \<and> \<not> dt_picked a \<and> \<not> dt_picked b
         \<and> person_id (dt_target a) \<noteq> None \<and> person_id (dt_target b) \<noteq> None
         \<and> person_id (dt_target a) \<noteq> person_id (dt_target b)
         \<and> dt_nameWord a \<noteq> None \<and> dt_nameWord b \<noteq> None \<and> dt_nameWord a \<noteq> dt_nameWord b
         \<and> k2 = k1 + 1)"

definition ask_splits :: "nat list \<Rightarrow> dispatch_token list \<Rightarrow> dispatch_token list" where
  "ask_splits ks ts =
     foldl (\<lambda>ts (k1, k2).
        if split_pair k1 k2 ts
        then (ts[k1 := ask_token ConfirmSplit (ts ! k1)])[k2 := ask_token ConfirmSplit (ts ! k2)] else ts)
       ts (zip ks (tl ks))"

record plan_state =
  pl_tokens :: "dispatch_token list"
  pl_assign :: "(dispatch_resource \<times> bool \<times> nat list) list"
  pl_seen :: "string list"
  pl_status :: "(nat \<times> incident_status) option"
  pl_priority :: "(nat \<times> priority) option"

definition numbers_elsewhere :: "dispatch_vocabulary \<Rightarrow> dispatch_incident \<Rightarrow> ident list \<Rightarrow> nat list" where
  "numbers_elsewhere v i ids =
     js_sort (\<lambda>a b. int a - int b)
       (List.map_filter (map_of (rev (map (\<lambda>e. (di_id e, di_number e)) (dv_incidents v)))) (filter (\<lambda>x. x \<noteq> di_id i) ids))"

definition ignore_token :: "nat \<Rightarrow> dispatch_token list \<Rightarrow> dispatch_token list" where
  "ignore_token k ts = ts[k := (ts ! k)\<lparr>dt_state := TkIgnored\<rparr>]"

definition use_token :: "dispatch_vocabulary \<Rightarrow> dispatch_incident \<Rightarrow> plan_state \<Rightarrow> nat \<Rightarrow> plan_state" where
  "use_token v i p k =
     (case dt_target (pl_tokens p ! k) of
        Some (TResource r) \<Rightarrow>
          let key = target_key (TResource r)
          in if key \<in> set (pl_seen p) then p\<lparr>pl_tokens := ignore_token k (pl_tokens p)\<rparr>
             else p\<lparr>pl_seen := pl_seen p @ [key],
                    pl_assign := pl_assign p @ [(r, js_includes (dr_incidentIds r) (di_id i), numbers_elsewhere v i (dr_incidentIds r))]\<rparr>
      | Some (TStatus s) \<Rightarrow>
          p\<lparr>pl_tokens := (case pl_status p of None \<Rightarrow> pl_tokens p | Some (k0, _) \<Rightarrow> ignore_token k0 (pl_tokens p)),
            pl_status := Some (k, s)\<rparr>
      | Some (TPriority q) \<Rightarrow>
          p\<lparr>pl_tokens := (case pl_priority p of None \<Rightarrow> pl_tokens p | Some (k0, _) \<Rightarrow> ignore_token k0 (pl_tokens p)),
            pl_priority := Some (k, q)\<rparr>
      | _ \<Rightarrow> p)"

definition dispatch_on :: "dispatch_vocabulary \<Rightarrow> dispatch_incident \<Rightarrow> nat list \<Rightarrow> dispatch_token list \<Rightarrow> dispatch_plan \<times> dispatch_token list" where
  "dispatch_on v i ks ts =
     (let p = foldl (use_token v i) \<lparr>pl_tokens = ts, pl_assign = [], pl_seen = [], pl_status = None, pl_priority = None\<rparr> ks;
          st = (case pl_status p of None \<Rightarrow> None | Some (_, s) \<Rightarrow> if s \<noteq> di_status i then Some s else None);
          pr = (case pl_priority p of None \<Rightarrow> None | Some (_, q) \<Rightarrow> if q \<noteq> di_priority i then Some q else None)
      in (PlanDispatch i (pl_assign p) st pr
            (st = None \<and> pr = None \<and> list_all (\<lambda>(_, here, _). here) (pl_assign p)), pl_tokens p))"

definition make_plan ::
  "dispatch_token list \<Rightarrow> dispatch_incident option \<Rightarrow> bool \<Rightarrow> nat option \<Rightarrow> dispatch_vocabulary \<Rightarrow> dispatch_plan \<times> dispatch_token list" where
  "make_plan ts incident loose unknown v =
     (case unknown of
        Some n \<Rightarrow> (BlockedUnknown n, ts)
      | None \<Rightarrow>
          let ks = recognised ts
          in if any_ambiguous ts then (BlockedAmbiguous incident, ts)
             else case incident of
               None \<Rightarrow>
                 if ks = [] then (PlanNone, ts)
                 else (case ks of
                         [k] \<Rightarrow> (case dt_target (ts ! k) of
                                   Some (TResource r) \<Rightarrow> (PlanJump r (dt_exact (ts ! k)), ts)
                                 | _ \<Rightarrow> (BlockedNeedsIncident, ts))
                       | _ \<Rightarrow> (BlockedNeedsIncident, ts))
             | Some i \<Rightarrow>
                 if ks = [] then (PlanOpen i loose, ts)
                 else
                   let ts2 = ask_splits ks (ask_typos ks ts)
                   in if any_ambiguous ts2 then (BlockedAmbiguous (Some i), ts2)
                      else dispatch_on v i ks ts2)"

definition parse_dispatch ::
  "string \<Rightarrow> dispatch_vocabulary \<Rightarrow> (string \<rightharpoonup> string) \<Rightarrow> dispatch_plan \<times> dispatch_token list" where
  "parse_dispatch input v picks =
     (case tokenize input of
        [] \<Rightarrow> (PlanNone, [])
      | r # raw \<Rightarrow>
          let cs = build_candidates v;
              start = \<lparr>ps_tokens = [], ps_incident = None, ps_loose = False\<rparr>
          in case incident_number r of
               None \<Rightarrow>
                 (let st = parse_words v cs picks (r # raw) start
                  in make_plan (ps_tokens st) (ps_incident st) (ps_loose st) None v)
             | Some n \<Rightarrow>
                 (case take_incident v r n start of
                    Some st0 \<Rightarrow>
                      (let st = parse_words v cs picks raw st0
                       in make_plan (ps_tokens st) (ps_incident st) (ps_loose st) None v)
                  | None \<Rightarrow>
                      (let st = parse_words v cs picks raw (start\<lparr>ps_tokens :=
                           [new_token (rt_text r) (rt_start r) (rt_end r) TkUnknown (CHR ''#'' # show_nat n)]\<rparr>)
                       in make_plan (ps_tokens st) (ps_incident st) (ps_loose st) (Some n) v)))"

section \<open>Completion\<close>

record completion =
  cp_text :: string
  cp_label :: string
  cp_target :: dispatch_target
  cp_level :: nat
  cp_order :: int

definition beginning :: "string \<Rightarrow> spellings \<Rightarrow> nat" where
  "beginning token w =
     (if list_ex (\<lambda>sp. starts_with sp token) w then 2
      else if 4 \<le> length token \<and> word_level token w = 1 then 1 else 0)"

definition completes :: "string list \<Rightarrow> string \<Rightarrow> spellings list \<Rightarrow> nat" where
  "completes heads lst al =
     (if length heads + 1 > length al then 0
      else if heads \<noteq> [] then
        (case match_alias heads al of
           None \<Rightarrow> 0
         | Some m \<Rightarrow>
             if am_min m < 2 then 0
             else foldl (\<lambda>lv w. if w \<in> set (am_words m) then lv else max lv (beginning lst (al ! w))) 0 [0..<length al])
      else foldl (\<lambda>lv w. max lv (beginning lst w)) 0 al)"

text \<open>The best alias of a candidate for the completion: its level and its position.\<close>

definition best_completion :: "string list \<Rightarrow> string \<Rightarrow> candidate \<Rightarrow> (nat \<times> nat) option" where
  "best_completion heads lst c =
     foldl (\<lambda>best a. let lv = completes heads lst (cd_aliases c ! a)
                    in if lv > 0 \<and> (case best of None \<Rightarrow> True | Some (b, _) \<Rightarrow> lv > b) then Some (lv, a) else best)
       None [0..<length (cd_aliases c)]"

definition completion_order :: "bool \<Rightarrow> dispatch_target \<Rightarrow> int" where
  "completion_order hasIncident t =
     (case t of
        TIncident _ \<Rightarrow> if hasIncident then 3 else 0
      | TStatus _ \<Rightarrow> 2
      | TPriority _ \<Rightarrow> 2
      | TResource _ \<Rightarrow> 1)"

text \<open>The candidates of one span: \<open>None\<close> once the word turns out to be typed in full.\<close>

fun scan_completions ::
  "string \<Rightarrow> bool \<Rightarrow> string list \<Rightarrow> string \<Rightarrow> string \<Rightarrow> candidate list \<Rightarrow> completion list \<Rightarrow> completion list option" where
  "scan_completions lead hasIncident heads lst typed [] found = Some found"
| "scan_completions lead hasIncident heads lst typed (c # cs) found =
     (if hasIncident \<and> is_incident_target (cd_target c)
      then scan_completions lead hasIncident heads lst typed cs found
      else case best_completion heads lst c of
             None \<Rightarrow> scan_completions lead hasIncident heads lst typed cs found
           | Some (lv, a) \<Rightarrow>
               let label = cd_spellings c ! a; txt = lead @ label @ '' ''
               in if fold_text typed = fold_text label then None
                  else if txt \<in> set (map cp_text found)
                  then scan_completions lead hasIncident heads lst typed cs found
                  else scan_completions lead hasIncident heads lst typed cs
                         (found @ [\<lparr>cp_text = txt, cp_label = label, cp_target = cd_target c, cp_level = lv,
                                    cp_order = completion_order hasIncident (cd_target c)\<rparr>]))"

definition completion_cmp :: "(string \<Rightarrow> string \<Rightarrow> int) \<Rightarrow> completion \<Rightarrow> completion \<Rightarrow> int" where
  "completion_cmp collate a b =
     (if cp_level b \<noteq> cp_level a then int (cp_level b) - int (cp_level a)
      else if cp_order a \<noteq> cp_order b then cp_order a - cp_order b
      else collate (cp_label a) (cp_label b))"

fun complete_spans ::
  "(string \<Rightarrow> string \<Rightarrow> int) \<Rightarrow> string \<Rightarrow> dispatch_vocabulary \<Rightarrow> raw_token list \<Rightarrow> nat list \<Rightarrow> completion list" where
  "complete_spans collate input v raw [] = []"
| "complete_spans collate input v raw (n # ns) =
     (let sl = drop (length raw - n) raw;
          heads = map rt_folded (butlast sl); lst = rt_folded (last sl)
      in if list_ex (\<lambda>w. all_digits (case w of c # cs \<Rightarrow> if c = CHR ''#'' then cs else w | [] \<Rightarrow> w)) heads
         then complete_spans collate input v raw ns
         else if length lst < (if n > 1 then 1 else 2) then complete_spans collate input v raw ns
         else
           let lead = take (nat (rt_start (hd sl))) input;
               hasIncident = (js_trim lead \<noteq> [] \<and>
                 list_ex (\<lambda>t. dt_state t = TkIncident) (snd (parse_dispatch lead v Map.empty)))
           in case scan_completions lead hasIncident heads lst (str_join '' '' (map rt_text sl)) (build_candidates v) [] of
                None \<Rightarrow> []
              | Some [] \<Rightarrow> complete_spans collate input v raw ns
              | Some found \<Rightarrow> js_sort (completion_cmp collate) found)"

text \<open>\<open>collate\<close> is the engine's German string order.\<close>

definition complete_dispatch :: "(string \<Rightarrow> string \<Rightarrow> int) \<Rightarrow> string \<Rightarrow> dispatch_vocabulary \<Rightarrow> completion list" where
  "complete_dispatch collate input v =
     (if js_trim input = [] \<or> is_separator (last input) then []
      else
        let raw = tokenize input
        in if raw = [] \<or> incident_number (last raw) \<noteq> None then []
           else complete_spans collate input v raw (rev [1..<min max_span (length raw) + 1]))"

end
