(* ===== verification/DispatchSafety.thy ===== *)
theory DispatchSafety
  imports Dispatch
begin

text \<open>
  What a typed line can do: every matched word of the parse is a pick of the operator or the single answer
  of the ranking, the plan assigns nothing else, a leading number is the Einsatz, and the tokens are cut
  from the line.
\<close>

section \<open>Lemmas: ranking\<close>

lemma list3_cases:
  obtains (1) "xs = []" | (2) x where "xs = [x]" | (3) x y zs where "xs = x # y # zs"
  by (cases xs; cases "tl xs") auto

interpretation rank_order: js_comparator rank_cmp
  by unfold_locales (auto simp: rank_cmp_def better_def split: if_splits)

lemma rank_head_best:
  assumes "rank words cs = e # rest" and "e' \<in> set rest"
  shows "better (rk_match e') (rk_match e) \<le> 0"
proof -
  have "sorted_wrt (\<lambda>a b. rank_cmp a b \<le> 0) (rank words cs)" unfolding rank_def by (rule rank_order.sorted_sort_cmp)
  with assms show ?thesis by (simp add: rank_cmp_def)
qed

lemma rank_entry: "e \<in> set (rank words cs) \<Longrightarrow> rk_index e < length cs \<and> rk_candidate e = cs ! rk_index e"
  by (auto simp: rank_def rank_one_def Let_def List.map_filter_def in_set_enumerate_eq split: if_splits option.splits)

lemma fold_appends:
  "\<exists>ys. foldl (\<lambda>t e. if P t e then t else if Q t e then t @ [e] else t) tp xs = tp @ ys \<and> set ys \<subseteq> set xs"
proof (induction xs rule: rev_induct)
  case (snoc x xs)
  then obtain ys where "foldl (\<lambda>t e. if P t e then t else if Q t e then t @ [e] else t) tp xs = tp @ ys" "set ys \<subseteq> set xs"
    by blast
  then show ?case by (auto intro: exI [of _ ys] exI [of _ "ys @ [x]"])
qed simp

lemma better_refl [simp]: "better m m = 0"
  by (simp add: better_def)

lemma top_entries_head:
  "\<exists>ys. top_entries (best # rest) = best # filter (\<lambda>e. better (rk_match e) (rk_match best) = 0) rest @ ys
     \<and> set ys \<subseteq> set (best # rest)"
proof -
  let ?T = "filter (\<lambda>e. better (rk_match e) (rk_match best) = 0) (best # rest)"
  let ?P = "\<lambda>t e. rk_index e \<in> set (map rk_index t) \<or> am_min (rk_match e) \<noteq> 3"
  let ?Q = "\<lambda>t e. target_category_of (cd_target (rk_candidate e)) \<noteq> target_category_of (cd_target (rk_candidate best))"
  have "top_entries (best # rest) = (if am_min (rk_match best) = 3
      then foldl (\<lambda>t e. if ?P t e then t else if ?Q t e then t @ [e] else t) ?T (best # rest) else ?T)"
    by (simp only: top_entries_def list.case Let_def)
  moreover from fold_appends [of ?P ?Q ?T "best # rest"] obtain ys where
    "foldl (\<lambda>t e. if ?P t e then t else if ?Q t e then t @ [e] else t) ?T (best # rest) = ?T @ ys" "set ys \<subseteq> set (best # rest)"
    by (elim exE conjE)
  moreover have "?T = best # filter (\<lambda>e. better (rk_match e) (rk_match best) = 0) rest" by simp
  ultimately show ?thesis
    by (cases "am_min (rk_match best) = 3") (auto intro: exI [of _ ys] exI [of _ "[]"])
qed

lemma remdups_single: "length (remdups xs) = 1 \<Longrightarrow> x \<in> set xs \<Longrightarrow> x = hd xs"
proof -
  assume 1: "length (remdups xs) = 1" "x \<in> set xs"
  then have "card (set xs) = 1" by (simp add: length_remdups_card_conv)
  moreover from 1(2) have "hd xs \<in> set xs" by (cases xs) auto
  ultimately show ?thesis using 1(2) by (metis card_1_singletonE singletonD)
qed

lemma found_or_head: "length xs > 1 \<Longrightarrow> nullish (List.find P xs) (hd xs) \<in> set xs"
  by (cases "List.find P xs") (auto dest: find_SomeD intro: hd_in_set)

text \<open>One answer that is no device: the best entry, and nothing else is as good.\<close>

lemma top_tier_single:
  assumes "top_tier rs = [e]" and "cd_bundle (rk_candidate e) = None"
  shows "\<exists>rest. rs = e # rest \<and> (\<forall>e'\<in>set rest. better (rk_match e') (rk_match e) \<noteq> 0)"
proof -
  let ?top = "top_entries rs" and ?b = "map (cd_bundle \<circ> rk_candidate) (top_entries rs)"
  have "?top = [e]"
  proof (cases "length ?top > 1 \<and> length (remdups ?b) = 1 \<and> hd ?b \<noteq> None")
    case False
    with assms(1) show ?thesis by (simp add: top_tier_def Let_def split: if_splits)
  next
    case True
    with assms(1) have e: "e = nullish (List.find (cd_available \<circ> rk_candidate) ?top) (hd ?top)"
      by (simp add: top_tier_def Let_def)
    have "e \<in> set ?top"
      unfolding e using True by (blast intro: found_or_head)
    then have "cd_bundle (rk_candidate e) \<in> set ?b" by simp
    then have "cd_bundle (rk_candidate e) = hd ?b" by (rule remdups_single [OF conjunct1 [OF conjunct2 [OF True]]])
    then show ?thesis using True assms(2) by (elim conjE) (simp only: not_None_eq, blast)
  qed
  then obtain best rest where rs: "rs = best # rest" by (cases rs) (auto simp: top_entries_def)
  from top_entries_head [of best rest] obtain ys where
    "top_entries rs = best # filter (\<lambda>x. better (rk_match x) (rk_match best) = 0) rest @ ys" unfolding rs by blast
  then have "best = e" "filter (\<lambda>x. better (rk_match x) (rk_match best) = 0) rest = []"
    unfolding \<open>?top = [e]\<close> by simp_all
  then show ?thesis by (auto simp: rs filter_empty_conv)
qed

lemma top_entries_subset: "set (top_entries rs) \<subseteq> set rs"
proof (cases rs)
  case (Cons best rest)
  with top_entries_head [of best rest] show ?thesis by auto
qed (simp add: top_entries_def)

lemma top_tier_subset: "set (top_tier rs) \<subseteq> set rs"
  using top_entries_subset [of rs] found_or_head [of "top_entries rs"] by (auto simp: top_tier_def Let_def)

section \<open>Lemmas: tokens of the parse\<close>

lemma key_index_SomeD: "key_index cs k = Some n \<Longrightarrow> n < length cs \<and> target_key (cd_target (cs ! n)) = k"
  by (auto simp: key_index_def in_set_enumerate_eq dest!: map_of_SomeD)

lemma picked_entry_SomeD:
  assumes "picked_entry cs picks key (rank words cs) = Some e"
  shows "e \<in> set (rank words cs) \<and> picks key = Some (target_key (cd_target (rk_candidate e)))"
proof -
  from assms obtain k n where k: "or_null (picks key) = Some k" "key_index cs k = Some n"
    "List.find (\<lambda>e. rk_index e = n) (rank words cs) = Some e"
    by (auto simp: picked_entry_def split: option.splits)
  from find_SomeD [OF k(3)] rank_entry key_index_SomeD [OF k(2)] k(1) show ?thesis
    by (auto simp: or_null_def split: option.splits if_splits)
qed

text \<open>A matched token: the operator picked its target, or it is the single answer of the ranking.\<close>

definition sure_token :: "candidate list \<Rightarrow> (string \<rightharpoonup> string) \<Rightarrow> dispatch_token \<Rightarrow> bool" where
  "sure_token cs picks t \<longleftrightarrow> (dt_state t = TkMatch \<longrightarrow>
     (\<exists>words. \<exists>e\<in>set (rank words cs). dt_target t = Some (cd_target (rk_candidate e))
        \<and> (dt_typo t \<longleftrightarrow> am_min (rk_match e) = 1)
        \<and> (if dt_picked t then picks (str_join '' '' words) = Some (target_key (cd_target (rk_candidate e)))
           else top_tier (rank words cs) = [e])))"

lemma sure_unmatched: "dt_state t \<noteq> TkMatch \<Longrightarrow> sure_token cs picks t"
  by (simp add: sure_token_def)

lemma span_token_sure:
  assumes "\<forall>t\<in>set (ps_tokens st). sure_token cs picks t"
  shows "\<forall>t\<in>set (ps_tokens (span_token cs picks sl st)). sure_token cs picks t"
proof (cases "chosen_entry cs picks (str_join '' '' (map rt_folded sl)) (rank (map rt_folded sl) cs)")
  case None
  with assms show ?thesis by (auto simp: span_token_def Let_def intro: sure_unmatched)
next
  case (Some e)
  let ?key = "str_join '' '' (map rt_folded sl)" and ?rs = "rank (map rt_folded sl) cs"
  let ?p = "picked_entry cs picks ?key ?rs"
  let ?t = "chosen_token (new_token (str_join '' '' (map rt_text sl)) (rt_start (hd sl)) (rt_end (last sl)) TkMatch ?key)
      (length sl) (?p \<noteq> None) e"
  have "sure_token cs picks ?t"
  proof (cases ?p)
    case None
    with Some have "top_tier ?rs = [e]" by (auto simp: chosen_entry_def split: list.splits)
    moreover from this top_tier_subset [of ?rs] have "e \<in> set ?rs" by simp
    ultimately show ?thesis using None by (auto simp: sure_token_def chosen_token_def intro!: exI [of _ "map rt_folded sl"] bexI [of _ e])
  next
    case (Some e2)
    with \<open>chosen_entry cs picks ?key ?rs = Some e\<close> have "e2 = e" by (simp add: chosen_entry_def)
    with picked_entry_SomeD [OF Some] Some show ?thesis
      by (auto simp: sure_token_def chosen_token_def intro!: exI [of _ "map rt_folded sl"] bexI [of _ e])
  qed
  with assms show ?thesis
    by (auto simp: span_token_def Let_def Some intro: sure_unmatched split: dispatch_target.splits if_splits)
qed

lemma take_incident_token:
  "take_incident v r n st = Some st2 \<Longrightarrow> \<exists>t. ps_tokens st2 = ps_tokens st @ [t] \<and> dt_state t \<noteq> TkMatch"
  by (auto simp: take_incident_def new_token_def split: list.splits)

lemma lone_token_token:
  "\<exists>t. ps_tokens (lone_token v r st) = ps_tokens st @ [t] \<and> dt_state t \<noteq> TkMatch"
proof -
  let ?plain = "st\<lparr>ps_tokens := ps_tokens st @ [new_token (rt_text r) (rt_start r) (rt_end r)
                (if rt_folded r \<in> set filler_words then TkFiller else TkUnknown) (rt_folded r)]\<rparr>"
  have "lone_token v r st = ?plain \<or> (\<exists>n. take_incident v r n st = Some (lone_token v r st))"
    by (auto simp: lone_token_def Let_def split: option.split)
  moreover have "\<exists>t. ps_tokens ?plain = ps_tokens st @ [t] \<and> dt_state t \<noteq> TkMatch"
    by (simp add: new_token_def)
  ultimately show ?thesis using take_incident_token by metis
qed

lemma lone_token_sure:
  assumes "\<forall>t\<in>set (ps_tokens st). sure_token cs picks t"
  shows "\<forall>t\<in>set (ps_tokens (lone_token v r st)). sure_token cs picks t"
proof -
  from lone_token_token [of v r st] obtain t where t: "ps_tokens (lone_token v r st) = ps_tokens st @ [t]" "dt_state t \<noteq> TkMatch"
    by blast
  from sure_unmatched [OF t(2)] assms show ?thesis unfolding t(1) by simp
qed

lemma parse_words_sure:
  "\<forall>t\<in>set (ps_tokens st). sure_token cs picks t \<Longrightarrow>
     \<forall>t\<in>set (ps_tokens (parse_words v cs picks raw st)). sure_token cs picks t"
proof (induction v cs picks raw st rule: parse_words.induct)
  case (2 v cs picks r raw st)
  show ?case
  proof (cases "matching_span cs (r # raw)")
    case None
    show ?thesis
      unfolding parse_words.simps(2) None option.case by (rule 2(1) [OF None lone_token_sure [OF 2(3)]])
  next
    case (Some n)
    show ?thesis
      unfolding parse_words.simps(2) Some option.case by (rule 2(2) [OF Some span_token_sure [OF 2(3)]])
  qed
qed simp

text \<open>The Einsatz of the line, once found, stays; tokens are only appended.\<close>

lemma span_token_keeps:
  "ps_incident st = Some i \<Longrightarrow> ps_incident (span_token cs picks sl st) = Some i"
  "ps_incident st = Some i \<Longrightarrow> ps_loose (span_token cs picks sl st) = ps_loose st"
  "\<exists>ys. ps_tokens (span_token cs picks sl st) = ps_tokens st @ ys"
  by (simp_all add: span_token_def Let_def split: option.split dispatch_target.split)

lemma lone_token_keeps:
  "ps_incident st = Some i \<Longrightarrow> ps_incident (lone_token v r st) = Some i"
  "ps_incident st = Some i \<Longrightarrow> ps_loose (lone_token v r st) = ps_loose st"
  "\<exists>ys. ps_tokens (lone_token v r st) = ps_tokens st @ ys"
  using lone_token_token [of v r st] by (auto simp: lone_token_def Let_def split: option.split)

lemma parse_words_keeps:
  "(ps_incident st = Some i \<longrightarrow> ps_incident (parse_words v cs picks raw st) = Some i
      \<and> ps_loose (parse_words v cs picks raw st) = ps_loose st)
   \<and> (\<exists>ys. ps_tokens (parse_words v cs picks raw st) = ps_tokens st @ ys)"
proof (induction v cs picks raw st rule: parse_words.induct)
  case (2 v cs picks r raw st)
  show ?case
  proof (cases "matching_span cs (r # raw)")
    case None
    with 2(1) [OF None] lone_token_keeps [where st = st] show ?thesis
      by (simp add: parse_words.simps(2)) (metis append.assoc)
  next
    case (Some n)
    with 2(2) [OF Some] span_token_keeps [where st = st] show ?thesis
      by (simp add: parse_words.simps(2)) (metis append.assoc)
  qed
qed simp

section \<open>Lemmas: the questions a plan asks\<close>

definition only_asked :: "dispatch_token list \<Rightarrow> dispatch_token list \<Rightarrow> bool" where
  "only_asked ts ts' \<longleftrightarrow> length ts' = length ts \<and> (\<forall>j<length ts. ts' ! j = ts ! j \<or> (\<exists>w. ts' ! j = ask_token w (ts ! j)))"

lemma ask_token_again [simp]: "ask_token w (ask_token w' t) = ask_token w t"
  by (simp add: ask_token_def)

lemma ask_token_state [simp]: "dt_state (ask_token w t) = TkAmbiguous"
  by (simp add: ask_token_def)

lemma asked_refl [simp]: "only_asked ts ts"
  by (simp add: only_asked_def)

lemma asked_update: "only_asked ts (ts[k := ask_token w (ts ! k)])"
  unfolding only_asked_def by (metis length_list_update nth_list_update_eq nth_list_update_neq)

lemma asked_trans: "only_asked a b \<Longrightarrow> only_asked b c \<Longrightarrow> only_asked a c"
  unfolding only_asked_def by (metis ask_token_again)

lemma asked_foldl: "(\<And>ts x. only_asked ts (f ts x)) \<Longrightarrow> only_asked ts (foldl f ts xs)"
  by (induction xs arbitrary: ts) (auto intro: asked_trans)

lemma any_ambiguous_nth: "any_ambiguous ts \<longleftrightarrow> (\<exists>j<length ts. dt_state (ts ! j) = TkAmbiguous)"
  unfolding any_ambiguous_def list_ex_iff by (metis in_set_conv_nth)

lemma asked_keeps: "only_asked a b \<Longrightarrow> any_ambiguous a \<Longrightarrow> any_ambiguous b"
  unfolding only_asked_def any_ambiguous_nth by (metis ask_token_state)

lemma asked_same: "only_asked a b \<Longrightarrow> \<not> any_ambiguous b \<Longrightarrow> b = a"
  unfolding only_asked_def any_ambiguous_nth by (intro nth_equalityI) (auto, metis ask_token_state)

lemma asked_typos: "only_asked ts (ask_typos ks ts)"
  unfolding ask_typos_def by (rule asked_foldl) (simp add: Let_def asked_update)

lemma asked_splits: "only_asked ts (ask_splits ks ts)"
proof -
  have "only_asked ts ((ts[k1 := ask_token ConfirmSplit (ts ! k1)])[k2 := ask_token ConfirmSplit (ts ! k2)])" for ts k1 k2
    unfolding only_asked_def by (metis length_list_update nth_list_update_eq nth_list_update_neq)
  then show ?thesis unfolding ask_splits_def by (intro asked_foldl) (simp split: prod.split)
qed

text \<open>A plan that went through only_asked nothing, so no unpicked resource of it was found through a typo.\<close>

lemma no_question_no_typo:
  assumes "\<not> any_ambiguous (ask_typos ks ts)" and k: "k \<in> set ks" "k < length ts"
    and typo: "is_resource (dt_target (ts ! k))" "dt_typo (ts ! k)" "\<not> dt_picked (ts ! k)"
  shows False
proof -
  let ?f = "\<lambda>ts k. let t = ts ! k
      in if is_resource (dt_target t) \<and> dt_typo t \<and> \<not> dt_picked t then ts[k := ask_token ConfirmTypo t] else ts"
  have step: "only_asked ts (?f ts x)" for ts x by (simp add: Let_def asked_update)
  from split_list [OF k(1)] obtain as bs where ks: "ks = as @ k # bs" by blast
  let ?a = "foldl ?f ts as"
  have fin: "ask_typos ks ts = foldl ?f (?f ?a k) bs" by (simp add: ask_typos_def ks)
  have "only_asked (?f ?a k) (ask_typos ks ts)" unfolding fin by (rule asked_foldl [OF step])
  with assms(1) asked_keeps have no: "\<not> any_ambiguous (?f ?a k)" by blast
  have "only_asked ts (?f ?a k)" by (rule asked_trans [OF asked_foldl [OF step] step])
  from asked_same [OF this no] have same: "?f ?a k = ts" .
  from no asked_keeps [OF step] have "\<not> any_ambiguous ?a" by blast
  then have a: "?a = ts" by (rule asked_same [OF asked_foldl [OF step]])
  have "?f ts k = ts" using same unfolding a .
  with typo have "ts[k := ask_token ConfirmTypo (ts ! k)] = ts" by (simp add: Let_def)
  then have "ts ! k = ask_token ConfirmTypo (ts ! k)" using k(2) by (metis nth_list_update_eq)
  then have "dt_state (ts ! k) = TkAmbiguous" by (metis ask_token_state)
  with k(2) have "any_ambiguous ts" by (auto simp: any_ambiguous_nth)
  with assms(1) asked_keeps [OF asked_typos] show False by blast
qed

lemma use_tokens_assign:
  assumes "(r, here, nums) \<in> set (pl_assign (foldl (use_token v i) p ks))"
    and "map dt_target (pl_tokens p) = map dt_target ts" and "set ks \<subseteq> {..<length ts}"
  shows "(r, here, nums) \<in> set (pl_assign p) \<or> (\<exists>k\<in>set ks. dt_target (ts ! k) = Some (TResource r))"
  using assms
proof (induction ks arbitrary: p)
  case (Cons k ks)
  from Cons.prems have k: "k < length ts" by simp
  from Cons.prems(2) have len: "length (pl_tokens p) = length ts" by (rule map_eq_imp_length_eq)
  with k Cons.prems(2) have t: "dt_target (pl_tokens p ! k) = dt_target (ts ! k)"
    by (metis nth_map)
  have ig: "map dt_target (ignore_token k0 xs) = map dt_target xs" for k0 xs
    by (simp add: ignore_token_def map_update) (metis list_update_beyond list_update_id map_update not_le nth_map length_map)
  have "map dt_target (pl_tokens (use_token v i p k)) = map dt_target ts"
    using Cons.prems(2) ig by (simp add: use_token_def Let_def split: option.split dispatch_target.split prod.split)
  from Cons.IH [OF _ this] Cons.prems(1,3)
  have "(r, here, nums) \<in> set (pl_assign (use_token v i p k)) \<or> (\<exists>k\<in>set ks. dt_target (ts ! k) = Some (TResource r))"
    by simp
  moreover have "(r, here, nums) \<in> set (pl_assign (use_token v i p k)) \<Longrightarrow>
      (r, here, nums) \<in> set (pl_assign p) \<or> dt_target (ts ! k) = Some (TResource r)"
    unfolding t [symmetric] by (auto simp: use_token_def Let_def split: option.splits dispatch_target.splits if_splits)
  ultimately show ?case by auto
qed simp

lemma build_candidates_bundle:
  assumes "c \<in> set (build_candidates v)" and "cd_target c = TResource r" and "dr_kind r \<noteq> DkMaterial"
  shows "cd_bundle c = None"
  using assms by (auto simp: build_candidates_def person_candidate_def vehicle_candidate_def material_candidate_def
      incident_candidate_def word_candidate_def Let_def)

lemma rank_candidate_in: "e \<in> set (rank words cs) \<Longrightarrow> rk_candidate e \<in> set cs"
  using rank_entry by fastforce

text \<open>The only plan that assigns comes from recognised, unasked tokens.\<close>

lemma make_plan_assigns:
  assumes plan: "fst (make_plan ts inc loose unk v) = PlanDispatch i assign st pr noop" and r: "(r, here, nums) \<in> set assign"
  shows "\<exists>t\<in>set ts. dt_state t = TkMatch \<and> dt_target t = Some (TResource r) \<and> (dt_typo t \<longrightarrow> dt_picked t)"
proof -
  let ?ks = "recognised ts" and ?ts2 = "ask_splits (recognised ts) (ask_typos (recognised ts) ts)"
  from plan have unk: "unk = None" "\<not> any_ambiguous ts" "inc \<noteq> None" "\<not> any_ambiguous ?ts2" "?ks \<noteq> []"
    by (auto simp: make_plan_def Let_def split: option.splits if_splits list.splits dispatch_target.splits)
  then obtain j where j: "inc = Some j" by blast
  have D: "PlanDispatch i assign st pr noop = fst (dispatch_on v j ?ks ?ts2)"
    using plan unk by (simp add: make_plan_def Let_def j)
  have no: "\<not> any_ambiguous (ask_typos ?ks ts)" using unk(4) asked_keeps [OF asked_splits] by blast
  have same: "?ts2 = ts"
    by (rule asked_same [OF asked_trans [OF asked_typos asked_splits] unk(4)])
  have ks: "set ?ks \<subseteq> {..<length ts}" by (auto simp: recognised_def)
  from D r have "(r, here, nums) \<in> set (pl_assign (foldl (use_token v j)
      \<lparr>pl_tokens = ts, pl_assign = [], pl_seen = [], pl_status = None, pl_priority = None\<rparr> ?ks))"
    by (simp add: dispatch_on_def Let_def same)
  from use_tokens_assign [OF this _ ks] obtain k where k: "k \<in> set ?ks" "dt_target (ts ! k) = Some (TResource r)" by auto
  from k(1) ks have len: "k < length ts" by auto
  from k(1) unk(2) len have "dt_state (ts ! k) = TkMatch" by (auto simp: recognised_def any_ambiguous_nth)
  moreover have "dt_typo (ts ! k) \<longrightarrow> dt_picked (ts ! k)"
    using no_question_no_typo [OF no k(1) len] k(2) by (auto simp: is_resource_def)
  ultimately show ?thesis using len k(2) by (metis nth_mem)
qed

lemma parse_dispatch_plan:
  assumes "fst (parse_dispatch input v picks) = PlanDispatch i assign st pr noop"
  shows "\<exists>ts inc loose. fst (make_plan ts inc loose None v) = PlanDispatch i assign st pr noop
     \<and> (\<forall>t\<in>set ts. sure_token (build_candidates v) picks t)"
proof (cases "tokenize input")
  case (Cons r raw)
  let ?cs = "build_candidates v" and ?start = "\<lparr>ps_tokens = [], ps_incident = None, ps_loose = False\<rparr>"
  have ok: "\<forall>t\<in>set (ps_tokens (parse_words v ?cs picks raw s)). sure_token ?cs picks t"
    if "ps_tokens s = [] \<or> (\<exists>t. ps_tokens s = [t] \<and> dt_state t \<noteq> TkMatch)" for raw s
    by (rule parse_words_sure) (use that in \<open>auto intro: sure_unmatched\<close>)
  show ?thesis
  proof (cases "incident_number r")
    case None
    with assms ok [of ?start "r # raw"] show ?thesis by (auto simp: parse_dispatch_def Cons Let_def)
  next
    case (Some n)
    show ?thesis
    proof (cases "take_incident v r n ?start")
      case None
      with assms Some show ?thesis by (simp add: parse_dispatch_def Cons Let_def make_plan_def)
    next
      case (Some s)
      with take_incident_token [OF Some] ok [of s raw] assms \<open>incident_number r = Some n\<close> show ?thesis
        by (auto simp: parse_dispatch_def Cons Let_def)
    qed
  qed
qed (use assms in \<open>simp add: parse_dispatch_def\<close>)

section \<open>Lemmas: a leading number\<close>

lemma make_plan_ambiguous: "any_ambiguous ts \<Longrightarrow> fst (make_plan ts inc loose None v) = BlockedAmbiguous inc"
  by (simp add: make_plan_def Let_def)

lemma make_plan_incident:
  "fst (make_plan ts (Some i) loose None v) \<in> {PlanOpen i loose, BlockedAmbiguous (Some i)}
   \<or> (\<exists>assign st pr noop. fst (make_plan ts (Some i) loose None v) = PlanDispatch i assign st pr noop)"
  by (simp add: make_plan_def dispatch_on_def Let_def)

section \<open>Lemmas: tokens of the line\<close>

definition cut_from :: "string \<Rightarrow> raw_token \<Rightarrow> bool" where
  "cut_from input t \<longleftrightarrow> 0 \<le> rt_start t \<and> rt_text t \<noteq> [] \<and> rt_end t = rt_start t + int (length (rt_text t))
     \<and> rt_text t = take (length (rt_text t)) (drop (nat (rt_start t)) input)
     \<and> list_all (\<lambda>c. \<not> is_separator c) (rt_text t) \<and> rt_folded t = fold_text (rt_text t)"

lemma first_at_word:
  assumes "p \<noteq> []" and "list_all (\<lambda>c. \<not> sep c) p" and "list_all sep seps"
  shows "first_at p (seps @ p @ q) = Some (length seps)"
  using assms(3)
proof (induction seps)
  case Nil
  from assms(1) obtain x xs where "p = x # xs" by (cases p) auto
  then show ?case by (simp add: starts_with_def)
next
  case (Cons c seps)
  from assms(1) obtain x xs where "p = x # xs" by (cases p) auto
  with assms(2) Cons show ?case by (auto simp: starts_with_def)
qed

lemma add_part_word:
  assumes "drop c input = seps @ p @ q" and "c \<le> length input" and "p \<noteq> []"
    and "list_all (\<lambda>c. \<not> is_separator c) p" and "list_all is_separator seps"
  shows "\<exists>t. add_part input (int c, acc) p = (int (c + length seps + length p), acc @ [t])
     \<and> cut_from input t \<and> rt_text t = p \<and> rt_start t = int (c + length seps)"
proof -
  have "index_of input p (int c) = int (c + length seps)"
    by (simp add: index_of_def assms(1) first_at_word [OF assms(3-5)])
  moreover have "drop (c + length seps) input = p @ q"
    by (metis add.commute append_eq_conv_conj assms(1) drop_drop)
  ultimately show ?thesis using assms(3,4) by (simp add: add_part_def Let_def cut_from_def nat_int_add)
qed

lemma split_runs_tokens:
  assumes "drop c input = seps @ s" and "list_all is_separator seps" and "c \<le> length input"
  shows "\<exists>ts. snd (foldl (add_part input) (int c, acc) (split_runs is_separator s)) = acc @ ts
     \<and> list_all (cut_from input) ts \<and> sorted_wrt (\<lambda>a b. rt_end a < rt_start b) ts
     \<and> list_all (\<lambda>t. int (c + length seps) \<le> rt_start t) ts
     \<and> concat (map rt_text ts) = filter (\<lambda>c. \<not> is_separator c) s"
  using assms
proof (induction "is_separator" s arbitrary: c seps acc rule: split_runs.induct)
  case (1 s)
  let ?p = "takeWhile (\<lambda>c. \<not> is_separator c) s"
  have p: "list_all (\<lambda>c. \<not> is_separator c) ?p" by (auto simp: list_all_iff dest: set_takeWhileD)
  then have fp: "filter (\<lambda>c. \<not> is_separator c) ?p = ?p" by (simp add: filter_id_conv list_all_iff)
  show ?case
  proof (cases "dropWhile (\<lambda>c. \<not> is_separator c) s")
    case Nil
    then have s: "?p = s" by (metis append_Nil2 takeWhile_dropWhile_id)
    have run: "split_runs is_separator s = [s]" by (simp add: split_runs.simps [of _ s] Nil s)
    show ?thesis
    proof (cases "s = []")
      case True
      with run show ?thesis by (intro exI [of _ "[]"]) (simp add: add_part_def)
    next
      case False
      from add_part_word [of c input seps s "[]"] 1(2-4) False p obtain t where
        "add_part input (int c, acc) s = (int (c + length seps + length s), acc @ [t])"
        "cut_from input t" "rt_text t = s" "rt_start t = int (c + length seps)" unfolding s by auto
      with s fp show ?thesis by (intro exI [of _ "[t]"]) (simp add: run)
    qed
  next
    case (Cons d rest)
    let ?r = "dropWhile is_separator rest" and ?g = "d # takeWhile is_separator rest"
    have d: "is_separator d" using Cons by (metis dropWhile_eq_Cons_conv)
    have s: "s = ?p @ ?g @ ?r" by (metis Cons append_Cons takeWhile_dropWhile_id)
    have g: "list_all is_separator ?g" using d by (auto simp: list_all_iff dest: set_takeWhileD)
    then have fg: "filter (\<lambda>c. \<not> is_separator c) ?g = []" by (simp add: list_all_iff filter_empty_conv)
    have run: "split_runs is_separator s = ?p # split_runs is_separator ?r" by (simp add: split_runs.simps [of _ s] Cons)
    have fs: "filter (\<lambda>c. \<not> is_separator c) s = ?p @ filter (\<lambda>c. \<not> is_separator c) ?r"
      by (subst s) (simp only: filter_append fp fg append_Nil)
    show ?thesis
    proof (cases "?p = []")
      case True
      have "drop c input = (seps @ ?g) @ ?r" using 1(2) s True by (metis append.assoc append_Nil)
      from 1(1) [OF Cons this _ 1(4), of acc] g 1(3) obtain ts where
        "snd (foldl (add_part input) (int c, acc) (split_runs is_separator ?r)) = acc @ ts"
        "list_all (cut_from input) ts" "sorted_wrt (\<lambda>a b. rt_end a < rt_start b) ts"
        "list_all (\<lambda>t. int (c + length (seps @ ?g)) \<le> rt_start t) ts"
        "concat (map rt_text ts) = filter (\<lambda>c. \<not> is_separator c) ?r" by auto
      with True show ?thesis unfolding run fs
        by (intro exI [of _ ts]) (auto simp: add_part_def list_all_iff)
    next
      case False
      have "drop c input = seps @ ?p @ ?g @ ?r" using 1(2) s by metis
      from add_part_word [OF this 1(4) False p 1(3), of acc] obtain t where
        t: "add_part input (int c, acc) ?p = (int (c + length seps + length ?p), acc @ [t])"
        "cut_from input t" "rt_text t = ?p" "rt_start t = int (c + length seps)" by blast
      let ?c = "c + length seps + length ?p"
      have "length (drop c input) \<ge> length seps + length ?p" unfolding \<open>drop c input = seps @ ?p @ ?g @ ?r\<close> by simp
      then have le: "?c \<le> length input" using 1(4) by simp
      have "drop ?c input = ?g @ ?r"
        using \<open>drop c input = seps @ ?p @ ?g @ ?r\<close>
        by (metis add.assoc add.commute append.assoc append_eq_conv_conj drop_drop length_append)
      from 1(1) [OF Cons this g le, of "acc @ [t]"] obtain ts where
        "snd (foldl (add_part input) (int ?c, acc @ [t]) (split_runs is_separator ?r)) = (acc @ [t]) @ ts"
        "list_all (cut_from input) ts" "sorted_wrt (\<lambda>a b. rt_end a < rt_start b) ts"
        "list_all (\<lambda>t. int (?c + length ?g) \<le> rt_start t) ts"
        "concat (map rt_text ts) = filter (\<lambda>c. \<not> is_separator c) ?r" by blast
      with t show ?thesis unfolding run fs
        by (intro exI [of _ "t # ts"]) (auto simp: list_all_iff cut_from_def)
    qed
  qed
qed

section \<open>Lemmas: a one-letter word on a line\<close>

definition lone_vocabulary :: dispatch_vocabulary where
  "lone_vocabulary =
     \<lparr>dv_incidents = [\<lparr>di_id = ''i1'', di_number = 1, di_label = ''A'', di_type = None, di_status = Reko, di_priority = Low\<rparr>],
      dv_persons = [\<lparr>re_id = ''p1'', re_name = ''q'', re_detail = None, re_incidentIds = Some [''i2'']\<rparr>],
      dv_vehicles = [], dv_materials = []\<rparr>"

lemma word_level_letter: "word_level [x] w = (if [x] \<in> set w then 3 else 0)"
proof -
  have "word_level_from b [x] w = (if [x] \<in> set w then 3 else b)" for b
    by (induction w) auto
  then show ?thesis by (simp add: word_level_def)
qed

lemma foldl_skips: "(\<And>w. w \<in> set ws \<Longrightarrow> f b w = b) \<Longrightarrow> foldl f b ws = b"
  by (induction ws) auto

lemma match_alias_letter:
  assumes "\<And>w. w \<in> set al \<Longrightarrow> [x] \<notin> set w"
  shows "match_alias [[x]] al = None"
proof -
  have "map (word_level [x]) al ! w = 0" if "w < length al" for w
    using that assms by (simp add: word_level_letter)
  then have "walk (map (\<lambda>t. map (word_level t) al) [[x]]) 3 0 [] None = None"
    by (simp only: list.map walk.simps) (rule foldl_skips, simp)
  then show ?thesis by (simp add: match_alias_def)
qed

lemma rank_letter:
  assumes "\<And>c al w. c \<in> set cs \<Longrightarrow> al \<in> set (cd_aliases c) \<Longrightarrow> w \<in> set al \<Longrightarrow> [x] \<notin> set w"
    and "rank_one [[x]] (0, c0) = Some e"
  shows "rank [[x]] (c0 # cs) = [e]"
proof -
  have none: "best_alias [[x]] c = None" if "c \<in> set cs" for c
    unfolding best_alias_def by (rule foldl_skips) (simp add: match_alias_letter [OF assms(1) [OF that]])
  have "List.map_filter (rank_one [[x]]) (List.enumerate n cs) = []" for n
    using none by (auto simp: List.map_filter_def filter_empty_conv rank_one_def Let_def in_set_enumerate_eq split: if_splits)
  with assms(2) show ?thesis by (simp add: rank_def List.map_filter_def)
qed

lemma fold_q: "CHR ''q'' \<in> set (fold_char c) \<Longrightarrow> c = CHR ''q''" "CHR ''q'' \<in> set (transcribe_char c) \<Longrightarrow> c = CHR ''q''"
  "CHR ''Q'' \<in> set (transcribe_char c) \<Longrightarrow> c = CHR ''Q''"
  by (auto simp: fold_char_def transcribe_char_def Let_def split: if_splits)

lemma lower_q:
  assumes "lower_char c = CHR ''q''"
  shows "c = CHR ''q'' \<or> c = CHR ''Q''"
proof (cases "(65 \<le> (of_char c :: nat) \<and> of_char c \<le> (90 :: nat)) \<or>
                (192 \<le> (of_char c :: nat) \<and> of_char c \<le> (222 :: nat) \<and> of_char c \<noteq> (215 :: nat))")
  case True
  with assms have "char_of (of_char c + 32 :: nat) = CHR ''q''" by (simp add: lower_char_def Let_def)
  then have "(of_char (char_of (of_char c + 32 :: nat) :: char) :: nat) = of_char CHR ''q''" by simp
  moreover have "(of_char c :: nat) + 32 < 256" using True by auto
  ultimately have "(of_char c :: nat) = of_char CHR ''Q''" by simp
  then show ?thesis by (simp only: of_char_eq_iff HOL.simp_thms)
next
  case False
  then have "lower_char c = c" by (simp only: lower_char_def Let_def if_False)
  with assms show ?thesis by simp
qed

lemma split_runs_subset: "w \<in> set (split_runs sep s) \<Longrightarrow> set w \<subseteq> set s"
proof (induction sep s rule: split_runs.induct)
  case (1 sep s)
  have take: "set (takeWhile (\<lambda>c. \<not> sep c) s) \<subseteq> set s" by (auto dest: set_takeWhileD)
  show ?case
  proof (cases "dropWhile (\<lambda>c. \<not> sep c) s")
    case Nil
    with 1(2) take show ?thesis by (simp add: split_runs.simps [of _ s])
  next
    case (Cons c rest)
    have "set (dropWhile sep rest) \<subseteq> set s" by (metis Cons list.set_intros(2) set_dropWhileD subsetI)
    with Cons 1 take show ?thesis by (auto simp: split_runs.simps [of _ s])
  qed
qed

lemma js_trim_subset: "set (js_trim s) \<subseteq> set s"
  by (auto simp: js_trim_def trim_end_def trim_start_def dest!: set_dropWhileD)

lemma fold_text_q: "CHR ''q'' \<in> set (fold_text s) \<Longrightarrow> CHR ''q'' \<in> set s \<or> CHR ''Q'' \<in> set s"
  by (auto simp: fold_text_def js_lower_def dest!: fold_q(1) lower_q)

lemma of_char_Q: "65 \<le> (of_char CHR ''Q'' :: nat) \<and> of_char CHR ''Q'' \<le> (90 :: nat)"
  by simp

lemma to_words_q:
  assumes "sp \<in> set (to_words s)" and "''q'' \<in> set sp"
  shows "CHR ''q'' \<in> set s \<or> CHR ''Q'' \<in> set s"
proof -
  from assms(1) obtain raw where raw: "raw \<in> set (split_words s)" "set sp \<subseteq> {fold_text raw, fold_transcribed raw}"
    by (auto simp: to_words_def Let_def)
  from raw(1) split_runs_subset js_trim_subset have sub: "set raw \<subseteq> set s" by (auto simp: split_words_def) blast
  from assms(2) raw(2) have "CHR ''q'' \<in> set (fold_text raw) \<or> CHR ''q'' \<in> set (fold_transcribed raw)"
    by (metis insertE list.set_intros(1) singletonD subsetD)
  moreover have "lower_char c \<noteq> CHR ''Q''" for c
    using lower_char_fixed [of c] by (metis atLeastAtMost_iff of_char_Q)
  ultimately have "CHR ''q'' \<in> set raw \<or> CHR ''Q'' \<in> set raw"
    by (auto simp: fold_transcribed_def js_lower_def dest!: fold_text_q fold_q(2,3) lower_q)
  with sub show ?thesis by blast
qed

lemma phrases_q:
  "list_all (\<lambda>sp. list_all (\<lambda>p. CHR ''q'' \<notin> set p \<and> CHR ''Q'' \<notin> set p) (snd sp)) status_phrases"
  "list_all (\<lambda>sp. list_all (\<lambda>p. CHR ''q'' \<notin> set p \<and> CHR ''Q'' \<notin> set p) (snd sp)) priority_phrases"
  by code_simp+

lemma lone_rank: "rank [''q''] (build_candidates lone_vocabulary) =
  [\<lparr>rk_index = 0, rk_candidate = person_candidate \<lparr>re_id = ''p1'', re_name = ''q'', re_detail = None, re_incidentIds = Some [''i2'']\<rparr>,
    rk_match = \<lparr>am_min = 3, am_sum = 3, am_complete = True, am_words = [0]\<rparr>\<rparr>]"
proof -
  let ?i = "\<lparr>di_id = ''i1'', di_number = 1, di_label = ''A'', di_type = None, di_status = Reko, di_priority = Low\<rparr>"
  let ?ws = "map (\<lambda>(s, ps). word_candidate (TStatus s) ps) status_phrases
     @ map (\<lambda>(p, ps). word_candidate (TPriority p) ps) priority_phrases"
  let ?cs = "incident_candidate ?i # ?ws"
  have q: "to_words ''q'' = [[''q'']]"
    by (simp add: to_words_def split_words_def split_runs.simps is_word_sep_def is_space_def js_trim_def trim_start_def
        trim_end_def fold_text_def fold_transcribed_def js_lower_def lower_char_def fold_char_def transcribe_char_def Let_def)
  have no: "[CHR ''q''] \<notin> set w" if "c \<in> set ?cs" "al \<in> set (cd_aliases c)" "w \<in> set al" for c al w
  proof -
    have "\<exists>p. al = to_words p \<and> CHR ''q'' \<notin> set p \<and> CHR ''Q'' \<notin> set p"
    proof (cases "c = incident_candidate ?i")
      case True
      with that(2) show ?thesis by (intro exI [of _ "''A''"]) (simp add: incident_candidate_def or_null_def Let_def)
    next
      case False
      with that(1) obtain t ps where c: "c = word_candidate t ps" "ps \<in> snd ` set status_phrases \<union> snd ` set priority_phrases"
        by force
      from c(2) phrases_q have "list_all (\<lambda>p. CHR ''q'' \<notin> set p \<and> CHR ''Q'' \<notin> set p) ps" unfolding list_all_iff by blast
      moreover from that(2) c(1) obtain p where "p \<in> set ps" "al = to_words p" by (auto simp: word_candidate_def)
      ultimately show ?thesis by (auto simp: list_all_iff)
    qed
    with to_words_q that(3) show ?thesis by blast
  qed
  let ?p = "person_candidate \<lparr>re_id = ''p1'', re_name = ''q'', re_detail = None, re_incidentIds = Some [''i2'']\<rparr>"
  have one: "rank_one [''q''] (0, ?p) =
     Some \<lparr>rk_index = 0, rk_candidate = ?p, rk_match = \<lparr>am_min = 3, am_sum = 3, am_complete = True, am_words = [0]\<rparr>\<rparr>"
    by (simp add: rank_one_def best_alias_def person_candidate_def q match_alias_def
        word_level_def take_better_def Let_def all_digits_def is_digit_def is_incident_target_def)
  have "build_candidates lone_vocabulary = ?p # ?cs" by (simp add: build_candidates_def lone_vocabulary_def)
  with rank_letter [OF no one] show ?thesis by (simp only:)
qed

lemma lone_tokens: "tokenize ''1 q'' =
  [\<lparr>rt_text = ''1'', rt_folded = ''1'', rt_start = 0, rt_end = 1\<rparr>, \<lparr>rt_text = ''q'', rt_folded = ''q'', rt_start = 2, rt_end = 3\<rparr>]"
  by code_simp

section \<open>Properties\<close>


text \<open>
  A leading number is the Einsatz. A number no incident has blocks the line; a number one incident has
  makes the plan one of this incident, whatever the other words are; a number several incidents have is
  never guessed.
\<close>

theorem leading_number_is_the_einsatz:
  assumes "tokenize input = r # raw" and "incident_number r = Some n"
  shows "case by_number v n of
      [] \<Rightarrow> fst (parse_dispatch input v picks) = BlockedUnknown n
    | [i] \<Rightarrow> fst (parse_dispatch input v picks) \<in> {PlanOpen i False, BlockedAmbiguous (Some i)}
        \<or> (\<exists>assign st pr noop. fst (parse_dispatch input v picks) = PlanDispatch i assign st pr noop)
    | _ \<Rightarrow> \<exists>inc. fst (parse_dispatch input v picks) = BlockedAmbiguous inc"
proof (cases "by_number v n" rule: list3_cases)
  case 1
  with assms show ?thesis by (simp add: parse_dispatch_def take_incident_def make_plan_def Let_def)
next
  case (2 i)
  let ?st = "\<lparr>ps_tokens = [(new_token (rt_text r) (rt_start r) (rt_end r) TkIncident
     (CHR ''#'' # show_nat n))\<lparr>dt_incident := Some i\<rparr>], ps_incident = Some i, ps_loose = False\<rparr>"
  have "fst (parse_dispatch input v picks) = (let st = parse_words v (build_candidates v) picks raw ?st
      in fst (make_plan (ps_tokens st) (ps_incident st) (ps_loose st) None v))"
    using assms 2 by (simp add: parse_dispatch_def take_incident_def Let_def)
  moreover from parse_words_keeps [of ?st i] have "ps_incident (parse_words v (build_candidates v) picks raw ?st) = Some i"
    "ps_loose (parse_words v (build_candidates v) picks raw ?st) = False" by simp_all
  ultimately show ?thesis using make_plan_incident [of _ i False v] by (simp add: Let_def 2)
next
  case (3 i j rest)
  let ?t = "new_token (rt_text r) (rt_start r) (rt_end r) TkAmbiguous (CHR ''#'' # show_nat n)"
  let ?st = "\<lparr>ps_tokens = [?t], ps_incident = None, ps_loose = False\<rparr>"
  have "fst (parse_dispatch input v picks) = (let st = parse_words v (build_candidates v) picks raw ?st
      in fst (make_plan (ps_tokens st) (ps_incident st) (ps_loose st) None v))"
    using assms 3 by (simp add: parse_dispatch_def take_incident_def Let_def)
  moreover from parse_words_keeps obtain ys where
    "ps_tokens (parse_words v (build_candidates v) picks raw ?st) = ps_tokens ?st @ ys" by blast
  then have "any_ambiguous (ps_tokens (parse_words v (build_candidates v) picks raw ?st))"
    by (simp add: any_ambiguous_def new_token_def)
  ultimately show ?thesis by (simp add: Let_def 3 make_plan_ambiguous)
qed

text \<open>
  The tokens are the words of the line: each is a nonempty piece of the input at the offsets it carries,
  free of separators and folded from its own text; at least one character lies between two tokens; and
  together they hold every character of the line that is no separator.
\<close>

theorem tokens_are_cut_from_the_line:
  "list_all (cut_from input) (tokenize input)
   \<and> sorted_wrt (\<lambda>a b. rt_end a < rt_start b) (tokenize input)
   \<and> concat (map rt_text (tokenize input)) = filter (\<lambda>c. \<not> is_separator c) input"
  using split_runs_tokens [of 0 input "[]" input "[]"] by (auto simp: tokenize_def)

lemma leading_number_is_the_einsatz_witness:
  "fst (parse_dispatch ''1 q'' (lone_vocabulary\<lparr>dv_incidents := []\<rparr>) Map.empty) = BlockedUnknown 1"
proof -
  have n: "incident_number \<lparr>rt_text = ''1'', rt_folded = ''1'', rt_start = 0, rt_end = 1\<rparr> = Some 1" by code_simp
  show ?thesis
    using leading_number_is_the_einsatz [OF lone_tokens n, of "lone_vocabulary\<lparr>dv_incidents := []\<rparr>" Map.empty]
    by (simp add: by_number_def)
qed


end
