(* ===== verification/StatusConflict.thy ===== *)
theory StatusConflict
  imports FieldSave
begin

text \<open>
  \<^verbatim>\<open>frontend/lib/status-conflict.ts\<close>: a status move the server refused because the card had moved
  meanwhile (409 \<^verbatim>\<open>incident_status_changed\<close>), as the one open conflict of the tab.
\<close>

definition status_changed_code :: string where
  "status_changed_code = ''incident_status_changed''"

record status_move =
  sm_operationId :: ident
  sm_seen :: incident_status
  sm_wanted :: incident_status

record status_conflict =
  sc_operationId :: ident
  sc_seen :: incident_status
  sc_wanted :: incident_status
  sc_current :: incident_status
  sc_changedBy :: "string option"
  sc_secondsAgo :: "rat option"
  sc_released :: "string option"

definition string_param :: "error_params \<Rightarrow> string \<Rightarrow> string option" where
  "string_param ps k = (case map_of ps k of Some (JStr s) \<Rightarrow> or_null (Some s) | _ \<Rightarrow> None)"

definition number_param :: "error_params \<Rightarrow> string \<Rightarrow> rat option" where
  "number_param ps k = (case map_of ps k of Some (JNum n) \<Rightarrow> Some n | _ \<Rightarrow> None)"

definition status_conflict_from :: "js_error \<Rightarrow> status_move \<Rightarrow> status_conflict option" where
  "status_conflict_from err move =
     (case err of
        ErrApi e \<Rightarrow>
          if ae_status e \<noteq> 409 \<or> ae_code e \<noteq> Some status_changed_code then None
          else
            let ps = nullish (ae_params e) []
            in (case map_of ps ''status'' of
                  Some (JStr w) \<Rightarrow>
                    (case status_of_word w of
                       None \<Rightarrow> None
                     | Some current \<Rightarrow>
                         Some \<lparr>sc_operationId = sm_operationId move, sc_seen = sm_seen move,
                               sc_wanted = sm_wanted move, sc_current = current,
                               sc_changedBy = string_param ps ''changed_by'',
                               sc_secondsAgo = number_param ps ''seconds_ago'',
                               sc_released = string_param ps ''released''\<rparr>)
                | _ \<Rightarrow> None)
      | _ \<Rightarrow> None)"

text \<open>The open conflict; the report listeners are called with what opens.\<close>

record conflict_store =
  cf_open :: "status_conflict option"
  cf_reported :: "status_conflict list"

definition emit_conflict :: "status_conflict option \<Rightarrow> conflict_store \<Rightarrow> conflict_store" where
  "emit_conflict nxt s =
     s\<lparr>cf_open := nxt,
       cf_reported := (case nxt of None \<Rightarrow> cf_reported s | Some c \<Rightarrow> cf_reported s @ [c])\<rparr>"

definition report_status_conflict :: "js_error \<Rightarrow> status_move \<Rightarrow> conflict_store \<Rightarrow> bool \<times> conflict_store" where
  "report_status_conflict err move s =
     (case status_conflict_from err move of
        None \<Rightarrow> (False, s)
      | Some c \<Rightarrow> (True, emit_conflict (Some c) s))"

definition dismiss_status_conflict :: "conflict_store \<Rightarrow> conflict_store" where
  "dismiss_status_conflict s = emit_conflict None s"

datatype stale_ago = AgoNow | AgoSeconds rat | AgoDuration string

definition format_stale_ago :: "rat option \<Rightarrow> (stale_ago \<Rightarrow> string) \<Rightarrow> string" where
  "format_stale_ago seconds t =
     (case seconds of
        None \<Rightarrow> t AgoNow
      | Some s \<Rightarrow>
          if s < 60 then t (AgoSeconds s)
          else t (AgoDuration (format_duration (Some \<lfloor>s * 1000\<rfloor>) BoardStyle)))"

lemma conflict_only_from_409:
  "status_conflict_from err move = Some c \<Longrightarrow>
     is_conflict_error err \<and> sc_operationId c = sm_operationId move \<and> sc_seen c = sm_seen move
     \<and> sc_wanted c = sm_wanted move"
  by (auto simp: status_conflict_from_def is_conflict_error_def Let_def
      split: js_error.splits if_splits option.splits js_value.splits)

lemma newest_conflict_wins:
  "fst (report_status_conflict err move s) \<Longrightarrow>
     cf_open (snd (report_status_conflict err move s)) = status_conflict_from err move"
  by (auto simp: report_status_conflict_def emit_conflict_def split: option.splits)

end
