(* ===== verification/BoardState.thy ===== *)
theory BoardState
  imports StatusConflict Reconcile
begin

text \<open>
  What the board's mutations read and write (\<^verbatim>\<open>contexts/operations/board-context.ts\<close>): this render's
  values (\<open>board_view\<close>, fixed for one action because the action is a closure of that render) and the
  provider's live state (\<open>board_state\<close>): cards, roster and depot behind their setters, the refs, the
  field-save module, the open status conflict, and the log of effects (toasts, requests, refreshes).
  The cooldown hooks are those of \<^verbatim>\<open>operations-context.tsx\<close>.
\<close>

section \<open>Partial updates of a card\<close>

text \<open>\<^verbatim>\<open>Partial<Operation>\<close> as the board edits it: \<open>None\<close> is a field the update does not name.\<close>

record op_update =
  up_location :: "string option"
  up_incidentType :: "string option"
  up_priority :: "priority option"
  up_status :: "incident_status option"
  up_coordinates :: "coordinates option"
  up_notes :: "string option"
  up_contact :: "string option"
  up_contactPhone :: "string option"
  up_internalNotes :: "string option"
  up_nachbarhilfe :: "bool option"
  up_nachbarhilfeNote :: "string option"
  up_amWarten :: "bool option"
  up_amWartenNote :: "string option"
  up_zuFuss :: "bool option"
  up_source :: "string option"

definition no_update :: op_update where
  "no_update = \<lparr>up_location = None, up_incidentType = None, up_priority = None, up_status = None,
     up_coordinates = None, up_notes = None, up_contact = None, up_contactPhone = None,
     up_internalNotes = None, up_nachbarhilfe = None, up_nachbarhilfeNote = None,
     up_amWarten = None, up_amWartenNote = None, up_zuFuss = None, up_source = None\<rparr>"

definition or_else :: "'a option \<Rightarrow> 'a option \<Rightarrow> 'a option" where
  "or_else a b = (case a of None \<Rightarrow> b | Some _ \<Rightarrow> a)"

lemma or_else_simps [simp]: "or_else None b = b" "or_else (Some x) b = Some x" "or_else a None = a"
  by (simp_all add: or_else_def split: option.split)

lemma or_else_assoc: "or_else a (or_else b c) = or_else (or_else a b) c"
  by (simp add: or_else_def split: option.split)

text \<open>\<^verbatim>\<open>{ ...older, ...newer }\<close>.\<close>

definition merge_update :: "op_update \<Rightarrow> op_update \<Rightarrow> op_update" where
  "merge_update older newer =
     \<lparr>up_location = or_else (up_location newer) (up_location older),
      up_incidentType = or_else (up_incidentType newer) (up_incidentType older),
      up_priority = or_else (up_priority newer) (up_priority older),
      up_status = or_else (up_status newer) (up_status older),
      up_coordinates = or_else (up_coordinates newer) (up_coordinates older),
      up_notes = or_else (up_notes newer) (up_notes older),
      up_contact = or_else (up_contact newer) (up_contact older),
      up_contactPhone = or_else (up_contactPhone newer) (up_contactPhone older),
      up_internalNotes = or_else (up_internalNotes newer) (up_internalNotes older),
      up_nachbarhilfe = or_else (up_nachbarhilfe newer) (up_nachbarhilfe older),
      up_nachbarhilfeNote = or_else (up_nachbarhilfeNote newer) (up_nachbarhilfeNote older),
      up_amWarten = or_else (up_amWarten newer) (up_amWarten older),
      up_amWartenNote = or_else (up_amWartenNote newer) (up_amWartenNote older),
      up_zuFuss = or_else (up_zuFuss newer) (up_zuFuss older),
      up_source = or_else (up_source newer) (up_source older)\<rparr>"

text \<open>\<^verbatim>\<open>{ ...op, ...updates }\<close>.\<close>

definition apply_update :: "op_update \<Rightarrow> operation \<Rightarrow> operation" where
  "apply_update u o1 =
     o1\<lparr>op_location := nullish (up_location u) (op_location o1),
        op_incidentType := nullish (up_incidentType u) (op_incidentType o1),
        op_priority := nullish (up_priority u) (op_priority o1),
        op_status := nullish (up_status u) (op_status o1),
        op_coordinates := nullish (up_coordinates u) (op_coordinates o1),
        op_notes := nullish (up_notes u) (op_notes o1),
        op_contact := nullish (up_contact u) (op_contact o1),
        op_contactPhone := nullish (up_contactPhone u) (op_contactPhone o1),
        op_internalNotes := nullish (up_internalNotes u) (op_internalNotes o1),
        op_nachbarhilfe := nullish (up_nachbarhilfe u) (op_nachbarhilfe o1),
        op_nachbarhilfeNote := nullish (up_nachbarhilfeNote u) (op_nachbarhilfeNote o1),
        op_amWarten := nullish (up_amWarten u) (op_amWarten o1),
        op_amWartenNote := nullish (up_amWartenNote u) (op_amWartenNote o1),
        op_zuFuss := nullish (up_zuFuss u) (op_zuFuss o1),
        op_source := or_else (up_source u) (op_source o1)\<rparr>"

lemma nullish_or_else: "nullish (or_else a b) x = nullish a (nullish b x)"
  by (cases a) simp_all

lemma apply_merge: "apply_update (merge_update a b) o1 = apply_update b (apply_update a o1)"
  by (simp add: apply_update_def merge_update_def nullish_or_else or_else_assoc)

lemma apply_update_keeps [simp]:
  "op_id (apply_update u o1) = op_id o1" "op_crew (apply_update u o1) = op_crew o1"
  "op_vehicles (apply_update u o1) = op_vehicles o1" "op_materials (apply_update u o1) = op_materials o1"
  "op_status (apply_update u o1) = nullish (up_status u) (op_status o1)"
  "op_amWarten (apply_update u o1) = nullish (up_amWarten u) (op_amWarten o1)"
  by (simp_all add: apply_update_def)

section \<open>The PATCH payload\<close>

record api_update =
  au_location_address :: "string option"
  au_type :: "string option"
  au_priority :: "priority option"
  au_status :: "incident_status option"
  au_from_status :: "incident_status option"
  au_override_status :: "incident_status option"
  au_location_lat_lng :: "(string option \<times> string option) option"
  au_description :: "string option"
  au_contact :: "string option"
  au_contact_phone :: "string option"
  au_internal_notes :: "string option"
  au_nachbarhilfe :: "bool option"
  au_nachbarhilfe_note :: "string option"
  au_am_warten :: "bool option"
  au_am_warten_note :: "string option"
  au_zu_fuss :: "bool option"
  au_source :: "string option"
  au_text_base :: "(string \<times> string) list"

record status_guard =
  sg_seen :: incident_status
  sg_override :: "incident_status option"

section \<open>View, state, effects\<close>

record board_view =
  bv_ops :: "operation list"
  bv_people :: "person list"
  bv_mats :: "material list"
  bv_loaded :: bool
  bv_event :: "ident option"         \<comment> \<open>the selected Ereignis, when its id is a valid UUID\<close>
  bv_selected :: "ident option"      \<comment> \<open>the selected Ereignis\<close>
  bv_oosVehicles :: "ident list"

text \<open>The view of a loaded board with these cards, the starting point of concrete inputs.\<close>

definition view_on :: "operation list \<Rightarrow> board_view" where
  "view_on ops = \<lparr>bv_ops = ops, bv_people = [], bv_mats = [], bv_loaded = True, bv_event = None,
     bv_selected = None, bv_oosVehicles = []\<rparr>"

lemma view_on_simps [simp]: "bv_ops (view_on ops) = ops" "bv_people (view_on ops) = []" "bv_mats (view_on ops) = []"
  "bv_loaded (view_on ops)" "bv_event (view_on ops) = None" "bv_selected (view_on ops) = None"
  "bv_oosVehicles (view_on ops) = []"
  by (simp_all add: view_on_def)

datatype effect =
    FxInfo string | FxError string | FxSuccess string | FxToast string
  | FxRefresh
  | FxPatch ident api_update
  | FxReorder ident "ident list"
  | FxDelete ident
  | FxAssign ident resource_kind ident
  | FxUnassign ident ident
  | FxAssignReko ident ident
  | FxUnassignReko ident ident
  | FxReleaseDriver ident ident
  | FxFunctions ident

record pending_batch =
  pb_updates :: op_update
  pb_delay :: nat
  pb_scope :: "string option"
  pb_reopening :: bool

datatype job_state = JWaiting | JSent save_ticket | JDropped

record patch_job =
  jb_op :: ident
  jb_updates :: op_update
  jb_guard :: "status_guard option"
  jb_ticket :: save_ticket
  jb_user :: "string option"
  jb_reopening :: bool
  jb_state :: job_state

record board_state =
  bd_ops :: "operation list"
  bd_people :: "person list"
  bd_mats :: "material list"
  bd_epoch :: nat
  bd_holds :: nat
  bd_releases :: nat              \<comment> \<open>release timers armed\<close>
  bd_critical :: bool
  bd_guards :: "ident \<rightharpoonup> status_guard"
  bd_pending :: "(ident \<times> pending_batch) list"
  bd_jobs :: "patch_job list"     \<comment> \<open>PATCHes handed to the serial queue and not settled\<close>
  bd_queuedReorder :: "ident list option"
  bd_reorderInFlight :: bool
  bd_fs :: field_save
  bd_conflicts :: conflict_store
  bd_recent :: recent_removals
  bd_log :: "effect list"

definition log_fx :: "effect \<Rightarrow> board_state \<Rightarrow> board_state" where
  "log_fx e s = s\<lparr>bd_log := bd_log s @ [e]\<rparr>"

section \<open>Cooldown hooks\<close>

definition arm_cooldown :: "board_state \<Rightarrow> board_state" where
  "arm_cooldown s = s\<lparr>bd_epoch := bd_epoch s + 1, bd_holds := bd_holds s + 1\<rparr>"

definition release_cooldown :: "board_state \<Rightarrow> board_state" where
  "release_cooldown s = s\<lparr>bd_releases := bd_releases s + 1\<rparr>"

text \<open>The release timer fires.\<close>

definition hold_expires :: "board_state \<Rightarrow> board_state" where
  "hold_expires s =
     (if bd_releases s = 0 then s
      else s\<lparr>bd_releases := bd_releases s - 1, bd_holds := bd_holds s - 1\<rparr>)"

end
