(* ===== verification/IncidentActions.thy ===== *)
theory IncidentActions
  imports BoardState
begin

text \<open>
  \<^verbatim>\<open>contexts/operations/incident-actions.ts\<close>: the one funnel of incident edits (\<^verbatim>\<open>updateOperation\<close>: optimistic
  card, released crew, debounced batch, serial PATCH, error branches), the column order, create, delete,
  restore and merge. An action that awaits is split there: what runs before the request, and what its
  answer does. \<open>bv_event\<close> is the selected Ereignis when its id is a valid UUID. Log output to the console is
  left out.
\<close>

section \<open>updateOperation, up to the debounce\<close>

definition am_warten_clearing_statuses :: "incident_status list" where
  "am_warten_clearing_statuses = [Enroute, Active, Returning, Complete]"

definition normalize_update :: "op_update \<Rightarrow> op_update" where
  "normalize_update u =
     (if up_coordinates u \<noteq> None then u
      else if up_location u = Some [] then u\<lparr>up_coordinates := Some None\<rparr>
      else u)"

definition clears_am_warten :: "op_update \<Rightarrow> operation option \<Rightarrow> bool" where
  "clears_am_warten u cur =
     (case up_status u of
        None \<Rightarrow> False
      | Some st \<Rightarrow> js_includes am_warten_clearing_statuses st
          \<and> (case cur of None \<Rightarrow> False | Some o1 \<Rightarrow> op_amWarten o1) \<and> up_amWarten u = None)"

fun up_text :: "op_update \<Rightarrow> saved_text_field \<Rightarrow> string option" where
  "up_text u FNotes = up_notes u"
| "up_text u FContact = up_contact u"
| "up_text u FContactPhone = up_contactPhone u"
| "up_text u FInternalNotes = up_internalNotes u"
| "up_text u FNachbarhilfeNote = up_nachbarhilfeNote u"
| "up_text u FAmWartenNote = up_amWartenNote u"

fun op_text :: "operation \<Rightarrow> saved_text_field \<Rightarrow> string" where
  "op_text o1 FNotes = op_notes o1"
| "op_text o1 FContact = op_contact o1"
| "op_text o1 FContactPhone = op_contactPhone o1"
| "op_text o1 FInternalNotes = op_internalNotes o1"
| "op_text o1 FNachbarhilfeNote = op_nachbarhilfeNote o1"
| "op_text o1 FAmWartenNote = op_amWartenNote o1"

definition update_texts :: "op_update \<Rightarrow> (saved_text_field \<times> string) list" where
  "update_texts u = List.map_filter (\<lambda>f. map_option (\<lambda>t. (f, t)) (up_text u f)) saved_text_fields"

definition only_text :: "op_update \<Rightarrow> bool" where
  "only_text u = (up_location u = None \<and> up_incidentType u = None \<and> up_priority u = None \<and> up_status u = None
     \<and> up_coordinates u = None \<and> up_nachbarhilfe u = None \<and> up_amWarten u = None \<and> up_zuFuss u = None
     \<and> up_source u = None)"

definition note_edits :: "ident \<Rightarrow> op_update \<Rightarrow> operation option \<Rightarrow> field_save \<Rightarrow> field_save" where
  "note_edits i u cur fs =
     foldl (\<lambda>fs1 (f, t). note_field_edit i f t (case cur of None \<Rightarrow> [] | Some o1 \<Rightarrow> op_text o1 f) fs1)
       fs (update_texts u)"

definition set_guard :: "ident \<Rightarrow> op_update \<Rightarrow> operation option \<Rightarrow> status_guard option
    \<Rightarrow> (ident \<rightharpoonup> status_guard) \<Rightarrow> (ident \<rightharpoonup> status_guard)" where
  "set_guard i u cur confirm guards =
     (case (up_status u, cur) of
        (Some _, Some o1) \<Rightarrow>
          (case confirm of
             Some g \<Rightarrow> guards(i \<mapsto> g)
           | None \<Rightarrow> if guards i \<noteq> None then guards
                     else guards(i \<mapsto> \<lparr>sg_seen = op_status o1, sg_override = None\<rparr>))
      | _ \<Rightarrow> guards)"

definition optimistic_card :: "ms \<Rightarrow> op_update \<Rightarrow> bool \<Rightarrow> operation \<Rightarrow> operation" where
  "optimistic_card now u clears o1 =
     (let o2 = apply_update u o1;
          o3 = (if up_status u \<noteq> None
                then (o2\<lparr>op_statusChangedAt := Some (Some now)\<rparr>)\<lparr>op_amWarten := (if clears then False else op_amWarten o2)\<rparr>
                else o2)
      in if up_status u = Some Complete then o3\<lparr>op_crew := [], op_vehicles := []\<rparr> else o3)"

definition still_in_crew :: "operation list \<Rightarrow> ident \<Rightarrow> ident \<Rightarrow> bool" where
  "still_in_crew ops opId p = js_some (\<lambda>o1. op_id o1 \<noteq> opId \<and> crew_holds p o1) ops"

definition release_crew :: "board_view \<Rightarrow> ident \<Rightarrow> person list \<Rightarrow> person list" where
  "release_crew view opId people =
     (case List.find (\<lambda>o1. op_id o1 = opId) (bv_ops view) of
        None \<Rightarrow> people
      | Some o1 \<Rightarrow>
          map (\<lambda>p. if crew_holds (p_id p) o1 \<and> \<not> still_in_crew (bv_ops view) opId (p_id p)
                   then p\<lparr>p_status := PAvailable\<rparr> else p) people)"

definition is_critical :: "op_update \<Rightarrow> bool" where
  "is_critical u = (up_location u \<noteq> None \<or> up_coordinates u \<noteq> None \<or> up_status u \<noteq> None)"

text \<open>\<^verbatim>\<open>updateBatcherRef.schedule\<close>: the newest closure of a key carries its scope and its reopening flag.\<close>

definition schedule_batch :: "ident \<Rightarrow> op_update \<Rightarrow> string option \<Rightarrow> bool \<Rightarrow> board_state \<Rightarrow> board_state" where
  "schedule_batch i u scope reopening s =
     (let older = (case map_of (bd_pending s) i of None \<Rightarrow> no_update | Some b \<Rightarrow> pb_updates b);
          m = merge_update older u
      in s\<lparr>bd_critical := (bd_critical s \<or> is_critical m),
           bd_pending := map_set i \<lparr>pb_updates = m, pb_delay = (if is_critical m then 50 else 500),
                                    pb_scope = scope, pb_reopening = reopening\<rparr> (bd_pending s)\<rparr>)"

text \<open>What the edit leaves in the field-save module, the status guards and the toasts.\<close>

definition record_edit ::
  "board_view \<Rightarrow> ident \<Rightarrow> op_update \<Rightarrow> operation option \<Rightarrow> status_guard option \<Rightarrow> bool \<Rightarrow> board_state \<Rightarrow> board_state" where
  "record_edit view i u cur confirm clears s =
     (let s1 = (if bv_loaded view
                then s\<lparr>bd_fs := note_edits i u cur (bd_fs s), bd_guards := set_guard i u cur confirm (bd_guards s)\<rparr>
                else s)
      in if clears then log_fx (FxInfo ''amWartenCleared'') s1 else s1)"

text \<open>The optimistic card, and the crew a completion releases.\<close>

definition optimistic_write :: "ms \<Rightarrow> board_view \<Rightarrow> ident \<Rightarrow> op_update \<Rightarrow> bool \<Rightarrow> board_state \<Rightarrow> board_state" where
  "optimistic_write now view i u clears s =
     s\<lparr>bd_ops := modify_row op_id i (optimistic_card now u clears) (bd_ops s),
       bd_people := (if up_status u = Some Complete then release_crew view i (bd_people s) else bd_people s)\<rparr>"

text \<open>One hold per pending batch.\<close>

definition hold_for_batch :: "board_view \<Rightarrow> ident \<Rightarrow> board_state \<Rightarrow> board_state" where
  "hold_for_batch view i s =
     (if bv_loaded view \<and> map_of (bd_pending s) i \<noteq> None then s\<lparr>bd_epoch := bd_epoch s + 1\<rparr>
      else arm_cooldown s)"

definition is_reopening :: "op_update \<Rightarrow> operation option \<Rightarrow> bool" where
  "is_reopening u cur =
     (case up_status u of
        None \<Rightarrow> False
      | Some st \<Rightarrow> st \<noteq> Complete \<and> map_option op_status cur = Some Complete)"

definition update_operation ::
  "ms \<Rightarrow> board_view \<Rightarrow> ident \<Rightarrow> op_update \<Rightarrow> status_guard option \<Rightarrow> board_state \<Rightarrow> board_state" where
  "update_operation now view i updates confirm s =
     (let u = normalize_update updates;
          cur = List.find (\<lambda>o1. op_id o1 = i) (bv_ops view);
          clears = clears_am_warten u cur;
          s1 = hold_for_batch view i (optimistic_write now view i u clears (record_edit view i u cur confirm clears s))
      in if bv_loaded view then schedule_batch i u (fs_scope (bd_fs s)) (is_reopening u cur) s1
         else release_cooldown s1)"

section \<open>The batch: PATCH and its answer\<close>

definition editor_source :: "string option \<Rightarrow> string option" where
  "editor_source src = (if src = Some ''operator'' \<or> src = Some ''intake'' \<or> src = Some ''feld'' then src else None)"

definition api_of_update :: "js_runtime \<Rightarrow> op_update \<Rightarrow> status_guard option \<Rightarrow> api_update" where
  "api_of_update rt u guard =
     \<lparr>au_location_address = up_location u, au_type = up_incidentType u, au_priority = up_priority u,
      au_status = up_status u,
      au_from_status = map_option sg_seen guard,
      au_override_status = Option.bind guard sg_override,
      au_location_lat_lng = map_option (coordinates_to_api_fields rt) (up_coordinates u),
      au_description = up_notes u, au_contact = up_contact u, au_contact_phone = up_contactPhone u,
      au_internal_notes = up_internalNotes u, au_nachbarhilfe = up_nachbarhilfe u,
      au_nachbarhilfe_note = up_nachbarhilfeNote u, au_am_warten = up_amWarten u,
      au_am_warten_note = up_amWartenNote u, au_zu_fuss = up_zuFuss u,
      au_source = editor_source (up_source u), au_text_base = []\<rparr>"

text \<open>The debounce fires: the batch is cut, its guard taken, its receipt pinned, and it joins the
  per-incident queue.\<close>

definition flush_batch :: "ident \<Rightarrow> board_state \<Rightarrow> board_state" where
  "flush_batch i s =
     (case map_of (bd_pending s) i of
        None \<Rightarrow> s
      | Some b \<Rightarrow>
          let u = pb_updates b;
              guard = (if up_status u \<noteq> None then bd_guards s i else None)
          in s\<lparr>bd_pending := map_delete i (bd_pending s), bd_guards := (bd_guards s)(i := None),
               bd_jobs := bd_jobs s @ [\<lparr>jb_op = i, jb_updates = u, jb_guard = guard,
                 jb_ticket = note_field_queued i (update_texts u) (pb_scope b) (bd_fs s),
                 jb_user = user_of (pb_scope b), jb_reopening = pb_reopening b, jb_state = JWaiting\<rparr>]\<rparr>)"

text \<open>The queued task runs: another session's write is dropped, never sent.\<close>

definition send_job :: "js_runtime \<Rightarrow> nat \<Rightarrow> board_state \<Rightarrow> board_state" where
  "send_job rt n s =
     (if n < length (bd_jobs s) \<and> jb_state (bd_jobs s ! n) = JWaiting
         \<and> (\<forall>m<n. jb_op (bd_jobs s ! m) \<noteq> jb_op (bd_jobs s ! n))
      then
        let j = bd_jobs s ! n
        in if user_of (fs_scope (bd_fs s)) \<noteq> jb_user j
           then s\<lparr>bd_jobs := (bd_jobs s)[n := j\<lparr>jb_state := JDropped\<rparr>]\<rparr>
           else
             let (tk, fs) = note_field_send (jb_ticket j) (bd_fs s)
             in log_fx (FxPatch (jb_op j) ((api_of_update rt (jb_updates j) (jb_guard j))\<lparr>au_text_base := tk_textBase tk\<rparr>))
                  (s\<lparr>bd_fs := fs, bd_jobs := (bd_jobs s)[n := j\<lparr>jb_state := JSent tk\<rparr>]\<rparr>)
      else s)"

definition failure_shown_at_field :: "patch_job \<Rightarrow> field_save \<Rightarrow> bool" where
  "failure_shown_at_field j fs =
     (update_texts (jb_updates j) \<noteq> [] \<and> only_text (jb_updates j) \<and> is_field_save_watched (jb_op j) fs)"

definition job_failed :: "js_error \<Rightarrow> patch_job \<Rightarrow> board_state \<Rightarrow> board_state" where
  "job_failed err j s =
     (let handled = (case (jb_guard j, up_status (jb_updates j)) of
            (Some g, Some wanted) \<Rightarrow>
              report_status_conflict err \<lparr>sm_operationId = jb_op j, sm_seen = sg_seen g, sm_wanted = wanted\<rparr> (bd_conflicts s)
          | _ \<Rightarrow> (False, bd_conflicts s));
          shown = failure_shown_at_field j (bd_fs s)
      in if fst handled then log_fx FxRefresh (s\<lparr>bd_conflicts := snd handled\<rparr>)
         else if is_conflict_error err
         then log_fx FxRefresh (if shown then s else log_fx (FxInfo ''conflict'') s)
         else if up_status (jb_updates j) \<noteq> None
         then log_fx FxRefresh (log_fx (FxError ''statusNotChanged'') s)
         else if shown then s
         else log_fx (FxError ''updateFailed'') s)"

definition settle_fields :: "js_runtime \<Rightarrow> ms \<Rightarrow> patch_job \<Rightarrow> js_error option \<Rightarrow> field_save \<Rightarrow> field_save" where
  "settle_fields rt now j outcome fs =
     (case jb_state j of
        JSent tk \<Rightarrow>
          note_field_settled now tk
            (case outcome of None \<Rightarrow> SaveOk
             | Some err \<Rightarrow> SaveFailed (classify_save_failure err) (text_conflict_of rt err)) fs
      | _ \<Rightarrow> fs)"

definition settle_job :: "js_runtime \<Rightarrow> ms \<Rightarrow> nat \<Rightarrow> js_error option \<Rightarrow> board_state \<Rightarrow> board_state" where
  "settle_job rt now n outcome s =
     (if n < length (bd_jobs s) \<and> jb_state (bd_jobs s ! n) \<noteq> JWaiting
      then
        let j = bd_jobs s ! n;
            res = (if jb_state j = JDropped then None else outcome);
            s1 = s\<lparr>bd_jobs := take n (bd_jobs s) @ drop (Suc n) (bd_jobs s),
                   bd_fs := settle_fields rt now j res (bd_fs s)\<rparr>;
            s2 = (case res of
                    None \<Rightarrow> if jb_reopening j then log_fx FxRefresh s1 else s1
                  | Some err \<Rightarrow> job_failed err j s1)
        in release_cooldown (s2\<lparr>bd_critical := False\<rparr>)
      else s)"

section \<open>Column order\<close>

definition reorder_next :: "ident \<Rightarrow> board_state \<Rightarrow> board_state" where
  "reorder_next event s =
     (case bd_queuedReorder s of
        None \<Rightarrow> s\<lparr>bd_reorderInFlight := False\<rparr>
      | Some ids \<Rightarrow> log_fx (FxReorder event ids) (arm_cooldown (s\<lparr>bd_queuedReorder := None\<rparr>)))"

definition reorder_column :: "board_view \<Rightarrow> ident list \<Rightarrow> board_state \<Rightarrow> board_state" where
  "reorder_column view ids s =
     (case bv_event view of
        None \<Rightarrow> s
      | Some event \<Rightarrow>
          if \<not> bv_loaded view \<or> ids = [] then s
          else
            let s1 = s\<lparr>bd_queuedReorder := Some ids\<rparr>
            in if bd_reorderInFlight s1 then s1
               else reorder_next event (s1\<lparr>bd_reorderInFlight := True\<rparr>))"

definition reorder_settles :: "ident \<Rightarrow> bool \<Rightarrow> board_state \<Rightarrow> board_state" where
  "reorder_settles event ok s =
     (if \<not> bd_reorderInFlight s then s
      else reorder_next event (release_cooldown
             (if ok then s else log_fx FxRefresh (log_fx (FxError ''reorderFailed'') s))))"

definition change_status_to_top ::
  "ms \<Rightarrow> board_view \<Rightarrow> ident \<Rightarrow> incident_status \<Rightarrow> op_update \<Rightarrow> board_state \<Rightarrow> board_state" where
  "change_status_to_top now view i st extra s =
     (let s1 = update_operation now view i (merge_update (no_update\<lparr>up_status := Some st\<rparr>) extra) None s;
          s2 = (case List.find (\<lambda>o1. op_id o1 = i) (bd_ops s1) of
                  None \<Rightarrow> s1
                | Some target \<Rightarrow> s1\<lparr>bd_ops := target # filter (\<lambda>o1. op_id o1 \<noteq> i) (bd_ops s1)\<rparr>);
          ids = i # map op_id (filter (\<lambda>o1. op_id o1 \<noteq> i \<and> op_status o1 = st) (bv_ops view))
      in reorder_column view ids s2)"

section \<open>Create\<close>

record incident_create =
  ic_event_id :: ident
  ic_title :: string
  ic_type :: string
  ic_priority :: priority
  ic_location_address :: string
  ic_location_lat_lng :: "string option \<times> string option"
  ic_status :: incident_status
  ic_description :: "string option"
  ic_contact :: "string option"
  ic_contact_phone :: "string option"
  ic_internal_notes :: "string option"
  ic_group_id :: "ident option"
  ic_source :: string

definition operation_to_incident_create :: "js_runtime \<Rightarrow> operation \<Rightarrow> ident \<Rightarrow> incident_create" where
  "operation_to_incident_create rt o1 event =
     \<lparr>ic_event_id = event, ic_title = op_location o1,
      ic_type = or_str (Some (op_incidentType o1)) ''elementarereignis'',
      ic_priority = op_priority o1, ic_location_address = op_location o1,
      ic_location_lat_lng = coordinates_to_api_fields rt (op_coordinates o1),
      ic_status = Incoming, ic_description = or_null (Some (op_notes o1)),
      ic_contact = or_null (Some (op_contact o1)), ic_contact_phone = or_null (Some (op_contactPhone o1)),
      ic_internal_notes = or_null (Some (op_internalNotes o1)), ic_group_id = op_groupId o1,
      ic_source = (case op_source o1 of
         Some src \<Rightarrow> if src = ''intake'' \<or> src = ''feld'' then src else ''operator''
       | None \<Rightarrow> ''operator'')\<rparr>"

text \<open>The card of a created incident: as the mapping builds it, but with the typed vehicle and type, and
  without what only a load brings.\<close>

definition created_card :: "js_runtime \<Rightarrow> operation \<Rightarrow> api_incident \<Rightarrow> operation" where
  "created_card rt o1 i =
     (api_incident_to_operation rt i)
       \<lparr>op_vehicle := op_vehicle o1, op_incidentType := op_incidentType o1, op_status := Incoming,
        op_possibleDuplicateOf := None, op_hasCompletedReko := False, op_rekoArrivedAt := None,
        op_rekoArrivedByKp := None, op_fieldCompleteReportedAt := None, op_fieldCompleteReportedBy := None,
        op_fieldArrivedAt := None, op_fieldArrivedBy := None, op_fieldArrivedByAutomation := None,
        op_pickupNeeded := None, op_pickupNote := None, op_pickupRequestedAt := None,
        op_pickupRequestedBy := None, op_fieldRequests := None, op_hasSchadenplatzRapport := None,
        op_hasSchadenplatzRapportDraft := None, op_hasBeenDispatched := None,
        op_leaderId := None, op_leaderName := None\<rparr>"

definition insert_created :: "operation \<Rightarrow> operation list \<Rightarrow> operation list" where
  "insert_created c ops = (if js_some (\<lambda>o1. op_id o1 = op_id c) ops then ops else c # ops)"

definition create_succeeds :: "js_runtime \<Rightarrow> operation \<Rightarrow> api_incident \<Rightarrow> board_state \<Rightarrow> board_state" where
  "create_succeeds rt o1 i s =
     s\<lparr>bd_epoch := bd_epoch s + 1, bd_ops := insert_created (created_card rt o1 i) (bd_ops s)\<rparr>"

definition create_fails :: "board_state \<Rightarrow> board_state" where
  "create_fails s = log_fx (FxError ''createFailed'') s"

text \<open>\<^verbatim>\<open>parseInt(s) || 0\<close>: leading white space, a sign, then the longest run of digits.\<close>

definition parse_int_or_zero :: "string \<Rightarrow> int" where
  "parse_int_or_zero s =
     (let t = trim_start s;
          (neg, digits) = (case t of
             c # cs \<Rightarrow> if c = CHR ''-'' then (True, cs) else if c = CHR ''+'' then (False, cs) else (False, t)
           | [] \<Rightarrow> (False, []));
          n = int (read_digits 0 (takeWhile is_digit digits))
      in if neg then - n else n)"

definition show_int :: "int \<Rightarrow> string" where
  "show_int n = (if n < 0 then CHR ''-'' # show_nat (nat (- n)) else show_nat (nat n))"

text \<open>\<^verbatim>\<open>Math.max()\<close> of nothing is \<open>-Infinity\<close>.\<close>

definition get_next_operation_id :: "operation list \<Rightarrow> string" where
  "get_next_operation_id ops =
     (case map (\<lambda>o1. parse_int_or_zero (op_id o1)) ops of
        [] \<Rightarrow> ''-Infinity''
      | n # ns \<Rightarrow> show_int (foldl max n ns + 1))"

definition create_offline :: "ms \<Rightarrow> board_view \<Rightarrow> operation \<Rightarrow> board_state \<Rightarrow> board_state" where
  "create_offline now view o1 s =
     s\<lparr>bd_ops := (o1\<lparr>op_id := get_next_operation_id (bv_ops view), op_dispatchTime := Some now,
         op_statusChangedAt := None, op_hasCompletedReko := False, op_rekoArrivedAt := None,
         op_rekoSummary := None, op_leaderId := None, op_leaderName := None,
         op_materialAssignments := Map.empty\<rparr>) # bd_ops s\<rparr>"

text \<open>Nothing changes before the answer, so the action is its answer: \<open>post\<close> is what the server says to
  the payload.\<close>

definition create_operation ::
  "js_runtime \<Rightarrow> ms \<Rightarrow> board_view \<Rightarrow> operation \<Rightarrow> (incident_create \<Rightarrow> js_error + api_incident) \<Rightarrow> board_state \<Rightarrow> board_state" where
  "create_operation rt now view o1 post s =
     (case bv_event view of
        None \<Rightarrow> s
      | Some event \<Rightarrow>
          if bv_loaded view
          then (case post (operation_to_incident_create rt o1 event) of
                  Inr i \<Rightarrow> create_succeeds rt o1 i s
                | Inl err \<Rightarrow> create_fails s)
          else create_offline now view o1 s)"

section \<open>Restore, merge, delete\<close>

definition restore_outcome_of :: "js_error + js_value option \<Rightarrow> restore_outcome" where
  "restore_outcome_of r =
     (case r of
        Inr (Some _) \<Rightarrow> ROk
      | Inr None \<Rightarrow> RNetwork
      | Inl err \<Rightarrow> if is_conflict_error err then RConflict else RError)"

definition handle_restore :: "js_error + js_value option \<Rightarrow> board_state \<Rightarrow> board_state" where
  "handle_restore r s =
     (case decide_restore_action (restore_outcome_of r) of
        ActionError \<Rightarrow> log_fx (FxError ''restoreFailed'') s
      | RefreshSuccess \<Rightarrow> log_fx (FxSuccess ''restored'') (log_fx FxRefresh s)
      | RefreshSilent \<Rightarrow> log_fx FxRefresh s)"

definition already_separated :: string where
  "already_separated = ''Diese Meldung ist nicht zusammengef'' @ [char_of (252 :: nat)] @ ''hrt.''"

text \<open>The answer says whether the note could be removed; the result is what the promise resolves to.\<close>

definition undo_merge :: "js_error + bool \<Rightarrow> board_state \<Rightarrow> bool \<times> board_state" where
  "undo_merge r s =
     (case r of
        Inr noteRemoved \<Rightarrow>
          (True, log_fx (FxSuccess (if noteRemoved then ''unmerged'' else ''unmerged noteKept''))
                   (log_fx FxRefresh (s\<lparr>bd_epoch := bd_epoch s + 1\<rparr>)))
      | Inl err \<Rightarrow>
          if is_conflict_error err
          then
            (case err of
               ErrApi e \<Rightarrow>
                 if ae_message e = already_separated then (True, log_fx FxRefresh s)
                 else (False, log_fx (FxError (''unmergeFailed '' @ ae_message e)) (log_fx FxRefresh s))
             | _ \<Rightarrow> (False, s))
          else (False, log_fx (FxError ''unmergeFailed'') s))"

definition target_label_for :: "(operation \<Rightarrow> string) \<Rightarrow> board_view \<Rightarrow> ident \<Rightarrow> api_incident \<Rightarrow> string" where
  "target_label_for label view target fallback =
     (case List.find (\<lambda>o1. op_id o1 = target) (bv_ops view) of
        Some o1 \<Rightarrow> label o1
      | None \<Rightarrow> or_str (i_location_display fallback) (or_str (i_location_address fallback) (i_title fallback)))"

definition merge_failed :: "js_error \<Rightarrow> board_state \<Rightarrow> board_state" where
  "merge_failed err s =
     (case err of
        ErrApi e \<Rightarrow> if is_conflict_error err then log_fx (FxError (''mergeFailed '' @ ae_message e)) s else s
      | _ \<Rightarrow> log_fx (FxError ''mergeFailed'') s)"

definition merge_into ::
  "js_runtime \<Rightarrow> (operation \<Rightarrow> string) \<Rightarrow> board_view \<Rightarrow> operation \<Rightarrow> ident
     \<Rightarrow> (incident_create \<Rightarrow> js_error + api_incident) \<Rightarrow> board_state \<Rightarrow> bool \<times> board_state" where
  "merge_into rt label view o1 target post s =
     (case bv_event view of
        None \<Rightarrow> (False, s)
      | Some event \<Rightarrow>
          (case post (operation_to_incident_create rt o1 event) of
             Inr t \<Rightarrow> (True, log_fx (FxToast (''merged '' @ target_label_for label view target t))
                              (log_fx FxRefresh (s\<lparr>bd_epoch := bd_epoch s + 1\<rparr>)))
           | Inl err \<Rightarrow> (False, merge_failed err s)))"

definition merge_existing ::
  "(operation \<Rightarrow> string) \<Rightarrow> board_view \<Rightarrow> ident \<Rightarrow> ident \<Rightarrow> js_error + api_incident \<Rightarrow> board_state \<Rightarrow> bool \<times> board_state" where
  "merge_existing label view i target r s =
     (case r of
        Inr t \<Rightarrow> (True, log_fx (FxToast (''merged '' @ target_label_for label view target t))
                         (log_fx FxRefresh (s\<lparr>bd_epoch := bd_epoch s + 1,
                            bd_ops := filter (\<lambda>o1. op_id o1 \<noteq> i) (bd_ops s)\<rparr>)))
      | Inl err \<Rightarrow> (False, merge_failed err s))"

definition still_has_material :: "operation list \<Rightarrow> ident \<Rightarrow> ident \<Rightarrow> bool" where
  "still_has_material ops opId m = js_some (\<lambda>o1. op_id o1 \<noteq> opId \<and> material_holds m o1) ops"

text \<open>The delete once the server has answered (or at once on a board that was never loaded).\<close>

definition delete_succeeds :: "board_view \<Rightarrow> ident \<Rightarrow> board_state \<Rightarrow> board_state" where
  "delete_succeeds view i s =
     (case List.find (\<lambda>o1. op_id o1 = i) (bv_ops view) of
        None \<Rightarrow> s
      | Some o1 \<Rightarrow>
          let people = foldl (\<lambda>ps m.
                if js_some (\<lambda>p. p_id p = cm_personnelId m) (bv_people view) \<and> \<not> still_in_crew (bv_ops view) i (cm_personnelId m)
                then modify_row p_id (cm_personnelId m) (\<lambda>p. p\<lparr>p_status := PAvailable\<rparr>) ps else ps)
                (bd_people s) (op_crew o1);
              mats = foldl (\<lambda>ms x.
                if js_some (\<lambda>m. m_id m = x) (bv_mats view) \<and> \<not> still_has_material (bv_ops view) i x
                then modify_row m_id x (\<lambda>m. m\<lparr>m_status := MAvailable\<rparr>) ms else ms)
                (bd_mats s) (op_materials o1);
              s1 = s\<lparr>bd_people := people, bd_mats := mats, bd_epoch := bd_epoch s + 1,
                     bd_ops := filter (\<lambda>o1. op_id o1 \<noteq> i) (bd_ops s)\<rparr>
          in if bv_loaded view then log_fx (FxToast ''deleted'') s1 else s1)"

definition delete_begins :: "board_view \<Rightarrow> ident \<Rightarrow> board_state \<Rightarrow> board_state" where
  "delete_begins view i s =
     (if List.find (\<lambda>o1. op_id o1 = i) (bv_ops view) = None then s
      else if bv_loaded view then log_fx (FxDelete i) s
      else delete_succeeds view i s)"

section \<open>The cooldown invariant\<close>

text \<open>\<open>k\<close> counts the holds of the actions beside these (the assignments of \<open>ResourceActions\<close>).\<close>

definition cooldown_inv :: "nat \<Rightarrow> board_state \<Rightarrow> bool" where
  "cooldown_inv k s \<longleftrightarrow>
     distinct (map fst (bd_pending s))
     \<and> bd_holds s = length (bd_pending s) + length (bd_jobs s) + bd_releases s
         + (if bd_reorderInFlight s then 1 else 0) + k"

definition hold_parts :: "board_state \<Rightarrow> (ident \<times> pending_batch) list \<times> nat \<times> nat \<times> nat \<times> bool" where
  "hold_parts s = (bd_pending s, bd_holds s, length (bd_jobs s), bd_releases s, bd_reorderInFlight s)"

lemma cooldown_inv_parts: "hold_parts s = hold_parts t \<Longrightarrow> cooldown_inv k s = cooldown_inv k t"
  by (simp add: hold_parts_def cooldown_inv_def)

lemma hold_parts_log [simp]: "hold_parts (log_fx e s) = hold_parts s"
  by (simp add: hold_parts_def log_fx_def)

section \<open>Lemmas: rows and cards\<close>

interpretation card_update: row_edit op_id "optimistic_card now u clears" for now u clears
  by unfold_locales (simp add: optimistic_card_def Let_def)

lemma optimistic_complete:
  "up_status u = Some Complete \<Longrightarrow>
     op_status (optimistic_card now u c o1) = Complete \<and> op_crew (optimistic_card now u c o1) = []
     \<and> op_vehicles (optimistic_card now u c o1) = [] \<and> op_materials (optimistic_card now u c o1) = op_materials o1"
  by (simp add: optimistic_card_def Let_def)

lemma normalize_status [simp]: "up_status (normalize_update u) = up_status u"
  "up_amWarten (normalize_update u) = up_amWarten u"
  by (simp_all add: normalize_update_def)

text \<open>What each stage of an edit touches.\<close>

lemma record_edit_keeps [simp]:
  "bd_ops (record_edit v i u c cf cl s) = bd_ops s" "bd_people (record_edit v i u c cf cl s) = bd_people s"
  "hold_parts (record_edit v i u c cf cl s) = hold_parts s"
  "bd_pending (record_edit v i u c cf cl s) = bd_pending s" "bd_jobs (record_edit v i u c cf cl s) = bd_jobs s"
  "bd_guards (record_edit v i u c cf cl s) = (if bv_loaded v then set_guard i u c cf (bd_guards s) else bd_guards s)"
  by (simp_all add: record_edit_def Let_def log_fx_def hold_parts_def)

lemma optimistic_write_keeps [simp]:
  "hold_parts (optimistic_write now v i u cl s) = hold_parts s"
  "bd_pending (optimistic_write now v i u cl s) = bd_pending s" "bd_jobs (optimistic_write now v i u cl s) = bd_jobs s"
  "bd_guards (optimistic_write now v i u cl s) = bd_guards s"
  "bd_ops (optimistic_write now v i u cl s) = modify_row op_id i (optimistic_card now u cl) (bd_ops s)"
  "bd_people (optimistic_write now v i u cl s) =
     (if up_status u = Some Complete then release_crew v i (bd_people s) else bd_people s)"
  by (simp_all add: optimistic_write_def hold_parts_def)

lemma hold_for_batch_keeps [simp]:
  "bd_ops (hold_for_batch v i s) = bd_ops s" "bd_people (hold_for_batch v i s) = bd_people s"
  "bd_pending (hold_for_batch v i s) = bd_pending s" "bd_jobs (hold_for_batch v i s) = bd_jobs s"
  "bd_guards (hold_for_batch v i s) = bd_guards s" "bd_releases (hold_for_batch v i s) = bd_releases s"
  "bd_reorderInFlight (hold_for_batch v i s) = bd_reorderInFlight s"
  "bd_holds (hold_for_batch v i s) =
     (if bv_loaded v \<and> map_of (bd_pending s) i \<noteq> None then bd_holds s else bd_holds s + 1)"
  by (simp_all add: hold_for_batch_def arm_cooldown_def)

lemma schedule_batch_keeps [simp]:
  "bd_ops (schedule_batch i u sc b s) = bd_ops s" "bd_people (schedule_batch i u sc b s) = bd_people s"
  "bd_jobs (schedule_batch i u sc b s) = bd_jobs s" "bd_guards (schedule_batch i u sc b s) = bd_guards s"
  "bd_releases (schedule_batch i u sc b s) = bd_releases s" "bd_holds (schedule_batch i u sc b s) = bd_holds s"
  "bd_reorderInFlight (schedule_batch i u sc b s) = bd_reorderInFlight s"
  by (simp_all add: schedule_batch_def Let_def)

lemma release_cooldown_keeps [simp]:
  "bd_ops (release_cooldown s) = bd_ops s" "bd_people (release_cooldown s) = bd_people s"
  by (simp_all add: release_cooldown_def)

lemma update_operation_ops:
  "bd_ops (update_operation now view i upd cf s) =
     modify_row op_id i (optimistic_card now (normalize_update upd)
       (clears_am_warten (normalize_update upd) (List.find (\<lambda>o1. op_id o1 = i) (bv_ops view)))) (bd_ops s)"
  by (simp add: update_operation_def Let_def)

lemma update_operation_people:
  "bd_people (update_operation now view i upd cf s) =
     (if up_status upd = Some Complete then release_crew view i (bd_people s) else bd_people s)"
  by (simp add: update_operation_def Let_def)

text \<open>The batch an edit of a loaded board leaves, and the job its flush makes of it.\<close>

lemma update_operation_pending:
  "bv_loaded view \<Longrightarrow>
     map_option pb_updates (map_of (bd_pending (update_operation now view i upd cf s)) i) =
       Some (merge_update (case map_of (bd_pending s) i of None \<Rightarrow> no_update | Some b \<Rightarrow> pb_updates b) (normalize_update upd))"
  by (simp add: update_operation_def schedule_batch_def Let_def cong: option.case_cong)

lemma update_operation_guards:
  "bv_loaded view \<Longrightarrow>
     bd_guards (update_operation now view i upd cf s) =
       set_guard i (normalize_update upd) (List.find (\<lambda>o1. op_id o1 = i) (bv_ops view)) cf (bd_guards s)"
  by (simp add: update_operation_def Let_def)

lemma update_operation_jobs: "bd_jobs (update_operation now view i upd cf s) = bd_jobs s"
  by (simp add: update_operation_def Let_def release_cooldown_def)

lemma flush_batch_job:
  assumes "map_option pb_updates (map_of (bd_pending s) i) = Some u"
  shows "\<exists>job. bd_jobs (flush_batch i s) = bd_jobs s @ [job] \<and> jb_op job = i \<and> jb_updates job = u \<and>
           jb_guard job = (if up_status u \<noteq> None then bd_guards s i else None)"
    and "bd_guards (flush_batch i s) i = None"
  using assms by (auto simp: flush_batch_def Let_def)

lemma release_crew_status:
  assumes "List.find (\<lambda>o1. op_id o1 = i) (bv_ops view) = Some o1"
  shows "map (\<lambda>p. (p_id p, p_status p)) (release_crew view i people) =
    map (\<lambda>p. (p_id p, if crew_holds (p_id p) o1 \<and> \<not> still_in_crew (bv_ops view) i (p_id p) then PAvailable else p_status p)) people"
  using assms by (simp add: release_crew_def)

section \<open>Lemmas: the cooldown\<close>

datatype incident_event =
    IaUpdate ms board_view ident op_update "status_guard option"
  | IaFlush ident
  | IaSend nat
  | IaSettle ms nat "js_error option"
  | IaTimer
  | IaReorder board_view "ident list"
  | IaReorderSettles ident bool
  | IaToTop ms board_view ident incident_status op_update
  | IaCreate ms board_view operation "incident_create \<Rightarrow> js_error + api_incident"
  | IaRestore "js_error + js_value option"
  | IaUndoMerge "js_error + bool"
  | IaMergeInto "operation \<Rightarrow> string" board_view operation ident "incident_create \<Rightarrow> js_error + api_incident"
  | IaMergeExisting "operation \<Rightarrow> string" board_view ident ident "js_error + api_incident"
  | IaDelete board_view ident
  | IaDeleted board_view ident

fun incident_step :: "js_runtime \<Rightarrow> board_state \<Rightarrow> incident_event \<Rightarrow> board_state" where
  "incident_step rt s (IaUpdate now view i u cf) = update_operation now view i u cf s"
| "incident_step rt s (IaFlush i) = flush_batch i s"
| "incident_step rt s (IaSend n) = send_job rt n s"
| "incident_step rt s (IaSettle now n r) = settle_job rt now n r s"
| "incident_step rt s IaTimer = hold_expires s"
| "incident_step rt s (IaReorder view ids) = reorder_column view ids s"
| "incident_step rt s (IaReorderSettles ev ok) = reorder_settles ev ok s"
| "incident_step rt s (IaToTop now view i st extra) = change_status_to_top now view i st extra s"
| "incident_step rt s (IaCreate now view o1 post) = create_operation rt now view o1 post s"
| "incident_step rt s (IaRestore r) = handle_restore r s"
| "incident_step rt s (IaUndoMerge r) = snd (undo_merge r s)"
| "incident_step rt s (IaMergeInto label view o1 target post) = snd (merge_into rt label view o1 target post s)"
| "incident_step rt s (IaMergeExisting label view i target r) = snd (merge_existing label view i target r s)"
| "incident_step rt s (IaDelete view i) = delete_begins view i s"
| "incident_step rt s (IaDeleted view i) = delete_succeeds view i s"

lemma length_map_set: "length (map_set k v xs) = (if map_of xs k = None then length xs + 1 else length xs)"
  by (induction xs) auto

lemma keys_map_set: "map fst (map_set k v xs) = (if map_of xs k = None then map fst xs @ [k] else map fst xs)"
  by (induction xs) auto

lemma distinct_map_set: "distinct (map fst xs) \<Longrightarrow> distinct (map fst (map_set k v xs))"
  by (auto simp: keys_map_set map_of_eq_None_iff)

lemma length_map_delete:
  "distinct (map fst xs) \<Longrightarrow> map_of xs k = Some v \<Longrightarrow> length xs = length (map_delete k xs) + 1"
proof (induction xs)
  case (Cons x xs)
  show ?case
  proof (cases "fst x = k")
    case True
    with Cons.prems have "map_delete k xs = xs"
      by (auto simp: map_delete_def filter_id_conv image_iff)
    with True show ?thesis by (cases x) (simp add: map_delete_def)
  next
    case False
    with Cons show ?thesis by (cases x) (simp add: map_delete_def)
  qed
qed simp

lemma distinct_map_delete: "distinct (map fst xs) \<Longrightarrow> distinct (map fst (map_delete k xs))"
  by (simp add: map_delete_def distinct_map_filter)

text \<open>How each step moves the parts the cooldown counts.\<close>

lemma cooldown_schedule:
  assumes d: "distinct (map fst (bd_pending s))"
    and h: "bd_holds s = length (bd_pending s) + length (bd_jobs s) + bd_releases s
         + (if bd_reorderInFlight s then 1 else 0)
         + (if map_of (bd_pending s) i = None then 1 else 0) + k"
  shows "cooldown_inv k (schedule_batch i u scope b s)"
proof -
  let ?b = "schedule_batch i u scope b s"
  obtain pb where p: "bd_pending ?b = map_set i pb (bd_pending s)" by (simp add: schedule_batch_def Let_def)
  have "distinct (map fst (bd_pending ?b))" unfolding p by (rule distinct_map_set [OF d])
  moreover have "length (bd_pending ?b) = length (bd_pending s) + (if map_of (bd_pending s) i = None then 1 else 0)"
    by (simp add: p length_map_set)
  ultimately show ?thesis using h by (simp only: cooldown_inv_def schedule_batch_keeps) simp
qed

lemma cooldown_update: "cooldown_inv k s \<Longrightarrow> cooldown_inv k (update_operation now view i upd cf s)"
proof -
  assume inv: "cooldown_inv k s"
  let ?u = "normalize_update upd" and ?cur = "List.find (\<lambda>o1. op_id o1 = i) (bv_ops view)"
  define t where "t = optimistic_write now view i ?u (clears_am_warten ?u ?cur)
      (record_edit view i ?u ?cur cf (clears_am_warten ?u ?cur) s)"
  have "hold_parts t = hold_parts s" by (simp add: t_def)
  with inv have t: "cooldown_inv k t" by (metis cooldown_inv_parts)
  have eq: "update_operation now view i upd cf s =
      (if bv_loaded view then schedule_batch i ?u (fs_scope (bd_fs s)) (is_reopening ?u ?cur) (hold_for_batch view i t)
       else release_cooldown (hold_for_batch view i t))"
    by (simp add: update_operation_def t_def Let_def)
  show ?thesis
  proof (cases "bv_loaded view")
    case False
    with t show ?thesis by (simp add: eq release_cooldown_def cooldown_inv_def)
  next
    case True
    have "cooldown_inv k (schedule_batch i ?u sc b (hold_for_batch view i t))" for sc b
    proof (rule cooldown_schedule)
      show "distinct (map fst (bd_pending (hold_for_batch view i t)))" using t by (simp add: cooldown_inv_def)
      show "bd_holds (hold_for_batch view i t) = length (bd_pending (hold_for_batch view i t))
          + length (bd_jobs (hold_for_batch view i t)) + bd_releases (hold_for_batch view i t)
          + (if bd_reorderInFlight (hold_for_batch view i t) then 1 else 0)
          + (if map_of (bd_pending (hold_for_batch view i t)) i = None then 1 else 0) + k"
        using t True by (cases "map_of (bd_pending t) i") (simp_all only: cooldown_inv_def hold_for_batch_keeps, simp_all)
    qed
    with True show ?thesis by (simp add: eq)
  qed
qed

lemma cooldown_flush: "cooldown_inv k s \<Longrightarrow> cooldown_inv k (flush_batch i s)"
  by (auto simp: cooldown_inv_def flush_batch_def Let_def distinct_map_delete length_map_delete
      split: option.splits dest: length_map_delete)

lemma cooldown_send: "cooldown_inv k s \<Longrightarrow> cooldown_inv k (send_job rt n s)"
  by (simp add: cooldown_inv_def send_job_def Let_def log_fx_def split: prod.splits)

lemma hold_parts_failed: "hold_parts (job_failed err j s) = hold_parts s"
  by (simp add: job_failed_def Let_def) (simp add: hold_parts_def)

lemma cooldown_settle: "cooldown_inv k s \<Longrightarrow> cooldown_inv k (settle_job rt now n r s)"
proof -
  assume inv: "cooldown_inv k s"
  show ?thesis
  proof (cases "n < length (bd_jobs s) \<and> jb_state (bd_jobs s ! n) \<noteq> JWaiting")
    case False
    then have "settle_job rt now n r s = s" unfolding settle_job_def by (rule if_not_P)
    with inv show ?thesis by simp
  next
    case True
    let ?j = "bd_jobs s ! n"
    let ?res = "if jb_state ?j = JDropped then None else r"
    let ?s1 = "s\<lparr>bd_jobs := take n (bd_jobs s) @ drop (Suc n) (bd_jobs s), bd_fs := settle_fields rt now ?j ?res (bd_fs s)\<rparr>"
    let ?s2 = "case ?res of None \<Rightarrow> if jb_reopening ?j then log_fx FxRefresh ?s1 else ?s1 | Some err \<Rightarrow> job_failed err ?j ?s1"
    have eq: "settle_job rt now n r s = release_cooldown (?s2\<lparr>bd_critical := False\<rparr>)"
      using True by (simp add: settle_job_def Let_def)
    have "hold_parts ?s2 = hold_parts ?s1" by (simp add: hold_parts_failed split: option.split)
    then have "bd_pending ?s2 = bd_pending s" "bd_holds ?s2 = bd_holds s" "bd_releases ?s2 = bd_releases s"
      "bd_reorderInFlight ?s2 = bd_reorderInFlight s" "length (bd_jobs ?s2) + 1 = length (bd_jobs s)"
      using True by (auto simp: hold_parts_def)
    with inv show ?thesis by (simp add: eq cooldown_inv_def release_cooldown_def)
  qed
qed

lemma cooldown_next:
  "cooldown_inv k s \<Longrightarrow> \<not> bd_reorderInFlight s \<Longrightarrow> cooldown_inv k (reorder_next ev (s\<lparr>bd_reorderInFlight := True\<rparr>))"
  by (simp add: cooldown_inv_def reorder_next_def log_fx_def arm_cooldown_def split: option.splits)

lemma cooldown_reorder: "cooldown_inv k s \<Longrightarrow> cooldown_inv k (reorder_column view ids s)"
  by (simp add: reorder_column_def Let_def reorder_next_def log_fx_def arm_cooldown_def cooldown_inv_def
      split: option.splits)

lemma cooldown_reorder_settles: "cooldown_inv k s \<Longrightarrow> cooldown_inv k (reorder_settles ev ok s)"
  by (simp add: reorder_settles_def reorder_next_def release_cooldown_def log_fx_def arm_cooldown_def
      cooldown_inv_def split: option.splits)

lemma cooldown_timer: "cooldown_inv k s \<Longrightarrow> cooldown_inv k (hold_expires s)"
  by (simp add: hold_expires_def cooldown_inv_def)

lemma cooldown_top: "cooldown_inv k s \<Longrightarrow> cooldown_inv k (change_status_to_top now view i st extra s)"
proof -
  assume "cooldown_inv k s"
  then have "cooldown_inv k (update_operation now view i (merge_update (no_update\<lparr>up_status := Some st\<rparr>) extra) None s)"
    (is "cooldown_inv k ?s1") by (rule cooldown_update)
  then have "cooldown_inv k (case List.find (\<lambda>o1. op_id o1 = i) (bd_ops ?s1) of None \<Rightarrow> ?s1
      | Some target \<Rightarrow> ?s1\<lparr>bd_ops := target # filter (\<lambda>o1. op_id o1 \<noteq> i) (bd_ops ?s1)\<rparr>)"
    by (simp add: cooldown_inv_def split: option.split)
  then show ?thesis unfolding change_status_to_top_def Let_def by (rule cooldown_reorder)
qed

text \<open>Create, restore, merge and delete take no hold.\<close>

lemma hold_parts_create [simp]: "hold_parts (create_operation rt now view o1 post s) = hold_parts s"
  by (simp add: create_operation_def create_succeeds_def create_fails_def create_offline_def split: option.split sum.split)
    (simp add: hold_parts_def)

lemma hold_parts_restore [simp]: "hold_parts (handle_restore r s) = hold_parts s"
  by (simp add: handle_restore_def split: restore_action.split)

lemma hold_parts_epoch [simp]: "hold_parts (s\<lparr>bd_epoch := n\<rparr>) = hold_parts s" "hold_parts (s\<lparr>bd_ops := ops\<rparr>) = hold_parts s"
  by (simp_all add: hold_parts_def)

lemma hold_parts_unmerge [simp]: "hold_parts (snd (undo_merge r s)) = hold_parts s"
  by (simp add: undo_merge_def split: sum.split js_error.split)

lemma hold_parts_merge [simp]:
  "hold_parts (snd (merge_into rt label view o1 target post s)) = hold_parts s"
  "hold_parts (snd (merge_existing label view i target r s)) = hold_parts s"
  by (simp_all add: merge_into_def merge_existing_def merge_failed_def split: option.split sum.split js_error.split)

lemma hold_parts_deleted [simp]: "hold_parts (delete_succeeds view i s) = hold_parts s"
  by (simp add: delete_succeeds_def Let_def split: option.split) (simp add: hold_parts_def log_fx_def)

lemma hold_parts_delete [simp]: "hold_parts (delete_begins view i s) = hold_parts s"
  by (simp add: delete_begins_def)

lemma cooldown_keep: "cooldown_inv k s \<Longrightarrow> hold_parts t = hold_parts s \<Longrightarrow> cooldown_inv k t"
  by (simp add: hold_parts_def cooldown_inv_def)

lemma cooldown_step: "cooldown_inv k s \<Longrightarrow> cooldown_inv k (incident_step rt s e)"
  by (cases e) (auto intro: cooldown_update cooldown_flush cooldown_send cooldown_settle cooldown_timer
      cooldown_reorder cooldown_reorder_settles cooldown_top cooldown_keep)

definition empty_board :: board_state where
  "empty_board = \<lparr>bd_ops = [], bd_people = [], bd_mats = [], bd_epoch = 0, bd_holds = 0, bd_releases = 0,
     bd_critical = False, bd_guards = Map.empty, bd_pending = [], bd_jobs = [], bd_queuedReorder = None,
     bd_reorderInFlight = False, bd_fs = new_field_save, bd_conflicts = \<lparr>cf_open = None, cf_reported = []\<rparr>,
     bd_recent = Map.empty, bd_log = []\<rparr>"

section \<open>Properties\<close>

text \<open>
  Closing an incident empties its card and frees its crew, and nothing else: every card
  with that id is complete and has neither crew nor vehicles but keeps its devices, every other card is as
  it was, and exactly those of its crew who stand on no other card are available.
\<close>

theorem completing_releases_the_crew:
  assumes "up_status upd = Some Complete" and "List.find (\<lambda>o1. op_id o1 = i) (bv_ops view) = Some o1"
    and "s' = update_operation now view i upd cf s"
  shows "map (\<lambda>c. (op_id c, op_status c, op_crew c, op_vehicles c, op_materials c)) (bd_ops s') =
         map (\<lambda>c. if op_id c = i then (op_id c, Complete, [], [], op_materials c)
                  else (op_id c, op_status c, op_crew c, op_vehicles c, op_materials c)) (bd_ops s) \<and>
         filter (\<lambda>c. op_id c \<noteq> i) (bd_ops s') = filter (\<lambda>c. op_id c \<noteq> i) (bd_ops s) \<and>
         map (\<lambda>p. (p_id p, p_status p)) (bd_people s') =
         map (\<lambda>p. (p_id p, if crew_holds (p_id p) o1 \<and> \<not> still_in_crew (bv_ops view) i (p_id p)
                           then PAvailable else p_status p)) (bd_people s)"
proof (intro conjI)
  from assms show "map (\<lambda>p. (p_id p, p_status p)) (bd_people s') =
      map (\<lambda>p. (p_id p, if crew_holds (p_id p) o1 \<and> \<not> still_in_crew (bv_ops view) i (p_id p)
                        then PAvailable else p_status p)) (bd_people s)"
    by (simp add: update_operation_people release_crew_status)
  show "filter (\<lambda>c. op_id c \<noteq> i) (bd_ops s') = filter (\<lambda>c. op_id c \<noteq> i) (bd_ops s)"
    unfolding assms(3) update_operation_ops by (rule modify_row_filter_other) (rule card_update.keeps_key)
  show "map (\<lambda>c. (op_id c, op_status c, op_crew c, op_vehicles c, op_materials c)) (bd_ops s') =
         map (\<lambda>c. if op_id c = i then (op_id c, Complete, [], [], op_materials c)
                  else (op_id c, op_status c, op_crew c, op_vehicles c, op_materials c)) (bd_ops s)"
    unfolding assms(3) update_operation_ops modify_row_def
    using assms(1) by (simp add: optimistic_complete card_update.keeps_key)
qed

theorem completing_releases_the_crew_witness:
  "\<forall>rt. map p_status (bd_people (update_operation 5
      (view_on [(blank_card ''a'' Active)\<lparr>op_crew := [\<lparr>cm_personnelId = ''p'', cm_assignmentId = None, cm_name = ''P''\<rparr>]\<rparr>])
      ''a'' (no_update\<lparr>up_status := Some Complete\<rparr>) None
      (empty_board\<lparr>bd_people := [(blank_person ''p'')\<lparr>p_status := PAssigned\<rparr>]\<rparr>))) = [PAvailable]"
proof -
  let ?c = "(blank_card ''a'' Active)\<lparr>op_crew := [\<lparr>cm_personnelId = ''p'', cm_assignmentId = None, cm_name = ''P''\<rparr>]\<rparr>"
  let ?v = "(view_on [?c])"
  let ?u = "no_update\<lparr>up_status := Some Complete\<rparr>"
  let ?s = "empty_board\<lparr>bd_people := [(blank_person ''p'')\<lparr>p_status := PAssigned\<rparr>]\<rparr>"
  have h: "up_status ?u = Some Complete" "List.find (\<lambda>o1. op_id o1 = ''a'') (bv_ops ?v) = Some ?c"
    by simp_all
  have "map (\<lambda>p. (p_id p, p_status p)) (bd_people (update_operation 5 ?v ''a'' ?u None ?s)) = [(''p'', PAvailable)]"
    using completing_releases_the_crew [OF h refl, of 5 None ?s]
    by (simp add: crew_holds_def still_in_crew_def)
  then show ?thesis by auto
qed

text \<open>
  C23. The request that carries a status move names the status this board showed when the
  first move of its batch was made: two moves of one card before the debounce fires leave as one PATCH from
  the first status to the last one, unless the operator confirmed an override.
\<close>

theorem merged_move_keeps_first_status:
  assumes "bv_loaded v1" "bv_loaded v2" "up_status u1 = Some st1" "up_status u2 = Some st2"
    and "List.find (\<lambda>o1. op_id o1 = i) (bv_ops v1) = Some c1"
    and "List.find (\<lambda>o1. op_id o1 = i) (bv_ops v2) = Some c2"
    and "bd_guards s i = None"
    and "t = flush_batch i (update_operation now2 v2 i u2 None (update_operation now1 v1 i u1 None s))"
  shows "\<exists>job. bd_jobs t = bd_jobs s @ [job] \<and> jb_op job = i \<and>
           au_from_status (api_of_update rt (jb_updates job) (jb_guard job)) = Some (op_status c1) \<and>
           au_override_status (api_of_update rt (jb_updates job) (jb_guard job)) = None \<and>
           au_status (api_of_update rt (jb_updates job) (jb_guard job)) = Some st2 \<and>
           bd_guards t i = None"
proof -
  let ?s1 = "update_operation now1 v1 i u1 None s"
  let ?s2 = "update_operation now2 v2 i u2 None ?s1"
  have g: "bd_guards ?s2 i = Some \<lparr>sg_seen = op_status c1, sg_override = None\<rparr>"
    using assms(1-7) by (simp add: update_operation_guards set_guard_def)
  from update_operation_pending [OF assms(2)] obtain u where
    u: "map_option pb_updates (map_of (bd_pending ?s2) i) = Some u" "up_status u = Some st2"
    using assms(4) by (simp add: merge_update_def)
  from flush_batch_job [OF u(1)] g u(2) show ?thesis
    by (auto simp: assms(8) api_of_update_def update_operation_jobs)
qed

theorem merged_move_keeps_first_status_witness:
  "\<forall>rt. \<exists>job. bd_jobs (flush_batch ''a'' (update_operation 6
        (view_on [blank_card ''a'' Active])
        ''a'' (no_update\<lparr>up_status := Some Returning\<rparr>) None
      (update_operation 5
        (view_on [blank_card ''a'' Enroute])
        ''a'' (no_update\<lparr>up_status := Some Active\<rparr>) None empty_board))) = [job] \<and>
     au_from_status (api_of_update rt (jb_updates job) (jb_guard job)) = Some Enroute"
proof
  fix rt
  let ?v = "\<lambda>st. (view_on [blank_card ''a'' st])"
  have h: "bv_loaded (?v Enroute)" "bv_loaded (?v Active)"
    "up_status (no_update\<lparr>up_status := Some Active\<rparr>) = Some Active"
    "up_status (no_update\<lparr>up_status := Some Returning\<rparr>) = Some Returning"
    "List.find (\<lambda>o1. op_id o1 = ''a'') (bv_ops (?v Enroute)) = Some (blank_card ''a'' Enroute)"
    "List.find (\<lambda>o1. op_id o1 = ''a'') (bv_ops (?v Active)) = Some (blank_card ''a'' Active)"
    "bd_guards empty_board ''a'' = None"
    by (simp_all add: empty_board_def)
  have "bd_jobs empty_board = []" by (simp add: empty_board_def)
  with merged_move_keeps_first_status [OF h refl, of 6 5 rt]
  show "\<exists>job. bd_jobs (flush_batch ''a'' (update_operation 6 (?v Active) ''a'' (no_update\<lparr>up_status := Some Returning\<rparr>) None
      (update_operation 5 (?v Enroute) ''a'' (no_update\<lparr>up_status := Some Active\<rparr>) None empty_board))) = [job] \<and>
     au_from_status (api_of_update rt (jb_updates job) (jb_guard job)) = Some Enroute" by auto
qed

text \<open>
  The flag Am Warten that a status move clears on the card is not cleared on the server:
  the board shows the card as no longer waiting and says so, but the PATCH of that move carries no
  \<^verbatim>\<open>am_warten\<close>, so the next load brings the flag back.
\<close>

theorem am_warten_clearing_is_not_sent:
  assumes "bv_loaded view" "up_status upd = Some st" "st \<in> {Enroute, Active, Returning, Complete}"
    and "up_amWarten upd = None" "map_of (bd_pending s) i = None"
    and "List.find (\<lambda>o1. op_id o1 = i) (bv_ops view) = Some o1" "op_amWarten o1"
    and "s' = update_operation now view i upd None s"
  shows "(case List.find (\<lambda>c. op_id c = i) (bd_ops s') of None \<Rightarrow> True | Some c \<Rightarrow> \<not> op_amWarten c) \<and>
         (\<exists>job. bd_jobs (flush_batch i s') = bd_jobs s @ [job] \<and>
                au_status (api_of_update rt (jb_updates job) (jb_guard job)) = Some st \<and>
                au_am_warten (api_of_update rt (jb_updates job) (jb_guard job)) = None)"
proof
  have clears: "clears_am_warten (normalize_update upd) (Some o1)"
    using assms by (auto simp: clears_am_warten_def am_warten_clearing_statuses_def)
  have "List.find (\<lambda>c. op_id c = i) (bd_ops s') =
      map_option (optimistic_card now (normalize_update upd) True) (List.find (\<lambda>c. op_id c = i) (bd_ops s))"
    using clears by (simp add: assms(8) update_operation_ops assms(6) card_update.find_hit)
  then show "case List.find (\<lambda>c. op_id c = i) (bd_ops s') of None \<Rightarrow> True | Some c \<Rightarrow> \<not> op_amWarten c"
    using assms(2) by (auto simp: optimistic_card_def Let_def split: option.splits)
  show "\<exists>job. bd_jobs (flush_batch i s') = bd_jobs s @ [job] \<and>
                au_status (api_of_update rt (jb_updates job) (jb_guard job)) = Some st \<and>
                au_am_warten (api_of_update rt (jb_updates job) (jb_guard job)) = None"
  proof -
    from update_operation_pending [OF assms(1), of now i upd None s] obtain u where
      u: "map_option pb_updates (map_of (bd_pending s') i) = Some u" "up_status u = Some st" "up_amWarten u = None"
      using assms(2,4,5) by (simp add: assms(8) merge_update_def no_update_def)
    from flush_batch_job(1) [OF u(1)] u(2,3) show ?thesis
      by (auto simp: api_of_update_def assms(8) update_operation_jobs)
  qed
qed

theorem am_warten_clearing_is_not_sent_witness:
  "\<forall>rt. \<exists>job. bd_jobs (flush_batch ''a'' (update_operation 5
        (view_on [(blank_card ''a'' Incoming)\<lparr>op_amWarten := True\<rparr>])
        ''a'' (no_update\<lparr>up_status := Some Active\<rparr>) None empty_board)) = [job] \<and>
     au_am_warten (api_of_update rt (jb_updates job) (jb_guard job)) = None"
proof
  fix rt
  let ?c = "(blank_card ''a'' Incoming)\<lparr>op_amWarten := True\<rparr>"
  let ?v = "(view_on [?c])"
  let ?u = "no_update\<lparr>up_status := Some Active\<rparr>"
  have h: "bv_loaded ?v" "up_status ?u = Some Active" "Active \<in> {Enroute, Active, Returning, Complete}"
    "up_amWarten ?u = None" "map_of (bd_pending empty_board) ''a'' = None"
    "List.find (\<lambda>o1. op_id o1 = ''a'') (bv_ops ?v) = Some ?c" "op_amWarten ?c"
    by (simp_all add: empty_board_def no_update_def)
  have "bd_jobs empty_board = []" by (simp add: empty_board_def)
  with am_warten_clearing_is_not_sent [OF h refl, of 5 rt]
  show "\<exists>job. bd_jobs (flush_batch ''a'' (update_operation 5 ?v ''a'' ?u None empty_board)) = [job] \<and>
     au_am_warten (api_of_update rt (jb_updates job) (jb_guard job)) = None" by auto
qed

end
