(* ===== verification/ResourceActions.thy ===== *)
theory ResourceActions
  imports IncidentActions
begin

text \<open>
  \<^verbatim>\<open>contexts/operations/resource-actions.ts\<close> and \<^verbatim>\<open>assignment-refusal.ts\<close>: crew, Reko, devices and vehicles on
  and off an incident, the prompt for a double booking and the question for a driver. An action that awaits
  is split at the request: what runs before it is the function named after the action, which leaves a
  \<open>resource_call\<close> (the closure: the render it was made in and what it captured); what its answer runs is
  \<open>settle_call\<close>. The result is the promise's value: \<open>Some b\<close> at once, \<open>None\<close> while a call is out.
\<close>

section \<open>Why the server refused\<close>

definition race_details :: "string list" where
  "race_details = [''Konflikt bei der Verarbeitung'', ''Ressource bereits zugewiesen'']"

definition is_word_char :: "char \<Rightarrow> bool" where
  "is_word_char c = (let n = (of_char c :: nat) in
     (48 \<le> n \<and> n \<le> 57) \<or> (65 \<le> n \<and> n \<le> 90) \<or> n = 95 \<or> (97 \<le> n \<and> n \<le> 122))"

definition refusal_reason :: "js_error \<Rightarrow> string option" where
  "refusal_reason err =
     (case err of
        ErrApi e \<Rightarrow>
          if \<not> is_conflict_error err then None
          else
            let text = js_trim (ae_message e)
            in if text = [] \<or> js_includes race_details text
                  \<or> (starts_with text ''409'' \<and> (case drop 3 text of [] \<Rightarrow> True | c # _ \<Rightarrow> \<not> is_word_char c))
               then None else Some text
      | _ \<Rightarrow> None)"

definition assign_failure_description :: "js_error \<Rightarrow> string \<Rightarrow> string" where
  "assign_failure_description err name =
     nullish (refusal_reason err)
       ((if is_conflict_error err then ''assignConflict '' else ''assignFailed '') @ name)"

section \<open>State\<close>

record resource_conflict =
  rc_kind :: resource_kind
  rc_id :: ident
  rc_name :: string
  rc_target :: ident
  rc_targetLabel :: string
  rc_conflicts :: "(ident \<times> string) list"
  rc_custom :: bool

datatype resource_call =
    CallRemoveCrew board_view operation ident ident
  | CallRemoveReko operation named_person
  | CallRemoveMaterial board_view operation ident ident
  | CallRemoveVehicle operation ident ident
  | CallAssignPerson ident ident string
  | CallAssignReko operation ident string
  | CallAssignMaterial ident material
  | CallAssignVehicle board_view ident ident string
  | CallDriverCheck ident ident ident string

text \<open>Where a resolved prompt stands: it waits for the driver role, for its removals, for the caller's own
  resolver, or for the assign it ends with.\<close>

datatype conflict_move = MvDriver board_view resource_conflict | MvRemovals board_view resource_conflict | MvCustom | MvAssign

record resource_board =
  rb_board :: board_state
  rb_calls :: "resource_call list"
  rb_moves :: "conflict_move list"
  rb_conflict :: "resource_conflict option"
  rb_needsDriver :: "(ident \<times> string \<times> ident) option"
  rb_settling :: nat

definition on_board :: "(board_state \<Rightarrow> board_state) \<Rightarrow> resource_board \<Rightarrow> resource_board" where
  "on_board f rb = rb\<lparr>rb_board := f (rb_board rb)\<rparr>"

text \<open>\<^verbatim>\<open>setOperations\<close>, \<^verbatim>\<open>setPersonnel\<close> and \<^verbatim>\<open>setMaterials\<close> with a map over the row of an id.\<close>

definition edit_card :: "ident \<Rightarrow> (operation \<Rightarrow> operation) \<Rightarrow> board_state \<Rightarrow> board_state" where
  "edit_card i f s = s\<lparr>bd_ops := modify_row op_id i f (bd_ops s)\<rparr>"

definition edit_person :: "ident \<Rightarrow> (person \<Rightarrow> person) \<Rightarrow> board_state \<Rightarrow> board_state" where
  "edit_person i f s = s\<lparr>bd_people := modify_row p_id i f (bd_people s)\<rparr>"

definition edit_material :: "ident \<Rightarrow> (material \<Rightarrow> material) \<Rightarrow> board_state \<Rightarrow> board_state" where
  "edit_material i f s = s\<lparr>bd_mats := modify_row m_id i f (bd_mats s)\<rparr>"

definition person_status_to :: "person_status \<Rightarrow> person \<Rightarrow> person" where
  "person_status_to st p = p\<lparr>p_status := st\<rparr>"

definition material_status_to :: "material_status \<Rightarrow> material \<Rightarrow> material" where
  "material_status_to st m = m\<lparr>m_status := st\<rparr>"

definition set_recent :: "recent_removals \<Rightarrow> board_state \<Rightarrow> board_state" where
  "set_recent r s = s\<lparr>bd_recent := r\<rparr>"

definition crew_on :: "ident \<Rightarrow> string \<Rightarrow> operation \<Rightarrow> operation" where
  "crew_on p name o1 = o1\<lparr>op_crew := op_crew o1 @ [\<lparr>cm_personnelId = p, cm_assignmentId = None, cm_name = name\<rparr>]\<rparr>"

definition crew_off :: "ident \<Rightarrow> operation \<Rightarrow> operation" where
  "crew_off p o1 = o1\<lparr>op_crew := filter (\<lambda>m. cm_personnelId m \<noteq> p) (op_crew o1)\<rparr>"

definition crew_confirmed :: "ident \<Rightarrow> ident \<Rightarrow> operation \<Rightarrow> operation" where
  "crew_confirmed p a o1 =
     o1\<lparr>op_crew := map (\<lambda>m. if cm_personnelId m = p then m\<lparr>cm_assignmentId := Some a\<rparr> else m) (op_crew o1)\<rparr>"

definition material_on :: "ident \<Rightarrow> operation \<Rightarrow> operation" where
  "material_on m o1 = o1\<lparr>op_materials := op_materials o1 @ [m]\<rparr>"

definition material_off :: "ident \<Rightarrow> operation \<Rightarrow> operation" where
  "material_off m o1 = o1\<lparr>op_materials := filter (\<lambda>x. x \<noteq> m) (op_materials o1)\<rparr>"

definition material_removed :: "ident \<Rightarrow> operation \<Rightarrow> operation" where
  "material_removed m o1 = (material_off m o1)\<lparr>op_materialAssignments := (op_materialAssignments o1)(m := None)\<rparr>"

definition vehicle_on :: "ident \<Rightarrow> string \<Rightarrow> operation \<Rightarrow> operation" where
  "vehicle_on v name o1 =
     o1\<lparr>op_vehicles := op_vehicles o1 @ [\<lparr>ov_vehicleId = v, ov_assignmentId = None, ov_name = name,
          ov_callsign = None, ov_driverStay = None\<rparr>]\<rparr>"

definition vehicle_off :: "ident \<Rightarrow> operation \<Rightarrow> operation" where
  "vehicle_off v o1 = o1\<lparr>op_vehicles := filter (\<lambda>x. ov_vehicleId x \<noteq> v) (op_vehicles o1)\<rparr>"

definition vehicle_confirmed :: "ident \<Rightarrow> ident \<Rightarrow> bool \<Rightarrow> operation \<Rightarrow> operation" where
  "vehicle_confirmed v a stay o1 =
     o1\<lparr>op_vehicles := map (\<lambda>x. if ov_vehicleId x = v
            then x\<lparr>ov_assignmentId := Some a, ov_driverStay := Some stay\<rparr> else x) (op_vehicles o1)\<rparr>"

definition card_of :: "board_view \<Rightarrow> ident \<Rightarrow> operation option" where
  "card_of view i = List.find (\<lambda>o1. op_id o1 = i) (bv_ops view)"

definition person_of :: "board_view \<Rightarrow> ident \<Rightarrow> person option" where
  "person_of view p = List.find (\<lambda>x. p_id x = p) (bv_people view)"

definition material_of :: "board_view \<Rightarrow> ident \<Rightarrow> material option" where
  "material_of view m = List.find (\<lambda>x. m_id x = m) (bv_mats view)"

text \<open>A request goes out on a loaded board; otherwise the action is local and its hold runs out.\<close>

definition send_call :: "board_view \<Rightarrow> effect \<Rightarrow> resource_call \<Rightarrow> resource_board \<Rightarrow> bool option \<times> resource_board" where
  "send_call view fx c rb =
     (if bv_loaded view then (None, on_board (log_fx fx) (rb\<lparr>rb_calls := rb_calls rb @ [c]\<rparr>))
      else (Some True, on_board release_cooldown rb))"

section \<open>Taking off\<close>

definition crew_frees :: "board_view \<Rightarrow> ident \<Rightarrow> ident \<Rightarrow> bool" where
  "crew_frees view i p = (person_of view p \<noteq> None \<and> \<not> still_in_crew (bv_ops view) i p)"

definition drop_crew :: "ms \<Rightarrow> board_view \<Rightarrow> operation \<Rightarrow> ident \<Rightarrow> board_state \<Rightarrow> board_state" where
  "drop_crew now view o1 p s =
     (let s1 = edit_card (op_id o1) (crew_off p) (arm_cooldown s);
          s2 = (if crew_frees view (op_id o1) p then edit_person p (person_status_to PAvailable) s1 else s1)
      in if person_of view p \<noteq> None
         then set_recent (record_removal (bd_recent s2) p (op_id o1) (op_location o1) now) s2 else s2)"

definition crew_removal_failed :: "board_view \<Rightarrow> operation \<Rightarrow> ident \<Rightarrow> board_state \<Rightarrow> board_state" where
  "crew_removal_failed view o1 p s =
     (let s1 = edit_card (op_id o1) (\<lambda>_. o1) (log_fx (FxError ''removePersonFailed'') s)
      in case person_of view p of
           None \<Rightarrow> s1
         | Some x \<Rightarrow>
             (let s2 = (if crew_frees view (op_id o1) p then edit_person p (person_status_to (p_status x)) s1 else s1)
              in set_recent ((bd_recent s2)(p := None)) s2))"

definition remove_crew :: "ms \<Rightarrow> board_view \<Rightarrow> ident \<Rightarrow> ident \<Rightarrow> resource_board \<Rightarrow> bool option \<times> resource_board" where
  "remove_crew now view i p rb =
     (case card_of view i of
        None \<Rightarrow> (Some False, rb)
      | Some o1 \<Rightarrow>
          (case or_null (Option.bind (List.find (\<lambda>m. cm_personnelId m = p) (op_crew o1)) cm_assignmentId) of
             None \<Rightarrow> (Some False, rb)
           | Some a \<Rightarrow> send_call view (FxUnassign i a) (CallRemoveCrew view o1 p a) (on_board (drop_crew now view o1 p) rb)))"

definition remove_reko :: "board_view \<Rightarrow> ident \<Rightarrow> resource_board \<Rightarrow> resource_board" where
  "remove_reko view i rb =
     (case card_of view i of
        None \<Rightarrow> rb
      | Some o1 \<Rightarrow>
          (case op_assignedReko o1 of
             None \<Rightarrow> rb
           | Some r \<Rightarrow> snd (send_call view (FxUnassignReko i (np_id r)) (CallRemoveReko o1 r)
               (on_board (\<lambda>s. edit_card i (\<lambda>c. c\<lparr>op_assignedReko := None\<rparr>) (arm_cooldown s)) rb))))"

definition material_frees :: "board_view \<Rightarrow> ident \<Rightarrow> ident \<Rightarrow> bool" where
  "material_frees view i m = (material_of view m \<noteq> None \<and> \<not> still_has_material (bv_ops view) i m)"

definition drop_material :: "board_view \<Rightarrow> operation \<Rightarrow> ident \<Rightarrow> board_state \<Rightarrow> board_state" where
  "drop_material view o1 m s =
     (let s1 = edit_card (op_id o1) (material_removed m) (arm_cooldown s)
      in if material_frees view (op_id o1) m then edit_material m (material_status_to MAvailable) s1 else s1)"

definition material_removal_failed :: "board_view \<Rightarrow> operation \<Rightarrow> ident \<Rightarrow> board_state \<Rightarrow> board_state" where
  "material_removal_failed view o1 m s =
     (let s1 = edit_card (op_id o1) (\<lambda>_. o1) (log_fx (FxError ''removeMaterialFailed'') s)
      in case material_of view m of
           None \<Rightarrow> s1
         | Some x \<Rightarrow> if material_frees view (op_id o1) m then edit_material m (material_status_to (m_status x)) s1 else s1)"

definition remove_material :: "board_view \<Rightarrow> ident \<Rightarrow> ident \<Rightarrow> resource_board \<Rightarrow> bool option \<times> resource_board" where
  "remove_material view i m rb =
     (case card_of view i of
        None \<Rightarrow> (Some False, rb)
      | Some o1 \<Rightarrow>
          (case or_null (op_materialAssignments o1 m) of
             None \<Rightarrow> (Some False, rb)
           | Some a \<Rightarrow> send_call view (FxUnassign i a) (CallRemoveMaterial view o1 m a) (on_board (drop_material view o1 m) rb)))"

definition remove_vehicle :: "board_view \<Rightarrow> ident \<Rightarrow> ident \<Rightarrow> resource_board \<Rightarrow> bool option \<times> resource_board" where
  "remove_vehicle view i v rb =
     (case card_of view i of
        None \<Rightarrow> (Some False, rb)
      | Some o1 \<Rightarrow>
          (case or_null (Option.bind (List.find (\<lambda>x. ov_vehicleId x = v) (op_vehicles o1)) ov_assignmentId) of
             None \<Rightarrow> (Some False, rb)
           | Some a \<Rightarrow> send_call view (FxUnassign i a) (CallRemoveVehicle o1 v a)
               (on_board (\<lambda>s. edit_card i (vehicle_off v) (arm_cooldown s)) rb)))"

section \<open>Putting on\<close>

definition collect_conflicts ::
  "(operation \<Rightarrow> string) \<Rightarrow> board_view \<Rightarrow> (operation \<Rightarrow> bool) \<Rightarrow> ident \<Rightarrow> (ident \<times> string) list" where
  "collect_conflicts label view holds target =
     map (\<lambda>o1. (op_id o1, label o1)) (filter (\<lambda>o1. op_id o1 \<noteq> target \<and> holds o1) (bv_ops view))"

definition ask_conflict ::
  "resource_kind \<Rightarrow> ident \<Rightarrow> string \<Rightarrow> operation \<Rightarrow> string \<Rightarrow> (ident \<times> string) list \<Rightarrow> resource_board \<Rightarrow> resource_board" where
  "ask_conflict k r name o1 label conflicts rb =
     rb\<lparr>rb_conflict := Some \<lparr>rc_kind = k, rc_id = r, rc_name = name, rc_target = op_id o1,
          rc_targetLabel = label, rc_conflicts = conflicts, rc_custom = False\<rparr>\<rparr>"

text \<open>The prompt's rows for a person: the crews they are in, and the Einsatz their vehicle stands on.\<close>

definition person_conflicts ::
  "(operation \<Rightarrow> string) \<Rightarrow> board_view \<Rightarrow> person \<Rightarrow> ident \<Rightarrow> (ident \<times> string) list" where
  "person_conflicts label view x i =
     collect_conflicts label view
       (\<lambda>o1. crew_holds (p_id x) o1
          \<or> (case driven_elsewhere (Some x) (bv_ops view) i of None \<Rightarrow> False | Some (_, _, oid) \<Rightarrow> op_id o1 = oid)) i"

definition warn_recent :: "ms \<Rightarrow> ident \<Rightarrow> string \<Rightarrow> ident \<Rightarrow> board_state \<Rightarrow> board_state" where
  "warn_recent now p name i s =
     (case find_recent_removal (bd_recent s) p i now recent_removal_window_ms of
        (None, store) \<Rightarrow> set_recent store s
      | (Some e, store) \<Rightarrow> set_recent (store(p := None))
          (log_fx (FxInfo (''recentRemoval '' @ name @ '' '' @ rr_incidentLabel e)) s))"

definition assign_person ::
  "(operation \<Rightarrow> string) \<Rightarrow> ms \<Rightarrow> board_view \<Rightarrow> ident \<Rightarrow> string \<Rightarrow> ident \<Rightarrow> bool \<Rightarrow> resource_board
     \<Rightarrow> bool option \<times> resource_board" where
  "assign_person label now view p name i force rb =
     (case (card_of view i, person_of view p) of
        (Some o1, Some x) \<Rightarrow>
          if crew_holds p o1 then (Some False, rb)
          else if \<not> force \<and> person_conflicts label view x i \<noteq> []
          then (Some False, ask_conflict KPersonnel p name o1 (label o1) (person_conflicts label view x i) rb)
          else send_call view (FxAssign i KPersonnel p) (CallAssignPerson i p name)
                 (on_board (\<lambda>s. edit_person p (person_status_to PAssigned)
                    (edit_card i (crew_on p name) (arm_cooldown (warn_recent now p name i s)))) rb)
      | _ \<Rightarrow> (Some False, rb))"

definition person_assign_failed :: "js_error \<Rightarrow> ident \<Rightarrow> ident \<Rightarrow> string \<Rightarrow> board_state \<Rightarrow> board_state" where
  "person_assign_failed err i p name s =
     log_fx (FxError (''assignFailedFollowup '' @ name))
       (edit_person p (person_status_to PAvailable)
         (edit_card i (crew_off p) (log_fx (FxError (assign_failure_description err name)) s)))"

definition reko_assigned :: "ms \<Rightarrow> bool \<Rightarrow> named_person \<Rightarrow> operation \<Rightarrow> operation" where
  "reko_assigned now move np o1 =
     (let o2 = o1\<lparr>op_assignedReko := Some np\<rparr>
      in if move then o2\<lparr>op_status := Reko, op_statusChangedAt := Some (Some now)\<rparr> else o2)"

definition reko_reverted :: "operation \<Rightarrow> operation \<Rightarrow> operation" where
  "reko_reverted before o1 =
     (let o2 = o1\<lparr>op_assignedReko := None\<rparr>
      in if op_status before = Incoming
         then o2\<lparr>op_status := Incoming, op_statusChangedAt := op_statusChangedAt before\<rparr> else o2)"

definition assign_reko ::
  "ms \<Rightarrow> board_view \<Rightarrow> ident \<Rightarrow> string \<Rightarrow> ident \<Rightarrow> resource_board \<Rightarrow> resource_board" where
  "assign_reko now view p name i rb =
     (case (card_of view i, person_of view p) of
        (Some o1, Some x) \<Rightarrow>
          if \<not> p_isReko x \<or> map_option np_id (op_assignedReko o1) = Some p then rb
          else snd (send_call view (FxAssignReko i p) (CallAssignReko o1 p name)
                 (on_board (\<lambda>s. edit_card i (reko_assigned now (op_status o1 = Incoming) \<lparr>np_id = p, np_name = name\<rparr>)
                    (arm_cooldown s)) rb))
      | _ \<Rightarrow> rb)"

definition reko_assign_failed :: "operation \<Rightarrow> string \<Rightarrow> board_state \<Rightarrow> board_state" where
  "reko_assign_failed before name s =
     log_fx (FxError (''assignRekoFailed '' @ name))
       (edit_card (op_id before) (reko_reverted before) (log_fx (FxError (''assignRekoFailed '' @ name)) s))"

definition assign_material ::
  "(operation \<Rightarrow> string) \<Rightarrow> board_view \<Rightarrow> ident \<Rightarrow> ident \<Rightarrow> bool \<Rightarrow> resource_board \<Rightarrow> bool option \<times> resource_board" where
  "assign_material label view m i force rb =
     (case (card_of view i, material_of view m) of
        (Some o1, Some x) \<Rightarrow>
          if material_holds m o1 then (Some False, rb)
          else if m_outOfService x then (Some False, on_board (log_fx (FxError (''outOfServiceBlocked '' @ m_name x))) rb)
          else
            let conflicts = collect_conflicts label view (material_holds m) i
            in if \<not> m_consumable x \<and> \<not> force \<and> conflicts \<noteq> []
               then (Some False, ask_conflict KMaterial m (m_name x) o1 (label o1) conflicts rb)
               else send_call view (FxAssign i KMaterial m) (CallAssignMaterial i x)
                      (on_board (\<lambda>s.
                         let s1 = edit_card i (material_on m) (arm_cooldown s)
                         in if m_consumable x then s1 else edit_material m (material_status_to MAssigned) s1) rb)
      | _ \<Rightarrow> (Some False, rb))"

definition material_assign_failed :: "js_error \<Rightarrow> ident \<Rightarrow> material \<Rightarrow> board_state \<Rightarrow> board_state" where
  "material_assign_failed err i x s =
     edit_material (m_id x) (material_status_to MAvailable)
       (edit_card i (material_off (m_id x)) (log_fx (FxError (assign_failure_description err (m_name x))) s))"

text \<open>The vehicle assign settles when the driver question is answered, or at once where no request goes out.\<close>

definition perform_vehicle_assign ::
  "board_view \<Rightarrow> ident \<Rightarrow> string \<Rightarrow> ident \<Rightarrow> resource_board \<Rightarrow> bool option \<times> resource_board" where
  "perform_vehicle_assign view v name i rb =
     (case card_of view i of
        None \<Rightarrow> (Some False, rb)
      | Some o1 \<Rightarrow>
          if vehicle_holds v o1 then (Some False, rb)
          else
            let rb1 = on_board (\<lambda>s. edit_card i (vehicle_on v name) (arm_cooldown s)) rb;
                (r, rb2) = send_call view (FxAssign i KVehicle v) (CallAssignVehicle view i v name) rb1
            in (r, if r = None then rb2\<lparr>rb_settling := rb_settling rb2 + 1\<rparr> else rb2))"

definition assign_vehicle ::
  "(operation \<Rightarrow> string) \<Rightarrow> board_view \<Rightarrow> ident \<Rightarrow> string \<Rightarrow> ident \<Rightarrow> resource_board \<Rightarrow> bool option \<times> resource_board" where
  "assign_vehicle label view v name i rb =
     (case card_of view i of
        None \<Rightarrow> (Some False, rb)
      | Some o1 \<Rightarrow>
          if vehicle_holds v o1 then (Some False, rb)
          else if js_trim v = [] then (Some False, on_board (log_fx (FxError (''vehicleInvalidId '' @ name))) rb)
          else if js_includes (bv_oosVehicles view) v
          then (Some False, on_board (log_fx (FxError (''outOfServiceBlocked '' @ name))) rb)
          else
            let conflicts = collect_conflicts label view (vehicle_holds v) i
            in if conflicts \<noteq> [] then (Some False, ask_conflict KVehicle v name o1 (label o1) conflicts rb)
               else perform_vehicle_assign view v name i rb)"

section \<open>Answers\<close>

datatype call_answer = AnsFailed js_error | AnsAssigned ident bool | AnsDone | AnsFunctions "special_function list"

text \<open>Which answers a request can get.\<close>

fun answers :: "resource_call \<Rightarrow> call_answer \<Rightarrow> bool" where
  "answers c (AnsFailed _) = True"
| "answers (CallAssignPerson _ _ _) (AnsAssigned _ _) = True"
| "answers (CallAssignMaterial _ _) (AnsAssigned _ _) = True"
| "answers (CallAssignVehicle _ _ _ _) (AnsAssigned _ _) = True"
| "answers (CallDriverCheck _ _ _ _) (AnsFunctions _) = True"
| "answers (CallRemoveCrew _ _ _ _) AnsDone = True"
| "answers (CallRemoveReko _ _) AnsDone = True"
| "answers (CallRemoveMaterial _ _ _ _) AnsDone = True"
| "answers (CallRemoveVehicle _ _ _) AnsDone = True"
| "answers (CallAssignReko _ _ _) AnsDone = True"
| "answers _ _ = False"

text \<open>What the answer does to cards, roster, depot and toasts.\<close>

fun answer_effect :: "resource_call \<Rightarrow> call_answer \<Rightarrow> board_state \<Rightarrow> board_state" where
  "answer_effect (CallRemoveCrew view o1 p _) (AnsFailed _) s = crew_removal_failed view o1 p s"
| "answer_effect (CallRemoveReko o1 r) (AnsFailed _) s =
     edit_card (op_id o1) (\<lambda>c. c\<lparr>op_assignedReko := Some r\<rparr>) (log_fx (FxError ''removeRekoFailed'') s)"
| "answer_effect (CallRemoveMaterial view o1 m _) (AnsFailed _) s = material_removal_failed view o1 m s"
| "answer_effect (CallRemoveVehicle o1 _ _) (AnsFailed _) s =
     edit_card (op_id o1) (\<lambda>_. o1) (log_fx (FxError ''removeVehicleFailed'') s)"
| "answer_effect (CallAssignPerson i p _) (AnsAssigned a _) s = edit_card i (crew_confirmed p a) s"
| "answer_effect (CallAssignPerson i p name) (AnsFailed err) s = person_assign_failed err i p name s"
| "answer_effect (CallAssignReko before _ name) (AnsFailed _) s = reko_assign_failed before name s"
| "answer_effect (CallAssignMaterial i x) (AnsAssigned a _) s =
     edit_card i (\<lambda>o1. o1\<lparr>op_materialAssignments := (op_materialAssignments o1)(m_id x \<mapsto> a)\<rparr>) s"
| "answer_effect (CallAssignMaterial i x) (AnsFailed err) s = material_assign_failed err i x s"
| "answer_effect (CallAssignVehicle _ i v _) (AnsAssigned a stay) s = edit_card i (vehicle_confirmed v a stay) s"
| "answer_effect (CallAssignVehicle _ i v name) (AnsFailed err) s =
     edit_card i (vehicle_off v) (log_fx (FxError (assign_failure_description err name)) s)"
| "answer_effect _ _ s = s"

text \<open>The driver check looks at the live cards: the vehicle may have left again.\<close>

fun driver_question :: "resource_call \<Rightarrow> call_answer \<Rightarrow> resource_board \<Rightarrow> resource_board" where
  "driver_question (CallDriverCheck _ i v name) (AnsFunctions fs) rb =
     (if \<not> js_some (\<lambda>f. sf_function_type f = FDriver \<and> sf_vehicle_id f = Some v) fs
         \<and> (case List.find (\<lambda>o1. op_id o1 = i) (bd_ops (rb_board rb)) of None \<Rightarrow> False | Some o1 \<Rightarrow> vehicle_holds v o1)
      then rb\<lparr>rb_needsDriver := Some (v, name, i)\<rparr> else rb)"
| "driver_question _ _ rb = rb"

text \<open>The request the action goes on with, where it does not end here.\<close>

fun next_call :: "resource_call \<Rightarrow> call_answer \<Rightarrow> resource_call option" where
  "next_call (CallAssignVehicle view i v name) (AnsAssigned _ _) =
     map_option (\<lambda>ev. CallDriverCheck ev i v name) (or_null (bv_selected view))"
| "next_call _ _ = None"

fun is_vehicle_call :: "resource_call \<Rightarrow> bool" where
  "is_vehicle_call (CallAssignVehicle _ _ _ _) = True"
| "is_vehicle_call (CallDriverCheck _ _ _ _) = True"
| "is_vehicle_call _ = False"

definition settle_call :: "nat \<Rightarrow> call_answer \<Rightarrow> resource_board \<Rightarrow> resource_board" where
  "settle_call n ans rb =
     (if n < length (rb_calls rb) \<and> answers (rb_calls rb ! n) ans
      then
        let c = rb_calls rb ! n;
            rb1 = driver_question c ans (on_board (answer_effect c ans) rb)
        in (case next_call c ans of
              Some c2 \<Rightarrow>
                (case c2 of
                   CallDriverCheck ev _ _ _ \<Rightarrow> on_board (log_fx (FxFunctions ev)) (rb1\<lparr>rb_calls := (rb_calls rb1)[n := c2]\<rparr>)
                 | _ \<Rightarrow> rb1)
            | None \<Rightarrow>
                on_board release_cooldown
                  (rb1\<lparr>rb_calls := take n (rb_calls rb1) @ drop (Suc n) (rb_calls rb1),
                       rb_settling := (if is_vehicle_call c then rb_settling rb1 - 1 else rb_settling rb1)\<rparr>))
      else rb)"

section \<open>The prompt is answered\<close>

text \<open>Move or keep. The prompt closes at once; \<open>rb_settling\<close> counts the resolutions still under way.\<close>

definition final_assign ::
  "(operation \<Rightarrow> string) \<Rightarrow> ms \<Rightarrow> board_view \<Rightarrow> resource_conflict \<Rightarrow> resource_board \<Rightarrow> resource_board" where
  "final_assign label now view c rb =
     snd (case rc_kind c of
            KVehicle \<Rightarrow> perform_vehicle_assign view (rc_id c) (rc_name c) (rc_target c) rb
          | KPersonnel \<Rightarrow> assign_person label now view (rc_id c) (rc_name c) (rc_target c) True rb
          | KMaterial \<Rightarrow> assign_material label view (rc_id c) (rc_target c) True rb)"

definition take_off_elsewhere :: "ms \<Rightarrow> board_view \<Rightarrow> resource_conflict \<Rightarrow> resource_board \<Rightarrow> ident \<times> string \<Rightarrow> resource_board" where
  "take_off_elsewhere now view c rb row =
     snd (case rc_kind c of
            KVehicle \<Rightarrow> remove_vehicle view (fst row) (rc_id c) rb
          | KPersonnel \<Rightarrow>
              (case card_of view (fst row) of
                 Some o1 \<Rightarrow> if \<not> crew_holds (rc_id c) o1 then (Some True, rb) else remove_crew now view (fst row) (rc_id c) rb
               | None \<Rightarrow> remove_crew now view (fst row) (rc_id c) rb)
          | KMaterial \<Rightarrow> remove_material view (fst row) (rc_id c) rb)"

definition start_removals :: "ms \<Rightarrow> board_view \<Rightarrow> resource_conflict \<Rightarrow> resource_board \<Rightarrow> resource_board" where
  "start_removals now view c rb =
     (let rb1 = foldl (take_off_elsewhere now view c) rb (rc_conflicts c)
      in rb1\<lparr>rb_moves := rb_moves rb1 @ [MvRemovals view c]\<rparr>)"

definition add_move :: "conflict_move \<Rightarrow> resource_board \<Rightarrow> resource_board" where
  "add_move mv rb = rb\<lparr>rb_moves := rb_moves rb @ [mv]\<rparr>"

definition resolve_conflict ::
  "(operation \<Rightarrow> string) \<Rightarrow> ms \<Rightarrow> board_view \<Rightarrow> resource_conflict option \<Rightarrow> bool \<Rightarrow> resource_board \<Rightarrow> resource_board" where
  "resolve_conflict label now view conflict move rb =
     (case conflict of
        None \<Rightarrow> rb
      | Some c \<Rightarrow>
          let rb1 = rb\<lparr>rb_conflict := None, rb_settling := rb_settling rb + 1\<rparr>;
              driving = (if move \<and> rc_kind c = KPersonnel
                         then driven_elsewhere (person_of view (rc_id c)) (bv_ops view) (rc_target c) else None)
          in case driving of
               Some (vid, _, _) \<Rightarrow>
                 (case bv_selected view of
                    None \<Rightarrow> rb1\<lparr>rb_settling := rb_settling rb1 - 1\<rparr>
                  | Some ev \<Rightarrow> add_move (MvDriver view c) (on_board (log_fx (FxReleaseDriver (rc_id c) vid)) rb1))
             | None \<Rightarrow>
                 if rc_custom c then add_move MvCustom rb1
                 else if move then start_removals now view c rb1
                 else add_move MvAssign (final_assign label now view c rb1))"

definition not_a_driver :: "person \<Rightarrow> person" where
  "not_a_driver p = p\<lparr>p_isDriver := False, p_driverVehicleId := None, p_driverVehicleName := None\<rparr>"

text \<open>The wait of the n-th resolution is over: \<open>ok\<close> says whether the driver role was released, whether every
  removal resolved true.\<close>

definition advance_move ::
  "(operation \<Rightarrow> string) \<Rightarrow> ms \<Rightarrow> nat \<Rightarrow> bool \<Rightarrow> resource_board \<Rightarrow> resource_board" where
  "advance_move label now n ok rb =
     (if n < length (rb_moves rb)
      then
        let rb1 = rb\<lparr>rb_moves := take n (rb_moves rb) @ drop (Suc n) (rb_moves rb)\<rparr>;
            over = (\<lambda>r. r\<lparr>rb_settling := rb_settling r - 1\<rparr>)
        in (case rb_moves rb ! n of
              MvDriver view c \<Rightarrow>
                if \<not> ok then over (on_board (log_fx (FxError (''resourceNotMoved '' @ rc_name c))) rb1)
                else
                  let rb2 = on_board (\<lambda>s. log_fx FxRefresh (edit_person (rc_id c) not_a_driver s)) rb1
                  in if rc_custom c then add_move MvCustom rb2 else start_removals now view c rb2
            | MvRemovals view c \<Rightarrow>
                if \<not> ok then over (on_board (log_fx (FxError (''resourceNotMoved '' @ rc_name c))) rb1)
                else add_move MvAssign (final_assign label now view c
                       (on_board (log_fx (FxInfo (''resourceMoved '' @ rc_name c))) rb1))
            | MvCustom \<Rightarrow> over rb1
            | MvAssign \<Rightarrow> over rb1)
      else rb)"

section \<open>The board's mutations as one machine\<close>

datatype board_event =
    BeIncident incident_event
  | BeRemoveCrew ms board_view ident ident
  | BeRemoveReko board_view ident
  | BeRemoveMaterial board_view ident ident
  | BeRemoveVehicle board_view ident ident
  | BeAssignPerson ms board_view ident string ident bool
  | BeAssignReko ms board_view ident string ident
  | BeAssignMaterial board_view ident ident bool
  | BeAssignVehicle board_view ident string ident
  | BeAnswer nat call_answer
  | BeResolve ms board_view "resource_conflict option" bool
  | BeAdvance ms nat bool

fun board_step :: "js_runtime \<Rightarrow> (operation \<Rightarrow> string) \<Rightarrow> resource_board \<Rightarrow> board_event \<Rightarrow> resource_board" where
  "board_step rt l rb (BeIncident e) = on_board (\<lambda>s. incident_step rt s e) rb"
| "board_step rt l rb (BeRemoveCrew now view i p) = snd (remove_crew now view i p rb)"
| "board_step rt l rb (BeRemoveReko view i) = remove_reko view i rb"
| "board_step rt l rb (BeRemoveMaterial view i m) = snd (remove_material view i m rb)"
| "board_step rt l rb (BeRemoveVehicle view i v) = snd (remove_vehicle view i v rb)"
| "board_step rt l rb (BeAssignPerson now view p name i force) = snd (assign_person l now view p name i force rb)"
| "board_step rt l rb (BeAssignReko now view p name i) = assign_reko now view p name i rb"
| "board_step rt l rb (BeAssignMaterial view m i force) = snd (assign_material l view m i force rb)"
| "board_step rt l rb (BeAssignVehicle view v name i) = snd (assign_vehicle l view v name i rb)"
| "board_step rt l rb (BeAnswer n ans) = settle_call n ans rb"
| "board_step rt l rb (BeResolve now view c move) = resolve_conflict l now view c move rb"
| "board_step rt l rb (BeAdvance now n ok) = advance_move l now n ok rb"

definition empty_resources :: resource_board where
  "empty_resources = \<lparr>rb_board = empty_board, rb_calls = [], rb_moves = [], rb_conflict = None,
     rb_needsDriver = None, rb_settling = 0\<rparr>"

definition run_board :: "js_runtime \<Rightarrow> (operation \<Rightarrow> string) \<Rightarrow> board_event list \<Rightarrow> resource_board" where
  "run_board rt l es = foldl (board_step rt l) empty_resources es"

section \<open>Lemmas: holds and settling\<close>

text \<open>Every request out holds the sync once; every vehicle request and every resolution counts as settling.
  \<open>j\<close> is a resolution in the middle of a step.\<close>

definition holds_inv :: "nat \<Rightarrow> resource_board \<Rightarrow> bool" where
  "holds_inv j rb \<longleftrightarrow> cooldown_inv (length (rb_calls rb)) (rb_board rb)
     \<and> rb_settling rb = length (rb_moves rb) + j + length (filter is_vehicle_call (rb_calls rb))"

lemma hold_parts_edit [simp]:
  "hold_parts (edit_card i f s) = hold_parts s" "hold_parts (edit_person p g s) = hold_parts s"
  "hold_parts (edit_material m h s) = hold_parts s" "hold_parts (set_recent r s) = hold_parts s"
  by (simp_all add: hold_parts_def edit_card_def edit_person_def edit_material_def set_recent_def)

lemma hold_parts_warn [simp]: "hold_parts (warn_recent now p name i s) = hold_parts s"
  by (simp add: warn_recent_def split: prod.split option.split)

lemma hold_parts_arm: "hold_parts t = hold_parts s \<Longrightarrow> hold_parts (arm_cooldown t) = hold_parts (arm_cooldown s)"
  by (simp add: hold_parts_def arm_cooldown_def)

lemma hold_parts_answer [simp]: "hold_parts (answer_effect c ans s) = hold_parts s"
  by (cases c; cases ans)
    (simp_all add: crew_removal_failed_def material_removal_failed_def person_assign_failed_def
      reko_assign_failed_def material_assign_failed_def Let_def split: option.split)

lemma cooldown_arm: "cooldown_inv k s \<Longrightarrow> cooldown_inv (Suc k) (arm_cooldown s)"
  by (simp add: cooldown_inv_def arm_cooldown_def)

lemma cooldown_release: "cooldown_inv (Suc k) s \<Longrightarrow> cooldown_inv k (release_cooldown s)"
  by (simp add: cooldown_inv_def release_cooldown_def)

lemma on_board_simps [simp]:
  "rb_board (on_board f rb) = f (rb_board rb)" "rb_calls (on_board f rb) = rb_calls rb"
  "rb_moves (on_board f rb) = rb_moves rb" "rb_settling (on_board f rb) = rb_settling rb"
  "rb_conflict (on_board f rb) = rb_conflict rb" "rb_needsDriver (on_board f rb) = rb_needsDriver rb"
  by (simp_all add: on_board_def)

lemma holds_on_board: "holds_inv j rb \<Longrightarrow> (\<And>s. hold_parts (f s) = hold_parts s) \<Longrightarrow> holds_inv j (on_board f rb)"
  by (auto simp: holds_inv_def intro: cooldown_keep)

text \<open>An action that arms the hold and sends one request, or lets the hold run out.\<close>

lemma send_armed:
  assumes "cooldown_inv (length (rb_calls rb)) (rb_board rb)" and "\<And>s. hold_parts (f s) = hold_parts (arm_cooldown s)"
  shows "cooldown_inv (length (rb_calls (snd (send_call view fx c (on_board f rb)))))
           (rb_board (snd (send_call view fx c (on_board f rb))))"
proof -
  have f: "cooldown_inv (Suc (length (rb_calls rb))) (f (rb_board rb))"
    by (rule cooldown_keep [OF cooldown_arm [OF assms(1)] assms(2)])
  show ?thesis
  proof (cases "bv_loaded view")
    case True
    with f show ?thesis by (auto simp: send_call_def intro: cooldown_keep)
  next
    case False
    with f show ?thesis by (simp add: send_call_def cooldown_release)
  qed
qed

lemma send_keeps [simp]:
  "rb_moves (snd (send_call view fx c rb)) = rb_moves rb"
  "rb_settling (snd (send_call view fx c rb)) = rb_settling rb"
  "rb_conflict (snd (send_call view fx c rb)) = rb_conflict rb"
  "rb_calls (snd (send_call view fx c rb)) = (if bv_loaded view then rb_calls rb @ [c] else rb_calls rb)"
  "fst (send_call view fx c rb) = (if bv_loaded view then None else Some True)"
  by (simp_all add: send_call_def)

lemma holds_send:
  "holds_inv j rb \<Longrightarrow> (\<And>s. hold_parts (f s) = hold_parts (arm_cooldown s)) \<Longrightarrow> \<not> is_vehicle_call c \<Longrightarrow>
     holds_inv j (snd (send_call view fx c (on_board f rb)))"
  using send_armed [of rb f view fx c] by (simp add: holds_inv_def)

lemma holds_remove_crew: "holds_inv j rb \<Longrightarrow> holds_inv j (snd (remove_crew now view i p rb))"
  by (auto simp: remove_crew_def drop_crew_def Let_def split: option.split intro!: holds_send)

lemma holds_remove_reko: "holds_inv j rb \<Longrightarrow> holds_inv j (remove_reko view i rb)"
  by (auto simp: remove_reko_def split: option.split intro!: holds_send)

lemma holds_remove_material: "holds_inv j rb \<Longrightarrow> holds_inv j (snd (remove_material view i m rb))"
  by (auto simp: remove_material_def drop_material_def Let_def split: option.split intro!: holds_send)

lemma holds_remove_vehicle: "holds_inv j rb \<Longrightarrow> holds_inv j (snd (remove_vehicle view i v rb))"
  by (auto simp: remove_vehicle_def split: option.split intro!: holds_send)

lemma holds_ask [simp]: "holds_inv j (ask_conflict k r n o1 l cs rb) = holds_inv j rb"
  by (simp add: ask_conflict_def holds_inv_def)

lemma holds_assign_person: "holds_inv j rb \<Longrightarrow> holds_inv j (snd (assign_person l now view p name i force rb))"
  by (auto simp: assign_person_def split: option.split intro!: holds_send hold_parts_arm)

lemma holds_assign_reko: "holds_inv j rb \<Longrightarrow> holds_inv j (assign_reko now view p name i rb)"
  by (auto simp: assign_reko_def split: option.split intro!: holds_send)

lemma holds_assign_material: "holds_inv j rb \<Longrightarrow> holds_inv j (snd (assign_material l view m i force rb))"
  by (auto simp: assign_material_def Let_def split: option.split intro!: holds_send holds_on_board)

lemma holds_perform_vehicle: "holds_inv j rb \<Longrightarrow> holds_inv j (snd (perform_vehicle_assign view v name i rb))"
proof -
  assume inv: "holds_inv j rb"
  let ?f = "\<lambda>s. edit_card i (vehicle_on v name) (arm_cooldown s)"
  from inv have c: "cooldown_inv (length (rb_calls rb)) (rb_board rb)" by (simp add: holds_inv_def)
  have h: "\<And>s. hold_parts (?f s) = hold_parts (arm_cooldown s)" by simp
  from send_armed [OF c h, of view "FxAssign i KVehicle v" "CallAssignVehicle view i v name"] inv
  show ?thesis
    by (auto simp: perform_vehicle_assign_def Let_def split_beta holds_inv_def split: option.split)
qed

lemma holds_assign_vehicle: "holds_inv j rb \<Longrightarrow> holds_inv j (snd (assign_vehicle l view v name i rb))"
  by (auto simp: assign_vehicle_def Let_def split: option.split intro!: holds_perform_vehicle holds_on_board)

text \<open>An answer ends one request, or replaces the vehicle assign by its driver check.\<close>

lemma driver_question_keeps [simp]:
  "rb_board (driver_question c ans rb) = rb_board rb" "rb_calls (driver_question c ans rb) = rb_calls rb"
  "rb_moves (driver_question c ans rb) = rb_moves rb" "rb_settling (driver_question c ans rb) = rb_settling rb"
  by (cases c; cases ans; simp)+

lemma next_call_SomeD:
  "next_call c ans = Some c2 \<Longrightarrow> is_vehicle_call c \<and> (\<exists>ev i v n. c2 = CallDriverCheck ev i v n)"
  by (cases "(c, ans)" rule: next_call.cases) auto

lemma count_update:
  "n < length xs \<Longrightarrow> P (xs ! n) \<Longrightarrow> P y \<Longrightarrow> length (filter P (xs[n := y])) = length (filter P xs)"
  by (induction xs arbitrary: n) (auto split: nat.split simp: nth_Cons)

lemma count_remove:
  "n < length xs \<Longrightarrow>
     length (filter P xs) = (if P (xs ! n) then 1 else 0) + length (filter P (take n xs @ drop (Suc n) xs))"
  by (subst (1) id_take_nth_drop [of n xs]) auto

lemma holds_settle: "holds_inv j rb \<Longrightarrow> holds_inv j (settle_call n ans rb)"
proof -
  assume inv: "holds_inv j rb"
  show ?thesis
  proof (cases "n < length (rb_calls rb) \<and> answers (rb_calls rb ! n) ans")
    case False
    then have "settle_call n ans rb = rb" unfolding settle_call_def by (rule if_not_P)
    with inv show ?thesis by simp
  next
    case True
    let ?c = "rb_calls rb ! n" and ?e = "answer_effect (rb_calls rb ! n) ans (rb_board rb)"
    from inv have c: "cooldown_inv (length (rb_calls rb)) ?e"
      by (auto simp: holds_inv_def intro: cooldown_keep)
    show ?thesis
    proof (cases "next_call ?c ans")
      case (Some c2)
      from next_call_SomeD [OF this] obtain ev i v nm where
        "is_vehicle_call ?c" "c2 = CallDriverCheck ev i v nm" by blast
      with True inv c Some show ?thesis
        by (auto simp: settle_call_def Let_def holds_inv_def count_update intro: cooldown_keep)
    next
      case None
      from True have len: "length (rb_calls rb) = Suc (length (take n (rb_calls rb) @ drop (Suc n) (rb_calls rb)))"
        by simp linarith
      from c have "cooldown_inv (Suc (length (take n (rb_calls rb) @ drop (Suc n) (rb_calls rb)))) ?e"
        by (simp only: len)
      then have "cooldown_inv (length (take n (rb_calls rb) @ drop (Suc n) (rb_calls rb))) (release_cooldown ?e)"
        by (rule cooldown_release)
      moreover from count_remove [of n "rb_calls rb" is_vehicle_call] True inv
      have "rb_settling rb = length (rb_moves rb) + j + (if is_vehicle_call ?c then 1 else 0)
          + length (filter is_vehicle_call (take n (rb_calls rb) @ drop (Suc n) (rb_calls rb)))"
        by (simp add: holds_inv_def)
      ultimately show ?thesis using True None by (simp add: settle_call_def Let_def holds_inv_def)
    qed
  qed
qed

lemma holds_final: "holds_inv j rb \<Longrightarrow> holds_inv j (final_assign l now view c rb)"
  by (auto simp: final_assign_def holds_perform_vehicle holds_assign_person holds_assign_material
      split: resource_kind.split)

lemma holds_take_off: "holds_inv j rb \<Longrightarrow> holds_inv j (take_off_elsewhere now view c rb row)"
  by (auto simp: take_off_elsewhere_def holds_remove_vehicle holds_remove_crew holds_remove_material
      split: resource_kind.split option.split)

lemma holds_take_all: "holds_inv j rb \<Longrightarrow> holds_inv j (foldl (take_off_elsewhere now view c) rb rows)"
  by (induction rows arbitrary: rb) (auto intro: holds_take_off)

lemma holds_add_move: "holds_inv (Suc j) rb \<Longrightarrow> holds_inv j (add_move mv rb)"
  by (simp add: holds_inv_def add_move_def)

lemma holds_start: "holds_inv (Suc j) rb \<Longrightarrow> holds_inv j (start_removals now view c rb)"
proof -
  assume "holds_inv (Suc j) rb"
  then have "holds_inv (Suc j) (foldl (take_off_elsewhere now view c) rb (rc_conflicts c))" by (rule holds_take_all)
  from holds_add_move [OF this] show ?thesis by (simp add: start_removals_def add_move_def Let_def)
qed

lemma holds_over: "holds_inv (Suc j) rb \<Longrightarrow> holds_inv j (rb\<lparr>rb_settling := rb_settling rb - Suc 0\<rparr>)"
  by (simp add: holds_inv_def)

lemma holds_resolve: "holds_inv j rb \<Longrightarrow> holds_inv j (resolve_conflict l now view c move rb)"
proof -
  assume inv: "holds_inv j rb"
  then have one: "holds_inv (Suc j) (rb\<lparr>rb_conflict := None, rb_settling := Suc (rb_settling rb)\<rparr>)"
    by (simp add: holds_inv_def)
  from inv have zero: "holds_inv j (rb\<lparr>rb_conflict := None\<rparr>)" by (simp add: holds_inv_def)
  from inv show ?thesis
    by (auto simp: resolve_conflict_def Let_def
        intro!: zero holds_add_move holds_start holds_final holds_on_board one split: option.split)
qed

lemma holds_advance: "holds_inv j rb \<Longrightarrow> holds_inv j (advance_move l now n ok rb)"
proof -
  assume inv: "holds_inv j rb"
  show ?thesis
  proof (cases "n < length (rb_moves rb)")
    case False
    with inv show ?thesis by (simp add: advance_move_def)
  next
    case True
    let ?rb1 = "rb\<lparr>rb_moves := take n (rb_moves rb) @ drop (Suc n) (rb_moves rb)\<rparr>"
    from True inv have one: "holds_inv (Suc j) ?rb1" by (simp add: holds_inv_def)
    have log: "\<And>e. holds_inv (Suc j) (on_board (log_fx e) ?rb1)"
      "\<And>p. holds_inv (Suc j) (on_board (\<lambda>s. log_fx FxRefresh (edit_person p not_a_driver s)) ?rb1)"
      by (simp_all add: holds_on_board one)
    from holds_over [OF log(1)] holds_over [OF one] log True show ?thesis
      by (auto simp: advance_move_def Let_def intro!: holds_add_move holds_start holds_final
          split: conflict_move.split)
  qed
qed

lemma holds_step: "holds_inv j rb \<Longrightarrow> holds_inv j (board_step rt l rb e)"
proof (cases e)
  case (BeIncident e1)
  assume "holds_inv j rb"
  with BeIncident show ?thesis by (simp add: holds_inv_def cooldown_step)
qed (simp_all add: holds_remove_crew holds_remove_reko holds_remove_material holds_remove_vehicle
    holds_assign_person holds_assign_reko holds_assign_material holds_assign_vehicle holds_settle
    holds_resolve holds_advance)

interpretation board: event_machine "board_step rt l" "holds_inv 0" empty_resources for rt l
  by unfold_locales
    (simp_all only: holds_step, simp add: holds_inv_def empty_resources_def cooldown_inv_def empty_board_def)

section \<open>Lemmas: a refused write is taken back\<close>

text \<open>The optimistic row edits of the three assigns and their undo.\<close>

interpretation crew_row: row_undo op_id "crew_on p name" "crew_off p" "\<lambda>o1. \<not> crew_holds p o1" for p name
  by unfold_locales (simp_all add: crew_on_def crew_off_def crew_holds_def filter_id_conv)

lemma filter_neq_absent: "x \<notin> set xs \<Longrightarrow> filter (\<lambda>y. y \<noteq> x) xs = xs"
  by (induction xs) auto

interpretation crew_undo_row: row_edit op_id "crew_off p" for p
  by unfold_locales (simp add: crew_off_def)

interpretation material_row: row_undo op_id "material_on m" "material_off m" "\<lambda>o1. \<not> material_holds m o1" for m
  by unfold_locales
    (simp_all add: material_on_def material_off_def material_holds_def filter_neq_absent)

interpretation vehicle_row: row_undo op_id "vehicle_on v name" "vehicle_off v" "\<lambda>o1. \<not> vehicle_holds v o1" for v name
  by unfold_locales (simp_all add: vehicle_on_def vehicle_off_def vehicle_holds_def filter_id_conv)

lemma edit_ops [simp]:
  "bd_ops (edit_card i f s) = modify_row op_id i f (bd_ops s)" "bd_ops (edit_person p g s) = bd_ops s"
  "bd_ops (edit_material m h s) = bd_ops s" "bd_ops (set_recent r s) = bd_ops s" "bd_ops (log_fx fx s) = bd_ops s"
  "bd_ops (arm_cooldown s) = bd_ops s" "bd_ops (release_cooldown s) = bd_ops s" "bd_ops (warn_recent now p name i s) = bd_ops s"
  by (simp_all add: edit_card_def edit_person_def edit_material_def set_recent_def log_fx_def arm_cooldown_def
      release_cooldown_def warn_recent_def split: prod.split option.split)

lemma send_ops [simp]: "bd_ops (rb_board (snd (send_call view fx c rb))) = bd_ops (rb_board rb)"
  by (simp add: send_call_def)

lemma next_call_failed [simp]: "next_call c (AnsFailed err) = None"
  by (cases c) simp_all

lemma driver_question_failed [simp]: "driver_question c (AnsFailed err) rb = rb"
  by (cases c) simp_all

lemma settle_failed_board:
  "rb_calls rb = cs @ [c] \<Longrightarrow>
     rb_board (settle_call (length cs) (AnsFailed err) rb)
     = release_cooldown (answer_effect c (AnsFailed err) (rb_board rb))"
  by (simp add: settle_call_def Let_def)

lemma failed_keeps [simp]:
  "bd_ops (crew_removal_failed view o1 p s) = modify_row op_id (op_id o1) (\<lambda>_. o1) (bd_ops s)"
  "bd_people (person_assign_failed err i p name s) = modify_row p_id p (person_status_to PAvailable) (bd_people s)"
  by (simp_all add: crew_removal_failed_def person_assign_failed_def Let_def log_fx_def edit_person_def edit_card_def
      split: option.split)

lemma release_people [simp]: "bd_people (release_cooldown s) = bd_people s"
  by (simp add: release_cooldown_def)

interpretation person_row: row_edit p_id "person_status_to st" for st
  by unfold_locales (simp add: person_status_to_def)

lemma modify_row_overwritten:
  "(\<And>r. key (g r) = key r) \<Longrightarrow> (\<And>r. key (f r) = key r) \<Longrightarrow>
     modify_row key i (\<lambda>_. x) (modify_row key i g (modify_row key i f rows)) = modify_row key i (\<lambda>_. x) rows"
  by (induction rows) auto

lemma drop_crew_ops [simp]: "bd_ops (drop_crew now view o1 p s) = modify_row op_id (op_id o1) (crew_off p) (bd_ops s)"
  by (simp add: drop_crew_def Let_def)

text \<open>What each assign leaves when it sends its request.\<close>

definition sent_with :: "resource_call \<Rightarrow> (operation \<Rightarrow> operation) \<Rightarrow> ident \<Rightarrow> resource_board \<Rightarrow> resource_board \<Rightarrow> bool" where
  "sent_with c f i rb rb1 \<longleftrightarrow> rb_calls rb1 = rb_calls rb @ [c]
     \<and> bd_ops (rb_board rb1) = modify_row op_id i f (bd_ops (rb_board rb))"

lemma assign_person_sent:
  "fst (assign_person l now view p name i force rb) = None \<Longrightarrow>
     sent_with (CallAssignPerson i p name) (crew_on p name) i rb (snd (assign_person l now view p name i force rb))"
  by (auto simp: assign_person_def sent_with_def split: option.splits if_splits)

lemma assign_person_people:
  "fst (assign_person l now view p name i force rb) = None \<Longrightarrow>
     bd_people (rb_board (snd (assign_person l now view p name i force rb)))
       = modify_row p_id p (person_status_to PAssigned) (bd_people (rb_board rb))"
  by (auto simp: assign_person_def send_call_def edit_person_def edit_card_def arm_cooldown_def log_fx_def
      warn_recent_def set_recent_def split: option.splits if_splits prod.split)

lemma assign_material_sent:
  "fst (assign_material l view m i force rb) = None \<Longrightarrow>
     \<exists>x. m_id x = m \<and> sent_with (CallAssignMaterial i x) (material_on m) i rb (snd (assign_material l view m i force rb))"
  by (auto simp: assign_material_def sent_with_def Let_def material_of_def dest!: find_SomeD
      split: option.splits if_splits)

lemma assign_vehicle_sent:
  "fst (assign_vehicle l view v name i rb) = None \<Longrightarrow>
     sent_with (CallAssignVehicle view i v name) (vehicle_on v name) i rb (snd (assign_vehicle l view v name i rb))"
  by (auto simp: assign_vehicle_def perform_vehicle_assign_def sent_with_def Let_def split_beta
      split: option.splits if_splits)

lemma no_conflicts: "collect_conflicts l view holds i = [] \<longleftrightarrow> (\<forall>c\<in>set (bv_ops view). op_id c \<noteq> i \<longrightarrow> \<not> holds c)"
  by (auto simp: collect_conflicts_def filter_empty_conv)

lemma driven_elsewhere_SomeD:
  "driven_elsewhere x ops i = Some (v, n, oid) \<Longrightarrow> oid \<noteq> i \<and> (\<exists>c\<in>set ops. op_id c = oid)"
  by (auto simp: driven_elsewhere_def dest: find_SomeD split: option.splits if_splits)

text \<open>No row in the prompt: nobody else has the person, and no vehicle of theirs stands elsewhere.\<close>

lemma person_asked:
  assumes "person_of view p = Some x" and "person_conflicts l view x i = []"
  shows "(\<forall>c\<in>set (bv_ops view). op_id c \<noteq> i \<longrightarrow> \<not> crew_holds p c) \<and> driven_elsewhere (Some x) (bv_ops view) i = None"
proof -
  from assms(1) have "p_id x = p" by (auto simp: person_of_def dest: find_SomeD)
  with assms(2) show ?thesis
    by (cases "driven_elsewhere (Some x) (bv_ops view) i")
      (auto simp: person_conflicts_def no_conflicts dest: driven_elsewhere_SomeD)
qed

section \<open>Properties\<close>

text \<open>
  C12. The hold on the sync is balanced across all of the board's mutations: after any interleaving of edits,
  debounce timers, requests, answers, column drags, assignments, removals and answered prompts, the number
  of holds is the number of batches debouncing, PATCHes queued or in flight, column orders in flight,
  assignment requests out and release timers armed; and the settling count is the number of resolutions and
  vehicle assignments still under way. So the sync resumes when, and only when, everything has settled.
\<close>

theorem cooldown_is_balanced:
  "bd_holds (rb_board (run_board rt l es)) =
     length (bd_pending (rb_board (run_board rt l es))) + length (bd_jobs (rb_board (run_board rt l es)))
     + bd_releases (rb_board (run_board rt l es))
     + (if bd_reorderInFlight (rb_board (run_board rt l es)) then 1 else 0)
     + length (rb_calls (run_board rt l es)) \<and>
   rb_settling (run_board rt l es) =
     length (rb_moves (run_board rt l es)) + length (filter is_vehicle_call (rb_calls (run_board rt l es)))"
proof -
  have "holds_inv 0 (run_board rt l es)" unfolding run_board_def by (rule board.inv_run)
  then show ?thesis by (simp add: holds_inv_def cooldown_inv_def)
qed

text \<open>
  A refused assignment is taken back, and only that: a person, device or vehicle put on a card
  that did not have it is off again once the server has refused, and what was written to another card in
  between is kept.
\<close>

theorem refused_assignment_is_taken_back:
  assumes "\<And>c. c \<in> set (bd_ops (rb_board rb)) \<Longrightarrow> op_id c = i \<Longrightarrow>
      \<not> crew_holds r c \<and> \<not> vehicle_holds r c \<and> \<not> material_holds r c"
    and "(res, rb1) \<in> {assign_person l now view r name i force rb, assign_material l view r i force rb,
           assign_vehicle l view r name i rb}"
    and "res = None" and "k \<noteq> i" and "\<And>c. op_id (g c) = op_id c"
  shows "bd_ops (rb_board (settle_call (length (rb_calls rb)) (AnsFailed err) (on_board (edit_card k g) rb1)))
         = modify_row op_id k g (bd_ops (rb_board rb))"
proof -
  from assms(2,3) consider
      (P) "fst (assign_person l now view r name i force rb) = None" "rb1 = snd (assign_person l now view r name i force rb)"
    | (M) "fst (assign_material l view r i force rb) = None" "rb1 = snd (assign_material l view r i force rb)"
    | (V) "fst (assign_vehicle l view r name i rb) = None" "rb1 = snd (assign_vehicle l view r name i rb)"
    by (elim insertE emptyE) (metis fst_conv snd_conv)+
  then show ?thesis
  proof cases
    case P
    from assign_person_sent [OF P(1)] P(2) crew_row.undo_keeps_other_edit [OF _ assms(5,4)] assms(1)
    show ?thesis by (simp add: sent_with_def settle_failed_board person_assign_failed_def)
  next
    case M
    from assign_material_sent [OF M(1)] M(2) material_row.undo_keeps_other_edit [OF _ assms(5,4)] assms(1)
    show ?thesis by (auto simp: sent_with_def settle_failed_board material_assign_failed_def)
  next
    case V
    from assign_vehicle_sent [OF V(1)] V(2) vehicle_row.undo_keeps_other_edit [OF _ assms(5,4)] assms(1)
    show ?thesis by (simp add: sent_with_def settle_failed_board)
  qed
qed

theorem refused_assignment_is_taken_back_witness:
  "\<forall>err. bd_ops (rb_board (settle_call 0 (AnsFailed err) (on_board (edit_card ''b'' (\<lambda>o1. o1\<lparr>op_notes := ''new''\<rparr>))
      (snd (assign_vehicle op_id (view_on [blank_card ''a'' Active]) ''v'' ''TLF'' ''a''
        (empty_resources\<lparr>rb_board := empty_board\<lparr>bd_ops := [blank_card ''a'' Active, blank_card ''b'' Reko]\<rparr>\<rparr>))))))
   = [blank_card ''a'' Active, (blank_card ''b'' Reko)\<lparr>op_notes := ''new''\<rparr>]"
proof
  fix err
  let ?rb = "empty_resources\<lparr>rb_board := empty_board\<lparr>bd_ops := [blank_card ''a'' Active, blank_card ''b'' Reko]\<rparr>\<rparr>"
  let ?v = "assign_vehicle op_id (view_on [blank_card ''a'' Active]) ''v'' ''TLF'' ''a'' ?rb"
  have h: "\<And>c. c \<in> set (bd_ops (rb_board ?rb)) \<Longrightarrow> op_id c = ''a'' \<Longrightarrow>
      \<not> crew_holds ''v'' c \<and> \<not> vehicle_holds ''v'' c \<and> \<not> material_holds ''v'' c"
    by (auto simp: crew_holds_def vehicle_holds_def material_holds_def)
  have f: "fst ?v = None"
    by (simp add: assign_vehicle_def card_of_def vehicle_holds_def js_trim_def trim_start_def trim_end_def is_space_def
        collect_conflicts_def perform_vehicle_assign_def split_beta)
  have m: "(fst ?v, snd ?v) \<in> {assign_person op_id 0 (view_on [blank_card ''a'' Active]) ''v'' ''TLF'' ''a'' False ?rb,
      assign_material op_id (view_on [blank_card ''a'' Active]) ''v'' ''a'' False ?rb, ?v}" by simp
  have "bd_ops (rb_board (settle_call (length (rb_calls ?rb)) (AnsFailed err)
        (on_board (edit_card ''b'' (\<lambda>o1. o1\<lparr>op_notes := ''new''\<rparr>)) (snd ?v))))
      = modify_row op_id ''b'' (\<lambda>o1. o1\<lparr>op_notes := ''new''\<rparr>) (bd_ops (rb_board ?rb))"
    by (rule refused_assignment_is_taken_back [OF h m f]) simp_all
  moreover have "length (rb_calls ?rb) = 0" by (simp add: empty_resources_def)
  ultimately show "bd_ops (rb_board (settle_call 0 (AnsFailed err) (on_board (edit_card ''b'' (\<lambda>o1. o1\<lparr>op_notes := ''new''\<rparr>)) (snd ?v))))
      = [blank_card ''a'' Active, (blank_card ''b'' Reko)\<lparr>op_notes := ''new''\<rparr>]"
    by simp
qed

text \<open>
  Nothing is double-booked in silence: unless the operator has said so (\<open>force\<close>), a vehicle or a
  device that is no consumable is only put on a card when no other card on screen has it, and a person
  when no other card has them in its crew or stands under the vehicle they drive; otherwise the board asks,
  with every card that holds it as a row. What is out of service is never put on.
\<close>

theorem double_booking_is_asked:
  "(fst (assign_vehicle l view v name i rb) \<noteq> Some False \<longrightarrow> \<not> js_includes (bv_oosVehicles view) v
      \<and> (\<forall>c\<in>set (bv_ops view). op_id c \<noteq> i \<longrightarrow> \<not> vehicle_holds v c)) \<and>
   (fst (assign_person l now view p pname i False rb) \<noteq> Some False \<longrightarrow>
      (\<forall>c\<in>set (bv_ops view). op_id c \<noteq> i \<longrightarrow> \<not> crew_holds p c)
      \<and> driven_elsewhere (person_of view p) (bv_ops view) i = None) \<and>
   (fst (assign_material l view m i False rb) \<noteq> Some False \<longrightarrow> (\<exists>x. material_of view m = Some x \<and> \<not> m_outOfService x
      \<and> (m_consumable x \<or> (\<forall>c\<in>set (bv_ops view). op_id c \<noteq> i \<longrightarrow> \<not> material_holds m c))))"
proof (intro conjI)
  show "fst (assign_vehicle l view v name i rb) \<noteq> Some False \<longrightarrow> \<not> js_includes (bv_oosVehicles view) v
      \<and> (\<forall>c\<in>set (bv_ops view). op_id c \<noteq> i \<longrightarrow> \<not> vehicle_holds v c)"
    by (auto simp: assign_vehicle_def Let_def no_conflicts split: option.split)
  show "fst (assign_material l view m i False rb) \<noteq> Some False \<longrightarrow> (\<exists>x. material_of view m = Some x \<and> \<not> m_outOfService x
      \<and> (m_consumable x \<or> (\<forall>c\<in>set (bv_ops view). op_id c \<noteq> i \<longrightarrow> \<not> material_holds m c)))"
    by (auto simp: assign_material_def Let_def no_conflicts split: option.split)
  show "fst (assign_person l now view p pname i False rb) \<noteq> Some False \<longrightarrow>
      (\<forall>c\<in>set (bv_ops view). op_id c \<noteq> i \<longrightarrow> \<not> crew_holds p c)
      \<and> driven_elsewhere (person_of view p) (bv_ops view) i = None"
    by (auto simp: assign_person_def person_asked split: option.split)
qed

theorem double_booking_is_asked_witness:
  "rb_conflict (snd (assign_vehicle op_id
      (view_on [blank_card ''a'' Active, vehicle_on ''v'' ''TLF'' (blank_card ''b'' Active)]) ''v'' ''TLF'' ''a'' empty_resources))
   \<noteq> None \<and>
   \<not> vehicle_holds ''v'' (blank_card ''b'' Active)"
proof
  let ?v = "view_on [blank_card ''a'' Active, blank_card ''b'' Active]"
  have "fst (assign_vehicle op_id ?v ''v'' ''TLF'' ''a'' empty_resources) \<noteq> Some False"
    by (simp add: assign_vehicle_def card_of_def vehicle_holds_def js_trim_def trim_start_def trim_end_def is_space_def
        collect_conflicts_def perform_vehicle_assign_def split_beta)
  with double_booking_is_asked [of op_id ?v "''v''" "''TLF''" "''a''" empty_resources]
  show "\<not> vehicle_holds ''v'' (blank_card ''b'' Active)" by simp
  show "rb_conflict (snd (assign_vehicle op_id
      (view_on [blank_card ''a'' Active, vehicle_on ''v'' ''TLF'' (blank_card ''b'' Active)]) ''v'' ''TLF'' ''a'' empty_resources))
      \<noteq> None"
    by (simp add: assign_vehicle_def card_of_def vehicle_holds_def js_trim_def trim_start_def trim_end_def is_space_def
        collect_conflicts_def ask_conflict_def vehicle_on_def)
qed

text \<open>
  A move that could not be completed puts nothing on the new card: while the removals are out, and when
  one of them failed, the cards are as the removals left them and no assignment is requested.
\<close>

theorem failed_move_assigns_nothing:
  assumes "n < length (rb_moves rb)" and "rb_moves rb ! n = MvRemovals view c"
  shows "bd_ops (rb_board (advance_move l now n False rb)) = bd_ops (rb_board rb) \<and>
         rb_calls (advance_move l now n False rb) = rb_calls rb"
  using assms by (simp add: advance_move_def Let_def)

theorem failed_move_assigns_nothing_witness:
  "bd_ops (rb_board (advance_move op_id 0 0 False (empty_resources\<lparr>rb_moves :=
      [MvRemovals (view_on []) \<lparr>rc_kind = KVehicle, rc_id = ''v'', rc_name = ''TLF'', rc_target = ''a'',
         rc_targetLabel = [], rc_conflicts = [], rc_custom = False\<rparr>]\<rparr>))) = []"
  using failed_move_assigns_nothing [where rb = "empty_resources\<lparr>rb_moves :=
      [MvRemovals (view_on []) \<lparr>rc_kind = KVehicle, rc_id = ''v'', rc_name = ''TLF'', rc_target = ''a'',
         rc_targetLabel = [], rc_conflicts = [], rc_custom = False\<rparr>]\<rparr>" and n = 0 and l = op_id and now = 0]
  by (simp add: empty_resources_def empty_board_def)

text \<open>
  A failed removal takes back more than itself: the card is put back as it was when the removal began,
  so what the operator wrote on it while the request was out is gone from the board, whatever it was.
\<close>

theorem failed_removal_reverts_other_edits:
  assumes "card_of view i = Some o1" and "bv_loaded view"
    and "remove_crew now view i p rb = (None, rb1)" and "\<And>c. op_id (g c) = op_id c"
  shows "bd_ops (rb_board (settle_call (length (rb_calls rb)) (AnsFailed err) (on_board (edit_card i g) rb1)))
         = modify_row op_id i (\<lambda>_. o1) (bd_ops (rb_board rb))"
proof -
  from assms(1-3) obtain a where r: "rb_calls rb1 = rb_calls rb @ [CallRemoveCrew view o1 p a]" "op_id o1 = i"
      "bd_ops (rb_board rb1) = modify_row op_id i (crew_off p) (bd_ops (rb_board rb))"
    by (auto simp: remove_crew_def card_of_def send_call_def dest!: find_SomeD split: option.splits)
  then show ?thesis
    by (simp add: settle_failed_board modify_row_overwritten assms(4) crew_undo_row.keeps_key)
qed

theorem failed_removal_reverts_other_edits_witness:
  "\<forall>err. map op_notes (bd_ops (rb_board (settle_call 0 (AnsFailed err) (on_board (edit_card ''a'' (\<lambda>o1. o1\<lparr>op_notes := ''new''\<rparr>))
      (snd (remove_crew 5 (view_on [crew_confirmed ''p'' ''x'' (crew_on ''p'' ''P'' (blank_card ''a'' Active))]) ''a'' ''p''
        (empty_resources\<lparr>rb_board := empty_board\<lparr>bd_ops := [crew_confirmed ''p'' ''x'' (crew_on ''p'' ''P'' (blank_card ''a'' Active))]\<rparr>\<rparr>))))))) = [[]]"
proof
  fix err
  let ?o = "crew_confirmed ''p'' ''x'' (crew_on ''p'' ''P'' (blank_card ''a'' Active))"
  let ?g = "\<lambda>o1::operation. o1\<lparr>op_notes := ''new''\<rparr>"
  let ?rb = "empty_resources\<lparr>rb_board := empty_board\<lparr>bd_ops := [?o]\<rparr>\<rparr>"
  let ?rb1 = "snd (remove_crew 5 (view_on [?o]) ''a'' ''p'' ?rb)"
  have o: "op_id ?o = ''a''" by (simp add: crew_confirmed_def crew_on_def)
  then have k: "card_of (view_on [?o]) ''a'' = Some ?o" "bv_loaded (view_on [?o])"
    by (simp_all add: card_of_def)
  have a: "or_null (Option.bind (List.find (\<lambda>m. cm_personnelId m = ''p'') (op_crew ?o)) cm_assignmentId) = Some ''x''"
    by (simp add: crew_confirmed_def crew_on_def or_null_def)
  have r: "remove_crew 5 (view_on [?o]) ''a'' ''p'' ?rb = (None, ?rb1)"
    by (simp add: prod_eq_iff remove_crew_def k(1) a)
  have "bd_ops (rb_board (settle_call (length (rb_calls ?rb)) (AnsFailed err) (on_board (edit_card ''a'' ?g) ?rb1)))
      = modify_row op_id ''a'' (\<lambda>_. ?o) (bd_ops (rb_board ?rb))"
    by (rule failed_removal_reverts_other_edits [OF k r]) simp
  moreover have "length (rb_calls ?rb) = 0" "modify_row op_id ''a'' (\<lambda>_. ?o) (bd_ops (rb_board ?rb)) = [?o]" "op_notes ?o = []"
    by (simp_all add: empty_resources_def crew_confirmed_def crew_on_def blank_card_def)
  ultimately show "map op_notes (bd_ops (rb_board (settle_call 0 (AnsFailed err) (on_board (edit_card ''a'' ?g) ?rb1)))) = [[]]"
    by simp
qed

text \<open>
  A failed assignment frees a person who is still on another card: with the double booking confirmed,
  the refusal of the second assignment marks the person available although the first card has them.
\<close>

theorem failed_double_booking_frees_the_person:
  assumes "fst (assign_person l now view p name i True rb) = None"
    and "c \<in> set (bd_ops (rb_board rb))" and "op_id c \<noteq> i" and "crew_holds p c"
    and "rb2 = settle_call (length (rb_calls rb)) (AnsFailed err) (snd (assign_person l now view p name i True rb))"
    and "x \<in> set (bd_people (rb_board rb2))" and "p_id x = p"
  shows "p_status x = PAvailable \<and> (\<exists>c\<in>set (bd_ops (rb_board rb2)). op_id c \<noteq> i \<and> crew_holds p c)"
proof
  note sent = assign_person_sent [OF assms(1)]
  from sent have "bd_people (rb_board rb2) = modify_row p_id p (person_status_to PAvailable)
      (bd_people (rb_board (snd (assign_person l now view p name i True rb))))"
    by (simp add: sent_with_def settle_failed_board assms(5))
  from mem_modify_row [OF assms(6) [unfolded this]] assms(7) show "p_status x = PAvailable"
    by (elim disjE conjE bexE) (simp_all add: person_status_to_def)
  from sent have "bd_ops (rb_board rb2) = modify_row op_id i (crew_off p) (modify_row op_id i (crew_on p name) (bd_ops (rb_board rb)))"
    by (simp add: sent_with_def settle_failed_board assms(5) person_assign_failed_def)
  with assms(2,3) have "c \<in> set (bd_ops (rb_board rb2))" by (simp add: crew_undo_row.others_untouched crew_row.others_untouched)
  with assms(3,4) show "\<exists>c\<in>set (bd_ops (rb_board rb2)). op_id c \<noteq> i \<and> crew_holds p c" by blast
qed

theorem failed_double_booking_frees_the_person_witness:
  "\<forall>err. map p_status (bd_people (rb_board (settle_call 0 (AnsFailed err) (snd (assign_person op_id 5
      ((view_on [blank_card ''a'' Active, crew_on ''p'' ''P'' (blank_card ''b'' Active)])\<lparr>bv_people := [blank_person ''p'']\<rparr>)
      ''p'' ''P'' ''a'' True (empty_resources\<lparr>rb_board := empty_board\<lparr>bd_people := [blank_person ''p''],
        bd_ops := [blank_card ''a'' Active, crew_on ''p'' ''P'' (blank_card ''b'' Active)]\<rparr>\<rparr>)))))) = [PAvailable]"
proof
  fix err
  let ?b = "crew_on ''p'' ''P'' (blank_card ''b'' Active)"
  let ?v = "(view_on [blank_card ''a'' Active, ?b])\<lparr>bv_people := [blank_person ''p'']\<rparr>"
  let ?rb = "empty_resources\<lparr>rb_board := empty_board\<lparr>bd_people := [blank_person ''p''], bd_ops := [blank_card ''a'' Active, ?b]\<rparr>\<rparr>"
  let ?rb2 = "settle_call (length (rb_calls ?rb)) (AnsFailed err) (snd (assign_person op_id 5 ?v ''p'' ''P'' ''a'' True ?rb))"
  have h: "fst (assign_person op_id 5 ?v ''p'' ''P'' ''a'' True ?rb) = None"
    by (simp add: assign_person_def card_of_def person_of_def crew_holds_def)
  have c: "?b \<in> set (bd_ops (rb_board ?rb))" "op_id ?b \<noteq> ''a''" "crew_holds ''p'' ?b"
    by (simp_all add: crew_on_def crew_holds_def)
  have p: "map p_id (bd_people (rb_board ?rb2)) = [''p'']"
    using assign_person_sent [OF h] by (simp add: sent_with_def settle_failed_board assign_person_people h person_row.keeps_key)
  then obtain x where x: "bd_people (rb_board ?rb2) = [x]" "p_id x = ''p''" by (auto simp: map_eq_Cons_conv)
  from failed_double_booking_frees_the_person [OF h c refl, of x err] x
  show "map p_status (bd_people (rb_board (settle_call 0 (AnsFailed err) (snd (assign_person op_id 5 ?v ''p'' ''P'' ''a'' True ?rb)))))
      = [PAvailable]"
    by (simp add: empty_resources_def)
qed

end
