(* ===== verification/RouteGroups.thy ===== *)
theory RouteGroups
  imports ResourceActions
begin

text \<open>
  The Auftraege (incident groups) of the board: \<^verbatim>\<open>frontend/lib/contexts/groups-context.tsx\<close>. A mutation is a
  closure of one render (\<open>groups_view\<close>): it writes the list at once, sends its request and is settled by
  \<open>answer_call\<close>. Stop orders of one route go through a promise chain, which is the \<open>serial_queue\<close> of
  \<open>Batching\<close>. Console output is left out; a toast is its message key.
\<close>

section \<open>Data\<close>

datatype group_resource_type = GrVehicle | GrPersonnel | GrMaterial

record group_assignment =
  ga_id :: ident
  ga_type :: group_resource_type
  ga_resource :: ident
  ga_driverStay :: bool
  ga_isLeader :: bool

record announced =
  an_at :: js_date
  an_fingerprint :: string
  an_stop :: "ident option"
  an_full :: bool

record incident_route =
  ig_id :: ident
  ig_event :: ident
  ig_name :: string
  ig_color :: "string option"
  ig_notes :: "string option"
  ig_position :: int
  ig_created :: js_date
  ig_updated :: js_date
  ig_createdBy :: "ident option"
  ig_stops :: "ident list"
  ig_assignments :: "group_assignment list"
  ig_total :: int
  ig_done :: int
  ig_announced :: "announced option"

record api_group =
  ag_id :: ident
  ag_event :: ident
  ag_name :: string
  ag_color :: "string option"
  ag_notes :: "string option"
  ag_position :: int
  ag_created :: string
  ag_updated :: string
  ag_createdBy :: "string option"
  ag_stops :: "ident list"
  ag_assignments :: "group_assignment list option"
  ag_progress :: "(int \<times> int) option"
  ag_announcedAt :: "string option"
  ag_announcedFingerprint :: "string option"
  ag_announcedStop :: "string option"
  ag_announcedFull :: bool

definition api_assignments_to_client :: "api_group \<Rightarrow> group_assignment list" where
  "api_assignments_to_client g = nullish (ag_assignments g) []"

definition api_group_to_group :: "js_runtime \<Rightarrow> api_group \<Rightarrow> incident_route" where
  "api_group_to_group rt g =
     \<lparr>ig_id = ag_id g, ig_event = ag_event g, ig_name = ag_name g, ig_color = ag_color g, ig_notes = ag_notes g,
      ig_position = ag_position g, ig_created = parse_date rt (ag_created g), ig_updated = parse_date rt (ag_updated g),
      ig_createdBy = or_null (ag_createdBy g), ig_stops = ag_stops g, ig_assignments = api_assignments_to_client g,
      ig_total = fst (nullish (ag_progress g) (0, 0)), ig_done = snd (nullish (ag_progress g) (0, 0)),
      ig_announced =
        (case (or_null (ag_announcedAt g), or_null (ag_announcedFingerprint g)) of
           (Some t, Some f) \<Rightarrow> Some \<lparr>an_at = parse_date rt t, an_fingerprint = f,
             an_stop = or_null (ag_announcedStop g), an_full = ag_announcedFull g\<rparr>
         | _ \<Rightarrow> None)\<rparr>"

record group_update =
  gu_name :: "string option"
  gu_color :: "string option option"
  gu_notes :: "string option option"

record group_input =
  gi_name :: string
  gi_color :: "string option"
  gi_notes :: "string option"

section \<open>State\<close>

datatype after_load = ThenNothing | ThenDriver ident ident

datatype group_call =
    RefreshCall ident nat nat after_load
  | VersionCall ident nat
  | SyncCall ident nat nat "string option"
  | CreateCall ident
  | UpdateCall ident incident_route
  | AnnounceCall ident incident_route
  | DeleteCall "incident_route list"
  | OrderCall "incident_route list"
  | AddStopsCall ident incident_route
  | RemoveStopCall ident incident_route
  | AssignCall ident group_resource_type ident ident
  | UnassignCall ident incident_route
  | FunctionsCall ident ident

datatype stop_job =
    ReorderJob ident "ident list" incident_route
  | RestoreJob ident "ident list" "ident list"

datatype group_effect =
    GroupToast string "string option"
  | StopsSent ident "ident list" "ident list option"
  | DriverAsked ident string ident
  | RestoreResult ident string

record groups_state =
  gs_groups :: "incident_route list"
  gs_ref :: "incident_route list"
  gs_isLoaded :: bool
  gs_loadedEvent :: "ident option"
  gs_active :: "ident option"
  gs_loadSeq :: nat
  gs_epoch :: nat
  gs_lastSync :: "string option"
  gs_errorShown :: bool
  gs_settling :: nat
  gs_calls :: "(nat \<times> group_call) list"
  gs_nextCall :: nat
  gs_queue :: serial_queue
  gs_jobs :: "nat \<rightharpoonup> stop_job"
  gs_log :: "group_effect list"

text \<open>What one render gives its closures: the valid Ereignis, the list shown, the vehicles.\<close>

record groups_view =
  gv_scope :: "ident option"
  gv_event :: "ident option"
  gv_groups :: "incident_route list"
  gv_outOfService :: "ident list"
  gv_vehicles :: "(ident \<times> string) list"
  gv_now :: ms

definition new_groups :: groups_state where
  "new_groups =
     \<lparr>gs_groups = [], gs_ref = [], gs_isLoaded = False, gs_loadedEvent = None, gs_active = None, gs_loadSeq = 0,
      gs_epoch = 0, gs_lastSync = None, gs_errorShown = False, gs_settling = 0, gs_calls = [], gs_nextCall = 0,
      gs_queue = new_queue, gs_jobs = Map.empty, gs_log = []\<rparr>"

definition set_groups :: "(incident_route list \<Rightarrow> incident_route list) \<Rightarrow> groups_state \<Rightarrow> groups_state" where
  "set_groups f g = g\<lparr>gs_groups := f (gs_groups g)\<rparr>"

definition set_groups_and_ref :: "(incident_route list \<Rightarrow> incident_route list) \<Rightarrow> groups_state \<Rightarrow> groups_state" where
  "set_groups_and_ref f g = g\<lparr>gs_groups := f (gs_groups g), gs_ref := f (gs_groups g)\<rparr>"

definition send_group_call :: "group_call \<Rightarrow> groups_state \<Rightarrow> groups_state" where
  "send_group_call c g = g\<lparr>gs_calls := gs_calls g @ [(gs_nextCall g, c)], gs_nextCall := gs_nextCall g + 1\<rparr>"

definition bump_epoch :: "groups_state \<Rightarrow> groups_state" where
  "bump_epoch g = g\<lparr>gs_epoch := gs_epoch g + 1\<rparr>"

definition group_log :: "group_effect \<Rightarrow> groups_state \<Rightarrow> groups_state" where
  "group_log e g = g\<lparr>gs_log := gs_log g @ [e]\<rparr>"

definition find_route :: "ident \<Rightarrow> incident_route list \<Rightarrow> incident_route option" where
  "find_route i gs = List.find (\<lambda>r. ig_id r = i) gs"

definition put_row :: "ident \<Rightarrow> incident_route \<Rightarrow> incident_route list \<Rightarrow> incident_route list" where
  "put_row i r = modify_row ig_id i (\<lambda>_. r)"

section \<open>Loading\<close>

definition prompt_if_driverless :: "groups_view \<Rightarrow> ident \<Rightarrow> ident \<Rightarrow> groups_state \<Rightarrow> groups_state" where
  "prompt_if_driverless v gid vid g =
     (if or_null (gv_event v) = None then g\<lparr>gs_settling := gs_settling g - 1\<rparr> else send_group_call (FunctionsCall gid vid) g)"

definition after_refresh :: "groups_view \<Rightarrow> after_load \<Rightarrow> groups_state \<Rightarrow> groups_state" where
  "after_refresh v k g = (case k of ThenNothing \<Rightarrow> g | ThenDriver gid vid \<Rightarrow> prompt_if_driverless v gid vid g)"

definition refresh_groups :: "groups_view \<Rightarrow> after_load \<Rightarrow> groups_state \<Rightarrow> groups_state" where
  "refresh_groups v k g =
     (case gv_scope v of
        None \<Rightarrow> after_refresh v k (set_groups (\<lambda>_. []) g)
      | Some ev \<Rightarrow> send_group_call (RefreshCall ev (gs_epoch g) (gs_loadSeq g + 1) k) (g\<lparr>gs_loadSeq := gs_loadSeq g + 1\<rparr>))"

definition refresh_succeeds ::
  "js_runtime \<Rightarrow> ident \<Rightarrow> nat \<Rightarrow> nat \<Rightarrow> api_group list \<Rightarrow> groups_state \<Rightarrow> groups_state" where
  "refresh_succeeds rt ev epoch seq groups g =
     (if gs_epoch g \<noteq> epoch \<or> gs_active g \<noteq> Some ev \<or> seq \<noteq> gs_loadSeq g then g
      else (set_groups_and_ref (\<lambda>_. map (api_group_to_group rt) groups) g)\<lparr>gs_errorShown := False\<rparr>)"

definition refresh_fails :: "groups_state \<Rightarrow> groups_state" where
  "refresh_fails g =
     (if gs_errorShown g then g
      else group_log (GroupToast ''loadFailedTitle'' (Some ''loadFailedDescription'')) (g\<lparr>gs_errorShown := True\<rparr>))"

text \<open>A new scope forgets the old one.\<close>

definition enter_scope :: "ident option \<Rightarrow> bool \<Rightarrow> groups_state \<Rightarrow> groups_state" where
  "enter_scope scope event_loaded g =
     g\<lparr>gs_active := scope, gs_loadSeq := gs_loadSeq g + 1, gs_groups := [],
       gs_isLoaded := (scope = None \<and> event_loaded), gs_loadedEvent := None, gs_lastSync := None\<rparr>"

definition sync_groups :: "groups_view \<Rightarrow> groups_state \<Rightarrow> groups_state" where
  "sync_groups v g = (case gv_scope v of None \<Rightarrow> g | Some ev \<Rightarrow> send_group_call (VersionCall ev (gs_epoch g)) g)"

text \<open>The \<^verbatim>\<open>finally\<close> of every way out of \<^verbatim>\<open>syncGroups\<close>.\<close>

definition sync_done :: "ident \<Rightarrow> groups_state \<Rightarrow> groups_state" where
  "sync_done ev g = (if gs_active g = Some ev then g\<lparr>gs_isLoaded := True, gs_loadedEvent := Some ev\<rparr> else g)"

definition version_arrives :: "ident \<Rightarrow> nat \<Rightarrow> string option \<Rightarrow> groups_state \<Rightarrow> groups_state" where
  "version_arrives ev epoch version g =
     (if version \<noteq> None \<and> version = gs_lastSync g then sync_done ev g
      else send_group_call (SyncCall ev epoch (gs_loadSeq g + 1) version) (g\<lparr>gs_loadSeq := gs_loadSeq g + 1\<rparr>))"

definition sync_succeeds ::
  "js_runtime \<Rightarrow> ident \<Rightarrow> nat \<Rightarrow> nat \<Rightarrow> string option \<Rightarrow> api_group list \<Rightarrow> groups_state \<Rightarrow> groups_state" where
  "sync_succeeds rt ev epoch seq version groups g =
     sync_done ev
       (if gs_active g \<noteq> Some ev \<or> seq \<noteq> gs_loadSeq g then g
        else if gs_epoch g \<noteq> epoch then g
        else (set_groups_and_ref (\<lambda>_. map (api_group_to_group rt) groups) g)\<lparr>gs_errorShown := False, gs_lastSync := version\<rparr>)"

section \<open>Mutations\<close>

definition create_group :: "groups_view \<Rightarrow> ident \<Rightarrow> group_input \<Rightarrow> groups_state \<Rightarrow> groups_state" where
  "create_group v tmp i g =
     (case gv_scope v of
        None \<Rightarrow> g
      | Some ev \<Rightarrow>
          send_group_call (CreateCall tmp)
            (set_groups (\<lambda>gs. gs @
               [\<lparr>ig_id = tmp, ig_event = ev, ig_name = gi_name i, ig_color = gi_color i, ig_notes = gi_notes i,
                 ig_position = foldl (\<lambda>m r. max m (ig_position r)) (- 1) (gv_groups v) + 1,
                 ig_created = Some (gv_now v), ig_updated = Some (gv_now v), ig_createdBy = None, ig_stops = [],
                 ig_assignments = [], ig_total = 0, ig_done = 0, ig_announced = None\<rparr>])
              (bump_epoch g)))"

definition apply_group_update :: "group_update \<Rightarrow> incident_route \<Rightarrow> incident_route" where
  "apply_group_update u r =
     r\<lparr>ig_name := nullish (gu_name u) (ig_name r), ig_color := nullish (gu_color u) (ig_color r),
       ig_notes := nullish (gu_notes u) (ig_notes r)\<rparr>"

definition update_group :: "groups_view \<Rightarrow> ident \<Rightarrow> group_update \<Rightarrow> groups_state \<Rightarrow> groups_state" where
  "update_group v i u g =
     (case find_route i (gv_groups v) of
        None \<Rightarrow> bump_epoch g
      | Some previous \<Rightarrow>
          send_group_call (UpdateCall i previous) (set_groups (modify_row ig_id i (apply_group_update u)) (bump_epoch g)))"

definition note_announcement :: "announced \<Rightarrow> incident_route \<Rightarrow> incident_route" where
  "note_announcement a r = r\<lparr>ig_announced := Some a\<rparr>"

definition record_announcement :: "groups_view \<Rightarrow> ident \<Rightarrow> string \<Rightarrow> ident option \<Rightarrow> bool \<Rightarrow> groups_state \<Rightarrow> groups_state" where
  "record_announcement v i fingerprint stop whole g =
     (case find_route i (gv_groups v) of
        None \<Rightarrow> bump_epoch g
      | Some previous \<Rightarrow>
          send_group_call (AnnounceCall i previous)
            (set_groups (modify_row ig_id i (note_announcement
               \<lparr>an_at = Some (gv_now v), an_fingerprint = fingerprint, an_stop = stop, an_full = whole\<rparr>)) (bump_epoch g)))"

definition delete_group :: "groups_view \<Rightarrow> ident \<Rightarrow> groups_state \<Rightarrow> groups_state" where
  "delete_group v i g =
     send_group_call (DeleteCall (gv_groups v)) (set_groups (filter (\<lambda>r. ig_id r \<noteq> i)) (bump_epoch g))"

fun number_routes :: "incident_route list \<Rightarrow> int \<Rightarrow> ident list \<Rightarrow> incident_route list" where
  "number_routes gs n [] = []"
| "number_routes gs n (i # ids) =
     (case map_of (rev (map (\<lambda>r. (ig_id r, r)) gs)) i of
        None \<Rightarrow> number_routes gs (n + 1) ids
      | Some r \<Rightarrow> r\<lparr>ig_position := n\<rparr> # number_routes gs (n + 1) ids)"

definition reorder_groups :: "groups_view \<Rightarrow> ident list \<Rightarrow> groups_state \<Rightarrow> groups_state" where
  "reorder_groups v ids g =
     (if gv_scope v = None \<or> ids = [] then g
      else send_group_call (OrderCall (gv_groups v))
        (set_groups (\<lambda>_. number_routes (gv_groups v) 0 ids @ filter (\<lambda>r. \<not> js_includes ids (ig_id r)) (gv_groups v))
          (bump_epoch g)))"

definition set_stops :: "ident list \<Rightarrow> incident_route \<Rightarrow> incident_route" where
  "set_stops ids r = r\<lparr>ig_stops := ids\<rparr>"

definition append_stops :: "ident list \<Rightarrow> incident_route \<Rightarrow> incident_route" where
  "append_stops ids r = r\<lparr>ig_stops := ig_stops r @ ids, ig_total := ig_total r + int (length ids)\<rparr>"

definition add_stops :: "groups_view \<Rightarrow> ident \<Rightarrow> ident list \<Rightarrow> groups_state \<Rightarrow> groups_state" where
  "add_stops v i ids g =
     (case find_route i (gv_groups v) of
        None \<Rightarrow> bump_epoch g
      | Some previous \<Rightarrow>
          if ids = [] then bump_epoch g
          else send_group_call (AddStopsCall i previous)
            (set_groups (modify_row ig_id i (append_stops (filter (\<lambda>x. \<not> js_includes (ig_stops previous) x) ids))) (bump_epoch g)))"

definition drop_stop :: "ident \<Rightarrow> bool \<Rightarrow> incident_route \<Rightarrow> incident_route" where
  "drop_stop x was_member r =
     r\<lparr>ig_stops := filter (\<lambda>y. y \<noteq> x) (ig_stops r), ig_total := (if was_member then max 0 (ig_total r - 1) else ig_total r)\<rparr>"

definition remove_stop :: "groups_view \<Rightarrow> ident \<Rightarrow> ident \<Rightarrow> groups_state \<Rightarrow> groups_state" where
  "remove_stop v i x g =
     (case find_route i (gv_groups v) of
        None \<Rightarrow> bump_epoch g
      | Some previous \<Rightarrow>
          send_group_call (RemoveStopCall i previous)
            (set_groups (modify_row ig_id i (drop_stop x (js_includes (ig_stops previous) x))) (bump_epoch g)))"

definition attach :: "group_assignment \<Rightarrow> incident_route \<Rightarrow> incident_route" where
  "attach a r = r\<lparr>ig_assignments := ig_assignments r @ [a]\<rparr>"

definition detach :: "ident \<Rightarrow> incident_route \<Rightarrow> incident_route" where
  "detach aid r = r\<lparr>ig_assignments := filter (\<lambda>a. ga_id a \<noteq> aid) (ig_assignments r)\<rparr>"

definition holds_resource :: "group_resource_type \<Rightarrow> ident \<Rightarrow> incident_route \<Rightarrow> bool" where
  "holds_resource k x r = js_some (\<lambda>a. ga_type a = k \<and> ga_resource a = x) (ig_assignments r)"

definition vehicle_label :: "groups_view \<Rightarrow> ident \<Rightarrow> string" where
  "vehicle_label v x = nullish (map_of (gv_vehicles v) x) x"

definition assign_resource ::
  "groups_view \<Rightarrow> ident \<Rightarrow> ident \<Rightarrow> group_resource_type \<Rightarrow> ident \<Rightarrow> groups_state \<Rightarrow> groups_state" where
  "assign_resource v tmp i k x g =
     (case find_route i (gv_groups v) of
        None \<Rightarrow> g
      | Some previous \<Rightarrow>
          if holds_resource k x previous then g
          else if k = GrVehicle \<and> x \<in> set (gv_outOfService v)
          then group_log (GroupToast (''outOfServiceBlockedTitle '' @ vehicle_label v x) (Some ''outOfServiceBlockedDescription'')) g
          else
            let g1 = bump_epoch g;
                g2 = (if k = GrVehicle then g1\<lparr>gs_settling := gs_settling g1 + 1\<rparr> else g1)
            in send_group_call (AssignCall i k x tmp)
                 (set_groups (modify_row ig_id i (attach
                    \<lparr>ga_id = tmp, ga_type = k, ga_resource = x, ga_driverStay = False, ga_isLeader = False\<rparr>)) g2))"

definition unassign_resource :: "groups_view \<Rightarrow> ident \<Rightarrow> ident \<Rightarrow> groups_state \<Rightarrow> groups_state" where
  "unassign_resource v i aid g =
     (case find_route i (gv_groups v) of
        None \<Rightarrow> g
      | Some previous \<Rightarrow>
          send_group_call (UnassignCall i previous) (set_groups (modify_row ig_id i (detach aid)) (bump_epoch g)))"

section \<open>Stop orders: one at a time per route\<close>

text \<open>A request of the chain is sent when it runs.\<close>

definition send_stops :: "nat \<Rightarrow> groups_state \<Rightarrow> groups_state" where
  "send_stops n g =
     (case gs_jobs g n of
        None \<Rightarrow> g
      | Some (ReorderJob i ids _) \<Rightarrow> group_log (StopsSent i ids None) g
      | Some (RestoreJob i ids expected) \<Rightarrow> group_log (StopsSent i ids (Some expected)) g)"

definition enqueue_job :: "ident \<Rightarrow> stop_job \<Rightarrow> groups_state \<Rightarrow> groups_state" where
  "enqueue_job i job g =
     (let n = kq_count (gs_queue g);
          g1 = g\<lparr>gs_queue := queue_run i (gs_queue g), gs_jobs := (gs_jobs g)(n \<mapsto> job)\<rparr>
      in if kq_state (gs_queue g1) n = Running then send_stops n g1 else g1)"

definition reorder_group_stops :: "ident \<Rightarrow> ident list \<Rightarrow> groups_state \<Rightarrow> groups_state" where
  "reorder_group_stops i ids g =
     (case find_route i (gs_ref g) of
        None \<Rightarrow> bump_epoch g
      | Some previous \<Rightarrow>
          enqueue_job i (ReorderJob i ids previous) (set_groups_and_ref (modify_row ig_id i (set_stops ids)) (bump_epoch g)))"

definition restore_group_stops :: "ident \<Rightarrow> ident list \<Rightarrow> ident list \<Rightarrow> groups_state \<Rightarrow> groups_state" where
  "restore_group_stops i ids expected g = enqueue_job i (RestoreJob i ids expected) (bump_epoch g)"

text \<open>The request at the head of the chain is done: the next one of the route runs.\<close>

definition start_stops :: "nat \<Rightarrow> groups_state \<Rightarrow> groups_state" where
  "start_stops n g =
     (let g1 = g\<lparr>gs_queue := queue_start n (gs_queue g)\<rparr>
      in if n < kq_count (gs_queue g) \<and> kq_state (gs_queue g) n \<noteq> Running \<and> kq_state (gs_queue g1) n = Running
         then send_stops n g1 else g1)"

text \<open>A refused order is taken back only where it is still the one shown.\<close>

definition revert_order :: "ident list \<Rightarrow> incident_route \<Rightarrow> incident_route \<Rightarrow> incident_route" where
  "revert_order ids previous r = (if ig_stops r = ids then previous else r)"

definition job_effect :: "groups_view \<Rightarrow> stop_job \<Rightarrow> js_error option \<Rightarrow> groups_state \<Rightarrow> groups_state" where
  "job_effect v job err g =
     (case job of
        ReorderJob i ids previous \<Rightarrow>
          (case err of
             None \<Rightarrow> g
           | Some _ \<Rightarrow> group_log (GroupToast ''reorderStopsFailed'' None)
               (set_groups (modify_row ig_id i (revert_order ids previous)) g))
      | RestoreJob i ids expected \<Rightarrow>
          (case err of
             None \<Rightarrow> group_log (RestoreResult i ''restored'') (set_groups_and_ref (modify_row ig_id i (set_stops ids)) g)
           | Some e \<Rightarrow>
               if is_conflict_error e
               then group_log (RestoreResult i ''conflict'') (refresh_groups v ThenNothing g)
               else group_log (RestoreResult i ''failed'') g))"

definition settle_stops :: "groups_view \<Rightarrow> nat \<Rightarrow> js_error option \<Rightarrow> groups_state \<Rightarrow> groups_state" where
  "settle_stops v n err g =
     (if n < kq_count (gs_queue g) \<and> kq_state (gs_queue g) n = Running
      then
        let g1 = g\<lparr>gs_queue := queue_cleanup n (queue_settle n (gs_queue g))\<rparr>
        in (case gs_jobs g n of None \<Rightarrow> g1 | Some job \<Rightarrow> job_effect v job err g1)
      else g)"

section \<open>Answers\<close>

datatype group_answer =
    GaGroups "api_group list"
  | GaGroup api_group
  | GaVersion "string option"
  | GaDrivers "ident list"
  | GaDone
  | GaFailed js_error

definition take_back :: "ident \<Rightarrow> incident_route \<Rightarrow> string option \<Rightarrow> groups_state \<Rightarrow> groups_state" where
  "take_back i previous title g =
     (let g1 = set_groups (put_row i previous) g
      in case title of None \<Rightarrow> g1 | Some t \<Rightarrow> group_log (GroupToast t None) g1)"

definition settle_one :: "group_resource_type \<Rightarrow> groups_state \<Rightarrow> groups_state" where
  "settle_one k g = (if k = GrVehicle then g\<lparr>gs_settling := gs_settling g - 1\<rparr> else g)"

definition driver_check :: "groups_view \<Rightarrow> ident \<Rightarrow> ident \<Rightarrow> ident list \<Rightarrow> groups_state \<Rightarrow> groups_state" where
  "driver_check v gid vid drivers g =
     (if vid \<in> set drivers then g
      else case find_route gid (gs_ref g) of
        None \<Rightarrow> g
      | Some r \<Rightarrow> if holds_resource GrVehicle vid r then group_log (DriverAsked vid (vehicle_label v vid) gid) g else g)"

fun answer_call :: "js_runtime \<Rightarrow> groups_view \<Rightarrow> group_call \<Rightarrow> group_answer \<Rightarrow> groups_state \<Rightarrow> groups_state" where
  "answer_call rt v (RefreshCall ev epoch seq k) (GaGroups gs) g = after_refresh v k (refresh_succeeds rt ev epoch seq gs g)"
| "answer_call rt v (RefreshCall ev epoch seq k) _ g = after_refresh v k (refresh_fails g)"
| "answer_call rt v (VersionCall ev epoch) (GaVersion version) g = version_arrives ev epoch version g"
| "answer_call rt v (VersionCall ev epoch) _ g = version_arrives ev epoch None g"
| "answer_call rt v (SyncCall ev epoch seq version) (GaGroups gs) g = sync_succeeds rt ev epoch seq version gs g"
| "answer_call rt v (SyncCall ev epoch seq version) _ g = sync_done ev g"
| "answer_call rt v (CreateCall tmp) (GaGroup a) g = set_groups (put_row tmp (api_group_to_group rt a)) g"
| "answer_call rt v (CreateCall tmp) _ g =
     group_log (GroupToast ''createFailed'' None) (set_groups (filter (\<lambda>r. ig_id r \<noteq> tmp)) g)"
| "answer_call rt v (UpdateCall i previous) (GaGroup a) g = set_groups (put_row i (api_group_to_group rt a)) g"
| "answer_call rt v (UpdateCall i previous) _ g = take_back i previous (Some ''updateFailed'') g"
| "answer_call rt v (AnnounceCall i previous) (GaGroup a) g = set_groups (put_row i (api_group_to_group rt a)) g"
| "answer_call rt v (AnnounceCall i previous) _ g = take_back i previous None g"
| "answer_call rt v (DeleteCall snapshot) (GaFailed e) g =
     group_log (GroupToast ''deleteFailed'' None) (set_groups (\<lambda>_. snapshot) g)"
| "answer_call rt v (DeleteCall snapshot) _ g = g"
| "answer_call rt v (OrderCall snapshot) (GaFailed e) g =
     group_log (GroupToast ''reorderFailed'' None) (set_groups (\<lambda>_. snapshot) g)"
| "answer_call rt v (OrderCall snapshot) _ g = g"
| "answer_call rt v (AddStopsCall i previous) (GaGroup a) g = set_groups (put_row i (api_group_to_group rt a)) g"
| "answer_call rt v (AddStopsCall i previous) _ g = take_back i previous (Some ''addStopsFailed'') g"
| "answer_call rt v (RemoveStopCall i previous) (GaFailed e) g = take_back i previous (Some ''removeStopFailed'') g"
| "answer_call rt v (RemoveStopCall i previous) _ g = g"
| "answer_call rt v (AssignCall i k x tmp) (GaFailed e) g =
     group_log (GroupToast ''assignFailed'' (refusal_reason e)) (set_groups (modify_row ig_id i (detach tmp)) (settle_one k g))"
| "answer_call rt v (AssignCall i k x tmp) _ g =
     refresh_groups v (if k = GrVehicle then ThenDriver i x else ThenNothing) g"
| "answer_call rt v (UnassignCall i previous) (GaFailed e) g = take_back i previous (Some ''unassignFailed'') g"
| "answer_call rt v (UnassignCall i previous) _ g = refresh_groups v ThenNothing g"
| "answer_call rt v (FunctionsCall gid vid) (GaDrivers ds) g =
     (driver_check v gid vid ds g)\<lparr>gs_settling := gs_settling g - 1\<rparr>"
| "answer_call rt v (FunctionsCall gid vid) _ g = g\<lparr>gs_settling := gs_settling g - 1\<rparr>"

definition settle_group_call :: "js_runtime \<Rightarrow> groups_view \<Rightarrow> nat \<Rightarrow> group_answer \<Rightarrow> groups_state \<Rightarrow> groups_state" where
  "settle_group_call rt v n a g =
     (case map_of (gs_calls g) n of
        None \<Rightarrow> g
      | Some c \<Rightarrow> answer_call rt v c a (g\<lparr>gs_calls := filter (\<lambda>p. fst p \<noteq> n) (gs_calls g)\<rparr>))"

section \<open>What the rest of the board reads\<close>

record group_resource_item =
  gr_assignment :: ident
  gr_resource :: ident
  gr_name :: string
  gr_driverStay :: "bool option"
  gr_isLeader :: "bool option"
  gr_location :: "string option"

record group_resources =
  gr_vehicles :: "group_resource_item list"
  gr_personnel :: "group_resource_item list"
  gr_materials :: "group_resource_item list"

record resource_names =
  rn_roster :: "(ident \<times> string) list"
  rn_personnel :: "(ident \<times> string) list"
  rn_vehicles :: "(ident \<times> string) list"
  rn_materials :: "(ident \<times> string \<times> string option) list"
  rn_unknown :: string

definition personnel_names :: "resource_names \<Rightarrow> ident \<rightharpoonup> string" where
  "personnel_names n = map_of (rev (rn_roster n @ rn_personnel n))"

definition shown_name :: "resource_names \<Rightarrow> string option \<Rightarrow> string" where
  "shown_name n s = or_str (map_option js_trim s) (rn_unknown n)"

definition resource_item :: "resource_names \<Rightarrow> group_assignment \<Rightarrow> group_resource_item" where
  "resource_item n a =
     (case ga_type a of
        GrVehicle \<Rightarrow> \<lparr>gr_assignment = ga_id a, gr_resource = ga_resource a, gr_name = shown_name n (map_of (rn_vehicles n) (ga_resource a)),
          gr_driverStay = Some (ga_driverStay a), gr_isLeader = None, gr_location = None\<rparr>
      | GrPersonnel \<Rightarrow> \<lparr>gr_assignment = ga_id a, gr_resource = ga_resource a, gr_name = shown_name n (personnel_names n (ga_resource a)),
          gr_driverStay = None, gr_isLeader = Some (ga_isLeader a), gr_location = None\<rparr>
      | GrMaterial \<Rightarrow> \<lparr>gr_assignment = ga_id a, gr_resource = ga_resource a,
          gr_name = shown_name n (map_option fst (map_of (rn_materials n) (ga_resource a))),
          gr_driverStay = None, gr_isLeader = None,
          gr_location = or_null (case map_of (rn_materials n) (ga_resource a) of Some (_, Some c) \<Rightarrow> Some (js_trim c) | _ \<Rightarrow> None)\<rparr>)"

definition get_group_resources :: "resource_names \<Rightarrow> incident_route list \<Rightarrow> ident \<Rightarrow> group_resources" where
  "get_group_resources n gs i =
     (case find_route i gs of
        None \<Rightarrow> \<lparr>gr_vehicles = [], gr_personnel = [], gr_materials = []\<rparr>
      | Some r \<Rightarrow>
          foldl (\<lambda>res a. case ga_type a of
               GrVehicle \<Rightarrow> res\<lparr>gr_vehicles := gr_vehicles res @ [resource_item n a]\<rparr>
             | GrPersonnel \<Rightarrow> res\<lparr>gr_personnel := gr_personnel res @ [resource_item n a]\<rparr>
             | GrMaterial \<Rightarrow> res\<lparr>gr_materials := gr_materials res @ [resource_item n a]\<rparr>)
            \<lparr>gr_vehicles = [], gr_personnel = [], gr_materials = []\<rparr> (ig_assignments r))"

definition group_resources_for :: "resource_names \<Rightarrow> incident_route list \<Rightarrow> ident option \<Rightarrow> group_resources" where
  "group_resources_for n gs gid =
     (case or_null gid of None \<Rightarrow> \<lparr>gr_vehicles = [], gr_personnel = [], gr_materials = []\<rparr> | Some i \<Rightarrow> get_group_resources n gs i)"

definition occupied_resource_ids :: "incident_route list \<Rightarrow> group_resource_type \<Rightarrow> ident list" where
  "occupied_resource_ids gs k = remdups (map ga_resource (filter (\<lambda>a. ga_type a = k) (concat (map ig_assignments gs))))"

definition scoped_groups :: "ident option \<Rightarrow> incident_route list \<Rightarrow> incident_route list" where
  "scoped_groups scope gs = (case scope of None \<Rightarrow> [] | Some ev \<Rightarrow> filter (\<lambda>r. ig_event r = ev) gs)"

definition groups_loaded :: "ident option \<Rightarrow> groups_state \<Rightarrow> bool" where
  "groups_loaded scope g = (gs_isLoaded g \<and> gs_loadedEvent g = scope)"

section \<open>Runs\<close>

datatype group_event =
    GeScope "ident option" bool
  | GeEventResolved
  | GeRefresh groups_view
  | GeSync groups_view
  | GeCreate groups_view ident group_input
  | GeUpdate groups_view ident group_update
  | GeAnnounce groups_view ident string "ident option" bool
  | GeDelete groups_view ident
  | GeReorder groups_view "ident list"
  | GeStops ident "ident list"
  | GeRestore ident "ident list" "ident list"
  | GeAddStops groups_view ident "ident list"
  | GeRemoveStop groups_view ident ident
  | GeAssign groups_view ident ident group_resource_type ident
  | GeUnassign groups_view ident ident
  | GeAnswer groups_view nat group_answer
  | GeStart nat
  | GeSettle groups_view nat "js_error option"
  | GeRendered

fun group_step :: "js_runtime \<Rightarrow> groups_state \<Rightarrow> group_event \<Rightarrow> groups_state" where
  "group_step rt g (GeScope scope loaded) = enter_scope scope loaded g"
| "group_step rt g GeEventResolved = (if gs_active g = None then g\<lparr>gs_isLoaded := True\<rparr> else g)"
| "group_step rt g (GeRefresh v) = refresh_groups v ThenNothing g"
| "group_step rt g (GeSync v) = sync_groups v g"
| "group_step rt g (GeCreate v tmp i) = create_group v tmp i g"
| "group_step rt g (GeUpdate v i u) = update_group v i u g"
| "group_step rt g (GeAnnounce v i f stop whole) = record_announcement v i f stop whole g"
| "group_step rt g (GeDelete v i) = delete_group v i g"
| "group_step rt g (GeReorder v ids) = reorder_groups v ids g"
| "group_step rt g (GeStops i ids) = reorder_group_stops i ids g"
| "group_step rt g (GeRestore i ids expected) = restore_group_stops i ids expected g"
| "group_step rt g (GeAddStops v i ids) = add_stops v i ids g"
| "group_step rt g (GeRemoveStop v i x) = remove_stop v i x g"
| "group_step rt g (GeAssign v tmp i k x) = assign_resource v tmp i k x g"
| "group_step rt g (GeUnassign v i aid) = unassign_resource v i aid g"
| "group_step rt g (GeAnswer v n a) = settle_group_call rt v n a g"
| "group_step rt g (GeStart n) = start_stops n g"
| "group_step rt g (GeSettle v n err) = settle_stops v n err g"
| "group_step rt g GeRendered = g\<lparr>gs_ref := gs_groups g\<rparr>"

section \<open>Lemmas\<close>

lemmas group_frames = set_groups_def set_groups_and_ref_def bump_epoch_def group_log_def

lemma modify_put:
  assumes "distinct (map ig_id gs)" and "find_route i gs = Some previous" and "\<And>r. ig_id (f r) = ig_id r"
  shows "put_row i previous (modify_row ig_id i f gs) = gs"
  using assms
proof (induction gs)
  case (Cons r gs)
  show ?case
  proof (cases "ig_id r = i")
    case True
    with Cons.prems have "previous = r" "i \<notin> ig_id ` set gs" by (auto simp: find_route_def)
    with True Cons.prems(3) show ?thesis by (simp add: put_row_def modify_row_absent)
  next
    case False
    with Cons show ?thesis by (simp add: find_route_def put_row_def)
  qed
qed (simp add: put_row_def)

lemma put_after_other:
  assumes "distinct (map ig_id gs)" and "find_route i gs = Some previous" and "\<And>r. ig_id (f r) = ig_id r"
    and h: "\<And>r. ig_id (h r) = ig_id r" and "j \<noteq> i"
  shows "put_row i previous (modify_row ig_id j h (modify_row ig_id i f gs)) = modify_row ig_id j h gs"
proof -
  have "put_row i previous (modify_row ig_id j h gs') = modify_row ig_id j h (put_row i previous gs')" for gs'
    using assms(2,5) h by (induction gs') (auto simp: put_row_def find_route_def dest!: find_SomeD)
  with modify_put [OF assms(1-3)] show ?thesis by simp
qed

text \<open>Vehicles whose driver check is still out.\<close>

fun awaits_driver :: "group_call \<Rightarrow> bool" where
  "awaits_driver (AssignCall _ k _ _) = (k = GrVehicle)"
| "awaits_driver (RefreshCall _ _ _ (ThenDriver _ _)) = True"
| "awaits_driver (FunctionsCall _ _) = True"
| "awaits_driver _ = False"

definition awaited :: "(nat \<times> group_call) list \<Rightarrow> nat" where
  "awaited calls = length (filter (awaits_driver \<circ> snd) calls)"

lemma awaited_simps [simp]: "awaited [] = 0" "awaited (calls @ calls') = awaited calls + awaited calls'"
  "awaited ((n, c) # calls) = (if awaits_driver c then 1 else 0) + awaited calls"
  by (simp_all add: awaited_def)

definition calls_inv :: "nat \<Rightarrow> groups_state \<Rightarrow> bool" where
  "calls_inv extra g \<longleftrightarrow> gs_settling g = awaited (gs_calls g) + extra \<and> distinct (map fst (gs_calls g))
     \<and> (\<forall>p\<in>set (gs_calls g). fst p < gs_nextCall g)"

lemma calls_inv_frame [simp]:
  "calls_inv x (set_groups f g) = calls_inv x g" "calls_inv x (set_groups_and_ref f g) = calls_inv x g"
  "calls_inv x (bump_epoch g) = calls_inv x g" "calls_inv x (group_log e g) = calls_inv x g"
  "calls_inv x (g\<lparr>gs_loadSeq := n\<rparr>) = calls_inv x g" "calls_inv x (g\<lparr>gs_errorShown := b\<rparr>) = calls_inv x g"
  "calls_inv x (g\<lparr>gs_errorShown := b, gs_lastSync := lv\<rparr>) = calls_inv x g"
  "calls_inv x (g\<lparr>gs_isLoaded := b, gs_loadedEvent := le\<rparr>) = calls_inv x g"
  "calls_inv x (g\<lparr>gs_isLoaded := b\<rparr>) = calls_inv x g" "calls_inv x (g\<lparr>gs_ref := rs\<rparr>) = calls_inv x g"
  "calls_inv x (g\<lparr>gs_queue := q\<rparr>) = calls_inv x g" "calls_inv x (g\<lparr>gs_queue := q, gs_jobs := js\<rparr>) = calls_inv x g"
  by (simp_all add: calls_inv_def group_frames)

lemma calls_inv_send: "calls_inv (x + (if awaits_driver c then 1 else 0)) g \<Longrightarrow> calls_inv x (send_group_call c g)"
  by (auto simp: calls_inv_def send_group_call_def)

fun then_awaits :: "after_load \<Rightarrow> nat" where
  "then_awaits ThenNothing = 0"
| "then_awaits (ThenDriver _ _) = 1"

lemma calls_inv_less: "calls_inv (Suc x) g \<Longrightarrow> calls_inv x (g\<lparr>gs_settling := gs_settling g - Suc 0\<rparr>)"
  by (simp add: calls_inv_def)

lemma calls_inv_more: "calls_inv x g \<Longrightarrow> calls_inv (Suc x) (g\<lparr>gs_settling := Suc (gs_settling g)\<rparr>)"
  by (simp add: calls_inv_def)

lemma calls_inv_after: "calls_inv (x + then_awaits k) g \<Longrightarrow> calls_inv x (after_refresh v k g)"
  by (cases k) (simp_all add: after_refresh_def prompt_if_driverless_def calls_inv_less calls_inv_send)

lemma calls_inv_refresh: "calls_inv (x + then_awaits k) g \<Longrightarrow> calls_inv x (refresh_groups v k g)"
  by (cases k) (auto simp: refresh_groups_def intro!: calls_inv_after calls_inv_send split: option.split)

lemma calls_inv_take_back: "calls_inv x g \<Longrightarrow> calls_inv x (take_back i previous title g)"
  by (simp add: take_back_def Let_def split: option.split)

lemma calls_inv_send_stops: "calls_inv x g \<Longrightarrow> calls_inv x (send_stops n g)"
  by (simp add: send_stops_def split: option.split stop_job.split)

lemma calls_inv_enqueue: "calls_inv x g \<Longrightarrow> calls_inv x (enqueue_job i job g)"
  by (simp add: enqueue_job_def Let_def calls_inv_send_stops)

lemma calls_inv_sync_done: "calls_inv x g \<Longrightarrow> calls_inv x (sync_done ev g)"
  by (simp add: sync_done_def)

lemma calls_inv_version: "calls_inv x g \<Longrightarrow> calls_inv x (version_arrives ev epoch version g)"
  by (simp add: version_arrives_def calls_inv_sync_done calls_inv_send)

lemma calls_inv_loads:
  "calls_inv x g \<Longrightarrow> calls_inv x (refresh_succeeds rt ev epoch seq gs g)"
  "calls_inv x g \<Longrightarrow> calls_inv x (refresh_fails g)"
  "calls_inv x g \<Longrightarrow> calls_inv x (sync_succeeds rt ev epoch seq version gs g)"
  by (simp_all add: refresh_succeeds_def refresh_fails_def sync_succeeds_def calls_inv_sync_done)

lemma calls_inv_driver_check: "calls_inv x g \<Longrightarrow> calls_inv x (driver_check v gid vid ds g)"
  by (simp add: driver_check_def split: option.split)

lemma driver_check_settling [simp]: "gs_settling (driver_check v gid vid ds g) = gs_settling g"
  by (simp add: driver_check_def group_log_def split: option.split)

lemmas calls_inv_intros = calls_inv_send calls_inv_less calls_inv_after calls_inv_refresh calls_inv_take_back
  calls_inv_enqueue calls_inv_sync_done calls_inv_version calls_inv_loads calls_inv_driver_check calls_inv_send_stops

text \<open>The answer of a call settles what it awaited, or hands it on.\<close>

lemma awaits_refresh: "(if awaits_driver (RefreshCall ev p s k) then 1 else 0) = then_awaits k"
  by (cases k) simp_all

lemma calls_inv_settle_one: "calls_inv (if k = GrVehicle then 1 else 0) g \<Longrightarrow> calls_inv 0 (settle_one k g)"
  by (simp add: settle_one_def calls_inv_less split: if_splits)

lemma calls_inv_assigned:
  "calls_inv (if k = GrVehicle then 1 else 0) g \<Longrightarrow>
     calls_inv 0 (refresh_groups v (if k = GrVehicle then ThenDriver i x else ThenNothing) g)"
  by (rule calls_inv_refresh) (simp split: if_splits)

lemma calls_inv_checked: "calls_inv 1 g \<Longrightarrow> calls_inv 0 ((driver_check v gid vid ds g)\<lparr>gs_settling := gs_settling g - 1\<rparr>)"
  using calls_inv_less [of 0 "driver_check v gid vid ds g"] by (simp add: calls_inv_driver_check)

lemma calls_inv_answer:
  assumes "calls_inv (if awaits_driver c then 1 else 0) g"
  shows "calls_inv 0 (answer_call rt v c a g)"
proof (cases c)
  case (RefreshCall ev epoch seq k)
  with assms have "calls_inv (then_awaits k) g" by (simp only: awaits_refresh)
  then have "calls_inv 0 (after_refresh v k (refresh_succeeds rt ev epoch seq gs g))"
    "calls_inv 0 (after_refresh v k (refresh_fails g))" for gs
    by (simp_all add: calls_inv_after calls_inv_loads)
  then show ?thesis unfolding RefreshCall by (cases a) simp_all
next
  case (AssignCall i k x tmp)
  with assms show ?thesis
    by (cases a) (simp_all only: answer_call.simps awaits_driver.simps calls_inv_frame calls_inv_settle_one calls_inv_assigned)
next
  case (FunctionsCall gid vid)
  with assms show ?thesis
    by (cases a) (simp_all add: calls_inv_checked [simplified] calls_inv_less)
qed (use assms in \<open>cases a; simp add: calls_inv_intros\<close>)+

lemma awaited_remove:
  assumes "distinct (map fst calls)" and "map_of calls n = Some c"
  shows "awaited calls = awaited (filter (\<lambda>p. fst p \<noteq> n) calls) + (if awaits_driver c then 1 else 0)"
  using assms
proof (induction calls)
  case (Cons p calls)
  obtain m d where p: "p = (m, d)" by force
  show ?case
  proof (cases "m = n")
    case True
    with Cons.prems p have "d = c" "n \<notin> fst ` set calls" by auto
    then have "filter (\<lambda>p. fst p \<noteq> n) calls = calls" by (auto simp: filter_id_conv)
    with True p \<open>d = c\<close> show ?thesis by simp
  next
    case False
    with Cons p show ?thesis by simp
  qed
qed simp

lemma calls_inv_settle_call:
  assumes inv: "calls_inv 0 g"
  shows "calls_inv 0 (settle_group_call rt v n a g)"
proof (cases "map_of (gs_calls g) n")
  case (Some c)
  let ?g = "g\<lparr>gs_calls := filter (\<lambda>p. fst p \<noteq> n) (gs_calls g)\<rparr>"
  have "calls_inv (if awaits_driver c then 1 else 0) ?g"
    using inv awaited_remove [OF _ Some] unfolding calls_inv_def by (auto intro: distinct_map_filter)
  from calls_inv_answer [OF this] show ?thesis by (simp add: settle_group_call_def Some)
qed (simp add: settle_group_call_def inv)

lemma calls_inv_settle_stops: "calls_inv 0 g \<Longrightarrow> calls_inv 0 (settle_stops v n err g)"
proof -
  assume inv: "calls_inv 0 g"
  have "calls_inv 0 (job_effect v job err g')" if "calls_inv 0 g'" for job g'
    using that by (simp add: job_effect_def calls_inv_refresh split: stop_job.split option.split)
  with inv show ?thesis by (simp add: settle_stops_def Let_def split: option.split)
qed

lemma calls_inv_assign: "calls_inv 0 g \<Longrightarrow> calls_inv 0 (assign_resource v tmp i k x g)"
  by (auto simp: assign_resource_def Let_def calls_inv_more split: option.split intro!: calls_inv_send)

lemma calls_inv_step: "calls_inv 0 g \<Longrightarrow> calls_inv 0 (group_step rt g ev)"
proof (cases ev)
  case (GeScope scope loaded)
  then show "calls_inv 0 g \<Longrightarrow> ?thesis" by (simp add: enter_scope_def calls_inv_def)
next
  case (GeAssign v tmp i k x)
  then show "calls_inv 0 g \<Longrightarrow> ?thesis" by (simp add: calls_inv_assign)
next
  case (GeStart n)
  then show "calls_inv 0 g \<Longrightarrow> ?thesis" by (simp add: start_stops_def Let_def calls_inv_send_stops)
qed (simp_all add: calls_inv_settle_call calls_inv_settle_stops calls_inv_refresh sync_groups_def create_group_def update_group_def
    record_announcement_def delete_group_def reorder_groups_def reorder_group_stops_def restore_group_stops_def add_stops_def
    remove_stop_def unassign_resource_def calls_inv_enqueue calls_inv_send split: option.split)

lemma calls_inv_new: "calls_inv 0 new_groups"
  by (simp add: calls_inv_def new_groups_def)

interpretation routes: event_machine "group_step rt" "calls_inv 0" new_groups for rt
  by unfold_locales (simp_all add: calls_inv_new calls_inv_step)

text \<open>The chain of the stop orders is the serial queue: what each step does to it.\<close>

fun queue_events :: "groups_state \<Rightarrow> group_event \<Rightarrow> queue_event list" where
  "queue_events g (GeStops i ids) = (if find_route i (gs_ref g) = None then [] else [QRun i])"
| "queue_events g (GeRestore i ids expected) = [QRun i]"
| "queue_events g (GeStart n) = [QStart n]"
| "queue_events g (GeSettle v n err) =
     (if n < kq_count (gs_queue g) \<and> kq_state (gs_queue g) n = Running then [QSettle n, QCleanup n] else [])"
| "queue_events g _ = []"

lemma queue_frames [simp]:
  "gs_queue (set_groups f g) = gs_queue g" "gs_queue (set_groups_and_ref f g) = gs_queue g" "gs_queue (bump_epoch g) = gs_queue g"
  "gs_queue (group_log e g) = gs_queue g" "gs_queue (send_group_call c g) = gs_queue g"
  by (simp_all add: group_frames send_group_call_def)

lemma queue_frames2 [simp]:
  "gs_queue (after_refresh v k g) = gs_queue g" "gs_queue (refresh_groups v k g) = gs_queue g"
  "gs_queue (take_back i previous title g) = gs_queue g" "gs_queue (send_stops n g) = gs_queue g"
  "gs_queue (sync_done ev g) = gs_queue g" "gs_queue (version_arrives ev epoch version g) = gs_queue g"
  "gs_queue (refresh_succeeds rt ev epoch seq gs g) = gs_queue g" "gs_queue (refresh_fails g) = gs_queue g"
  "gs_queue (sync_succeeds rt ev epoch seq version gs g) = gs_queue g" "gs_queue (driver_check v gid vid ds g) = gs_queue g"
  "gs_queue (settle_one rk g) = gs_queue g"
  by (simp_all add: after_refresh_def prompt_if_driverless_def refresh_groups_def take_back_def send_stops_def sync_done_def
      version_arrives_def refresh_succeeds_def refresh_fails_def sync_succeeds_def driver_check_def settle_one_def Let_def
      split: option.split after_load.split stop_job.split)

lemma queue_answer [simp]: "gs_queue (answer_call rt v c a g) = gs_queue g"
  by (cases c; cases a; simp)

lemma queue_job_effect [simp]: "gs_queue (job_effect v job err g) = gs_queue g"
  by (simp add: job_effect_def split: stop_job.split option.split)

lemma queue_step_of: "gs_queue (group_step rt g ev) = foldl queue_step (gs_queue g) (queue_events g ev)"
  by (cases ev) (simp_all add: settle_group_call_def settle_stops_def start_stops_def enqueue_job_def reorder_group_stops_def
      restore_group_stops_def enter_scope_def sync_groups_def create_group_def update_group_def record_announcement_def
      delete_group_def reorder_groups_def add_stops_def remove_stop_def unassign_resource_def assign_resource_def Let_def
      split: option.split)

lemma queue_of_run: "\<exists>es. gs_queue (foldl (group_step rt) new_groups evs) = run_queue es"
proof (induction evs rule: rev_induct)
  case Nil
  then show ?case by (intro exI [of _ "[]"]) (simp add: new_groups_def run_queue_def)
next
  case (snoc ev evs)
  then obtain es where "gs_queue (foldl (group_step rt) new_groups evs) = run_queue es" by blast
  then show ?case
    by (intro exI [of _ "es @ queue_events (foldl (group_step rt) new_groups evs) ev"]) (simp add: queue_step_of run_queue_def)
qed

definition sample_route :: "ident \<Rightarrow> string \<Rightarrow> incident_route" where
  "sample_route i n =
     \<lparr>ig_id = i, ig_event = ''e'', ig_name = n, ig_color = None, ig_notes = None, ig_position = 0, ig_created = None,
      ig_updated = None, ig_createdBy = None, ig_stops = [''s1'', ''s2''], ig_assignments = [], ig_total = 2, ig_done = 0,
      ig_announced = None\<rparr>"

definition sample_groups :: groups_state where
  "sample_groups = new_groups\<lparr>gs_groups := [sample_route ''a'' ''North'', sample_route ''b'' ''South'']\<rparr>"

definition sample_groups_view :: groups_view where
  "sample_groups_view =
     \<lparr>gv_scope = Some ''e'', gv_event = Some ''e'', gv_groups = gs_groups sample_groups, gv_outOfService = [],
      gv_vehicles = [], gv_now = 0\<rparr>"

definition no_group_update :: group_update where
  "no_group_update = \<lparr>gu_name = None, gu_color = None, gu_notes = None\<rparr>"

definition sample_clock :: js_runtime where
  "sample_clock = \<lparr>parse_date = (\<lambda>_. None), parse_number = (\<lambda>_. None), show_number = (\<lambda>_. [])\<rparr>"

section \<open>Properties\<close>

text \<open>
  Nothing waits for ever on an assignment: whatever the interleaving of mutations, loads and answers,
  the number of assignments still settling is the number of vehicle assignments, reloads after one and driver
  checks that are out; when no call is out, none is settling.
\<close>

theorem route_settling_is_balanced:
  "gs_settling (foldl (group_step rt) new_groups evs) = awaited (gs_calls (foldl (group_step rt) new_groups evs))"
  using routes.inv_run [of rt evs] by (simp add: calls_inv_def)

text \<open>
  The stop orders of one route reach the server one at a time and in the order they were made, undos
  among them: when a request of the chain is out or answered, every earlier one of the same route is answered.
\<close>

theorem stop_orders_keep_their_order:
  assumes "q = gs_queue (foldl (group_step rt) new_groups evs)"
    and "i < j" and "j < kq_count q" and "kq_key q i = kq_key q j" and "kq_state q j = Running \<or> kq_state q j = Done"
  shows "kq_state q i = Done"
proof -
  from queue_of_run [of rt evs] obtain es where "q = run_queue es" unfolding assms(1) by blast
  moreover have "queue_inv (run_queue es)" unfolding run_queue_def by (rule queue.inv_run)
  ultimately show ?thesis using queue_invD(1) [of q i j] assms(2-5) by (simp add: same_key_before_def)
qed

lemma stop_orders_keep_their_order_witness:
  "kq_state (gs_queue (foldl (group_step sample_clock) new_groups
     [GeRestore ''a'' [''s2'', ''s1''] [''s1'', ''s2''], GeRestore ''a'' [''s1'', ''s2''] [''s2'', ''s1''],
      GeSettle sample_groups_view 0 None, GeStart 1])) 0 = Done"
  by (rule stop_orders_keep_their_order [OF refl, of 0 1]) code_simp+

text \<open>
  A refused edit of a route is taken back exactly and takes nothing else with it: with the list as the
  closure saw it and ids that are distinct, the failure of a rename, a stop added or removed, an announcement or a
  release leaves the list as it was before the edit, but for what was written to another route meanwhile.
\<close>

theorem refused_route_edit_is_taken_back:
  assumes "distinct (map ig_id (gs_groups g))" and "gv_groups v = gs_groups g" and "find_route i (gs_groups g) = Some previous"
    and "edit \<in> {update_group v i u, add_stops v i (x # ids), remove_stop v i x, record_announcement v i fp stop whole,
           unassign_resource v i aid}"
    and "calls_inv 0 g" and "j \<noteq> i" and "\<And>r. ig_id (h r) = ig_id r"
  shows "gs_groups (settle_group_call rt v (gs_nextCall g) (GaFailed err) (set_groups (modify_row ig_id j h) (edit g)))
     = modify_row ig_id j h (gs_groups g)"
proof -
  let ?n = "gs_nextCall g"
  have new: "map_of (gs_calls g) ?n = None"
    using assms(5) by (force simp: calls_inv_def map_of_eq_None_iff)
  have key: "gs_groups (settle_group_call rt v ?n (GaFailed err)
        (set_groups (modify_row ig_id j h) (send_group_call c (set_groups (modify_row ig_id i f) (bump_epoch g)))))
      = modify_row ig_id j h (gs_groups g)"
    if f: "\<And>r. ig_id (f r) = ig_id r"
      and c: "c \<in> {UpdateCall i previous, AddStopsCall i previous, RemoveStopCall i previous, AnnounceCall i previous, UnassignCall i previous}"
    for f c
  proof -
    have "gs_groups (answer_call rt v c (GaFailed err) g') = put_row i previous (gs_groups g')" for g'
      using c by (auto simp: take_back_def group_frames)
    moreover have "map_of (gs_calls g @ [(?n, c)]) ?n = Some c" using new by (simp add: map_of_append map_add_def)
    ultimately show ?thesis
      using put_after_other [OF assms(1,3) f assms(7,6)] by (simp add: settle_group_call_def send_group_call_def group_frames)
  qed
  from assms(3) have find: "find_route i (gv_groups v) = Some previous" unfolding assms(2) .
  note key' = key [of "apply_group_update u" "UpdateCall i previous"] key [of "detach aid" "UnassignCall i previous"]
    key [of "append_stops (filter (\<lambda>y. \<not> js_includes (ig_stops previous) y) (x # ids))" "AddStopsCall i previous"]
    key [of "drop_stop x (js_includes (ig_stops previous) x)" "RemoveStopCall i previous"]
    key [of "note_announcement \<lparr>an_at = Some (gv_now v), an_fingerprint = fp, an_stop = stop, an_full = whole\<rparr>" "AnnounceCall i previous"]
  from assms(4) consider "edit = update_group v i u" | "edit = add_stops v i (x # ids)" | "edit = remove_stop v i x"
    | "edit = record_announcement v i fp stop whole" | "edit = unassign_resource v i aid" by blast
  then show ?thesis
  proof cases
    case 1
    with key'(1) find show ?thesis by (simp add: update_group_def apply_group_update_def)
  next
    case 2
    with key'(3) find show ?thesis by (simp add: add_stops_def append_stops_def)
  next
    case 3
    with key'(4) find show ?thesis by (simp add: remove_stop_def drop_stop_def)
  next
    case 4
    with key'(5) find show ?thesis by (simp add: record_announcement_def note_announcement_def)
  next
    case 5
    with key'(2) find show ?thesis by (simp add: unassign_resource_def detach_def)
  qed
qed

lemma refused_route_edit_is_taken_back_witness:
  "map ig_name (gs_groups (settle_group_call sample_clock sample_groups_view 0 (GaFailed ErrNetwork)
     (set_groups (modify_row ig_id ''b'' (set_stops [''s9''])) (remove_stop sample_groups_view ''a'' ''s1'' sample_groups))))
   = [''North'', ''South'']"
proof -
  have g: "distinct (map ig_id (gs_groups sample_groups))" "gs_nextCall sample_groups = 0"
    "gs_groups sample_groups = [sample_route ''a'' ''North'', sample_route ''b'' ''South'']"
    by (simp_all add: sample_groups_def sample_route_def new_groups_def)
  have "find_route ''a'' (gs_groups sample_groups) = Some (sample_route ''a'' ''North'')"
    by (simp add: g find_route_def sample_route_def)
  moreover have "calls_inv 0 sample_groups" by (simp add: calls_inv_def sample_groups_def new_groups_def)
  ultimately show ?thesis
    using refused_route_edit_is_taken_back [OF g(1), of sample_groups_view "''a''" _ "remove_stop sample_groups_view ''a'' ''s1''"
        no_group_update "''s1''" "[]" "[]" None False "[]" "''b''" "set_stops [''s9'']" sample_clock ErrNetwork]
    by (simp add: g(2)) (simp add: g(3) sample_groups_view_def set_stops_def sample_route_def)
qed

text \<open>
  A refused deletion brings back the whole list of the render it was asked in: what was written to another
  route while the request was out is lost on the board, although the server has it.
\<close>

theorem refused_delete_reverts_other_routes:
  assumes "calls_inv 0 g" and "gv_groups v = gs_groups g"
  shows "gs_groups (settle_group_call rt v (gs_nextCall g) (GaFailed err)
     (set_groups (modify_row ig_id j h) (delete_group v i g))) = gs_groups g"
proof -
  have "map_of (gs_calls g) (gs_nextCall g) = None"
    using assms(1) by (force simp: calls_inv_def map_of_eq_None_iff)
  with assms(2) show ?thesis
    by (simp add: settle_group_call_def delete_group_def send_group_call_def group_frames map_add_def split: option.split)
qed

lemma refused_delete_reverts_other_routes_witness:
  "map ig_name (gs_groups (settle_group_call sample_clock sample_groups_view 0 (GaFailed ErrNetwork)
     (set_groups (modify_row ig_id ''b'' (\<lambda>r. r\<lparr>ig_name := ''Renamed''\<rparr>)) (delete_group sample_groups_view ''a'' sample_groups))))
   = [''North'', ''South'']"
proof -
  have "calls_inv 0 sample_groups" "gv_groups sample_groups_view = gs_groups sample_groups" "gs_nextCall sample_groups = 0"
    by (simp_all add: calls_inv_def sample_groups_def new_groups_def sample_groups_view_def)
  from refused_delete_reverts_other_routes [OF this(1,2), of sample_clock ErrNetwork "''b''" "\<lambda>r. r\<lparr>ig_name := ''Renamed''\<rparr>" "''a''"] this(3)
  show ?thesis by (simp add: sample_groups_def sample_route_def)
qed

end
