(* ===== verification/KanbanDrop.thy ===== *)
theory KanbanDrop
  imports RouteGroups Kanban
begin

text \<open>
  What a drop on the board does: \<^verbatim>\<open>frontend/lib/hooks/use-kanban-drag-drop.ts\<close>. A drag carries a card, a
  person, a vehicle, a device or a block of devices; a drop target is a card, an empty column, a route or
  a stop of one. The mutators the hook is handed are the calls a drop makes, in their order; the
  edge the pointer is closest to comes with the target (the drag library attaches it).
\<close>

section \<open>Payloads and calls\<close>

datatype drag_source =
    DragCard operation nat
  | DragPerson person
  | DragVehicle ident string
  | DragMaterial material
  | DragBlock "material list"
  | DragOther

datatype drop_edge = EdgeTop | EdgeRight | EdgeBottom | EdgeLeft

datatype drop_target =
    OnStop ident
  | OnRoute ident
  | OnCard ident nat "drop_edge option"
  | OnColumn string
  | OnOther

datatype drop_call =
    AssignPersonTo ident string ident
  | AssignRekoTo ident string ident
  | AssignMaterialTo ident ident
  | AssignVehicleTo ident string ident
  | AddStopsTo ident "ident list"
  | AssignToRoute ident group_resource_type ident
  | PutCards "operation list"
  | WriteStatus ident incident_status
  | PostOrder "ident list"
  | Selected ident
  | StatusChanged ident incident_status incident_status

text \<open>The mutators a view may leave out.\<close>

record drop_deps =
  dd_vehicles :: bool
  dd_stops :: bool
  dd_route :: bool

section \<open>Resources\<close>

definition to_route :: "drop_deps \<Rightarrow> ident \<Rightarrow> group_resource_type \<Rightarrow> ident \<Rightarrow> drop_call list" where
  "to_route deps g t r = (if dd_route deps then [AssignToRoute g t r] else [])"

definition drop_on_route :: "drop_deps \<Rightarrow> drag_source \<Rightarrow> ident \<Rightarrow> bool \<Rightarrow> drop_call list" where
  "drop_on_route deps src g is_row =
     (case src of
        DragCard op _ \<Rightarrow> if is_row \<and> dd_stops deps then [AddStopsTo g [op_id op]] else []
      | DragPerson p \<Rightarrow> if p_isReko p then [] else to_route deps g GrPersonnel (p_id p)
      | DragVehicle v _ \<Rightarrow> to_route deps g GrVehicle v
      | DragMaterial m \<Rightarrow> to_route deps g GrMaterial (m_id m)
      | DragBlock ms \<Rightarrow> concat (map (\<lambda>m. to_route deps g GrMaterial (m_id m)) ms)
      | DragOther \<Rightarrow> [])"

definition drop_on_stop_card :: "drop_deps \<Rightarrow> drag_source \<Rightarrow> ident \<Rightarrow> ident \<Rightarrow> drop_call list" where
  "drop_on_stop_card deps src g oid =
     (case src of
        DragPerson p \<Rightarrow>
          if p_isReko p then [AssignRekoTo (p_id p) (p_name p) oid] else to_route deps g GrPersonnel (p_id p)
      | DragVehicle v _ \<Rightarrow> to_route deps g GrVehicle v
      | DragMaterial m \<Rightarrow> to_route deps g GrMaterial (m_id m)
      | DragBlock ms \<Rightarrow> concat (map (\<lambda>m. to_route deps g GrMaterial (m_id m)) ms)
      | _ \<Rightarrow> [])"

definition drop_on_plain_card :: "drop_deps \<Rightarrow> drag_source \<Rightarrow> ident \<Rightarrow> bool \<times> drop_call list" where
  "drop_on_plain_card deps src oid =
     (case src of
        DragPerson p \<Rightarrow>
          (True, if p_isReko p then [AssignRekoTo (p_id p) (p_name p) oid] else [AssignPersonTo (p_id p) (p_name p) oid])
      | DragVehicle v n \<Rightarrow> (True, if dd_vehicles deps then [AssignVehicleTo v n oid] else [])
      | DragMaterial m \<Rightarrow> (True, [AssignMaterialTo (m_id m) oid])
      | DragBlock ms \<Rightarrow> (True, map (\<lambda>m. AssignMaterialTo (m_id m) oid) ms)
      | _ \<Rightarrow> (False, []))"

fun is_card :: "drag_source \<Rightarrow> bool" where
  "is_card (DragCard _ _) = True"
| "is_card _ = False"

text \<open>The group of the card dropped on; \<^verbatim>\<open>targetOp?.groupId\<close> is falsy when it is empty.\<close>

definition card_group :: "operation list \<Rightarrow> ident \<Rightarrow> ident option" where
  "card_group ops oid =
     (case List.find (\<lambda>x. op_id x = oid) ops of None \<Rightarrow> None | Some t \<Rightarrow> or_null (op_groupId t))"

text \<open>Whether the drop was consumed, and the calls it made.\<close>

definition apply_resource_drop ::
  "drop_deps \<Rightarrow> operation list \<Rightarrow> drag_source \<Rightarrow> drop_target \<Rightarrow> bool \<times> drop_call list" where
  "apply_resource_drop deps ops src dest =
     (case dest of
        OnStop g \<Rightarrow> (True, drop_on_route deps src g False)
      | OnRoute g \<Rightarrow> (True, drop_on_route deps src g True)
      | OnCard oid _ _ \<Rightarrow>
          (case (if is_card src then None else card_group ops oid) of
             Some g \<Rightarrow> (True, drop_on_stop_card deps src g oid)
           | None \<Rightarrow> drop_on_plain_card deps src oid)
      | _ \<Rightarrow> (False, []))"

section \<open>Cards\<close>

definition reorder_within_column ::
  "operation list \<Rightarrow> ident \<Rightarrow> nat \<Rightarrow> nat \<Rightarrow> drop_edge option \<Rightarrow> operation list" where
  "reorder_within_column col did src_index target_index edge =
     (case List.find (\<lambda>x. op_id x = did) col of
        None \<Rightarrow> col
      | Some d \<Rightarrow>
          let filtered = filter (\<lambda>x. op_id x \<noteq> did) col;
              new = (if edge = Some EdgeBottom then target_index + 1 else target_index);
              new_index = (if src_index < target_index then new - 1 else new)
          in take new_index filtered @ d # drop new_index filtered)"

definition is_same_order :: "operation list \<Rightarrow> operation list \<Rightarrow> bool" where
  "is_same_order a b = (length a = length b \<and> list_all2 (\<lambda>x y. op_id x = op_id y) a b)"

definition drop_in_column :: "operation list \<Rightarrow> operation \<Rightarrow> nat \<Rightarrow> nat \<Rightarrow> drop_edge option \<Rightarrow> drop_call list" where
  "drop_in_column ops d src_index target_index edge =
     (let same = filter (\<lambda>x. op_status x = op_status d) ops;
          others = filter (\<lambda>x. op_status x \<noteq> op_status d) ops;
          reordered = reorder_within_column same (op_id d) src_index target_index edge
      in if is_same_order same reordered then []
         else [PutCards (others @ reordered), PostOrder (map op_id reordered)])"

definition drop_across :: "operation list \<Rightarrow> operation \<Rightarrow> incident_status \<Rightarrow> nat \<Rightarrow> drop_edge option \<Rightarrow> drop_call list" where
  "drop_across ops d s target_index edge =
     (let updated = d\<lparr>op_status := s\<rparr>;
          without = filter (\<lambda>x. op_id x \<noteq> op_id d) ops;
          target_col = filter (\<lambda>x. op_status x = s) without;
          others = filter (\<lambda>x. op_status x \<noteq> s) without;
          insert_index = (if edge = Some EdgeBottom then target_index + 1 else target_index);
          reordered = take insert_index target_col @ updated # drop insert_index target_col
      in [PutCards (others @ reordered), WriteStatus (op_id d) s, PostOrder (map op_id reordered),
          Selected (op_id d), StatusChanged (op_id d) s (op_status d)])"

definition drop_on_column :: "operation \<Rightarrow> string \<Rightarrow> drop_call list" where
  "drop_on_column d cid =
     (case List.find (\<lambda>c. status_word (col_id c) = cid) columns of
        None \<Rightarrow> []
      | Some c \<Rightarrow>
          if op_status d \<noteq> hd (col_status c)
          then [WriteStatus (op_id d) (hd (col_status c)), Selected (op_id d),
                StatusChanged (op_id d) (hd (col_status c)) (op_status d)]
          else [])"

definition apply_operation_drop :: "operation list \<Rightarrow> drag_source \<Rightarrow> drop_target \<Rightarrow> drop_call list" where
  "apply_operation_drop ops src dest =
     (case src of
        DragCard snapshot src_index \<Rightarrow>
          (case List.find (\<lambda>x. op_id x = op_id snapshot) ops of
             None \<Rightarrow> []
           | Some d \<Rightarrow>
               (case dest of
                  OnCard tid target_index edge \<Rightarrow>
                    (case List.find (\<lambda>x. op_id x = tid) ops of
                       None \<Rightarrow> []
                     | Some t \<Rightarrow>
                         if op_status d = op_status t
                         then if tid = op_id d then [Selected (op_id d)]
                              else drop_in_column ops d src_index target_index edge
                         else drop_across ops d (op_status t) target_index edge)
                | OnColumn cid \<Rightarrow> drop_on_column d cid
                | _ \<Rightarrow> []))
      | _ \<Rightarrow> [])"

text \<open>The monitor: the first drop target under the pointer, resources first.\<close>

definition on_drop :: "drop_deps \<Rightarrow> operation list \<Rightarrow> drag_source \<Rightarrow> drop_target list \<Rightarrow> drop_call list" where
  "on_drop deps ops src targets =
     (case targets of
        [] \<Rightarrow> []
      | dest # _ \<Rightarrow>
          (case apply_resource_drop deps ops src dest of
             (True, calls) \<Rightarrow> calls
           | (False, calls) \<Rightarrow> calls @ apply_operation_drop ops src dest))"

section \<open>Lemmas\<close>

lemma drop_on_plain_card_consumes: "\<not> is_card src \<Longrightarrow> src \<noteq> DragOther \<Longrightarrow> fst (drop_on_plain_card deps src oid)"
  by (cases src) (simp_all add: drop_on_plain_card_def)

lemma find_id_eq: "distinct (map op_id ops) \<Longrightarrow> o1 \<in> set ops \<Longrightarrow> List.find (\<lambda>x. op_id x = op_id o1) ops = Some o1"
  by (induction ops) (auto simp: rev_image_eqI)

lemma find_id_SomeD: "List.find (\<lambda>x. op_id x = i) ops = Some o1 \<Longrightarrow> o1 \<in> set ops \<and> op_id o1 = i"
  using find_SomeD by fastforce

lemma split_at_index: "k < length xs \<Longrightarrow> \<exists>us vs. xs = us @ xs ! k # vs \<and> length us = k"
  by (rule exI [of _ "take k xs"], rule exI [of _ "drop (Suc k) xs"]) (simp add: id_take_nth_drop [symmetric])

lemma filter_out_one:
  assumes "distinct (map op_id ops)" "s < length ops"
  shows "filter (\<lambda>x. op_id x \<noteq> op_id (ops ! s)) ops = take s ops @ drop (Suc s) ops"
proof -
  have split: "ops = take s ops @ ops ! s # drop (Suc s) ops" using assms(2) by (rule id_take_nth_drop)
  have "distinct (map op_id (take s ops @ ops ! s # drop (Suc s) ops))" using assms(1) split by simp
  then have "\<forall>x\<in>set (take s ops) \<union> set (drop (Suc s) ops). op_id x \<noteq> op_id (ops ! s)" by (auto simp: image_iff)
  then have "filter (\<lambda>x. op_id x \<noteq> op_id (ops ! s)) (take s ops @ ops ! s # drop (Suc s) ops) = take s ops @ drop (Suc s) ops"
    by (simp add: filter_id_conv)
  then show ?thesis using split by simp
qed

lemma mset_filter_out_one:
  assumes "distinct (map op_id ops)" "d \<in> set ops"
  shows "add_mset d (mset (filter (\<lambda>x. op_id x \<noteq> op_id d) ops)) = mset ops"
proof -
  from assms(2) obtain s where s: "s < length ops" "d = ops ! s" by (auto simp: in_set_conv_nth)
  have "mset ops = mset (take s ops @ ops ! s # drop (Suc s) ops)" using id_take_nth_drop [OF s(1)] by simp
  then show ?thesis using filter_out_one [OF assms(1) s(1)] s(2) by simp
qed

lemma mset_take_drop [simp]: "mset (take n xs) + mset (drop n xs) = mset xs"
  by (metis append_take_drop_id mset_append)

lemma mset_reorder:
  assumes "distinct (map op_id col)"
  shows "mset (reorder_within_column col did s t edge) = mset col"
proof (cases "List.find (\<lambda>x. op_id x = did) col")
  case (Some d)
  then have "d \<in> set col" "op_id d = did" using find_id_SomeD by auto
  with mset_filter_out_one [OF assms, of d] Some show ?thesis
    by (simp add: reorder_within_column_def Let_def)
qed (simp add: reorder_within_column_def)

lemma mset_partition: "mset (filter (\<lambda>x. \<not> P x) xs) + mset (filter P xs) = mset xs"
  by (metis add.commute mset_filter multiset_partition)

lemma is_same_order_ids: "is_same_order a b \<longleftrightarrow> map op_id a = map op_id b"
  by (auto simp: is_same_order_def list_all2_map1 list_all2_map2 list_eq_iff_nth_eq list_all2_conv_all_nth)

text \<open>The cards of the new board, whichever way the card went.\<close>

definition put_of :: "drop_call list \<Rightarrow> operation list option" where
  "put_of calls = List.find (\<lambda>_. True) (concat (map (\<lambda>c. case c of PutCards ops \<Rightarrow> [ops] | _ \<Rightarrow> []) calls))"

lemma put_in_column:
  assumes ids: "distinct (map op_id ops)" and put: "PutCards new \<in> set (drop_in_column ops d i k e)"
  shows "mset new = mset ops \<and> PostOrder (map op_id (filter (\<lambda>x. op_status x = op_status d) new)) \<in> set (drop_in_column ops d i k e) \<and>
    map op_id (filter (\<lambda>x. op_status x = op_status d) new) \<noteq> map op_id (filter (\<lambda>x. op_status x = op_status d) ops)"
proof -
  let ?P = "\<lambda>x. op_status x = op_status d"
  let ?re = "reorder_within_column (filter ?P ops) (op_id d) i k e"
  from put have new: "new = filter (\<lambda>x. \<not> ?P x) ops @ ?re" and differs: "\<not> is_same_order (filter ?P ops) ?re"
    and calls: "set (drop_in_column ops d i k e) = {PutCards new, PostOrder (map op_id ?re)}"
    by (auto simp: drop_in_column_def Let_def split: if_splits)
  have re: "mset ?re = mset (filter ?P ops)" using ids by (intro mset_reorder) (simp add: distinct_map_filter)
  then have "set ?re = set (filter ?P ops)" by (rule mset_eq_setD)
  then have col: "filter ?P new = ?re" by (auto simp: new filter_id_conv filter_empty_conv)
  have "mset new = mset ops" using mset_partition [of ?P ops] by (simp add: new re del: mset_filter)
  with calls differs col show ?thesis by (simp add: is_same_order_ids)
qed

lemma put_across:
  assumes ids: "distinct (map op_id ops)" and d: "d \<in> set ops" "op_status d \<noteq> s"
    and put: "PutCards new \<in> set (drop_across ops d s k e)"
  shows "add_mset d (mset new) = add_mset (d\<lparr>op_status := s\<rparr>) (mset ops) \<and>
    PostOrder (map op_id (filter (\<lambda>x. op_status x = s) new)) \<in> set (drop_across ops d s k e) \<and>
    map op_id (filter (\<lambda>x. op_status x = s) new) \<noteq> map op_id (filter (\<lambda>x. op_status x = s) ops)"
proof -
  let ?P = "\<lambda>x. op_status x = s" and ?u = "d\<lparr>op_status := s\<rparr>"
  define rest where "rest = filter (\<lambda>x. op_id x \<noteq> op_id d) ops"
  define n where "n = (if e = Some EdgeBottom then k + 1 else k)"
  define re where "re = take n (filter ?P rest) @ ?u # drop n (filter ?P rest)"
  from put have new: "new = filter (\<lambda>x. \<not> ?P x) rest @ re"
    and post: "PostOrder (map op_id re) \<in> set (drop_across ops d s k e)"
    unfolding drop_across_def Let_def rest_def [symmetric] n_def [symmetric] re_def [symmetric] by auto
  have "\<forall>x\<in>set re. ?P x" by (auto simp: re_def dest: in_set_takeD in_set_dropD)
  then have col: "filter ?P new = re" by (auto simp: new filter_id_conv filter_empty_conv)
  have "mset new = mset (filter (\<lambda>x. \<not> ?P x) rest) + add_mset ?u (mset (filter ?P rest))"
    by (simp add: new re_def del: mset_filter)
  then have "mset new = add_mset ?u (mset rest)" using mset_partition [of ?P rest] by simp
  then have keeps: "add_mset d (mset new) = add_mset ?u (mset ops)"
    using mset_filter_out_one [OF ids d(1)] by (simp add: rest_def add_mset_commute)
  have "op_id d \<in> set (map op_id re)" by (simp add: re_def)
  moreover have "op_id d \<notin> set (map op_id (filter ?P ops))"
    using ids d by (auto simp: distinct_map dest: inj_onD)
  ultimately have "map op_id re \<noteq> map op_id (filter ?P ops)" by metis
  with keeps post col show ?thesis by simp
qed

lemma put_cases:
  assumes "PutCards new \<in> set (apply_operation_drop ops (DragCard snapshot i) dest)"
  obtains d k e where "d \<in> set ops" "op_id d = op_id snapshot" "PutCards new \<in> set (drop_in_column ops d i k e)"
      "apply_operation_drop ops (DragCard snapshot i) dest = drop_in_column ops d i k e"
    | d k e s where "d \<in> set ops" "op_id d = op_id snapshot" "op_status d \<noteq> s" "PutCards new \<in> set (drop_across ops d s k e)"
      "apply_operation_drop ops (DragCard snapshot i) dest = drop_across ops d s k e"
proof (cases "List.find (\<lambda>x. op_id x = op_id snapshot) ops")
  case None
  with assms show ?thesis by (simp add: apply_operation_drop_def)
next
  case (Some d)
  then have din: "d \<in> set ops" "op_id d = op_id snapshot" using find_id_SomeD by auto
  have "PutCards new \<notin> set (drop_on_column d cid)" for cid
    by (simp add: drop_on_column_def split: option.splits)
  with assms Some obtain tid k e where dest: "dest = OnCard tid k e"
    by (cases dest) (auto simp: apply_operation_drop_def)
  show ?thesis
  proof (cases "List.find (\<lambda>x. op_id x = tid) ops")
    case None
    with assms Some dest show ?thesis by (simp add: apply_operation_drop_def)
  next
    case t: (Some t)
    show ?thesis
    proof (cases "op_status d = op_status t")
      case True
      with assms Some dest t have "tid \<noteq> op_id d" by (auto simp: apply_operation_drop_def)
      with True Some dest t have "apply_operation_drop ops (DragCard snapshot i) dest = drop_in_column ops d i k e"
        by (simp add: apply_operation_drop_def)
      with assms din that(1) show ?thesis by simp
    next
      case False
      with Some dest t have "apply_operation_drop ops (DragCard snapshot i) dest = drop_across ops d (op_status t) k e"
        by (simp add: apply_operation_drop_def)
      with assms din that(2) False show ?thesis by simp
    qed
  qed
qed

text \<open>What a drag carries to be assigned, and the assignment to a card that is no stop.\<close>

fun carried :: "drag_source \<Rightarrow> (group_resource_type \<times> ident \<times> string) list" where
  "carried (DragPerson p) = [(GrPersonnel, p_id p, p_name p)]"
| "carried (DragVehicle v n) = [(GrVehicle, v, n)]"
| "carried (DragMaterial m) = [(GrMaterial, m_id m, m_name m)]"
| "carried (DragBlock ms) = map (\<lambda>m. (GrMaterial, m_id m, m_name m)) ms"
| "carried _ = []"

fun assign_directly :: "ident \<Rightarrow> group_resource_type \<times> ident \<times> string \<Rightarrow> drop_call" where
  "assign_directly oid (GrPersonnel, r, n) = AssignPersonTo r n oid"
| "assign_directly oid (GrVehicle, r, n) = AssignVehicleTo r n oid"
| "assign_directly oid (GrMaterial, r, n) = AssignMaterialTo r oid"

fun scout_of :: "drag_source \<Rightarrow> person option" where
  "scout_of (DragPerson p) = (if p_isReko p then Some p else None)"
| "scout_of _ = None"

section \<open>Properties\<close>

text \<open>
  A card dropped on another card of its column lands directly beside it: where the two indices are the
  places of the dragged and of the target card, the column's other cards keep their order and the dragged
  one stands right after the target when the pointer was at its bottom edge, right before it otherwise.
\<close>

theorem drop_lands_beside_the_target:
  assumes ids: "distinct (map op_id col)" and s: "s < length col" and t: "t < length col" and ne: "s \<noteq> t"
  shows "\<exists>us vs. filter (\<lambda>x. op_id x \<noteq> op_id (col ! s)) col = us @ col ! t # vs \<and>
    reorder_within_column col (op_id (col ! s)) s t edge =
      us @ (if edge = Some EdgeBottom then [col ! t, col ! s] else [col ! s, col ! t]) @ vs"
proof -
  let ?rest = "take s col @ drop (Suc s) col"
  let ?k = "if s < t then t - 1 else t"
  have k: "?k < length ?rest" "?rest ! ?k = col ! t" using s t ne by (auto simp: nth_append)
  then obtain us vs where split: "?rest = us @ col ! t # vs" "length us = ?k"
    using split_at_index [OF k(1)] k(2) by metis
  have find: "List.find (\<lambda>x. op_id x = op_id (col ! s)) col = Some (col ! s)" using find_id_eq [OF ids] s by simp
  let ?new = "(if edge = Some EdgeBottom then Suc ?k else ?k)"
  have "reorder_within_column col (op_id (col ! s)) s t edge = take ?new ?rest @ col ! s # drop ?new ?rest"
    using ne by (auto simp: reorder_within_column_def find Let_def filter_out_one [OF ids s])
  also have "\<dots> = us @ (if edge = Some EdgeBottom then [col ! t, col ! s] else [col ! s, col ! t]) @ vs"
    unfolding split(1) split(2) [symmetric] by simp
  finally show ?thesis using split(1) filter_out_one [OF ids s] by metis
qed

lemma drop_lands_beside_the_target_witness:
  "\<exists>us vs. us @ blank_card ''c'' Incoming # vs = [blank_card ''b'' Incoming, blank_card ''c'' Incoming] \<and>
     reorder_within_column [blank_card ''a'' Incoming, blank_card ''b'' Incoming, blank_card ''c'' Incoming]
       ''a'' 0 2 (Some EdgeBottom) = us @ [blank_card ''c'' Incoming, blank_card ''a'' Incoming] @ vs"
  using drop_lands_beside_the_target [of "[blank_card ''a'' Incoming, blank_card ''b'' Incoming, blank_card ''c'' Incoming]" 0 2 "Some EdgeBottom"]
  by (simp, metis)

text \<open>
  C9. Moving a card never loses, doubles or alters another one: the board put in place holds the same cards,
  the dragged one as the board knows it now (not as it was when the drag began) with the status of its
  new column, and the order posted for that column is the order the new board shows.
\<close>

theorem drop_keeps_every_card:
  assumes ids: "distinct (map op_id ops)" and put: "PutCards new \<in> set (apply_operation_drop ops (DragCard snapshot i) dest)"
  shows "\<exists>d s. d \<in> set ops \<and> op_id d = op_id snapshot \<and> add_mset d (mset new) = add_mset (d\<lparr>op_status := s\<rparr>) (mset ops) \<and>
    PostOrder (map op_id (filter (\<lambda>x. op_status x = s) new)) \<in> set (apply_operation_drop ops (DragCard snapshot i) dest)"
  using put
proof (cases rule: put_cases)
  case (1 d k e)
  with put_in_column [OF ids 1(3)] show ?thesis by (intro exI [of _ d] exI [of _ "op_status d"]) simp
next
  case (2 d k e s)
  with put_across [OF ids 2(1,3,4)] show ?thesis by (intro exI [of _ d] exI [of _ s]) simp
qed

lemma drop_keeps_every_card_witness:
  "\<exists>d s. add_mset d (mset [blank_card ''b'' Active, (blank_card ''a'' Incoming)\<lparr>op_status := Active\<rparr>])
     = add_mset (d\<lparr>op_status := s\<rparr>) (mset [blank_card ''a'' Incoming, blank_card ''b'' Active])"
  using drop_keeps_every_card [of "[blank_card ''a'' Incoming, blank_card ''b'' Active]"
      "[blank_card ''b'' Active, (blank_card ''a'' Incoming)\<lparr>op_status := Active\<rparr>]" "blank_card ''a'' Reko" 0 "OnCard ''b'' 0 (Some EdgeBottom)"]
  by (simp add: apply_operation_drop_def drop_across_def Let_def) metis

text \<open>
  A drop that changes nothing writes nothing: a card dropped on itself is a click and only selects it, a
  card deleted while it was in the hand makes no call at all, and where a new board is put in place some
  column's order of cards differs from the old one.
\<close>

theorem idle_drop_writes_nothing:
  assumes "distinct (map op_id ops)"
  shows "apply_operation_drop ops (DragCard snapshot i) (OnCard (op_id snapshot) k e) =
     (if op_id snapshot \<in> op_id ` set ops then [Selected (op_id snapshot)] else []) \<and>
   \<not> (\<exists>new. PutCards new \<in> set (apply_operation_drop ops (DragCard snapshot i) dest) \<and>
        (\<forall>s. map op_id (filter (\<lambda>x. op_status x = s) new) = map op_id (filter (\<lambda>x. op_status x = s) ops)))"
proof
  show "apply_operation_drop ops (DragCard snapshot i) (OnCard (op_id snapshot) k e) =
     (if op_id snapshot \<in> op_id ` set ops then [Selected (op_id snapshot)] else [])"
  proof (cases "List.find (\<lambda>x. op_id x = op_id snapshot) ops")
    case None
    then have "op_id snapshot \<notin> op_id ` set ops" by (auto simp: find_None_iff2)
    with None show ?thesis by (simp add: apply_operation_drop_def)
  next
    case (Some d)
    then have "d \<in> set ops" "op_id d = op_id snapshot" using find_id_SomeD by auto
    moreover from this have "op_id snapshot \<in> op_id ` set ops" by (metis image_eqI)
    ultimately show ?thesis using Some by (simp add: apply_operation_drop_def)
  qed
  show "\<not> (\<exists>new. PutCards new \<in> set (apply_operation_drop ops (DragCard snapshot i) dest) \<and>
        (\<forall>s. map op_id (filter (\<lambda>x. op_status x = s) new) = map op_id (filter (\<lambda>x. op_status x = s) ops)))"
    by (metis put_cases put_in_column [OF assms] put_across [OF assms])
qed

lemma idle_drop_writes_nothing_witness:
  "apply_operation_drop [blank_card ''a'' Incoming, blank_card ''b'' Incoming] (DragCard (blank_card ''a'' Incoming) 0)
     (OnCard ''a'' 0 (Some EdgeBottom)) = [Selected ''a'']"
  using idle_drop_writes_nothing [of "[blank_card ''a'' Incoming, blank_card ''b'' Incoming]" "blank_card ''a'' Incoming" 0 0 "Some EdgeBottom"]
  by simp

text \<open>
  No resource is swallowed: a drop on a card hands each thing it carries to exactly one assignment, in
  order and whether it is busy or not, to the route where the card is a stop of one and to the card
  otherwise; a scout always goes to the scouting slot of the card itself.
\<close>

theorem resource_drop_assigns_everything:
  "snd (apply_resource_drop \<lparr>dd_vehicles = True, dd_stops = s, dd_route = True\<rparr> ops src (OnCard oid k e)) =
     (case scout_of src of
        Some p \<Rightarrow> [AssignRekoTo (p_id p) (p_name p) oid]
      | None \<Rightarrow> (case card_group ops oid of
           Some g \<Rightarrow> map (\<lambda>(t, r, n). AssignToRoute g t r) (carried src)
         | None \<Rightarrow> map (assign_directly oid) (carried src)))"
  by (cases src) (auto simp: apply_resource_drop_def drop_on_stop_card_def drop_on_plain_card_def to_route_def
      comp_def concat_map_singleton split: option.splits)

end
