(* ===== verification/DoubleBooking.thy ===== *)
theory DoubleBooking
  imports KanbanDrop
begin

text \<open>
  The questions of a double booking that span routes and incidents:
  \<^verbatim>\<open>frontend/lib/hooks/use-assignment-conflicts.ts\<close> and the conflict-aware assigns the board hands to its
  drops (\<^verbatim>\<open>frontend/app/page.tsx\<close>). A closure is the data it captured: what it frees, what it assigns. The
  asks of one drop are collected and flushed by one microtask; the dialog holds one question, a later one
  takes its place. The label of an incident is a parameter.
\<close>

section \<open>Questions\<close>

text \<open>A call a resolver makes; a holder whose row is gone counts as freed. The releases come in rounds: the calls of a
  round go out together and are awaited together.\<close>

datatype freeing = FreeRoute ident ident | FreeNothing | FreeCrew ident ident | FreeMaterial ident ident | FreeVehicle ident ident

datatype putting = PutPerson ident string ident | PutMaterial ident ident | PutVehicle ident string ident | PutOnRoute ident group_resource_type ident

record route_ask =
  ra_type :: group_resource_type
  ra_id :: ident
  ra_name :: string
  ra_target :: ident
  ra_conflicts :: "(ident \<times> string) list"
  ra_releases :: "freeing list"
  ra_assign :: putting

record question =
  qu_type :: group_resource_type
  qu_id :: ident
  qu_name :: string
  qu_target :: ident
  qu_conflicts :: "(ident \<times> string) list"
  qu_rounds :: "freeing list list"
  qu_assigns :: "putting list"

record asking =
  ak_batch :: "route_ask list"
  ak_queued :: bool
  ak_question :: "question option"
  ak_puts :: "putting list"

definition quiet :: asking where
  "quiet = \<lparr>ak_batch = [], ak_queued = False, ak_question = None, ak_puts = []\<rparr>"

definition put_now :: "putting \<Rightarrow> asking \<Rightarrow> asking" where
  "put_now p s = s\<lparr>ak_puts := ak_puts s @ [p]\<rparr>"

definition groups_holding :: "incident_route list \<Rightarrow> group_resource_type \<Rightarrow> ident \<Rightarrow> ident option \<Rightarrow> incident_route list" where
  "groups_holding groups t r except = filter (\<lambda>g. Some (ig_id g) \<noteq> except \<and> holds_resource t r g) groups"

definition free_from_route :: "group_resource_type \<Rightarrow> ident \<Rightarrow> incident_route \<Rightarrow> freeing" where
  "free_from_route t r g =
     (case List.find (\<lambda>a. ga_type a = t \<and> ga_resource a = r) (ig_assignments g) of
        Some a \<Rightarrow> FreeRoute (ig_id g) (ga_id a)
      | None \<Rightarrow> FreeNothing)"

definition release_from_groups :: "group_resource_type \<Rightarrow> ident \<Rightarrow> incident_route list \<Rightarrow> freeing list" where
  "release_from_groups t r holders = map (free_from_route t r) holders"

definition route_row :: "incident_route \<Rightarrow> ident \<times> string" where
  "route_row g = (ig_id g, ig_name g)"

section \<open>One question per drop\<close>

definition ask_route_conflict :: "route_ask \<Rightarrow> asking \<Rightarrow> asking" where
  "ask_route_conflict e s = s\<lparr>ak_batch := ak_batch s @ [e], ak_queued := True\<rparr>"

text \<open>Every holder named once: the rows of the asks in order, the first of each id kept.\<close>

definition name_once :: "(ident \<times> string) list \<Rightarrow> (ident \<times> string) list" where
  "name_once rows = foldl (\<lambda>acc c. if fst c \<in> fst ` set acc then acc else acc @ [c]) [] rows"

text \<open>The microtask; it runs only when one was queued.\<close>

definition flush_asks :: "asking \<Rightarrow> asking" where
  "flush_asks s =
     (if \<not> ak_queued s then s
      else
        let batch = ak_batch s; s1 = s\<lparr>ak_queued := False, ak_batch := []\<rparr>
        in case batch of
             [] \<Rightarrow> s1
           | e # _ \<Rightarrow> s1\<lparr>ak_question := Some
               \<lparr>qu_type = (if ra_type e = GrPersonnel then GrPersonnel else GrMaterial), qu_id = ra_id e,
                qu_name = str_join '', '' (map ra_name batch), qu_target = ra_target e,
                qu_conflicts = name_once (concat (map ra_conflicts batch)),
                qu_rounds = [concat (map ra_releases batch)], qu_assigns = map ra_assign batch\<rparr>\<rparr>)"

section \<open>The assigns of the board\<close>

record board_holders =
  bh_ops :: "operation list"
  bh_groups :: "incident_route list"
  bh_vehicles :: "(ident \<times> string) list"
  bh_people :: "person list"
  bh_mats :: "material list"

definition board_assign_person :: "board_holders \<Rightarrow> ident \<Rightarrow> string \<Rightarrow> ident \<Rightarrow> asking \<Rightarrow> asking" where
  "board_assign_person b p name i s =
     (let holders = groups_holding (bh_groups b) GrPersonnel p None
      in if holders = [] then put_now (PutPerson p name i) s
         else ask_route_conflict
           \<lparr>ra_type = GrPersonnel, ra_id = p, ra_name = name, ra_target = i, ra_conflicts = map route_row holders,
            ra_releases = release_from_groups GrPersonnel p holders, ra_assign = PutPerson p name i\<rparr> s)"

definition material_name :: "board_holders \<Rightarrow> ident \<Rightarrow> string" where
  "material_name b m = (case List.find (\<lambda>x. m_id x = m) (bh_mats b) of Some x \<Rightarrow> m_name x | None \<Rightarrow> m)"

definition person_name :: "board_holders \<Rightarrow> ident \<Rightarrow> string" where
  "person_name b p = (case List.find (\<lambda>x. p_id x = p) (bh_people b) of Some x \<Rightarrow> p_name x | None \<Rightarrow> p)"

definition board_assign_material :: "board_holders \<Rightarrow> ident \<Rightarrow> ident \<Rightarrow> asking \<Rightarrow> asking" where
  "board_assign_material b m i s =
     (let holders = groups_holding (bh_groups b) GrMaterial m None
      in if holders = [] then put_now (PutMaterial m i) s
         else ask_route_conflict
           \<lparr>ra_type = GrMaterial, ra_id = m, ra_name = material_name b m, ra_target = i,
            ra_conflicts = map route_row holders, ra_releases = release_from_groups GrMaterial m holders,
            ra_assign = PutMaterial m i\<rparr> s)"

definition set_question :: "question \<Rightarrow> asking \<Rightarrow> asking" where
  "set_question q s = s\<lparr>ak_question := Some q\<rparr>"

definition assign_vehicle_to_group :: "(operation \<Rightarrow> string) \<Rightarrow> board_holders \<Rightarrow> ident \<Rightarrow> ident \<Rightarrow> asking \<Rightarrow> asking" where
  "assign_vehicle_to_group label b g v s =
     (case map_of (bh_vehicles b) v of
        None \<Rightarrow> s
      | Some name \<Rightarrow>
          let routes = groups_holding (bh_groups b) GrVehicle v (Some g);
              cards = filter (vehicle_holds v) (bh_ops b)
          in if routes = [] \<and> cards = [] then put_now (PutOnRoute g GrVehicle v) s
             else set_question
               \<lparr>qu_type = GrVehicle, qu_id = v, qu_name = name, qu_target = g,
                qu_conflicts = map route_row routes @ map (\<lambda>x. (op_id x, label x)) cards,
                qu_rounds = [release_from_groups GrVehicle v routes, map (\<lambda>x. FreeVehicle (op_id x) v) cards],
                qu_assigns = [PutOnRoute g GrVehicle v]\<rparr> s)"

definition assign_vehicle_to_incident :: "board_holders \<Rightarrow> ident \<Rightarrow> string \<Rightarrow> ident \<Rightarrow> asking \<Rightarrow> asking" where
  "assign_vehicle_to_incident b v name i s =
     (let routes = groups_holding (bh_groups b) GrVehicle v None
      in if routes = [] then put_now (PutVehicle v name i) s
         else set_question
           \<lparr>qu_type = GrVehicle, qu_id = v, qu_name = name, qu_target = i, qu_conflicts = map route_row routes,
            qu_rounds = [release_from_groups GrVehicle v routes], qu_assigns = [PutVehicle v name i]\<rparr> s)"

definition board_assign_group_resource ::
  "(operation \<Rightarrow> string) \<Rightarrow> board_holders \<Rightarrow> ident \<Rightarrow> group_resource_type \<Rightarrow> ident \<Rightarrow> asking \<Rightarrow> asking" where
  "board_assign_group_resource label b g t r s =
     (if t = GrVehicle then assign_vehicle_to_group label b g r s
      else
        let holders = groups_holding (bh_groups b) t r (Some g);
            cards = filter (if t = GrPersonnel then crew_holds r else material_holds r) (bh_ops b)
        in if holders = [] \<and> cards = [] then put_now (PutOnRoute g t r) s
           else ask_route_conflict
             \<lparr>ra_type = t, ra_id = r, ra_name = (if t = GrPersonnel then person_name b r else material_name b r),
              ra_target = g, ra_conflicts = map route_row holders @ map (\<lambda>x. (op_id x, label x)) cards,
              ra_releases = release_from_groups t r holders
                @ map (\<lambda>x. if t = GrPersonnel then FreeCrew (op_id x) r else FreeMaterial (op_id x) r) cards,
              ra_assign = PutOnRoute g t r\<rparr> s)"

text \<open>What the board wires to the calls of a drop; the rest goes elsewhere.\<close>

definition perform_drop_call :: "(operation \<Rightarrow> string) \<Rightarrow> board_holders \<Rightarrow> asking \<Rightarrow> drop_call \<Rightarrow> asking" where
  "perform_drop_call label b s c =
     (case c of
        AssignPersonTo p n i \<Rightarrow> board_assign_person b p n i s
      | AssignMaterialTo m i \<Rightarrow> board_assign_material b m i s
      | AssignVehicleTo v n i \<Rightarrow> assign_vehicle_to_incident b v n i s
      | AssignToRoute g t r \<Rightarrow> board_assign_group_resource label b g t r s
      | _ \<Rightarrow> s)"

text \<open>One drop: its calls in one task, then the microtask.\<close>

definition board_drop :: "(operation \<Rightarrow> string) \<Rightarrow> board_holders \<Rightarrow> drop_call list \<Rightarrow> asking \<Rightarrow> asking" where
  "board_drop label b calls s = flush_asks (foldl (perform_drop_call label b) s calls)"

section \<open>Answering\<close>

text \<open>A resolver waits for its rounds of releases one after the other, then, when every release of every round was
  made, makes the assigns one at a time; \<open>rv_log\<close> is what it has called.\<close>

datatype act = Freed freeing | Put putting

datatype resolver_phase = Releasing bool "freeing list list" "putting list" nat | Assigning "putting list" | Over

record resolver =
  rv_phase :: resolver_phase
  rv_log :: "act list"

definition next_assign :: "putting list \<Rightarrow> act list \<Rightarrow> resolver" where
  "next_assign ps done =
     (case ps of
        [] \<Rightarrow> \<lparr>rv_phase = Over, rv_log = done\<rparr>
      | p # rest \<Rightarrow> \<lparr>rv_phase = Assigning rest, rv_log = done @ [Put p]\<rparr>)"

definition next_round :: "bool \<Rightarrow> freeing list list \<Rightarrow> putting list \<Rightarrow> act list \<Rightarrow> resolver" where
  "next_round ok rounds ps done =
     (case rounds of
        [] \<Rightarrow> if ok then next_assign ps done else \<lparr>rv_phase = Over, rv_log = done\<rparr>
      | fs # rest \<Rightarrow> \<lparr>rv_phase = Releasing ok rest ps (length fs), rv_log = done @ map Freed fs\<rparr>)"

definition start_resolver :: "question \<Rightarrow> bool \<Rightarrow> resolver" where
  "start_resolver q move = (if move then next_round True (qu_rounds q) (qu_assigns q) [] else next_assign (qu_assigns q) [])"

datatype resolver_event = RoundAnswered "bool list" | AssignSettled

definition resolver_step :: "resolver \<Rightarrow> resolver_event \<Rightarrow> resolver" where
  "resolver_step r e =
     (case (rv_phase r, e) of
        (Releasing ok rest ps n, RoundAnswered oks) \<Rightarrow>
          if length oks \<noteq> n then r else next_round (ok \<and> False \<notin> set oks) rest ps (rv_log r)
      | (Assigning ps, AssignSettled) \<Rightarrow> next_assign ps (rv_log r)
      | _ \<Rightarrow> r)"

section \<open>Lemmas\<close>

definition put_of_call :: "drop_call \<Rightarrow> putting option" where
  "put_of_call c =
     (case c of
        AssignPersonTo p n i \<Rightarrow> Some (PutPerson p n i)
      | AssignMaterialTo m i \<Rightarrow> Some (PutMaterial m i)
      | AssignVehicleTo v n i \<Rightarrow> Some (PutVehicle v n i)
      | AssignToRoute g t r \<Rightarrow> Some (PutOnRoute g t r)
      | _ \<Rightarrow> None)"

text \<open>Whether somebody else the board must ask about holds what is put: a route, and for a route also a card.\<close>

definition held_elsewhere :: "board_holders \<Rightarrow> putting \<Rightarrow> bool" where
  "held_elsewhere b p =
     (case p of
        PutPerson x _ _ \<Rightarrow> groups_holding (bh_groups b) GrPersonnel x None \<noteq> []
      | PutMaterial m _ \<Rightarrow> groups_holding (bh_groups b) GrMaterial m None \<noteq> []
      | PutVehicle v _ _ \<Rightarrow> groups_holding (bh_groups b) GrVehicle v None \<noteq> []
      | PutOnRoute g t r \<Rightarrow> groups_holding (bh_groups b) t r (Some g) \<noteq> []
          \<or> filter (case t of GrPersonnel \<Rightarrow> crew_holds r | GrMaterial \<Rightarrow> material_holds r | GrVehicle \<Rightarrow> vehicle_holds r) (bh_ops b) \<noteq> [])"

fun moves_vehicle :: "drop_call \<Rightarrow> bool" where
  "moves_vehicle (AssignVehicleTo _ _ _) = True"
| "moves_vehicle (AssignToRoute _ t _) = (t = GrVehicle)"
| "moves_vehicle _ = False"

lemma asks_with:
  "ra_assign e0 = p \<Longrightarrow> ra_conflicts e0 \<noteq> [] \<Longrightarrow>
     \<exists>e. ra_assign e = p \<and> ra_conflicts e \<noteq> [] \<and> ask_route_conflict e0 s = ask_route_conflict e s"
  by blast

text \<open>A call puts at once, or asks, or does neither; it never touches the question.\<close>

lemma perform_cases:
  assumes "\<not> moves_vehicle c"
  shows "case put_of_call c of
      None \<Rightarrow> perform_drop_call label b s c = s
    | Some p \<Rightarrow> if held_elsewhere b p
        then \<exists>e. ra_assign e = p \<and> ra_conflicts e \<noteq> [] \<and> perform_drop_call label b s c = ask_route_conflict e s
        else perform_drop_call label b s c = put_now p s"
proof (cases c)
  case (AssignToRoute g t r)
  with assms show ?thesis
    by (cases t) (auto simp: perform_drop_call_def put_of_call_def held_elsewhere_def board_assign_group_resource_def Let_def
          intro!: asks_with)
qed (use assms in \<open>auto simp: perform_drop_call_def put_of_call_def held_elsewhere_def board_assign_person_def
       board_assign_material_def Let_def intro!: asks_with\<close>)

lemma perform_all:
  assumes "list_all (\<lambda>c. \<not> moves_vehicle c) calls"
  shows "ak_puts (foldl (perform_drop_call label b) s calls)
           = ak_puts s @ filter (\<lambda>p. \<not> held_elsewhere b p) (List.map_filter put_of_call calls)
       \<and> map ra_assign (ak_batch (foldl (perform_drop_call label b) s calls))
           = map ra_assign (ak_batch s) @ filter (held_elsewhere b) (List.map_filter put_of_call calls)
       \<and> ak_question (foldl (perform_drop_call label b) s calls) = ak_question s
       \<and> ((ak_queued s \<longleftrightarrow> ak_batch s \<noteq> []) \<longrightarrow> (ak_queued (foldl (perform_drop_call label b) s calls)
             \<longleftrightarrow> ak_batch (foldl (perform_drop_call label b) s calls) \<noteq> []))"
  using assms
proof (induction calls arbitrary: s)
  case Nil
  then show ?case by (simp add: List.map_filter_simps)
next
  case (Cons c calls)
  then have c: "\<not> moves_vehicle c" and rest: "list_all (\<lambda>c. \<not> moves_vehicle c) calls" by auto
  note IH = Cons.IH [OF rest, of "perform_drop_call label b s c"]
  show ?case
  proof (cases "put_of_call c")
    case None
    with perform_cases [OF c, of label b s] IH show ?thesis by (simp add: List.map_filter_simps)
  next
    case (Some p)
    show ?thesis
    proof (cases "held_elsewhere b p")
      case True
      with perform_cases [OF c, of label b s] Some obtain e where
        "ra_assign e = p" "perform_drop_call label b s c = ask_route_conflict e s" by auto
      with IH Some True show ?thesis by (simp add: List.map_filter_simps ask_route_conflict_def)
    next
      case False
      with perform_cases [OF c, of label b s] Some IH show ?thesis by (simp add: List.map_filter_simps put_now_def)
    qed
  qed
qed

lemma name_once_rows:
  "distinct (map fst acc) \<Longrightarrow>
   distinct (map fst (foldl (\<lambda>acc c. if fst c \<in> fst ` set acc then acc else acc @ [c]) acc rows)) \<and>
   fst ` set (foldl (\<lambda>acc c. if fst c \<in> fst ` set acc then acc else acc @ [c]) acc rows) = fst ` set acc \<union> fst ` set rows"
proof (induction rows arbitrary: acc)
  case (Cons c rows)
  show ?case
  proof (cases "fst c \<in> fst ` set acc")
    case True
    with Cons show ?thesis by auto
  next
    case False
    with Cons.prems Cons.IH [of "acc @ [c]"] show ?thesis by simp
  qed
qed simp

lemma distinct_name_once: "distinct (map fst (name_once rows))"
  and names_name_once: "fst ` set (name_once rows) = fst ` set rows"
  using name_once_rows [of "[]" rows] by (simp_all add: name_once_def)

definition resolver_run :: "question \<Rightarrow> bool \<Rightarrow> resolver_event list \<Rightarrow> resolver" where
  "resolver_run q move es = foldl resolver_step (start_resolver q move) es"

text \<open>All releases of these rounds were answered, and made.\<close>

definition made :: "resolver_event list \<Rightarrow> freeing list list \<Rightarrow> bool" where
  "made es rounds \<longleftrightarrow> (\<forall>fs\<in>set rounds. \<exists>oks. RoundAnswered oks \<in> set es \<and> length oks = length fs \<and> False \<notin> set oks)"

definition settled :: "resolver_event list \<Rightarrow> nat" where
  "settled es = length (filter (\<lambda>e. e = AssignSettled) es)"

text \<open>Where a resolver stands, relative to what it has called and the answers it has seen.\<close>

definition all_rounds :: "question \<Rightarrow> bool \<Rightarrow> freeing list list" where
  "all_rounds q move = (if move then qu_rounds q else [])"

fun resolver_at :: "question \<Rightarrow> bool \<Rightarrow> resolver_event list \<Rightarrow> resolver_phase \<Rightarrow> act list \<Rightarrow> bool" where
  "resolver_at q move es (Releasing ok rest ps n) done \<longleftrightarrow>
     ps = qu_assigns q \<and> (\<exists>past fs. all_rounds q move = past @ fs # rest \<and> n = length fs
       \<and> done = map Freed (concat (past @ [fs])) \<and> (ok \<longrightarrow> made es past))"
| "resolver_at q move es (Assigning ps) done \<longleftrightarrow>
     made es (all_rounds q move) \<and> (\<exists>put. qu_assigns q = put @ ps \<and> length put \<le> Suc (settled es)
       \<and> done = map Freed (concat (all_rounds q move)) @ map Put put)"
| "resolver_at q move es Over done \<longleftrightarrow>
     done = map Freed (concat (all_rounds q move))
     \<or> made es (all_rounds q move) \<and> length (qu_assigns q) \<le> Suc (settled es)
       \<and> done = map Freed (concat (all_rounds q move)) @ map Put (qu_assigns q)"

lemma made_mono: "made es rounds \<Longrightarrow> made (es @ [e]) rounds"
  unfolding made_def by (metis in_set_conv_decomp append_Cons append_assoc)

lemma settled_snoc [simp]: "settled (es @ [e]) = (if e = AssignSettled then Suc (settled es) else settled es)"
  by (simp add: settled_def)

lemma resolver_at_mono: "resolver_at q move es ph done \<Longrightarrow> resolver_at q move (es @ [e]) ph done"
proof (cases ph)
  case (Releasing ok rest ps n)
  assume "resolver_at q move es ph done"
  with Releasing show ?thesis using made_mono by fastforce
next
  case (Assigning ps)
  assume "resolver_at q move es ph done"
  with Assigning obtain put where "made es (all_rounds q move)" "qu_assigns q = put @ ps" "length put \<le> Suc (settled es)"
    "done = map Freed (concat (all_rounds q move)) @ map Put put" by auto
  with Assigning made_mono show ?thesis by (auto intro!: exI [of _ put])
next
  case Over
  assume "resolver_at q move es ph done"
  with Over made_mono [of es "all_rounds q move" e] show ?thesis by auto
qed

lemma next_assign_at:
  assumes "made es (all_rounds q move)" "qu_assigns q = put @ ps" "length put \<le> settled es"
  shows "resolver_at q move es (rv_phase (next_assign ps (map Freed (concat (all_rounds q move)) @ map Put put)))
           (rv_log (next_assign ps (map Freed (concat (all_rounds q move)) @ map Put put)))"
proof (cases ps)
  case Nil
  with assms show ?thesis by (simp add: next_assign_def)
next
  case (Cons p rest)
  with assms show ?thesis by (auto simp: next_assign_def intro!: exI [of _ "put @ [p]"])
qed

lemma next_round_at:
  assumes "all_rounds q move = past @ rest" "ok \<longrightarrow> made es past"
  shows "resolver_at q move es (rv_phase (next_round ok rest (qu_assigns q) (map Freed (concat past))))
           (rv_log (next_round ok rest (qu_assigns q) (map Freed (concat past))))"
proof (cases rest)
  case Nil
  with assms next_assign_at [of es q move "[]" "qu_assigns q"] show ?thesis by (simp add: next_round_def)
next
  case (Cons fs more)
  with assms show ?thesis by (auto simp: next_round_def intro!: exI [of _ past])
qed

lemma start_at: "resolver_at q move [] (rv_phase (start_resolver q move)) (rv_log (start_resolver q move))"
  using next_round_at [of q move "[]" "qu_rounds q" True "[]"] next_assign_at [of "[]" q move "[]" "qu_assigns q"]
  by (cases move) (simp_all add: start_resolver_def all_rounds_def made_def)

lemma step_at:
  assumes "resolver_at q move es (rv_phase r) (rv_log r)"
  shows "resolver_at q move (es @ [e]) (rv_phase (resolver_step r e)) (rv_log (resolver_step r e))"
proof (cases "resolver_step r e = r")
  case True
  with assms resolver_at_mono show ?thesis by simp
next
  case False
  consider (round) ok rest ps n oks where "rv_phase r = Releasing ok rest ps n" "e = RoundAnswered oks" "length oks = n"
    | (assign) ps where "rv_phase r = Assigning ps" "e = AssignSettled"
    using False by (cases "rv_phase r"; cases e) (auto simp: resolver_step_def split: if_splits)
  then show ?thesis
  proof cases
    case round
    with assms obtain past fs where r: "ps = qu_assigns q" "all_rounds q move = (past @ [fs]) @ rest" "n = length fs"
      "rv_log r = map Freed (concat (past @ [fs]))" "ok \<longrightarrow> made es past" by auto
    have "ok \<and> False \<notin> set oks \<longrightarrow> made (es @ [e]) (past @ [fs])"
      using r round made_mono [of es past e] by (auto simp: made_def)
    from next_round_at [OF r(2) this] round r show ?thesis by (simp add: resolver_step_def)
  next
    case assign
    with assms obtain put where r: "made es (all_rounds q move)" "qu_assigns q = put @ ps" "length put \<le> Suc (settled es)"
      "rv_log r = map Freed (concat (all_rounds q move)) @ map Put put" by auto
    then have "length put \<le> settled (es @ [e])" using assign by simp
    from next_assign_at [OF made_mono [OF r(1)] r(2) this] assign r(4) show ?thesis by (simp add: resolver_step_def)
  qed
qed

lemma run_at: "resolver_at q move es (rv_phase (resolver_run q move es)) (rv_log (resolver_run q move es))"
proof (induction es rule: rev_induct)
  case Nil
  show ?case by (simp add: resolver_run_def start_at)
next
  case (snoc e es)
  with step_at show ?case by (simp add: resolver_run_def)
qed

section \<open>Properties\<close>



text \<open>
  C39. Moving frees before it assigns: whatever answers come in, a resolver has called some rounds of its releases, in their
  order, followed by a beginning of the assigns in the order of the drop; it has no more than one assign out at a time, and
  none at all on a move before every release of every round came back as made; an assignment without a move frees nobody.
\<close>

theorem move_frees_before_it_assigns:
  "(\<exists>k put rest. qu_assigns q = put @ rest \<and>
     rv_log (resolver_run q move es) = map Freed (concat (take k (all_rounds q move))) @ map Put put \<and>
     length put \<le> Suc (settled es) \<and>
     (put = [] \<or> length (all_rounds q move) \<le> k \<and> made es (all_rounds q move)))"
proof (cases "rv_phase (resolver_run q move es)")
  case (Releasing ok rest ps n)
  with run_at [of q move es] obtain past fs where "all_rounds q move = past @ fs # rest"
    "rv_log (resolver_run q move es) = map Freed (concat (past @ [fs]))" by auto
  then show ?thesis by (intro exI [of _ "Suc (length past)"] exI [of _ "[]"] exI [of _ "qu_assigns q"]) simp
next
  case (Assigning ps)
  with run_at [of q move es] obtain put where "qu_assigns q = put @ ps" "length put \<le> Suc (settled es)"
    "rv_log (resolver_run q move es) = map Freed (concat (all_rounds q move)) @ map Put put" "made es (all_rounds q move)" by auto
  then show ?thesis by (intro exI [of _ "length (all_rounds q move)"] exI [of _ put] exI [of _ ps]) simp
next
  case Over
  with run_at [of q move es] consider "rv_log (resolver_run q move es) = map Freed (concat (all_rounds q move))"
    | "made es (all_rounds q move)" "length (qu_assigns q) \<le> Suc (settled es)"
      "rv_log (resolver_run q move es) = map Freed (concat (all_rounds q move)) @ map Put (qu_assigns q)" by auto
  then show ?thesis
  proof cases
    case 1
    then show ?thesis by (intro exI [of _ "length (all_rounds q move)"] exI [of _ "[]"] exI [of _ "qu_assigns q"]) simp
  next
    case 2
    then show ?thesis by (intro exI [of _ "length (all_rounds q move)"] exI [of _ "qu_assigns q"] exI [of _ "[]"]) simp
  qed
qed

text \<open>
  A block of which two devices are on other cards asks about the last one only: dropped on a card that is no stop, the
  second question takes the place of the first, and the first device is neither assigned nor asked about.
\<close>

theorem block_drop_forgets_the_first_question:
  assumes "card_of view i = Some o1" "material_of view m = Some x" "material_of view n = Some y"
    and "\<not> material_holds m o1" "\<not> material_holds n o1" "\<not> m_outOfService x" "\<not> m_outOfService y"
    and "\<not> m_consumable x" "\<not> m_consumable y"
    and "collect_conflicts label view (material_holds m) i \<noteq> []" "collect_conflicts label view (material_holds n) i \<noteq> []"
  shows "(let rb1 = snd (assign_material label view n i False (snd (assign_material label view m i False rb)))
     in map_option rc_id (rb_conflict rb1) = Some n \<and> rb_board rb1 = rb_board rb \<and> rb_calls rb1 = rb_calls rb)"
  using assms by (simp add: assign_material_def ask_conflict_def Let_def)

lemma block_drop_forgets_the_first_question_witness:
  "(let other = (blank_card ''b'' Active)\<lparr>op_materials := [''m'', ''n'']\<rparr>;
        view = \<lparr>bv_ops = [blank_card ''a'' Active, other], bv_people = [], bv_mats = [blank_material ''m'', blank_material ''n''], bv_loaded = True, bv_event = None, bv_selected = None, bv_oosVehicles = []\<rparr>
    in map_option rc_id (rb_conflict (snd (assign_material op_location view ''n'' ''a'' False
         (snd (assign_material op_location view ''m'' ''a'' False empty_resources))))) = Some ''n'')"
  using block_drop_forgets_the_first_question [of
      "\<lparr>bv_ops = [blank_card ''a'' Active, (blank_card ''b'' Active)\<lparr>op_materials := [''m'', ''n'']\<rparr>], bv_people = [],
        bv_mats = [blank_material ''m'', blank_material ''n''], bv_loaded = True, bv_event = None, bv_selected = None, bv_oosVehicles = []\<rparr>"
      "''a''" "blank_card ''a'' Active" "''m''" "blank_material ''m''" "''n''" "blank_material ''n''" op_location empty_resources]
  by (simp add: card_of_def material_of_def collect_conflicts_def material_holds_def Let_def)

end
