(* ===== verification/RoutePlan.thy ===== *)
theory RoutePlan
  imports RouteGroups Durations
begin

text \<open>
  Planning the stops of a route: \<^verbatim>\<open>frontend/lib/hooks/use-route-planning.ts\<close> (stops, anchors, the greedy
  order), \<^verbatim>\<open>frontend/lib/route-start.ts\<close> (where the order starts and how that is said) and
  \<^verbatim>\<open>frontend/lib/vehicle-positions.ts\<close> (which tracker belongs to a vehicle). Parameters: the great-circle
  distance in the engine's floating point (\<open>None\<close>: not a number), the number and date parsers, the
  translator, the clock text of the locale.
\<close>

section \<open>Trackers\<close>

type_synonym point = "rat \<times> rat"

record vehicle_position =
  vp_device :: string
  vp_at :: point
  vp_lastUpdate :: "string option"

definition normalize_vehicle_name :: "string \<Rightarrow> string" where
  "normalize_vehicle_name s = filter (\<lambda>c. \<not> (is_space c \<or> c \<in> set ''-_.'')) (js_lower s)"

definition find_vehicle_position :: "string \<Rightarrow> vehicle_position list \<Rightarrow> vehicle_position option" where
  "find_vehicle_position name ps =
     (let target = normalize_vehicle_name name
      in case List.find (\<lambda>p. js_lower (vp_device p) = js_lower name) ps of
           Some p \<Rightarrow> Some p
         | None \<Rightarrow>
             (case List.find (\<lambda>p. normalize_vehicle_name (vp_device p) = target) ps of
                Some p \<Rightarrow> Some p
              | None \<Rightarrow> List.find (\<lambda>p. let device = normalize_vehicle_name (vp_device p)
                   in str_includes device target \<or> str_includes target device) ps))"

section \<open>The start of an order\<close>

datatype route_start_mode = ModeMagazin | ModeVehicle | ModeFirst

datatype magazin_source = FromSettings | SourceUnset | SourceFailed

record route_start_anchors =
  an_magazin :: "(point \<times> magazin_source) option"
  an_vehicle :: "(point \<times> string \<times> js_date) option"
  an_first :: "(point \<times> string) option"

datatype route_start =
    StartMagazin route_start_mode point magazin_source
  | StartVehicle route_start_mode point string js_date
  | StartFirst route_start_mode point string

definition gps_stale_after_ms :: ms where
  "gps_stale_after_ms = 10 * 60000"

definition resolve_route_start :: "route_start_mode \<Rightarrow> route_start_anchors \<Rightarrow> route_start option" where
  "resolve_route_start requested an =
     (case (requested, an_magazin an, an_vehicle an) of
        (ModeMagazin, Some (p, src), _) \<Rightarrow> Some (StartMagazin requested p src)
      | (ModeVehicle, _, Some (p, name, tm)) \<Rightarrow> Some (StartVehicle requested p name tm)
      | _ \<Rightarrow> map_option (\<lambda>(p, label). StartFirst requested p label) (an_first an))"

definition parse_reported_at :: "js_runtime \<Rightarrow> string option \<Rightarrow> js_date" where
  "parse_reported_at rt v = Option.bind (or_null v) (parse_date rt)"

text \<open>What is said of a start: a message key with its values, which the translator renders.\<close>

type_synonym translator = "string \<Rightarrow> (string \<times> string) list \<Rightarrow> string"

record route_start_text =
  rt_label :: string
  rt_detail :: string
  rt_caution :: bool

definition vehicle_detail :: "string \<Rightarrow> js_date \<Rightarrow> translator \<Rightarrow> ms \<Rightarrow> (ms \<Rightarrow> string) \<Rightarrow> string \<times> bool" where
  "vehicle_detail name reported t now clock =
     (case reported of
        None \<Rightarrow> (t ''vehicleNoTime'' [(''vehicle'', name)], True)
      | Some tm \<Rightarrow>
          let age = now - tm
          in if age > gps_stale_after_ms
             then (t ''vehicleStale'' [(''vehicle'', name), (''time'', clock tm), (''age'', format_duration (Some age) BoardStyle)], True)
             else (t ''vehicleAt'' [(''vehicle'', name), (''time'', clock tm)], False))"

definition magazin_detail :: "magazin_source \<Rightarrow> translator \<Rightarrow> string \<times> bool" where
  "magazin_detail src t =
     (if src = FromSettings then (t ''magazinConfigured'' [], False)
      else (t (if src = SourceFailed then ''magazinFailed'' else ''magazinUnset'') [], True))"

definition describe_start_option ::
  "route_start_mode \<Rightarrow> route_start_anchors \<Rightarrow> translator \<Rightarrow> ms \<Rightarrow> (ms \<Rightarrow> string) \<Rightarrow> route_start_text \<times> bool" where
  "describe_start_option mode an t now clock =
     (case mode of
        ModeMagazin \<Rightarrow>
          (case an_magazin an of
             None \<Rightarrow> (\<lparr>rt_label = t ''magazin'' [], rt_detail = t ''magazinLoading'' [], rt_caution = False\<rparr>, False)
           | Some (_, src) \<Rightarrow>
               (\<lparr>rt_label = t ''magazin'' [], rt_detail = fst (magazin_detail src t), rt_caution = snd (magazin_detail src t)\<rparr>, True))
      | ModeVehicle \<Rightarrow>
          (case an_vehicle an of
             None \<Rightarrow> (\<lparr>rt_label = t ''vehicle'' [], rt_detail = t ''vehicleMissing'' [], rt_caution = False\<rparr>, False)
           | Some (_, name, tm) \<Rightarrow>
               (\<lparr>rt_label = t ''vehicle'' [], rt_detail = fst (vehicle_detail name tm t now clock),
                  rt_caution = snd (vehicle_detail name tm t now clock)\<rparr>, True))
      | ModeFirst \<Rightarrow>
          (case an_first an of
             None \<Rightarrow> (\<lparr>rt_label = t ''first'' [], rt_detail = t ''firstMissing'' [], rt_caution = False\<rparr>, False)
           | Some (_, label) \<Rightarrow> (\<lparr>rt_label = t ''first'' [], rt_detail = label, rt_caution = False\<rparr>, True)))"

fun mode_key :: "route_start_mode \<Rightarrow> string" where
  "mode_key ModeMagazin = ''magazin''"
| "mode_key ModeVehicle = ''vehicle''"
| "mode_key ModeFirst = ''first''"

definition describe_route_start :: "route_start \<Rightarrow> translator \<Rightarrow> ms \<Rightarrow> (ms \<Rightarrow> string) \<Rightarrow> route_start_text" where
  "describe_route_start start t now clock =
     (case start of
        StartMagazin _ _ src \<Rightarrow>
          \<lparr>rt_label = t ''magazin'' [], rt_detail = fst (magazin_detail src t), rt_caution = snd (magazin_detail src t)\<rparr>
      | StartVehicle _ _ name tm \<Rightarrow>
          \<lparr>rt_label = t ''vehicle'' [], rt_detail = fst (vehicle_detail name tm t now clock),
           rt_caution = snd (vehicle_detail name tm t now clock)\<rparr>
      | StartFirst requested _ label \<Rightarrow>
          if requested \<noteq> ModeFirst
          then \<lparr>rt_label = t ''first'' [],
                rt_detail = t ''fallbackToFirst'' [(''requested'', t (mode_key requested) []), (''stop'', label)], rt_caution = True\<rparr>
          else \<lparr>rt_label = t ''first'' [], rt_detail = label, rt_caution = False\<rparr>)"

text \<open>The separator is a space, a middle dot and a space.\<close>

definition route_start_summary :: "route_start_text \<Rightarrow> string" where
  "route_start_summary x =
     (if rt_detail x \<noteq> [] then rt_label x @ [CHR '' '', char_of (183 :: nat), CHR '' ''] @ rt_detail x else rt_label x)"

section \<open>Stops and anchors\<close>

type_synonym ordered_stop = "ident \<times> operation option"

definition operations_by_id :: "operation list \<Rightarrow> ident \<rightharpoonup> operation" where
  "operations_by_id ops = map_of (rev (map (\<lambda>x. (op_id x, x)) ops))"

definition ordered_stops :: "incident_route option \<Rightarrow> operation list \<Rightarrow> ordered_stop list" where
  "ordered_stops g ops = (case g of None \<Rightarrow> [] | Some r \<Rightarrow> map (\<lambda>i. (i, operations_by_id ops i)) (ig_stops r))"

definition stop_point :: "ordered_stop \<Rightarrow> point option" where
  "stop_point s = Option.bind (snd s) op_coordinates"

definition is_located :: "ordered_stop \<Rightarrow> bool" where
  "is_located s = (stop_point s \<noteq> None)"

definition default_station :: point where
  "default_station = (4751637699933488 / 100000000000000, 7561800450458299 / 1000000000000000)"

text \<open>The Magazin from the settings (\<open>None\<close>: the request failed); an unset key is stored as the empty text.\<close>

definition magazin_anchor :: "(string \<Rightarrow> rat option) \<Rightarrow> (string \<rightharpoonup> string) option \<Rightarrow> point \<times> magazin_source" where
  "magazin_anchor parse_float settings =
     (case settings of
        None \<Rightarrow> (default_station, SourceFailed)
      | Some s \<Rightarrow>
          (case (parse_float (or_str (s ''gps.station_lat'') (or_str (s ''firestation_latitude'') [])),
                 parse_float (or_str (s ''gps.station_lng'') (or_str (s ''firestation_longitude'') []))) of
             (Some lat, Some lng) \<Rightarrow> ((lat, lng), FromSettings)
           | _ \<Rightarrow> (default_station, SourceUnset)))"

definition vehicle_anchor :: "js_runtime \<Rightarrow> group_resources \<Rightarrow> vehicle_position list \<Rightarrow> (point \<times> string \<times> js_date) option" where
  "vehicle_anchor rt res ps =
     (case List.find (\<lambda>v. find_vehicle_position (gr_name v) ps \<noteq> None) (gr_vehicles res) of
        None \<Rightarrow> None
      | Some v \<Rightarrow> map_option (\<lambda>p. (vp_at p, gr_name v, parse_reported_at rt (vp_lastUpdate p))) (find_vehicle_position (gr_name v) ps))"

definition first_anchor :: "ordered_stop list \<Rightarrow> (point \<times> string) option" where
  "first_anchor stops =
     (case List.find is_located stops of
        Some (_, Some x) \<Rightarrow> map_option (\<lambda>p. (p, nullish (op_locationDisplay x) (op_location x))) (op_coordinates x)
      | _ \<Rightarrow> None)"

section \<open>The greedy order\<close>

type_synonym distance = "point \<Rightarrow> point \<Rightarrow> rat option"

text \<open>The index of the nearest stop: the first of the smallest distances, 0 where none is a number.\<close>

fun nearest_from :: "distance \<Rightarrow> point \<Rightarrow> (ident \<times> point) list \<Rightarrow> nat \<Rightarrow> nat \<Rightarrow> rat option \<Rightarrow> nat" where
  "nearest_from km cur [] i best_idx best = best_idx"
| "nearest_from km cur (s # rest) i best_idx best =
     (case km cur (snd s) of
        None \<Rightarrow> nearest_from km cur rest (i + 1) best_idx best
      | Some d \<Rightarrow>
          if (case best of None \<Rightarrow> True | Some b \<Rightarrow> d < b)
          then nearest_from km cur rest (i + 1) i (Some d)
          else nearest_from km cur rest (i + 1) best_idx best)"

definition nearest :: "distance \<Rightarrow> point \<Rightarrow> (ident \<times> point) list \<Rightarrow> nat" where
  "nearest km cur remaining = nearest_from km cur remaining 0 0 None"

lemma nearest_from_less: "best_idx < i + length rest \<Longrightarrow> nearest_from km cur rest i best_idx best < i + length rest"
proof (induction km cur rest i best_idx best rule: nearest_from.induct)
  case (2 km cur s rest i best_idx best)
  then show ?case by (cases "km cur (snd s)") (auto simp: less_Suc_eq)
qed simp

lemma nearest_less: "remaining \<noteq> [] \<Longrightarrow> nearest km cur remaining < length remaining"
  using nearest_from_less [of 0 0 remaining km cur None] by (simp add: nearest_def)

function greedy :: "distance \<Rightarrow> point \<Rightarrow> (ident \<times> point) list \<Rightarrow> (ident \<times> point) list" where
  "greedy km cur remaining =
     (if remaining = [] then []
      else let k = nearest km cur remaining; s = remaining ! k
           in s # greedy km (snd s) (take k remaining @ drop (Suc k) remaining))"
  by pat_completeness auto
termination
proof (relation "measure (\<lambda>(km, cur, remaining). length remaining)")
  fix km cur remaining k s
  assume "remaining \<noteq> []" "k = nearest km cur remaining" "s = remaining ! k"
  with nearest_less [of remaining km cur]
  show "((km, snd s, take k remaining @ drop (Suc k) remaining), km, cur, remaining) \<in> measure (\<lambda>(km, cur, remaining). length remaining)"
    by simp
qed simp

declare greedy.simps [simp del]

definition located_stops :: "ordered_stop list \<Rightarrow> (ident \<times> point) list" where
  "located_stops stops = List.map_filter (\<lambda>s. map_option (Pair (fst s)) (stop_point s)) stops"

fun start_point :: "route_start \<Rightarrow> point" where
  "start_point (StartMagazin _ p _) = p"
| "start_point (StartVehicle _ p _ _) = p"
| "start_point (StartFirst _ p _) = p"

definition optimize_from ::
  "distance \<Rightarrow> incident_route option \<Rightarrow> operation list \<Rightarrow> route_start_anchors \<Rightarrow> route_start_mode \<Rightarrow> ident list \<times> route_start option" where
  "optimize_from km g ops an requested =
     (case g of
        None \<Rightarrow> ([], None)
      | Some r \<Rightarrow>
          let stops = ordered_stops g ops;
              located = located_stops stops;
              unlocated = filter (\<lambda>s. \<not> is_located s) stops
          in (case resolve_route_start requested an of
                None \<Rightarrow> (ig_stops r, None)
              | Some start \<Rightarrow>
                  if length located \<le> 1 then (ig_stops r, Some start)
                  else (map fst (greedy km (start_point start) located) @ map fst unlocated, Some start)))"

section \<open>Lemmas\<close>

lemma drop_one: "k < length xs \<Longrightarrow> add_mset (xs ! k) (mset (take k xs @ drop (Suc k) xs)) = mset xs"
  by (metis id_take_nth_drop mset_append mset.simps(2) union_mset_add_mset_right)

lemma mset_greedy [simp]: "mset (greedy km cur remaining) = mset remaining"
proof (induction km cur remaining rule: greedy.induct)
  case (1 km cur remaining)
  show ?case
  proof (cases "remaining = []")
    case False
    with 1 [OF False refl refl] drop_one [OF nearest_less [OF False]] show ?thesis
      by (simp add: greedy.simps [of km cur remaining] Let_def)
  qed (simp add: greedy.simps)
qed

text \<open>\<open>nearer a b\<close>: the distance \<open>a\<close> is no worse than \<open>b\<close>, a distance that is no number being the worst.\<close>

definition nearer :: "rat option \<Rightarrow> rat option \<Rightarrow> bool" where
  "nearer a b = (case b of None \<Rightarrow> True | Some y \<Rightarrow> (case a of None \<Rightarrow> False | Some x \<Rightarrow> x \<le> y))"

lemma nearer_trans: "nearer a b \<Longrightarrow> nearer b c \<Longrightarrow> nearer a c"
  by (auto simp: nearer_def split: option.splits)

lemma nearest_from_best:
  assumes "xs = seen @ rest" "i = length seen" "\<forall>y\<in>set seen. nearer best (km cur (snd y))"
    and "best \<noteq> None \<Longrightarrow> km cur (snd (xs ! best_idx)) = best"
  shows "\<forall>y\<in>set xs. nearer (km cur (snd (xs ! nearest_from km cur rest i best_idx best))) (km cur (snd y))"
  using assms
proof (induction km cur rest i best_idx best arbitrary: seen rule: nearest_from.induct)
  case (1 km cur i best_idx best)
  then show ?case by (cases best) (auto simp: nearer_def split: option.splits)
next
  case (2 km cur s rest i best_idx best)
  have at: "xs ! i = s" using 2(4,5) by simp
  have split: "xs = (seen @ [s]) @ rest" "i + 1 = length (seen @ [s])" using 2(4,5) by simp_all
  show ?case
  proof (cases "km cur (snd s)")
    case None
    then have "\<forall>y\<in>set (seen @ [s]). nearer best (km cur (snd y))" using 2(6) by (auto simp: nearer_def)
    with 2(1) [OF None split] 2(7) None show ?thesis by simp
  next
    case (Some d)
    show ?thesis
    proof (cases "case best of None \<Rightarrow> True | Some b \<Rightarrow> d < b")
      case True
      then have "nearer (Some d) best" by (auto simp: nearer_def split: option.splits)
      then have "\<forall>y\<in>set (seen @ [s]). nearer (Some d) (km cur (snd y))"
        using 2(6) Some nearer_trans by (auto simp: nearer_def [of "Some d" "Some d"])
      with 2(2) [OF Some True split] at Some True show ?thesis by simp
    next
      case False
      then obtain b where "best = Some b" "b \<le> d" by (auto split: option.splits)
      then have "\<forall>y\<in>set (seen @ [s]). nearer best (km cur (snd y))" using 2(6) Some by (auto simp: nearer_def)
      with 2(3) [OF Some False split] 2(7) Some False show ?thesis by simp
    qed
  qed
qed

lemma nearest_best:
  "y \<in> set xs \<Longrightarrow> nearer (km cur (snd (xs ! nearest km cur xs))) (km cur (snd y))"
  using nearest_from_best [of xs "[]" xs 0 None km cur 0] by (simp add: nearest_def)

text \<open>An order is greedy when every stop is the nearest of those that are left, seen from the stop before it.\<close>

fun greedy_order :: "distance \<Rightarrow> point \<Rightarrow> (ident \<times> point) list \<Rightarrow> bool" where
  "greedy_order km cur [] = True"
| "greedy_order km cur (s # rest) = (list_all (\<lambda>y. nearer (km cur (snd s)) (km cur (snd y))) rest \<and> greedy_order km (snd s) rest)"

lemma greedy_is_greedy: "greedy_order km cur (greedy km cur remaining)"
proof (induction km cur remaining rule: greedy.induct)
  case (1 km cur remaining)
  show ?case
  proof (cases "remaining = []")
    case False
    let ?k = "nearest km cur remaining"
    let ?rest = "take ?k remaining @ drop (Suc ?k) remaining"
    have "set (greedy km (snd (remaining ! ?k)) ?rest) = set ?rest" by (metis mset_greedy set_mset_mset)
    then have "set (greedy km (snd (remaining ! ?k)) ?rest) \<subseteq> set remaining"
      using set_take_subset set_drop_subset by fastforce
    then have "list_all (\<lambda>y. nearer (km cur (snd (remaining ! ?k))) (km cur (snd y))) (greedy km (snd (remaining ! ?k)) ?rest)"
      using nearest_best [of _ remaining km cur] by (auto simp: list_all_iff)
    with 1 [OF False refl refl] False show ?thesis by (simp add: greedy.simps [of km cur remaining] Let_def)
  qed (simp add: greedy.simps)
qed

lemma located_stops_ids: "map fst (located_stops stops) = map fst (filter is_located stops)"
  by (induction stops) (auto simp: located_stops_def List.map_filter_simps is_located_def split: option.splits)

lemma mset_filter_split: "mset (filter P xs) + mset (filter (\<lambda>x. \<not> P x) xs) = mset xs"
  by (metis mset_filter multiset_partition)

fun start_mode :: "route_start \<Rightarrow> route_start_mode" where
  "start_mode (StartMagazin _ _ _) = ModeMagazin"
| "start_mode (StartVehicle _ _ _ _) = ModeVehicle"
| "start_mode (StartFirst _ _ _) = ModeFirst"

section \<open>Properties\<close>

text \<open>
  Optimising a route loses no stop: the proposed order holds exactly the stops of the route, each as
  often as before, whatever the start, the anchors and the distances are; stops without coordinates come last,
  in the order they had, and every stop before them is a nearest one of those left, seen from the stop before it.
\<close>

theorem optimised_route_keeps_its_stops:
  "mset (fst (optimize_from km (Some r) ops an requested)) = mset (ig_stops r) \<and>
   (fst (optimize_from km (Some r) ops an requested) = ig_stops r \<or>
    (\<exists>start order. resolve_route_start requested an = Some start \<and>
       mset order = mset (located_stops (ordered_stops (Some r) ops)) \<and> greedy_order km (start_point start) order \<and>
       fst (optimize_from km (Some r) ops an requested) =
         map fst order @ map fst (filter (\<lambda>s. \<not> is_located s) (ordered_stops (Some r) ops))))"
proof (cases "resolve_route_start requested an")
  case None
  then show ?thesis by (simp add: optimize_from_def Let_def)
next
  case (Some start)
  let ?stops = "ordered_stops (Some r) ops"
  let ?order = "greedy km (start_point start) (located_stops ?stops)"
  show ?thesis
  proof (cases "length (located_stops ?stops) \<le> 1")
    case True
    with Some show ?thesis by (simp add: optimize_from_def Let_def)
  next
    case False
    then have ids: "fst (optimize_from km (Some r) ops an requested) = map fst ?order @ map fst (filter (\<lambda>s. \<not> is_located s) ?stops)"
      using Some by (simp add: optimize_from_def Let_def)
    have "mset (map fst ?order) = mset (map fst (located_stops ?stops))" by (simp only: mset_map mset_greedy)
    also have "\<dots> = image_mset fst (mset (filter is_located ?stops))" by (simp only: located_stops_ids mset_map)
    finally have "mset (fst (optimize_from km (Some r) ops an requested))
        = image_mset fst (mset (filter is_located ?stops) + mset (filter (\<lambda>s. \<not> is_located s) ?stops))"
      by (simp only: ids mset_append mset_map image_mset_union)
    also have "\<dots> = image_mset fst (mset ?stops)" by (simp only: mset_filter_split)
    also have "\<dots> = mset (ig_stops r)" by (simp add: ordered_stops_def multiset.map_comp comp_def)
    finally show ?thesis using Some ids greedy_is_greedy mset_greedy by blast
  qed
qed

text \<open>
  The start of an order never passes for more than it is: it is the one asked for, or the first stop where that one is
  unknown, and there is one unless nothing at all is located; its text carries a caution exactly when
  it is not the one asked for, is not the configured Magazin, or is a position without a time or older than ten minutes.
\<close>

theorem route_start_is_honest:
  "(case resolve_route_start requested an of
      None \<Rightarrow> an_first an = None
    | Some start \<Rightarrow>
        (start_mode start = requested \<or>
           start_mode start = ModeFirst \<and> (if requested = ModeMagazin then an_magazin an = None else an_vehicle an = None)) \<and>
        (rt_caution (describe_route_start start t now clock) \<longleftrightarrow>
           start_mode start \<noteq> requested
           \<or> (case start of StartMagazin _ _ src \<Rightarrow> src \<noteq> FromSettings
               | StartVehicle _ _ _ tm \<Rightarrow> (case tm of None \<Rightarrow> True | Some x \<Rightarrow> now - x > 600000)
               | StartFirst _ _ _ \<Rightarrow> False)))"
  by (cases requested; cases "an_magazin an"; cases "an_vehicle an"; cases "an_first an")
    (auto simp: resolve_route_start_def describe_route_start_def magazin_detail_def vehicle_detail_def
      gps_stale_after_ms_def Let_def split: option.splits if_splits)

theorem route_start_is_honest_witness:
  "case resolve_route_start ModeVehicle \<lparr>an_magazin = None, an_vehicle = Some ((47, 7), ''TLF'', Some 0), an_first = None\<rparr> of
     None \<Rightarrow> False
   | Some start \<Rightarrow> rt_caution (describe_route_start start (\<lambda>key _. key) 600001 (\<lambda>_. [])) \<and>
       \<not> rt_caution (describe_route_start start (\<lambda>key _. key) 600000 (\<lambda>_. []))"
  using route_start_is_honest [of "\<lparr>an_magazin = None, an_vehicle = Some ((47, 7), ''TLF'', Some 0), an_first = None\<rparr>" ModeVehicle
      "\<lambda>key _. key" 600001 "\<lambda>_. []"]
    route_start_is_honest [of "\<lparr>an_magazin = None, an_vehicle = Some ((47, 7), ''TLF'', Some 0), an_first = None\<rparr>" ModeVehicle
      "\<lambda>key _. key" 600000 "\<lambda>_. []"]
  by (simp add: resolve_route_start_def)

end
