(* ===== verification/RapportDraft.thy ===== *)
theory RapportDraft
  imports BoardTypes JsText
begin

text \<open>
  The report of a damage site as the crew's phone and the board edit it: \<^verbatim>\<open>frontend/lib/rapport-draft.ts\<close>.
  A draft read back from the browser's storage may be of an older shape, so each of its fields may be
  missing; a list read without a fallback is where the code throws (\<open>Inl\<close>).
\<close>

section \<open>Data\<close>

record rapport_material =
  rm_assignment :: ident
  rm_material :: "ident option"
  rm_name :: string
  rm_location :: "string option"
  rm_consumable :: bool
  rm_used :: bool
  rm_left :: bool
  rm_onBoard :: bool

text \<open>A vehicle or a person with one tick.\<close>

record rapport_presence =
  rp_id :: ident
  rp_name :: string
  rp_present :: bool
  rp_onBoard :: bool

record extra_personnel =
  ep_name :: string
  ep_note :: string

record extra_material =
  em_name :: string
  em_left :: bool

record rapport_form =
  rf_materials :: "rapport_material list"
  rf_vehicles :: "rapport_presence list"
  rf_personnel :: "rapport_presence list"
  rf_extraPersonnel :: "extra_personnel list"
  rf_extraMaterials :: "extra_material list"
  rf_kurzbericht :: string
  rf_handedOver :: string
  rf_ownerName :: string
  rf_ownerPhone :: string
  rf_count :: "int option"

definition empty_rapport_form :: rapport_form where
  "empty_rapport_form = \<lparr>rf_materials = [], rf_vehicles = [], rf_personnel = [], rf_extraPersonnel = [], rf_extraMaterials = [],
     rf_kurzbericht = [], rf_handedOver = [], rf_ownerName = [], rf_ownerPhone = [], rf_count = None\<rparr>"

text \<open>What the storage holds: the fields of a form that are there.\<close>

record stored_form =
  sf_materials :: "rapport_material list option"
  sf_vehicles :: "rapport_presence list option"
  sf_personnel :: "rapport_presence list option"
  sf_extraPersonnel :: "extra_personnel list option"
  sf_extraMaterials :: "extra_material list option"
  sf_kurzbericht :: "string option"
  sf_handedOver :: "string option"
  sf_ownerName :: "string option"
  sf_ownerPhone :: "string option"
  sf_count :: "int option"

definition store_form :: "rapport_form \<Rightarrow> stored_form" where
  "store_form f = \<lparr>sf_materials = Some (rf_materials f), sf_vehicles = Some (rf_vehicles f), sf_personnel = Some (rf_personnel f),
     sf_extraPersonnel = Some (rf_extraPersonnel f), sf_extraMaterials = Some (rf_extraMaterials f),
     sf_kurzbericht = Some (rf_kurzbericht f), sf_handedOver = Some (rf_handedOver f), sf_ownerName = Some (rf_ownerName f),
     sf_ownerPhone = Some (rf_ownerPhone f), sf_count = rf_count f\<rparr>"

record api_rapport =
  ap_isDraft :: bool
  ap_materials :: "rapport_material list"
  ap_vehicles :: "rapport_presence list"
  ap_personnel :: "rapport_presence list option"
  ap_extraPersonnel :: "extra_personnel list option"
  ap_extraMaterials :: "extra_material list option"
  ap_kurzbericht :: "string option"
  ap_handedOver :: "string option"
  ap_ownerName :: "string option"
  ap_ownerPhone :: "string option"
  ap_count :: "int option"
  ap_updatedAt :: "string option"

section \<open>The form\<close>

definition to_form_data :: "api_rapport \<Rightarrow> rapport_form" where
  "to_form_data r =
     \<lparr>rf_materials = ap_materials r, rf_vehicles = ap_vehicles r, rf_personnel = nullish (ap_personnel r) [],
      rf_extraPersonnel = nullish (ap_extraPersonnel r) [], rf_extraMaterials = nullish (ap_extraMaterials r) [],
      rf_kurzbericht = nullish (ap_kurzbericht r) [], rf_handedOver = nullish (ap_handedOver r) [],
      rf_ownerName = nullish (ap_ownerName r) [], rf_ownerPhone = nullish (ap_ownerPhone r) [], rf_count = ap_count r\<rparr>"

definition has_content :: "stored_form \<Rightarrow> bool" where
  "has_content f =
     (let text = (\<lambda>v. js_trim (nullish v []) \<noteq> [])
      in text (sf_kurzbericht f) \<or> text (sf_handedOver f)
         \<or> nullish (sf_extraMaterials f) [] \<noteq> [] \<or> nullish (sf_extraPersonnel f) [] \<noteq> []
         \<or> text (sf_ownerName f) \<or> text (sf_ownerPhone f)
         \<or> list_ex (\<lambda>r. \<not> rm_used r \<or> rm_left r) (nullish (sf_materials f) [])
         \<or> list_ex (\<lambda>r. rp_present r \<noteq> rp_onBoard r) (nullish (sf_vehicles f) [])
         \<or> list_ex (\<lambda>r. rp_present r \<noteq> rp_onBoard r) (nullish (sf_personnel f) []))"

section \<open>Merging a draft\<close>

text \<open>\<^verbatim>\<open>new Map(rows.map((row) => [row.id, row]))\<close>: of two rows with one id the later stays.\<close>

definition by_key :: "('r \<Rightarrow> 'k) \<Rightarrow> 'r list \<Rightarrow> 'k \<rightharpoonup> 'r" where
  "by_key key rows = map_of (rev (map (\<lambda>r. (key r, r)) rows))"

definition merge_presence_ticks :: "rapport_presence list \<Rightarrow> rapport_presence list \<Rightarrow> rapport_presence list" where
  "merge_presence_ticks server local =
     map (\<lambda>r. case by_key rp_id local (rp_id r) of Some d \<Rightarrow> r\<lparr>rp_present := rp_present d\<rparr> | None \<Rightarrow> r) server"

definition merge_material_ticks :: "rapport_material list \<Rightarrow> rapport_material list \<Rightarrow> rapport_material list" where
  "merge_material_ticks server local =
     map (\<lambda>r. case by_key rm_assignment local (rm_assignment r) of
          None \<Rightarrow> r
        | Some d \<Rightarrow> r\<lparr>rm_used := rm_used d, rm_left := (if rm_consumable r then False else rm_left d)\<rparr>) server"

text \<open>\<^verbatim>\<open>s ? new Date(s).getTime() : 0\<close>, and a comparison that no invalid date passes.\<close>

definition stamp :: "js_runtime \<Rightarrow> string option \<Rightarrow> js_date" where
  "stamp rt s = (case or_null s of None \<Rightarrow> Some 0 | Some t \<Rightarrow> parse_date rt t)"

definition date_le :: "js_date \<Rightarrow> js_date \<Rightarrow> bool" where
  "date_le a b = (case (a, b) of (Some x, Some y) \<Rightarrow> x \<le> y | _ \<Rightarrow> False)"

definition merge_draft ::
  "js_runtime \<Rightarrow> api_rapport \<Rightarrow> (stored_form \<times> string option) option \<Rightarrow> string + (rapport_form \<times> bool)" where
  "merge_draft rt server local =
     (let server_form = to_form_data server
      in case local of
           None \<Rightarrow> Inr (server_form, False)
         | Some (data, ts) \<Rightarrow>
             if \<not> has_content data \<or> \<not> ap_isDraft server then Inr (server_form, False)
             else if has_content (store_form server_form) \<and> date_le (stamp rt ts) (stamp rt (ap_updatedAt server))
             then Inr (server_form, False)
             else (case sf_materials data of
                     None \<Rightarrow> Inl ''TypeError''
                   | Some mats \<Rightarrow> Inr
                       (\<lparr>rf_materials = merge_material_ticks (ap_materials server) mats,
                         rf_vehicles = merge_presence_ticks (ap_vehicles server) (nullish (sf_vehicles data) []),
                         rf_personnel = merge_presence_ticks (nullish (ap_personnel server) []) (nullish (sf_personnel data) []),
                         rf_extraPersonnel = nullish (sf_extraPersonnel data) [], rf_extraMaterials = nullish (sf_extraMaterials data) [],
                         rf_kurzbericht = nullish (sf_kurzbericht data) [], rf_handedOver = nullish (sf_handedOver data) [],
                         rf_ownerName = nullish (sf_ownerName data) [], rf_ownerPhone = nullish (sf_ownerPhone data) [],
                         rf_count = sf_count data\<rparr>, True)))"

definition is_corrected :: "int option \<Rightarrow> int \<Rightarrow> bool" where
  "is_corrected v board = (v \<noteq> None \<and> v \<noteq> Some board)"

section \<open>The payload\<close>

record rapport_update =
  up_isDraft :: bool
  up_materials :: "(ident \<times> bool \<times> bool) list"
  up_vehicles :: "(ident \<times> bool) list"
  up_personnel :: "(ident \<times> bool \<times> string) list"
  up_extraPersonnel :: "(string \<times> string) list"
  up_extraMaterials :: "(string \<times> bool) list"
  up_kurzbericht :: "string option"
  up_handedOver :: "string option"
  up_ownerName :: "string option"
  up_ownerPhone :: "string option"
  up_count :: "int option"

definition payload_text :: "string \<Rightarrow> string option" where
  "payload_text v = (if js_trim v \<noteq> [] then Some (js_trim v) else None)"

definition to_update :: "rapport_form \<Rightarrow> bool \<Rightarrow> rapport_update" where
  "to_update f draft =
     \<lparr>up_isDraft = draft,
      up_materials = map (\<lambda>r. (rm_assignment r, rm_used r, rm_left r)) (rf_materials f),
      up_vehicles = map (\<lambda>r. (rp_id r, rp_present r)) (rf_vehicles f),
      up_personnel = map (\<lambda>r. (rp_id r, rp_present r, rp_name r)) (rf_personnel f),
      up_extraPersonnel = map (\<lambda>e. (ep_name e, ep_note e)) (rf_extraPersonnel f),
      up_extraMaterials = map (\<lambda>e. (em_name e, em_left e)) (rf_extraMaterials f),
      up_kurzbericht = payload_text (rf_kurzbericht f), up_handedOver = payload_text (rf_handedOver f),
      up_ownerName = payload_text (rf_ownerName f), up_ownerPhone = payload_text (rf_ownerPhone f), up_count = rf_count f\<rparr>"

definition derive_personnel_count :: "rapport_form \<Rightarrow> nat" where
  "derive_personnel_count f = length (filter rp_present (rf_personnel f)) + length (rf_extraPersonnel f)"

section \<open>The checklist by depot\<close>

record material_group_block =
  mg_location :: "string option"
  mg_onBoard :: bool
  mg_rows :: "rapport_material list"

definition block_location :: "rapport_material \<Rightarrow> string option" where
  "block_location r = (if rm_onBoard r then rm_location r else None)"

definition add_to_blocks :: "material_group_block list \<Rightarrow> rapport_material \<Rightarrow> material_group_block list" where
  "add_to_blocks groups r =
     (if groups \<noteq> [] \<and> mg_onBoard (last groups) = rm_onBoard r \<and> mg_location (last groups) = block_location r
      then butlast groups @ [(last groups)\<lparr>mg_rows := mg_rows (last groups) @ [r]\<rparr>]
      else groups @ [\<lparr>mg_location = block_location r, mg_onBoard = rm_onBoard r, mg_rows = [r]\<rparr>])"

definition group_materials_by_location :: "rapport_material list \<Rightarrow> material_group_block list" where
  "group_materials_by_location rows = foldl add_to_blocks [] rows"

section \<open>Further material\<close>

fun split_on :: "char \<Rightarrow> string \<Rightarrow> string list" where
  "split_on c [] = [[]]"
| "split_on c (x # xs) = (if x = c then [] # split_on c xs else (x # hd (split_on c xs)) # tl (split_on c xs))"

definition name_key :: "string \<Rightarrow> string" where
  "name_key s = js_lower (js_trim s)"

definition canonical_names :: "string list \<Rightarrow> string \<rightharpoonup> string" where
  "canonical_names cat = by_key name_key cat"

text \<open>\<^verbatim>\<open>if (match)\<close>: a catalogue name that is the empty text is falsy.\<close>

definition catalogue_match :: "string list \<Rightarrow> string \<Rightarrow> string option" where
  "catalogue_match cat name = or_null (canonical_names cat (js_lower name))"

definition split_extra_material :: "extra_material list \<Rightarrow> string list \<Rightarrow> extra_material list \<times> string" where
  "split_extra_material entries cat =
     (let step = (\<lambda>(picked, free) e.
          let name = js_trim (em_name e)
          in if name = [] then (picked, free)
             else (case catalogue_match cat name of
                     Some m \<Rightarrow> (picked @ [e\<lparr>em_name := m\<rparr>], free)
                   | None \<Rightarrow> (picked, free @ [name])));
          (picked, free) = foldl step ([], []) entries
      in (picked, str_join '', '' free))"

definition toggle_extra_material :: "extra_material list \<Rightarrow> string \<Rightarrow> extra_material list" where
  "toggle_extra_material entries name =
     (let needle = name_key name
      in if js_some (\<lambda>e. name_key (em_name e) = needle) entries
         then filter (\<lambda>e. name_key (em_name e) \<noteq> needle) entries
         else entries @ [\<lparr>em_name = name, em_left = False\<rparr>])"

definition free_entry_step ::
  "(string \<rightharpoonup> extra_material) \<Rightarrow> (string \<rightharpoonup> string) \<Rightarrow> string list \<times> extra_material list \<Rightarrow> string \<Rightarrow> string list \<times> extra_material list" where
  "free_entry_step previous canonical acc raw =
     (let (seen, free) = acc; name = js_trim raw; key = js_lower name
      in if name = [] \<or> key \<in> set seen \<or> canonical key \<noteq> None then (seen, free)
         else (key # seen, free @ [\<lparr>em_name = name, em_left = (case previous key of Some e \<Rightarrow> em_left e | None \<Rightarrow> False)\<rparr>]))"

definition set_extra_material_free_text :: "extra_material list \<Rightarrow> string \<Rightarrow> string list \<Rightarrow> extra_material list" where
  "set_extra_material_free_text entries text cat =
     (let picked = fst (split_extra_material entries cat);
          previous = by_key (\<lambda>e. name_key (em_name e)) entries;
          seen = map (\<lambda>e. name_key (em_name e)) picked
      in picked @ snd (foldl (free_entry_step previous (canonical_names cat)) (seen, []) (split_on CHR '','' text)))"

definition set_extra_material_left_on_site :: "extra_material list \<Rightarrow> string \<Rightarrow> bool \<Rightarrow> extra_material list" where
  "set_extra_material_left_on_site entries name left =
     map (\<lambda>e. if name_key (em_name e) = name_key name then e\<lparr>em_left := left\<rparr> else e) entries"

section \<open>Lemmas: merging\<close>

lemma by_key_SomeD: "by_key key rows k = Some r \<Longrightarrow> r \<in> set rows \<and> key r = k"
  by (auto simp: by_key_def dest!: map_of_SomeD)

lemma by_key_distinct:
  assumes "distinct (map key rows)" "r \<in> set rows"
  shows "by_key key rows (key r) = Some r"
proof -
  have "distinct (map fst (rev (map (\<lambda>r. (key r, r)) rows)))" using assms(1) by (simp add: rev_map [symmetric] comp_def)
  moreover have "(key r, r) \<in> set (rev (map (\<lambda>r. (key r, r)) rows))" using assms(2) by simp
  ultimately show ?thesis unfolding by_key_def by (rule map_of_is_SomeI)
qed

lemma by_key_None: "k \<notin> key ` set rows \<Longrightarrow> by_key key rows k = None"
  by (auto simp: by_key_def map_of_eq_None_iff image_iff)

lemma presence_ids [simp]: "map rp_id (merge_presence_ticks server local) = map rp_id server"
  by (simp add: merge_presence_ticks_def split: option.split)

lemma material_ids [simp]: "map rm_assignment (merge_material_ticks server local) = map rm_assignment server"
  by (simp add: merge_material_ticks_def split: option.split)

lemma merged_consumables:
  "list_all (\<lambda>r. r \<in> set server \<or> rm_left r = (rm_left r \<and> rm_consumable r = False)) (merge_material_ticks server local)"
  by (auto simp: merge_material_ticks_def list_all_iff split: option.split)

section \<open>Lemmas: names in one line\<close>

lemma split_on_append: "c \<notin> set x \<Longrightarrow> split_on c (x @ rest) = (x @ hd (split_on c rest)) # tl (split_on c rest)"
proof (induction x)
  case Nil
  have "split_on c rest \<noteq> []" by (cases rest) auto
  then show ?case by simp
qed auto

lemma split_on_none: "c \<notin> set x \<Longrightarrow> split_on c x = [x]"
  using split_on_append [of c x "[]"] by simp

lemma split_join:
  "\<forall>n\<in>set (n # ns). CHR '','' \<notin> set n \<Longrightarrow>
     split_on CHR '','' (str_join '', '' (n # ns)) = n # map (\<lambda>m. CHR '' '' # m) ns"
proof (induction ns arbitrary: n)
  case Nil
  then show ?case by (simp add: split_on_none)
next
  case (Cons m ns)
  then have "split_on CHR '','' (str_join '', '' (m # ns)) = m # map (\<lambda>m. CHR '' '' # m) ns" by simp
  with Cons.prems show ?case by (simp add: split_on_append)
qed

lemma js_trim_space [simp]: "js_trim (CHR '' '' # s) = js_trim s"
  by (simp add: js_trim_def trim_start_def is_space_def)

lemma trimmed_pieces:
  assumes "\<forall>n\<in>set names. CHR '','' \<notin> set n \<and> js_trim n = n \<and> n \<noteq> []"
  shows "filter (\<lambda>n. n \<noteq> []) (map js_trim (split_on CHR '','' (str_join '', '' names))) = names"
proof (cases names)
  case (Cons n ns)
  have "filter (\<lambda>n. n \<noteq> []) (map js_trim (n # map (\<lambda>m. CHR '' '' # m) ns)) = n # ns"
    using assms Cons by (simp add: comp_def map_idI filter_id_conv)
  with assms split_join [of n ns] Cons show ?thesis by simp
qed simp

lemma canonical_key: "canonical_names cat k = Some m \<Longrightarrow> name_key m = k"
  using by_key_SomeD [of name_key cat k m] by (simp add: canonical_names_def)

lemma catalogue_match_iff:
  "js_trim n = n \<Longrightarrow> n \<noteq> [] \<Longrightarrow> catalogue_match cat n = canonical_names cat (name_key n)"
  using canonical_key [of cat "name_key n"]
  by (auto simp: catalogue_match_def or_null_def name_key_def js_lower_def split: option.split)

definition plain_entry :: "extra_material \<Rightarrow> bool" where
  "plain_entry e = (js_trim (em_name e) = em_name e \<and> em_name e \<noteq> [] \<and> CHR '','' \<notin> set (em_name e))"

definition canonical_entries :: "string list \<Rightarrow> extra_material list \<Rightarrow> extra_material list" where
  "canonical_entries cat entries =
     List.map_filter (\<lambda>e. map_option (\<lambda>m. e\<lparr>em_name := m\<rparr>) (catalogue_match cat (em_name e))) entries"

definition free_entries :: "string list \<Rightarrow> extra_material list \<Rightarrow> extra_material list" where
  "free_entries cat entries = filter (\<lambda>e. catalogue_match cat (em_name e) = None) entries"

lemma split_extra_closed:
  assumes "\<forall>e\<in>set entries. plain_entry e"
  shows "split_extra_material entries cat = (canonical_entries cat entries, str_join '', '' (map em_name (free_entries cat entries)))"
proof -
  define step where "step = (\<lambda>(picked :: extra_material list, free) (e :: extra_material).
     let name = js_trim (em_name e)
     in if name = [] then (picked, free)
        else (case catalogue_match cat name of Some m \<Rightarrow> (picked @ [e\<lparr>em_name := m\<rparr>], free) | None \<Rightarrow> (picked, free @ [name])))"
  have "foldl step (p, f) entries = (p @ canonical_entries cat entries, f @ map em_name (free_entries cat entries))" for p f
    using assms
  proof (induction entries arbitrary: p f)
    case Nil
    then show ?case by (simp add: canonical_entries_def free_entries_def List.map_filter_simps)
  next
    case (Cons e entries)
    then have e: "js_trim (em_name e) = em_name e" "em_name e \<noteq> []" by (simp_all add: plain_entry_def)
    show ?case
    proof (cases "catalogue_match cat (em_name e)")
      case None
      then have "step (p, f) e = (p, f @ [em_name e])" by (simp add: step_def e)
      with Cons None show ?thesis by (simp add: canonical_entries_def free_entries_def List.map_filter_simps)
    next
      case (Some m)
      then have "step (p, f) e = (p @ [e\<lparr>em_name := m\<rparr>], f)" by (simp add: step_def e)
      with Cons Some show ?thesis by (simp add: canonical_entries_def free_entries_def List.map_filter_simps)
    qed
  qed
  then show ?thesis by (simp add: split_extra_material_def step_def [symmetric])
qed

lemma free_steps_blank: "foldl (free_entry_step prev can) acc raws = foldl (free_entry_step prev can) acc (filter (\<lambda>n. n \<noteq> []) (map js_trim raws))"
proof (induction raws arbitrary: acc)
  case (Cons r raws)
  have "js_trim r = [] \<Longrightarrow> free_entry_step prev can acc r = acc" by (cases acc) (simp add: free_entry_step_def Let_def)
  moreover have "free_entry_step prev can acc (js_trim r) = free_entry_step prev can acc r"
    by (simp add: free_entry_step_def Let_def)
  ultimately show ?case using Cons by simp
qed simp

lemma free_steps:
  assumes "\<forall>e\<in>set es. plain_entry e \<and> can (name_key (em_name e)) = None \<and> name_key (em_name e) \<notin> set seen
      \<and> prev (name_key (em_name e)) = Some e"
    and "distinct (map (\<lambda>e. name_key (em_name e)) es)"
  shows "snd (foldl (free_entry_step prev can) (seen, free) (map em_name es)) = free @ es"
  using assms
proof (induction es arbitrary: seen free)
  case (Cons e es)
  then have e: "js_trim (em_name e) = em_name e" "em_name e \<noteq> []" by (simp_all add: plain_entry_def)
  have "free_entry_step prev can (seen, free) (em_name e) = (name_key (em_name e) # seen, free @ [e])"
    using Cons.prems e by (simp add: free_entry_step_def name_key_def Let_def)
  moreover have "\<forall>x\<in>set es. name_key (em_name x) \<notin> set (name_key (em_name e) # seen)"
    using Cons.prems by (auto simp: image_iff) 
  ultimately show ?case using Cons.IH [of "name_key (em_name e) # seen" "free @ [e]"] Cons.prems by simp
qed simp

definition draft_wins :: "js_runtime \<Rightarrow> api_rapport \<Rightarrow> stored_form \<times> string option \<Rightarrow> bool" where
  "draft_wins rt server d \<longleftrightarrow> has_content (fst d) \<and> ap_isDraft server
     \<and> (has_content (store_form (to_form_data server)) = False \<or> date_le (stamp rt (snd d)) (stamp rt (ap_updatedAt server)) = False)"

definition sent_text :: "string option \<Rightarrow> bool" where
  "sent_text t = (case t of None \<Rightarrow> True | Some s \<Rightarrow> s \<noteq> [] \<and> js_trim s = s)"

section \<open>Properties\<close>

text \<open>
  A local draft never overwrites what it must not: a filed report and a newer one on the server are shown as the server
  has them; where the draft is used, the lists of devices, vehicles and people are still the server's, with
  the draft's ticks on them, and a consumable is never marked as left behind by a draft. The merge fails exactly
  when a draft that would be used was stored without a list of devices.
\<close>

theorem draft_merge_decides:
  "(case merge_draft rt server local of
      Inl e \<Rightarrow> (case local of None \<Rightarrow> False | Some d \<Rightarrow> draft_wins rt server d \<and> sf_materials (fst d) = None)
    | Inr (f, used) \<Rightarrow>
        (used = (case local of None \<Rightarrow> False | Some d \<Rightarrow> draft_wins rt server d)) \<and> (used \<or> f = to_form_data server) \<and>
        map rm_assignment (rf_materials f) = map rm_assignment (ap_materials server) \<and>
        map rp_id (rf_vehicles f) = map rp_id (ap_vehicles server) \<and>
        map rp_id (rf_personnel f) = map rp_id (nullish (ap_personnel server) []) \<and>
        list_all (\<lambda>r. r \<in> set (ap_materials server) \<or> rm_left r = (rm_left r \<and> rm_consumable r = False)) (rf_materials f))"
proof (cases local)
  case None
  then show ?thesis by (auto simp: merge_draft_def to_form_data_def Let_def list_all_iff)
next
  case (Some d)
  obtain data ts where d: "d = (data, ts)" by (cases d)
  show ?thesis
  proof (cases "draft_wins rt server d")
    case True
    with Some d merged_consumables show ?thesis
      by (cases "sf_materials data") (auto simp: merge_draft_def draft_wins_def Let_def)
  next
    case False
    then have "merge_draft rt server local = Inr (to_form_data server, False)"
      using Some d by (auto simp: merge_draft_def draft_wins_def Let_def)
    with Some False show ?thesis by (auto simp: to_form_data_def list_all_iff)
  qed
qed

text \<open>
  What is sent is well formed: a text is either left out or trimmed and not empty, every tick is sent with the row it
  belongs to, in the order of the form, and the number of people the form shows counts the ticked and the added ones.
\<close>

theorem rapport_payload_is_well_formed:
  "(let u = to_update f draft in
     sent_text (up_kurzbericht u) \<and> sent_text (up_handedOver u) \<and> sent_text (up_ownerName u) \<and> sent_text (up_ownerPhone u) \<and>
     map fst (up_materials u) = map rm_assignment (rf_materials f) \<and>
     up_vehicles u = zip (map rp_id (rf_vehicles f)) (map rp_present (rf_vehicles f)) \<and>
     derive_personnel_count f = length (filter (fst \<circ> snd) (up_personnel u)) + length (up_extraPersonnel u))"
  by (simp add: to_update_def payload_text_def sent_text_def Let_def comp_def zip_map_map zip_same_conv_map
      derive_personnel_count_def filter_map)

text \<open>
  The checklist is grouped without loss: the blocks in their order hold the rows in the order the server sent
  them, no block is empty, all rows of a block stand in its depot, and two neighbouring blocks differ.
\<close>

theorem depot_blocks_partition_the_list:
  "concat (map mg_rows (group_materials_by_location rows)) = rows \<and>
   list_all (\<lambda>b. mg_rows b \<noteq> [] \<and> list_all (\<lambda>r. rm_onBoard r = mg_onBoard b \<and> block_location r = mg_location b) (mg_rows b))
     (group_materials_by_location rows) \<and>
   distinct_adj (map (\<lambda>b. (mg_onBoard b, mg_location b)) (group_materials_by_location rows))"
proof (induction rows rule: rev_induct)
  case Nil
  show ?case by (simp add: group_materials_by_location_def)
next
  case (snoc r rows)
  let ?gs = "group_materials_by_location rows"
  have step: "group_materials_by_location (rows @ [r]) = add_to_blocks ?gs r" by (simp add: group_materials_by_location_def)
  show ?case
  proof (cases "?gs \<noteq> [] \<and> mg_onBoard (last ?gs) = rm_onBoard r \<and> mg_location (last ?gs) = block_location r")
    case True
    then obtain gs b where gs: "?gs = gs @ [b]" by (metis append_butlast_last_id)
    with True have "group_materials_by_location (rows @ [r]) = gs @ [b\<lparr>mg_rows := mg_rows b @ [r]\<rparr>]"
      by (simp add: step add_to_blocks_def)
    with True gs snoc show ?thesis by (simp add: distinct_adj_append_iff)
  next
    case False
    then have "group_materials_by_location (rows @ [r]) = ?gs @ [\<lparr>mg_location = block_location r, mg_onBoard = rm_onBoard r, mg_rows = [r]\<rparr>]"
      by (auto simp: step add_to_blocks_def)
    with False snoc show ?thesis by (auto simp: distinct_adj_append_iff last_map)
  qed
qed

text \<open>
  Further material survives its three controls: for entries with plain names (trimmed, without a comma, none twice),
  taking the list apart into catalogue picks and one line of text and putting the line back gives the same picks followed by the
  same free entries, each with its answer about staying on site.
\<close>

theorem extra_material_roundtrip:
  assumes plain: "list_all plain_entry entries" and once: "distinct (map (\<lambda>e. name_key (em_name e)) entries)"
  shows "set_extra_material_free_text entries (snd (split_extra_material entries cat)) cat =
     fst (split_extra_material entries cat) @ free_entries cat entries"
proof -
  let ?free = "free_entries cat entries" and ?picked = "canonical_entries cat entries"
  let ?prev = "by_key (\<lambda>e. name_key (em_name e)) entries" and ?seen = "map (\<lambda>e. name_key (em_name e)) ?picked"
  from plain have pl: "\<forall>e\<in>set entries. plain_entry e" by (simp add: list_all_iff)
  have free: "\<forall>e\<in>set ?free. e \<in> set entries \<and> plain_entry e \<and> canonical_names cat (name_key (em_name e)) = None"
    using pl by (auto simp: free_entries_def plain_entry_def catalogue_match_iff)
  have seen: "\<exists>x\<in>set entries. catalogue_match cat (em_name x) \<noteq> None \<and> name_key (em_name x) = k" if "k \<in> set ?seen" for k
  proof -
    from that obtain x m where x: "x \<in> set entries" "catalogue_match cat (em_name x) = Some m" "k = name_key m"
      by (auto simp: canonical_entries_def List.map_filter_def)
    with pl have "canonical_names cat (name_key (em_name x)) = Some m" by (simp add: plain_entry_def catalogue_match_iff)
    with x canonical_key show ?thesis by fastforce
  qed
  have fresh: "name_key (em_name e) \<notin> set ?seen" if "e \<in> set ?free" for e
  proof
    assume "name_key (em_name e) \<in> set ?seen"
    then obtain x where x: "x \<in> set entries" "catalogue_match cat (em_name x) \<noteq> None" "name_key (em_name x) = name_key (em_name e)"
      using seen by blast
    have e: "e \<in> set entries" "catalogue_match cat (em_name e) = None" using that by (simp_all add: free_entries_def)
    have "inj_on (\<lambda>e. name_key (em_name e)) (set entries)" using once by (simp add: distinct_map)
    from inj_onD [OF this x(3) x(1) e(1)] x(2) e(2) show False by simp
  qed
  have "snd (foldl (free_entry_step ?prev (canonical_names cat)) (?seen, []) (map em_name ?free)) = [] @ ?free"
  proof (rule free_steps)
    show "\<forall>e\<in>set ?free. plain_entry e \<and> canonical_names cat (name_key (em_name e)) = None
        \<and> name_key (em_name e) \<notin> set ?seen \<and> ?prev (name_key (em_name e)) = Some e"
      using free fresh by_key_distinct [OF once] by blast
    show "distinct (map (\<lambda>e. name_key (em_name e)) ?free)" using once by (simp add: free_entries_def distinct_map_filter)
  qed
  moreover have "filter (\<lambda>n. n \<noteq> []) (map js_trim (split_on CHR '','' (str_join '', '' (map em_name ?free)))) = map em_name ?free"
    using free by (intro trimmed_pieces) (auto simp: plain_entry_def)
  ultimately have "snd (foldl (free_entry_step ?prev (canonical_names cat)) (?seen, []) (split_on CHR '','' (str_join '', '' (map em_name ?free)))) = ?free"
    by (simp only: free_steps_blank [of _ _ _ "split_on _ _"] append_Nil)
  then show ?thesis by (simp add: set_extra_material_free_text_def split_extra_closed [OF pl] Let_def)
qed

lemma extra_material_roundtrip_witness:
  "set_extra_material_free_text [\<lparr>em_name = ''rope'', em_left = True\<rparr>]
     (snd (split_extra_material [\<lparr>em_name = ''rope'', em_left = True\<rparr>] [])) [] = [\<lparr>em_name = ''rope'', em_left = True\<rparr>]"
  using extra_material_roundtrip [of "[\<lparr>em_name = ''rope'', em_left = True\<rparr>]" "[]"]
  by (simp add: plain_entry_def js_trim_def trim_start_def trim_end_def is_space_def free_entries_def catalogue_match_def
      canonical_names_def by_key_def or_null_def split_extra_material_def)

text \<open>A free entry whose name has a comma does not: editing the line cuts it in two and its answer is gone.\<close>

lemma comma_entry_loses_its_answer:
  "set_extra_material_free_text [\<lparr>em_name = ''a,b'', em_left = True\<rparr>]
     (snd (split_extra_material [\<lparr>em_name = ''a,b'', em_left = True\<rparr>] [])) [] =
   [\<lparr>em_name = ''a'', em_left = False\<rparr>, \<lparr>em_name = ''b'', em_left = False\<rparr>]"
  by (simp add: set_extra_material_free_text_def free_entry_step_def js_trim_def trim_start_def trim_end_def is_space_def
      catalogue_match_def canonical_names_def by_key_def or_null_def split_extra_material_def name_key_def js_lower_def
      lower_char_def Let_def)

text \<open>A draft stored before the devices were part of the form breaks the merge.\<close>

lemma old_draft_breaks_the_merge:
  "merge_draft rt \<lparr>ap_isDraft = True, ap_materials = [], ap_vehicles = [], ap_personnel = None, ap_extraPersonnel = None,
       ap_extraMaterials = None, ap_kurzbericht = None, ap_handedOver = None, ap_ownerName = None, ap_ownerPhone = None,
       ap_count = None, ap_updatedAt = None\<rparr>
     (Some (\<lparr>sf_materials = None, sf_vehicles = None, sf_personnel = None, sf_extraPersonnel = None, sf_extraMaterials = None,
       sf_kurzbericht = Some ''x'', sf_handedOver = None, sf_ownerName = None, sf_ownerPhone = None, sf_count = None\<rparr>, None))
   = Inl ''TypeError''"
  by (simp add: merge_draft_def has_content_def store_form_def to_form_data_def js_trim_def trim_start_def trim_end_def
      is_space_def Let_def)

end
