(* ===== verification/StatusWorkflow.thy ===== *)
theory StatusWorkflow
  imports RouteGroups Kanban IncidentActions
begin

text \<open>
  The gates of a status move: \<^verbatim>\<open>useIncidentStatusWorkflow\<close> of
  \<^verbatim>\<open>frontend/components/kanban/incident-status-workflow.tsx\<close>. A card moves first, then the gate of its new
  column asks; cancelling a gate is an undo. A handler reads what its render closed over (\<open>workflow_view\<close>) and
  writes the hook's state; what it asks of the rest of the board is appended to \<open>wf_fx\<close>. The effect that
  fetches the crew's answers runs after every handler (\<open>run_effects\<close>).
\<close>

section \<open>State\<close>

datatype gate_resource = NeedCrew | NeedVehicles | NeedMaterials

datatype gate_kind = GateMissing | GateReturning | GateReko | GateRekoForm | GateRekoAssign | GateCorrection | GateMaterial

record completion_release =
  rl_operation :: ident
  rl_crew :: "string list"
  rl_vehicles :: "string list"

record gate_base =
  gb_operation :: ident
  gb_return :: "incident_status option"
  gb_amWarten :: bool

record open_gate =
  og_kind :: gate_kind
  og_base :: gate_base
  og_release :: "completion_release option"

datatype material_place = Magazin | VorOrt

datatype workflow_fx =
    MoveToTop ident incident_status bool
  | FetchAnswers nat ident
  | WriteDecisions ident "(ident \<times> bool) list"
  | ReleaseFromRoute ident ident
  | ReleaseMaterial ident ident

record workflow =
  wf_gate :: "open_gate option"
  wf_suspended :: "open_gate option"
  wf_disponiert :: "ident option"
  wf_nextStopAfter :: "ident option"
  wf_decisions :: "ident \<rightharpoonup> material_place"
  wf_answers :: "ident \<rightharpoonup> material_place"
  wf_rapportBy :: "string option"
  wf_rapportIsDraft :: bool
  wf_watched :: "ident option"
  wf_fetch :: nat
  wf_fx :: "workflow_fx list"

definition no_workflow :: workflow where
  "no_workflow = \<lparr>wf_gate = None, wf_suspended = None, wf_disponiert = None, wf_nextStopAfter = None, wf_decisions = Map.empty,
     wf_answers = Map.empty, wf_rapportBy = None, wf_rapportIsDraft = False, wf_watched = None, wf_fetch = 0, wf_fx = []\<rparr>"

text \<open>What a render closes over: cards, depot, routes, the routes' resources and how a person is named.\<close>

record workflow_view =
  wv_ops :: "operation list"
  wv_materials :: "material list"
  wv_groups :: "incident_group list"
  wv_resources :: "ident \<Rightarrow> group_resources"
  wv_person :: "crew_member \<Rightarrow> string"

definition workflow_do :: "workflow_fx \<Rightarrow> workflow \<Rightarrow> workflow" where
  "workflow_do e w = w\<lparr>wf_fx := wf_fx w @ [e]\<rparr>"

definition set_gate :: "open_gate option \<Rightarrow> workflow \<Rightarrow> workflow" where
  "set_gate g w = w\<lparr>wf_gate := g\<rparr>"

section \<open>Reading the board\<close>

definition operation_by_id :: "workflow_view \<Rightarrow> ident option \<Rightarrow> operation option" where
  "operation_by_id v i = Option.bind (or_null i) (\<lambda>x. List.find (\<lambda>o1. op_id o1 = x) (wv_ops v))"

definition auftrag_of :: "workflow_view \<Rightarrow> operation \<Rightarrow> incident_group option" where
  "auftrag_of v o1 = find_auftrag_for_stop (wv_groups v) (Some o1)"

definition route_of :: "workflow_view \<Rightarrow> operation \<Rightarrow> group_resources option" where
  "route_of v o1 = map_option (\<lambda>a. wv_resources v (incident_group.ig_id a)) (auftrag_of v o1)"

definition route_count :: "(group_resources \<Rightarrow> 'a list) \<Rightarrow> group_resources option \<Rightarrow> nat" where
  "route_count f r = (case r of None \<Rightarrow> 0 | Some x \<Rightarrow> length (f x))"

definition get_missing_resources :: "workflow_view \<Rightarrow> operation \<Rightarrow> gate_resource list" where
  "get_missing_resources v o1 =
     (let route = route_of v o1
      in (if length (op_crew o1) + route_count gr_personnel route = 0 then [NeedCrew] else [])
         @ (if \<not> op_zuFuss o1 \<and> length (op_vehicles o1) + route_count gr_vehicles route = 0 then [NeedVehicles] else [])
         @ (if length (op_materials o1) + route_count gr_materials route = 0 then [NeedMaterials] else []))"

record resource_coverage =
  rc_crewCount :: nat
  rc_vehicleNames :: "(operation_vehicle + string) list"
  rc_materialCount :: nat

definition get_resource_coverage :: "workflow_view \<Rightarrow> operation \<Rightarrow> resource_coverage" where
  "get_resource_coverage v o1 =
     (let route = route_of v o1
      in \<lparr>rc_crewCount = length (op_crew o1) + route_count gr_personnel route,
          rc_vehicleNames = map Inl (op_vehicles o1) @ (case route of None \<Rightarrow> [] | Some r \<Rightarrow> map (Inr \<circ> gr_name) (gr_vehicles r)),
          rc_materialCount = length (op_materials o1) + route_count gr_materials route\<rparr>)"

definition lacks_returning_vehicle :: "workflow_view \<Rightarrow> operation \<Rightarrow> bool" where
  "lacks_returning_vehicle v o1 = (\<not> op_zuFuss o1 \<and> op_vehicles o1 = [] \<and> route_count gr_vehicles (route_of v o1) = 0)"

definition route_continuation_for :: "workflow_view \<Rightarrow> operation \<Rightarrow> (incident_group \<times> operation) option" where
  "route_continuation_for v o1 =
     (case auftrag_of v o1 of
        None \<Rightarrow> None
      | Some a \<Rightarrow> (case remaining_route_stops (ig_stopIds a) (wv_ops v) (op_id o1) of [] \<Rightarrow> None | s # _ \<Rightarrow> Some (a, s)))"

definition gate_for :: "workflow_view \<Rightarrow> ident \<Rightarrow> incident_status option \<Rightarrow> gate_base" where
  "gate_for v i prev =
     \<lparr>gb_operation = i, gb_return = prev,
      gb_amWarten = (case List.find (\<lambda>o1. op_id o1 = i) (wv_ops v) of Some o1 \<Rightarrow> op_amWarten o1 | None \<Rightarrow> False)\<rparr>"

definition plain_gate :: "gate_kind \<Rightarrow> gate_base \<Rightarrow> open_gate" where
  "plain_gate k b = \<lparr>og_kind = k, og_base = b, og_release = None\<rparr>"

section \<open>Opening a gate\<close>

definition open_dispatch_gate :: "workflow_view \<Rightarrow> gate_base \<Rightarrow> workflow \<Rightarrow> workflow" where
  "open_dispatch_gate v b w =
     (case operation_by_id v (Some (gb_operation b)) of
        None \<Rightarrow> w
      | Some o1 \<Rightarrow>
          if get_missing_resources v o1 \<noteq> [] then set_gate (Some (plain_gate GateMissing b)) w
          else w\<lparr>wf_disponiert := Some (op_id o1)\<rparr>)"

definition trigger_disponiert :: "workflow_view \<Rightarrow> ident \<Rightarrow> incident_status option \<Rightarrow> workflow \<Rightarrow> workflow" where
  "trigger_disponiert v i prev w =
     (case operation_by_id v (Some i) of
        None \<Rightarrow> w
      | Some _ \<Rightarrow>
          (case prev of
             Some p \<Rightarrow>
               if is_backward_transition p Enroute then set_gate (Some (plain_gate GateCorrection (gate_for v i prev))) w
               else open_dispatch_gate v (gate_for v i prev) w
           | None \<Rightarrow> open_dispatch_gate v (gate_for v i prev) w))"

definition trigger_when :: "(operation \<Rightarrow> bool) \<Rightarrow> gate_kind \<Rightarrow> workflow_view \<Rightarrow> ident \<Rightarrow> incident_status option \<Rightarrow> workflow \<Rightarrow> workflow" where
  "trigger_when P k v i prev w =
     (case operation_by_id v (Some i) of
        None \<Rightarrow> w
      | Some o1 \<Rightarrow> if P o1 then set_gate (Some (plain_gate k (gate_for v i prev))) w else w)"

definition trigger_returning_vehicle :: "workflow_view \<Rightarrow> ident \<Rightarrow> incident_status option \<Rightarrow> workflow \<Rightarrow> workflow" where
  "trigger_returning_vehicle v = trigger_when (lacks_returning_vehicle v) GateReturning v"

definition trigger_reko :: "workflow_view \<Rightarrow> ident \<Rightarrow> incident_status option \<Rightarrow> workflow \<Rightarrow> workflow" where
  "trigger_reko v = trigger_when (\<lambda>o1. op_assignedReko o1 = None) GateReko v"

definition trigger_reko_form :: "workflow_view \<Rightarrow> ident \<Rightarrow> incident_status option \<Rightarrow> workflow \<Rightarrow> workflow" where
  "trigger_reko_form v = trigger_when (\<lambda>o1. \<not> op_hasCompletedReko o1) GateRekoForm v"

definition vehicle_text :: "operation_vehicle \<Rightarrow> string" where
  "vehicle_text x = (case or_null (ov_callsign x) of Some c \<Rightarrow> ov_name x @ [CHR '' '', char_of (183 :: nat), CHR '' ''] @ c | None \<Rightarrow> ov_name x)"

definition release_of :: "workflow_view \<Rightarrow> operation \<Rightarrow> completion_release" where
  "release_of v o1 = \<lparr>rl_operation = op_id o1, rl_crew = map (wv_person v) (op_crew o1), rl_vehicles = map vehicle_text (op_vehicles o1)\<rparr>"

definition asks_about_material :: "workflow_view \<Rightarrow> operation \<Rightarrow> bool" where
  "asks_about_material v o1 =
     (if route_continuation_for v o1 \<noteq> None then False
      else case route_of v o1 of Some r \<Rightarrow> gr_materials r \<noteq> [] | None \<Rightarrow> op_materials o1 \<noteq> [])"

definition offers_next_stop :: "workflow_view \<Rightarrow> operation \<Rightarrow> bool" where
  "offers_next_stop v o1 =
     (case auftrag_of v o1 of None \<Rightarrow> False | Some a \<Rightarrow> startable_next_stop (ig_stopIds a) (wv_ops v) (op_id o1) \<noteq> None)"

definition prompt_material_decision :: "workflow_view \<Rightarrow> ident \<Rightarrow> incident_status option \<Rightarrow> workflow \<Rightarrow> workflow" where
  "prompt_material_decision v i prev w =
     (case operation_by_id v (Some i) of
        None \<Rightarrow> w
      | Some o1 \<Rightarrow>
          let rel = release_of v o1
          in if \<not> asks_about_material v o1 \<and> \<not> offers_next_stop v o1 \<and> rl_crew rel = [] \<and> rl_vehicles rel = [] then w
             else set_gate (Some \<lparr>og_kind = GateMaterial, og_base = gate_for v (op_id o1) prev,
                    og_release = (if rl_crew rel \<noteq> [] \<or> rl_vehicles rel \<noteq> [] then Some rel else None)\<rparr>) w)"

definition request_status_change :: "workflow_view \<Rightarrow> ident \<Rightarrow> incident_status \<Rightarrow> workflow \<Rightarrow> workflow" where
  "request_status_change v i target w =
     (case operation_by_id v (Some i) of
        None \<Rightarrow> w
      | Some o1 \<Rightarrow>
          if op_status o1 = target then w
          else
            let prev = Some (op_status o1); w1 = workflow_do (MoveToTop i target False) w
            in (case target of
                  Enroute \<Rightarrow> trigger_disponiert v i prev w1
                | Reko \<Rightarrow> trigger_reko v i prev w1
                | RekoDone \<Rightarrow> trigger_reko_form v i prev w1
                | Returning \<Rightarrow> (trigger_returning_vehicle v i prev w1)\<lparr>wf_nextStopAfter := Some i\<rparr>
                | Complete \<Rightarrow> prompt_material_decision v i prev w1
                | _ \<Rightarrow> w1))"

definition request_completion :: "workflow_view \<Rightarrow> ident \<Rightarrow> workflow \<Rightarrow> workflow" where
  "request_completion v i = request_status_change v i Complete"

text \<open>What the board page asks when a card arrived in a column by a drag.\<close>

definition after_status_move :: "workflow_view \<Rightarrow> ident \<Rightarrow> incident_status \<Rightarrow> incident_status \<Rightarrow> workflow \<Rightarrow> workflow" where
  "after_status_move v i new prev w =
     (case new of
        Enroute \<Rightarrow> trigger_disponiert v i (Some prev) w
      | Reko \<Rightarrow> trigger_reko v i (Some prev) w
      | RekoDone \<Rightarrow> trigger_reko_form v i (Some prev) w
      | Returning \<Rightarrow> trigger_returning_vehicle v i (Some prev) w
      | Complete \<Rightarrow> prompt_material_decision v i (Some prev) w
      | _ \<Rightarrow> w)"

definition next_stop_prompt :: "workflow_view \<Rightarrow> workflow \<Rightarrow> (operation \<times> incident_group \<times> operation) option" where
  "next_stop_prompt v w =
     (case operation_by_id v (wf_nextStopAfter w) of
        None \<Rightarrow> None
      | Some finished \<Rightarrow>
          (case auftrag_of v finished of
             None \<Rightarrow> None
           | Some a \<Rightarrow> map_option (\<lambda>n. (finished, a, n)) (startable_next_stop (ig_stopIds a) (wv_ops v) (op_id finished))))"

section \<open>Leaving a gate\<close>

definition gate_operation :: "workflow_view \<Rightarrow> workflow \<Rightarrow> gate_kind \<Rightarrow> operation option" where
  "gate_operation v w k =
     (case wf_gate w of
        None \<Rightarrow> None
      | Some g \<Rightarrow> if og_kind g = k then operation_by_id v (Some (gb_operation (og_base g))) else None)"

definition revert_gate :: "gate_base \<Rightarrow> workflow \<Rightarrow> workflow" where
  "revert_gate b w = (case gb_return b of None \<Rightarrow> w | Some s \<Rightarrow> workflow_do (MoveToTop (gb_operation b) s (gb_amWarten b)) w)"

definition suspend_gate :: "workflow \<Rightarrow> workflow" where
  "suspend_gate w = w\<lparr>wf_suspended := wf_gate w, wf_gate := None\<rparr>"

definition resume_gate :: "workflow_view \<Rightarrow> workflow \<Rightarrow> workflow" where
  "resume_gate v w =
     (case wf_suspended w of
        None \<Rightarrow> w
      | Some g \<Rightarrow>
          let w1 = w\<lparr>wf_suspended := None\<rparr>
          in if og_kind g = GateReturning
                \<and> (case operation_by_id v (Some (gb_operation (og_base g))) of None \<Rightarrow> True | Some o1 \<Rightarrow> \<not> lacks_returning_vehicle v o1)
             then w1 else set_gate (Some g) w1)"

definition cancel_gate :: "gate_kind \<Rightarrow> workflow \<Rightarrow> workflow" where
  "cancel_gate k w =
     (case wf_gate w of
        None \<Rightarrow> w
      | Some g \<Rightarrow>
          if og_kind g \<noteq> k then w
          else let w1 = set_gate None (revert_gate (og_base g) w)
               in if k = GateReturning then w1\<lparr>wf_nextStopAfter := None\<rparr> else w1)"

definition close_gate :: "gate_kind \<Rightarrow> workflow \<Rightarrow> workflow" where
  "close_gate k w = (if map_option og_kind (wf_gate w) = Some k then set_gate None w else w)"

definition open_disponiert :: "ident \<Rightarrow> workflow \<Rightarrow> workflow" where
  "open_disponiert i w = (close_gate GateMissing w)\<lparr>wf_disponiert := Some i\<rparr>"

definition start_next_stop :: "workflow_view \<Rightarrow> ident \<Rightarrow> workflow \<Rightarrow> workflow" where
  "start_next_stop v i w = request_status_change v i Active (w\<lparr>wf_nextStopAfter := None\<rparr>)"

definition dispatch_after_correction :: "workflow_view \<Rightarrow> workflow \<Rightarrow> workflow" where
  "dispatch_after_correction v w =
     (case wf_gate w of
        None \<Rightarrow> w
      | Some g \<Rightarrow> if og_kind g = GateCorrection then open_dispatch_gate v (og_base g) (set_gate None w) else w)"

definition open_reko_assignment :: "workflow \<Rightarrow> workflow" where
  "open_reko_assignment w =
     (case wf_gate w of
        None \<Rightarrow> w
      | Some g \<Rightarrow> if og_kind g = GateReko then set_gate (Some (g\<lparr>og_kind := GateRekoAssign\<rparr>)) w else w)"

text \<open>The server refused the move of a card: nothing asked about it stays open.\<close>

definition drop_gate_of :: "ident \<Rightarrow> open_gate option \<Rightarrow> open_gate option" where
  "drop_gate_of i g = (if map_option (\<lambda>x. gb_operation (og_base x)) g = Some i then None else g)"

definition status_refused :: "ident \<Rightarrow> workflow \<Rightarrow> workflow" where
  "status_refused i w =
     w\<lparr>wf_gate := drop_gate_of i (wf_gate w), wf_suspended := drop_gate_of i (wf_suspended w),
       wf_disponiert := (if wf_disponiert w = Some i then None else wf_disponiert w),
       wf_nextStopAfter := (if wf_nextStopAfter w = Some i then None else wf_nextStopAfter w)\<rparr>"

section \<open>The completion gate\<close>

definition material_decision_id :: "workflow \<Rightarrow> ident option" where
  "material_decision_id w =
     (case wf_gate w of None \<Rightarrow> None | Some g \<Rightarrow> if og_kind g = GateMaterial then Some (gb_operation (og_base g)) else None)"

record returned_unit =
  ru_material :: "ident option"
  ru_answered :: bool

record material_return =
  mr_returned :: "returned_unit list"
  mr_left :: "ident option list"
  mr_by :: "string option"
  mr_isDraft :: bool

text \<open>The effect: when the incident the gate asks about changes, all answers are dropped and its report is fetched; a fetch
  is known by its number, an effect that ran again has cancelled the ones before.\<close>

definition run_effects :: "workflow \<Rightarrow> workflow" where
  "run_effects w =
     (let i = material_decision_id w
      in if i = wf_watched w then w
         else
           let w1 = w\<lparr>wf_watched := i, wf_fetch := wf_fetch w + 1, wf_decisions := Map.empty, wf_answers := Map.empty,
                      wf_rapportBy := None, wf_rapportIsDraft := False\<rparr>
           in (case or_null i of None \<Rightarrow> w1 | Some x \<Rightarrow> workflow_do (FetchAnswers (wf_fetch w1) x) w1))"

definition answers_of :: "material_return \<Rightarrow> ident \<rightharpoonup> material_place" where
  "answers_of r =
     map_of (rev (List.map_filter (\<lambda>u. if ru_answered u then map_option (\<lambda>m. (m, Magazin)) (or_null (ru_material u)) else None) (mr_returned r)
       @ List.map_filter (\<lambda>u. map_option (\<lambda>m. (m, VorOrt)) (or_null u)) (mr_left r)))"

definition answers_arrive :: "nat \<Rightarrow> material_return \<Rightarrow> workflow \<Rightarrow> workflow" where
  "answers_arrive n r w =
     (if n \<noteq> wf_fetch w then w
      else let a = answers_of r
           in w\<lparr>wf_answers := a, wf_rapportBy := (if a \<noteq> Map.empty then mr_by r else None),
                wf_rapportIsDraft := (a \<noteq> Map.empty \<and> mr_isDraft r)\<rparr>)"

datatype answer_source = FromConsumable | FromRapport

record decision_item =
  di_id :: ident
  di_assignment :: "ident option"
  di_consumable :: bool
  di_answer :: "material_place option"
  di_source :: "answer_source option"

definition decision_item_for :: "workflow_view \<Rightarrow> workflow \<Rightarrow> ident \<times> ident option \<Rightarrow> decision_item" where
  "decision_item_for v w row =
     (let consumable = (case List.find (\<lambda>m. m_id m = fst row) (wv_materials v) of Some m \<Rightarrow> m_consumable m | None \<Rightarrow> False);
          answer = (if consumable then Some Magazin else wf_answers w (fst row))
      in \<lparr>di_id = fst row, di_assignment = snd row, di_consumable = consumable, di_answer = answer,
          di_source = (if consumable then Some FromConsumable else if answer \<noteq> None then Some FromRapport else None)\<rparr>)"

definition completion_continuation :: "workflow_view \<Rightarrow> workflow \<Rightarrow> (incident_group \<times> operation) option" where
  "completion_continuation v w = Option.bind (gate_operation v w GateMaterial) (route_continuation_for v)"

definition completion_next_stop :: "workflow_view \<Rightarrow> workflow \<Rightarrow> operation option" where
  "completion_next_stop v w =
     (case (gate_operation v w GateMaterial, completion_continuation v w) of
        (Some o1, Some (a, _)) \<Rightarrow> startable_next_stop (ig_stopIds a) (wv_ops v) (op_id o1)
      | _ \<Rightarrow> None)"

definition material_decision_items :: "workflow_view \<Rightarrow> workflow \<Rightarrow> decision_item list" where
  "material_decision_items v w =
     (case gate_operation v w GateMaterial of
        None \<Rightarrow> []
      | Some o1 \<Rightarrow>
          if completion_continuation v w \<noteq> None then []
          else map (decision_item_for v w)
            (case route_of v o1 of
               Some r \<Rightarrow> map (\<lambda>m. (gr_resource m, Some (gr_assignment m))) (gr_materials r)
             | None \<Rightarrow> map (\<lambda>m. (m, None)) (op_materials o1)))"

definition material_decision_open_count :: "workflow_view \<Rightarrow> workflow \<Rightarrow> nat" where
  "material_decision_open_count v w = length (filter (\<lambda>d. di_source d = None) (material_decision_items v w))"

definition material_choice :: "workflow \<Rightarrow> decision_item \<Rightarrow> material_place" where
  "material_choice w d =
     (case wf_decisions w (di_id d) of Some p \<Rightarrow> p | None \<Rightarrow> (case di_answer d of Some p \<Rightarrow> p | None \<Rightarrow> Magazin))"

definition release_item :: "workflow_view \<Rightarrow> operation \<Rightarrow> workflow \<Rightarrow> decision_item \<Rightarrow> workflow" where
  "release_item v o1 w d =
     (case (or_null (di_assignment d), auftrag_of v o1) of
        (Some a, Some g) \<Rightarrow> workflow_do (ReleaseFromRoute (incident_group.ig_id g) a) w
      | _ \<Rightarrow> workflow_do (ReleaseMaterial (op_id o1) (di_id d)) w)"

definition resolve_material_decision :: "workflow_view \<Rightarrow> workflow \<Rightarrow> (ident list \<times> ident list) \<times> workflow" where
  "resolve_material_decision v w =
     (case gate_operation v w GateMaterial of
        None \<Rightarrow> (([], []), w)
      | Some o1 \<Rightarrow>
          let items = material_decision_items v w;
              returned = filter (\<lambda>d. material_choice w d = Magazin) items;
              kept = filter (\<lambda>d. material_choice w d = VorOrt) items;
              written = map (\<lambda>d. (di_id d, material_choice w d = VorOrt)) (filter (\<lambda>d. \<not> di_consumable d) items);
              w1 = (if written \<noteq> [] then workflow_do (WriteDecisions (op_id o1) written) w else w)
          in ((map di_id returned, map di_id kept), set_gate None (foldl (release_item v o1) w1 returned)))"

definition decide_material :: "ident \<Rightarrow> material_place \<Rightarrow> workflow \<Rightarrow> workflow" where
  "decide_material m p w = w\<lparr>wf_decisions := (wf_decisions w)(m \<mapsto> p)\<rparr>"

definition reopen_completed :: "ident \<Rightarrow> incident_status \<Rightarrow> workflow \<Rightarrow> workflow" where
  "reopen_completed i s w = workflow_do (MoveToTop i s False) w"

text \<open>The returning-vehicle gate as the dialog shows it: hidden once the card or its \<^verbatim>\<open>groupId\<close>'s route has a vehicle.\<close>

definition effective_returning :: "workflow_view \<Rightarrow> workflow \<Rightarrow> operation option" where
  "effective_returning v w =
     (case gate_operation v w GateReturning of
        None \<Rightarrow> None
      | Some o1 \<Rightarrow>
          if \<not> op_zuFuss o1 \<and> op_vehicles o1 = []
             \<and> (case or_null (op_groupId o1) of None \<Rightarrow> True | Some g \<Rightarrow> gr_vehicles (wv_resources v g) = [])
          then Some o1 else None)"

section \<open>Runs\<close>

datatype workflow_event =
    WfRequest workflow_view ident incident_status
  | WfDragged workflow_view ident incident_status incident_status
  | WfSuspend
  | WfResume workflow_view
  | WfCancel gate_kind
  | WfClose gate_kind
  | WfOpenDisponiert ident
  | WfCloseDisponiert
  | WfCloseNextStop
  | WfStartNext workflow_view ident
  | WfDispatchAfterCorrection workflow_view
  | WfAssignReko
  | WfRefused ident
  | WfDecide ident material_place
  | WfResolve workflow_view
  | WfReopen ident incident_status
  | WfAnswers nat material_return

fun workflow_handle :: "workflow_event \<Rightarrow> workflow \<Rightarrow> workflow" where
  "workflow_handle (WfRequest v i s) w = request_status_change v i s w"
| "workflow_handle (WfDragged v i new prev) w = after_status_move v i new prev w"
| "workflow_handle WfSuspend w = suspend_gate w"
| "workflow_handle (WfResume v) w = resume_gate v w"
| "workflow_handle (WfCancel k) w = cancel_gate k w"
| "workflow_handle (WfClose k) w = close_gate k w"
| "workflow_handle (WfOpenDisponiert i) w = open_disponiert i w"
| "workflow_handle WfCloseDisponiert w = w\<lparr>wf_disponiert := None\<rparr>"
| "workflow_handle WfCloseNextStop w = w\<lparr>wf_nextStopAfter := None\<rparr>"
| "workflow_handle (WfStartNext v i) w = start_next_stop v i w"
| "workflow_handle (WfDispatchAfterCorrection v) w = dispatch_after_correction v w"
| "workflow_handle WfAssignReko w = open_reko_assignment w"
| "workflow_handle (WfRefused i) w = status_refused i w"
| "workflow_handle (WfDecide m p) w = decide_material m p w"
| "workflow_handle (WfResolve v) w = snd (resolve_material_decision v w)"
| "workflow_handle (WfReopen i s) w = reopen_completed i s w"
| "workflow_handle (WfAnswers n r) w = answers_arrive n r w"

definition workflow_step :: "workflow \<Rightarrow> workflow_event \<Rightarrow> workflow" where
  "workflow_step w e = run_effects (workflow_handle e w)"

definition workflow_run :: "workflow_event list \<Rightarrow> workflow" where
  "workflow_run es = foldl workflow_step no_workflow es"

text \<open>What a run asks of the board, carried out there; every request runs on the board as it then is.\<close>

definition carry_out :: "ms \<Rightarrow> workflow_fx \<Rightarrow> board_view \<Rightarrow> board_state \<Rightarrow> board_state" where
  "carry_out now e view s =
     (case e of
        MoveToTop i st keep \<Rightarrow>
          change_status_to_top now view i st (if keep then no_update\<lparr>up_amWarten := Some True\<rparr> else no_update) s
      | _ \<Rightarrow> s)"

fun carry_out_all :: "workflow_fx list \<Rightarrow> (ms \<times> board_view) list \<Rightarrow> board_state \<Rightarrow> board_state" where
  "carry_out_all (e # es) ((now, view) # vs) s = carry_out_all es vs (carry_out now e view s)"
| "carry_out_all es vs s = s"

section \<open>Frames\<close>

lemmas workflow_frames = workflow_do_def set_gate_def

lemmas trigger_defs = trigger_returning_vehicle_def trigger_reko_def trigger_reko_form_def trigger_when_def

lemma workflow_do_simps [simp]:
  "wf_gate (workflow_do e w) = wf_gate w" "wf_suspended (workflow_do e w) = wf_suspended w"
  "wf_disponiert (workflow_do e w) = wf_disponiert w" "wf_nextStopAfter (workflow_do e w) = wf_nextStopAfter w"
  "wf_decisions (workflow_do e w) = wf_decisions w" "wf_answers (workflow_do e w) = wf_answers w"
  "wf_watched (workflow_do e w) = wf_watched w" "wf_fetch (workflow_do e w) = wf_fetch w"
  "wf_fx (workflow_do e w) = wf_fx w @ [e]"
  by (simp_all add: workflow_do_def)

lemma set_gate_simps [simp]:
  "wf_gate (set_gate g w) = g" "wf_suspended (set_gate g w) = wf_suspended w"
  "wf_disponiert (set_gate g w) = wf_disponiert w" "wf_nextStopAfter (set_gate g w) = wf_nextStopAfter w"
  "wf_decisions (set_gate g w) = wf_decisions w" "wf_answers (set_gate g w) = wf_answers w"
  "wf_watched (set_gate g w) = wf_watched w" "wf_fetch (set_gate g w) = wf_fetch w"
  "wf_fx (set_gate g w) = wf_fx w"
  by (simp_all add: set_gate_def)

lemma gate_for_simps [simp]: "gb_operation (gate_for v i p) = i" "gb_return (gate_for v i p) = p"
  by (simp_all add: gate_for_def)

lemma plain_gate_simps [simp]:
  "og_kind (plain_gate k b) = k" "og_base (plain_gate k b) = b" "og_release (plain_gate k b) = None"
  by (simp_all add: plain_gate_def)

lemma operation_by_id_Some: "operation_by_id v (Some i) = Some o1 \<Longrightarrow> op_id o1 = i \<and> i \<noteq> []"
  by (auto simp: operation_by_id_def or_null_def find_Some_iff split: if_splits)

text \<open>The state apart from what asks: a release touches only what is asked of the board.\<close>

lemma release_item_frames [simp]:
  "wf_gate (release_item v o1 w d) = wf_gate w" "wf_suspended (release_item v o1 w d) = wf_suspended w"
  "wf_disponiert (release_item v o1 w d) = wf_disponiert w" "wf_watched (release_item v o1 w d) = wf_watched w"
  "wf_fetch (release_item v o1 w d) = wf_fetch w" "wf_nextStopAfter (release_item v o1 w d) = wf_nextStopAfter w"
  by (simp_all add: release_item_def split: option.splits)

lemma release_all_frames [simp]:
  "wf_gate (foldl (release_item v o1) w ds) = wf_gate w"
  "wf_suspended (foldl (release_item v o1) w ds) = wf_suspended w"
  "wf_disponiert (foldl (release_item v o1) w ds) = wf_disponiert w"
  "wf_watched (foldl (release_item v o1) w ds) = wf_watched w"
  "wf_fetch (foldl (release_item v o1) w ds) = wf_fetch w"
  "wf_nextStopAfter (foldl (release_item v o1) w ds) = wf_nextStopAfter w"
  by (induction ds arbitrary: w) simp_all

definition release_of_item :: "workflow_view \<Rightarrow> operation \<Rightarrow> decision_item \<Rightarrow> workflow_fx" where
  "release_of_item v o1 d =
     (case (or_null (di_assignment d), auftrag_of v o1) of
        (Some a, Some g) \<Rightarrow> ReleaseFromRoute (incident_group.ig_id g) a
      | _ \<Rightarrow> ReleaseMaterial (op_id o1) (di_id d))"

lemma release_all_fx [simp]:
  "wf_fx (foldl (release_item v o1) w ds) = wf_fx w @ map (release_of_item v o1) ds"
  by (induction ds arbitrary: w)
    (simp_all add: release_item_def release_of_item_def split: option.splits)

lemma run_effects_frames [simp]:
  "wf_gate (run_effects w) = wf_gate w" "wf_suspended (run_effects w) = wf_suspended w"
  "wf_disponiert (run_effects w) = wf_disponiert w" "wf_nextStopAfter (run_effects w) = wf_nextStopAfter w"
  by (simp_all add: run_effects_def Let_def split: option.split)

section \<open>Well-formed gates\<close>

text \<open>What every gate promises: a correction knows the column the card came back from, and only the completion gate
  carries a release, that of its own card.\<close>

definition gate_ok :: "open_gate \<Rightarrow> bool" where
  "gate_ok g \<longleftrightarrow>
     (og_kind g = GateCorrection \<longrightarrow> (\<exists>s. gb_return (og_base g) = Some s \<and> Enroute < s))
     \<and> (\<forall>r. og_release g = Some r \<longrightarrow>
          og_kind g = GateMaterial \<and> rl_operation r = gb_operation (og_base g) \<and> (rl_crew r \<noteq> [] \<or> rl_vehicles r \<noteq> []))"

definition gates_ok :: "workflow \<Rightarrow> bool" where
  "gates_ok w \<longleftrightarrow> pred_option gate_ok (wf_gate w) \<and> pred_option gate_ok (wf_suspended w)"

lemma gate_ok_plain [simp]: "k \<noteq> GateCorrection \<Longrightarrow> gate_ok (plain_gate k b)"
  by (simp add: gate_ok_def plain_gate_def)

lemma gates_ok_frames [simp]:
  "gates_ok (workflow_do e w) = gates_ok w" "gates_ok (run_effects w) = gates_ok w"
  "gates_ok (w\<lparr>wf_disponiert := d\<rparr>) = gates_ok w" "gates_ok (w\<lparr>wf_nextStopAfter := n\<rparr>) = gates_ok w"
  "gates_ok (set_gate None w) = pred_option gate_ok (wf_suspended w)"
  "gates_ok (set_gate (Some g) w) = (gate_ok g \<and> pred_option gate_ok (wf_suspended w))"
  by (simp_all add: gates_ok_def)

lemma gates_ok_suspended: "gates_ok w \<Longrightarrow> pred_option gate_ok (wf_suspended w)"
  by (simp add: gates_ok_def)

lemma gates_ok_dispatch: "gates_ok w \<Longrightarrow> gates_ok (open_dispatch_gate v b w)"
  by (auto simp: open_dispatch_gate_def gates_ok_suspended split: option.split)

lemma gate_ok_correction:
  "is_backward_transition p Enroute \<Longrightarrow> gate_ok (plain_gate GateCorrection (gate_for v i (Some p)))"
  by (simp add: gate_ok_def backward_is_the_board_order)

lemma gates_ok_trigger:
  "gates_ok w \<Longrightarrow> gates_ok (trigger_disponiert v i prev w)"
  "gates_ok w \<Longrightarrow> k \<noteq> GateCorrection \<Longrightarrow> gates_ok (trigger_when P k v i prev w)"
  by (auto simp: trigger_disponiert_def trigger_when_def gates_ok_dispatch gates_ok_suspended gate_ok_correction
      split: option.splits)

lemma gates_ok_prompt: "gates_ok w \<Longrightarrow> gates_ok (prompt_material_decision v i prev w)"
  by (auto simp: prompt_material_decision_def Let_def gates_ok_suspended gate_ok_def release_of_def split: option.splits)

lemmas gates_ok_triggers = gates_ok_trigger gates_ok_prompt

lemma gates_ok_after: "gates_ok w \<Longrightarrow> gates_ok (after_status_move v i new prev w)"
  by (cases new) (auto simp: after_status_move_def trigger_returning_vehicle_def trigger_reko_def trigger_reko_form_def
      intro: gates_ok_triggers)

lemma request_is_move:
  "request_status_change v i t w =
     (case operation_by_id v (Some i) of
        None \<Rightarrow> w
      | Some o1 \<Rightarrow>
          if op_status o1 = t then w
          else (let w1 = after_status_move v i t (op_status o1) (workflow_do (MoveToTop i t False) w)
                in if t = Returning then w1\<lparr>wf_nextStopAfter := Some i\<rparr> else w1))"
  by (cases t) (simp_all add: request_status_change_def after_status_move_def Let_def split: option.split)

lemma gates_ok_request: "gates_ok w \<Longrightarrow> gates_ok (request_status_change v i t w)"
  by (simp add: request_is_move Let_def gates_ok_after split: option.split)

lemma gates_ok_resolve: "gates_ok w \<Longrightarrow> gates_ok (snd (resolve_material_decision v w))"
  by (simp add: resolve_material_decision_def Let_def gates_ok_suspended split: option.split)

lemma gates_ok_leave:
  "gates_ok w \<Longrightarrow> gates_ok (suspend_gate w)" "gates_ok w \<Longrightarrow> gates_ok (resume_gate v w)"
  "gates_ok w \<Longrightarrow> gates_ok (cancel_gate k w)" "gates_ok w \<Longrightarrow> gates_ok (close_gate k w)"
  "gates_ok w \<Longrightarrow> gates_ok (open_reko_assignment w)" "gates_ok w \<Longrightarrow> gates_ok (status_refused i w)"
  "gates_ok w \<Longrightarrow> gates_ok (answers_arrive n r w)" "gates_ok w \<Longrightarrow> gates_ok (decide_material m p w)"
  by (auto simp: suspend_gate_def resume_gate_def cancel_gate_def revert_gate_def close_gate_def open_reko_assignment_def
      status_refused_def drop_gate_of_def answers_arrive_def decide_material_def gates_ok_def gate_ok_def Let_def
      split: option.splits)

lemma gates_ok_correction: "gates_ok w \<Longrightarrow> gates_ok (dispatch_after_correction v w)"
  by (auto simp: dispatch_after_correction_def gates_ok_suspended intro!: gates_ok_dispatch split: option.splits)

lemma gates_ok_handle: "gates_ok w \<Longrightarrow> gates_ok (workflow_handle e w)"
  by (cases e) (auto simp: start_next_stop_def open_disponiert_def reopen_completed_def
      intro!: gates_ok_request gates_ok_after gates_ok_resolve gates_ok_leave gates_ok_correction)

interpretation gates: event_machine workflow_step gates_ok no_workflow
  by unfold_locales (simp add: gates_ok_def no_workflow_def, simp add: workflow_step_def gates_ok_handle)

lemma gates_ok_run: "gates_ok (workflow_run es)"
  unfolding workflow_run_def by (rule gates.inv_run)

section \<open>The crew's answers\<close>

fun is_fetch :: "workflow_fx \<Rightarrow> bool" where
  "is_fetch (FetchAnswers n i) = True"
| "is_fetch _ = False"

definition fetch_part :: "workflow \<Rightarrow> ident option \<times> nat \<times> workflow_fx list" where
  "fetch_part w = (wf_watched w, wf_fetch w, filter is_fetch (wf_fx w))"

lemma fetch_part_frames [simp]:
  "fetch_part (set_gate g w) = fetch_part w" "\<not> is_fetch e \<Longrightarrow> fetch_part (workflow_do e w) = fetch_part w"
  "fetch_part (w\<lparr>wf_gate := g\<rparr>) = fetch_part w" "fetch_part (w\<lparr>wf_suspended := g\<rparr>) = fetch_part w"
  "fetch_part (w\<lparr>wf_disponiert := d\<rparr>) = fetch_part w" "fetch_part (w\<lparr>wf_nextStopAfter := d\<rparr>) = fetch_part w"
  "fetch_part (w\<lparr>wf_decisions := ds\<rparr>) = fetch_part w" "fetch_part (w\<lparr>wf_answers := ds\<rparr>) = fetch_part w"
  "fetch_part (w\<lparr>wf_rapportBy := x\<rparr>) = fetch_part w" "fetch_part (w\<lparr>wf_rapportIsDraft := y\<rparr>) = fetch_part w"
  by (simp_all add: fetch_part_def)

lemma fetch_part_triggers [simp]:
  "fetch_part (open_dispatch_gate v b w) = fetch_part w" "fetch_part (trigger_disponiert v i prev w) = fetch_part w"
  "fetch_part (trigger_when P k v i prev w) = fetch_part w" "fetch_part (prompt_material_decision v i prev w) = fetch_part w"
  by (simp_all add: open_dispatch_gate_def trigger_disponiert_def trigger_when_def prompt_material_decision_def Let_def
      split: option.split)

lemma fetch_part_after [simp]: "fetch_part (after_status_move v i new prev w) = fetch_part w"
  by (cases new) (simp_all add: after_status_move_def trigger_returning_vehicle_def trigger_reko_def trigger_reko_form_def)

lemma fetch_part_request [simp]: "fetch_part (request_status_change v i t w) = fetch_part w"
  by (simp add: request_is_move Let_def split: option.split)

lemma not_fetch_release [simp]: "\<not> is_fetch (release_of_item v o1 d)"
  by (simp add: release_of_item_def split: option.split)

lemma fetch_part_released [simp]: "fetch_part (foldl (release_item v o1) w ds) = fetch_part w"
  by (simp add: fetch_part_def filter_empty_conv)

lemma fetch_part_handle: "fetch_part (workflow_handle e w) = fetch_part w"
  by (cases e) (simp_all add: start_next_stop_def open_disponiert_def reopen_completed_def suspend_gate_def
      resume_gate_def cancel_gate_def revert_gate_def close_gate_def open_reko_assignment_def status_refused_def
      answers_arrive_def decide_material_def dispatch_after_correction_def resolve_material_decision_def Let_def
      split: option.split)

definition answers_ok :: "workflow \<Rightarrow> bool" where
  "answers_ok w \<longleftrightarrow> wf_watched w = material_decision_id w
     \<and> (\<forall>n i. FetchAnswers n i \<in> set (wf_fx w) \<longrightarrow> n \<le> wf_fetch w \<and> (n = wf_fetch w \<longrightarrow> wf_watched w = Some i))"

lemma fetches_handle: "FetchAnswers n i \<in> set (wf_fx (workflow_handle e w)) \<longleftrightarrow> FetchAnswers n i \<in> set (wf_fx w)"
proof -
  have "filter is_fetch (wf_fx (workflow_handle e w)) = filter is_fetch (wf_fx w)"
    using fetch_part_handle [of e w] by (simp only: fetch_part_def prod.inject)
  moreover have "FetchAnswers n i \<in> set (filter is_fetch xs) \<longleftrightarrow> FetchAnswers n i \<in> set xs" for xs by simp
  ultimately show ?thesis by metis
qed

lemma watched_handle:
  "wf_watched (workflow_handle e w) = wf_watched w" "wf_fetch (workflow_handle e w) = wf_fetch w"
  using fetch_part_handle [of e w] by (simp_all add: fetch_part_def)

lemma answers_ok_effects:
  assumes seen: "\<And>n i. FetchAnswers n i \<in> set (wf_fx w) \<Longrightarrow> n \<le> wf_fetch w"
    and now: "\<And>i. FetchAnswers (wf_fetch w) i \<in> set (wf_fx w) \<Longrightarrow> wf_watched w = Some i"
  shows "answers_ok (run_effects w)"
proof (cases "material_decision_id w = wf_watched w")
  case True
  with assms show ?thesis by (auto simp: run_effects_def answers_ok_def)
next
  case False
  have fresh: "FetchAnswers (Suc (wf_fetch w)) i \<notin> set (wf_fx w)" for i using seen by fastforce
  from False seen show ?thesis
    by (auto simp: run_effects_def answers_ok_def Let_def material_decision_id_def or_null_def fresh le_SucI
        split: option.split)
qed

lemma answers_ok_step:
  assumes "answers_ok w"
  shows "answers_ok (workflow_step w e)"
  unfolding workflow_step_def
  by (rule answers_ok_effects) (use assms in \<open>auto simp: answers_ok_def fetches_handle watched_handle\<close>)

interpretation answers: event_machine workflow_step answers_ok no_workflow
  by unfold_locales
    (simp add: answers_ok_def no_workflow_def material_decision_id_def, rule answers_ok_step)

section \<open>Announcements\<close>

lemma dispatch_announces:
  assumes "wf_disponiert (open_dispatch_gate v b w) = Some i" and "wf_disponiert w \<noteq> Some i"
  shows "gb_operation b = i \<and> (\<exists>o1. operation_by_id v (Some i) = Some o1 \<and> get_missing_resources v o1 = [])"
  using assms operation_by_id_Some [of v "gb_operation b"]
  by (auto simp: open_dispatch_gate_def split: option.splits if_splits)

lemma trigger_announces:
  assumes "wf_disponiert (trigger_disponiert v j (Some p) w) = Some i" and "wf_disponiert w \<noteq> Some i"
  shows "j = i \<and> p \<le> Enroute \<and> (\<exists>o1. operation_by_id v (Some i) = Some o1 \<and> get_missing_resources v o1 = [])"
  using assms dispatch_announces [of v "gate_for v j (Some p)" w i]
  by (auto simp: trigger_disponiert_def backward_is_the_board_order not_less split: option.splits if_splits)

lemma disponiert_prompt [simp]: "wf_disponiert (prompt_material_decision v i prev w) = wf_disponiert w"
  "wf_disponiert (trigger_when P k v i prev w) = wf_disponiert w"
  by (simp_all add: prompt_material_decision_def trigger_when_def Let_def split: option.split)

lemma after_announces:
  assumes "wf_disponiert (after_status_move v j new p w) = Some i" and "wf_disponiert w \<noteq> Some i"
  shows "new = Enroute \<and> j = i \<and> p \<le> Enroute \<and> (\<exists>o1. operation_by_id v (Some i) = Some o1 \<and> get_missing_resources v o1 = [])"
  using assms trigger_announces [of v j p w i]
  by (cases new) (auto simp: after_status_move_def trigger_returning_vehicle_def trigger_reko_def trigger_reko_form_def)

lemma request_announces:
  assumes "wf_disponiert (request_status_change v j t w) = Some i" and "wf_disponiert w \<noteq> Some i"
  shows "t = Enroute \<and> j = i \<and> (\<exists>o1. operation_by_id v (Some i) = Some o1 \<and> op_status o1 < Enroute \<and> get_missing_resources v o1 = [])"
  using assms after_announces [of v j t _ "workflow_do (MoveToTop j t False) w" i]
  by (fastforce simp: request_is_move Let_def order.strict_iff_order split: option.splits if_splits)

section \<open>Undo on the board\<close>

definition card_state :: "ident \<Rightarrow> board_state \<Rightarrow> (incident_status \<times> bool) option" where
  "card_state i s = map_option (\<lambda>c. (op_status c, op_amWarten c)) (List.find (\<lambda>c. op_id c = i) (bd_ops s))"

lemma reorder_ops [simp]: "bd_ops (reorder_column view ids s) = bd_ops s"
  by (simp add: reorder_column_def reorder_next_def Let_def log_fx_def arm_cooldown_def split: option.split)

lemma card_state_top:
  "card_state i (change_status_to_top now view i st extra s) =
     card_state i (update_operation now view i (merge_update (no_update\<lparr>up_status := Some st\<rparr>) extra) None s)"
  by (auto simp: change_status_to_top_def card_state_def Let_def split: option.split dest: find_SomeD)

lemma clears_after_normalize [simp]: "clears_am_warten (normalize_update u) = clears_am_warten u"
  "up_status (normalize_update u) = up_status u" "up_amWarten (normalize_update u) = up_amWarten u"
  by (simp_all add: clears_am_warten_def normalize_update_def fun_eq_iff split: option.split)

lemma carried_move:
  assumes "bv_ops view = bd_ops s" and "List.find (\<lambda>c. op_id c = i) (bd_ops s) = Some o1"
  shows "card_state i (carry_out now (MoveToTop i st keep) view s) =
           Some (st, keep \<or> op_amWarten o1 \<and> st \<notin> set am_warten_clearing_statuses)"
proof (cases keep)
  case True
  with assms show ?thesis
    by (simp add: carry_out_def card_state_top)
      (simp add: card_state_def update_operation_ops card_update.find_hit optimistic_card_def Let_def merge_update_def
        no_update_def clears_am_warten_def)
next
  case False
  with assms show ?thesis
    by (simp add: carry_out_def card_state_top)
      (auto simp: card_state_def update_operation_ops card_update.find_hit optimistic_card_def Let_def merge_update_def
        no_update_def clears_am_warten_def)
qed

section \<open>What a request leaves behind\<close>

lemma trigger_fx [simp]:
  "wf_fx (open_dispatch_gate v b w) = wf_fx w" "wf_fx (trigger_disponiert v i prev w) = wf_fx w"
  "wf_fx (trigger_when P k v i prev w) = wf_fx w" "wf_fx (prompt_material_decision v i prev w) = wf_fx w"
  by (simp_all add: open_dispatch_gate_def trigger_disponiert_def trigger_when_def prompt_material_decision_def Let_def
      split: option.split)

lemma after_fx [simp]: "wf_fx (after_status_move v i new prev w) = wf_fx w"
  by (cases new) (simp_all add: after_status_move_def trigger_returning_vehicle_def trigger_reko_def trigger_reko_form_def)

lemma request_fx:
  assumes "operation_by_id v (Some i) = Some o1" and "op_status o1 \<noteq> t"
  shows "wf_fx (request_status_change v i t w) = wf_fx w @ [MoveToTop i t False]"
  using assms by (simp add: request_is_move Let_def)

lemma dispatch_gate:
  "wf_gate w = None \<Longrightarrow> wf_gate (open_dispatch_gate v b w) = Some g \<Longrightarrow> og_base g = b"
  by (auto simp: open_dispatch_gate_def split: option.splits if_splits)

lemma after_gate:
  assumes "wf_gate w = None" and "wf_gate (after_status_move v i new prev w) = Some g"
  shows "og_base g = gate_for v i (Some prev)"
  using assms dispatch_gate [of w v "gate_for v i (Some prev)" g] operation_by_id_Some [of v i]
  by (cases new)
    (auto simp: after_status_move_def trigger_defs trigger_disponiert_def prompt_material_decision_def Let_def
      split: option.splits if_splits)

lemma request_gate:
  assumes "operation_by_id v (Some i) = Some o1" and "op_status o1 \<noteq> t"
    and "wf_gate w = None" and "wf_gate (request_status_change v i t w) = Some g"
  shows "og_base g = \<lparr>gb_operation = i, gb_return = Some (op_status o1), gb_amWarten = op_amWarten o1\<rparr>"
proof -
  from assms have "og_base g = gate_for v i (Some (op_status o1))"
    by (intro after_gate [of "workflow_do (MoveToTop i t False) w" v i t])
      (auto simp: request_is_move Let_def split: if_splits)
  with assms(1) show ?thesis by (auto simp: gate_for_def operation_by_id_def or_null_def split: if_splits)
qed

lemma cancel_own_gate:
  "wf_gate w = Some g \<Longrightarrow> gb_return (og_base g) = Some s \<Longrightarrow>
     wf_fx (cancel_gate (og_kind g) w) = wf_fx w @ [MoveToTop (gb_operation (og_base g)) s (gb_amWarten (og_base g))]
     \<and> wf_gate (cancel_gate (og_kind g) w) = None"
  by (simp add: cancel_gate_def revert_gate_def Let_def)

definition example_view :: "operation list \<Rightarrow> workflow_view" where
  "example_view ops = \<lparr>wv_ops = ops, wv_materials = [], wv_groups = [],
     wv_resources = (\<lambda>_. \<lparr>gr_vehicles = [], gr_personnel = [], gr_materials = []\<rparr>), wv_person = cm_name\<rparr>"

lemma example_view_simps [simp]:
  "wv_ops (example_view ops) = ops" "auftrag_of (example_view ops) o1 = None"
  "route_of (example_view ops) o1 = None" "wv_materials (example_view ops) = []" "wv_person (example_view ops) = cm_name"
  by (simp_all add: example_view_def auftrag_of_def route_of_def find_auftrag_for_stop_def split: option.split)

lemma example_card:
  "i \<noteq> [] \<Longrightarrow> op_id o1 = i \<Longrightarrow> operation_by_id (example_view (o1 # os)) (Some i) = Some o1"
  by (simp add: operation_by_id_def or_null_def)

section \<open>Properties\<close>

text \<open>
  C10. Cancelling the gate that a status request opened undoes the request: carried out on the board, the
  two moves the hook asks for leave the card in the column it came from and waiting exactly if it waited before, although the first
  move cleared that flag; and the gate is closed.
\<close>

theorem cancelling_a_gate_undoes_the_move:
  assumes "operation_by_id v (Some i) = Some o1" and "op_status o1 \<noteq> t"
    and "wf_gate w = None" and "wf_fx w = []" and "wf_gate (request_status_change v i t w) = Some g"
    and "bd_ops s = wv_ops v" and "bv_ops view1 = bd_ops s" and "bv_ops view2 = bd_ops (carry_out now1 (MoveToTop i t False) view1 s)"
    and "w' = cancel_gate (og_kind g) (request_status_change v i t w)"
  shows "wf_gate w' = None
         \<and> card_state i (carry_out_all (wf_fx w') [(now1, view1), (now2, view2)] s) = Some (op_status o1, op_amWarten o1)"
proof -
  note base = request_gate [OF assms(1,2,3,5)]
  have fx: "wf_fx w' = [MoveToTop i t False, MoveToTop i (op_status o1) (op_amWarten o1)]" and closed: "wf_gate w' = None"
    using cancel_own_gate [OF assms(5)] base request_fx [OF assms(1,2)] assms(4) by (simp_all add: assms(9))
  let ?s1 = "carry_out now1 (MoveToTop i t False) view1 s"
  have found: "List.find (\<lambda>c. op_id c = i) (bd_ops s) = Some o1"
    using assms(1,6) by (auto simp: operation_by_id_def or_null_def split: if_splits)
  from carried_move [OF assms(7) found, of now1 t False]
  obtain o2 where o2: "List.find (\<lambda>c. op_id c = i) (bd_ops ?s1) = Some o2"
    "op_amWarten o2 \<longleftrightarrow> op_amWarten o1 \<and> t \<notin> set am_warten_clearing_statuses"
    by (auto simp: card_state_def)
  from carried_move [OF assms(8) o2(1), of now2 "op_status o1" "op_amWarten o1"] o2(2)
  show ?thesis by (auto simp: fx closed)
qed

theorem cancelling_a_gate_undoes_the_move_witness:
  "\<exists>s. card_state ''a'' (carry_out_all
      (wf_fx (cancel_gate GateMissing (request_status_change (example_view [(blank_card ''a'' Incoming)\<lparr>op_amWarten := True\<rparr>]) ''a'' Enroute no_workflow)))
      [(1, view_on [(blank_card ''a'' Incoming)\<lparr>op_amWarten := True\<rparr>]), (2, view_on s)]
      (empty_board\<lparr>bd_ops := [(blank_card ''a'' Incoming)\<lparr>op_amWarten := True\<rparr>]\<rparr>)) = Some (Incoming, True)"
proof -
  let ?c = "(blank_card ''a'' Incoming)\<lparr>op_amWarten := True\<rparr>"
  let ?v = "example_view [?c]"
  let ?b = "empty_board\<lparr>bd_ops := [?c]\<rparr>"
  let ?s1 = "bd_ops (carry_out 1 (MoveToTop ''a'' Enroute False) (view_on [?c]) ?b)"
  have o: "operation_by_id ?v (Some ''a'') = Some ?c"
    by (rule example_card) simp_all
  have g: "wf_gate (request_status_change ?v ''a'' Enroute no_workflow) = Some (plain_gate GateMissing (gate_for ?v ''a'' (Some Incoming)))"
    by (simp add: request_status_change_def o trigger_disponiert_def open_dispatch_gate_def backward_is_the_board_order
        less_incident_status_def get_missing_resources_def route_count_def)
  from cancelling_a_gate_undoes_the_move [OF o _ _ _ g, of ?b "view_on [?c]" "view_on ?s1" 1 _ 2]
  have "card_state ''a'' (carry_out_all
      (wf_fx (cancel_gate GateMissing (request_status_change ?v ''a'' Enroute no_workflow)))
      [(1, view_on [?c]), (2, view_on ?s1)] ?b) = Some (Incoming, True)"
    by (simp add: no_workflow_def)
  then show ?thesis by blast
qed

text \<open>
  C28. Whatever happens to the hook, its gates stay well formed, the open one and the parked one: a status
  correction knows the column the card was in, a later one than Disponiert, and only the completion gate carries a release, a
  non-empty one of the very card it asks about.
\<close>

theorem gates_are_well_formed: "gates_ok (workflow_run es)"
  by (rule gates_ok_run)

text \<open>
  C21. The crew's answers only ever reach the gate they were fetched for: whenever an answer of the server
  changes the hook's state, the completion gate is open, for the incident of that fetch.
\<close>

theorem answers_reach_their_own_gate:
  assumes "w = workflow_run es" and "FetchAnswers n i \<in> set (wf_fx w)" and "answers_arrive n r w \<noteq> w"
  shows "\<exists>g. wf_gate w = Some g \<and> og_kind g = GateMaterial \<and> gb_operation (og_base g) = i"
proof -
  have "answers_ok w" unfolding assms(1) workflow_run_def by (rule answers.inv_run)
  moreover have "n = wf_fetch w" using assms(3) by (auto simp: answers_arrive_def split: if_splits)
  ultimately have "material_decision_id w = Some i" using assms(2) by (auto simp: answers_ok_def)
  then show ?thesis by (auto simp: material_decision_id_def split: option.splits if_splits)
qed

theorem answers_reach_their_own_gate_witness:
  "let w = workflow_run [WfRequest (example_view [(blank_card ''a'' Active)\<lparr>op_materials := [''m'']\<rparr>]) ''a'' Complete]
   in \<exists>g. wf_gate w = Some g \<and> gb_operation (og_base g) = ''a''"
proof -
  let ?c = "(blank_card ''a'' Active)\<lparr>op_materials := [''m'']\<rparr>"
  let ?v = "example_view [?c]"
  let ?w = "workflow_run [WfRequest ?v ''a'' Complete]"
  have o: "operation_by_id ?v (Some ''a'') = Some ?c" by (rule example_card) simp_all
  have w: "?w = run_effects (prompt_material_decision ?v ''a'' (Some Active) (workflow_do (MoveToTop ''a'' Complete False) no_workflow))"
    by (simp add: workflow_run_def workflow_step_def request_status_change_def o)
  have f: "FetchAnswers 1 ''a'' \<in> set (wf_fx ?w)" "wf_fetch ?w = 1" "wf_answers ?w = Map.empty"
    unfolding w by (simp_all add: prompt_material_decision_def o asks_about_material_def route_continuation_for_def
        release_of_def run_effects_def material_decision_id_def no_workflow_def or_null_def workflow_do_def)
  have "wf_answers (answers_arrive 1 \<lparr>mr_returned = [], mr_left = [Some ''m''], mr_by = None, mr_isDraft = False\<rparr> ?w) ''m'' = Some VorOrt"
    by (simp add: answers_arrive_def f(2) answers_of_def List.map_filter_def or_null_def Let_def)
  with f(3) have "answers_arrive 1 \<lparr>mr_returned = [], mr_left = [Some ''m''], mr_by = None, mr_isDraft = False\<rparr> ?w \<noteq> ?w" by auto
  from answers_reach_their_own_gate [OF refl f(1) this] show ?thesis by (auto simp: Let_def)
qed

text \<open>
  C18. Nobody is announced by a correction: the announcement dialog of a card is opened only by the
  operator's own press, or where nothing is missing on it, by a move into Disponiert that does not go backwards, or by the operator's
  answer to the correction gate of that card.
\<close>

theorem announcement_needs_a_disposition:
  assumes "wf_disponiert (workflow_step w e) = Some i" and "wf_disponiert w \<noteq> Some i"
  shows "e = WfOpenDisponiert i \<or>
     (\<exists>v o1. operation_by_id v (Some i) = Some o1 \<and> get_missing_resources v o1 = [] \<and>
        (e = WfRequest v i Enroute \<and> op_status o1 < Enroute
         \<or> (\<exists>p. e = WfDragged v i Enroute p \<and> p \<le> Enroute)
         \<or> e = WfDispatchAfterCorrection v \<and> (\<exists>g. wf_gate w = Some g \<and> og_kind g = GateCorrection \<and> gb_operation (og_base g) = i)))"
proof -
  from assms(1) have h: "wf_disponiert (workflow_handle e w) = Some i" by (simp add: workflow_step_def)
  show ?thesis
  proof (cases e)
    case (WfRequest v j t)
    with h request_announces [of v j t w i] assms(2) show ?thesis by auto
  next
    case (WfDragged v j new p)
    with h after_announces [of v j new p w i] assms(2) show ?thesis by auto
  next
    case (WfStartNext v j)
    with h request_announces [of v j Active "w\<lparr>wf_nextStopAfter := None\<rparr>" i] assms(2)
    show ?thesis by (auto simp: start_next_stop_def)
  next
    case (WfDispatchAfterCorrection v)
    with h assms(2) obtain g where g: "wf_gate w = Some g" "og_kind g = GateCorrection"
      "wf_disponiert (open_dispatch_gate v (og_base g) (set_gate None w)) = Some i"
      by (auto simp: dispatch_after_correction_def split: option.splits if_splits)
    with dispatch_announces [OF g(3)] assms(2) WfDispatchAfterCorrection show ?thesis by auto
  qed (use h assms(2) in \<open>auto simp: suspend_gate_def resume_gate_def cancel_gate_def revert_gate_def close_gate_def
      open_disponiert_def open_reko_assignment_def status_refused_def answers_arrive_def decide_material_def
      reopen_completed_def resolve_material_decision_def Let_def split: option.splits if_splits\<close>)
qed

theorem announcement_needs_a_disposition_witness:
  "wf_disponiert (workflow_step no_workflow (WfDragged (example_view [(blank_card ''a'' Enroute)\<lparr>op_zuFuss := True, op_materials := [''m''],
       op_crew := [\<lparr>cm_personnelId = ''p'', cm_assignmentId = None, cm_name = ''P''\<rparr>]\<rparr>]) ''a'' Enroute Incoming)) = Some ''a'' \<and>
   Incoming \<le> Enroute"
proof -
  let ?c = "(blank_card ''a'' Enroute)\<lparr>op_zuFuss := True, op_materials := [''m''],
       op_crew := [\<lparr>cm_personnelId = ''p'', cm_assignmentId = None, cm_name = ''P''\<rparr>]\<rparr>"
  let ?e = "WfDragged (example_view [?c]) ''a'' Enroute Incoming"
  have o: "operation_by_id (example_view [?c]) (Some ''a'') = Some ?c" by (rule example_card) simp_all
  have d: "wf_disponiert (workflow_step no_workflow ?e) = Some ''a''"
    by (simp add: workflow_step_def after_status_move_def trigger_disponiert_def o open_dispatch_gate_def
        backward_is_the_board_order less_incident_status_def get_missing_resources_def route_count_def)
  with announcement_needs_a_disposition [OF d] show ?thesis by (auto simp: no_workflow_def)
qed

text \<open>
  The completion gate asks for what it was opened for: right after it opens, it lists material to decide
  exactly if that was a reason to open it, offers a next stop exactly if that was one, the stop which the prompt after a finished
  stop would name, and one of the two or a release is there; when it stays shut, none of the three applies.
\<close>

theorem completion_gate_says_why_it_opened:
  assumes "operation_by_id v (Some i) = Some o1" and "wf_gate w = None" and "w' = prompt_material_decision v i prev w"
  shows "case wf_gate w' of
      None \<Rightarrow> \<not> asks_about_material v o1 \<and> \<not> offers_next_stop v o1 \<and> op_crew o1 = [] \<and> op_vehicles o1 = []
    | Some g \<Rightarrow>
        (material_decision_items v w' \<noteq> [] \<longleftrightarrow> asks_about_material v o1)
        \<and> (completion_next_stop v w' \<noteq> None \<longleftrightarrow> offers_next_stop v o1)
        \<and> completion_next_stop v w' = map_option (snd \<circ> snd) (next_stop_prompt v (w'\<lparr>wf_nextStopAfter := Some i\<rparr>))
        \<and> (material_decision_items v w' \<noteq> [] \<or> completion_next_stop v w' \<noteq> None \<or> og_release g \<noteq> None)"
proof -
  have onward: "offers_next_stop v o1 \<Longrightarrow> route_continuation_for v o1 \<noteq> None"
    by (auto simp: offers_next_stop_def route_continuation_for_def startable_is_first_remaining
        split: option.splits list.splits if_splits)
  show ?thesis
  proof (cases "wf_gate w'")
    case None
    with assms show ?thesis by (auto simp: prompt_material_decision_def Let_def release_of_def split: if_splits)
  next
    case (Some g)
    then have g: "gate_operation v w' GateMaterial = Some o1"
      and why: "asks_about_material v o1 \<or> offers_next_stop v o1 \<or> og_release g \<noteq> None"
      using assms operation_by_id_Some [OF assms(1)]
      by (auto simp: prompt_material_decision_def Let_def gate_operation_def split: if_splits)
    have items: "material_decision_items v w' \<noteq> [] \<longleftrightarrow> asks_about_material v o1"
      by (auto simp: material_decision_items_def completion_continuation_def g asks_about_material_def split: option.splits)
    have stop: "completion_next_stop v w' = map_option (snd \<circ> snd) (next_stop_prompt v (w'\<lparr>wf_nextStopAfter := Some i\<rparr>))"
      by (auto simp: completion_next_stop_def completion_continuation_def g next_stop_prompt_def assms(1)
          route_continuation_for_def startable_is_first_remaining split: option.splits list.splits if_splits)
    have offer: "completion_next_stop v w' \<noteq> None \<longleftrightarrow> offers_next_stop v o1"
      unfolding stop by (auto simp: next_stop_prompt_def assms(1) offers_next_stop_def split: option.splits)
    show ?thesis unfolding Some option.case using items stop offer why by blast
  qed
qed

theorem completion_gate_says_why_it_opened_witness:
  "wf_gate (prompt_material_decision (example_view [blank_card ''a'' Complete]) ''a'' (Some Active) no_workflow) = None
   \<and> \<not> offers_next_stop (example_view [blank_card ''a'' Complete]) (blank_card ''a'' Complete)"
proof -
  let ?v = "example_view [blank_card ''a'' Complete]"
  have o: "operation_by_id ?v (Some ''a'') = Some (blank_card ''a'' Complete)" by (rule example_card) simp_all
  have n: "wf_gate no_workflow = None" by (simp add: no_workflow_def)
  have g: "wf_gate (prompt_material_decision ?v ''a'' (Some Active) no_workflow) = None"
    by (simp add: prompt_material_decision_def o asks_about_material_def offers_next_stop_def route_continuation_for_def
        release_of_def n)
  from completion_gate_says_why_it_opened [OF o n refl, of "Some Active"] g show ?thesis by simp
qed

text \<open>
  C22. Confirming the completion gate decides every listed unit once and releases exactly those that go back to
  the Magazin, each by one request, after the answers were written to the report; what the operator clicked decides, else what the crew
  said; and while the route goes on, nothing at all is written or released.
\<close>

theorem confirming_releases_what_goes_back:
  assumes "gate_operation v w GateMaterial = Some o1" and "resolve_material_decision v w = ((returned, kept), w')"
  shows "mset (returned @ kept) = mset (map di_id (material_decision_items v w))
    \<and> wf_gate w' = None
    \<and> (\<exists>asked. wf_fx w' = wf_fx w @ asked @ map (release_of_item v o1) (filter (\<lambda>d. material_choice w d = Magazin) (material_decision_items v w))
         \<and> asked \<in> {[], [WriteDecisions (op_id o1)
              (map (\<lambda>d. (di_id d, material_choice w d = VorOrt)) (filter (\<lambda>d. \<not> di_consumable d) (material_decision_items v w)))]})
    \<and> returned = map di_id (filter (\<lambda>d. wf_decisions w (di_id d) = Some Magazin
         \<or> wf_decisions w (di_id d) = None \<and> di_answer d \<noteq> Some VorOrt) (material_decision_items v w))
    \<and> (route_continuation_for v o1 \<noteq> None \<longrightarrow> returned = [] \<and> kept = [] \<and> wf_fx w' = wf_fx w)"
proof -
  let ?items = "material_decision_items v w"
  have two: "material_choice w d = VorOrt \<longleftrightarrow> \<not> material_choice w d = Magazin" for d
    by (cases "material_choice w d") simp_all
  have magazin: "material_choice w d = Magazin \<longleftrightarrow>
      wf_decisions w (di_id d) = Some Magazin \<or> wf_decisions w (di_id d) = None \<and> di_answer d \<noteq> Some VorOrt" for d
    by (cases "wf_decisions w (di_id d)"; cases "di_answer d") (auto simp: material_choice_def intro: material_place.exhaust)
  have ids: "returned = map di_id (filter (\<lambda>d. material_choice w d = Magazin) ?items)"
    "kept = map di_id (filter (\<lambda>d. \<not> material_choice w d = Magazin) ?items)"
    using assms by (simp_all add: resolve_material_decision_def Let_def two [symmetric])
  have "mset (filter P xs) + mset (filter (\<lambda>x. \<not> P x) xs) = mset xs" for P and xs :: "decision_item list"
    by (simp add: mset_filter multiset_partition [symmetric])
  then have split: "mset (returned @ kept) = mset (map di_id ?items)"
    unfolding ids mset_append mset_map image_mset_union [symmetric] by simp
  have fx: "wf_fx w' = wf_fx w @ (if filter (\<lambda>d. \<not> di_consumable d) ?items = [] then [] else
       [WriteDecisions (op_id o1) (map (\<lambda>d. (di_id d, material_choice w d = VorOrt)) (filter (\<lambda>d. \<not> di_consumable d) ?items))])
       @ map (release_of_item v o1) (filter (\<lambda>d. material_choice w d = Magazin) ?items)"
    and closed: "wf_gate w' = None"
    using assms by (auto simp: resolve_material_decision_def Let_def)
  have none: "route_continuation_for v o1 \<noteq> None \<Longrightarrow> ?items = []"
    by (simp add: material_decision_items_def assms(1) completion_continuation_def)
  show ?thesis
    by (intro conjI impI) (use split closed fx ids none in \<open>auto simp: magazin\<close>)
qed

theorem confirming_releases_what_goes_back_witness:
  "let v = example_view [(blank_card ''a'' Active)\<lparr>op_materials := [''m'', ''n'']\<rparr>];
       w = decide_material ''n'' VorOrt (prompt_material_decision v ''a'' (Some Active) no_workflow)
   in fst (resolve_material_decision v w) = ([''m''], [''n'']) \<and> wf_gate (snd (resolve_material_decision v w)) = None"
proof -
  let ?c = "(blank_card ''a'' Active)\<lparr>op_materials := [''m'', ''n'']\<rparr>"
  let ?v = "example_view [?c]"
  let ?w = "decide_material ''n'' VorOrt (prompt_material_decision ?v ''a'' (Some Active) no_workflow)"
  have o: "operation_by_id ?v (Some ''a'') = Some ?c" by (rule example_card) simp_all
  have g: "gate_operation ?v ?w GateMaterial = Some ?c"
    by (simp add: prompt_material_decision_def o asks_about_material_def route_continuation_for_def release_of_def
        gate_operation_def decide_material_def)
  have d: "wf_decisions ?w = [''n'' \<mapsto> VorOrt]"
    by (simp add: prompt_material_decision_def o asks_about_material_def route_continuation_for_def release_of_def
        decide_material_def no_workflow_def set_gate_def)
  have a: "wf_answers ?w = Map.empty"
    by (simp add: prompt_material_decision_def o asks_about_material_def route_continuation_for_def release_of_def
        decide_material_def no_workflow_def set_gate_def)
  obtain returned kept w' where r: "resolve_material_decision ?v ?w = ((returned, kept), w')" by (metis prod.exhaust)
  have items: "map di_id (material_decision_items ?v ?w) = [''m'', ''n'']" "map di_answer (material_decision_items ?v ?w) = [None, None]"
    by (simp_all add: material_decision_items_def g completion_continuation_def route_continuation_for_def
        decision_item_for_def a Let_def)
  then obtain x y where xy: "material_decision_items ?v ?w = [x, y]" "di_id x = ''m''" "di_id y = ''n''" "di_answer x = None"
    by (auto simp: map_eq_Cons_conv)
  note c = confirming_releases_what_goes_back [OF g r]
  have "wf_gate w' = None" using c by blast
  moreover have "returned = [''m'']" using conjunct1 [OF conjunct2 [OF conjunct2 [OF conjunct2 [OF c]]]] by (simp add: xy d)
  moreover have "mset (returned @ kept) = mset [''m'', ''n'']" using conjunct1 [OF c] by (simp add: xy)
  ultimately have "returned = [''m'']" "kept = [''n'']" "wf_gate w' = None" by simp_all
  then show ?thesis by (simp add: Let_def r)
qed

text \<open>
  A refused move leaves nothing to undo: after the server refused the move of a card, neither the open gate
  nor the parked one nor a dialog is about that card, and whichever gate is then cancelled, resumed or confirmed before the next
  request, the hook asks for no further move of it.
\<close>

theorem refused_move_is_not_undone:
  assumes "w' = status_refused i w"
  shows "wf_disponiert w' \<noteq> Some i \<and> wf_nextStopAfter w' \<noteq> Some i
    \<and> map_option (gb_operation \<circ> og_base) (wf_gate w') \<noteq> Some i
    \<and> map_option (gb_operation \<circ> og_base) (wf_suspended w') \<noteq> Some i
    \<and> (\<forall>k st keep. MoveToTop i st keep \<in> set (wf_fx (cancel_gate k (resume_gate v w'))) \<longleftrightarrow> MoveToTop i st keep \<in> set (wf_fx w))
    \<and> (\<forall>k st keep. MoveToTop i st keep \<in> set (wf_fx (cancel_gate k w')) \<longleftrightarrow> MoveToTop i st keep \<in> set (wf_fx w))"
proof -
  have fx: "wf_fx w' = wf_fx w" by (simp add: assms status_refused_def)
  have away: "map_option (gb_operation \<circ> og_base) (wf_gate w') \<noteq> Some i"
    "map_option (gb_operation \<circ> og_base) (wf_suspended w') \<noteq> Some i"
    "wf_disponiert w' \<noteq> Some i" "wf_nextStopAfter w' \<noteq> Some i"
    by (auto simp: assms status_refused_def drop_gate_of_def)
  have cancel: "MoveToTop i st keep \<in> set (wf_fx (cancel_gate k u)) \<longleftrightarrow> MoveToTop i st keep \<in> set (wf_fx u)"
    if "map_option (gb_operation \<circ> og_base) (wf_gate u) \<noteq> Some i" for k st keep u
    using that by (auto simp: cancel_gate_def revert_gate_def Let_def split: option.splits)
  have resumed: "map_option (gb_operation \<circ> og_base) (wf_gate (resume_gate v w')) \<noteq> Some i"
    "wf_fx (resume_gate v w') = wf_fx w'"
    using away by (auto simp: resume_gate_def Let_def split: option.splits)
  show ?thesis using away cancel [OF away(1)] cancel [OF resumed(1)] resumed(2) fx by simp
qed

theorem refused_move_is_not_undone_witness:
  "let w = status_refused ''a'' (set_gate (Some (plain_gate GateReko (gate_for (example_view []) ''a'' (Some Incoming)))) no_workflow)
   in \<forall>st keep. MoveToTop ''a'' st keep \<notin> set (wf_fx (cancel_gate GateReko w))"
  using refused_move_is_not_undone [OF refl, of "''a''"
      "set_gate (Some (plain_gate GateReko (gate_for (example_view []) ''a'' (Some Incoming)))) no_workflow"]
  by (simp add: no_workflow_def Let_def)

end
