(* ===== verification/CommandDispatch.thy ===== *)
theory CommandDispatch
  imports Dispatch KanbanDrop RouteGroups ReleaseUndo ResourceStatus
begin

text \<open>
  Running a typed dispatch on the board: \<^verbatim>\<open>frontend/lib/hooks/use-command-dispatch.ts\<close> and the parts of
  \<^verbatim>\<open>frontend/components/board/use-board-dispatch.ts\<close> that feed it. \<^verbatim>\<open>runDispatch\<close> is a
  coroutine: it suspends in \<^verbatim>\<open>waitForQuiet\<close> and reads the board anew whenever it runs, so it is a state
  (\<open>dispatch_run\<close>) advanced by ticks of 100 ms that carry the board of that moment. The queue in front of
  it holds the commands that were typed meanwhile.
\<close>

section \<open>The board as the runner reads it\<close>

record live_board =
  lb_ops :: "operation list"
  lb_groups :: "incident_group list"
  lb_resources :: "ident \<Rightarrow> group_resources"
  lb_question :: bool

definition get_operation :: "live_board \<Rightarrow> ident \<Rightarrow> operation option" where
  "get_operation b i = List.find (\<lambda>o1. op_id o1 = i) (lb_ops b)"

fun resource_kind_of :: "dispatch_kind \<Rightarrow> resource_kind" where
  "resource_kind_of DkPerson = KPersonnel"
| "resource_kind_of DkVehicle = KVehicle"
| "resource_kind_of DkMaterial = KMaterial"

definition routes_holding :: "live_board \<Rightarrow> dispatch_resource \<Rightarrow> incident_group list" where
  "routes_holding b r = filter (group_holds (resource_kind_of (dr_kind r)) (dr_id r)) (lb_groups b)"

fun resource_list :: "dispatch_kind \<Rightarrow> group_resources \<Rightarrow> group_resource_item list" where
  "resource_list DkPerson g = gr_personnel g"
| "resource_list DkVehicle g = gr_vehicles g"
| "resource_list DkMaterial g = gr_materials g"

datatype holding_place = InCrew | AsReko | AsVehicle | AsMaterial | OnRouteOf ident ident

definition is_reko_of :: "ident \<Rightarrow> operation \<Rightarrow> bool" where
  "is_reko_of p o1 = (map_option np_id (op_assignedReko o1) = Some p)"

definition own_holding :: "operation \<Rightarrow> dispatch_resource \<Rightarrow> holding_place option" where
  "own_holding o1 r =
     (case dr_kind r of
        DkPerson \<Rightarrow> if is_reko_of (dr_id r) o1 then Some AsReko else if crew_holds (dr_id r) o1 then Some InCrew else None
      | DkVehicle \<Rightarrow> if vehicle_holds (dr_id r) o1 then Some AsVehicle else None
      | DkMaterial \<Rightarrow> if material_holds (dr_id r) o1 then Some AsMaterial else None)"

definition holding :: "operation \<Rightarrow> dispatch_resource \<Rightarrow> (ident \<Rightarrow> group_resources) \<Rightarrow> holding_place option" where
  "holding o1 r res =
     (case own_holding o1 r of
        Some h \<Rightarrow> Some h
      | None \<Rightarrow>
          (case or_null (op_groupId o1) of
             None \<Rightarrow> None
           | Some g \<Rightarrow> map_option (\<lambda>x. OnRouteOf g (gr_assignment x))
               (List.find (\<lambda>x. gr_resource x = dr_id r) (resource_list (dr_kind r) (res g)))))"

definition held_on_incident :: "operation \<Rightarrow> dispatch_resource \<Rightarrow> bool" where
  "held_on_incident o1 r =
     (case dr_kind r of
        DkPerson \<Rightarrow> crew_holds (dr_id r) o1 \<or> is_reko_of (dr_id r) o1
      | DkVehicle \<Rightarrow> vehicle_holds (dr_id r) o1
      | DkMaterial \<Rightarrow> material_holds (dr_id r) o1)"

definition released_from_incident :: "dispatch_resource \<Rightarrow> ident \<Rightarrow> string \<Rightarrow> released" where
  "released_from_incident r i label =
     (case dr_kind r of
        DkPerson \<Rightarrow> RelPersonnel i (dr_id r) (dr_name r) label
      | DkVehicle \<Rightarrow> RelVehicle i (dr_id r) (dr_name r) label
      | DkMaterial \<Rightarrow> RelMaterial i (dr_id r) (dr_name r) label)"

section \<open>One command\<close>

record dispatch_command =
  dc_incident :: ident
  dc_assign :: "dispatch_resource list"
  dc_status :: "incident_status option"
  dc_priority :: "priority option"

definition command_of :: "dispatch_plan \<Rightarrow> dispatch_command option" where
  "command_of p =
     (case p of
        PlanDispatch i as st pr _ \<Rightarrow> Some \<lparr>dc_incident = di_id i, dc_assign = map fst as, dc_status = st, dc_priority = pr\<rparr>
      | _ \<Rightarrow> None)"

record dispatch_outcome =
  do_operation :: operation
  do_assigned :: "dispatch_resource list"
  do_moved :: "released list"
  do_status :: "(incident_status \<times> incident_status) option"
  do_priority :: "(priority \<times> priority) option"

datatype dispatch_call =
    CdAssign dispatch_resource ident
  | CdPriority ident priority
  | CdMove ident incident_status incident_status
  | CdReport dispatch_outcome
  | CdRemoveCrew ident ident
  | CdRemoveReko ident
  | CdRemoveVehicle ident ident
  | CdRemoveMaterial ident ident
  | CdUnassign ident ident
  | CdRestore released
  | CdRevertPriority ident priority
  | CdRevertStatus ident incident_status

type_synonym resource_key = "dispatch_kind \<times> ident"

definition key_of :: "dispatch_resource \<Rightarrow> resource_key" where
  "key_of r = (dr_kind r, dr_id r)"

type_synonym resource_sources = "operation list \<times> incident_group list"

record dispatch_run =
  rn_command :: dispatch_command
  rn_before :: operation
  rn_held :: "resource_key list"
  rn_sources :: "resource_key \<rightharpoonup> resource_sources"
  rn_rest :: "dispatch_resource list"
  rn_quiet :: nat

definition sources_of :: "live_board \<Rightarrow> operation \<Rightarrow> dispatch_resource \<Rightarrow> resource_sources" where
  "sources_of b before r =
     (filter (\<lambda>o1. op_id o1 \<noteq> op_id before \<and> held_on_incident o1 r) (lb_ops b),
      filter (\<lambda>g. Some (incident_group.ig_id g) \<noteq> op_groupId before) (routes_holding b r))"

definition begin_run :: "dispatch_command \<Rightarrow> live_board \<Rightarrow> dispatch_run option" where
  "begin_run c b =
     map_option (\<lambda>before.
       \<lparr>rn_command = c, rn_before = before,
        rn_held = map key_of (filter (\<lambda>r. holding before r (lb_resources b) \<noteq> None) (dc_assign c)),
        rn_sources = map_of (rev (map (\<lambda>r. (key_of r, sources_of b before r)) (dc_assign c))),
        rn_rest = dc_assign c, rn_quiet = 0\<rparr>)
     (get_operation b (dc_incident c))"

definition or_before :: "dispatch_run \<Rightarrow> live_board \<Rightarrow> operation" where
  "or_before u b = (case get_operation b (dc_incident (rn_command u)) of Some o1 \<Rightarrow> o1 | None \<Rightarrow> rn_before u)"

definition moved_away :: "(operation \<Rightarrow> string) \<Rightarrow> live_board \<Rightarrow> dispatch_run \<Rightarrow> dispatch_resource \<Rightarrow> released list" where
  "moved_away label b u r =
     (case rn_sources u (key_of r) of
        None \<Rightarrow> []
      | Some (incidents, groups) \<Rightarrow>
          map (\<lambda>s. released_from_incident r (op_id s) (label s))
            (filter (\<lambda>s. case get_operation b (op_id s) of Some now \<Rightarrow> \<not> held_on_incident now r | None \<Rightarrow> True) incidents)
          @ map (\<lambda>g. RelRoute (incident_group.ig_id g) (resource_kind_of (dr_kind r)) (dr_id r) (dr_name r) (incident_group.ig_name g))
              (filter (\<lambda>g. incident_group.ig_id g \<notin> set (map incident_group.ig_id (routes_holding b r))) groups))"

definition assigned_now :: "live_board \<Rightarrow> dispatch_run \<Rightarrow> dispatch_resource list" where
  "assigned_now b u =
     filter (\<lambda>r. key_of r \<notin> set (rn_held u) \<and> holding (or_before u b) r (lb_resources b) \<noteq> None) (dc_assign (rn_command u))"

text \<open>The end of a run: the board is read again after the priority was set (\<open>b1\<close>) and once everything is done (\<open>b2\<close>).\<close>

definition finish_run :: "(operation \<Rightarrow> string) \<Rightarrow> dispatch_run \<Rightarrow> live_board \<times> live_board \<Rightarrow> dispatch_call list" where
  "finish_run label u bs =
     (let c = rn_command u; i = dc_incident c; (b1, b2) = bs;
          pr = (case dc_priority c of Some p \<Rightarrow> if p \<noteq> op_priority (rn_before u) then Some (op_priority (rn_before u), p) else None
                | None \<Rightarrow> None);
          current = or_before u b1;
          st = (case dc_status c of Some s \<Rightarrow> if s \<noteq> op_status current then Some (op_status current, s) else None | None \<Rightarrow> None);
          assigned = assigned_now b2 u
      in (case pr of Some (_, p) \<Rightarrow> [CdPriority i p] | None \<Rightarrow> [])
         @ (case st of Some (prev, s) \<Rightarrow> [CdMove i s prev] | None \<Rightarrow> [])
         @ (if assigned = [] \<and> st = None \<and> pr = None then []
            else [CdReport \<lparr>do_operation = or_before u b2, do_assigned = assigned,
                    do_moved = concat (map (moved_away label b2 u) assigned), do_status = st, do_priority = pr\<rparr>]))"

fun next_resource :: "resource_key list \<Rightarrow> dispatch_resource list \<Rightarrow> (dispatch_resource \<times> dispatch_resource list) option" where
  "next_resource held [] = None"
| "next_resource held (r # rs) = (if key_of r \<in> set held then next_resource held rs else Some (r, rs))"

definition advance_run ::
  "(operation \<Rightarrow> string) \<Rightarrow> dispatch_run \<Rightarrow> live_board \<times> live_board \<Rightarrow> dispatch_call list \<times> dispatch_run option" where
  "advance_run label u bs =
     (case next_resource (rn_held u) (rn_rest u) of
        Some (r, rest) \<Rightarrow> ([CdAssign r (dc_incident (rn_command u))], Some (u\<lparr>rn_rest := rest, rn_quiet := 0\<rparr>))
      | None \<Rightarrow> (finish_run label u bs, None))"

definition quiet_ms :: nat where
  "quiet_ms = 300"

definition tick_run ::
  "(operation \<Rightarrow> string) \<Rightarrow> dispatch_run \<Rightarrow> live_board \<Rightarrow> live_board \<times> live_board \<Rightarrow> dispatch_call list \<times> dispatch_run option" where
  "tick_run label u b bs =
     (let quiet = (if lb_question b then 0 else rn_quiet u + 100)
      in if quiet < quiet_ms then ([], Some (u\<lparr>rn_quiet := quiet\<rparr>)) else advance_run label (u\<lparr>rn_quiet := quiet\<rparr>) bs)"

section \<open>The queue of commands\<close>

text \<open>What a run of command number \<open>n\<close> reads when it starts, after it set the priority and at its end.\<close>

type_synonym board_reads = "nat \<Rightarrow> live_board \<times> live_board \<times> live_board"

record dispatch_queue =
  dq_running :: "(nat \<times> dispatch_run) option"
  dq_waiting :: "(nat \<times> dispatch_command) list"
  dq_typed :: nat
  dq_log :: "(nat \<times> dispatch_call) list"

definition new_queue_of :: dispatch_queue where
  "new_queue_of = \<lparr>dq_running = None, dq_waiting = [], dq_typed = 0, dq_log = []\<rparr>"

definition logged :: "nat \<Rightarrow> dispatch_call list \<times> dispatch_run option \<Rightarrow> dispatch_queue \<Rightarrow> dispatch_queue" where
  "logged n out q = q\<lparr>dq_running := map_option (Pair n) (snd out), dq_log := dq_log q @ map (Pair n) (fst out)\<rparr>"

fun start_waiting :: "(operation \<Rightarrow> string) \<Rightarrow> board_reads \<Rightarrow> (nat \<times> dispatch_command) list \<Rightarrow> dispatch_queue \<Rightarrow> dispatch_queue" where
  "start_waiting label rd [] q = q\<lparr>dq_waiting := []\<rparr>"
| "start_waiting label rd ((n, c) # cs) q =
     (case begin_run c (fst (rd n)) of
        None \<Rightarrow> start_waiting label rd cs q
      | Some u \<Rightarrow>
          (let q1 = logged n (advance_run label u (snd (rd n))) q
           in if dq_running q1 = None then start_waiting label rd cs q1 else q1\<lparr>dq_waiting := cs\<rparr>))"

datatype queue_event =
    DqCommand dispatch_command board_reads
  | DqTick live_board board_reads
  | DqThrows board_reads

text \<open>When nothing runs, what waits starts.\<close>

definition resume_queue :: "(operation \<Rightarrow> string) \<Rightarrow> board_reads \<Rightarrow> dispatch_queue \<Rightarrow> dispatch_queue" where
  "resume_queue label rd q = (if dq_running q = None then start_waiting label rd (dq_waiting q) q else q)"

definition dispatch_queue_step :: "(operation \<Rightarrow> string) \<Rightarrow> dispatch_queue \<Rightarrow> queue_event \<Rightarrow> dispatch_queue" where
  "dispatch_queue_step label q e =
     (case e of
        DqCommand c rd \<Rightarrow>
          resume_queue label rd (q\<lparr>dq_waiting := dq_waiting q @ [(dq_typed q, c)], dq_typed := dq_typed q + 1\<rparr>)
      | DqTick b rd \<Rightarrow>
          (case dq_running q of
             None \<Rightarrow> q
           | Some (n, u) \<Rightarrow> resume_queue label rd (logged n (tick_run label u b (snd (rd n))) q))
      | DqThrows rd \<Rightarrow>
          (case dq_running q of None \<Rightarrow> q | Some _ \<Rightarrow> resume_queue label rd (q\<lparr>dq_running := None\<rparr>)))"

definition dispatch_session :: "(operation \<Rightarrow> string) \<Rightarrow> queue_event list \<Rightarrow> dispatch_queue" where
  "dispatch_session label es = foldl (dispatch_queue_step label) new_queue_of es"

section \<open>Undo\<close>

text \<open>Every removal awaits the one before, and reads the routes' resources anew: \<open>res k\<close> is what the k-th removal reads.\<close>

definition undo_call :: "operation \<Rightarrow> ident \<Rightarrow> (ident \<Rightarrow> group_resources) \<Rightarrow> dispatch_resource \<Rightarrow> dispatch_call list" where
  "undo_call now i res r =
     (case holding now r res of
        None \<Rightarrow> []
      | Some InCrew \<Rightarrow> [CdRemoveCrew i (dr_id r)]
      | Some AsReko \<Rightarrow> [CdRemoveReko i]
      | Some AsVehicle \<Rightarrow> [CdRemoveVehicle i (dr_id r)]
      | Some AsMaterial \<Rightarrow> [CdRemoveMaterial i (dr_id r)]
      | Some (OnRouteOf g a) \<Rightarrow> [CdUnassign g a])"

definition undo_dispatch :: "dispatch_outcome \<Rightarrow> live_board \<Rightarrow> (nat \<Rightarrow> ident \<Rightarrow> group_resources) \<Rightarrow> dispatch_call list" where
  "undo_dispatch oc b res =
     (let i = op_id (do_operation oc)
      in case get_operation b i of
           None \<Rightarrow> []
         | Some now \<Rightarrow>
             concat (map (\<lambda>(k, r). undo_call now i (res k) r) (enumerate 0 (do_assigned oc)))
             @ map CdRestore (do_moved oc)
             @ (case do_priority oc of Some (old, new) \<Rightarrow> if op_priority now = new then [CdRevertPriority i old] else [] | None \<Rightarrow> [])
             @ (case do_status oc of Some (old, new) \<Rightarrow> if op_status now = new then [CdRevertStatus i old] else [] | None \<Rightarrow> []))"

section \<open>The board's side\<close>

text \<open>What the parser is told of the board. Incident numbers are positive; the labels are parameters.\<close>

record fleet_vehicle = api_vehicle +
  fv_archived :: bool

definition incidents_with :: "operation list \<Rightarrow> dispatch_resource \<Rightarrow> ident list" where
  "incidents_with ops r = map op_id (filter (\<lambda>o1. held_on_incident o1 r) ops)"

definition bare_resource :: "dispatch_kind \<Rightarrow> ident \<Rightarrow> dispatch_resource" where
  "bare_resource k i = \<lparr>dr_kind = k, dr_id = i, dr_name = [], dr_detail = None, dr_incidentIds = [], dr_outOfService = False\<rparr>"

definition dispatch_vocabulary_of ::
  "(operation \<Rightarrow> string) \<Rightarrow> (string \<Rightarrow> string) \<Rightarrow> operation list \<Rightarrow> person list \<Rightarrow> fleet_vehicle list \<Rightarrow> ident list \<Rightarrow> material list
     \<Rightarrow> dispatch_vocabulary" where
  "dispatch_vocabulary_of label type_label ops people fleet oos mats =
     \<lparr>dv_incidents = List.map_filter (\<lambda>o1. map_option (\<lambda>n.
          \<lparr>di_id = op_id o1, di_number = nat n, di_label = label o1, di_type = Some (type_label (op_incidentType o1)),
           di_status = op_status o1, di_priority = op_priority o1\<rparr>) (op_number o1)) ops,
      dv_persons = map (\<lambda>p. \<lparr>re_id = p_id p, re_name = p_name p, re_detail = or_null (p_role p),
          re_incidentIds = Some (incidents_with ops (bare_resource DkPerson (p_id p)))\<rparr>) people,
      dv_vehicles = map (\<lambda>x. \<lparr>re_id = v_id x, re_name = v_name x, re_detail = or_null (Some (v_radio_call_sign x)),
          re_incidentIds = Some (incidents_with ops (bare_resource DkVehicle (v_id x))),
          ve_type = Some (v_type x), ve_callSign = or_null (Some (v_radio_call_sign x)), ve_outOfService = js_includes oos (v_id x)\<rparr>)
        (filter (\<lambda>x. \<not> fv_archived x) fleet),
      dv_materials = map (\<lambda>m. \<lparr>re_id = m_id m, re_name = m_name m, re_detail = or_null (Some (m_category m)),
          re_incidentIds = Some (incidents_with ops (bare_resource DkMaterial (m_id m))),
          me_outOfService = m_outOfService m, me_available = Some (material_resource_state m = RAvailable)\<rparr>) mats\<rparr>"

text \<open>A resource named in a command goes the way a drag onto the card goes.\<close>

definition assign_from_palette :: "operation list \<Rightarrow> person list \<Rightarrow> material list \<Rightarrow> dispatch_resource \<Rightarrow> ident \<Rightarrow> drop_call list" where
  "assign_from_palette ops people mats r i =
     (let drop = (\<lambda>src. snd (apply_resource_drop \<lparr>dd_vehicles = True, dd_stops = False, dd_route = True\<rparr> ops src (OnCard i 0 None)))
      in case dr_kind r of
           DkPerson \<Rightarrow> (case List.find (\<lambda>p. p_id p = dr_id r) people of Some p \<Rightarrow> drop (DragPerson p) | None \<Rightarrow> [])
         | DkVehicle \<Rightarrow> drop (DragVehicle (dr_id r) (dr_name r))
         | DkMaterial \<Rightarrow> (case List.find (\<lambda>m. m_id m = dr_id r) mats of Some m \<Rightarrow> drop (DragMaterial m) | None \<Rightarrow> []))"

text \<open>Where the name of a resource alone leads: to the one place a resource is bound to, else to its list.\<close>

datatype palette_jump =
    NoJump
  | FollowBinding ident
  | ShowPeople string
  | ShowMaterials string
  | FocusRoute ident
  | ShowVehicles

definition jump_from_palette ::
  "operation list \<Rightarrow> incident_group list \<Rightarrow> person list \<Rightarrow> material list \<Rightarrow> (dispatch_resource \<Rightarrow> ident option) \<Rightarrow> dispatch_resource \<Rightarrow> palette_jump" where
  "jump_from_palette ops groups people mats sole r =
     (case dr_kind r of
        DkPerson \<Rightarrow>
          (case List.find (\<lambda>p. p_id p = dr_id r) people of
             None \<Rightarrow> NoJump
           | Some p \<Rightarrow> (case sole r of Some b \<Rightarrow> FollowBinding b | None \<Rightarrow> ShowPeople (p_name p)))
      | DkMaterial \<Rightarrow>
          (case List.find (\<lambda>m. m_id m = dr_id r) mats of
             None \<Rightarrow> NoJump
           | Some m \<Rightarrow> (case sole r of Some b \<Rightarrow> FollowBinding b | None \<Rightarrow> ShowMaterials (m_name m)))
      | DkVehicle \<Rightarrow>
          (case List.find (vehicle_holds (dr_id r)) ops of
             Some o1 \<Rightarrow> FollowBinding (op_id o1)
           | None \<Rightarrow>
               (case List.find (group_holds KVehicle (dr_id r)) groups of
                  Some g \<Rightarrow> FocusRoute (incident_group.ig_id g)
                | None \<Rightarrow> ShowVehicles)))"

section \<open>Runs never overlap\<close>

text \<open>Everything that is logged, running or waiting carries the number of its command; the numbers never go back.\<close>

definition numbers_of :: "dispatch_queue \<Rightarrow> nat list" where
  "numbers_of q = map fst (dq_log q) @ (case dq_running q of Some (n, _) \<Rightarrow> [n] | None \<Rightarrow> []) @ map fst (dq_waiting q)"

definition in_turn :: "dispatch_queue \<Rightarrow> bool" where
  "in_turn q \<longleftrightarrow> sorted (numbers_of q) \<and> (\<forall>n\<in>set (numbers_of q). n < dq_typed q)"

lemma logged_simps [simp]:
  "dq_waiting (logged n out q) = dq_waiting q" "dq_typed (logged n out q) = dq_typed q"
  "dq_log (logged n out q) = dq_log q @ map (Pair n) (fst out)"
  "dq_running (logged n out q) = map_option (Pair n) (snd out)"
  by (simp_all add: logged_def)

lemma sorted_same [simp]: "sorted (map (\<lambda>x. n) xs)"
  by (induction xs) simp_all

lemma in_turn_logged:
  assumes "sorted (map fst (dq_log q) @ n # map fst (dq_waiting q))"
    and "\<forall>k\<in>set (map fst (dq_log q) @ n # map fst (dq_waiting q)). k < dq_typed q"
  shows "in_turn (logged n out q)"
  using assms by (cases "snd out") (auto simp: in_turn_def numbers_of_def sorted_append comp_def)

lemma start_waiting_in_turn:
  assumes "sorted (map fst (dq_log q) @ map fst cs)" and "\<forall>k\<in>set (map fst (dq_log q) @ map fst cs). k < dq_typed q"
    and "dq_running q = None"
  shows "in_turn (start_waiting label rd cs q)"
  using assms
proof (induction label rd cs q rule: start_waiting.induct)
  case (1 label rd q)
  then show ?case by (simp add: in_turn_def numbers_of_def)
next
  case (2 label rd n c cs q)
  show ?case
  proof (cases "begin_run c (fst (rd n))")
    case None
    with 2 show ?thesis by (simp add: sorted_append)
  next
    case (Some u)
    let ?q1 = "logged n (advance_run label u (snd (rd n))) q"
    show ?thesis
    proof (cases "dq_running ?q1 = None")
      case True
      have "sorted (map fst (dq_log ?q1) @ map fst cs)" "\<forall>k\<in>set (map fst (dq_log ?q1) @ map fst cs). k < dq_typed ?q1"
        using "2.prems"(1,2) by (auto simp: sorted_append comp_def)
      with True Some "2.IH"(2) [OF Some refl True] show ?thesis by simp
    next
      case False
      have "in_turn (?q1\<lparr>dq_waiting := cs\<rparr>)"
        using "2.prems"(1,2) in_turn_logged [of "q\<lparr>dq_waiting := cs\<rparr>" n "advance_run label u (snd (rd n))"]
        by (simp add: in_turn_def numbers_of_def)
      with False Some show ?thesis by (auto simp: Let_def)
    qed
  qed
qed

lemma in_turn_resume:
  assumes "in_turn q"
  shows "in_turn (resume_queue label rd q)"
proof (cases "dq_running q = None")
  case True
  have "in_turn (start_waiting label rd (dq_waiting q) q)"
    by (rule start_waiting_in_turn) (use True assms in \<open>simp_all add: in_turn_def numbers_of_def\<close>)
  then show ?thesis by (simp add: resume_queue_def assms)
next
  case False
  with assms show ?thesis by (auto simp: resume_queue_def)
qed

lemma in_turn_step:
  assumes "in_turn q"
  shows "in_turn (dispatch_queue_step label q e)"
proof (cases e)
  case (DqCommand c rd)
  let ?q1 = "q\<lparr>dq_waiting := dq_waiting q @ [(dq_typed q, c)], dq_typed := dq_typed q + 1\<rparr>"
  have bound: "\<forall>k\<in>set (numbers_of q). k < dq_typed q" "sorted (numbers_of q)" using assms by (simp_all add: in_turn_def)
  have q1: "numbers_of ?q1 = numbers_of q @ [dq_typed q]" by (simp add: numbers_of_def split: option.split)
  have "in_turn ?q1" using bound unfolding in_turn_def q1 by (auto simp: sorted_append intro: less_imp_le less_SucI)
  then show ?thesis unfolding dispatch_queue_step_def DqCommand queue_event.case by (rule in_turn_resume)
next
  case (DqTick b rd)
  have "in_turn (logged n (tick_run label u b (snd (rd n))) q)" if "dq_running q = Some (n, u)" for n u
    by (rule in_turn_logged) (use assms that in \<open>auto simp: in_turn_def numbers_of_def\<close>)
  with assms show ?thesis unfolding dispatch_queue_step_def DqTick queue_event.case
    by (auto intro: in_turn_resume split: option.split)
next
  case (DqThrows rd)
  have "in_turn (q\<lparr>dq_running := None\<rparr>)"
    using assms by (auto simp: in_turn_def numbers_of_def sorted_append split: option.splits)
  with assms show ?thesis unfolding dispatch_queue_step_def DqThrows queue_event.case
    by (auto intro: in_turn_resume split: option.split)
qed

interpretation turns: event_machine "dispatch_queue_step label" in_turn new_queue_of for label
  by unfold_locales (simp add: in_turn_def numbers_of_def new_queue_of_def, rule in_turn_step)

section \<open>Questions are answered first\<close>

definition is_tick :: "queue_event \<Rightarrow> bool" where
  "is_tick e = (case e of DqTick _ _ \<Rightarrow> True | _ \<Rightarrow> False)"

definition is_quiet :: "queue_event \<Rightarrow> bool" where
  "is_quiet e = (case e of DqTick b _ \<Rightarrow> \<not> lb_question b | _ \<Rightarrow> False)"

text \<open>The looks at the board that found no question open, counted back from now.\<close>

definition quiet_looks :: "queue_event list \<Rightarrow> nat" where
  "quiet_looks es = length (takeWhile is_quiet (rev (filter is_tick es)))"

definition quiet_bound :: "queue_event list \<Rightarrow> dispatch_queue \<Rightarrow> bool" where
  "quiet_bound es q = (case dq_running q of None \<Rightarrow> True | Some (_, u) \<Rightarrow> rn_quiet u \<le> 100 * quiet_looks es)"

lemma advance_quiet: "snd (advance_run label u bs) = Some u' \<Longrightarrow> rn_quiet u' = 0"
  by (auto simp: advance_run_def split: option.splits)

lemma start_waiting_quiet:
  assumes "dq_running q = None" and "dq_running (start_waiting label rd cs q) = Some (n, u)"
  shows "rn_quiet u = 0"
  using assms
proof (induction label rd cs q rule: start_waiting.induct)
  case (2 label rd k c cs q)
  then show ?case by (auto simp: Let_def split: option.splits if_splits dest: advance_quiet)
qed simp

lemma tick_quiet:
  "snd (tick_run label u b bs) = Some u' \<Longrightarrow> rn_quiet u' \<le> (if lb_question b then 0 else rn_quiet u + 100)"
  by (auto simp: tick_run_def Let_def dest!: advance_quiet split: if_splits)

lemma quiet_looks_snoc:
  "quiet_looks (es @ [e]) = (if is_tick e then (if is_quiet e then Suc (quiet_looks es) else 0) else quiet_looks es)"
  by (simp add: quiet_looks_def)

lemma quiet_bound_start:
  "dq_running q = None \<Longrightarrow> quiet_bound es (start_waiting label rd cs q)"
  using start_waiting_quiet [of q label rd cs] by (auto simp: quiet_bound_def split: option.split)

lemma quiet_bound_resume: "quiet_bound es q \<Longrightarrow> quiet_bound es (resume_queue label rd q)"
  by (simp add: resume_queue_def quiet_bound_start)

lemma quiet_bound_step:
  assumes "quiet_bound es q"
  shows "quiet_bound (es @ [e]) (dispatch_queue_step label q e)"
proof (cases e)
  case (DqCommand c rd)
  have "quiet_looks (es @ [e]) = quiet_looks es" by (simp add: quiet_looks_snoc is_tick_def DqCommand)
  with assms have "quiet_bound (es @ [e]) (q\<lparr>dq_waiting := dq_waiting q @ [(dq_typed q, c)], dq_typed := dq_typed q + 1\<rparr>)"
    by (auto simp: quiet_bound_def split: option.splits)
  then show ?thesis by (simp add: dispatch_queue_step_def DqCommand quiet_bound_resume)
next
  case (DqThrows rd)
  have "quiet_bound (es @ [e]) (q\<lparr>dq_running := None\<rparr>)" by (simp add: quiet_bound_def)
  then show ?thesis
    by (simp add: dispatch_queue_step_def DqThrows quiet_bound_resume split: option.split) (simp add: quiet_bound_def)
next
  case (DqTick b rd)
  have looks: "quiet_looks (es @ [e]) = (if lb_question b then 0 else Suc (quiet_looks es))"
    by (simp add: quiet_looks_snoc is_tick_def is_quiet_def DqTick)
  have "quiet_bound (es @ [e]) (logged n (tick_run label u b (snd (rd n))) q)" if "dq_running q = Some (n, u)" for n u
    using tick_quiet [of label u b "snd (rd n)"] assms looks that by (fastforce simp: quiet_bound_def split: option.splits if_splits)
  then show ?thesis
    by (auto simp: dispatch_queue_step_def DqTick intro!: quiet_bound_resume split: option.split) (simp add: quiet_bound_def)
qed

lemma quiet_bound_session: "quiet_bound es (dispatch_session label es)"
proof (induction es rule: rev_induct)
  case Nil
  then show ?case by (simp add: dispatch_session_def quiet_bound_def new_queue_of_def)
next
  case (snoc e es)
  then show ?case using quiet_bound_step by (simp add: dispatch_session_def)
qed

section \<open>What a run hands over and reports\<close>

lemma next_resource_Some:
  "next_resource held rs = Some (r, rest) \<Longrightarrow>
     r \<in> set rs \<and> key_of r \<notin> set held \<and> filter (\<lambda>x. key_of x \<notin> set held) rs = r # filter (\<lambda>x. key_of x \<notin> set held) rest
     \<and> length rest < length rs"
  by (induction held rs rule: next_resource.induct) (auto split: if_splits)

lemma next_resource_None: "next_resource held rs = None \<longleftrightarrow> filter (\<lambda>x. key_of x \<notin> set held) rs = []"
  by (induction held rs rule: next_resource.induct) auto

lemma own_holding_iff: "own_holding o1 r \<noteq> None \<longleftrightarrow> held_on_incident o1 r"
  by (auto simp: own_holding_def held_on_incident_def split: dispatch_kind.split)

lemma get_operation_id: "get_operation b i = Some o1 \<Longrightarrow> op_id o1 = i"
  by (auto simp: get_operation_def find_Some_iff)

lemma same_key:
  assumes "key_of r' = key_of r"
  shows "held_on_incident s r' = held_on_incident s r" "routes_holding b r' = routes_holding b r"
    "holding o1 r' res = holding o1 r res"
proof -
  have "dr_kind r' = dr_kind r" "dr_id r' = dr_id r" using assms by (simp_all add: key_of_def)
  then show "held_on_incident s r' = held_on_incident s r" "routes_holding b r' = routes_holding b r"
    "holding o1 r' res = holding o1 r res"
    unfolding held_on_incident_def routes_holding_def holding_def own_holding_def by (simp_all only:)
qed

text \<open>\<open>m\<close> names a place, not the incident \<open>i\<close>, where the resource stood on the board \<open>b\<close> and stands no longer on \<open>b2\<close>.\<close>

definition was_moved :: "(operation \<Rightarrow> string) \<Rightarrow> live_board \<Rightarrow> live_board \<Rightarrow> ident \<Rightarrow> dispatch_resource \<Rightarrow> released \<Rightarrow> bool" where
  "was_moved label b b2 i r m \<longleftrightarrow>
     (\<exists>s\<in>set (lb_ops b). op_id s \<noteq> i \<and> held_on_incident s r \<and> m = released_from_incident r (op_id s) (label s)
        \<and> \<not> (\<exists>now. get_operation b2 (op_id s) = Some now \<and> held_on_incident now r))
     \<or> (\<exists>g\<in>set (routes_holding b r).
        m = RelRoute (incident_group.ig_id g) (resource_kind_of (dr_kind r)) (dr_id r) (dr_name r) (incident_group.ig_name g)
        \<and> incident_group.ig_id g \<notin> incident_group.ig_id ` set (routes_holding b2 r))"

lemma moved_awayD:
  assumes "begin_run c b = Some u" and "u' = u\<lparr>rn_rest := rs, rn_quiet := k\<rparr>" and "m \<in> set (moved_away label b2 u' r)"
    and "r \<in> set (dc_assign c)"
  shows "was_moved label b b2 (dc_incident c) r m"
proof -
  from assms(1) obtain before where before: "get_operation b (dc_incident c) = Some before" "rn_sources u =
      map_of (rev (map (\<lambda>r. (key_of r, sources_of b before r)) (dc_assign c)))"
    by (auto simp: begin_run_def)
  have same: "rn_sources u (key_of r) = Some x \<Longrightarrow> \<exists>r'. key_of r' = key_of r \<and> x = sources_of b before r'" for x
    by (fastforce simp: before(2) dest!: map_of_SomeD)
  note held = same_key [where r = r]
  obtain ins gs where src: "rn_sources u (key_of r) = Some (ins, gs)"
    using assms(3) by (cases "rn_sources u (key_of r)") (auto simp: moved_away_def assms(2))
  from same [OF src] obtain r' where r': "key_of r' = key_of r" "(ins, gs) = sources_of b before r'" by blast
  from r'(2) have sources: "ins = filter (\<lambda>s. op_id s \<noteq> op_id before \<and> held_on_incident s r) (lb_ops b)"
    "set gs \<subseteq> set (routes_holding b r)"
    by (auto simp: sources_of_def held [OF r'(1)])
  from assms(3) src sources get_operation_id [OF before(1)] show ?thesis
    by (auto simp: moved_away_def was_moved_def assms(2) split: option.splits)
qed

text \<open>
  What a run logs when no question comes up: it hands over everything that is not there yet, then it finishes.\<close>

fun run_ticks ::
  "(operation \<Rightarrow> string) \<Rightarrow> (live_board \<times> live_board \<times> live_board) list \<Rightarrow> dispatch_call list \<times> dispatch_run option
     \<Rightarrow> dispatch_call list \<times> dispatch_run option" where
  "run_ticks label [] out = out"
| "run_ticks label ((b, bs) # ts) (calls, None) = (calls, None)"
| "run_ticks label ((b, bs) # ts) (calls, Some u) =
     (let (calls', u') = tick_run label u b bs in run_ticks label ts (calls @ calls', u'))"

lemma run_ticks_done [simp]: "run_ticks label ts (calls, None) = (calls, None)"
  by (cases ts) auto

definition hand_overs :: "dispatch_call list \<Rightarrow> dispatch_resource list" where
  "hand_overs calls = List.map_filter (\<lambda>c. case c of CdAssign r i \<Rightarrow> Some r | _ \<Rightarrow> None) calls"

lemma hand_overs_append [simp]: "hand_overs (xs @ ys) = hand_overs xs @ hand_overs ys"
  by (simp add: hand_overs_def List.map_filter_def)

lemma hand_overs_finish [simp]: "hand_overs (finish_run label u bs) = []"
  by (simp add: finish_run_def hand_overs_def List.map_filter_def Let_def split: option.split prod.split)

definition left_over :: "dispatch_run \<Rightarrow> dispatch_resource list" where
  "left_over u = filter (\<lambda>r. key_of r \<notin> set (rn_held u)) (rn_rest u)"

lemma advance_hands_over:
  "hand_overs (fst (advance_run label u bs)) = (case left_over u of [] \<Rightarrow> [] | r # _ \<Rightarrow> [r])
   \<and> (case snd (advance_run label u bs) of
        None \<Rightarrow> left_over u = []
      | Some u' \<Rightarrow> left_over u' = tl (left_over u) \<and> left_over u \<noteq> [] \<and> rn_quiet u' = 0 \<and> rn_held u' = rn_held u)"
proof (cases "next_resource (rn_held u) (rn_rest u)")
  case None
  then have "left_over u = []" by (simp add: left_over_def next_resource_None)
  with None show ?thesis by (simp add: advance_run_def)
next
  case (Some rr)
  obtain r rest where rr: "rr = (r, rest)" by (cases rr)
  from next_resource_Some [OF Some [unfolded rr]] have "left_over u = r # filter (\<lambda>x. key_of x \<notin> set (rn_held u)) rest"
    by (simp add: left_over_def)
  with Some rr show ?thesis by (simp add: advance_run_def left_over_def hand_overs_def List.map_filter_def)
qed

lemma run_ticks_quiet:
  assumes "\<forall>(b, bs)\<in>set ts. \<not> lb_question b" and "rn_quiet u = 100 * q" and "q < 3"
    and "3 * (length (left_over u) + 1) \<le> length ts + q"
  shows "\<exists>calls'. run_ticks label ts (calls, Some u) = (calls', None) \<and> hand_overs calls' = hand_overs calls @ left_over u"
  using assms
proof (induction ts arbitrary: u q calls)
  case Nil
  then show ?case by simp
next
  case (Cons t ts)
  obtain b bs where t: "t = (b, bs)" by (cases t)
  with Cons.prems(1) have quiet: "\<not> lb_question b" and rest: "\<forall>(b, bs)\<in>set ts. \<not> lb_question b" by auto
  show ?case
  proof (cases "q + 1 < 3")
    case True
    then have "tick_run label u b bs = ([], Some (u\<lparr>rn_quiet := 100 * (q + 1)\<rparr>))"
      by (simp add: tick_run_def quiet quiet_ms_def Cons.prems(2))
    moreover have "left_over (u\<lparr>rn_quiet := 100 * (q + 1)\<rparr>) = left_over u" by (simp add: left_over_def)
    ultimately show ?thesis
      using Cons.IH [OF rest, of "u\<lparr>rn_quiet := 100 * (q + 1)\<rparr>" "q + 1" calls] Cons.prems(4) True by (simp add: t)
  next
    case False
    let ?u = "u\<lparr>rn_quiet := rn_quiet u + 100\<rparr>"
    have tick: "tick_run label u b bs = advance_run label ?u bs"
      using False Cons.prems(2) by (simp add: tick_run_def quiet quiet_ms_def)
    have left: "left_over ?u = left_over u" by (simp add: left_over_def)
    note adv = advance_hands_over [of label ?u bs, unfolded left]
    show ?thesis
    proof (cases "snd (advance_run label ?u bs)")
      case None
      with adv show ?thesis by (cases "advance_run label ?u bs") (auto simp: t tick)
    next
      case (Some u')
      with adv obtain r where u': "left_over u = r # left_over u'" "rn_quiet u' = 100 * 0"
        by (auto simp: neq_Nil_conv)
      then have "3 * (length (left_over u') + 1) \<le> length ts + 0" using Cons.prems(3,4) by simp
      from Cons.IH [OF rest u'(2) _ this, of "calls @ fst (advance_run label ?u bs)"] Some adv u'(1)
      show ?thesis by (cases "advance_run label ?u bs") (auto simp: t tick)
    qed
  qed
qed

lemma held_at_start:
  assumes "begin_run c b = Some u" and "get_operation b (dc_incident c) = Some before" and "r \<in> set (dc_assign c)"
  shows "key_of r \<in> set (rn_held u) \<longleftrightarrow> holding before r (lb_resources b) \<noteq> None"
proof -
  have "rn_held u = map key_of (filter (\<lambda>r. holding before r (lb_resources b) \<noteq> None) (dc_assign c))"
    using assms(1,2) by (auto simp: begin_run_def)
  moreover have "(\<exists>r'\<in>set (dc_assign c). holding before r' (lb_resources b) \<noteq> None \<and> key_of r = key_of r')
      \<longleftrightarrow> holding before r (lb_resources b) \<noteq> None"
    using assms(3) same_key(3) [of _ r before "lb_resources b"] by metis
  ultimately show ?thesis by auto
qed

lemma begin_run_simps:
  assumes "begin_run c b = Some u"
  shows "rn_command u = c" "rn_rest u = dc_assign c" "rn_quiet u = 0"
    "\<exists>before. get_operation b (dc_incident c) = Some before \<and> rn_before u = before"
  using assms by (auto simp: begin_run_def)

lemma report_claims_only_what_happened':
  assumes "begin_run c b = Some u" and "get_operation b (dc_incident c) = Some before"
    and "CdReport oc \<in> set (finish_run label (u\<lparr>rn_rest := rs, rn_quiet := k\<rparr>) (b1, b2))"
  shows "(\<forall>r\<in>set (do_assigned oc). r \<in> set (dc_assign c) \<and> holding before r (lb_resources b) = None
            \<and> holding (do_operation oc) r (lb_resources b2) \<noteq> None)
         \<and> (\<forall>m\<in>set (do_moved oc). \<exists>r\<in>set (do_assigned oc). was_moved label b b2 (dc_incident c) r m)
         \<and> (do_assigned oc \<noteq> [] \<or> do_status oc \<noteq> None \<or> do_priority oc \<noteq> None)"
proof -
  let ?u = "u\<lparr>rn_rest := rs, rn_quiet := k\<rparr>"
  note u = begin_run_simps(1) [OF assms(1)]
  from assms(3) have oc: "do_assigned oc = assigned_now b2 ?u" "do_operation oc = or_before ?u b2"
    "do_moved oc = concat (map (moved_away label b2 ?u) (assigned_now b2 ?u))"
    and some: "do_assigned oc \<noteq> [] \<or> do_status oc \<noteq> None \<or> do_priority oc \<noteq> None"
    by (auto simp: finish_run_def Let_def split: option.splits if_splits)
  have sub: "set (do_assigned oc) \<subseteq> set (dc_assign c)" by (auto simp: oc(1) assigned_now_def u)
  have "\<forall>r\<in>set (do_assigned oc). r \<in> set (dc_assign c) \<and> holding before r (lb_resources b) = None
           \<and> holding (do_operation oc) r (lb_resources b2) \<noteq> None"
    using held_at_start [OF assms(1,2)] unfolding oc(1,2) by (auto simp: assigned_now_def u)
  moreover have "\<forall>m\<in>set (do_moved oc). \<exists>r\<in>set (do_assigned oc). was_moved label b b2 (dc_incident c) r m"
  proof
    fix m assume "m \<in> set (do_moved oc)"
    then obtain r where r: "r \<in> set (do_assigned oc)" "m \<in> set (moved_away label b2 ?u r)" by (auto simp: oc)
    from moved_awayD [OF assms(1) refl r(2)] r(1) sub
    show "\<exists>r\<in>set (do_assigned oc). was_moved label b b2 (dc_incident c) r m" by blast
  qed
  ultimately show ?thesis using some by blast
qed

lemma holding_elim:
  assumes "holding o1 r res = Some h"
  shows "own_holding o1 r = Some h \<or> (\<exists>g x. op_groupId o1 = Some g \<and> x \<in> set (resource_list (dr_kind r) (res g))
           \<and> gr_resource x = dr_id r \<and> h = OnRouteOf g (gr_assignment x))"
proof (cases "own_holding o1 r")
  case None
  with assms obtain g where g: "op_groupId o1 = Some g" "map_option (\<lambda>x. OnRouteOf g (gr_assignment x))
      (List.find (\<lambda>x. gr_resource x = dr_id r) (resource_list (dr_kind r) (res g))) = Some h"
    by (auto simp: holding_def or_null_def split: option.splits if_splits)
  then obtain x where "List.find (\<lambda>x. gr_resource x = dr_id r) (resource_list (dr_kind r) (res g)) = Some x"
    "h = OnRouteOf g (gr_assignment x)" by auto
  with g(1) show ?thesis by (auto dest!: find_SomeD)
next
  case (Some h')
  with assms show ?thesis by (simp add: holding_def)
qed

text \<open>A board and a command to try the properties on: a free person is put on an incident, which then is theirs.\<close>

definition example_board :: "operation list \<Rightarrow> live_board" where
  "example_board ops = \<lparr>lb_ops = ops, lb_groups = [], lb_resources = (\<lambda>_. \<lparr>gr_vehicles = [], gr_personnel = [], gr_materials = []\<rparr>),
     lb_question = False\<rparr>"

definition example_crew :: "operation" where
  "example_crew = (blank_card ''a'' Active)\<lparr>op_crew := [\<lparr>cm_personnelId = ''p'', cm_assignmentId = None, cm_name = ''P''\<rparr>]\<rparr>"

definition example_command :: dispatch_command where
  "example_command = \<lparr>dc_incident = ''a'', dc_assign = [bare_resource DkPerson ''p''], dc_status = None, dc_priority = None\<rparr>"

definition example_run :: dispatch_run where
  "example_run = \<lparr>rn_command = example_command, rn_before = blank_card ''a'' Active, rn_held = [],
     rn_sources = [(DkPerson, ''p'') \<mapsto> ([], [])], rn_rest = [bare_resource DkPerson ''p''], rn_quiet = 0\<rparr>"

definition example_outcome :: dispatch_outcome where
  "example_outcome = \<lparr>do_operation = example_crew, do_assigned = [bare_resource DkPerson ''p''], do_moved = [], do_status = None,
     do_priority = None\<rparr>"

lemma example_board_simps [simp]:
  "lb_ops (example_board ops) = ops" "lb_question (example_board ops) = False" "routes_holding (example_board ops) r = []"
  "lb_resources (example_board ops) = (\<lambda>_. \<lparr>gr_vehicles = [], gr_personnel = [], gr_materials = []\<rparr>)"
  by (simp_all add: example_board_def routes_holding_def)

lemma example_ids [simp]: "op_id example_crew = ''a''" "dr_id (bare_resource k i) = i" "dr_kind (bare_resource k i) = k"
  by (simp_all add: example_crew_def bare_resource_def)

lemma holding_card [simp]:
  "holding (blank_card i s) r res = None"
  "holding example_crew (bare_resource DkPerson p) res = (if p = ''p'' then Some InCrew else None)"
  by (auto simp: blank_card_def holding_def own_holding_def is_reko_of_def crew_holds_def vehicle_holds_def material_holds_def or_null_def
      example_crew_def bare_resource_def split: dispatch_kind.split)

lemma example_begins:
  "begin_run example_command (example_board [blank_card ''a'' Active]) = Some example_run"
  "get_operation (example_board [blank_card ''a'' Active]) (dc_incident example_command) = Some (blank_card ''a'' Active)"
  by (simp_all add: begin_run_def get_operation_def example_command_def example_run_def key_of_def sources_of_def
      bare_resource_def)

lemma example_finishes:
  "finish_run label (example_run\<lparr>rn_rest := [], rn_quiet := 300\<rparr>) (example_board [example_crew], example_board [example_crew])
     = [CdReport example_outcome]"
  by (simp add: finish_run_def example_run_def example_command_def assigned_now_def or_before_def get_operation_def
      moved_away_def key_of_def example_outcome_def)

section \<open>Properties\<close>

text \<open>
  C33. A typed command always comes to its end on a board that asks nothing: three looks at the board per
  resource are enough, and by then everything the command named that was not on the incident before has been handed over, each
  once, in the order typed, and nothing else.
\<close>

theorem quiet_board_runs_the_command:
  assumes "begin_run c b = Some u" and "get_operation b (dc_incident c) = Some before"
    and "\<forall>(b, bs)\<in>set ts. \<not> lb_question b" and "3 * length (dc_assign c) \<le> length ts"
  shows "\<exists>calls. run_ticks label ts (advance_run label u bs) = (calls, None) \<and>
           hand_overs calls = filter (\<lambda>r. holding before r (lb_resources b) = None) (dc_assign c)"
proof -
  have left: "left_over u = filter (\<lambda>r. holding before r (lb_resources b) = None) (dc_assign c)"
    using held_at_start [OF assms(1,2)] begin_run_simps(2) [OF assms(1)] by (auto simp: left_over_def intro: filter_cong)
  note adv = advance_hands_over [of label u bs]
  show ?thesis
  proof (cases "snd (advance_run label u bs)")
    case None
    with adv left show ?thesis by (cases "advance_run label u bs") auto
  next
    case (Some u')
    with adv obtain r where u': "left_over u = r # left_over u'" "rn_quiet u' = 100 * 0" by (auto simp: neq_Nil_conv)
    have "length (left_over u) \<le> length (dc_assign c)" by (simp add: left)
    with u'(1) assms(4) have "3 * (length (left_over u') + 1) \<le> length ts + 0" by simp
    from run_ticks_quiet [OF assms(3) u'(2) _ this, of label "fst (advance_run label u bs)"] Some adv u'(1) left
    show ?thesis by (cases "advance_run label u bs") auto
  qed
qed

theorem quiet_board_runs_the_command_witness:
  "\<exists>calls. run_ticks op_location (replicate 3 (example_board [example_crew], example_board [example_crew], example_board [example_crew]))
     (advance_run op_location example_run (example_board [], example_board [])) = (calls, None)
     \<and> hand_overs calls = [bare_resource DkPerson ''p'']"
proof -
  have "\<forall>(b, bs)\<in>set (replicate 3 (example_board [example_crew], example_board [example_crew], example_board [example_crew])).
      \<not> lb_question b" by simp
  from quiet_board_runs_the_command [OF example_begins this] show ?thesis by (simp add: example_command_def)
qed


text \<open>
  C26. The report of a command claims only what is on the board: every resource it names was asked for, was
  not on the incident before and is on it now; everything it says was moved stood where it says before the command and stands there
  no longer; and it is raised only when something changed.
\<close>

theorem report_claims_only_what_happened:
  assumes "begin_run c b = Some u" and "get_operation b (dc_incident c) = Some before"
    and "CdReport oc \<in> set (finish_run label (u\<lparr>rn_rest := rs, rn_quiet := k\<rparr>) (b1, b2))"
  shows "(\<forall>r\<in>set (do_assigned oc). r \<in> set (dc_assign c) \<and> holding before r (lb_resources b) = None
            \<and> holding (do_operation oc) r (lb_resources b2) \<noteq> None)
         \<and> (\<forall>m\<in>set (do_moved oc). \<exists>r\<in>set (do_assigned oc). was_moved label b b2 (dc_incident c) r m)
         \<and> (do_assigned oc \<noteq> [] \<or> do_status oc \<noteq> None \<or> do_priority oc \<noteq> None)"
  using assms by (rule report_claims_only_what_happened')

theorem report_claims_only_what_happened_witness:
  "list_all (\<lambda>r. holding (blank_card ''a'' Active) r (lb_resources (example_board [blank_card ''a'' Active])) = None)
     (do_assigned example_outcome)"
proof -
  have rep: "CdReport example_outcome \<in> set (finish_run op_location (example_run\<lparr>rn_rest := [], rn_quiet := 300\<rparr>)
      (example_board [example_crew], example_board [example_crew]))" by (simp add: example_finishes)
  from report_claims_only_what_happened [OF example_begins rep] show ?thesis by (simp add: list_all_iff)
qed



text \<open>
  The parser and the runner agree on what is where: the incidents that the vocabulary lists for a person, a
  vehicle or a device, and so those the plan takes to hold it, are exactly those whose card holds it.
\<close>

theorem vocabulary_agrees_with_the_cards:
  assumes "cd \<in> set (build_candidates (dispatch_vocabulary_of label type_label ops people fleet oos mats))"
    and "cd_target cd = TResource r" and "distinct (map op_id ops)" and "o1 \<in> set ops"
  shows "js_includes (dr_incidentIds r) (op_id o1) \<longleftrightarrow> held_on_incident o1 r"
proof -
  have ids: "op_id o1 \<in> set (incidents_with ops x) \<longleftrightarrow> held_on_incident o1 x" for x
    using assms(3,4) by (auto simp: incidents_with_def distinct_map dest: inj_onD)
  have bare: "held_on_incident o1 (bare_resource (dr_kind r) (dr_id r)) = held_on_incident o1 r"
    by (rule same_key) (simp add: key_of_def bare_resource_def)
  have "dr_incidentIds r = incidents_with ops (bare_resource (dr_kind r) (dr_id r))"
    using assms(1,2)
    by (auto simp: build_candidates_def dispatch_vocabulary_of_def person_candidate_def vehicle_candidate_def
        material_candidate_def incident_candidate_def word_candidate_def status_phrases_def priority_phrases_def Let_def)
  with ids bare show ?thesis by simp
qed

theorem vocabulary_agrees_with_the_cards_witness:
  "js_includes (dr_incidentIds \<lparr>dr_kind = DkPerson, dr_id = ''p'', dr_name = ''p'', dr_detail = None,
      dr_incidentIds = [''a''], dr_outOfService = False\<rparr>) ''a'' \<and> held_on_incident example_crew (bare_resource DkPerson ''p'')"
proof -
  let ?r = "\<lparr>dr_kind = DkPerson, dr_id = ''p'', dr_name = ''p'', dr_detail = None, dr_incidentIds = [''a''], dr_outOfService = False\<rparr>"
  let ?v = "dispatch_vocabulary_of op_location (\<lambda>t. t) [example_crew] [blank_person ''p''] [] [] []"
  let ?e = "\<lparr>re_id = ''p'', re_name = ''p'', re_detail = None, re_incidentIds = Some [''a'']\<rparr>"
  have h: "held_on_incident example_crew (bare_resource DkPerson ''p'')"
    by (simp add: held_on_incident_def bare_resource_def crew_holds_def example_crew_def)
  then have "dv_persons ?v = [?e]"
    by (simp add: dispatch_vocabulary_of_def incidents_with_def blank_person_def or_null_def)
  then have "person_candidate ?e \<in> set (build_candidates ?v)" by (simp add: build_candidates_def)
  from vocabulary_agrees_with_the_cards [OF this, of ?r example_crew] h show ?thesis
    by (simp add: person_candidate_def example_crew_def)
qed

end
