(* ===== verification/ReleaseOffers.thy ===== *)
theory ReleaseOffers
  imports ReleaseUndo RouteGroups IncidentActions
begin

text \<open>
  Offering the undo of a release: \<^verbatim>\<open>useReleaseUndo\<close> of
  \<^verbatim>\<open>frontend/lib/hooks/use-release-undo.ts\<close>. A confirmed release waits 120 ms for others of the same
  thing from the same place, then one toast offers ''Rueckgaengig'' for all of them. Its undo is a loop that asks
  \<^verbatim>\<open>checkRestore\<close> before every write and stops at the first refusal; it is a state
  (\<open>undo_run\<close>) that waits for the answer of its last call.
\<close>

section \<open>What a release is remembered by\<close>

datatype release_tag = TagPersonnel | TagMaterial | TagVehicle | TagStop | TagRoute

fun batch_key :: "released \<Rightarrow> release_tag \<times> ident \<times> string" where
  "batch_key (RelPersonnel i p n l) = (TagPersonnel, i, n)"
| "batch_key (RelMaterial i m n l) = (TagMaterial, i, n)"
| "batch_key (RelVehicle i v n l) = (TagVehicle, i, n)"
| "batch_key (RelStop g i n l pos) = (TagStop, g, n)"
| "batch_key (RelRoute g k r n l) = (TagRoute, g, n)"

definition incident_label :: "(operation \<Rightarrow> string) \<Rightarrow> operation list \<Rightarrow> ident \<Rightarrow> string" where
  "incident_label label ops i = (case List.find (\<lambda>o1. op_id o1 = i) ops of Some o1 \<Rightarrow> label o1 | None \<Rightarrow> [])"

text \<open>Read before the release is sent; nothing to remember, nothing to offer.\<close>

definition captured_crew :: "(operation \<Rightarrow> string) \<Rightarrow> operation list \<Rightarrow> ident \<Rightarrow> ident \<Rightarrow> released option" where
  "captured_crew label ops i p =
     Option.bind (List.find (\<lambda>o1. op_id o1 = i) ops) (\<lambda>o1.
       map_option (\<lambda>m. RelPersonnel i p (cm_name m) (incident_label label ops i))
         (List.find (\<lambda>m. cm_personnelId m = p) (op_crew o1)))"

definition captured_material :: "(operation \<Rightarrow> string) \<Rightarrow> operation list \<Rightarrow> material list \<Rightarrow> ident \<Rightarrow> ident \<Rightarrow> released option" where
  "captured_material label ops mats i m =
     map_option (\<lambda>x. RelMaterial i m (m_name x) (incident_label label ops i)) (List.find (\<lambda>x. m_id x = m) mats)"

definition captured_vehicle :: "(operation \<Rightarrow> string) \<Rightarrow> operation list \<Rightarrow> ident \<Rightarrow> ident \<Rightarrow> released option" where
  "captured_vehicle label ops i v =
     Option.bind (List.find (\<lambda>o1. op_id o1 = i) ops) (\<lambda>o1.
       map_option (\<lambda>x. RelVehicle i v (ov_name x) (incident_label label ops i))
         (List.find (\<lambda>x. ov_vehicleId x = v) (op_vehicles o1)))"

fun position_in :: "ident \<Rightarrow> ident list \<Rightarrow> nat option" where
  "position_in x [] = None"
| "position_in x (y # ys) = (if x = y then Some 0 else map_option Suc (position_in x ys))"

definition captured_stop :: "(operation \<Rightarrow> string) \<Rightarrow> operation list \<Rightarrow> incident_route list \<Rightarrow> ident \<Rightarrow> ident \<Rightarrow> released option" where
  "captured_stop label ops groups g i =
     map_option (\<lambda>r. RelStop g i (incident_label label ops i) (incident_route.ig_name r) (position_in i (ig_stops r)))
       (List.find (\<lambda>r. incident_route.ig_id r = g) groups)"

fun kind_of_type :: "group_resource_type \<Rightarrow> resource_kind" where
  "kind_of_type GrVehicle = KVehicle"
| "kind_of_type GrPersonnel = KPersonnel"
| "kind_of_type GrMaterial = KMaterial"

definition captured_route :: "incident_route list \<Rightarrow> (ident \<Rightarrow> group_resources) \<Rightarrow> ident \<Rightarrow> ident \<Rightarrow> released option" where
  "captured_route groups res g a =
     Option.bind (List.find (\<lambda>r. incident_route.ig_id r = g) groups) (\<lambda>r.
       Option.bind (List.find (\<lambda>x. ga_id x = a) (incident_route.ig_assignments r)) (\<lambda>x.
         let all = gr_personnel (res g) @ gr_vehicles (res g) @ gr_materials (res g)
         in map_option (\<lambda>n. RelRoute g (kind_of_type (ga_type x)) (ga_resource x) n (incident_route.ig_name r))
              (or_null (map_option gr_name (List.find (\<lambda>y. gr_assignment y = a) all)))))"

section \<open>Offers\<close>

record offer_batch =
  ob_items :: "released list"
  ob_timer :: nat

record undo_run =
  un_rest :: "released list"
  un_state :: restore_state
  un_restored :: nat

datatype restore_call =
    RcPerson ident string ident
  | RcVehicle ident string ident
  | RcMaterial ident ident
  | RcRoute ident resource_kind ident
  | RcAddStop ident ident
  | RcOrder ident "ident list" "ident list"

text \<open>What a run waits for: the answer of a restore, with what follows it, or of the order of a stop that was put back.\<close>

datatype undo_wait =
    WaitRestore undo_run "restore_call option"
  | WaitOrder undo_run

record release_toast =
  rx_items :: "released list"
  rx_used :: bool
  rx_waits :: "undo_wait option"

datatype release_note = AlreadyThere | RestoreFailed restore_block | RestoredAll

record release_offers =
  ro_pending :: "((release_tag \<times> ident \<times> string) \<times> offer_batch) list"
  ro_timer :: nat
  ro_toasts :: "release_toast list"
  ro_calls :: "(nat \<times> restore_call) list"
  ro_notes :: "(nat \<times> release_note) list"

definition no_offers :: release_offers where
  "no_offers = \<lparr>ro_pending = [], ro_timer = 0, ro_toasts = [], ro_calls = [], ro_notes = []\<rparr>"

definition offer_release :: "released \<Rightarrow> release_offers \<Rightarrow> release_offers" where
  "offer_release r s =
     (let k = batch_key r;
          items = (case map_of (ro_pending s) k of Some b \<Rightarrow> ob_items b | None \<Rightarrow> []) @ [r]
      in s\<lparr>ro_pending := map_set k \<lparr>ob_items = items, ob_timer = ro_timer s\<rparr> (ro_pending s), ro_timer := ro_timer s + 1\<rparr>)"

text \<open>A release that the server confirmed is offered; one that was refused, or of something unknown, is not.\<close>

definition release_settles :: "released option \<Rightarrow> bool \<Rightarrow> release_offers \<Rightarrow> release_offers" where
  "release_settles r ok s = (case r of Some x \<Rightarrow> if ok then offer_release x s else s | None \<Rightarrow> s)"

text \<open>The timer of a batch fires; a cleared one does not, so only the newest timer of a batch is found.\<close>

definition offer_timer :: "nat \<Rightarrow> release_offers \<Rightarrow> release_offers" where
  "offer_timer t s =
     (case List.find (\<lambda>(k, b). ob_timer b = t) (ro_pending s) of
        None \<Rightarrow> s
      | Some (k, b) \<Rightarrow>
          s\<lparr>ro_pending := map_delete k (ro_pending s),
            ro_toasts := ro_toasts s @ [\<lparr>rx_items = ob_items b, rx_used = False, rx_waits = None\<rparr>]\<rparr>)"

section \<open>The undo\<close>

definition restore_call_of :: "released \<Rightarrow> restore_call" where
  "restore_call_of r =
     (case r of
        RelPersonnel i p n _ \<Rightarrow> RcPerson p n i
      | RelVehicle i v n _ \<Rightarrow> RcVehicle v n i
      | RelMaterial i m _ _ \<Rightarrow> RcMaterial m i
      | RelRoute g k x _ _ \<Rightarrow> RcRoute g k x
      | RelStop g i _ _ _ \<Rightarrow> RcAddStop g i)"

text \<open>A stop that was appended goes back into its slot, from the stops the route had before it was appended.\<close>

definition back_into_slot :: "released \<Rightarrow> (ident \<Rightarrow> ident list) \<Rightarrow> restore_call option" where
  "back_into_slot r stops =
     (case r of
        RelStop g i _ _ (Some p) \<Rightarrow>
          (let before = stops g
           in if p < length before then Some (RcOrder g (take p before @ i # drop p before) (before @ [i])) else None)
      | _ \<Rightarrow> None)"

text \<open>One turn of the loop, up to the next call: notes, and the call with the run that waits for it.\<close>

fun undo_turn :: "released list \<Rightarrow> restore_state \<Rightarrow> nat \<Rightarrow> release_note list \<times> (released \<times> undo_run) option" where
  "undo_turn [] st n = (if n > 0 then [RestoredAll] else [], None)"
| "undo_turn (r # rs) st n =
     (case check_restore r st of
        Some AlreadyBack \<Rightarrow> (let (notes, next_call) = undo_turn rs st n in (AlreadyThere # notes, next_call))
      | Some b \<Rightarrow> ([RestoreFailed b], None)
      | None \<Rightarrow> ([], Some (r, \<lparr>un_rest = rs, un_state = st, un_restored = n\<rparr>)))"

definition run_undo ::
  "nat \<Rightarrow> released list \<Rightarrow> restore_state \<Rightarrow> nat \<Rightarrow> (ident \<Rightarrow> ident list) \<Rightarrow> release_offers \<Rightarrow> release_offers" where
  "run_undo k rs st n stops s =
     (let (notes, next_call) = undo_turn rs st n;
          s1 = s\<lparr>ro_notes := ro_notes s @ map (Pair k) notes\<rparr>
      in case next_call of
           None \<Rightarrow> s1\<lparr>ro_toasts := (ro_toasts s1)[k := (ro_toasts s1 ! k)\<lparr>rx_waits := None\<rparr>]\<rparr>
         | Some (r, u) \<Rightarrow>
             s1\<lparr>ro_toasts := (ro_toasts s1)[k := (ro_toasts s1 ! k)\<lparr>rx_waits := Some (WaitRestore u (back_into_slot r stops))\<rparr>],
                ro_calls := ro_calls s1 @ [(k, restore_call_of r)]\<rparr>)"

definition click_undo :: "nat \<Rightarrow> restore_state \<Rightarrow> (ident \<Rightarrow> ident list) \<Rightarrow> release_offers \<Rightarrow> release_offers" where
  "click_undo k st stops s =
     (if k < length (ro_toasts s) \<and> \<not> rx_used (ro_toasts s ! k)
      then run_undo k (rx_items (ro_toasts s ! k)) st 0 stops
             (s\<lparr>ro_toasts := (ro_toasts s)[k := (ro_toasts s ! k)\<lparr>rx_used := True\<rparr>]\<rparr>)
      else s)"

text \<open>The answer of the call a run waits for: a refusal ends it; after a stop was appended its order is written, whose
  answer does not matter.\<close>

definition restore_answer :: "nat \<Rightarrow> bool \<Rightarrow> (ident \<Rightarrow> ident list) \<Rightarrow> release_offers \<Rightarrow> release_offers" where
  "restore_answer k ok stops s =
     (if k < length (ro_toasts s)
      then case rx_waits (ro_toasts s ! k) of
             None \<Rightarrow> s
           | Some (WaitOrder u) \<Rightarrow> run_undo k (un_rest u) (un_state u) (un_restored u + 1) stops s
           | Some (WaitRestore u follow) \<Rightarrow>
               if \<not> ok then s\<lparr>ro_toasts := (ro_toasts s)[k := (ro_toasts s ! k)\<lparr>rx_waits := None\<rparr>]\<rparr>
               else (case follow of
                       Some c \<Rightarrow>
                         s\<lparr>ro_toasts := (ro_toasts s)[k := (ro_toasts s ! k)\<lparr>rx_waits := Some (WaitOrder u)\<rparr>],
                           ro_calls := ro_calls s @ [(k, c)]\<rparr>
                     | None \<Rightarrow> run_undo k (un_rest u) (un_state u) (un_restored u + 1) stops s)
      else s)"

datatype release_event =
    RoRelease "released option" bool
  | RoTimer nat
  | RoClick nat restore_state "ident \<Rightarrow> ident list"
  | RoAnswer nat bool "ident \<Rightarrow> ident list"

fun release_step :: "release_offers \<Rightarrow> release_event \<Rightarrow> release_offers" where
  "release_step s (RoRelease r ok) = release_settles r ok s"
| "release_step s (RoTimer t) = offer_timer t s"
| "release_step s (RoClick k st stops) = click_undo k st stops s"
| "release_step s (RoAnswer k ok stops) = restore_answer k ok stops s"

definition release_session :: "release_event list \<Rightarrow> release_offers" where
  "release_session es = foldl release_step no_offers es"

section \<open>Nothing released is forgotten\<close>

fun confirmed_of :: "release_event \<Rightarrow> released list" where
  "confirmed_of (RoRelease (Some r) True) = [r]"
| "confirmed_of _ = []"

definition offered_items :: "release_offers \<Rightarrow> released multiset" where
  "offered_items s = mset (concat (map (ob_items \<circ> snd) (ro_pending s))) + mset (concat (map rx_items (ro_toasts s)))"

definition one_kind :: "release_tag \<times> ident \<times> string \<Rightarrow> released list \<Rightarrow> bool" where
  "one_kind k rs \<longleftrightarrow> rs \<noteq> [] \<and> (\<forall>r\<in>set rs. batch_key r = k)"

definition batches_ok :: "release_offers \<Rightarrow> bool" where
  "batches_ok s \<longleftrightarrow> distinct (map fst (ro_pending s)) \<and> (\<forall>(k, b)\<in>set (ro_pending s). one_kind k (ob_items b))
     \<and> (\<forall>rs\<in>set (map rx_items (ro_toasts s)). \<exists>k. one_kind k rs)"

lemma mset_map_set:
  assumes "distinct (map fst xs)"
  shows "mset (concat (map (f \<circ> snd) (map_set k v xs))) + mset (case map_of xs k of Some w \<Rightarrow> f w | None \<Rightarrow> [])
    = mset (concat (map (f \<circ> snd) xs)) + mset (f v)"
  using assms by (induction k v xs rule: map_set.induct) (auto simp: map_of_eq_None_iff split: option.split)

lemma mset_map_delete:
  assumes "distinct (map fst xs)" and "(k, w) \<in> set xs"
  shows "mset (concat (map (f \<circ> snd) (map_delete k xs))) + mset (f w) = mset (concat (map (f \<circ> snd) xs))"
  using assms
proof (induction xs)
  case (Cons x xs)
  obtain k' v where x: "x = (k', v)" by (cases x)
  show ?case
  proof (cases "k' = k")
    case True
    with Cons.prems x have "k \<notin> fst ` set xs" "w = v" by (auto simp: image_iff)
    moreover from this(1) have "map_delete k xs = xs" by (auto simp: map_delete_def filter_id_conv image_iff)
    ultimately show ?thesis using True x by (simp add: map_delete_def)
  next
    case False
    with Cons x show ?thesis by (auto simp: map_delete_def)
  qed
qed simp

lemma set_map_set: "set (map_set k v xs) \<subseteq> insert (k, v) (set xs)"
  by (induction k v xs rule: map_set.induct) auto

lemma map_update_same: "f y = f (xs ! k) \<Longrightarrow> map f (xs[k := y]) = map f xs"
  by (cases "k < length xs") (simp_all add: map_update list_update_same_conv list_update_beyond)

lemma run_undo_frames [simp]:
  "ro_pending (run_undo k rs st n stops s) = ro_pending s"
  "map rx_items (ro_toasts (run_undo k rs st n stops s)) = map rx_items (ro_toasts s)"
  by (simp_all add: run_undo_def Let_def map_update_same split: prod.split option.split)

lemma click_frames [simp]:
  "ro_pending (click_undo k st stops s) = ro_pending s" "map rx_items (ro_toasts (click_undo k st stops s)) = map rx_items (ro_toasts s)"
  "ro_pending (restore_answer k ok stops s) = ro_pending s"
  "map rx_items (ro_toasts (restore_answer k ok stops s)) = map rx_items (ro_toasts s)"
  by (simp_all add: click_undo_def restore_answer_def map_update_same split: option.split undo_wait.split)

lemma batches_ok_offer:
  assumes "batches_ok s"
  shows "batches_ok (offer_release r s)"
proof -
  let ?old = "case map_of (ro_pending s) (batch_key r) of Some b \<Rightarrow> ob_items b | None \<Rightarrow> []"
  let ?b = "\<lparr>ob_items = ?old @ [r], ob_timer = ro_timer s\<rparr>"
  have kinds: "\<forall>(k, b)\<in>set (ro_pending s). one_kind k (ob_items b)" using assms by (simp add: batches_ok_def)
  then have "one_kind (batch_key r) (ob_items c)" if "map_of (ro_pending s) (batch_key r) = Some c" for c
    using map_of_SomeD [OF that] by auto
  then have "one_kind (batch_key r) (ob_items ?b)"
    by (cases "map_of (ro_pending s) (batch_key r)") (auto simp: one_kind_def)
  with kinds have "\<forall>(k, b)\<in>set (map_set (batch_key r) ?b (ro_pending s)). one_kind k (ob_items b)"
    using set_map_set [of "batch_key r" ?b "ro_pending s"] by blast
  moreover have "distinct (map fst (map_set (batch_key r) ?b (ro_pending s)))"
    using assms by (simp add: distinct_map_set batches_ok_def)
  ultimately show ?thesis using assms by (simp add: batches_ok_def offer_release_def Let_def)
qed

lemma batches_ok_timer:
  assumes "batches_ok s"
  shows "batches_ok (offer_timer t s) \<and> offered_items (offer_timer t s) = offered_items s"
proof (cases "List.find (\<lambda>(k, b). ob_timer b = t) (ro_pending s)")
  case None
  with assms show ?thesis by (simp add: offer_timer_def)
next
  case (Some kb)
  obtain k b where kb: "kb = (k, b)" by (cases kb)
  with Some have mem: "(k, b) \<in> set (ro_pending s)" by (auto dest: find_SomeD)
  let ?s = "s\<lparr>ro_pending := map_delete k (ro_pending s),
      ro_toasts := ro_toasts s @ [\<lparr>rx_items = ob_items b, rx_used = False, rx_waits = None\<rparr>]\<rparr>"
  have step: "offer_timer t s = ?s" using Some kb by (simp add: offer_timer_def)
  have "one_kind k (ob_items b)" using assms mem by (auto simp: batches_ok_def)
  moreover have "set (map_delete k (ro_pending s)) \<subseteq> set (ro_pending s)" by (auto simp: map_delete_def)
  ultimately have "batches_ok ?s" using assms
    by (auto simp: batches_ok_def distinct_map_delete simp del: split_paired_Ex)
  moreover have "offered_items ?s = offered_items s"
    using mset_map_delete [of "ro_pending s" k b ob_items] assms mem by (simp add: offered_items_def batches_ok_def ac_simps)
  ultimately show ?thesis by (simp add: step)
qed

lemma offered_offer:
  assumes "batches_ok s"
  shows "offered_items (offer_release r s) = offered_items s + {#r#}"
proof -
  let ?old = "case map_of (ro_pending s) (batch_key r) of Some b \<Rightarrow> ob_items b | None \<Rightarrow> []"
  let ?b = "\<lparr>ob_items = ?old @ [r], ob_timer = ro_timer s\<rparr>"
  have "mset (concat (map (ob_items \<circ> snd) (map_set (batch_key r) ?b (ro_pending s)))) + mset ?old
      = mset (concat (map (ob_items \<circ> snd) (ro_pending s))) + mset (?old @ [r])"
    using mset_map_set [of "ro_pending s" ob_items "batch_key r" ?b] assms by (simp add: batches_ok_def)
  then have "mset (concat (map (ob_items \<circ> snd) (map_set (batch_key r) ?b (ro_pending s))))
      = mset (concat (map (ob_items \<circ> snd) (ro_pending s))) + {#r#}" by simp
  then show ?thesis by (simp add: offered_items_def offer_release_def Let_def)
qed

lemma batches_step:
  assumes "batches_ok s"
  shows "batches_ok (release_step s e) \<and> offered_items (release_step s e) = offered_items s + mset (confirmed_of e)"
proof (cases e)
  case (RoRelease r ok)
  with assms show ?thesis
    by (cases r; cases ok) (simp_all add: release_settles_def batches_ok_offer offered_offer)
next
  case (RoTimer t)
  with batches_ok_timer [OF assms] show ?thesis by simp
next
  case (RoClick k st stops)
  with assms show ?thesis by (simp add: batches_ok_def offered_items_def)
next
  case (RoAnswer k ok stops)
  with assms show ?thesis by (simp add: batches_ok_def offered_items_def)
qed

lemma batches_run:
  "batches_ok (release_session es) \<and> offered_items (release_session es) = mset (concat (map confirmed_of es))"
proof (induction es rule: rev_induct)
  case Nil
  then show ?case by (simp add: release_session_def no_offers_def batches_ok_def offered_items_def)
next
  case (snoc e es)
  then show ?case using batches_step [of "release_session es" e] by (simp add: release_session_def)
qed

section \<open>An undo runs once, in order, and asks first\<close>

fun is_order :: "restore_call \<Rightarrow> bool" where
  "is_order (RcOrder g new expected) = True"
| "is_order _ = False"

text \<open>What the toast \<open>k\<close> has asked to restore, without the orders that follow a stop.\<close>

definition restored_by :: "nat \<Rightarrow> release_offers \<Rightarrow> restore_call list" where
  "restored_by k s = map snd (filter (\<lambda>(j, c). j = k \<and> \<not> is_order c) (ro_calls s))"

definition allowed :: "restore_state \<Rightarrow> released list \<Rightarrow> restore_call list" where
  "allowed st rs = map restore_call_of (filter (\<lambda>r. check_restore r st = None) rs)"

definition waiting_run :: "release_toast \<Rightarrow> undo_run option" where
  "waiting_run t = map_option (\<lambda>w. case w of WaitRestore u _ \<Rightarrow> u | WaitOrder u \<Rightarrow> u) (rx_waits t)"

text \<open>The calls of a toast are those its items allow, up to where it has come; what it waits to go on with is the rest.\<close>

definition toast_ok :: "restore_call list \<Rightarrow> release_toast \<Rightarrow> bool" where
  "toast_ok calls t \<longleftrightarrow>
     (case waiting_run t of
        Some u \<Rightarrow> rx_used t \<and> (\<exists>front. rx_items t = front @ un_rest u \<and> calls = allowed (un_state u) front)
      | None \<Rightarrow> if rx_used t then \<exists>st n. calls = allowed st (take n (rx_items t)) else calls = [])
     \<and> (\<forall>u c. rx_waits t = Some (WaitRestore u (Some c)) \<longrightarrow> is_order c)"

definition undos_ok :: "release_offers \<Rightarrow> bool" where
  "undos_ok s \<longleftrightarrow> (\<forall>k<length (ro_toasts s). toast_ok (restored_by k s) (ro_toasts s ! k))
     \<and> (\<forall>(k, c)\<in>set (ro_calls s). k < length (ro_toasts s))"

lemma allowed_append [simp]: "allowed st (xs @ ys) = allowed st xs @ allowed st ys" "allowed st [] = []"
  by (simp_all add: allowed_def)

lemma undo_turn_Some:
  assumes "undo_turn rs st n = (ns, Some (r, u))"
  shows "\<exists>skipped. rs = skipped @ r # un_rest u \<and> allowed st (skipped @ [r]) = [restore_call_of r] \<and> un_state u = st"
  using assms
proof (induction rs st n arbitrary: ns rule: undo_turn.induct)
  case (2 x rs st n)
  show ?case
  proof (cases "check_restore x st")
    case None
    with 2(2) show ?thesis by (intro exI [of _ "[]"]) (auto simp: allowed_def)
  next
    case (Some b)
    with 2(2) have b: "b = AlreadyBack" by (cases b) auto
    obtain notes' next_call where turn: "undo_turn rs st n = (notes', next_call)" by (cases "undo_turn rs st n")
    with Some b 2(2) have "next_call = Some (r, u)" by simp
    from "2.IH" [OF Some b turn [unfolded this]] obtain skipped where
      "rs = skipped @ r # un_rest u" "allowed st (skipped @ [r]) = [restore_call_of r]" "un_state u = st" by blast
    with Some show ?thesis by (intro exI [of _ "x # skipped"]) (auto simp: allowed_def)
  qed
qed simp

lemma order_follows: "back_into_slot r stops = Some c \<Longrightarrow> is_order c"
  by (auto simp: back_into_slot_def Let_def split: released.splits option.splits if_splits)

lemma not_order_restore [simp]: "\<not> is_order (restore_call_of r)"
  by (simp add: restore_call_of_def split: released.split)

lemma restored_by_simps [simp]:
  "restored_by k (s\<lparr>ro_toasts := ts\<rparr>) = restored_by k s"
  "restored_by k (s\<lparr>ro_notes := ns\<rparr>) = restored_by k s"
  "restored_by k (s\<lparr>ro_pending := ps\<rparr>) = restored_by k s"
  by (simp_all add: restored_by_def)

lemma undos_ok_change:
  assumes "undos_ok s" and "k < length (ro_toasts s)" and "ro_toasts s' = (ro_toasts s)[k := t]"
    and "ro_calls s' = ro_calls s @ map (Pair k) cs" and "toast_ok (restored_by k s @ filter (\<lambda>c. \<not> is_order c) cs) t"
  shows "undos_ok s'"
proof -
  have new: "restored_by j s' = (if j = k then restored_by k s @ filter (\<lambda>c. \<not> is_order c) cs else restored_by j s)" for j
    by (auto simp: restored_by_def assms(4) filter_map comp_def)
  from assms show ?thesis by (auto simp: undos_ok_def new nth_list_update)
qed

lemma undos_ok_run:
  assumes ok: "undos_ok s" and k: "k < length (ro_toasts s)" and used: "rx_used (ro_toasts s ! k)"
    and items: "rx_items (ro_toasts s ! k) = front @ rs" and calls: "restored_by k s = allowed st front"
  shows "undos_ok (run_undo k rs st n stops s)"
proof -
  let ?t = "ro_toasts s ! k"
  obtain ns next_call where turn: "undo_turn rs st n = (ns, next_call)" by (cases "undo_turn rs st n")
  show ?thesis
  proof (cases next_call)
    case None
    have "toast_ok (restored_by k s @ []) (?t\<lparr>rx_waits := None\<rparr>)"
      using used items calls by (auto simp: toast_ok_def waiting_run_def intro!: exI [of _ st] exI [of _ "length front"])
    from undos_ok_change [OF ok k, of _ "?t\<lparr>rx_waits := None\<rparr>" "[]"] this turn None
    show ?thesis by (simp add: run_undo_def)
  next
    case (Some ru)
    obtain r u where ru: "ru = (r, u)" by (cases ru)
    from undo_turn_Some turn Some ru obtain skipped where
      sk: "rs = skipped @ r # un_rest u" "allowed st (skipped @ [r]) = [restore_call_of r]" "un_state u = st" by blast
    let ?t' = "?t\<lparr>rx_waits := Some (WaitRestore u (back_into_slot r stops))\<rparr>"
    have "restored_by k s @ [restore_call_of r] = allowed st (front @ skipped @ [r])"
      using sk(2) calls by simp
    then have "toast_ok (restored_by k s @ filter (\<lambda>c. \<not> is_order c) [restore_call_of r]) ?t'"
      using used items sk(1,3)
      by (auto simp: toast_ok_def waiting_run_def simp del: allowed_append intro!: exI [of _ "front @ skipped @ [r]"] dest: order_follows)
    from undos_ok_change [OF ok k, of _ ?t' "[restore_call_of r]"] this turn Some ru
    show ?thesis by (simp add: run_undo_def)
  qed
qed

lemma undos_ok_click:
  assumes "undos_ok s"
  shows "undos_ok (click_undo k st stops s)"
proof (cases "k < length (ro_toasts s) \<and> \<not> rx_used (ro_toasts s ! k)")
  case True
  let ?s = "s\<lparr>ro_toasts := (ro_toasts s)[k := (ro_toasts s ! k)\<lparr>rx_used := True\<rparr>]\<rparr>"
  have fresh: "toast_ok (restored_by k s) (ro_toasts s ! k)" using assms True by (simp add: undos_ok_def)
  with True have none: "restored_by k s = []" "rx_waits (ro_toasts s ! k) = None"
    by (auto simp: toast_ok_def waiting_run_def split: option.splits)
  have "toast_ok (restored_by k s @ filter (\<lambda>c. \<not> is_order c) []) ((ro_toasts s ! k)\<lparr>rx_used := True\<rparr>)"
    by (auto simp: toast_ok_def waiting_run_def none allowed_def intro!: exI [of _ 0])
  then have ok: "undos_ok ?s"
    by (intro undos_ok_change [OF assms conjunct1 [OF True], of _ "(ro_toasts s ! k)\<lparr>rx_used := True\<rparr>" "[]"]) simp_all
  have "undos_ok (run_undo k (rx_items (ro_toasts s ! k)) st 0 stops ?s)"
    by (rule undos_ok_run [OF ok, of k "[]"]) (use True none in \<open>simp_all add: allowed_def\<close>)
  with True show ?thesis by (simp add: click_undo_def)
next
  case False
  with assms show ?thesis by (auto simp: click_undo_def)
qed

lemma undos_ok_continue:
  assumes "undos_ok s" and "k < length (ro_toasts s)" and "waiting_run (ro_toasts s ! k) = Some u"
  shows "undos_ok (run_undo k (un_rest u) (un_state u) n stops s)"
proof -
  have "toast_ok (restored_by k s) (ro_toasts s ! k)" using assms by (simp add: undos_ok_def)
  with assms(3) obtain front where "rx_used (ro_toasts s ! k)" "rx_items (ro_toasts s ! k) = front @ un_rest u"
    "restored_by k s = allowed (un_state u) front" by (auto simp: toast_ok_def)
  then show ?thesis by (rule undos_ok_run [OF assms(1,2)])
qed

lemma undos_ok_answer:
  assumes "undos_ok s"
  shows "undos_ok (restore_answer k ok stops s)"
proof (cases "k < length (ro_toasts s)")
  case True
  let ?t = "ro_toasts s ! k"
  have here: "toast_ok (restored_by k s) ?t" using assms True by (simp add: undos_ok_def)
  show ?thesis
  proof (cases "rx_waits ?t")
    case None
    with assms show ?thesis by (simp add: restore_answer_def)
  next
    case (Some w)
    show ?thesis
    proof (cases w)
      case (WaitOrder u)
      with Some True undos_ok_continue [OF assms True, of u] show ?thesis by (simp add: restore_answer_def waiting_run_def)
    next
      case (WaitRestore u follow)
      note run = undos_ok_continue [OF assms True, of u]
      from here Some WaitRestore obtain front where front: "rx_used ?t" "rx_items ?t = front @ un_rest u"
        "restored_by k s = allowed (un_state u) front" "\<forall>c. follow = Some c \<longrightarrow> is_order c"
        by (auto simp: toast_ok_def waiting_run_def)
      have stopped: "toast_ok (restored_by k s @ filter (\<lambda>c. \<not> is_order c) []) (?t\<lparr>rx_waits := None\<rparr>)"
        using front by (auto simp: toast_ok_def waiting_run_def intro!: exI [of _ "un_state u"] exI [of _ "length front"])
      have ordered: "toast_ok (restored_by k s @ filter (\<lambda>c. \<not> is_order c) [c]) (?t\<lparr>rx_waits := Some (WaitOrder u)\<rparr>)"
        if "follow = Some c" for c
        using front that by (auto simp: toast_ok_def waiting_run_def)
      show ?thesis
        using True Some WaitRestore run undos_ok_change [OF assms True, of _ "?t\<lparr>rx_waits := None\<rparr>" "[]"] stopped
          undos_ok_change [OF assms True, of _ "?t\<lparr>rx_waits := Some (WaitOrder u)\<rparr>" "[c]" for c] ordered
        by (auto simp: restore_answer_def waiting_run_def split: option.split)
    qed
  qed
next
  case False
  with assms show ?thesis by (simp add: restore_answer_def)
qed

lemma undos_ok_step:
  assumes "undos_ok s"
  shows "undos_ok (release_step s e)"
proof (cases e)
  case (RoRelease r ok)
  have "ro_toasts (release_settles r ok s) = ro_toasts s" "ro_calls (release_settles r ok s) = ro_calls s"
    by (simp_all add: release_settles_def offer_release_def Let_def split: option.split)
  with assms RoRelease show ?thesis by (simp add: undos_ok_def restored_by_def)
next
  case (RoTimer t)
  show ?thesis
  proof (cases "List.find (\<lambda>(k, b). ob_timer b = t) (ro_pending s)")
    case None
    with assms RoTimer show ?thesis by (simp add: offer_timer_def)
  next
    case (Some kb)
    obtain key b where kb: "kb = (key, b)" by (cases kb)
    have "restored_by (length (ro_toasts s)) s = []"
      using assms by (fastforce simp: undos_ok_def restored_by_def filter_empty_conv)
    moreover have "toast_ok [] \<lparr>rx_items = ob_items b, rx_used = False, rx_waits = None\<rparr>"
      by (simp add: toast_ok_def waiting_run_def)
    ultimately show ?thesis using assms RoTimer Some kb
      by (auto simp: offer_timer_def undos_ok_def nth_append less_Suc_eq)
  qed
next
  case (RoClick k st stops)
  with undos_ok_click [OF assms] show ?thesis by simp
next
  case (RoAnswer k ok stops)
  with undos_ok_answer [OF assms] show ?thesis by simp
qed

interpretation undos: event_machine release_step undos_ok no_offers
  by unfold_locales (simp add: undos_ok_def no_offers_def, rule undos_ok_step)

section \<open>Properties\<close>

text \<open>
  C24. A confirmed release is offered back exactly once: whatever the order of releases, timers, clicks and
  answers, the releases the server confirmed are, each as often as it was confirmed, those waiting in a batch together with those on
  a toast; and every batch and every toast holds releases of the same thing from the same place only.
\<close>

theorem confirmed_releases_are_offered_once:
  "offered_items (release_session es) = mset (concat (map confirmed_of es)) \<and> batches_ok (release_session es)"
  using batches_run by blast



lemma position_found: "i \<in> set ss \<Longrightarrow> \<exists>p. position_in i ss = Some p"
  by (induction ss) auto

lemma position_take_drop:
  assumes "distinct ss" and "position_in i ss = Some p"
  shows "p < length ss \<and> take p (filter (\<lambda>x. x \<noteq> i) ss) @ i # drop p (filter (\<lambda>x. x \<noteq> i) ss) = ss
         \<and> Suc (length (filter (\<lambda>x. x \<noteq> i) ss)) = length ss"
  using assms
proof (induction ss arbitrary: p)
  case (Cons x ss)
  show ?case
  proof (cases "x = i")
    case True
    with Cons.prems have "filter (\<lambda>x. x \<noteq> i) ss = ss" "p = 0" by (auto simp: filter_id_conv)
    with True show ?thesis by simp
  next
    case False
    with Cons.prems obtain q where "p = Suc q" "position_in i ss = Some q" by auto
    with Cons False show ?thesis by simp
  qed
qed simp

text \<open>
  A stop that was taken off its route goes back where it was: when nobody touched the route meanwhile,
  appending the stop and writing the order that follows gives the very route it was released from, and the order is only offered
  against the stops the appending left.
\<close>

theorem released_stop_goes_back_to_its_slot:
  assumes "List.find (\<lambda>r. incident_route.ig_id r = g) groups = Some route" and "distinct (ig_stops route)" and "i \<in> set (ig_stops route)"
    and "captured_stop label ops groups g i = Some rel"
    and "now g = filter (\<lambda>x. x \<noteq> i) (ig_stops route)"
  shows "case back_into_slot rel now of
           None \<Rightarrow> now g @ [i] = ig_stops route
         | Some c \<Rightarrow> c = RcOrder g (ig_stops route) (now g @ [i])"
proof -
  let ?ss = "ig_stops route"
  from position_found [OF assms(3)] obtain p where p: "position_in i ?ss = Some p" by blast
  note slot = position_take_drop [OF assms(2) p]
  from assms(1,4) p have rel: "rel = RelStop g i (incident_label label ops i) (incident_route.ig_name route) (Some p)"
    by (simp add: captured_stop_def)
  show ?thesis
  proof (cases "p < length (now g)")
    case True
    with slot show ?thesis by (simp add: back_into_slot_def rel assms(5))
  next
    case False
    with slot assms(5) have "take p (now g) = now g" "drop p (now g) = []" by simp_all
    with slot False show ?thesis by (simp add: back_into_slot_def rel assms(5))
  qed
qed

theorem released_stop_goes_back_to_its_slot_witness:
  "\<exists>route rel. ig_stops route = [''a'', ''b'', ''c''] \<and> captured_stop op_location [] [route] ''g'' ''b'' = Some rel
     \<and> back_into_slot rel (\<lambda>_. [''a'', ''c'']) = Some (RcOrder ''g'' [''a'', ''b'', ''c''] [''a'', ''c'', ''b''])"
proof -
  let ?r = "\<lparr>incident_route.ig_id = ''g'', ig_event = ''e'', ig_name = ''R'', ig_color = None, ig_notes = None, ig_position = 0,
    ig_created = None, ig_updated = None, ig_createdBy = None, ig_stops = [''a'', ''b'', ''c''], ig_assignments = [],
    ig_total = 3, ig_done = 0, ig_announced = None\<rparr>"
  let ?rel = "RelStop ''g'' ''b'' [] ''R'' (Some 1)"
  have f: "List.find (\<lambda>r. incident_route.ig_id r = ''g'') [?r] = Some ?r" by simp
  have c: "captured_stop op_location [] [?r] ''g'' ''b'' = Some ?rel" by (simp add: captured_stop_def incident_label_def)
  have "case back_into_slot ?rel (\<lambda>_. [''a'', ''c'']) of None \<Rightarrow> [''a'', ''c''] @ [''b''] = ig_stops ?r
      | Some x \<Rightarrow> x = RcOrder ''g'' (ig_stops ?r) ([''a'', ''c''] @ [''b''])"
    by (rule released_stop_goes_back_to_its_slot [OF f _ _ c]) simp_all
  then have "back_into_slot ?rel (\<lambda>_. [''a'', ''c'']) = Some (RcOrder ''g'' [''a'', ''b'', ''c''] [''a'', ''c'', ''b''])"
    by (simp split: option.splits)
  with c show ?thesis by (intro exI [of _ ?r] exI [of _ ?rel]) simp
qed

end
