(* ===== verification/Realtime.thy ===== *)
theory Realtime
  imports BoardTypes "HOL-Library.AList"
begin

text \<open>
  The shared socket client (\<^verbatim>\<open>frontend/lib/websocket-client.ts\<close>): the reference count of its consumers,
  the dialling, the buffered listeners and the status. socket.io is not part of the sources: what the code
  reads of a socket (\<^verbatim>\<open>connected\<close>, \<^verbatim>\<open>active\<close>) is an argument of the operation that reads it, what it calls on
  it is recorded, and its events are steps. Callbacks are numbers, the identity of a function object.
\<close>

section \<open>State\<close>

datatype ws_status = WsConnecting | WsConnected | WsDisconnected | WsError

datatype socket_call =
    SkOn string nat
  | SkOff string nat
  | SkJoin string
  | SkLeave string
  | SkPing
  | SkConnect

record io_socket =
  sk_calls :: "socket_call list"

record ws_client =
  ws_socket :: "io_socket option"
  ws_status :: ws_status
  ws_listeners :: "(string \<times> nat list) list"
  ws_statusListeners :: "nat list"
  ws_reconnectAttempts :: nat
  ws_pingInterval :: "nat option"
  ws_running :: "nat list"
  ws_nextInterval :: nat
  ws_consumers :: nat
  ws_told :: "(nat \<times> ws_status) list"

definition max_reconnect_attempts :: nat where
  "max_reconnect_attempts = 10"

definition ws_initial :: ws_client where
  "ws_initial =
     \<lparr>ws_socket = None, ws_status = WsDisconnected, ws_listeners = [], ws_statusListeners = [],
      ws_reconnectAttempts = 0, ws_pingInterval = None, ws_running = [], ws_nextInterval = 0,
      ws_consumers = 0, ws_told = []\<rparr>"

section \<open>Operations\<close>

definition update_status :: "ws_status \<Rightarrow> ws_client \<Rightarrow> ws_client" where
  "update_status s c =
     (if ws_status c = s then c
      else c\<lparr>ws_status := s, ws_told := ws_told c @ map (\<lambda>l. (l, s)) (ws_statusListeners c)\<rparr>)"

definition on_socket :: "socket_call list \<Rightarrow> ws_client \<Rightarrow> ws_client" where
  "on_socket calls c =
     (case ws_socket c of None \<Rightarrow> c | Some s \<Rightarrow> c\<lparr>ws_socket := Some (s\<lparr>sk_calls := sk_calls s @ calls\<rparr>)\<rparr>)"

text \<open>\<^verbatim>\<open>socket.disconnect()\<close>, which tells a connected socket's own handler, and letting go of the socket.\<close>

definition close_socket :: "bool \<Rightarrow> ws_client \<Rightarrow> ws_client" where
  "close_socket con c = (if con then update_status WsDisconnected c else c)\<lparr>ws_socket := None\<rparr>"

definition setup_event_handlers :: "ws_client \<Rightarrow> ws_client" where
  "setup_event_handlers c =
     c\<lparr>ws_running := (case ws_pingInterval c of None \<Rightarrow> ws_running c | Some i \<Rightarrow> removeAll i (ws_running c)) @ [ws_nextInterval c],
       ws_pingInterval := Some (ws_nextInterval c), ws_nextInterval := ws_nextInterval c + 1\<rparr>"

definition buffered :: "ws_client \<Rightarrow> socket_call list" where
  "buffered c = concat (map (\<lambda>(e, cbs). map (SkOn e) cbs) (ws_listeners c))"

definition open_socket :: "ws_client \<Rightarrow> ws_client" where
  "open_socket c =
     update_status WsConnecting (on_socket (buffered c) (setup_event_handlers (c\<lparr>ws_socket := Some \<lparr>sk_calls = []\<rparr>\<rparr>)))"

definition dial :: "bool \<Rightarrow> bool \<Rightarrow> ws_client \<Rightarrow> ws_client" where
  "dial con active c =
     (if ws_socket c \<noteq> None
      then if con then c
           else if active then c
           else open_socket (close_socket con c)
      else open_socket c)"

definition ws_connect :: "bool \<Rightarrow> bool \<Rightarrow> ws_client \<Rightarrow> ws_client" where
  "ws_connect con active c = dial con active (c\<lparr>ws_consumers := ws_consumers c + 1\<rparr>)"

definition force_disconnect :: "bool \<Rightarrow> ws_client \<Rightarrow> ws_client" where
  "force_disconnect con c =
     (let c1 = c\<lparr>ws_consumers := 0,
                ws_running := (case ws_pingInterval c of None \<Rightarrow> ws_running c | Some i \<Rightarrow> removeAll i (ws_running c)),
                ws_pingInterval := None\<rparr>
      in if ws_socket c1 \<noteq> None then update_status WsDisconnected (close_socket con c1) else c1)"

definition ws_disconnect :: "bool \<Rightarrow> ws_client \<Rightarrow> ws_client" where
  "ws_disconnect con c =
     (let c1 = c\<lparr>ws_consumers := ws_consumers c - 1\<rparr>
      in if ws_consumers c1 > 0 then c1 else force_disconnect con c1)"

text \<open>After the old socket is let go there is none, so the dial reads no flags.\<close>

definition reconnect :: "bool \<Rightarrow> ws_client \<Rightarrow> ws_client" where
  "reconnect con c =
     dial False False ((if ws_socket c \<noteq> None then close_socket con c else c)\<lparr>ws_reconnectAttempts := 0\<rparr>)"

definition join_room :: "bool \<Rightarrow> string \<Rightarrow> ws_client \<Rightarrow> ws_client" where
  "join_room con room c = (if con then on_socket [SkJoin room] c else c)"

definition leave_room :: "bool \<Rightarrow> string \<Rightarrow> ws_client \<Rightarrow> ws_client" where
  "leave_room con room c = (if con then on_socket [SkLeave room] c else c)"

definition ws_ping :: "bool \<Rightarrow> ws_client \<Rightarrow> ws_client" where
  "ws_ping con c = (if con then on_socket [SkPing] c else c)"

definition set_add :: "'a \<Rightarrow> 'a list \<Rightarrow> 'a list" where
  "set_add x xs = (if x \<in> set xs then xs else xs @ [x])"

definition callbacks_of :: "ws_client \<Rightarrow> string \<Rightarrow> nat list" where
  "callbacks_of c e = nullish (map_of (ws_listeners c) e) []"

definition ws_on :: "string \<Rightarrow> nat \<Rightarrow> ws_client \<Rightarrow> ws_client" where
  "ws_on e cb c =
     on_socket [SkOn e cb] (c\<lparr>ws_listeners := AList.update e (set_add cb (callbacks_of c e)) (ws_listeners c)\<rparr>)"

definition ws_off :: "string \<Rightarrow> nat \<Rightarrow> ws_client \<Rightarrow> ws_client" where
  "ws_off e cb c =
     on_socket [SkOff e cb]
       (case map_of (ws_listeners c) e of
          None \<Rightarrow> c
        | Some cbs \<Rightarrow>
            let rest = removeAll cb cbs
            in c\<lparr>ws_listeners := (if rest = [] then AList.delete e (ws_listeners c) else AList.update e rest (ws_listeners c))\<rparr>)"

definition on_status_change :: "nat \<Rightarrow> ws_client \<Rightarrow> ws_client" where
  "on_status_change l c = c\<lparr>ws_statusListeners := set_add l (ws_statusListeners c), ws_told := ws_told c @ [(l, ws_status c)]\<rparr>"

definition off_status_change :: "nat \<Rightarrow> ws_client \<Rightarrow> ws_client" where
  "off_status_change l c = c\<lparr>ws_statusListeners := removeAll l (ws_statusListeners c)\<rparr>"

definition is_connected :: "ws_client \<Rightarrow> bool" where
  "is_connected c = (ws_status c = WsConnected)"

section \<open>What the socket reports\<close>

definition sk_connected :: "bool \<Rightarrow> ws_client \<Rightarrow> ws_client" where
  "sk_connected con c =
     join_room con ''operations'' (update_status WsConnected (c\<lparr>ws_reconnectAttempts := 0\<rparr>))"

definition sk_disconnected :: "string \<Rightarrow> ws_client \<Rightarrow> ws_client" where
  "sk_disconnected reason c =
     (let c1 = update_status WsDisconnected c in if reason = ''io server disconnect'' then on_socket [SkConnect] c1 else c1)"

definition sk_connect_error :: "ws_client \<Rightarrow> ws_client" where
  "sk_connect_error c =
     (let c1 = c\<lparr>ws_reconnectAttempts := ws_reconnectAttempts c + 1\<rparr>
      in if ws_reconnectAttempts c1 \<ge> max_reconnect_attempts then update_status WsError c1 else c1)"

datatype ws_event =
    WsConnectCall bool bool
  | WsDisconnectCall bool
  | WsForce bool
  | WsReconnect bool
  | WsOn string nat
  | WsOff string nat
  | WsStatusOn nat
  | WsStatusOff nat
  | WsJoin bool string
  | WsLeave bool string
  | WsTick bool
  | WsSockConnected bool
  | WsSockDisconnected string
  | WsSockError

text \<open>Only a socket there is reports: one let go of has been disconnected.\<close>

fun ws_step :: "ws_client \<Rightarrow> ws_event \<Rightarrow> ws_client" where
  "ws_step c (WsConnectCall con active) = ws_connect con active c"
| "ws_step c (WsDisconnectCall con) = ws_disconnect con c"
| "ws_step c (WsForce con) = force_disconnect con c"
| "ws_step c (WsReconnect con) = reconnect con c"
| "ws_step c (WsOn e cb) = ws_on e cb c"
| "ws_step c (WsOff e cb) = ws_off e cb c"
| "ws_step c (WsStatusOn l) = on_status_change l c"
| "ws_step c (WsStatusOff l) = off_status_change l c"
| "ws_step c (WsJoin con room) = join_room con room c"
| "ws_step c (WsLeave con room) = leave_room con room c"
| "ws_step c (WsTick con) = (if ws_pingInterval c \<noteq> None then ws_ping con c else c)"
| "ws_step c (WsSockConnected con) = (if ws_socket c \<noteq> None then sk_connected con c else c)"
| "ws_step c (WsSockDisconnected reason) = (if ws_socket c \<noteq> None then sk_disconnected reason c else c)"
| "ws_step c WsSockError = (if ws_socket c \<noteq> None then sk_connect_error c else c)"

section \<open>Specifications\<close>

text \<open>How often a handler is attached after a list of calls: \<^verbatim>\<open>on\<close> adds it once more, \<^verbatim>\<open>off\<close> takes one off.\<close>

definition attached :: "string \<Rightarrow> nat \<Rightarrow> socket_call list \<Rightarrow> nat" where
  "attached e cb calls = foldl (\<lambda>n call. if call = SkOn e cb then n + 1 else if call = SkOff e cb then n - 1 else n) 0 calls"

definition registered :: "ws_client \<Rightarrow> string \<Rightarrow> nat \<Rightarrow> bool" where
  "registered c e cb = (cb \<in> set (callbacks_of c e))"

text \<open>A lease: how many hold the connection, and whether there is one.\<close>

type_synonym lease = "nat \<times> bool"

definition ws_lease :: "ws_client \<Rightarrow> lease" where
  "ws_lease c = (ws_consumers c, ws_socket c \<noteq> None)"

fun lease_step :: "lease \<Rightarrow> ws_event \<Rightarrow> lease" where
  "lease_step (n, alive) (WsConnectCall _ _) = (n + 1, True)"
| "lease_step (n, alive) (WsDisconnectCall _) = (n - 1, alive \<and> n - 1 > 0)"
| "lease_step (n, alive) (WsForce _) = (0, False)"
| "lease_step (n, alive) (WsReconnect _) = (n, True)"
| "lease_step (n, alive) _ = (n, alive)"

definition listed :: "(string \<times> nat list) list \<Rightarrow> bool" where
  "listed al \<longleftrightarrow> distinct (map fst al) \<and> (\<forall>p\<in>set al. snd p \<noteq> [] \<and> distinct (snd p))"

definition ws_base :: "ws_client \<Rightarrow> bool" where
  "ws_base c \<longleftrightarrow> listed (ws_listeners c) \<and> ws_running c = (case ws_pingInterval c of None \<Rightarrow> [] | Some i \<Rightarrow> [i])"

definition ws_inv :: "ws_client \<Rightarrow> bool" where
  "ws_inv c \<longleftrightarrow> ws_base c
     \<and> (ws_socket c = None \<longleftrightarrow> ws_pingInterval c = None)
     \<and> (ws_socket c = None \<longrightarrow> ws_status c = WsDisconnected)
     \<and> (ws_status c = WsError \<longrightarrow> max_reconnect_attempts \<le> ws_reconnectAttempts c)"

section \<open>Lemmas\<close>

lemmas ws_defs = update_status_def on_socket_def close_socket_def setup_event_handlers_def open_socket_def dial_def
  ws_connect_def force_disconnect_def ws_disconnect_def reconnect_def join_room_def leave_room_def ws_ping_def
  ws_on_def ws_off_def on_status_change_def off_status_change_def sk_connected_def sk_disconnected_def sk_connect_error_def

lemma lease_of_step: "ws_lease (ws_step c ev) = lease_step (ws_lease c) ev"
  by (cases ev) (auto simp: ws_lease_def ws_defs Let_def split: option.splits)

lemma ws_inv_initial: "ws_inv ws_initial"
  by (simp add: ws_inv_def ws_base_def ws_initial_def listed_def)

lemma distinct_set_add [simp]: "distinct xs \<Longrightarrow> distinct (set_add x xs)"
  by (simp add: set_add_def)

lemma update_members: "p \<in> set (AList.update k v al) \<Longrightarrow> p = (k, v) \<or> p \<in> set al"
  by (induction al) (auto split: if_splits)

lemma listed_update: "listed al \<Longrightarrow> cbs \<noteq> [] \<Longrightarrow> distinct cbs \<Longrightarrow> listed (AList.update e cbs al)"
  by (auto simp: listed_def distinct_update dest!: update_members)

lemma listed_delete: "listed al \<Longrightarrow> listed (AList.delete e al)"
  by (auto simp: listed_def AList.delete_eq intro: distinct_map_filter)

lemma listed_lookup: "listed al \<Longrightarrow> map_of al e = Some cbs \<Longrightarrow> cbs \<noteq> [] \<and> distinct cbs"
  by (force simp: listed_def dest: map_of_SomeD)

lemma callbacks_distinct: "listed (ws_listeners c) \<Longrightarrow> distinct (callbacks_of c e)"
  by (auto simp: callbacks_of_def nullish_def dest: listed_lookup split: option.split)

lemma ws_inv_listeners: "ws_inv c \<Longrightarrow> listed al \<Longrightarrow> ws_inv (c\<lparr>ws_listeners := al\<rparr>)"
  by (simp add: ws_inv_def ws_base_def)

lemma ws_inv_on_socket: "ws_inv c \<Longrightarrow> ws_inv (on_socket calls c)"
  by (auto simp: ws_inv_def ws_base_def on_socket_def split: option.split)

lemma ws_inv_update_status: "ws_inv c \<Longrightarrow> ws_socket c \<noteq> None \<Longrightarrow> s \<noteq> WsError \<Longrightarrow> ws_inv (update_status s c)"
  by (auto simp: ws_inv_def ws_base_def update_status_def)

lemma ws_base_close [simp]: "ws_base (close_socket con c) = ws_base c"
  by (simp add: ws_base_def close_socket_def update_status_def)

lemma close_socket_none [simp]: "ws_socket (close_socket con c) = None"
  by (simp add: close_socket_def)

lemma ws_base_attempts [simp]: "ws_base (c\<lparr>ws_reconnectAttempts := n\<rparr>) = ws_base c" "ws_base (c\<lparr>ws_consumers := n\<rparr>) = ws_base c"
  by (simp_all add: ws_base_def)

lemma ws_inv_open: "ws_base c \<Longrightarrow> ws_inv (open_socket c)"
  by (auto simp: ws_inv_def ws_base_def open_socket_def update_status_def on_socket_def setup_event_handlers_def split: option.split)

lemma ws_inv_consumers: "ws_inv c \<Longrightarrow> ws_inv (c\<lparr>ws_consumers := n\<rparr>)"
  by (simp add: ws_inv_def ws_base_def)

lemma ws_inv_base: "ws_inv c \<Longrightarrow> ws_base c"
  by (simp add: ws_inv_def)

lemma ws_inv_dial: "ws_inv c \<Longrightarrow> ws_inv (dial con active c)"
  by (simp add: dial_def ws_inv_open ws_inv_base)

lemma ws_inv_reconnect: "ws_inv c \<Longrightarrow> ws_inv (reconnect con c)"
  unfolding reconnect_def dial_def
  by (cases "ws_socket c") (simp_all add: ws_inv_open ws_inv_base close_socket_none)

lemma ws_inv_force: "ws_inv c \<Longrightarrow> ws_inv (force_disconnect con c)"
  by (auto simp: force_disconnect_def close_socket_def update_status_def ws_inv_def ws_base_def Let_def split: option.splits)

lemma set_add_not_Nil [simp]: "set_add x xs \<noteq> []"
  by (auto simp: set_add_def)

lemma ws_inv_listed: "ws_inv c \<Longrightarrow> listed (ws_listeners c)"
  by (simp add: ws_inv_def ws_base_def)

lemma ws_inv_on: "ws_inv c \<Longrightarrow> ws_inv (ws_on e cb c)"
  unfolding ws_on_def
  by (intro ws_inv_on_socket ws_inv_listeners) (simp_all add: ws_inv_listed listed_update callbacks_distinct)

lemma ws_inv_off: "ws_inv c \<Longrightarrow> ws_inv (ws_off e cb c)"
proof -
  assume inv: "ws_inv c"
  note l = ws_inv_listed [OF inv]
  have "listed (if removeAll cb cbs = [] then AList.delete e (ws_listeners c) else AList.update e (removeAll cb cbs) (ws_listeners c))"
    if "map_of (ws_listeners c) e = Some cbs" for cbs
    using listed_lookup [OF l that] listed_delete [OF l] listed_update [OF l] distinct_removeAll by metis
  with inv show ?thesis
    unfolding ws_off_def Let_def by (intro ws_inv_on_socket) (simp add: ws_inv_listeners split: option.split)
qed

lemma ws_inv_step: "ws_inv c \<Longrightarrow> ws_inv (ws_step c ev)"
proof (induction c ev rule: ws_step.induct)
  case (1 c con active)
  then show ?case by (simp add: ws_connect_def ws_inv_dial ws_inv_consumers)
next
  case (2 c con)
  then show ?case by (simp add: ws_disconnect_def Let_def ws_inv_force ws_inv_consumers)
next
  case (7 c l)
  then show ?case by (simp add: on_status_change_def ws_inv_def ws_base_def)
next
  case (8 c l)
  then show ?case by (simp add: off_status_change_def ws_inv_def ws_base_def)
next
  case (12 c con)
  then have "ws_inv (update_status WsConnected (c\<lparr>ws_reconnectAttempts := 0\<rparr>))" if "ws_socket c \<noteq> None"
    using that by (auto simp: ws_inv_def ws_base_def update_status_def)
  with 12 show ?case by (simp add: sk_connected_def join_room_def ws_inv_on_socket)
next
  case (13 c reason)
  then show ?case by (simp add: sk_disconnected_def Let_def ws_inv_on_socket ws_inv_update_status)
next
  case (14 c)
  then show ?case by (auto simp: sk_connect_error_def Let_def ws_inv_def ws_base_def update_status_def)
qed (simp_all add: ws_inv_force ws_inv_reconnect ws_inv_on ws_inv_off join_room_def leave_room_def ws_ping_def ws_inv_on_socket)

interpretation socket: event_machine ws_step ws_inv ws_initial
  by unfold_locales (simp_all add: ws_inv_initial ws_inv_step)

text \<open>Handlers on the socket\<close>

lemma attached_Nil [simp]: "attached e cb [] = 0"
  by (simp add: attached_def)

lemma attached_append1: "attached e cb (calls @ [call]) =
   (if call = SkOn e cb then attached e cb calls + 1 else if call = SkOff e cb then attached e cb calls - 1 else attached e cb calls)"
  by (simp add: attached_def)

lemma attached_ons: "attached e cb (calls @ map (SkOn e') cbs) = attached e cb calls + (if e' = e then count_list cbs cb else 0)"
  by (induction cbs arbitrary: calls rule: rev_induct) (auto simp: attached_append1 simp flip: append_assoc)

lemma count_list_distinct: "distinct xs \<Longrightarrow> count_list xs x = (if x \<in> set xs then 1 else 0)"
  by (induction xs) auto

lemma attached_buffered:
  "listed al \<Longrightarrow> attached e cb (calls @ concat (map (\<lambda>(e, cbs). map (SkOn e) cbs) al)) =
     attached e cb calls + (if cb \<in> set (nullish (map_of al e) []) then 1 else 0)"
proof (induction al arbitrary: calls)
  case (Cons p al)
  obtain e' cbs where p: "p = (e', cbs)" by force
  from Cons.prems have l: "listed al" "distinct cbs" "e' \<notin> fst ` set al" by (auto simp: listed_def p)
  from l(3) have "map_of al e' = None" by (simp add: map_of_eq_None_iff)
  with Cons.IH [OF l(1), of "calls @ map (SkOn e') cbs"] l(2) show ?case
    by (auto simp: p attached_ons count_list_distinct)
qed simp

text \<open>Every buffered listener is attached exactly once.\<close>

definition once_each :: "ws_client \<Rightarrow> bool" where
  "once_each c \<longleftrightarrow> (case ws_socket c of None \<Rightarrow> True
     | Some s \<Rightarrow> \<forall>e cb. attached e cb (sk_calls s) = (if registered c e cb then 1 else 0))"

fun fresh_on :: "ws_client \<Rightarrow> ws_event \<Rightarrow> bool" where
  "fresh_on c (WsOn e cb) = (\<not> registered c e cb)"
| "fresh_on c _ = True"

fun fresh_run :: "ws_client \<Rightarrow> ws_event list \<Rightarrow> bool" where
  "fresh_run c [] = True"
| "fresh_run c (ev # evs) = (fresh_on c ev \<and> fresh_run (ws_step c ev) evs)"

lemma set_set_add [simp]: "set (set_add x xs) = insert x (set xs)"
  by (auto simp: set_add_def)

lemma registered_on: "registered (ws_on e cb c) e' cb' \<longleftrightarrow> registered c e' cb' \<or> e' = e \<and> cb' = cb"
  by (auto simp: registered_def ws_on_def callbacks_of_def on_socket_def update_conv' split: option.split)

lemma registered_off:
  assumes "listed (ws_listeners c)"
  shows "registered (ws_off e cb c) e' cb' \<longleftrightarrow> registered c e' cb' \<and> \<not> (e' = e \<and> cb' = cb)"
proof (cases "map_of (ws_listeners c) e")
  case None
  then show ?thesis by (auto simp: registered_def ws_off_def callbacks_of_def on_socket_def split: option.splits)
next
  case (Some cbs)
  have "callbacks_of (ws_off e cb c) e' = (if e' = e then removeAll cb cbs else callbacks_of c e')"
    by (auto simp: ws_off_def callbacks_of_def on_socket_def Some Let_def update_conv' delete_conv' split: option.split)
  then show ?thesis using Some by (auto simp: registered_def callbacks_of_def)
qed

lemma once_each_same:
  assumes "once_each c" and "ws_listeners c' = ws_listeners c"
    and "ws_socket c' = None \<or> (\<exists>s s'. ws_socket c = Some s \<and> ws_socket c' = Some s'
           \<and> (\<forall>e cb. attached e cb (sk_calls s') = attached e cb (sk_calls s)))"
  shows "once_each c'"
  using assms by (auto simp: once_each_def registered_def callbacks_of_def)

lemma on_socket_listeners [simp]: "ws_listeners (on_socket calls c) = ws_listeners c"
  by (simp add: on_socket_def split: option.split)

lemma update_status_frame [simp]:
  "ws_listeners (update_status s c) = ws_listeners c" "ws_socket (update_status s c) = ws_socket c"
  by (simp_all add: update_status_def)

lemma once_each_open:
  assumes "listed (ws_listeners c)"
  shows "once_each (open_socket c)"
  using attached_buffered [OF assms, of _ _ "[]"]
  by (simp add: once_each_def open_socket_def on_socket_def setup_event_handlers_def buffered_def registered_def callbacks_of_def)

lemma once_each_quiet:
  assumes "once_each c" and "call \<in> {SkJoin room, SkLeave room, SkPing, SkConnect}"
  shows "once_each (on_socket [call] c)"
  by (rule once_each_same [OF assms(1)]) (use assms(2) in \<open>auto simp: on_socket_def attached_append1 split: option.split\<close>)

lemma once_each_frame:
  "once_each c \<Longrightarrow> ws_listeners c' = ws_listeners c \<Longrightarrow> ws_socket c' = None \<or> ws_socket c' = ws_socket c \<Longrightarrow> once_each c'"
  by (auto simp: once_each_def registered_def callbacks_of_def split: option.splits)

lemma open_closed:
  "ws_listeners (close_socket con c) = ws_listeners c"
  by (simp add: close_socket_def)

lemma once_each_step:
  assumes inv: "ws_inv c" and once: "once_each c" and fresh: "fresh_on c ev"
  shows "once_each (ws_step c ev)"
  using assms
proof (induction c ev rule: ws_step.induct)
  case (1 c con active)
  then show ?case
    by (auto simp: ws_connect_def dial_def ws_inv_listed open_closed intro!: once_each_open intro: once_each_frame)
next
  case (2 c con)
  then show ?case
    by (intro once_each_frame [OF 2(2)]) (auto simp: ws_disconnect_def force_disconnect_def Let_def open_closed)
next
  case (3 c con)
  then show ?case
    by (intro once_each_frame [OF 3(2)]) (auto simp: force_disconnect_def Let_def open_closed)
next
  case (4 c con)
  then show ?case
    by (auto simp: reconnect_def dial_def ws_inv_listed open_closed intro!: once_each_open)
next
  case (5 c e cb)
  show ?case
  proof (cases "ws_socket c")
    case (Some s)
    then have "ws_socket (ws_on e cb c) = Some (s\<lparr>sk_calls := sk_calls s @ [SkOn e cb]\<rparr>)"
      by (simp add: ws_on_def on_socket_def)
    with 5 Some show ?thesis by (auto simp: once_each_def registered_on attached_append1)
  qed (simp add: once_each_def ws_on_def on_socket_def)
next
  case (6 c e cb)
  show ?case
  proof (cases "ws_socket c")
    case (Some s)
    then have sk: "ws_socket (ws_off e cb c) = Some (s\<lparr>sk_calls := sk_calls s @ [SkOff e cb]\<rparr>)"
      by (simp add: ws_off_def on_socket_def Let_def split: option.split)
    with 6 Some show ?thesis
      by (auto simp: once_each_def registered_off [OF ws_inv_listed] attached_append1)
  next
    case None
    then show ?thesis by (simp add: once_each_def ws_off_def on_socket_def Let_def split: option.split)
  qed
next
  case (12 c con)
  have "once_each (update_status WsConnected (c\<lparr>ws_reconnectAttempts := 0\<rparr>))" by (rule once_each_frame [OF 12(2)]) simp_all
  with 12 show ?case by (simp add: sk_connected_def join_room_def once_each_quiet)
next
  case (13 c reason)
  have "once_each (update_status WsDisconnected c)" by (rule once_each_frame [OF 13(2)]) simp_all
  with 13 show ?case by (simp add: sk_disconnected_def Let_def once_each_quiet)
next
  case (14 c)
  show ?case by (rule once_each_frame [OF 14(2)]) (simp_all add: sk_connect_error_def Let_def)
next
  case (7 c l)
  show ?case by (rule once_each_frame [OF 7(2)]) (simp_all add: on_status_change_def)
next
  case (8 c l)
  show ?case by (rule once_each_frame [OF 8(2)]) (simp_all add: off_status_change_def)
qed (simp_all add: join_room_def leave_room_def ws_ping_def once_each_quiet)

lemma once_each_run: "ws_inv c \<Longrightarrow> once_each c \<Longrightarrow> fresh_run c evs \<Longrightarrow> once_each (foldl ws_step c evs)"
  by (induction evs arbitrary: c) (simp_all add: once_each_step ws_inv_step)

text \<open>The guard of \<open>fresh_on\<close> is needed: a callback registered twice is attached twice but taken off once.\<close>

lemma double_registration_leaks:
  "let c = foldl ws_step ws_initial [WsConnectCall False False, WsOn ''pong'' 1, WsOn ''pong'' 1, WsOff ''pong'' 1]
   in \<not> registered c ''pong'' 1 \<and> map_option (attached ''pong'' 1 \<circ> sk_calls) (ws_socket c) = Some 1"
  by code_simp

section \<open>Properties\<close>

text \<open>
  C25. The client is a lease on one connection: whatever happens on the socket or among the listeners, how
  many consumers it counts and whether there is a socket at all are those of the lease machine, which knows
  only of connects, releases, forced ends and redials; the end of one consumer takes the connection from no
  other.
\<close>

theorem client_refines_the_lease:
  "ws_lease (foldl ws_step c evs) = foldl lease_step (ws_lease c) evs"
  by (induction evs arbitrary: c) (simp_all add: lease_of_step)

text \<open>
  However often the socket drops, comes back or is replaced, every registered listener is attached to it
  exactly once and nothing else is, as long as no callback is registered a second time while it still is; one
  keep-alive interval runs while there is a socket and none otherwise; without a socket the status is
  \<^verbatim>\<open>disconnected\<close>.
\<close>

theorem listeners_are_attached_once:
  assumes "fresh_run ws_initial evs"
  shows "once_each (foldl ws_step ws_initial evs) \<and> ws_inv (foldl ws_step ws_initial evs)"
  using once_each_run [OF ws_inv_initial _ assms] socket.inv_run by (simp add: once_each_def ws_initial_def)

lemma listeners_are_attached_once_witness:
  "once_each (foldl ws_step ws_initial
     [WsOn ''incident_update'' 7, WsConnectCall False False, WsSockConnected True, WsSockDisconnected ''transport close'',
      WsSockConnected True, WsReconnect True])
   \<and> ws_inv (foldl ws_step ws_initial
     [WsOn ''incident_update'' 7, WsConnectCall False False, WsSockConnected True, WsSockDisconnected ''transport close'',
      WsSockConnected True, WsReconnect True])"
  by (rule listeners_are_attached_once) (simp add: registered_def callbacks_of_def ws_initial_def)

text \<open>
  After the client has given up (ten failed attempts, status \<^verbatim>\<open>error\<close>), a consumer that connects replaces the
  dead socket but keeps the count: the first failed attempt of the new socket reports \<^verbatim>\<open>error\<close> again, although
  socket.io goes on with its own ten attempts. Only \<^verbatim>\<open>reconnect()\<close> starts the count anew.
\<close>

theorem redial_gives_up_at_once:
  assumes "ws_status c = WsError" and "max_reconnect_attempts \<le> ws_reconnectAttempts c" and "ws_socket c \<noteq> None"
  shows "ws_status (foldl ws_step c [WsConnectCall False False, WsSockError]) = WsError
     \<and> ws_status (foldl ws_step c [WsReconnect False, WsSockError]) = WsConnecting"
  using assms by (auto simp: ws_connect_def reconnect_def dial_def open_socket_def close_socket_def update_status_def
      on_socket_def setup_event_handlers_def sk_connect_error_def Let_def max_reconnect_attempts_def)

lemma redial_gives_up_at_once_witness:
  "ws_status (foldl ws_step (foldl ws_step ws_initial (WsConnectCall False False # replicate 10 WsSockError))
       [WsConnectCall False False, WsSockError]) = WsError"
proof -
  have "ws_status (foldl ws_step ws_initial (WsConnectCall False False # replicate 10 WsSockError)) = WsError"
    "max_reconnect_attempts \<le> ws_reconnectAttempts (foldl ws_step ws_initial (WsConnectCall False False # replicate 10 WsSockError))"
    "ws_socket (foldl ws_step ws_initial (WsConnectCall False False # replicate 10 WsSockError)) \<noteq> None"
    by code_simp+
  from redial_gives_up_at_once [OF this] show ?thesis by simp
qed

end
