(* ===== verification/PrintTracker.thy ===== *)
theory PrintTracker
  imports Realtime JsText
begin

text \<open>
  The toasts of queued print jobs (\<^verbatim>\<open>frontend/lib/print-job-tracker.ts\<close>): the jobs followed, their three
  timers each, the subscription to the socket, and the toasts shown. Timers are numbered entries of the
  engine with the time they are due; a firing is a step. The tracker registers with the socket client of
  \<open>Realtime\<close>; the toast library records what it is told.
\<close>

section \<open>State\<close>

datatype print_status = PjPending | PjPrinting | PjCompleted | PjFailed | PjExpired

record print_job_event =
  pe_id :: string
  pe_status :: print_status
  pe_error :: "string option"
  pe_willRetry :: bool

record toast_copy =
  tc_completed :: string
  tc_completedFallback :: string
  tc_failed :: string
  tc_failedRetry :: string
  tc_unknownError :: string
  tc_notPickedUp :: string
  tc_notPickedUpHint :: string
  tc_offline :: string
  tc_offlineHint :: string
  tc_noResult :: string
  tc_noResultHint :: string
  tc_checkPrinter :: string

record track_options =
  to_sentTitle :: string
  to_sentDescription :: "string option"
  to_subject :: "string option"
  to_onOpen :: bool

definition pickup_timeout_ms :: ms where "pickup_timeout_ms = 25000"
definition result_timeout_ms :: ms where "result_timeout_ms = 90000"
definition give_up_ms :: ms where "give_up_ms = 150000"

record tracked_job =
  tj_copy :: toast_copy
  tj_options :: track_options
  tj_claimed :: bool
  tj_pickup :: nat
  tj_result :: nat
  tj_giveUp :: nat

datatype toast_kind = ToastSuccess | ToastWarning | ToastError

text \<open>A toast: its id, its two lines, whether it stays, and the label of its button.\<close>

record toast =
  ts_kind :: toast_kind
  ts_id :: string
  ts_title :: string
  ts_description :: "string option"
  ts_stays :: bool
  ts_action :: "string option"

datatype timer_kind = PickupTimer | ResultTimer | GiveUpTimer

record engine_timer =
  tm_id :: nat
  tm_kind :: timer_kind
  tm_job :: string
  tm_due :: ms

record tracker =
  tk_jobs :: "(string \<times> tracked_job) list"
  tk_unsubscribe :: "nat option"
  tk_timers :: "engine_timer list"
  tk_next :: nat
  tk_ws :: ws_client
  tk_toasts :: "toast list"

definition tracker_initial :: "ws_client \<Rightarrow> tracker" where
  "tracker_initial ws = \<lparr>tk_jobs = [], tk_unsubscribe = None, tk_timers = [], tk_next = 0, tk_ws = ws, tk_toasts = []\<rparr>"

definition job_event_name :: string where
  "job_event_name = ''print_job_update''"

section \<open>Operations\<close>

definition toast_id :: "string \<Rightarrow> string" where
  "toast_id job = ''print-job:'' @ job"

definition clear_timer :: "nat \<Rightarrow> tracker \<Rightarrow> tracker" where
  "clear_timer n t = t\<lparr>tk_timers := filter (\<lambda>e. tm_id e \<noteq> n) (tk_timers t)\<rparr>"

definition show_toast :: "toast \<Rightarrow> tracker \<Rightarrow> tracker" where
  "show_toast x t = t\<lparr>tk_toasts := tk_toasts t @ [x]\<rparr>"

definition untrack :: "string \<Rightarrow> tracker \<Rightarrow> tracker" where
  "untrack job t =
     (case map_of (tk_jobs t) job of
        None \<Rightarrow> t
      | Some e \<Rightarrow>
          let t1 = clear_timer (tj_giveUp e) (clear_timer (tj_result e) (clear_timer (tj_pickup e) t));
              t2 = t1\<lparr>tk_jobs := AList.delete job (tk_jobs t1)\<rparr>
          in if tk_jobs t2 = []
             then (case tk_unsubscribe t2 of
                     None \<Rightarrow> t2
                   | Some cb \<Rightarrow> t2\<lparr>tk_ws := ws_off job_event_name cb (tk_ws t2), tk_unsubscribe := None\<rparr>)
             else t2)"

definition printer_action :: "tracked_job \<Rightarrow> string option" where
  "printer_action e = (if to_onOpen (tj_options e) then Some (tc_checkPrinter (tj_copy e)) else None)"

text \<open>An empty string is falsy.\<close>

definition describe :: "tracked_job \<Rightarrow> string option \<Rightarrow> string option" where
  "describe e detail =
     (case (or_null (to_subject (tj_options e)), or_null detail) of
        (Some s, Some d) \<Rightarrow> Some (s @ '': '' @ d)
      | (s, None) \<Rightarrow> s
      | (None, Some d) \<Rightarrow> Some d)"

definition trimmed_error :: "print_job_event \<Rightarrow> string option" where
  "trimmed_error j = or_null (map_option js_trim (pe_error j))"

definition outcome_toast :: "toast_kind \<Rightarrow> tracked_job \<Rightarrow> print_job_event \<Rightarrow> string \<Rightarrow> string option \<Rightarrow> bool \<Rightarrow> toast" where
  "outcome_toast k e j title desc stays =
     \<lparr>ts_kind = k, ts_id = toast_id (pe_id j), ts_title = title, ts_description = describe e desc,
      ts_stays = stays, ts_action = (if stays then printer_action e else None)\<rparr>"

definition apply_event :: "tracked_job \<Rightarrow> print_job_event \<Rightarrow> tracker \<Rightarrow> tracker" where
  "apply_event e j t =
     (if pe_status j = PjPrinting
      then clear_timer (tj_pickup e) (t\<lparr>tk_jobs := AList.update (pe_id j) (e\<lparr>tj_claimed := True\<rparr>) (tk_jobs t)\<rparr>)
      else if pe_status j = PjCompleted \<and> trimmed_error j \<noteq> None
      then untrack (pe_id j) (show_toast (outcome_toast ToastWarning e j (tc_completedFallback (tj_copy e)) (trimmed_error j) True) t)
      else if pe_status j = PjCompleted
      then untrack (pe_id j) (show_toast (outcome_toast ToastSuccess e j (tc_completed (tj_copy e)) None False) t)
      else if pe_status j = PjFailed
      then
        let reason = nullish (trimmed_error j) (tc_unknownError (tj_copy e));
            t1 = show_toast (outcome_toast ToastError e j
                   (if pe_willRetry j then tc_failedRetry (tj_copy e) else tc_failed (tj_copy e)) (Some reason) True) t
        in if pe_willRetry j then t1 else untrack (pe_id j) t1
      else t)"

text \<open>The handler on the socket; a broadcast without a job or for another client's job is nothing.\<close>

definition on_update :: "print_job_event option \<Rightarrow> tracker \<Rightarrow> tracker" where
  "on_update u t =
     (case u of
        None \<Rightarrow> t
      | Some j \<Rightarrow> if pe_id j = [] then t
                  else (case map_of (tk_jobs t) (pe_id j) of None \<Rightarrow> t | Some e \<Rightarrow> apply_event e j t))"

definition ensure_subscribed :: "tracker \<Rightarrow> tracker" where
  "ensure_subscribed t =
     (case tk_unsubscribe t of
        Some _ \<Rightarrow> t
      | None \<Rightarrow> t\<lparr>tk_ws := ws_on job_event_name (tk_next t) (tk_ws t), tk_unsubscribe := Some (tk_next t), tk_next := tk_next t + 1\<rparr>)"

definition set_timer :: "timer_kind \<Rightarrow> string \<Rightarrow> ms \<Rightarrow> tracker \<Rightarrow> nat \<times> tracker" where
  "set_timer k job due t =
     (tk_next t, t\<lparr>tk_timers := tk_timers t @ [\<lparr>tm_id = tk_next t, tm_kind = k, tm_job = job, tm_due = due\<rparr>], tk_next := tk_next t + 1\<rparr>)"

definition track_print_job :: "ms \<Rightarrow> string \<Rightarrow> toast_copy \<Rightarrow> track_options \<Rightarrow> tracker \<Rightarrow> tracker" where
  "track_print_job now job copy opts t =
     (let t0 = show_toast \<lparr>ts_kind = ToastSuccess, ts_id = toast_id job, ts_title = to_sentTitle opts,
                 ts_description = to_sentDescription opts, ts_stays = False, ts_action = None\<rparr> (untrack job t);
          (p, t1) = set_timer PickupTimer job (now + pickup_timeout_ms) t0;
          (r, t2) = set_timer ResultTimer job (now + result_timeout_ms) t1;
          (g, t3) = set_timer GiveUpTimer job (now + give_up_ms) t2
      in ensure_subscribed (t3\<lparr>tk_jobs := AList.update job
           \<lparr>tj_copy = copy, tj_options = opts, tj_claimed = False, tj_pickup = p, tj_result = r, tj_giveUp = g\<rparr> (tk_jobs t3)\<rparr>))"

definition warn_toast :: "string \<Rightarrow> tracked_job \<Rightarrow> string \<Rightarrow> string \<Rightarrow> toast" where
  "warn_toast job e title hint =
     \<lparr>ts_kind = ToastWarning, ts_id = toast_id job, ts_title = title, ts_description = Some hint, ts_stays = True,
      ts_action = printer_action e\<rparr>"

definition pickup_fires :: "string \<Rightarrow> tracker \<Rightarrow> tracker" where
  "pickup_fires job t =
     (case map_of (tk_jobs t) job of
        None \<Rightarrow> t
      | Some e \<Rightarrow>
          if tj_claimed e then t
          else
            let offline = \<not> is_connected (tk_ws t)
            in show_toast (warn_toast job e (if offline then tc_offline (tj_copy e) else tc_notPickedUp (tj_copy e))
                 (if offline then tc_offlineHint (tj_copy e) else tc_notPickedUpHint (tj_copy e))) t)"

definition result_fires :: "string \<Rightarrow> tracker \<Rightarrow> tracker" where
  "result_fires job t =
     (case map_of (tk_jobs t) job of
        None \<Rightarrow> t
      | Some e \<Rightarrow>
          if \<not> tj_claimed e then t
          else show_toast (warn_toast job e (tc_noResult (tj_copy e)) (tc_noResultHint (tj_copy e))) t)"

fun timer_body :: "timer_kind \<Rightarrow> string \<Rightarrow> tracker \<Rightarrow> tracker" where
  "timer_body PickupTimer job t = pickup_fires job t"
| "timer_body ResultTimer job t = result_fires job t"
| "timer_body GiveUpTimer job t = untrack job t"

text \<open>A timer of the engine fires once; one that was cleared does not.\<close>

definition fire :: "nat \<Rightarrow> tracker \<Rightarrow> tracker" where
  "fire n t =
     (case List.find (\<lambda>e. tm_id e = n) (tk_timers t) of
        None \<Rightarrow> t
      | Some e \<Rightarrow> timer_body (tm_kind e) (tm_job e) (clear_timer n t))"

definition reset_tracking :: "tracker \<Rightarrow> tracker" where
  "reset_tracking t = foldl (\<lambda>t job. untrack job t) t (map fst (tk_jobs t))"

datatype tracker_event =
    Track ms string toast_copy track_options
  | Untrack string
  | JobUpdate "print_job_event option"
  | Fire nat
  | Socket ws_event

text \<open>An update reaches the tracker while it is subscribed.\<close>

fun tracker_step :: "tracker \<Rightarrow> tracker_event \<Rightarrow> tracker" where
  "tracker_step t (Track now job copy opts) = track_print_job now job copy opts t"
| "tracker_step t (Untrack job) = untrack job t"
| "tracker_step t (JobUpdate u) = (if tk_unsubscribe t \<noteq> None then on_update u t else t)"
| "tracker_step t (Fire n) = fire n t"
| "tracker_step t (Socket ev) = t\<lparr>tk_ws := ws_step (tk_ws t) ev\<rparr>"

section \<open>Specifications\<close>

fun timer_slot :: "timer_kind \<Rightarrow> tracked_job \<Rightarrow> nat" where
  "timer_slot PickupTimer e = tj_pickup e"
| "timer_slot ResultTimer e = tj_result e"
| "timer_slot GiveUpTimer e = tj_giveUp e"

definition running_for :: "tracker \<Rightarrow> engine_timer \<Rightarrow> bool" where
  "running_for t x \<longleftrightarrow> tm_id x < tk_next t \<and> (\<exists>e. map_of (tk_jobs t) (tm_job x) = Some e \<and> timer_slot (tm_kind x) e = tm_id x)"

text \<open>No timer number serves twice.\<close>

definition slots_ok :: "tracker \<Rightarrow> bool" where
  "slots_ok t \<longleftrightarrow> (\<forall>job e k. map_of (tk_jobs t) job = Some e \<longrightarrow> timer_slot k e < tk_next t
     \<and> (\<forall>job' e' k'. map_of (tk_jobs t) job' = Some e' \<longrightarrow> timer_slot k e = timer_slot k' e' \<longrightarrow> job' = job \<and> k' = k))"

text \<open>Everything but the give-up timer of one job.\<close>

definition tracker_inv_but :: "string option \<Rightarrow> tracker \<Rightarrow> bool" where
  "tracker_inv_but skip t \<longleftrightarrow> distinct (map fst (tk_jobs t)) \<and> (tk_unsubscribe t = None \<longleftrightarrow> tk_jobs t = [])
     \<and> slots_ok t \<and> (\<forall>x\<in>set (tk_timers t). running_for t x)
     \<and> (\<forall>job e. map_of (tk_jobs t) job = Some e \<longrightarrow> Some job \<noteq> skip \<longrightarrow>
           (\<exists>x\<in>set (tk_timers t). tm_kind x = GiveUpTimer \<and> tm_job x = job))"

definition tracker_inv :: "tracker \<Rightarrow> bool" where
  "tracker_inv t \<longleftrightarrow> tracker_inv_but None t"

section \<open>Lemmas\<close>

lemma clear_timer_simps [simp]:
  "tk_jobs (clear_timer n t) = tk_jobs t" "tk_unsubscribe (clear_timer n t) = tk_unsubscribe t"
  "tk_next (clear_timer n t) = tk_next t" "tk_ws (clear_timer n t) = tk_ws t" "tk_toasts (clear_timer n t) = tk_toasts t"
  "tk_timers (clear_timer n t) = filter (\<lambda>e. tm_id e \<noteq> n) (tk_timers t)"
  by (simp_all add: clear_timer_def)

lemma show_toast_simps [simp]:
  "tk_jobs (show_toast x t) = tk_jobs t" "tk_unsubscribe (show_toast x t) = tk_unsubscribe t"
  "tk_next (show_toast x t) = tk_next t" "tk_ws (show_toast x t) = tk_ws t" "tk_timers (show_toast x t) = tk_timers t"
  by (simp_all add: show_toast_def)

lemma inv_but_toast [simp]: "tracker_inv_but s (show_toast x t) = tracker_inv_but s t"
  by (simp add: tracker_inv_but_def running_for_def slots_ok_def)

lemma delete_none: "map_of al k = None \<Longrightarrow> AList.delete k al = al"
  by (simp add: map_of_eq_None_iff delete_idem)

lemma untrack_simps:
  "tk_jobs (untrack job t) = AList.delete job (tk_jobs t)"
  "tk_next (untrack job t) = tk_next t"
  "tk_timers (untrack job t) = (case map_of (tk_jobs t) job of None \<Rightarrow> tk_timers t
     | Some e \<Rightarrow> filter (\<lambda>x. tm_id x \<notin> {tj_pickup e, tj_result e, tj_giveUp e}) (tk_timers t))"
  "tk_unsubscribe (untrack job t) =
     (if map_of (tk_jobs t) job \<noteq> None \<and> AList.delete job (tk_jobs t) = [] then None else tk_unsubscribe t)"
  "tk_toasts (untrack job t) = tk_toasts t"
  by (cases "map_of (tk_jobs t) job";
      simp add: untrack_def Let_def conj_ac delete_none split: option.split)+

lemma slots_ok_mono:
  assumes ok: "slots_ok t" and le: "tk_next t \<le> tk_next t'"
    and old: "\<And>job e'. map_of (tk_jobs t') job = Some e' \<Longrightarrow>
      \<exists>e. map_of (tk_jobs t) job = Some e \<and> (\<forall>k. timer_slot k e' = timer_slot k e)"
  shows "slots_ok t'"
  unfolding slots_ok_def
proof (intro allI impI conjI)
  fix job e k assume e: "map_of (tk_jobs t') job = Some e"
  from old [OF this] obtain e0 where e0: "map_of (tk_jobs t) job = Some e0" "\<forall>k. timer_slot k e = timer_slot k e0" by blast
  with ok le show "timer_slot k e < tk_next t'" unfolding slots_ok_def by (metis order_less_le_trans)
  fix job' e' k' assume "map_of (tk_jobs t') job' = Some e'" and eq: "timer_slot k e = timer_slot k' e'"
  from old [OF this(1)] obtain e1 where "map_of (tk_jobs t) job' = Some e1" "\<forall>k. timer_slot k e' = timer_slot k e1" by blast
  with ok e0 eq show "job' = job" "k' = k" unfolding slots_ok_def by metis+
qed

lemma slots_ok_fewer:
  "slots_ok t \<Longrightarrow> tk_jobs t' = AList.delete job (tk_jobs t) \<Longrightarrow> tk_next t' = tk_next t \<Longrightarrow> slots_ok t'"
  by (rule slots_ok_mono) (auto simp: delete_conv' split: if_splits)

lemma slot_cases: "timer_slot k e \<in> {tj_pickup e, tj_result e, tj_giveUp e}"
  by (cases k) auto

lemma slot_of: "n \<in> {tj_pickup e, tj_result e, tj_giveUp e} \<Longrightarrow> \<exists>k. timer_slot k e = n"
  by (elim insertE emptyE; simp only: timer_slot.simps [symmetric]; blast)

lemma inv_but_untrack:
  assumes "tracker_inv_but (Some job) t"
  shows "tracker_inv (untrack job t)"
proof (cases "map_of (tk_jobs t) job")
  case None
  then have "untrack job t = t" by (simp add: untrack_def)
  with assms None show ?thesis
    unfolding tracker_inv_def tracker_inv_but_def by (metis option.distinct(1) option.inject)
next
  case (Some e)
  let ?t = "untrack job t"
  from assms have inv: "distinct (map fst (tk_jobs t))" "tk_unsubscribe t = None \<longleftrightarrow> tk_jobs t = []" "slots_ok t"
    "\<And>x. x \<in> set (tk_timers t) \<Longrightarrow> running_for t x"
    "\<And>job' e'. map_of (tk_jobs t) job' = Some e' \<Longrightarrow> job' \<noteq> job \<Longrightarrow> \<exists>x\<in>set (tk_timers t). tm_kind x = GiveUpTimer \<and> tm_job x = job'"
    by (auto simp: tracker_inv_but_def)
  have timers: "x \<in> set (tk_timers ?t) \<longleftrightarrow> x \<in> set (tk_timers t) \<and> tm_job x \<noteq> job" for x
  proof -
    have "tm_id x \<in> {tj_pickup e, tj_result e, tj_giveUp e} \<longleftrightarrow> tm_job x = job" if x: "x \<in> set (tk_timers t)"
    proof -
      from inv(4) [OF x] obtain e' where e': "map_of (tk_jobs t) (tm_job x) = Some e'" "timer_slot (tm_kind x) e' = tm_id x"
        by (auto simp: running_for_def)
      show ?thesis
      proof
        assume "tm_id x \<in> {tj_pickup e, tj_result e, tj_giveUp e}"
        then obtain k where "timer_slot k e = tm_id x" using slot_of by blast
        with inv(3) e' Some show "tm_job x = job" unfolding slots_ok_def by metis
      next
        assume "tm_job x = job"
        with e' Some slot_cases [of "tm_kind x" e] show "tm_id x \<in> {tj_pickup e, tj_result e, tj_giveUp e}" by simp
      qed
    qed
    then show ?thesis by (simp add: untrack_simps Some) blast
  qed
  have jobs: "map_of (tk_jobs ?t) j = (if j = job then None else map_of (tk_jobs t) j)" for j
    by (simp add: untrack_simps delete_conv')
  have "distinct (map fst (tk_jobs ?t))" by (simp add: untrack_simps inv(1) distinct_delete)
  moreover have "tk_unsubscribe ?t = None \<longleftrightarrow> tk_jobs ?t = []"
    using inv(2) Some by (auto simp: untrack_simps)
  moreover have "slots_ok ?t" by (rule slots_ok_fewer [OF inv(3)]) (simp_all add: untrack_simps)
  moreover have "\<forall>x\<in>set (tk_timers ?t). running_for ?t x"
  proof
    fix x assume "x \<in> set (tk_timers ?t)"
    then have "x \<in> set (tk_timers t)" "tm_job x \<noteq> job" using timers by blast+
    with inv(4) show "running_for ?t x" by (simp add: running_for_def jobs untrack_simps(2))
  qed
  moreover have "\<forall>j e. map_of (tk_jobs ?t) j = Some e \<longrightarrow> Some j \<noteq> None \<longrightarrow>
      (\<exists>x\<in>set (tk_timers ?t). tm_kind x = GiveUpTimer \<and> tm_job x = j)"
    using inv(5) unfolding jobs Bex_def timers by (metis option.distinct(1))
  ultimately show ?thesis by (simp add: tracker_inv_def tracker_inv_but_def)
qed

lemma inv_weaken: "tracker_inv t \<Longrightarrow> tracker_inv_but s t"
  by (auto simp: tracker_inv_def tracker_inv_but_def)

lemma inv_untrack: "tracker_inv t \<Longrightarrow> tracker_inv (untrack job t)"
  by (rule inv_but_untrack [OF inv_weaken])

text \<open>A timer that fires or is cleared: only a give-up timer is missed.\<close>

lemma inv_but_clear:
  assumes "tracker_inv t" and "map_of (tk_jobs t) job = Some e"
  shows "tracker_inv_but (Some job) (clear_timer (timer_slot k e) t)"
    and "k \<noteq> GiveUpTimer \<Longrightarrow> tracker_inv (clear_timer (timer_slot k e) t)"
proof -
  let ?t = "clear_timer (timer_slot k e) t"
  from assms(1) have inv: "slots_ok t" "\<And>x. x \<in> set (tk_timers t) \<Longrightarrow> running_for t x"
    "\<And>job' e'. map_of (tk_jobs t) job' = Some e' \<Longrightarrow> \<exists>x\<in>set (tk_timers t). tm_kind x = GiveUpTimer \<and> tm_job x = job'"
    by (auto simp: tracker_inv_def tracker_inv_but_def)
  have keep: "\<exists>x\<in>set (tk_timers ?t). tm_kind x = GiveUpTimer \<and> tm_job x = job'"
    if j: "map_of (tk_jobs t) job' = Some e'" and ne: "job' \<noteq> job \<or> k \<noteq> GiveUpTimer" for job' e'
  proof -
    from inv(3) [OF j] obtain x where x: "x \<in> set (tk_timers t)" "tm_kind x = GiveUpTimer" "tm_job x = job'" by blast
    from inv(2) [OF x(1)] x j have "timer_slot GiveUpTimer e' = tm_id x" by (auto simp: running_for_def)
    with inv(1) j assms(2) ne have "tm_id x \<noteq> timer_slot k e" unfolding slots_ok_def by metis
    with x show ?thesis by auto
  qed
  have "running_for ?t x" if "x \<in> set (tk_timers ?t)" for x
    using inv(2) that by (simp add: running_for_def)
  moreover have "slots_ok ?t" using inv(1) by (simp add: slots_ok_def)
  ultimately have rest: "distinct (map fst (tk_jobs ?t)) \<and> (tk_unsubscribe ?t = None \<longleftrightarrow> tk_jobs ?t = [])
     \<and> slots_ok ?t \<and> (\<forall>x\<in>set (tk_timers ?t). running_for ?t x)"
    using assms(1) by (auto simp: tracker_inv_def tracker_inv_but_def)
  from rest keep show "tracker_inv_but (Some job) ?t" by (auto simp: tracker_inv_but_def)
  from rest keep show "tracker_inv ?t" if "k \<noteq> GiveUpTimer" using that by (auto simp: tracker_inv_def tracker_inv_but_def)
qed

lemma pickup_fires_inv: "tracker_inv t \<Longrightarrow> tracker_inv (pickup_fires job t)" "tracker_inv t \<Longrightarrow> tracker_inv (result_fires job t)"
  by (auto simp: pickup_fires_def result_fires_def Let_def tracker_inv_def split: option.split)

lemma inv_fire: "tracker_inv t \<Longrightarrow> tracker_inv (fire n t)"
proof -
  assume inv: "tracker_inv t"
  show ?thesis
  proof (cases "List.find (\<lambda>e. tm_id e = n) (tk_timers t)")
    case (Some x)
    then have x: "x \<in> set (tk_timers t)" "tm_id x = n" by (auto dest: find_SomeD)
    with inv obtain e where e: "map_of (tk_jobs t) (tm_job x) = Some e" "timer_slot (tm_kind x) e = n"
      by (auto simp: tracker_inv_def tracker_inv_but_def running_for_def)
    note clear = inv_but_clear [OF inv e(1), of "tm_kind x", unfolded e(2)]
    show ?thesis
      by (cases "tm_kind x") (use clear in \<open>simp_all add: fire_def Some pickup_fires_inv inv_but_untrack\<close>)
  qed (simp add: fire_def inv)
qed

lemma inv_apply_event:
  assumes inv: "tracker_inv t" and e: "map_of (tk_jobs t) (pe_id j) = Some e"
  shows "tracker_inv (apply_event e j t)"
proof -
  let ?t = "t\<lparr>tk_jobs := AList.update (pe_id j) (e\<lparr>tj_claimed := True\<rparr>) (tk_jobs t)\<rparr>"
  have slot: "timer_slot k (e\<lparr>tj_claimed := True\<rparr>) = timer_slot k e" for k by (cases k) auto
  have ne: "tk_jobs t \<noteq> []" using e by auto
  have "slots_ok ?t"
    by (rule slots_ok_mono [of t]) (use inv e in \<open>auto simp: tracker_inv_def tracker_inv_but_def update_conv' slot split: if_splits\<close>)
  moreover have "running_for ?t x" if "x \<in> set (tk_timers t)" for x
    using inv e that by (auto simp: tracker_inv_def tracker_inv_but_def running_for_def update_conv' slot)
  ultimately have t: "tracker_inv ?t"
    using inv e ne by (auto simp: tracker_inv_def tracker_inv_but_def update_conv' distinct_update update_nonempty split: if_splits)
  have "map_of (tk_jobs ?t) (pe_id j) = Some (e\<lparr>tj_claimed := True\<rparr>)" by (simp add: update_conv')
  from inv_but_clear(2) [OF t this, of PickupTimer] have "tracker_inv (clear_timer (tj_pickup e) ?t)" by simp
  moreover have "tracker_inv (show_toast x t)" for x using inv by (simp add: tracker_inv_def)
  ultimately show ?thesis using inv by (simp add: apply_event_def Let_def inv_untrack)
qed

lemma inv_track: "tracker_inv t \<Longrightarrow> tracker_inv (track_print_job now job copy opts t)"
proof -
  assume "tracker_inv t"
  then have u: "tracker_inv (untrack job t)" by (rule inv_untrack)
  let ?u = "untrack job t" and ?n = "tk_next t"
  let ?e = "\<lparr>tj_copy = copy, tj_options = opts, tj_claimed = False, tj_pickup = ?n, tj_result = ?n + 1, tj_giveUp = ?n + 2\<rparr>"
  let ?r = "track_print_job now job copy opts t"
  have jobs: "tk_jobs ?r = AList.update job ?e (tk_jobs ?u)"
    by (simp add: track_print_job_def set_timer_def Let_def ensure_subscribed_def untrack_simps(2) split: option.split)
  have timers: "tk_timers ?r = tk_timers ?u @ [\<lparr>tm_id = ?n, tm_kind = PickupTimer, tm_job = job, tm_due = now + pickup_timeout_ms\<rparr>,
      \<lparr>tm_id = ?n + 1, tm_kind = ResultTimer, tm_job = job, tm_due = now + result_timeout_ms\<rparr>,
      \<lparr>tm_id = ?n + 2, tm_kind = GiveUpTimer, tm_job = job, tm_due = now + give_up_ms\<rparr>]"
    by (simp add: track_print_job_def set_timer_def Let_def ensure_subscribed_def untrack_simps(2) split: option.split)
  have nxt: "?n + 3 \<le> tk_next ?r"
    by (simp add: track_print_job_def set_timer_def Let_def ensure_subscribed_def untrack_simps(2) split: option.split)
  have sub: "tk_unsubscribe ?r \<noteq> None"
    by (simp add: track_print_job_def set_timer_def Let_def ensure_subscribed_def split: option.split)
  have gone: "map_of (tk_jobs ?u) job = None" by (simp add: untrack_simps(1) delete_conv')
  have look: "map_of (tk_jobs ?r) j = (if j = job then Some ?e else map_of (tk_jobs ?u) j)" for j
    unfolding jobs by (simp add: update_conv')
  from u have inv: "distinct (map fst (tk_jobs ?u))" "slots_ok ?u" "\<And>x. x \<in> set (tk_timers ?u) \<Longrightarrow> running_for ?u x"
    "\<And>j e. map_of (tk_jobs ?u) j = Some e \<Longrightarrow> \<exists>x\<in>set (tk_timers ?u). tm_kind x = GiveUpTimer \<and> tm_job x = j"
    by (auto simp: tracker_inv_def tracker_inv_but_def)
  have fresh: "timer_slot k ?e = ?n + (case k of PickupTimer \<Rightarrow> 0 | ResultTimer \<Rightarrow> 1 | GiveUpTimer \<Rightarrow> 2)" for k
    by (cases k) auto
  have old: "timer_slot k e < ?n" if "map_of (tk_jobs ?u) j = Some e" for j e k
    using inv(2) that unfolding slots_ok_def untrack_simps(2) by blast
  have "slots_ok ?r"
    unfolding slots_ok_def look
  proof (intro allI impI conjI)
    fix j e k assume e: "(if j = job then Some ?e else map_of (tk_jobs ?u) j) = Some e"
    show "timer_slot k e < tk_next ?r"
      using e nxt old [of j e k] fresh [of k] by (cases k) (auto split: if_splits)
    fix j' e' k' assume e': "(if j' = job then Some ?e else map_of (tk_jobs ?u) j') = Some e'" and eq: "timer_slot k e = timer_slot k' e'"
    have iff: "j' = job \<longleftrightarrow> j = job"
      using e e' eq old [of j e k] old [of j' e' k'] fresh [of k] fresh [of k'] by (auto split: if_splits)
    have "j' = j \<and> k' = k"
    proof (cases "j = job")
      case True
      with iff e e' have "j' = job" "e = ?e" "e' = ?e" by simp_all
      with eq fresh [of k] fresh [of k'] True show ?thesis by (cases k; cases k') simp_all
    next
      case False
      with iff e e' have "map_of (tk_jobs ?u) j = Some e" "map_of (tk_jobs ?u) j' = Some e'" by simp_all
      with inv(2) eq show ?thesis unfolding slots_ok_def by metis
    qed
    then show "j' = j" "k' = k" by simp_all
  qed
  moreover have "running_for ?r x" if "x \<in> set (tk_timers ?r)" for x
  proof (cases "x \<in> set (tk_timers ?u)")
    case True
    with inv(3) gone nxt show ?thesis unfolding running_for_def look untrack_simps(2) by (metis add_lessD1 le_iff_add option.distinct(1) order_less_le_trans)
  next
    case False
    with that nxt show ?thesis unfolding timers running_for_def look by auto
  qed
  moreover have "\<exists>x\<in>set (tk_timers ?r). tm_kind x = GiveUpTimer \<and> tm_job x = j" if "map_of (tk_jobs ?r) j = Some e" for j e
    using that inv(4) [of j] unfolding look timers by (cases "j = job") auto
  moreover have "distinct (map fst (tk_jobs ?r))" unfolding jobs by (simp add: distinct_update inv(1))
  moreover have "tk_jobs ?r \<noteq> []" unfolding jobs by simp
  ultimately show ?thesis using sub by (auto simp: tracker_inv_def tracker_inv_but_def)
qed

lemma inv_other_socket: "tracker_inv (t\<lparr>tk_ws := w\<rparr>) = tracker_inv t"
proof -
  have "slots_ok (t\<lparr>tk_ws := w\<rparr>) = slots_ok t" "running_for (t\<lparr>tk_ws := w\<rparr>) = running_for t"
    by (simp_all add: slots_ok_def running_for_def fun_eq_iff)
  then show ?thesis by (simp add: tracker_inv_def tracker_inv_but_def)
qed

lemma inv_tracker_step: "tracker_inv t \<Longrightarrow> tracker_inv (tracker_step t ev)"
proof (induction t ev rule: tracker_step.induct)
  case (3 t u)
  then show ?case by (auto simp: on_update_def inv_apply_event split: option.split)
next
  case (5 t ev)
  then show ?case by (simp add: inv_other_socket)
qed (simp_all add: inv_track inv_untrack inv_fire)

lemma tracker_inv_initial: "tracker_inv (tracker_initial ws)"
  by (simp add: tracker_inv_def tracker_inv_but_def tracker_initial_def slots_ok_def)

interpretation print_jobs: event_machine tracker_step tracker_inv "tracker_initial ws"
  by unfold_locales (simp_all add: tracker_inv_initial inv_tracker_step)

lemma fire_timers: "set (tk_timers (fire n t)) \<subseteq> {x \<in> set (tk_timers t). tm_id x \<noteq> n}"
proof (cases "List.find (\<lambda>e. tm_id e = n) (tk_timers t)")
  case None
  then have "\<forall>x\<in>set (tk_timers t). tm_id x \<noteq> n" by (simp add: find_None_iff)
  moreover have "fire n t = t" by (simp add: fire_def None)
  ultimately show ?thesis by auto
next
  case (Some x)
  then show ?thesis
    by (cases "tm_kind x") (auto simp: fire_def pickup_fires_def result_fires_def Let_def untrack_simps split: option.splits)
qed

lemma fire_all_timers: "set (tk_timers (foldl (\<lambda>t n. fire n t) t ns)) \<subseteq> {x \<in> set (tk_timers t). tm_id x \<notin> set ns}"
proof (induction ns arbitrary: t)
  case (Cons n ns)
  from Cons.IH [of "fire n t"] fire_timers [of n t] show ?case by auto
qed simp

lemma inv_fire_all: "tracker_inv t \<Longrightarrow> tracker_inv (foldl (\<lambda>t n. fire n t) t ns)"
  by (induction ns arbitrary: t) (simp_all add: inv_fire)

section \<open>Properties\<close>


definition sample_copy :: toast_copy where
  "sample_copy =
     \<lparr>tc_completed = ''done'', tc_completedFallback = ''other printer'', tc_failed = ''failed'', tc_failedRetry = ''retrying'',
      tc_unknownError = ''unknown'', tc_notPickedUp = ''not picked up'', tc_notPickedUpHint = ''hint'', tc_offline = ''offline'',
      tc_offlineHint = ''hint'', tc_noResult = ''no result'', tc_noResultHint = ''hint'', tc_checkPrinter = ''check''\<rparr>"

definition sample_options :: track_options where
  "sample_options = \<lparr>to_sentTitle = ''sent'', to_sentDescription = None, to_subject = Some ''Einsatz 3'', to_onOpen = True\<rparr>"

definition sample_run :: tracker where
  "sample_run = foldl tracker_step (tracker_initial ws_initial)
     [Track 0 ''j1'' sample_copy sample_options, Socket (WsConnectCall False False), Socket (WsSockConnected True)]"


text \<open>
  A failed attempt whose claim was never heard is hidden: the broadcast of a failure that will be retried
  does not stop the pick-up timer, so the timer replaces the printer's own reason by the warning that nobody
  picked the job up.
\<close>

theorem failed_attempt_is_hidden:
  assumes "map_of (tk_jobs t) job = Some e" and "\<not> tj_claimed e" and "job \<noteq> []" and "tk_unsubscribe t \<noteq> None"
    and "List.find (\<lambda>x. tm_id x = tj_pickup e) (tk_timers t) = Some x" and "tm_kind x = PickupTimer" and "tm_job x = job"
    and "is_connected (tk_ws t)" and "j = \<lparr>pe_id = job, pe_status = PjFailed, pe_error = Some reason, pe_willRetry = True\<rparr>"
  shows "tk_toasts (foldl tracker_step t [JobUpdate (Some j), Fire (tj_pickup e)]) = tk_toasts t @
     [outcome_toast ToastError e j (tc_failedRetry (tj_copy e)) (Some (nullish (trimmed_error j) (tc_unknownError (tj_copy e)))) True,
      warn_toast job e (tc_notPickedUp (tj_copy e)) (tc_notPickedUpHint (tj_copy e))]"
proof -
  let ?x = "outcome_toast ToastError e j (tc_failedRetry (tj_copy e)) (Some (nullish (trimmed_error j) (tc_unknownError (tj_copy e)))) True"
  have upd: "tracker_step t (JobUpdate (Some j)) = show_toast ?x t"
    using assms(1,3,4,9) by (simp add: on_update_def apply_event_def Let_def)
  have "tk_jobs (clear_timer n (show_toast ?x t)) = tk_jobs t" for n by simp
  with assms(1,2,8) have "tk_toasts (pickup_fires job (clear_timer (tj_pickup e) (show_toast ?x t))) = tk_toasts t @
      [?x, warn_toast job e (tc_notPickedUp (tj_copy e)) (tc_notPickedUpHint (tj_copy e))]"
    by (simp add: pickup_fires_def Let_def) (simp add: show_toast_def)
  with upd assms(5-7) show ?thesis by (simp add: fire_def)
qed

lemma failed_attempt_is_hidden_witness:
  "map ts_title (tk_toasts (foldl tracker_step sample_run
     [JobUpdate (Some \<lparr>pe_id = ''j1'', pe_status = PjFailed, pe_error = Some ''paper out'', pe_willRetry = True\<rparr>), Fire 0]))
   = [''sent'', ''retrying'', ''not picked up'']"
proof -
  let ?e = "\<lparr>tj_copy = sample_copy, tj_options = sample_options, tj_claimed = False, tj_pickup = 0, tj_result = 1, tj_giveUp = 2\<rparr>"
  let ?x = "\<lparr>tm_id = 0, tm_kind = PickupTimer, tm_job = ''j1'', tm_due = 25000\<rparr>"
  let ?j = "\<lparr>pe_id = ''j1'', pe_status = PjFailed, pe_error = Some ''paper out'', pe_willRetry = True\<rparr>"
  have "map_of (tk_jobs sample_run) ''j1'' = Some ?e" "tk_unsubscribe sample_run \<noteq> None"
    "List.find (\<lambda>x. tm_id x = tj_pickup ?e) (tk_timers sample_run) = Some ?x" "is_connected (tk_ws sample_run)"
    "map ts_title (tk_toasts sample_run) = [''sent'']" by code_simp+
  from failed_attempt_is_hidden [OF this(1) _ _ this(2,3) _ _ this(4) refl] this(5) show ?thesis
    by (simp add: outcome_toast_def warn_toast_def) (simp add: sample_copy_def)
qed

end
