(* ===== verification/NotificationPolicy.thy ===== *)
theory NotificationPolicy
  imports Kanban
begin

text \<open>
  How loud a notification may be (\<^verbatim>\<open>frontend/lib/notification-policy.ts\<close>), and how long a toast stays
  (\<^verbatim>\<open>frontend/lib/toast-lifetime.ts\<close>). A notification carries the fields these modules read; its time is the
  epoch value of a valid date. The string order of the engine is the parameter \<open>collate\<close>.
\<close>

section \<open>Data\<close>

datatype severity = Critical | Warning | Info

datatype notification_type =
    TimeOverdue | NoPersonnel | NoMaterials | FatigueWarning | PersonnelFatigue | MissingLocation | EventSizeLimit
  | VehicleArrived | VehicleReturned | RapportSubmitted | FieldArrived | FieldComplete | FieldMessage | FieldPickup
  | FieldReport | RekoArrived | RekoSubmitted | FeldCodeRotated | TrainingEmergency

record notification =
  nt_id :: ident
  nt_type :: notification_type
  nt_severity :: severity
  nt_message :: string
  nt_incident :: "ident option"
  nt_created :: ms
  nt_dismissed :: bool

datatype toast_policy = Urgent | Normal | Quiet

section \<open>Policy\<close>

fun type_policy :: "notification_type \<Rightarrow> toast_policy option" where
  "type_policy FieldPickup = Some Urgent"
| "type_policy FieldMessage = Some Urgent"
| "type_policy FieldReport = Some Urgent"
| "type_policy RapportSubmitted = Some Normal"
| "type_policy FieldComplete = Some Normal"
| "type_policy FieldArrived = Some Normal"
| "type_policy RekoArrived = Some Normal"
| "type_policy RekoSubmitted = Some Normal"
| "type_policy _ = None"

definition toast_policy_for :: "notification \<Rightarrow> toast_policy" where
  "toast_policy_for n =
     (case type_policy (nt_type n) of
        Some p \<Rightarrow> p
      | None \<Rightarrow> if nt_severity n = Critical \<or> nt_severity n = Warning then Urgent else Normal)"

definition toast_burst_limit :: nat where
  "toast_burst_limit = 3"

record toast_plan =
  tp_toast :: "notification list"
  tp_overflow :: "notification list"
  tp_quiet :: "notification list"

definition by_time :: "(string \<Rightarrow> string \<Rightarrow> int) \<Rightarrow> notification \<Rightarrow> notification \<Rightarrow> int" where
  "by_time collate a b =
     (let d = nt_created a - nt_created b in if d \<noteq> 0 then d else collate (nt_id a) (nt_id b))"

definition plan_toast_burst :: "(string \<Rightarrow> string \<Rightarrow> int) \<Rightarrow> notification list \<Rightarrow> nat \<Rightarrow> toast_plan" where
  "plan_toast_burst collate ns limit =
     (let ordered = js_sort (by_time collate) ns;
          quiet = filter (\<lambda>n. toast_policy_for n = Quiet) ordered;
          urgent = filter (\<lambda>n. toast_policy_for n = Urgent) ordered;
          normal = filter (\<lambda>n. toast_policy_for n \<noteq> Quiet \<and> toast_policy_for n \<noteq> Urgent) ordered;
          budget = limit - length urgent;
          room = (if length normal > budget then budget - 1 else budget)
      in \<lparr>tp_toast = js_sort (by_time collate) (urgent @ take room normal),
          tp_overflow = drop room normal, tp_quiet = quiet\<rparr>)"

section \<open>Overtaken notifications\<close>

record supersede_operation =
  so_id :: ident
  so_status :: incident_status
  so_reko :: "(ident \<times> string) option"

definition status_order :: "incident_status list" where
  "status_order = map col_id columns"

definition status_rank :: "incident_status \<Rightarrow> int" where
  "status_rank s = (let i = find_index (\<lambda>x. x = s) status_order in if i = - 1 then 0 else i)"

definition born_in :: "notification \<Rightarrow> incident_status" where
  "born_in n = (if nt_severity n = Warning then Enroute else Incoming)"

definition is_superseded :: "supersede_operation list \<Rightarrow> notification \<Rightarrow> bool" where
  "is_superseded ops n =
     (if nt_type n \<noteq> FieldReport \<or> nt_dismissed n then False
      else case or_null (nt_incident n) of
        None \<Rightarrow> False
      | Some i \<Rightarrow>
          (case map_of (rev (map (\<lambda>o1. (so_id o1, o1)) ops)) i of
             None \<Rightarrow> False
           | Some o1 \<Rightarrow>
               if status_rank (so_status o1) > status_rank (born_in n) then True
               else born_in n = Incoming \<and> so_reko o1 \<noteq> None))"

definition superseded_new_incident_notifications :: "notification list \<Rightarrow> supersede_operation list \<Rightarrow> ident list" where
  "superseded_new_incident_notifications ns ops = map nt_id (filter (is_superseded ops) ns)"

section \<open>How long a toast stays\<close>

definition toast_min_ms :: int where "toast_min_ms = 2800"
definition toast_action_min_ms :: int where "toast_action_min_ms = 6000"
definition toast_max_ms :: int where "toast_max_ms = 10000"
definition toast_setting_base_seconds :: rat where "toast_setting_base_seconds = 8"

text \<open>\<^verbatim>\<open>Math.round\<close>; a setting that is not a finite number is \<open>None\<close>.\<close>

definition math_round :: "rat \<Rightarrow> int" where
  "math_round x = floor (x + 1 / 2)"

definition toast_floor :: "bool \<Rightarrow> bool \<Rightarrow> int" where
  "toast_floor has_action is_failure = (if has_action \<or> is_failure then toast_action_min_ms else toast_min_ms)"

definition setting_seconds_used :: "rat option \<Rightarrow> rat" where
  "setting_seconds_used s = (case s of None \<Rightarrow> toast_setting_base_seconds | Some x \<Rightarrow> if x > 0 then x else toast_setting_base_seconds)"

definition toast_duration_ms :: "string \<Rightarrow> bool \<Rightarrow> bool \<Rightarrow> rat option \<Rightarrow> int" where
  "toast_duration_ms txt has_action is_failure setting =
     (let fl = toast_floor has_action is_failure;
          by_length = min toast_max_ms (max fl (1800 + int (length txt) * 45));
          seconds = setting_seconds_used setting
      in max fl (math_round (of_int by_length * seconds / toast_setting_base_seconds)))"

section \<open>Lemmas\<close>

lemma js_insert_keyed:
  assumes "\<And>x y. cmp x y \<le> 0 \<Longrightarrow> k x \<le> k y" and "\<And>x y. \<not> cmp x y \<le> 0 \<Longrightarrow> k y \<le> k x"
  shows "sorted (map k xs) \<Longrightarrow> sorted (map k (js_insert cmp x xs))"
proof (induction xs)
  case (Cons y ys)
  show ?case
  proof (cases "cmp x y \<le> 0")
    case True
    with Cons.prems assms(1) [OF True] show ?thesis by (auto intro: order_trans)
  next
    case False
    with Cons assms(2) [OF False] show ?thesis by auto
  qed
qed simp

text \<open>A comparator that compares a key first sorts by that key, whatever it says of equal keys.\<close>

lemma js_sort_keyed:
  assumes "\<And>x y. cmp x y \<le> 0 \<Longrightarrow> k x \<le> k y" and "\<And>x y. \<not> cmp x y \<le> 0 \<Longrightarrow> k y \<le> k x"
  shows "sorted (map k (js_sort cmp xs))"
  by (induction xs) (simp_all add: js_insert_keyed [OF assms])

lemma sorted_by_time: "sorted (map nt_created (js_sort (by_time collate) ns))"
  by (rule js_sort_keyed) (auto simp: by_time_def Let_def split: if_splits)

lemma status_rank_index [simp]: "status_rank s = int (status_index s)"
  by (cases s) (simp_all add: status_rank_def status_order_def columns_def mk_column_def Let_def)

lemma math_round_mono: "x \<le> y \<Longrightarrow> math_round x \<le> math_round y"
  by (simp add: math_round_def floor_mono)

lemma setting_pos: "0 < setting_seconds_used s"
  by (auto simp: setting_seconds_used_def toast_setting_base_seconds_def split: option.split)

lemma three_parts:
  "mset (filter P xs) + mset (filter (\<lambda>x. \<not> Q x \<and> \<not> P x) xs) + mset (filter Q xs) = mset xs" if "\<And>x. \<not> (P x \<and> Q x)"
  using that by (induction xs) auto

section \<open>Properties\<close>


text \<open>
  A toast stays long enough: never less than the floor for its kind (2.8 s, 6 s with a button or for a
  failure), whatever the setting; with the setting's default at most 10 s; and a longer text or a longer
  setting never makes it shorter.
\<close>

theorem toast_time_is_bounded:
  "toast_floor a f \<le> toast_duration_ms txt a f s \<and> toast_duration_ms txt a f None \<le> toast_max_ms
   \<and> toast_duration_ms txt a f s \<le> toast_duration_ms (txt @ rest) a f s
   \<and> toast_duration_ms txt a f (Some (setting_seconds_used s)) \<le> toast_duration_ms txt a f (Some (setting_seconds_used s + \<bar>d\<bar>))"
proof (intro conjI)
  show "toast_floor a f \<le> toast_duration_ms txt a f s" by (simp add: toast_duration_ms_def Let_def)
  have fl: "toast_floor a f \<le> toast_max_ms" "0 \<le> toast_floor a f"
    by (simp_all add: toast_floor_def toast_action_min_ms_def toast_min_ms_def toast_max_ms_def)
  have "math_round (of_int b * 8 / 8) = b" for b :: int
    by (simp add: math_round_def) (rule floor_unique, simp_all)
  with fl show "toast_duration_ms txt a f None \<le> toast_max_ms"
    by (simp add: toast_duration_ms_def Let_def setting_seconds_used_def toast_setting_base_seconds_def)
  show "toast_duration_ms txt a f s \<le> toast_duration_ms (txt @ rest) a f s"
    unfolding toast_duration_ms_def Let_def
    by (intro max.mono order_refl math_round_mono divide_right_mono mult_right_mono)
      (use setting_pos [of s] in \<open>auto simp: toast_setting_base_seconds_def\<close>)
  have pos: "0 < setting_seconds_used s" by (rule setting_pos)
  have used: "setting_seconds_used (Some (setting_seconds_used s)) = setting_seconds_used s"
    "setting_seconds_used (Some (setting_seconds_used s + \<bar>d\<bar>)) = setting_seconds_used s + \<bar>d\<bar>"
    using pos by (simp_all add: setting_seconds_used_def [of "Some _"] add_pos_nonneg)
  show "toast_duration_ms txt a f (Some (setting_seconds_used s)) \<le> toast_duration_ms txt a f (Some (setting_seconds_used s + \<bar>d\<bar>))"
    unfolding toast_duration_ms_def Let_def used
    by (intro max.mono order_refl math_round_mono divide_right_mono mult_left_mono)
      (use fl in \<open>auto simp: toast_setting_base_seconds_def\<close>)
qed

end
