(* ===== verification/Polling.thy ===== *)
theory Polling
  imports Realtime
begin

text \<open>
  The one polling loop (\<^verbatim>\<open>frontend/lib/hooks/use-polling.ts\<close>): it runs once when mounted, then an interval after
  each run has settled, not while the tab is hidden and, where asked, not while the socket carries the changes. The loop of one
  mount is a state that reacts to its timer, its run, the tab, the socket and the unmount.
\<close>

section \<open>The loop\<close>

record poll_options =
  pp_pauseWhenHidden :: bool
  pp_skipWhileConnected :: bool

record polling =
  po_disposed :: bool
  po_running :: bool
  po_timer :: bool
  po_hidden :: bool
  po_socket :: ws_status
  po_lastStatus :: ws_status
  po_started :: nat
  po_settled :: nat

definition poll_is_hidden :: "poll_options \<Rightarrow> polling \<Rightarrow> bool" where
  "poll_is_hidden o1 p = (pp_pauseWhenHidden o1 \<and> po_hidden p)"

definition socket_carries :: "poll_options \<Rightarrow> polling \<Rightarrow> bool" where
  "socket_carries o1 p = (pp_skipWhileConnected o1 \<and> po_socket p = WsConnected)"

definition poll_schedule :: "poll_options \<Rightarrow> polling \<Rightarrow> polling" where
  "poll_schedule o1 p =
     (if po_disposed p \<or> po_running p \<or> poll_is_hidden o1 p \<or> socket_carries o1 p then p\<lparr>po_timer := False\<rparr>
      else p\<lparr>po_timer := True\<rparr>)"

definition poll_run :: "polling \<Rightarrow> polling" where
  "poll_run p = (if po_disposed p \<or> po_running p then p else p\<lparr>po_running := True, po_started := po_started p + 1\<rparr>)"

definition poll_mount :: "bool \<Rightarrow> ws_status \<Rightarrow> polling" where
  "poll_mount hidden st = poll_run \<lparr>po_disposed = False, po_running = False, po_timer = False, po_hidden = hidden, po_socket = st,
     po_lastStatus = st, po_started = 0, po_settled = 0\<rparr>"

datatype poll_event =
    PlTimer
  | PlSettles
  | PlVisibility bool
  | PlSocket ws_status
  | PlUnmount

definition poll_step :: "poll_options \<Rightarrow> polling \<Rightarrow> poll_event \<Rightarrow> polling" where
  "poll_step o1 p e =
     (case e of
        PlTimer \<Rightarrow> if po_timer p then poll_run (p\<lparr>po_timer := False\<rparr>) else p
      | PlSettles \<Rightarrow>
          if po_running p then poll_schedule o1 (p\<lparr>po_running := False, po_settled := po_settled p + 1\<rparr>) else p
      | PlVisibility visible \<Rightarrow>
          let p1 = p\<lparr>po_hidden := \<not> visible\<rparr>
          in if po_disposed p \<or> \<not> pp_pauseWhenHidden o1 then p1
             else if visible then poll_run p1 else p1\<lparr>po_timer := False\<rparr>
      | PlSocket st \<Rightarrow>
          let p1 = p\<lparr>po_socket := st\<rparr>
          in if po_disposed p \<or> \<not> pp_skipWhileConnected o1 \<or> st = po_lastStatus p then p1
             else let p2 = p1\<lparr>po_lastStatus := st\<rparr>
                  in if st = WsConnected then poll_run (p2\<lparr>po_timer := False\<rparr>)
                     else if \<not> po_timer p2 then poll_schedule o1 p2 else p2
      | PlUnmount \<Rightarrow> p\<lparr>po_disposed := True, po_timer := False\<rparr>)"

definition poll_session :: "poll_options \<Rightarrow> bool \<Rightarrow> ws_status \<Rightarrow> poll_event list \<Rightarrow> polling" where
  "poll_session o1 hidden st es = foldl (poll_step o1) (poll_mount hidden st) es"

section \<open>Its invariant\<close>

definition poll_ok :: "poll_options \<Rightarrow> polling \<Rightarrow> bool" where
  "poll_ok o1 p \<longleftrightarrow>
     po_started p = po_settled p + (if po_running p then 1 else 0)
     \<and> (po_disposed p \<and> \<not> po_timer p
        \<or> \<not> po_disposed p \<and> (pp_skipWhileConnected o1 \<longrightarrow> po_lastStatus p = po_socket p)
          \<and> (po_running p \<or> po_timer p \<or> poll_is_hidden o1 p \<or> socket_carries o1 p))"

lemmas poll_defs = poll_ok_def poll_step_def poll_schedule_def poll_run_def poll_is_hidden_def socket_carries_def

lemma poll_ok_mount: "poll_ok o1 (poll_mount hidden st)"
  by (simp add: poll_mount_def poll_defs)

lemma poll_ok_step: "poll_ok o1 p \<Longrightarrow> poll_ok o1 (poll_step o1 p e)"
  by (cases e) (auto simp: poll_defs Let_def)

interpretation loop: event_machine "poll_step o1" "poll_ok o1" "poll_mount hidden st" for o1 hidden st
  by unfold_locales (rule poll_ok_mount, rule poll_ok_step)

section \<open>Properties\<close>

text \<open>
  The polling loop never overlaps and never dies: at most one run is under way at any time, however slow the
  server is; and as long as it is mounted, a run is under way, or its timer is armed, or the tab is hidden, or the socket carries the
  changes. After the unmount no timer is left.
\<close>

theorem polling_never_overlaps_nor_stalls:
  "let p = poll_session o1 hidden st es
   in po_started p = po_settled p + (if po_running p then 1 else 0)
      \<and> (if po_disposed p then \<not> po_timer p
         else po_running p \<or> po_timer p \<or> poll_is_hidden o1 p \<or> socket_carries o1 p)"
proof -
  have "poll_ok o1 (poll_session o1 hidden st es)" unfolding poll_session_def by (rule loop.inv_run)
  then show ?thesis by (auto simp: poll_ok_def Let_def)
qed

text \<open>
  A reconnect during a run is not caught up: when the socket comes back while a run is under way, that run,
  which may have asked before the last change was broadcast, is the only one; after it the loop waits for the socket.
\<close>

theorem reconnect_during_a_run_is_not_caught_up:
  assumes "pp_skipWhileConnected o1" and "\<not> po_disposed p" and "po_running p" and "po_lastStatus p \<noteq> WsConnected"
    and "p' = poll_step o1 (poll_step o1 p (PlSocket WsConnected)) PlSettles"
  shows "po_started p' = po_started p \<and> \<not> po_running p' \<and> \<not> po_timer p'"
  using assms by (simp add: poll_step_def poll_run_def poll_schedule_def socket_carries_def Let_def)

theorem reconnect_during_a_run_is_not_caught_up_witness:
  "let o1 = \<lparr>pp_pauseWhenHidden = True, pp_skipWhileConnected = True\<rparr>
   in po_started (poll_session o1 False WsDisconnected [PlSocket WsConnected, PlSettles]) = 1
      \<and> \<not> po_timer (poll_session o1 False WsDisconnected [PlSocket WsConnected, PlSettles])"
  using reconnect_during_a_run_is_not_caught_up [of "\<lparr>pp_pauseWhenHidden = True, pp_skipWhileConnected = True\<rparr>"
      "poll_mount False WsDisconnected" _, OF _ _ _ _ refl]
  by (simp add: poll_session_def poll_mount_def poll_run_def Let_def)

end
