(* ===== verification/NotificationCenter.thy ===== *)
theory NotificationCenter
  imports NotificationPolicy HttpTransport Polling
begin

text \<open>
  The bell: \<^verbatim>\<open>frontend/lib/contexts/notification-context.tsx\<close>. The provider keeps the list of
  notifications, whether it can tell at all, and which ids it has seen; every sync is a request in flight whose answer may come late.
  A row carries the identity of its object as a number, because the list is reconciled so that unchanged rows keep theirs.
\<close>

section \<open>Rows\<close>

text \<open>\<open>br_params\<close> is the JSON text of \<open>params\<close>, as the comparison reads it.\<close>

record bell_row = notification +
  br_params :: string

type_synonym row_object = "nat \<times> bell_row"

definition same_notification :: "bell_row \<Rightarrow> bell_row \<Rightarrow> bool" where
  "same_notification a b =
     (nt_id a = nt_id b \<and> nt_type a = nt_type b \<and> nt_severity a = nt_severity b \<and> nt_message a = nt_message b
      \<and> nt_incident a = nt_incident b \<and> nt_dismissed a = nt_dismissed b \<and> nt_created a = nt_created b
      \<and> br_params a = br_params b)"

definition rows_by_id :: "row_object list \<Rightarrow> ident \<rightharpoonup> row_object" where
  "rows_by_id rows = map_of (rev (map (\<lambda>x. (nt_id (snd x), x)) rows))"

definition reconcile_row :: "row_object list \<Rightarrow> row_object \<Rightarrow> row_object" where
  "reconcile_row prev x =
     (case rows_by_id prev (nt_id (snd x)) of
        Some old \<Rightarrow> if same_notification (snd old) (snd x) then old else x
      | None \<Rightarrow> x)"

text \<open>The row at place \<open>i\<close> is the object that stood there.\<close>

definition row_stays :: "row_object list \<Rightarrow> nat \<Rightarrow> row_object \<Rightarrow> bool" where
  "row_stays prev i x =
     (case rows_by_id prev (nt_id (snd x)) of
        Some old \<Rightarrow> same_notification (snd old) (snd x) \<and> i < length prev \<and> fst (prev ! i) = fst old
      | None \<Rightarrow> False)"

definition reconcile_notifications :: "row_object list \<Rightarrow> row_object list \<Rightarrow> row_object list" where
  "reconcile_notifications prev new =
     (if length prev = length new \<and> list_all (\<lambda>(i, x). row_stays prev i x) (enumerate 0 new) then prev
      else map (reconcile_row prev) new)"

section \<open>The provider\<close>

record bell_context =
  bc_event :: "ident option"
  bc_signedIn :: bool
  bc_editor :: bool

text \<open>\<open>valid_uuid\<close> is the pattern test of \<^verbatim>\<open>isValidUUID\<close>, a parameter.\<close>

definition can_fetch :: "(ident \<Rightarrow> bool) \<Rightarrow> bell_context \<Rightarrow> bool" where
  "can_fetch valid c = (bc_signedIn c \<and> (case or_null (bc_event c) of Some e \<Rightarrow> valid e | None \<Rightarrow> False))"

record bell =
  nc_list :: "row_object list"
  nc_unavailable :: bool
  nc_blind :: bool                     \<comment> \<open>\<^verbatim>\<open>unavailableRef\<close>\<close>
  nc_lastSync :: "ms option"
  nc_seen :: "ident list"
  nc_stored :: "ident list"
  nc_settings :: string
  nc_settingsLoaded :: bool
  nc_inFlight :: "(nat \<times> ident) list"
  nc_nextFetch :: nat
  nc_fresh :: nat                      \<comment> \<open>the next object identity\<close>
  nc_settingsAsked :: nat
  nc_errors :: "string list"
  nc_tab :: tab_state

definition notifications_toast_id :: string where
  "notifications_toast_id = ''notifications-unavailable''"

definition mark_unavailable :: "bell \<Rightarrow> bell" where
  "mark_unavailable b =
     (if nc_blind b then b
      else b\<lparr>nc_blind := True, nc_unavailable := True, nc_tab := show_outage_toast notifications_toast_id (nc_tab b)\<rparr>)"

definition mark_available :: "bell \<Rightarrow> bell" where
  "mark_available b =
     (if \<not> nc_blind b then b
      else b\<lparr>nc_blind := False, nc_unavailable := False, nc_tab := dismiss_outage_toast notifications_toast_id (nc_tab b)\<rparr>)"

text \<open>After a refetch the settings are asked for until they have once arrived.\<close>

definition ask_settings :: "bell \<Rightarrow> bell" where
  "ask_settings b = (if nc_settingsLoaded b then b else b\<lparr>nc_settingsAsked := nc_settingsAsked b + 1\<rparr>)"

definition bell_sync :: "(ident \<Rightarrow> bool) \<Rightarrow> bell_context \<Rightarrow> bell \<Rightarrow> bell" where
  "bell_sync valid c b =
     (case bc_event c of
        Some e \<Rightarrow>
          if can_fetch valid c
          then b\<lparr>nc_inFlight := nc_inFlight b @ [(nc_nextFetch b, e)], nc_nextFetch := nc_nextFetch b + 1\<rparr>
          else ask_settings ((mark_available b)\<lparr>nc_list := []\<rparr>)
      | None \<Rightarrow> ask_settings ((mark_available b)\<lparr>nc_list := []\<rparr>))"

text \<open>Fresh objects for parsed rows; a row dismissed here stays dismissed.\<close>

definition keep_dismissed :: "row_object list \<Rightarrow> bell_row \<Rightarrow> bell_row" where
  "keep_dismissed prev n =
     (if \<not> nt_dismissed n \<and> nt_id n \<in> set (map (nt_id \<circ> snd) (filter (nt_dismissed \<circ> snd) prev)) then n\<lparr>nt_dismissed := True\<rparr> else n)"

definition fetched :: "ms \<Rightarrow> bell_row list \<Rightarrow> bell \<Rightarrow> bell" where
  "fetched now rows b =
     (let b1 = mark_available b; ids = rev (remdups (rev (map nt_id rows)))
      in b1\<lparr>nc_lastSync := Some now, nc_seen := ids, nc_stored := ids,
            nc_list := reconcile_notifications (nc_list b1) (enumerate (nc_fresh b1) (map (keep_dismissed (nc_list b1)) rows)),
            nc_fresh := nc_fresh b1 + length rows\<rparr>)"

definition bell_answer :: "nat \<Rightarrow> (ms \<times> bell_row list) option \<Rightarrow> bell \<Rightarrow> bell" where
  "bell_answer k result b =
     (case map_of (nc_inFlight b) k of
        None \<Rightarrow> b
      | Some _ \<Rightarrow>
          let b1 = b\<lparr>nc_inFlight := filter (\<lambda>(j, _). j \<noteq> k) (nc_inFlight b)\<rparr>
          in ask_settings (case result of None \<Rightarrow> mark_unavailable b1 | Some (now, rows) \<Rightarrow> fetched now rows b1))"

definition settings_arrive :: "string option \<Rightarrow> bell \<Rightarrow> bell" where
  "settings_arrive s b =
     (if nc_settingsAsked b = 0 then b
      else let b1 = b\<lparr>nc_settingsAsked := nc_settingsAsked b - 1\<rparr>
           in case s of None \<Rightarrow> b1 | Some x \<Rightarrow> b1\<lparr>nc_settingsLoaded := True, nc_settings := x\<rparr>)"

text \<open>The effect that runs when the context stops allowing a fetch.\<close>

definition context_changes :: "(ident \<Rightarrow> bool) \<Rightarrow> bell_context \<Rightarrow> bell \<Rightarrow> bell" where
  "context_changes valid c b = (if can_fetch valid c then b else (mark_available b)\<lparr>nc_list := []\<rparr>)"

definition mark_dismissed :: "ident set \<Rightarrow> nat \<Rightarrow> row_object list \<Rightarrow> row_object list" where
  "mark_dismissed ids tag rows =
     map (\<lambda>(k, t, n). if nt_id n \<in> ids then (tag + k, n\<lparr>nt_dismissed := True\<rparr>) else (t, n)) (enumerate 0 rows)"

definition dismiss_settles :: "bell_context \<Rightarrow> ident \<Rightarrow> bool \<Rightarrow> bell \<Rightarrow> bell" where
  "dismiss_settles c i ok b =
     (if \<not> bc_editor c then b
      else if \<not> ok then b\<lparr>nc_errors := nc_errors b @ [''dismissFailed'']\<rparr>
      else b\<lparr>nc_list := mark_dismissed {i} (nc_fresh b) (nc_list b), nc_fresh := nc_fresh b + length (nc_list b)\<rparr>)"

text \<open>''Alle schliessen'': what is active in the render that was clicked; \<open>answers\<close> is the outcome per request, in order.\<close>

definition active_notifications :: "ident list \<Rightarrow> row_object list \<Rightarrow> ident list" where
  "active_notifications except rows =
     map (nt_id \<circ> snd) (filter (\<lambda>x. \<not> nt_dismissed (snd x) \<and> nt_id (snd x) \<notin> set except) rows)"

definition dismiss_all_settles :: "bell_context \<Rightarrow> ident list \<Rightarrow> row_object list \<Rightarrow> bool list \<Rightarrow> bell \<Rightarrow> bell" where
  "dismiss_all_settles c except clicked answers b =
     (if \<not> bc_editor c then b
      else
        let active = active_notifications except clicked;
            outcome = zip active answers;
            done_ids = map fst (filter snd outcome);
            b1 = (if list_ex (\<lambda>(_, ok). \<not> ok) outcome then b\<lparr>nc_errors := nc_errors b @ [''dismissFailedCount'']\<rparr> else b)
        in if done_ids = [] then b1
           else b1\<lparr>nc_list := mark_dismissed (set done_ids) (nc_fresh b1) (nc_list b1), nc_fresh := nc_fresh b1 + length (nc_list b1)\<rparr>)"

definition unread_count :: "bell \<Rightarrow> nat" where
  "unread_count b = length (filter (\<lambda>x. \<not> nt_dismissed (snd x)) (nc_list b))"

datatype bell_event =
    BeSync bell_context
  | BeAnswer nat "(ms \<times> bell_row list) option"
  | BeSettings "string option"
  | BeContext bell_context
  | BeDismiss bell_context ident bool
  | BeDismissAll bell_context "ident list" "row_object list" "bool list"
  | BeBannerShows
  | BeBannerHides bool

fun bell_step :: "(ident \<Rightarrow> bool) \<Rightarrow> bell \<Rightarrow> bell_event \<Rightarrow> bell" where
  "bell_step valid b (BeSync c) = bell_sync valid c b"
| "bell_step valid b (BeAnswer k r) = bell_answer k r b"
| "bell_step valid b (BeSettings s) = settings_arrive s b"
| "bell_step valid b (BeContext c) = context_changes valid c b"
| "bell_step valid b (BeDismiss c i ok) = dismiss_settles c i ok b"
| "bell_step valid b (BeDismissAll c ex rows answers) = dismiss_all_settles c ex rows answers b"
| "bell_step valid b BeBannerShows = b\<lparr>nc_tab := claim_outage_voice (nc_tab b)\<rparr>"
| "bell_step valid b (BeBannerHides released) = b\<lparr>nc_tab := snd (release_outage_voice released (nc_tab b))\<rparr>"

definition new_bell :: "ident list \<Rightarrow> string \<Rightarrow> bell" where
  "new_bell stored defaults =
     \<lparr>nc_list = [], nc_unavailable = False, nc_blind = False, nc_lastSync = None, nc_seen = stored, nc_stored = stored,
      nc_settings = defaults, nc_settingsLoaded = False, nc_inFlight = [], nc_nextFetch = 0, nc_fresh = 0, nc_settingsAsked = 0,
      nc_errors = [],
      nc_tab = \<lparr>ts_reachable = True, ts_claims = 0, ts_toastsUp = [], ts_toasts = [], ts_expired = 0\<rparr>\<rparr>"

definition bell_session :: "(ident \<Rightarrow> bool) \<Rightarrow> ident list \<Rightarrow> string \<Rightarrow> bell_event list \<Rightarrow> bell" where
  "bell_session valid stored defaults es = foldl (bell_step valid) (new_bell stored defaults) es"

section \<open>Objects and values\<close>

lemma same_notification_iff: "same_notification a b \<longleftrightarrow> a = b"
  by (cases a; cases b) (auto simp: same_notification_def)

text \<open>An object has one value, and the identities still to come are fresh.\<close>

definition objects_ok :: "nat \<Rightarrow> row_object list \<Rightarrow> bool" where
  "objects_ok n rows \<longleftrightarrow> (\<forall>x\<in>set rows. fst x < n \<and> (\<forall>y\<in>set rows. fst x = fst y \<longrightarrow> x = y))"

lemma objects_okD: "objects_ok n rows \<Longrightarrow> x \<in> set rows \<Longrightarrow> y \<in> set rows \<Longrightarrow> fst x = fst y \<Longrightarrow> x = y"
  by (simp add: objects_ok_def)

lemma rows_by_id_mem: "rows_by_id rows i = Some x \<Longrightarrow> x \<in> set rows \<and> nt_id (snd x) = i"
  by (auto simp: rows_by_id_def dest!: map_of_SomeD)

lemma rows_by_id_unique:
  "distinct (map (nt_id \<circ> snd) rows) \<Longrightarrow> x \<in> set rows \<Longrightarrow> rows_by_id rows (nt_id (snd x)) = Some x"
  unfolding rows_by_id_def by (rule map_of_is_SomeI) (simp_all add: rev_map [symmetric] comp_def image_iff)

lemma reconcile_row_value [simp]: "snd (reconcile_row prev x) = snd x"
  by (simp add: reconcile_row_def same_notification_iff split: option.split)

lemma row_stays_value:
  assumes "objects_ok n prev" and "row_stays prev i x"
  shows "i < length prev \<and> snd (prev ! i) = snd x"
proof -
  from assms(2) obtain old where old: "rows_by_id prev (nt_id (snd x)) = Some old" "snd old = snd x" "i < length prev"
    "fst (prev ! i) = fst old"
    by (auto simp: row_stays_def same_notification_iff split: option.splits)
  with objects_okD [OF assms(1), of "prev ! i" old] rows_by_id_mem [OF old(1)] show ?thesis by simp
qed

lemma list_all_enumerate:
  "list_all (\<lambda>(i, x). P i x) (enumerate n xs) \<longleftrightarrow> (\<forall>i<length xs. P (n + i) (xs ! i))"
  by (auto simp: list_all_length nth_enumerate_eq)

lemma reconcile_values:
  assumes "objects_ok n prev"
  shows "map snd (reconcile_notifications prev new) = map snd new"
proof (cases "length prev = length new \<and> list_all (\<lambda>(i, x). row_stays prev i x) (enumerate 0 new)")
  case True
  then have "\<forall>i<length new. snd (prev ! i) = snd (new ! i)"
    using row_stays_value [OF assms] by (simp add: list_all_enumerate)
  with True show ?thesis by (simp add: reconcile_notifications_def list_eq_iff_nth_eq)
next
  case False
  then have "reconcile_notifications prev new = map (reconcile_row prev) new"
    by (auto simp: reconcile_notifications_def)
  then show ?thesis by (simp add: comp_def)
qed

lemma reconcile_objects:
  assumes ok: "objects_ok n prev" and fresh: "\<forall>x\<in>set new. n \<le> fst x \<and> fst x < m" and "distinct (map fst new)" and "n \<le> m"
  shows "objects_ok m (reconcile_notifications prev new)"
proof (cases "length prev = length new \<and> list_all (\<lambda>(i, x). row_stays prev i x) (enumerate 0 new)")
  case True
  with ok assms(4) show ?thesis by (auto simp: reconcile_notifications_def objects_ok_def)
next
  case False
  have src: "y \<in> set prev \<or> y \<in> set new" if "y \<in> set (map (reconcile_row prev) new)" for y
    using that by (auto simp: reconcile_row_def split: option.splits if_splits dest: rows_by_id_mem)
  have one: "x = y" if "x \<in> set prev \<or> x \<in> set new" "y \<in> set prev \<or> y \<in> set new" "fst x = fst y" for x y
  proof -
    have "x \<in> set new \<Longrightarrow> y \<in> set new \<Longrightarrow> x = y" using assms(3) that(3) by (auto simp: distinct_map dest: inj_onD)
    then show ?thesis using that ok fresh unfolding objects_ok_def by fastforce
  qed
  have "fst y < m" if "y \<in> set prev \<or> y \<in> set new" for y
    using that ok fresh assms(4) by (auto simp: objects_ok_def)
  with src one have "objects_ok m (map (reconcile_row prev) new)" unfolding objects_ok_def by blast
  moreover have "reconcile_notifications prev new = map (reconcile_row prev) new"
    using False by (auto simp: reconcile_notifications_def)
  ultimately show ?thesis by simp
qed

lemma mark_dismissed_objects:
  assumes "objects_ok n rows"
  shows "objects_ok (n + length rows) (mark_dismissed ids n rows)"
proof -
  let ?new = "mark_dismissed ids n rows"
  have nth: "?new ! k = (if nt_id (snd (rows ! k)) \<in> ids then (n + k, (snd (rows ! k))\<lparr>nt_dismissed := True\<rparr>) else rows ! k)"
    if "k < length rows" for k
    using that by (simp add: mark_dismissed_def nth_enumerate_eq split: prod.split)
  have len: "length ?new = length rows" by (simp add: mark_dismissed_def)
  have old: "fst (rows ! k) < n" if "k < length rows" for k using assms that by (auto simp: objects_ok_def)
  have same: "rows ! k = rows ! j" if "k < length rows" "j < length rows" "fst (rows ! k) = fst (rows ! j)" for k j
    using objects_okD [OF assms nth_mem [OF that(1)] nth_mem [OF that(2)] that(3)] .
  show ?thesis
    unfolding objects_ok_def
  proof (intro ballI conjI impI)
    fix x assume "x \<in> set ?new"
    then obtain k where k: "k < length rows" "x = ?new ! k" by (auto simp: in_set_conv_nth len)
    with old [of k] show "fst x < n + length rows" by (simp add: nth)
    fix y assume "y \<in> set ?new" and eq: "fst x = fst y"
    then obtain j where j: "j < length rows" "y = ?new ! j" by (auto simp: in_set_conv_nth len)
    show "x = y" using eq k j old [of k] old [of j] same [of k j] by (auto simp: nth split: if_splits)
  qed
qed

section \<open>The invariant of a session\<close>

definition bell_ok :: "bell \<Rightarrow> bool" where
  "bell_ok b \<longleftrightarrow> nc_unavailable b = nc_blind b \<and> objects_ok (nc_fresh b) (nc_list b)
     \<and> (\<not> nc_blind b \<longrightarrow> notifications_toast_id \<notin> set (ts_toastsUp (nc_tab b)))"

lemma objects_ok_Nil [simp]: "objects_ok n []"
  by (simp add: objects_ok_def)

lemma mark_available_fields [simp]:
  "nc_list (mark_available b) = nc_list b" "nc_fresh (mark_available b) = nc_fresh b"
  "nc_blind (mark_available b) = False" "nc_settingsLoaded (mark_available b) = nc_settingsLoaded b"
  by (simp_all add: mark_available_def)

lemma mark_unavailable_fields [simp]:
  "nc_list (mark_unavailable b) = nc_list b" "nc_fresh (mark_unavailable b) = nc_fresh b" "nc_seen (mark_unavailable b) = nc_seen b"
  "nc_stored (mark_unavailable b) = nc_stored b" "nc_blind (mark_unavailable b) = True"
  by (simp_all add: mark_unavailable_def)

lemma ask_settings_fields [simp]:
  "nc_list (ask_settings b) = nc_list b" "nc_fresh (ask_settings b) = nc_fresh b" "nc_seen (ask_settings b) = nc_seen b"
  "nc_stored (ask_settings b) = nc_stored b" "nc_blind (ask_settings b) = nc_blind b"
  "nc_unavailable (ask_settings b) = nc_unavailable b" "nc_tab (ask_settings b) = nc_tab b"
  by (simp_all add: ask_settings_def)

lemma bell_ok_available: "bell_ok b \<Longrightarrow> bell_ok (mark_available b)"
  by (auto simp: bell_ok_def mark_available_def dismiss_outage_toast_def)

lemma bell_ok_unavailable: "bell_ok b \<Longrightarrow> bell_ok (mark_unavailable b)"
  by (auto simp: bell_ok_def mark_unavailable_def)

lemma bell_ok_ask [simp]: "bell_ok (ask_settings b) = bell_ok b"
  by (simp add: bell_ok_def)

lemma bell_ok_cleared: "bell_ok b \<Longrightarrow> bell_ok ((mark_available b)\<lparr>nc_list := []\<rparr>)"
  using bell_ok_available [of b] by (simp add: bell_ok_def)

lemma bell_ok_fetched:
  assumes "bell_ok b" shows "bell_ok (fetched now rows b)"
proof -
  let ?new = "enumerate (nc_fresh b) (map (keep_dismissed (nc_list b)) rows)"
  have "objects_ok (nc_fresh b + length rows) (reconcile_notifications (nc_list b) ?new)"
  proof (rule reconcile_objects)
    show "objects_ok (nc_fresh b) (nc_list b)" using assms by (simp add: bell_ok_def)
    show "\<forall>x\<in>set ?new. nc_fresh b \<le> fst x \<and> fst x < nc_fresh b + length rows"
      by (auto simp: in_set_enumerate_eq)
    show "distinct (map fst ?new)" by simp
  qed simp
  with bell_ok_available [OF assms] show ?thesis by (simp add: bell_ok_def fetched_def Let_def)
qed

lemma bell_ok_marked:
  "bell_ok b \<Longrightarrow> bell_ok (b\<lparr>nc_list := mark_dismissed ids (nc_fresh b) (nc_list b), nc_fresh := nc_fresh b + length (nc_list b)\<rparr>)"
  by (simp add: bell_ok_def mark_dismissed_objects)

lemma bell_ok_errors: "bell_ok (b\<lparr>nc_errors := x\<rparr>) = bell_ok b"
  by (simp add: bell_ok_def)

lemma bell_ok_flight: "bell_ok (b\<lparr>nc_inFlight := x\<rparr>) = bell_ok b" "bell_ok (b\<lparr>nc_inFlight := x, nc_nextFetch := y\<rparr>) = bell_ok b"
  by (simp_all add: bell_ok_def)

lemma bell_ok_sync: "bell_ok b \<Longrightarrow> bell_ok (bell_sync valid c b)"
  by (simp add: bell_sync_def bell_ok_flight bell_ok_cleared split: option.split)

lemma bell_ok_answer: "bell_ok b \<Longrightarrow> bell_ok (bell_answer k r b)"
  by (auto simp: bell_answer_def Let_def bell_ok_flight intro!: bell_ok_unavailable bell_ok_fetched split: option.split)

lemma bell_ok_settings: "bell_ok b \<Longrightarrow> bell_ok (settings_arrive s b)"
  by (auto simp: settings_arrive_def bell_ok_def Let_def split: option.split)

lemma bell_ok_context: "bell_ok b \<Longrightarrow> bell_ok (context_changes valid c b)"
  by (simp add: context_changes_def bell_ok_cleared)

lemma bell_ok_dismiss: "bell_ok b \<Longrightarrow> bell_ok (dismiss_settles c i ok b)"
  by (simp add: dismiss_settles_def bell_ok_errors bell_ok_marked)

lemma bell_ok_dismiss_all: "bell_ok b \<Longrightarrow> bell_ok (dismiss_all_settles c ex rows answers b)"
  using bell_ok_marked [of "b\<lparr>nc_errors := x\<rparr>" for x]
  by (simp add: dismiss_all_settles_def Let_def bell_ok_errors bell_ok_marked)

lemma bell_ok_step: "bell_ok b \<Longrightarrow> bell_ok (bell_step valid b e)"
  by (cases e)
    (simp_all add: bell_ok_sync bell_ok_answer bell_ok_settings bell_ok_context bell_ok_dismiss bell_ok_dismiss_all,
     auto simp: bell_ok_def claim_outage_voice_def release_outage_voice_def)

lemma bell_ok_start: "bell_ok (new_bell stored defaults)"
  by (simp add: bell_ok_def new_bell_def)

interpretation bells: event_machine "bell_step valid" bell_ok "new_bell stored defaults" for valid stored defaults
  by unfold_locales (rule bell_ok_start, rule bell_ok_step)

lemma bell_session_ok: "bell_ok (bell_session valid stored defaults es)"
  unfolding bell_session_def by (rule bells.inv_run)

lemma answer_values:
  assumes "bell_ok b" and "map_of (nc_inFlight b) k = Some e"
  shows "map snd (nc_list (bell_answer k (Some (now, rows)) b)) = map (keep_dismissed (nc_list b)) rows"
  using assms reconcile_values [of "nc_fresh b" "nc_list b"]
  by (simp add: bell_answer_def fetched_def bell_ok_def Let_def)

section \<open>Properties\<close>

lemma reconcile_keeps_object:
  assumes ok: "objects_ok n prev" and d: "distinct (map (nt_id \<circ> snd) prev)"
    and old: "old \<in> set prev" and new: "x \<in> set new" "snd x = snd old"
  shows "old \<in> set (reconcile_notifications prev new)"
proof (cases "length prev = length new \<and> list_all (\<lambda>(i, x). row_stays prev i x) (enumerate 0 new)")
  case True
  with old show ?thesis by (simp add: reconcile_notifications_def)
next
  case False
  then have "reconcile_notifications prev new = map (reconcile_row prev) new"
    by (auto simp: reconcile_notifications_def)
  moreover have "reconcile_row prev x = old"
    using rows_by_id_unique [OF d old] new(2) by (simp add: reconcile_row_def same_notification_iff)
  ultimately show ?thesis using new(1) by (metis image_eqI list.set_map)
qed

lemma reconcile_nothing_new:
  assumes d: "distinct (map (nt_id \<circ> snd) prev)" and eq: "map snd new = map snd prev"
  shows "reconcile_notifications prev new = prev"
proof -
  from eq have len: "length new = length prev" by (metis length_map)
  have "row_stays prev i (new ! i)" if "i < length new" for i
  proof -
    have "snd (new ! i) = snd (prev ! i)" using that len eq by (metis nth_map)
    then show ?thesis
      using rows_by_id_unique [OF d nth_mem [of i prev]] that len by (simp add: row_stays_def same_notification_iff)
  qed
  then show ?thesis by (simp add: reconcile_notifications_def len list_all_enumerate)
qed

text \<open>
  Reconciling shows exactly what came: whatever stood there before, the rows after an answer have the values of
  the answer, in its order. Every row that says the same as before keeps its object, and an answer that changes nothing hands back
  the previous list itself.
\<close>

theorem reconcile_shows_what_came:
  assumes "objects_ok n prev" and "distinct (map (nt_id \<circ> snd) prev)"
  shows "map snd (reconcile_notifications prev new) = map snd new
      \<and> (\<forall>old\<in>set prev. snd old \<in> snd ` set new \<longrightarrow> old \<in> set (reconcile_notifications prev new))
      \<and> (map snd new = map snd prev \<longrightarrow> reconcile_notifications prev new = prev)"
proof (intro conjI ballI impI)
  show "map snd (reconcile_notifications prev new) = map snd new" by (rule reconcile_values [OF assms(1)])
  show "old \<in> set (reconcile_notifications prev new)" if o: "old \<in> set prev" "snd old \<in> snd ` set new" for old
  proof -
    from o(2) obtain x where "x \<in> set new" "snd x = snd old" by auto
    then show ?thesis by (rule reconcile_keeps_object [OF assms o(1)])
  qed
  show "reconcile_notifications prev new = prev" if "map snd new = map snd prev"
    using reconcile_nothing_new [OF assms(2) that] .
qed

definition sample_row :: "ident \<Rightarrow> string \<Rightarrow> bell_row" where
  "sample_row i msg = \<lparr>nt_id = i, nt_type = FieldMessage, nt_severity = Warning, nt_message = msg, nt_incident = None,
     nt_created = 0, nt_dismissed = False, br_params = ''null''\<rparr>"

theorem reconcile_shows_what_came_witness:
  "reconcile_notifications [(0, sample_row ''a'' ''x''), (1, sample_row ''b'' ''y'')]
     [(2, sample_row ''a'' ''x''), (3, sample_row ''b'' ''y'')] = [(0, sample_row ''a'' ''x''), (1, sample_row ''b'' ''y'')]"
  using reconcile_shows_what_came [of 2 "[(0, sample_row ''a'' ''x''), (1, sample_row ''b'' ''y'')]"
      "[(2, sample_row ''a'' ''x''), (3, sample_row ''b'' ''y'')]"]
  by (simp add: objects_ok_def sample_row_def)

text \<open>
  A failed poll never looks like an all-clear: after it the list, and the record of what was seen, are what they
  were, the bell says that it cannot tell, and an outage that is already known raises no second toast.
\<close>

theorem failed_poll_is_no_all_clear:
  assumes "b = bell_session valid stored defaults es" and "map_of (nc_inFlight b) k = Some e"
  shows "let b' = bell_step valid b (BeAnswer k None)
     in nc_list b' = nc_list b \<and> nc_seen b' = nc_seen b \<and> nc_stored b' = nc_stored b \<and> nc_unavailable b'
        \<and> (nc_unavailable b \<longrightarrow> ts_toasts (nc_tab b') = ts_toasts (nc_tab b))"
proof -
  have "bell_ok b" using assms(1) bell_session_ok by simp
  then show ?thesis
    using assms(2) by (auto simp: bell_ok_def bell_answer_def mark_unavailable_def Let_def)
qed

definition here :: "ident \<Rightarrow> bell_context" where
  "here e = \<lparr>bc_event = Some e, bc_signedIn = True, bc_editor = True\<rparr>"

theorem failed_poll_is_no_all_clear_witness:
  "let b = bell_session (\<lambda>_. True) [] [] [BeSync (here ''e''), BeSync (here ''e''), BeAnswer 0 (Some (5, [sample_row ''a'' ''x'']))];
       b' = bell_step (\<lambda>_. True) b (BeAnswer 1 None)
   in nc_unavailable b' \<and> length (nc_list b') = 1"
  using failed_poll_is_no_all_clear [of _ "\<lambda>_. True" "[]" "[]"
      "[BeSync (here ''e''), BeSync (here ''e''), BeAnswer 0 (Some (5, [sample_row ''a'' ''x'']))]" 1 "''e''", OF refl]
  by (simp add: bell_session_def new_bell_def bell_sync_def here_def can_fetch_def or_null_def bell_answer_def
      fetched_def mark_available_def ask_settings_def reconcile_notifications_def Let_def)

lemma dismissed_ids:
  "i \<in> set (map (nt_id \<circ> snd) (filter (nt_dismissed \<circ> snd) prev)) \<longleftrightarrow> i \<in> nt_id ` {y \<in> snd ` set prev. nt_dismissed y}"
  by force

lemma already_dismissed: "nt_dismissed n \<Longrightarrow> n\<lparr>nt_dismissed := True\<rparr> = (n :: bell_row)"
  by (cases n) simp

text \<open>
  A row that was dismissed here stays dismissed: an answer that was in flight when the operator dismissed it
  cannot bring it back, and every other row comes exactly as sent.
\<close>

theorem dismissed_rows_stay_dismissed:
  assumes "b = bell_session valid stored defaults es" and "map_of (nc_inFlight b) k = Some e"
  shows "map snd (nc_list (bell_step valid b (BeAnswer k (Some (now, rows)))))
      = map (\<lambda>n. if nt_id n \<in> nt_id ` {y \<in> snd ` set (nc_list b). nt_dismissed y} then n\<lparr>nt_dismissed := True\<rparr> else n) rows"
proof -
  have "bell_ok b" using assms(1) bell_session_ok by simp
  then have "map snd (nc_list (bell_step valid b (BeAnswer k (Some (now, rows))))) = map (keep_dismissed (nc_list b)) rows"
    using answer_values [OF _ assms(2)] by simp
  also have "\<dots> = map (\<lambda>n. if nt_id n \<in> nt_id ` {y \<in> snd ` set (nc_list b). nt_dismissed y} then n\<lparr>nt_dismissed := True\<rparr> else n) rows"
    by (rule map_cong [OF refl]) (simp add: keep_dismissed_def dismissed_ids already_dismissed del: set_map)
  finally show ?thesis .
qed

theorem dismissed_rows_stay_dismissed_witness:
  "let b = bell_session (\<lambda>_. True) [] []
        [BeSync (here ''e''), BeSync (here ''e''), BeAnswer 0 (Some (5, [sample_row ''a'' ''x''])), BeDismiss (here ''e'') ''a'' True]
   in map (nt_dismissed \<circ> snd) (nc_list (bell_step (\<lambda>_. True) b (BeAnswer 1 (Some (6, [sample_row ''a'' ''x'']))))) = [True]"
proof -
  let ?es = "[BeSync (here ''e''), BeSync (here ''e''), BeAnswer 0 (Some (5, [sample_row ''a'' ''x''])), BeDismiss (here ''e'') ''a'' True]"
  let ?b = "bell_session (\<lambda>_. True) [] [] ?es"
  note defs = bell_session_def new_bell_def bell_sync_def here_def can_fetch_def or_null_def bell_answer_def fetched_def
    mark_available_def ask_settings_def reconcile_notifications_def dismiss_settles_def mark_dismissed_def Let_def
  have l: "nc_list ?b = [(1, (sample_row ''a'' ''x'')\<lparr>nt_dismissed := True\<rparr>)]"
    by (simp add: defs keep_dismissed_def rows_by_id_def reconcile_row_def sample_row_def)
  have f: "map_of (nc_inFlight ?b) 1 = Some ''e''" by (simp add: defs)
  show ?thesis
    using dismissed_rows_stay_dismissed [OF refl f, of 6 "[sample_row ''a'' ''x'']", unfolded l]
    unfolding Let_def map_map [symmetric] by (simp add: sample_row_def image_iff del: map_map bell_step.simps)
qed

text \<open>
  An answer is shown whoever asked: a request that was in flight when the operator signed out or left the event
  still fills the bell when it arrives, although the bell has just been emptied because there is nothing to ask about.
\<close>

theorem late_answer_fills_a_closed_bell:
  assumes "b = bell_session valid stored defaults es" and "map_of (nc_inFlight b) k = Some e" and "\<not> can_fetch valid c"
  shows "nc_list (bell_step valid b (BeContext c)) = []
      \<and> map snd (nc_list (bell_step valid (bell_step valid b (BeContext c)) (BeAnswer k (Some (now, rows))))) = rows"
proof -
  let ?b1 = "context_changes valid c b"
  have "bell_ok ?b1" using assms(1) bell_session_ok bell_ok_context by simp
  moreover have l: "nc_list ?b1 = []" using assms(3) by (simp add: context_changes_def)
  moreover have "map_of (nc_inFlight ?b1) k = Some e"
    using assms(2,3) by (simp add: context_changes_def mark_available_def)
  ultimately have "map snd (nc_list (bell_answer k (Some (now, rows)) ?b1)) = map (keep_dismissed []) rows"
    using answer_values by metis
  moreover have "map (keep_dismissed []) rows = rows" by (simp add: keep_dismissed_def map_idI)
  ultimately show ?thesis using l by simp
qed

theorem late_answer_fills_a_closed_bell_witness:
  "map snd (nc_list (bell_session (\<lambda>_. True) [] []
     [BeSync (here ''e''), BeContext \<lparr>bc_event = None, bc_signedIn = False, bc_editor = False\<rparr>,
      BeAnswer 0 (Some (5, [sample_row ''a'' ''x'']))])) = [sample_row ''a'' ''x'']"
  using late_answer_fills_a_closed_bell [of _ "\<lambda>_. True" "[]" "[]" "[BeSync (here ''e'')]" 0 "''e''"
      "\<lparr>bc_event = None, bc_signedIn = False, bc_editor = False\<rparr>" 5 "[sample_row ''a'' ''x'']", OF refl]
  by (simp add: bell_session_def new_bell_def bell_sync_def here_def can_fetch_def or_null_def)

lemma mark_dismissed_values:
  "map snd (mark_dismissed ids tag rows) = map (\<lambda>n. if nt_id n \<in> ids then n\<lparr>nt_dismissed := True\<rparr> else n) (map snd rows)"
  by (rule nth_equalityI) (simp_all add: mark_dismissed_def nth_enumerate_eq split: prod.split)

text \<open>
  ''Alle schliessen'' closes exactly what the server confirmed: a row becomes dismissed when it was active in the
  list that was clicked, not excepted, and its own request came back well. For a viewer nothing happens at all.
\<close>

theorem dismiss_all_closes_the_confirmed:
  assumes "length answers = length (active_notifications except clicked)"
  shows "map snd (nc_list (dismiss_all_settles c except clicked answers b))
      = map (\<lambda>n. if bc_editor c \<and> (\<exists>j<length answers. answers ! j \<and> active_notifications except clicked ! j = nt_id n)
                   then n\<lparr>nt_dismissed := True\<rparr> else n) (map snd (nc_list b))
      \<and> (\<not> bc_editor c \<longrightarrow> dismiss_all_settles c except clicked answers b = b)"
proof (cases "bc_editor c")
  case True
  let ?done = "map fst (filter snd (zip (active_notifications except clicked) answers))"
  have mem: "i \<in> set ?done \<longleftrightarrow> (\<exists>j<length answers. answers ! j \<and> active_notifications except clicked ! j = i)" for i
    using assms by (force simp: set_zip)
  have "map snd (nc_list (dismiss_all_settles c except clicked answers b))
      = map (\<lambda>n. if nt_id n \<in> set ?done then n\<lparr>nt_dismissed := True\<rparr> else n) (map snd (nc_list b))"
  proof (cases "?done = []")
    case True
    with \<open>bc_editor c\<close> show ?thesis by (simp add: dismiss_all_settles_def Let_def del: map_map)
  next
    case False
    with \<open>bc_editor c\<close> show ?thesis
      by (simp add: dismiss_all_settles_def Let_def mark_dismissed_values del: map_map)
  qed
  with True show ?thesis by (simp only: mem simp_thms if_True)
next
  case False
  then show ?thesis by (simp add: dismiss_all_settles_def)
qed

theorem dismiss_all_closes_the_confirmed_witness:
  "let rows = [(0, sample_row ''a'' ''x''), (1, sample_row ''b'' ''y''), (2, sample_row ''c'' ''z'')]
   in map (nt_dismissed \<circ> snd) (nc_list (dismiss_all_settles (here ''e'') [''c''] rows [True, False] ((new_bell [] [])\<lparr>nc_list := rows\<rparr>)))
      = [True, False, False]"
proof -
  let ?rows = "[(0, sample_row ''a'' ''x''), (1, sample_row ''b'' ''y''), (2, sample_row ''c'' ''z'')]"
  have a: "active_notifications [''c''] ?rows = [''a'', ''b'']"
    by (simp add: active_notifications_def sample_row_def)
  have l: "length [True, False] = length (active_notifications [''c''] ?rows)" unfolding a by simp
  have j: "(\<exists>j<length [True, False]. [True, False] ! j \<and> [''a'', ''b''] ! j = x) \<longleftrightarrow> x = ''a''" for x
    by (auto simp: less_Suc_eq)
  from conjunct1 [OF dismiss_all_closes_the_confirmed [OF l, of "here ''e''" "(new_bell [] [])\<lparr>nc_list := ?rows\<rparr>"], unfolded a j]
  show ?thesis unfolding Let_def map_map [symmetric] by (simp add: here_def sample_row_def del: map_map)
qed

text \<open>
  The bell's outage toast does not come back after the banner: while the bell is blind, a stale banner that was
  shown and hidden again has taken the toast down, and no failed poll after it raises it again, so the bell goes on being blind
  with no toast until a request succeeds.
\<close>

theorem outage_toast_is_lost_to_the_banner:
  assumes "b = bell_session valid stored defaults es" and "nc_unavailable b"
    and "b' = foldl (bell_step valid) b (BeBannerShows # BeBannerHides False # map (\<lambda>k. BeAnswer k None) ks)"
  shows "nc_unavailable b' \<and> ts_toastsUp (nc_tab b') = [] \<and> ts_claims (nc_tab b') = ts_claims (nc_tab b)"
proof -
  have blind: "nc_blind b" using assms(1,2) bell_session_ok [of valid stored defaults es] by (simp add: bell_ok_def)
  define b1 where "b1 = foldl (bell_step valid) b [BeBannerShows, BeBannerHides False]"
  have b1: "nc_blind b1 \<and> nc_unavailable b1 \<and> ts_toastsUp (nc_tab b1) = [] \<and> ts_claims (nc_tab b1) = ts_claims (nc_tab b)"
    using blind assms(2) by (simp add: b1_def claim_outage_voice_def release_outage_voice_def)
  have "nc_blind x \<Longrightarrow> let y = foldl (bell_step valid) x (map (\<lambda>k. BeAnswer k None) ks)
      in nc_blind y \<and> nc_unavailable y = nc_unavailable x \<and> nc_tab y = nc_tab x" for x
    by (induction ks arbitrary: x)
      (simp_all add: Let_def bell_answer_def mark_unavailable_def split: option.split)
  from this [of b1] b1 show ?thesis by (simp add: assms(3) b1_def Let_def)
qed

theorem outage_toast_is_lost_to_the_banner_witness:
  "let b' = bell_session (\<lambda>_. True) [] [] [BeSync (here ''e''), BeSync (here ''e''), BeAnswer 0 None, BeBannerShows, BeBannerHides False, BeAnswer 1 None]
   in nc_unavailable b' \<and> ts_toastsUp (nc_tab b') = []"
  using outage_toast_is_lost_to_the_banner [of _ "\<lambda>_. True" "[]" "[]" "[BeSync (here ''e''), BeSync (here ''e''), BeAnswer 0 None]" _ "[1]",
      OF refl _ refl]
  by (simp add: bell_session_def new_bell_def bell_sync_def here_def can_fetch_def or_null_def bell_answer_def
      mark_unavailable_def ask_settings_def Let_def)

end
