(* ===== verification/SharedDisplay.thy ===== *)
theory SharedDisplay
  imports Reconcile ResourceStatus RoutePlan
begin

text \<open>
  The two readers of one situation: the status wall of a signed-in station (\<^verbatim>\<open>frontend/lib/hooks/use-status-data.ts\<close>,
  \<^verbatim>\<open>use-auftrag-roster.ts\<close>) and the displays behind a share token (\<^verbatim>\<open>frontend/lib/viewer-data.ts\<close>), which rebuild the
  board from a narrower payload. The rows of that payload are the \<^verbatim>\<open>ApiViewer*\<close> types of \<^verbatim>\<open>lib/api/resources/viewer.ts\<close>,
  as far as the module reads them.
\<close>

section \<open>The payload\<close>

record assigned_vehicle =
  av_assignment_id :: ident
  av_vehicle_id :: ident
  av_name :: string
  av_driver_stay :: bool

record viewer_incident =
  vi_id :: ident
  vi_title :: string
  vi_type :: string
  vi_priority :: priority
  vi_status :: incident_status
  vi_location_address :: "string option"
  vi_location_display :: "string option"
  vi_location_lat :: "string option"
  vi_location_lng :: "string option"
  vi_description :: "string option"
  vi_source :: "string option"
  vi_nachbarhilfe :: "bool option"
  vi_nachbarhilfe_note :: "string option"
  vi_am_warten :: "bool option"
  vi_am_warten_note :: "string option"
  vi_zu_fuss :: "bool option"
  vi_pickup_needed :: "bool option"
  vi_pickup_requested_at :: "string option"
  vi_group_id :: "ident option"
  vi_group_position :: "int option"
  vi_created_at :: string
  vi_status_changed_at :: "string option"
  vi_assigned_vehicles :: "assigned_vehicle list option"
  vi_has_completed_reko :: bool
  vi_reko_arrived_at :: "string option"

record viewer_person =
  vw_id :: ident
  vw_name :: string
  vw_role :: "string option"
  vw_role_sort_order :: int
  vw_tags :: "string list option"

record viewer_material =
  vm_id :: ident
  vm_name :: string
  vm_type :: string
  vm_location :: string
  vm_location_sort_order :: int
  vm_consumable :: "bool option"
  vm_group_id :: "ident option"
  vm_out_of_service :: "bool option"

record viewer_assignment =
  va_id :: ident
  va_resource_type :: "resource_kind option"
  va_resource_id :: ident
  va_driver_stay :: bool
  va_is_leader :: bool

record viewer_reko_summary =
  vr_is_relevant :: "bool option"
  vr_dangers :: "dangers option"
  vr_summary_text :: "string option"
  vr_personnel_count :: "int option"
  vr_estimated_duration :: "rat option"
  vr_photos :: "string list option"

record viewer_group =
  vg_id :: ident
  vg_name :: string
  vg_color :: "string option"
  vg_notes :: "string option"
  vg_position :: int
  vg_stop_ids :: "ident list"
  vg_progress :: "(nat \<times> nat) option"
  vg_assignments :: "viewer_assignment list"

record viewer_payload =
  vd_incidents :: "viewer_incident list"
  vd_personnel :: "viewer_person list"
  vd_materials :: "viewer_material list"
  vd_vehicles :: "api_vehicle list"
  vd_positions :: "vehicle_position list"
  vd_groups :: "viewer_group list option"
  vd_assignments :: "(ident \<rightharpoonup> viewer_assignment list) option"
  vd_functions :: "special_function list option"
  vd_summaries :: "(ident \<rightharpoonup> viewer_reko_summary) option"

section \<open>Cards of a display\<close>

definition viewer_reko :: "(string \<Rightarrow> string) \<Rightarrow> viewer_reko_summary \<Rightarrow> reko_summary" where
  "viewer_reko tr s =
     (let ds = reko_danger_types tr (vr_dangers s)
      in \<lparr>rs_isRelevant = nullish (vr_is_relevant s) False, rs_hasDangers = (length ds > 0), rs_dangerTypes = ds,
          rs_personnelCount = vr_personnel_count s, rs_estimatedDuration = vr_estimated_duration s,
          rs_summaryText = vr_summary_text s, rs_photos = nullish (vr_photos s) []\<rparr>)"

definition viewer_row_vehicle :: "assigned_vehicle \<Rightarrow> operation_vehicle" where
  "viewer_row_vehicle v = \<lparr>ov_vehicleId = av_vehicle_id v, ov_assignmentId = Some (av_assignment_id v), ov_name = av_name v,
     ov_callsign = None, ov_driverStay = Some (av_driver_stay v)\<rparr>"

definition viewer_incident_to_operation ::
  "js_runtime \<Rightarrow> (string \<Rightarrow> string) \<Rightarrow> viewer_incident \<Rightarrow> viewer_reko_summary option \<Rightarrow> operation" where
  "viewer_incident_to_operation rt tr a reko =
     \<lparr>op_id = vi_id a,
      op_number = None,
      op_location = or_str (vi_location_address a) (vi_title a),
      op_locationDisplay = vi_location_display a,
      op_vehicle = Some [],
      op_vehicles = map viewer_row_vehicle (nullish (vi_assigned_vehicles a) []),
      op_incidentType = vi_type a,
      op_dispatchTime = parse_date rt (vi_created_at a),
      op_crew = [],
      op_priority = vi_priority a,
      op_status = vi_status a,
      op_coordinates = api_coordinates_to_tuple rt (vi_location_lat a) (vi_location_lng a),
      op_materials = [],
      op_notes = nullish (vi_description a) [],
      op_contact = [],
      op_contactPhone = [],
      op_internalNotes = [],
      op_nachbarhilfe = nullish (vi_nachbarhilfe a) False,
      op_nachbarhilfeNote = nullish (vi_nachbarhilfe_note a) [],
      op_amWarten = nullish (vi_am_warten a) False,
      op_amWartenNote = nullish (vi_am_warten_note a) [],
      op_zuFuss = nullish (vi_zu_fuss a) False,
      op_groupId = vi_group_id a,
      op_groupPosition = nullish (vi_group_position a) 0,
      op_source = vi_source a,
      op_fromRealAlarm = None,
      op_possibleDuplicateOf = None,
      op_statusChangedAt = date_or_null rt (vi_status_changed_at a),
      op_hasCompletedReko = vi_has_completed_reko a,
      op_rekoArrivedAt = date_or_null rt (vi_reko_arrived_at a),
      op_rekoArrivedByKp = None,
      op_fieldCompleteReportedAt = None,
      op_fieldCompleteReportedBy = None,
      op_fieldArrivedAt = None,
      op_fieldArrivedBy = None,
      op_fieldArrivedByAutomation = None,
      op_pickupNeeded = Some (nullish (vi_pickup_needed a) False),
      op_pickupNote = Some [],
      op_pickupRequestedAt = date_or_null rt (vi_pickup_requested_at a),
      op_pickupRequestedBy = None,
      op_fieldRequests = None,
      op_hasSchadenplatzRapport = None,
      op_hasSchadenplatzRapportDraft = None,
      op_hasBeenDispatched = None,
      op_rekoSummary = map_option (viewer_reko tr) reko,
      op_assignedReko = None,
      op_leaderId = None,
      op_leaderName = None,
      op_materialAssignments = Map.empty\<rparr>"

record viewer_route =
  vt_id :: ident
  vt_name :: string
  vt_color :: "string option"
  vt_notes :: "string option"
  vt_position :: int
  vt_stopIds :: "ident list"
  vt_assignments :: "viewer_assignment list"
  vt_progress :: "nat \<times> nat"

definition viewer_groups_to_incident_groups :: "viewer_payload \<Rightarrow> viewer_route list" where
  "viewer_groups_to_incident_groups d =
     map (\<lambda>g. \<lparr>vt_id = vg_id g, vt_name = vg_name g, vt_color = vg_color g, vt_notes = vg_notes g, vt_position = vg_position g,
                vt_stopIds = vg_stop_ids g, vt_assignments = [], vt_progress = nullish (vg_progress g) (length (vg_stop_ids g), 0)\<rparr>)
       (nullish (vd_groups d) [])"

section \<open>The display's reconciliation\<close>

text \<open>The roles: as the board collects them, without the two it does not draw.\<close>

definition viewer_add_function :: "role_sets \<Rightarrow> special_function \<Rightarrow> role_sets" where
  "viewer_add_function r f =
     (let p = sf_personnel_id f; busy = r\<lparr>rl_assigned := p # rl_assigned r\<rparr>
      in case sf_function_type f of
           FReko \<Rightarrow> r\<lparr>rl_reko := p # rl_reko r\<rparr>
         | FDriver \<Rightarrow> busy\<lparr>rl_driver := (rl_driver r)(p \<mapsto> (nullish (sf_vehicle_id f) [], nullish (sf_vehicle_name f) []))\<rparr>
         | FMagazin \<Rightarrow> busy\<lparr>rl_magazin := p # rl_magazin r\<rparr>
         | _ \<Rightarrow> busy)"

definition viewer_roles :: "special_function list \<Rightarrow> role_sets" where
  "viewer_roles fs = foldl viewer_add_function no_roles fs"

definition viewer_assigned_vehicle :: "viewer_assignment \<Rightarrow> api_vehicle \<Rightarrow> operation_vehicle" where
  "viewer_assigned_vehicle a v = \<lparr>ov_vehicleId = v_id v, ov_assignmentId = Some (va_id a), ov_name = v_name v,
     ov_callsign = or_null (Some (v_radio_call_sign v)), ov_driverStay = Some (va_driver_stay a)\<rparr>"

text \<open>Replace the row of that vehicle, or append it.\<close>

fun put_vehicle :: "operation_vehicle \<Rightarrow> operation_vehicle list \<Rightarrow> operation_vehicle list" where
  "put_vehicle x [] = [x]"
| "put_vehicle x (y # ys) = (if ov_vehicleId y = ov_vehicleId x then x # ys else y # put_vehicle x ys)"

definition viewer_add_assignment ::
  "(ident \<rightharpoonup> viewer_person) \<Rightarrow> (ident \<rightharpoonup> api_vehicle) \<Rightarrow> ident list \<Rightarrow> card_load \<Rightarrow> viewer_assignment \<Rightarrow> card_load" where
  "viewer_add_assignment personById vehicleById rekoIds c a =
     (let op1 = cl_op c; r = va_resource_id a
      in case va_resource_type a of
           Some KPersonnel \<Rightarrow>
             (case personById r of
                None \<Rightarrow> c
              | Some p \<Rightarrow>
                  if js_includes rekoIds (vw_id p)
                  then c\<lparr>cl_op := op1\<lparr>op_assignedReko := Some \<lparr>np_id = vw_id p, np_name = vw_name p\<rparr>\<rparr>\<rparr>
                  else
                    let op2 = op1\<lparr>op_crew := op_crew op1 @ [\<lparr>cm_personnelId = vw_id p, cm_assignmentId = Some (va_id a),
                          cm_name = vw_name p\<rparr>]\<rparr>
                    in c\<lparr>cl_op := (if va_is_leader a
                           then op2\<lparr>op_leaderId := Some (vw_id p), op_leaderName := Some (vw_name p)\<rparr> else op2),
                         cl_persons := vw_id p # cl_persons c\<rparr>)
         | Some KMaterial \<Rightarrow>
             c\<lparr>cl_op := op1\<lparr>op_materials := op_materials op1 @ [r],
                 op_materialAssignments := (op_materialAssignments op1)(r \<mapsto> va_id a)\<rparr>,
               cl_materials := r # cl_materials c\<rparr>
         | Some KVehicle \<Rightarrow>
             (case vehicleById r of
                None \<Rightarrow> c
              | Some v \<Rightarrow> c\<lparr>cl_op := op1\<lparr>op_vehicles := put_vehicle (viewer_assigned_vehicle a v) (op_vehicles op1)\<rparr>\<rparr>)
         | None \<Rightarrow> c)"

definition viewer_cards :: "js_runtime \<Rightarrow> (string \<Rightarrow> string) \<Rightarrow> viewer_payload \<Rightarrow> card_load list" where
  "viewer_cards rt tr d =
     map (\<lambda>i. foldl (viewer_add_assignment (map_of (rev (map (\<lambda>p. (vw_id p, p)) (vd_personnel d)))) (index_by v_id (vd_vehicles d))
                 (rl_reko (viewer_roles (nullish (vd_functions d) []))))
               \<lparr>cl_op = viewer_incident_to_operation rt tr i (nullish (vd_summaries d) Map.empty (vi_id i)),
                cl_persons = [], cl_materials = []\<rparr>
               (nullish (nullish (vd_assignments d) Map.empty (vi_id i)) []))
       (vd_incidents d)"

definition viewer_person_row :: "role_sets \<Rightarrow> ident list \<Rightarrow> viewer_person \<Rightarrow> person" where
  "viewer_person_row r assigned p =
     \<lparr>p_id = vw_id p, p_name = vw_name p, p_role = Some (nullish (vw_role p) []),
      p_status = (if js_includes assigned (vw_id p) then PAssigned else PAvailable), p_tags = nullish (vw_tags p) [],
      p_isReko = js_includes (rl_reko r) (vw_id p), p_isOnAuftrag = False, p_isDriver = (rl_driver r (vw_id p) \<noteq> None),
      p_driverVehicleId = or_null (map_option fst (rl_driver r (vw_id p))),
      p_driverVehicleName = or_null (map_option snd (rl_driver r (vw_id p))),
      p_isMagazin = js_includes (rl_magazin r) (vw_id p), p_isTelefondienst = False, p_isKommandoposten = False,
      p_roleSortOrder = vw_role_sort_order p, p_checkedInAt = None\<rparr>"

definition viewer_material_row :: "ident list \<Rightarrow> viewer_material \<Rightarrow> material" where
  "viewer_material_row assigned m =
     \<lparr>m_id = vm_id m, m_name = vm_name m, m_category = or_str (Some (vm_location m)) ''General'',
      m_type = or_str (Some (vm_type m)) ''Sonstiges'',
      m_status = (if js_includes assigned (vm_id m) then MAssigned else MAvailable),
      m_outOfService = nullish (vm_out_of_service m) False, m_outOfServiceSince = None,
      m_categorySortOrder = vm_location_sort_order m, m_consumable = nullish (vm_consumable m) False, m_groupId = vm_group_id m\<rparr>"

section \<open>Figures and fleet\<close>

record vehicle_with_status =
  vs_vehicle :: api_vehicle
  vs_operation :: "operation option"
  vs_gps :: "vehicle_position option"
  vs_driver :: "string option"

record status_stats =
  st_byStatus :: "incident_status \<rightharpoonup> operation list"
  st_totalOperations :: nat
  st_activeOperations :: nat
  st_incomingCount :: nat
  st_completedCount :: nat
  st_personnelTotal :: nat
  st_personnelAssigned :: nat
  st_personnelAvailable :: nat

definition column_of :: "operation \<Rightarrow> incident_status option" where
  "column_of op1 = map_option col_id (List.find (\<lambda>c. js_includes (col_status c) (op_status op1)) columns)"

definition by_status :: "operation list \<Rightarrow> incident_status \<rightharpoonup> operation list" where
  "by_status ops = foldl (\<lambda>m op1. case column_of op1 of None \<Rightarrow> m | Some c \<Rightarrow> m(c \<mapsto> nullish (m c) [] @ [op1]))
     (map_of (map (\<lambda>c. (col_id c, [])) columns)) ops"

definition figures :: "operation list \<Rightarrow> person list \<Rightarrow> status_stats" where
  "figures ops persons =
     (let groups1 = by_status ops
      in \<lparr>st_byStatus = groups1, st_totalOperations = length ops,
          st_activeOperations = length (filter (\<lambda>op1. op_status op1 \<noteq> Complete) ops),
          st_incomingCount = length (nullish (groups1 Incoming) []), st_completedCount = length (nullish (groups1 Complete) []),
          st_personnelTotal = length persons,
          st_personnelAssigned = length (filter (\<lambda>p. person_resource_state p = RAssigned) persons),
          st_personnelAvailable = length (filter (\<lambda>p. person_resource_state p = RAvailable) persons)\<rparr>)"

definition display_order_cmp :: "vehicle_with_status \<Rightarrow> vehicle_with_status \<Rightarrow> int" where
  "display_order_cmp a b = v_display_order (vs_vehicle a) - v_display_order (vs_vehicle b)"

definition vehicle_row :: "operation list \<Rightarrow> vehicle_position list \<Rightarrow> string option \<Rightarrow> api_vehicle \<Rightarrow> vehicle_with_status" where
  "vehicle_row ops gps driver v =
     \<lparr>vs_vehicle = v, vs_operation = List.find (\<lambda>op1. js_some (\<lambda>x. ov_vehicleId x = v_id v) (op_vehicles op1)) ops,
      vs_gps = List.find (\<lambda>p. js_lower (vp_device p) = js_lower (v_name v)) gps, vs_driver = driver\<rparr>"

text \<open>The driver of a vehicle: the wall takes the first, the display the last person who drives it.\<close>

definition live_driver :: "person list \<Rightarrow> ident \<Rightarrow> string option" where
  "live_driver persons v =
     or_null (map_option p_name (List.find (\<lambda>p. p_isDriver p \<and> p_driverVehicleId p = Some v) persons))"

definition viewer_driver :: "person list \<Rightarrow> ident \<Rightarrow> string option" where
  "viewer_driver persons = map_of (rev (concat (map (\<lambda>p.
     if p_isDriver p then case or_null (p_driverVehicleId p) of None \<Rightarrow> [] | Some v \<Rightarrow> [(v, p_name p)] else []) persons)))"

record situation_data =
  sd_stats :: status_stats
  sd_vehicles :: "vehicle_with_status list"
  sd_operations :: "operation list"
  sd_personnel :: "person list"
  sd_materials :: "material list"

definition build_situation_data :: "js_runtime \<Rightarrow> (string \<Rightarrow> string) \<Rightarrow> viewer_payload \<Rightarrow> situation_data" where
  "build_situation_data rt tr d =
     (let roles = viewer_roles (nullish (vd_functions d) []);
          cards = viewer_cards rt tr d;
          ops = map cl_op cards;
          persons = map (viewer_person_row roles (rl_assigned roles @ concat (map cl_persons cards))) (vd_personnel d);
          materials = map (viewer_material_row (concat (map cl_materials cards))) (vd_materials d)
      in \<lparr>sd_stats = figures ops persons,
          sd_vehicles = js_sort display_order_cmp (map (\<lambda>v. vehicle_row ops (vd_positions d) (viewer_driver persons (v_id v)) v) (vd_vehicles d)),
          sd_operations = ops, sd_personnel = persons, sd_materials = materials\<rparr>)"

text \<open>The signed-in wall: the roster with the people on a route folded in, over the board's own state.\<close>

definition auftrag_roster :: "ident list \<Rightarrow> person list \<Rightarrow> person list" where
  "auftrag_roster occupied = map (\<lambda>p. if p_id p \<in> set occupied then p\<lparr>p_isOnAuftrag := True\<rparr> else p)"

definition status_data :: "operation list \<Rightarrow> person list \<Rightarrow> ident list \<Rightarrow> material list \<Rightarrow> api_vehicle list \<Rightarrow> vehicle_position list
    \<Rightarrow> situation_data" where
  "status_data ops roster occupied materials fleet gps =
     (let persons = auftrag_roster occupied roster
      in \<lparr>sd_stats = figures ops persons,
          sd_vehicles = js_sort display_order_cmp (map (\<lambda>v. vehicle_row ops gps (live_driver persons (v_id v)) v) fleet),
          sd_operations = ops, sd_personnel = persons, sd_materials = materials\<rparr>)"

definition activity_time :: "operation \<Rightarrow> ms" where
  "activity_time op1 =
     (case Option.bind (op_statusChangedAt op1) id of
        Some t \<Rightarrow> if t \<noteq> 0 then t else nullish (op_dispatchTime op1) 0
      | None \<Rightarrow> nullish (op_dispatchTime op1) 0)"

definition recent_activity :: "operation list \<Rightarrow> operation list" where
  "recent_activity ops = take 12 (js_sort (\<lambda>a b. activity_time b - activity_time a) ops)"

section \<open>The payload of a board\<close>

text \<open>What the share link sends of a snapshot of the board: the picked fields of each row, the summaries of the submitted reports.
  The vehicles a row carries, the positions and the routes are whatever the server adds.\<close>

definition share_person :: "person \<Rightarrow> viewer_person" where
  "share_person p = \<lparr>vw_id = p_id p, vw_name = p_name p, vw_role = p_role p, vw_role_sort_order = p_roleSortOrder p,
     vw_tags = Some (p_tags p)\<rparr>"

definition share_material :: "material \<Rightarrow> viewer_material" where
  "share_material m = \<lparr>vm_id = m_id m, vm_name = m_name m, vm_type = m_type m, vm_location = m_category m,
     vm_location_sort_order = m_categorySortOrder m, vm_consumable = Some (m_consumable m), vm_group_id = m_groupId m,
     vm_out_of_service = Some (m_outOfService m)\<rparr>"

definition share_assignment :: "api_assignment \<Rightarrow> viewer_assignment" where
  "share_assignment a = \<lparr>va_id = a_id a, va_resource_type = a_resource_type a, va_resource_id = a_resource_id a,
     va_driver_stay = a_driver_stay a, va_is_leader = a_is_leader a\<rparr>"

definition share_summary :: "api_reko_summary \<Rightarrow> viewer_reko_summary" where
  "share_summary s = \<lparr>vr_is_relevant = ars_is_relevant s, vr_dangers = ars_dangers s, vr_summary_text = ars_summary_text s,
     vr_personnel_count = Option.bind (ars_effort s) e_personnel_count,
     vr_estimated_duration = Option.bind (ars_effort s) e_estimated_duration_hours, vr_photos = ars_photos s\<rparr>"

definition share_incident :: "assigned_vehicle list \<Rightarrow> api_incident \<Rightarrow> viewer_incident" where
  "share_incident vs i = \<lparr>vi_id = i_id i, vi_title = i_title i, vi_type = i_type i, vi_priority = i_priority i,
     vi_status = i_status i, vi_location_address = i_location_address i, vi_location_display = i_location_display i,
     vi_location_lat = i_location_lat i, vi_location_lng = i_location_lng i, vi_description = i_description i,
     vi_source = i_source i, vi_nachbarhilfe = Some (i_nachbarhilfe i), vi_nachbarhilfe_note = i_nachbarhilfe_note i,
     vi_am_warten = Some (i_am_warten i), vi_am_warten_note = i_am_warten_note i, vi_zu_fuss = Some (i_zu_fuss i),
     vi_pickup_needed = i_pickup_needed i, vi_pickup_requested_at = i_pickup_requested_at i, vi_group_id = i_group_id i,
     vi_group_position = i_group_position i, vi_created_at = i_created_at i, vi_status_changed_at = i_status_changed_at i,
     vi_assigned_vehicles = Some vs, vi_has_completed_reko = i_has_completed_reko i, vi_reko_arrived_at = i_reko_arrived_at i\<rparr>"

definition share_payload :: "(ident \<Rightarrow> assigned_vehicle list) \<Rightarrow> vehicle_position list \<Rightarrow> viewer_group list option \<Rightarrow> event_snapshot
    \<Rightarrow> viewer_payload" where
  "share_payload rows gps routes sn =
     \<lparr>vd_incidents = map (\<lambda>i. share_incident (rows (i_id i)) i) (sn_incidents sn),
      vd_personnel = map share_person (sn_personnel sn), vd_materials = map share_material (sn_materials sn),
      vd_vehicles = sn_vehicles sn, vd_positions = gps, vd_groups = routes,
      vd_assignments = Some (\<lambda>i. map_option (map share_assignment) (sn_assignments sn i)),
      vd_functions = Some (sn_functions sn),
      vd_summaries = Some (\<lambda>i. Option.bind (sn_summaries sn i) (\<lambda>s. if ars_has_completed_reko s then Some (share_summary s) else None))\<rparr>"

section \<open>Two reconciliations agree\<close>

text \<open>A card without what is not shared, and without what is compared on its own (vehicles, leader, report).\<close>

definition drawn :: "operation \<Rightarrow> operation" where
  "drawn op1 = op1\<lparr>op_number := None, op_vehicle := None, op_vehicles := [], op_contact := [], op_contactPhone := [],
     op_internalNotes := [], op_source := None, op_fromRealAlarm := None, op_possibleDuplicateOf := None,
     op_hasCompletedReko := False, op_rekoArrivedByKp := None, op_fieldCompleteReportedAt := None,
     op_fieldCompleteReportedBy := None, op_fieldArrivedAt := None, op_fieldArrivedBy := None,
     op_fieldArrivedByAutomation := None, op_pickupNote := None, op_pickupRequestedBy := None, op_fieldRequests := None,
     op_hasSchadenplatzRapport := None, op_hasSchadenplatzRapportDraft := None, op_hasBeenDispatched := None,
     op_rekoSummary := None, op_leaderId := None, op_leaderName := None\<rparr>"

lemma drawn_updates [simp]:
  "drawn (op1\<lparr>op_crew := x\<rparr>) = (drawn op1)\<lparr>op_crew := x\<rparr>"
  "drawn (op1\<lparr>op_materials := y, op_materialAssignments := z\<rparr>) = (drawn op1)\<lparr>op_materials := y, op_materialAssignments := z\<rparr>"
  "drawn (op1\<lparr>op_assignedReko := w\<rparr>) = (drawn op1)\<lparr>op_assignedReko := w\<rparr>"
  "drawn (op1\<lparr>op_vehicles := vs\<rparr>) = drawn op1"
  "drawn (op1\<lparr>op_leaderId := l, op_leaderName := n\<rparr>) = drawn op1"
  "drawn (op1\<lparr>op_crew := x, op_leaderId := l, op_leaderName := n\<rparr>) = (drawn op1)\<lparr>op_crew := x\<rparr>"
  "drawn (op1\<lparr>op_hasCompletedReko := b, op_rekoSummary := s\<rparr>) = drawn op1"
  by (simp_all add: drawn_def)

lemma drawn_fields:
  assumes "drawn a = drawn b"
  shows "op_crew a = op_crew b" "op_materials a = op_materials b" "op_materialAssignments a = op_materialAssignments b"
proof -
  show "op_crew a = op_crew b" using arg_cong [OF assms, of op_crew] by (simp add: drawn_def)
  show "op_materials a = op_materials b" using arg_cong [OF assms, of op_materials] by (simp add: drawn_def)
  show "op_materialAssignments a = op_materialAssignments b"
    using arg_cong [OF assms, of op_materialAssignments] by (simp add: drawn_def)
qed

definition leader_shared :: "operation \<Rightarrow> operation \<Rightarrow> bool" where
  "leader_shared v b \<longleftrightarrow> (op_leaderId v \<noteq> None \<longrightarrow> op_leaderId v = op_leaderId b \<and> op_leaderName v = op_leaderName b)"

definition same_card :: "card_load \<Rightarrow> card_load \<Rightarrow> bool" where
  "same_card v b \<longleftrightarrow> drawn (cl_op v) = drawn (cl_op b) \<and> cl_persons v = cl_persons b \<and> cl_materials v = cl_materials b
     \<and> leader_shared (cl_op v) (cl_op b)"

lemma map_of_rev_map:
  "map_of (rev (map (\<lambda>x. (k x, f x)) xs)) r = map_option f (map_of (rev (map (\<lambda>x. (k x, x)) xs)) r)"
proof -
  have "rev (map (\<lambda>x. (k x, f x)) xs) = map (\<lambda>(a, b). (a, f b)) (rev (map (\<lambda>x. (k x, x)) xs))"
    by (simp add: rev_map comp_def)
  then show ?thesis by (simp add: map_of_map)
qed

lemma person_index: "map_of (rev (map (\<lambda>p. (vw_id p, p)) (map share_person ps))) r = map_option share_person (index_by p_id ps r)"
  using map_of_rev_map [of p_id share_person ps r] by (simp add: index_by_def comp_def share_person_def)

lemma same_card_step:
  assumes "same_card v b"
  shows "same_card (viewer_add_assignment (\<lambda>r. map_option share_person (pb r)) vb rk v (share_assignment a)) (add_assignment pb vb rk b a)"
proof -
  note same = assms [unfolded same_card_def]
  note f = drawn_fields [OF conjunct1 [OF same]]
  note defs = same_card_def viewer_add_assignment_def add_assignment_def share_assignment_def Let_def leader_shared_def
  consider "a_resource_type a = None" | "a_resource_type a = Some KMaterial"
    | (vehicle) "a_resource_type a = Some KVehicle" | (person) "a_resource_type a = Some KPersonnel"
    by (metis option.exhaust resource_kind.exhaust)
  then show ?thesis
  proof cases
    case vehicle
    with same show ?thesis by (cases "vb (a_resource_id a)") (simp_all add: defs)
  next
    case person
    show ?thesis
    proof (cases "pb (a_resource_id a)")
      case None
      with person same show ?thesis by (simp add: defs)
    next
      case (Some p)
      with person same f show ?thesis
        by (cases "js_includes rk (p_id p)"; cases "a_is_leader a") (simp_all add: defs share_person_def)
    qed
  qed (use same f in \<open>simp_all add: defs\<close>)
qed

lemma same_card_fold:
  "same_card v b \<Longrightarrow> same_card (foldl (viewer_add_assignment (\<lambda>r. map_option share_person (pb r)) vb rk) v (map share_assignment as))
     (foldl (add_assignment pb vb rk) b as)"
  by (induction as arbitrary: v b) (simp_all add: same_card_step)

lemma viewer_fold_reko: "op_rekoSummary (cl_op (foldl (viewer_add_assignment pb vb rk) v as)) = op_rekoSummary (cl_op v)"
  by (induction as arbitrary: v)
    (auto simp: viewer_add_assignment_def Let_def split: option.splits resource_kind.splits)

lemma board_fold_id: "op_id (cl_op (foldl (add_assignment pb vb rk) v as)) = op_id (cl_op v)"
  by (induction as arbitrary: v)
    (auto simp: add_assignment_def Let_def split: option.splits resource_kind.splits)

lemma board_fold_reko: "op_rekoSummary (cl_op (foldl (add_assignment pb vb rk) v as)) = op_rekoSummary (cl_op v)"
  by (induction as arbitrary: v)
    (auto simp: add_assignment_def Let_def split: option.splits resource_kind.splits)

text \<open>The roles.\<close>

definition same_roles :: "role_sets \<Rightarrow> role_sets \<Rightarrow> bool" where
  "same_roles a b \<longleftrightarrow> rl_reko a = rl_reko b \<and> rl_driver a = rl_driver b \<and> rl_magazin a = rl_magazin b \<and> rl_assigned a = rl_assigned b"

lemma or_str_nil: "or_str x [] = nullish x []"
  by (simp add: or_str_def nullish_def split: option.split)

lemma same_roles_step: "same_roles a b \<Longrightarrow> same_roles (viewer_add_function a f) (add_function b f)"
  by (simp add: same_roles_def viewer_add_function_def add_function_def Let_def or_str_nil split: function_type.split)

lemma same_roles_fold: "same_roles a b \<Longrightarrow> same_roles (foldl viewer_add_function a fs) (foldl add_function b fs)"
  by (induction fs arbitrary: a b) (simp_all add: same_roles_step)

lemma viewer_roles_agree: "same_roles (viewer_roles fs) (collect_roles fs)"
  unfolding viewer_roles_def collect_roles_def by (rule same_roles_fold) (simp add: same_roles_def)

lemma viewer_roles_fields [simp]:
  "rl_reko (viewer_roles fs) = rl_reko (collect_roles fs)" "rl_driver (viewer_roles fs) = rl_driver (collect_roles fs)"
  "rl_magazin (viewer_roles fs) = rl_magazin (collect_roles fs)" "rl_assigned (viewer_roles fs) = rl_assigned (collect_roles fs)"
  using viewer_roles_agree [of fs] by (simp_all add: same_roles_def)

section \<open>Vehicles\<close>

lemma put_vehicle_keys: "ov_vehicleId ` set (put_vehicle x l) = insert (ov_vehicleId x) (ov_vehicleId ` set l)"
  by (induction l) auto

lemma put_vehicle_set:
  "distinct (map ov_vehicleId l) \<Longrightarrow> set (put_vehicle x l) = insert x {y \<in> set l. ov_vehicleId y \<noteq> ov_vehicleId x}"
  by (induction l) (auto simp: image_iff)

lemma put_vehicle_distinct: "distinct (map ov_vehicleId l) \<Longrightarrow> distinct (map ov_vehicleId (put_vehicle x l))"
  by (induction l) (auto simp: put_vehicle_keys)

lemma put_vehicles:
  assumes "distinct (map ov_vehicleId l)" and "distinct (map ov_vehicleId xs)"
  shows "distinct (map ov_vehicleId (foldl (\<lambda>l x. put_vehicle x l) l xs))
    \<and> set (foldl (\<lambda>l x. put_vehicle x l) l xs) = set xs \<union> {y \<in> set l. ov_vehicleId y \<notin> ov_vehicleId ` set xs}"
  using assms
proof (induction xs arbitrary: l)
  case (Cons x xs)
  have "distinct (map ov_vehicleId (put_vehicle x l))" by (rule put_vehicle_distinct [OF Cons.prems(1)])
  with Cons show ?case by (auto simp: put_vehicle_set)
qed simp

text \<open>The vehicles a list of assignment rows names, in its order.\<close>

definition row_vehicles :: "(ident \<rightharpoonup> api_vehicle) \<Rightarrow> api_assignment list \<Rightarrow> operation_vehicle list" where
  "row_vehicles vb as = concat (map (\<lambda>a. if a_resource_type a = Some KVehicle
     then case vb (a_resource_id a) of None \<Rightarrow> [] | Some v \<Rightarrow> [viewer_assigned_vehicle (share_assignment a) v] else []) as)"

lemma viewer_fold_vehicles:
  "op_vehicles (cl_op (foldl (viewer_add_assignment pb vb rk) c (map share_assignment as)))
     = foldl (\<lambda>l x. put_vehicle x l) (op_vehicles (cl_op c)) (row_vehicles vb as)"
proof (induction as arbitrary: c)
  case (Cons a as)
  have "op_vehicles (cl_op (viewer_add_assignment pb vb rk c (share_assignment a)))
      = foldl (\<lambda>l x. put_vehicle x l) (op_vehicles (cl_op c)) (row_vehicles vb [a])"
    by (auto simp: viewer_add_assignment_def row_vehicles_def share_assignment_def Let_def split: option.split resource_kind.split)
  then show ?case by (simp add: Cons.IH row_vehicles_def)
qed (simp add: row_vehicles_def)

lemma board_fold_vehicles:
  "op_vehicles (cl_op (foldl (add_assignment pb vb rk) c as)) = op_vehicles (cl_op c) @ row_vehicles vb as"
proof (induction as arbitrary: c)
  case (Cons a as)
  have "op_vehicles (cl_op (add_assignment pb vb rk c a)) = op_vehicles (cl_op c) @ row_vehicles vb [a]"
    by (auto simp: add_assignment_def row_vehicles_def share_assignment_def viewer_assigned_vehicle_def Let_def
        split: option.split resource_kind.split)
  then show ?case by (simp add: Cons.IH row_vehicles_def)
qed (simp add: row_vehicles_def)

section \<open>The cards of the two sides\<close>

definition viewer_start :: "js_runtime \<Rightarrow> (string \<Rightarrow> string) \<Rightarrow> (ident \<Rightarrow> assigned_vehicle list) \<Rightarrow> event_snapshot \<Rightarrow> api_incident \<Rightarrow> card_load" where
  "viewer_start rt tr rows sn i =
     \<lparr>cl_op = viewer_incident_to_operation rt tr (share_incident (rows (i_id i)) i)
        (Option.bind (sn_summaries sn (i_id i)) (\<lambda>s. if ars_has_completed_reko s then Some (share_summary s) else None)),
      cl_persons = [], cl_materials = []\<rparr>"

definition viewer_card_of ::
  "js_runtime \<Rightarrow> (string \<Rightarrow> string) \<Rightarrow> (ident \<Rightarrow> assigned_vehicle list) \<Rightarrow> event_snapshot \<Rightarrow> api_incident \<Rightarrow> card_load" where
  "viewer_card_of rt tr rows sn i =
     foldl (viewer_add_assignment (\<lambda>r. map_option share_person (index_by p_id (sn_personnel sn) r)) (index_by v_id (sn_vehicles sn))
              (rl_reko (collect_roles (sn_functions sn))))
       (viewer_start rt tr rows sn i) (map share_assignment (nullish (sn_assignments sn (i_id i)) []))"

definition board_card_of :: "js_runtime \<Rightarrow> event_snapshot \<Rightarrow> api_incident \<Rightarrow> card_load" where
  "board_card_of rt sn i =
     foldl (add_assignment (index_by p_id (sn_personnel sn)) (index_by v_id (sn_vehicles sn)) (rl_reko (collect_roles (sn_functions sn))))
       (start_card rt i) (nullish (sn_assignments sn (i_id i)) [])"

lemma nullish_map: "nullish (map_option (map f) x) [] = map f (nullish x [])"
  by (cases x) simp_all

lemma viewer_cards_share: "viewer_cards rt tr (share_payload rows gps routes sn) = map (viewer_card_of rt tr rows sn) (sn_incidents sn)"
proof -
  have idx: "map_of (rev (map (\<lambda>x. (vw_id (share_person x), share_person x)) (sn_personnel sn)))
      = (\<lambda>r. map_option share_person (index_by p_id (sn_personnel sn) r))"
    by (rule ext) (use person_index [of "sn_personnel sn"] in \<open>simp add: comp_def\<close>)
  have "vi_id (share_incident vs i) = i_id i" for vs i by (simp add: share_incident_def)
  then show ?thesis
    by (simp add: viewer_cards_def share_payload_def viewer_card_of_def viewer_start_def idx nullish_map comp_def)
qed

lemma load_cards_board: "load_cards rt sn = map (board_card_of rt sn) (sn_incidents sn)"
  by (simp add: load_cards_def board_card_of_def load_card_start comp_def)

lemma start_same:
  "i_type i \<noteq> [] \<Longrightarrow> same_card (viewer_start rt tr rows sn i) (start_card rt i)"
  by (simp add: same_card_def viewer_start_def start_card_def leader_shared_def drawn_def viewer_incident_to_operation_def
      api_incident_to_operation_def share_incident_def or_str_nil)

lemma cards_same: "i_type i \<noteq> [] \<Longrightarrow> same_card (viewer_card_of rt tr rows sn i) (board_card_of rt sn i)"
  unfolding viewer_card_of_def board_card_of_def by (rule same_card_fold [OF start_same])

lemma finish_drawn: "drawn (finish_card tr sn c) = drawn (cl_op c)"
  by (simp add: finish_card_def fold_reko_summary_def sort_vehicles_def Let_def split: option.split)

lemma finish_leader: "op_leaderId (finish_card tr sn c) = op_leaderId (cl_op c)" "op_leaderName (finish_card tr sn c) = op_leaderName (cl_op c)"
  by (simp_all add: finish_card_def fold_reko_summary_def sort_vehicles_def Let_def split: option.split)

lemma board_card_id: "op_id (cl_op (board_card_of rt sn i)) = i_id i"
  by (simp add: board_card_of_def board_fold_id start_card_def api_incident_to_operation_def)

lemma board_report:
  "op_rekoSummary (finish_card tr sn (board_card_of rt sn i))
     = (case sn_summaries sn (i_id i) of
          Some s \<Rightarrow> if ars_has_completed_reko s then Some (viewer_reko tr (share_summary s)) else None
        | None \<Rightarrow> None)"
proof -
  have "op_rekoSummary (cl_op (board_card_of rt sn i)) = None"
    by (simp add: board_card_of_def board_fold_reko start_card_def api_incident_to_operation_def)
  moreover have "op_id (sort_vehicles ord (cl_op (board_card_of rt sn i))) = i_id i"
    "op_rekoSummary (sort_vehicles ord (cl_op (board_card_of rt sn i))) = op_rekoSummary (cl_op (board_card_of rt sn i))" for ord
    by (simp_all add: sort_vehicles_def board_card_id)
  ultimately show ?thesis
    by (simp add: finish_card_def fold_reko_summary_def viewer_reko_def share_summary_def Let_def split: option.split)
qed

lemma viewer_report:
  "op_rekoSummary (cl_op (viewer_card_of rt tr rows sn i))
     = (case sn_summaries sn (i_id i) of
          Some s \<Rightarrow> if ars_has_completed_reko s then Some (viewer_reko tr (share_summary s)) else None
        | None \<Rightarrow> None)"
  by (simp add: viewer_card_of_def viewer_fold_reko viewer_start_def viewer_incident_to_operation_def split: option.split)

definition typed :: "event_snapshot \<Rightarrow> bool" where
  "typed sn \<longleftrightarrow> (\<forall>i\<in>set (sn_incidents sn). i_type i \<noteq> [])"

section \<open>A concrete snapshot\<close>

text \<open>One incident with a person and a vehicle, and a second person, on a route only.\<close>

definition plain_runtime :: js_runtime where
  "plain_runtime = \<lparr>parse_date = (\<lambda>_. None), parse_number = (\<lambda>_. None), show_number = (\<lambda>_. [])\<rparr>"

definition plain_incident :: "ident \<Rightarrow> api_incident" where
  "plain_incident i = \<lparr>i_id = i, i_number = None, i_title = ''t'', i_type = ''brand'', i_priority = Low, i_location_address = None,
     i_location_display = None, i_location_lat = None, i_location_lng = None, i_status = Active, i_group_id = None,
     i_group_position = None, i_source = None, i_from_real_alarm = None, i_description = None, i_contact = None,
     i_contact_phone = None, i_internal_notes = None, i_nachbarhilfe = False, i_nachbarhilfe_note = None, i_am_warten = False,
     i_am_warten_note = None, i_zu_fuss = False, i_created_at = [], i_status_changed_at = None, i_has_completed_reko = False,
     i_reko_arrived_at = None, i_reko_arrived_by_kp = None, i_field_complete_reported_at = None,
     i_field_complete_reported_by = None, i_field_arrived_at = None, i_field_arrived_by = None,
     i_field_arrived_by_automation = None, i_has_schadenplatz_rapport = None, i_has_schadenplatz_rapport_draft = None,
     i_has_been_dispatched = None, i_pickup_needed = None, i_pickup_note = None, i_pickup_requested_at = None,
     i_pickup_requested_by = None, i_field_requests = None, i_leader_name = None, i_effective_leader_id = None,
     i_possible_duplicate_of_id = None\<rparr>"

definition plain_assignment :: "ident \<Rightarrow> resource_kind \<Rightarrow> ident \<Rightarrow> api_assignment" where
  "plain_assignment a k r = \<lparr>a_id = a, a_incident_id = ''i'', a_resource_type = Some k, a_resource_id = r, a_driver_stay = False,
     a_is_leader = False\<rparr>"

definition plain_snapshot :: event_snapshot where
  "plain_snapshot = \<lparr>sn_incidents = [plain_incident ''i''], sn_personnel = [blank_person ''p'', blank_person ''q''], sn_materials = [],
     sn_vehicles = [\<lparr>v_id = ''v'', v_name = ''TLF'', v_type = [], v_display_order = 0, v_radio_call_sign = [], v_out_of_service = False\<rparr>],
     sn_functions = [],
     sn_assignments = [''i'' \<mapsto> [plain_assignment ''a1'' KPersonnel ''p'', plain_assignment ''a2'' KVehicle ''v'']],
     sn_summaries = Map.empty\<rparr>"

definition plain_rows :: "ident \<Rightarrow> assigned_vehicle list" where
  "plain_rows _ = [\<lparr>av_assignment_id = ''a2'', av_vehicle_id = ''v'', av_name = ''TLF'', av_driver_stay = False\<rparr>]"

lemma plain_typed: "typed plain_snapshot"
  by (simp add: typed_def plain_snapshot_def plain_incident_def)

lemma plain_people: "map (\<lambda>p. (p_id p, p_status p)) (es_personnel (build_event_state plain_runtime id plain_snapshot))
    = [(''p'', PAssigned), (''q'', PAvailable)]"
  by (simp add: build_event_state_def load_cards_def load_card_def collect_roles_def no_roles_def plain_snapshot_def index_by_def
      add_assignment_def plain_assignment_def api_incident_to_operation_def plain_incident_def scope_person_def js_includes_def
      blank_person_def Let_def)

section \<open>Properties\<close>

lemma event_state_ops: "es_ops (build_event_state rt tr sn) = map (finish_card tr sn) (map (board_card_of rt sn) (sn_incidents sn))"
  by (simp only: es_ops_finish load_cards_board)

lemma situation_ops:
  "sd_operations (build_situation_data rt tr (share_payload rows gps routes sn)) = map (cl_op \<circ> viewer_card_of rt tr rows sn) (sn_incidents sn)"
  by (simp add: build_situation_data_def Let_def viewer_cards_share)

definition without_duties :: "person \<Rightarrow> person" where
  "without_duties p = p\<lparr>p_role := Some (nullish (p_role p) []), p_isOnAuftrag := False, p_isTelefondienst := False,
     p_isKommandoposten := False, p_checkedInAt := None\<rparr>"

lemma same_people:
  assumes "typed sn"
  shows "map cl_persons (map (viewer_card_of rt tr rows sn) (sn_incidents sn)) = map cl_persons (map (board_card_of rt sn) (sn_incidents sn))"
    and "map cl_materials (map (viewer_card_of rt tr rows sn) (sn_incidents sn)) = map cl_materials (map (board_card_of rt sn) (sn_incidents sn))"
  using assms cards_same by (simp_all add: typed_def same_card_def)

lemma shared_personnel:
  assumes "typed sn"
  shows "sd_personnel (build_situation_data rt tr (share_payload rows gps routes sn))
      = map without_duties (es_personnel (build_event_state rt tr sn))"
  using same_people(1) [OF assms, of rt tr rows]
  by (simp add: build_situation_data_def build_event_state_def Let_def viewer_cards_share load_cards_board)
     (simp add: share_payload_def viewer_person_row_def scope_person_def without_duties_def share_person_def)

lemma shared_materials:
  assumes "typed sn"
  shows "map (\<lambda>m. (m_id m, m_name m, m_status m, m_outOfService m, m_consumable m))
        (sd_materials (build_situation_data rt tr (share_payload rows gps routes sn)))
      = map (\<lambda>m. (m_id m, m_name m, m_status m, m_outOfService m, m_consumable m)) (es_materials (build_event_state rt tr sn))"
  using same_people(2) [OF assms, of rt tr rows]
  by (simp add: build_situation_data_def build_event_state_def Let_def viewer_cards_share load_cards_board)
     (simp add: share_payload_def viewer_material_row_def scope_material_def share_material_def)



text \<open>
  A display never doubles a vehicle: whatever list of vehicles an incident's row already carries, its card ends
  up with exactly the board's vehicles of that incident, each once, as long as the row names no vehicle that is not assigned and the
  assignments name no vehicle twice.
\<close>

theorem display_holds_the_vehicles_of_the_board:
  assumes "as = nullish (sn_assignments sn (i_id i)) []"
    and "distinct (map ov_vehicleId (row_vehicles (index_by v_id (sn_vehicles sn)) as))"
    and "distinct (map av_vehicle_id (rows (i_id i)))"
    and "av_vehicle_id ` set (rows (i_id i)) \<subseteq> ov_vehicleId ` set (row_vehicles (index_by v_id (sn_vehicles sn)) as)"
  shows "mset (op_vehicles (cl_op (viewer_card_of rt tr rows sn i))) = mset (op_vehicles (finish_card tr sn (board_card_of rt sn i)))"
proof -
  let ?xs = "row_vehicles (index_by v_id (sn_vehicles sn)) as"
  let ?l = "map viewer_row_vehicle (rows (i_id i))"
  have ids: "map ov_vehicleId ?l = map av_vehicle_id (rows (i_id i))" by (simp add: viewer_row_vehicle_def)
  have start: "op_vehicles (cl_op (viewer_start rt tr rows sn i)) = ?l"
    by (simp add: viewer_start_def viewer_incident_to_operation_def share_incident_def)
  note put = put_vehicles [of ?l ?xs, unfolded ids, OF assms(3,2)]
  have sub: "ov_vehicleId ` set ?l \<subseteq> ov_vehicleId ` set ?xs" using assms(4) ids by (metis set_map)
  have "set (foldl (\<lambda>l x. put_vehicle x l) ?l ?xs) = set ?xs" using put sub by blast
  moreover have "distinct (foldl (\<lambda>l x. put_vehicle x l) ?l ?xs)" "distinct ?xs"
    using put assms(2) distinct_map by blast+
  ultimately have "mset (foldl (\<lambda>l x. put_vehicle x l) ?l ?xs) = mset ?xs" by (simp add: set_eq_iff_mset_eq_distinct)
  moreover have "op_vehicles (cl_op (board_card_of rt sn i)) = ?xs"
    by (simp add: board_card_of_def board_fold_vehicles assms(1) start_card_def api_incident_to_operation_def)
  ultimately show ?thesis
    by (simp add: viewer_card_of_def viewer_fold_vehicles start assms(1) [symmetric] finish_card_def)
qed

theorem display_holds_the_vehicles_of_the_board_witness:
  "mset (op_vehicles (cl_op (viewer_card_of plain_runtime id plain_rows plain_snapshot (plain_incident ''i''))))
     = {#\<lparr>ov_vehicleId = ''v'', ov_assignmentId = Some ''a2'', ov_name = ''TLF'', ov_callsign = None, ov_driverStay = Some False\<rparr>#}"
proof -
  let ?as = "[plain_assignment ''a1'' KPersonnel ''p'', plain_assignment ''a2'' KVehicle ''v'']"
  let ?v = "\<lparr>ov_vehicleId = ''v'', ov_assignmentId = Some ''a2'', ov_name = ''TLF'', ov_callsign = None, ov_driverStay = Some False\<rparr>"
  have as: "?as = nullish (sn_assignments plain_snapshot (i_id (plain_incident ''i''))) []"
    by (simp add: plain_snapshot_def plain_incident_def)
  have rv: "row_vehicles (index_by v_id (sn_vehicles plain_snapshot)) ?as = [?v]"
    by (simp add: row_vehicles_def plain_snapshot_def plain_assignment_def index_by_def viewer_assigned_vehicle_def
        share_assignment_def or_null_def)
  have "op_vehicles (finish_card id plain_snapshot (board_card_of plain_runtime plain_snapshot (plain_incident ''i''))) = [?v]"
    unfolding finish_card_def finish_keeps board_card_of_def board_fold_vehicles as [symmetric] rv
    by (simp add: start_card_def api_incident_to_operation_def)
  moreover have "mset (op_vehicles (cl_op (viewer_card_of plain_runtime id plain_rows plain_snapshot (plain_incident ''i''))))
      = mset (op_vehicles (finish_card id plain_snapshot (board_card_of plain_runtime plain_snapshot (plain_incident ''i''))))"
    by (rule display_holds_the_vehicles_of_the_board [OF as, unfolded rv]) (simp_all add: plain_rows_def)
  ultimately show ?thesis by simp
qed

lemma state_without_duties:
  "\<not> p_isOnAuftrag p \<Longrightarrow> person_resource_state (without_duties p) = person_resource_state p"
  by (simp add: person_resource_state_def without_duties_def)

lemma state_on_route:
  "\<not> p_isOnAuftrag p \<Longrightarrow> person_resource_state (if p_id p \<in> R then p\<lparr>p_isOnAuftrag := True\<rparr> else p)
     = (if p_id p \<in> R \<and> person_resource_state p = RAvailable then RAssigned else person_resource_state p)"
  by (auto simp: person_resource_state_def to_resource_state_def Let_def)

lemma count_on_route:
  assumes "\<forall>p\<in>set ps. \<not> p_isOnAuftrag p"
  shows "length (filter (\<lambda>p. person_resource_state p = RAssigned) (auftrag_roster occ ps))
      = length (filter (\<lambda>p. person_resource_state p = RAssigned) ps)
        + length (filter (\<lambda>p. p_id p \<in> set occ \<and> person_resource_state p = RAvailable) ps)
    \<and> length (filter (\<lambda>p. person_resource_state p = RAvailable) (auftrag_roster occ ps))
        + length (filter (\<lambda>p. p_id p \<in> set occ \<and> person_resource_state p = RAvailable) ps)
      = length (filter (\<lambda>p. person_resource_state p = RAvailable) ps)"
  using assms by (induction ps) (simp_all add: auftrag_roster_def state_on_route)

lemma length_auftrag_roster: "length (auftrag_roster occ ps) = length ps"
  by (simp add: auftrag_roster_def)

text \<open>
  The wall behind a share link counts the people on a route as free: of the same snapshot it reports exactly as
  many people too few as in Einsatz, and too many as free, as are held by a route and by nothing else, which the signed-in wall counts.
\<close>

theorem share_wall_misses_the_routes:
  assumes "typed sn" and "\<forall>p\<in>set (sn_personnel sn). \<not> p_isOnAuftrag p"
  shows "let live = sd_stats (status_data (es_ops (build_event_state rt tr sn)) (es_personnel (build_event_state rt tr sn)) occ
                (es_materials (build_event_state rt tr sn)) (sn_vehicles sn) gps);
       shared = sd_stats (build_situation_data rt tr (share_payload rows gps routes sn));
       missed = length (filter (\<lambda>p. p_id p \<in> set occ \<and> person_resource_state p = RAvailable)
                  (es_personnel (build_event_state rt tr sn)))
     in st_personnelTotal shared = st_personnelTotal live
        \<and> st_personnelAssigned live = st_personnelAssigned shared + missed
        \<and> st_personnelAvailable shared = st_personnelAvailable live + missed"
proof -
  let ?ps = "es_personnel (build_event_state rt tr sn)"
  have off: "\<forall>p\<in>set ?ps. \<not> p_isOnAuftrag p"
    using assms(2) by (auto simp: build_event_state_def Let_def scope_person_def)
  have count: "length (filter (\<lambda>p. person_resource_state p = st) (map without_duties ?ps)) = length (filter (\<lambda>p. person_resource_state p = st) ?ps)" for st
    using off by (simp add: filter_map comp_def state_without_duties cong: filter_cong)
  have shared: "sd_stats (build_situation_data rt tr (share_payload rows gps routes sn))
      = figures (sd_operations (build_situation_data rt tr (share_payload rows gps routes sn))) (map without_duties ?ps)"
    using shared_personnel [OF assms(1), of rt tr rows gps routes] by (simp add: build_situation_data_def Let_def)
  have live: "sd_stats (status_data ops ?ps occ ms fleet gps) = figures ops (auftrag_roster occ ?ps)" for ops ms fleet
    by (simp add: status_data_def Let_def)
  show ?thesis
    unfolding shared live using count_on_route [OF off, of occ]
    by (simp add: figures_def Let_def count length_auftrag_roster del: length_filter_map)
qed

theorem share_wall_misses_the_routes_witness:
  "st_personnelAvailable (sd_stats (build_situation_data plain_runtime id (share_payload plain_rows [] None plain_snapshot)))
     = st_personnelAvailable (sd_stats (status_data (es_ops (build_event_state plain_runtime id plain_snapshot))
         (es_personnel (build_event_state plain_runtime id plain_snapshot)) [''q''] [] [] [])) + 1"
proof -
  have off: "\<forall>p\<in>set (sn_personnel plain_snapshot). \<not> p_isOnAuftrag p"
    by (simp add: plain_snapshot_def blank_person_def)
  have roles: "map p_isReko (es_personnel (build_event_state plain_runtime id plain_snapshot)) = [False, False]"
    by (simp add: build_event_state_def collect_roles_def no_roles_def plain_snapshot_def scope_person_def js_includes_def Let_def)
  obtain p q where pq: "es_personnel (build_event_state plain_runtime id plain_snapshot) = [p, q]"
    "p_id p = ''p''" "p_status p = PAssigned" "p_id q = ''q''" "p_status q = PAvailable"
    using plain_people by (auto simp: map_eq_Cons_conv)
  with roles have "\<not> p_isReko q" by simp
  moreover have "\<not> p_isOnAuftrag q"
    using pq off by (auto simp: build_event_state_def plain_snapshot_def scope_person_def blank_person_def Let_def)
  ultimately have "length (filter (\<lambda>p. p_id p \<in> set [''q''] \<and> person_resource_state p = RAvailable)
      (es_personnel (build_event_state plain_runtime id plain_snapshot))) = 1"
    using pq by (simp add: person_resource_state_def to_resource_state_def)
  then show ?thesis
    using share_wall_misses_the_routes [OF plain_typed off, of plain_runtime id "[''q'']" "[]" plain_rows None]
    by (simp add: Let_def status_data_def)
qed

end
