(* ===== verification/Session.thy ===== *)
theory Session
  imports BoardTypes KpPrelude
begin

text \<open>
  Who is signed in and which Ereignis is open: \<^verbatim>\<open>frontend/lib/contexts/auth-context.tsx\<close> with the answers of
  \<^verbatim>\<open>frontend/lib/auth-client.ts\<close>, and \<^verbatim>\<open>frontend/lib/contexts/event-context.tsx\<close>. The two providers are one
  state: an effect of the second runs whenever the first changes what it depends on. A request is in flight until its answer is an
  event. The pattern of \<^verbatim>\<open>isValidUUID\<close> is the parameter \<open>valid\<close>.
\<close>

section \<open>Answers of the sign-in API\<close>

datatype user_role = RoleAdmin | RoleEditor | RoleViewer

record user =
  us_id :: ident
  us_role :: user_role

datatype auth_error_type = Unauthorized | NetworkError | Timeout | ServerError | UnknownError

text \<open>What a request comes to: a good answer with or without a readable body, another status with the detail it carries, or nothing.\<close>

datatype 'a auth_answer =
    AaOk 'a
  | AaUnreadable
  | AaStatus int "string option"
  | AaTimeout
  | AaNetwork

definition current_user :: "user auth_answer \<Rightarrow> user option" where
  "current_user a = (case a of AaOk u \<Rightarrow> Some u | _ \<Rightarrow> None)"

definition local_login :: "user auth_answer \<Rightarrow> user option" where
  "local_login a = (case a of AaOk u \<Rightarrow> Some u | _ \<Rightarrow> None)"

definition refresh_token :: "user auth_answer \<Rightarrow> user option" where
  "refresh_token a = (case a of AaOk u \<Rightarrow> Some u | _ \<Rightarrow> None)"

definition login_answer :: "user auth_answer \<Rightarrow> (string \<times> auth_error_type \<times> int option) + user" where
  "login_answer a =
     (case a of
        AaOk u \<Rightarrow> Inr u
      | AaUnreadable \<Rightarrow> Inl (''Verbindung zum Server fehlgeschlagen'', NetworkError, None)
      | AaStatus s d \<Rightarrow> Inl (or_str d ''Login fehlgeschlagen'', if s = 401 then Unauthorized else ServerError, Some s)
      | AaTimeout \<Rightarrow> Inl (''Anfrage hat zu lange gedauert (Timeout)'', Timeout, None)
      | AaNetwork \<Rightarrow> Inl (''Verbindung zum Server fehlgeschlagen'', NetworkError, None))"

text \<open>The token of the socket: a session of the old kind is refreshed once and asked again.\<close>

definition fetch_ws_token :: "string option auth_answer \<Rightarrow> user auth_answer \<Rightarrow> string option auth_answer \<Rightarrow> string option" where
  "fetch_ws_token first refreshed second =
     (let used = (case first of
                    AaStatus s d \<Rightarrow> if s = 409 \<and> refresh_token refreshed \<noteq> None then second else first
                  | _ \<Rightarrow> first)
      in case used of AaOk t \<Rightarrow> t | _ \<Rightarrow> None)"

definition is_admin :: "user option \<Rightarrow> bool" where
  "is_admin u = (map_option us_role u = Some RoleAdmin)"

definition is_editor :: "user option \<Rightarrow> bool" where
  "is_editor u = (map_option us_role u = Some RoleEditor \<or> map_option us_role u = Some RoleAdmin)"

definition is_viewer :: "user option \<Rightarrow> bool" where
  "is_viewer u = (map_option us_role u = Some RoleViewer)"

section \<open>The state\<close>

datatype probe_phase = AsksMe | AsksLocal | Probed

record session =
  se_user :: "user option"
  se_loading :: bool
  se_probe :: probe_phase
  se_localAsked :: nat
  se_timer :: bool
  se_refreshing :: nat                   \<comment> \<open>refresh requests in flight\<close>
  se_toasts :: nat
  se_selected :: "ident option"
  se_loaded :: bool
  se_stored :: "ident option"            \<comment> \<open>the key in local storage\<close>
  se_restoring :: "(nat \<times> ident) list"
  se_nextRestore :: nat
  se_archiving :: "(nat \<times> ident \<times> bool) list"
  se_events :: "ident list"
  se_listing :: nat
  se_isLoading :: bool
  se_error :: "string option"

section \<open>The open Ereignis\<close>

definition set_selected_event :: "(ident \<Rightarrow> bool) \<Rightarrow> ident option \<Rightarrow> session \<Rightarrow> session" where
  "set_selected_event valid e s =
     (case e of
        Some i \<Rightarrow> if i = [] \<or> \<not> valid i then s else s\<lparr>se_selected := Some i, se_stored := Some i\<rparr>
      | None \<Rightarrow> s\<lparr>se_selected := None, se_stored := None\<rparr>)"

definition refresh_events :: "session \<Rightarrow> session" where
  "refresh_events s = s\<lparr>se_isLoading := True, se_error := None, se_listing := se_listing s + 1\<rparr>"

definition events_arrive :: "string + ident list \<Rightarrow> session \<Rightarrow> session" where
  "events_arrive r s =
     (if se_listing s = 0 then s
      else let s1 = s\<lparr>se_listing := se_listing s - 1, se_isLoading := False\<rparr>
           in case r of Inr es \<Rightarrow> s1\<lparr>se_events := es\<rparr> | Inl msg \<Rightarrow> s1\<lparr>se_error := Some msg\<rparr>)"

text \<open>The three effects on \<^verbatim>\<open>[authLoading, isAuthenticated]\<close>, in their order.\<close>

definition restore_effect :: "(ident \<Rightarrow> bool) \<Rightarrow> session \<Rightarrow> session" where
  "restore_effect valid s =
     (if se_loading s \<or> se_user s = None then s
      else case or_null (se_stored s) of
             None \<Rightarrow> s\<lparr>se_loaded := True\<rparr>
           | Some i \<Rightarrow>
               if \<not> valid i then s\<lparr>se_stored := None, se_loaded := True\<rparr>
               else s\<lparr>se_restoring := se_restoring s @ [(se_nextRestore s, i)], se_nextRestore := se_nextRestore s + 1\<rparr>)"

definition sign_out_effect :: "session \<Rightarrow> session" where
  "sign_out_effect s = (if se_loading s \<or> se_user s \<noteq> None then s else s\<lparr>se_selected := None, se_stored := None\<rparr>)"

definition list_effect :: "session \<Rightarrow> session" where
  "list_effect s = (if se_loading s \<or> se_user s = None then s\<lparr>se_isLoading := False\<rparr> else refresh_events s)"

definition restore_answers :: "nat \<Rightarrow> bool \<Rightarrow> session \<Rightarrow> session" where
  "restore_answers k ok s =
     (case map_of (se_restoring s) k of
        None \<Rightarrow> s
      | Some i \<Rightarrow>
          let s1 = s\<lparr>se_restoring := filter (\<lambda>(j, _). j \<noteq> k) (se_restoring s), se_loaded := True\<rparr>
          in if ok then s1\<lparr>se_selected := Some i\<rparr> else s1\<lparr>se_stored := None\<rparr>)"

text \<open>Archiving and deleting: whether the Ereignis was open is read when the button is pressed.\<close>

definition archive_event :: "nat \<Rightarrow> ident \<Rightarrow> session \<Rightarrow> session" where
  "archive_event k i s = s\<lparr>se_archiving := se_archiving s @ [(k, i, se_selected s = Some i)]\<rparr>"

definition archive_settles :: "(ident \<Rightarrow> bool) \<Rightarrow> nat \<Rightarrow> bool \<Rightarrow> session \<Rightarrow> session" where
  "archive_settles valid k ok s =
     (case map_of (se_archiving s) k of
        None \<Rightarrow> s
      | Some (i, open1) \<Rightarrow>
          let s1 = s\<lparr>se_archiving := filter (\<lambda>(j, _). j \<noteq> k) (se_archiving s)\<rparr>
          in if \<not> ok then s1
             else refresh_events (if open1 then set_selected_event valid None s1 else s1))"

section \<open>Signing in and out\<close>

text \<open>\<^verbatim>\<open>setUser\<close> and its effects: the refresh timer follows the user, and the Ereignis follows a change of
  \<^verbatim>\<open>[authLoading, isAuthenticated]\<close>.\<close>

definition auth_becomes :: "(ident \<Rightarrow> bool) \<Rightarrow> user option \<Rightarrow> bool \<Rightarrow> session \<Rightarrow> session" where
  "auth_becomes valid u loading s =
     (let s1 = s\<lparr>se_user := u, se_loading := loading, se_timer := (u \<noteq> None)\<rparr>
      in if (se_loading s, se_user s = None) = (loading, u = None) then s1
         else list_effect (sign_out_effect (restore_effect valid s1)))"

definition me_answers :: "(ident \<Rightarrow> bool) \<Rightarrow> user auth_answer \<Rightarrow> session \<Rightarrow> session" where
  "me_answers valid a s =
     (if se_probe s \<noteq> AsksMe then s
      else case current_user a of
             Some u \<Rightarrow> auth_becomes valid (Some u) False (s\<lparr>se_probe := Probed\<rparr>)
           | None \<Rightarrow> s\<lparr>se_probe := AsksLocal, se_localAsked := se_localAsked s + 1\<rparr>)"

definition local_answers :: "(ident \<Rightarrow> bool) \<Rightarrow> user auth_answer \<Rightarrow> session \<Rightarrow> session" where
  "local_answers valid a s =
     (if se_probe s \<noteq> AsksLocal then s
      else auth_becomes valid (local_login a) False (s\<lparr>se_probe := Probed\<rparr>))"

definition session_expired :: "(ident \<Rightarrow> bool) \<Rightarrow> session \<Rightarrow> session" where
  "session_expired valid s =
     (if se_user s = None then s else (auth_becomes valid None (se_loading s) s)\<lparr>se_toasts := se_toasts s + 1\<rparr>)"

definition refresh_timer_fires :: "session \<Rightarrow> session" where
  "refresh_timer_fires s = (if se_timer s then s\<lparr>se_refreshing := se_refreshing s + 1\<rparr> else s)"

definition refresh_answers :: "(ident \<Rightarrow> bool) \<Rightarrow> user auth_answer \<Rightarrow> session \<Rightarrow> session" where
  "refresh_answers valid a s =
     (if se_refreshing s = 0 then s
      else auth_becomes valid (refresh_token a) (se_loading s) (s\<lparr>se_refreshing := se_refreshing s - 1\<rparr>))"

text \<open>A sign-in by password or by code: only a good answer changes anything here; the error goes to the form.\<close>

definition login_answers :: "(ident \<Rightarrow> bool) \<Rightarrow> user auth_answer \<Rightarrow> session \<Rightarrow> session" where
  "login_answers valid a s = (case login_answer a of Inr u \<Rightarrow> auth_becomes valid (Some u) (se_loading s) s | Inl _ \<Rightarrow> s)"

text \<open>The sign-out waits for its request, whose failure is swallowed.\<close>

definition logout_settles :: "(ident \<Rightarrow> bool) \<Rightarrow> session \<Rightarrow> session" where
  "logout_settles valid s = auth_becomes valid None (se_loading s) s"

section \<open>Sessions\<close>

datatype session_event =
    SxMe "user auth_answer"
  | SxLocal "user auth_answer"
  | SxLogin "user auth_answer"
  | SxExpired
  | SxTimer
  | SxRefresh "user auth_answer"
  | SxLogout
  | SxRestore nat bool
  | SxSelect "ident option"
  | SxArchive nat ident
  | SxArchived nat bool
  | SxReload
  | SxEvents "string + ident list"

fun session_step :: "(ident \<Rightarrow> bool) \<Rightarrow> session \<Rightarrow> session_event \<Rightarrow> session" where
  "session_step valid s (SxMe a) = me_answers valid a s"
| "session_step valid s (SxLocal a) = local_answers valid a s"
| "session_step valid s (SxLogin a) = login_answers valid a s"
| "session_step valid s SxExpired = session_expired valid s"
| "session_step valid s SxTimer = refresh_timer_fires s"
| "session_step valid s (SxRefresh a) = refresh_answers valid a s"
| "session_step valid s SxLogout = logout_settles valid s"
| "session_step valid s (SxRestore k ok) = restore_answers k ok s"
| "session_step valid s (SxSelect e) = set_selected_event valid e s"
| "session_step valid s (SxArchive k i) = archive_event k i s"
| "session_step valid s (SxArchived k ok) = archive_settles valid k ok s"
| "session_step valid s SxReload = refresh_events s"
| "session_step valid s (SxEvents r) = events_arrive r s"

definition page_opens :: "ident option \<Rightarrow> session" where
  "page_opens stored =
     \<lparr>se_user = None, se_loading = True, se_probe = AsksMe, se_localAsked = 0, se_timer = False, se_refreshing = 0, se_toasts = 0,
      se_selected = None, se_loaded = False, se_stored = stored, se_restoring = [], se_nextRestore = 0, se_archiving = [],
      se_events = [], se_listing = 0, se_isLoading = False, se_error = None\<rparr>"

definition session_run :: "(ident \<Rightarrow> bool) \<Rightarrow> ident option \<Rightarrow> session_event list \<Rightarrow> session" where
  "session_run valid stored es = foldl (session_step valid) (page_opens stored) es"

section \<open>Invariants\<close>

lemmas effect_defs = auth_becomes_def restore_effect_def sign_out_effect_def list_effect_def refresh_events_def

lemma auth_becomes_fields [simp]:
  "se_user (auth_becomes valid u l s) = u" "se_loading (auth_becomes valid u l s) = l" "se_timer (auth_becomes valid u l s) = (u \<noteq> None)"
  "se_probe (auth_becomes valid u l s) = se_probe s" "se_localAsked (auth_becomes valid u l s) = se_localAsked s"
  "se_toasts (auth_becomes valid u l s) = se_toasts s" "se_refreshing (auth_becomes valid u l s) = se_refreshing s"
  "se_archiving (auth_becomes valid u l s) = se_archiving s"
  by (auto simp: effect_defs Let_def split: option.split)

lemma other_fields [simp]:
  "se_user (refresh_events s) = se_user s" "se_loading (refresh_events s) = se_loading s" "se_timer (refresh_events s) = se_timer s"
  "se_probe (refresh_events s) = se_probe s" "se_localAsked (refresh_events s) = se_localAsked s"
  "se_user (set_selected_event valid e s) = se_user s" "se_loading (set_selected_event valid e s) = se_loading s"
  "se_timer (set_selected_event valid e s) = se_timer s" "se_probe (set_selected_event valid e s) = se_probe s"
  "se_localAsked (set_selected_event valid e s) = se_localAsked s"
  by (simp_all add: refresh_events_def set_selected_event_def split: option.split)

definition signed_ok :: "session \<Rightarrow> bool" where
  "signed_ok s \<longleftrightarrow> se_timer s = (se_user s \<noteq> None) \<and> se_loading s = (se_probe s \<noteq> Probed)
     \<and> se_localAsked s \<le> 1 \<and> (se_probe s = AsksMe \<longrightarrow> se_localAsked s = 0)"

lemma signed_ok_step: "signed_ok s \<Longrightarrow> signed_ok (session_step valid s e)"
  by (cases e)
    (auto simp: signed_ok_def me_answers_def local_answers_def login_answers_def session_expired_def refresh_timer_fires_def
      refresh_answers_def logout_settles_def restore_answers_def archive_event_def archive_settles_def events_arrive_def Let_def
      split: option.split sum.split)

interpretation sign: event_machine "session_step valid" signed_ok "page_opens stored" for valid stored
  by unfold_locales (simp add: signed_ok_def page_opens_def, rule signed_ok_step)

text \<open>A calm moment: nothing selects, signs out or closes an Ereignis while none can be open or one is being restored.\<close>

definition calm :: "session \<Rightarrow> session_event \<Rightarrow> bool" where
  "calm s e =
     (case e of
        SxSelect i \<Rightarrow> \<not> se_loading s \<and> se_user s \<noteq> None \<and> se_restoring s = []
      | SxArchived k ok \<Rightarrow> \<not> se_loading s \<and> se_user s \<noteq> None \<and> se_restoring s = []
      | SxExpired \<Rightarrow> se_restoring s = []
      | SxLogout \<Rightarrow> se_restoring s = []
      | SxRefresh a \<Rightarrow> se_restoring s = [] \<or> refresh_token a \<noteq> None
      | _ \<Rightarrow> True)"

definition calm_step :: "(ident \<Rightarrow> bool) \<Rightarrow> session \<Rightarrow> session_event \<Rightarrow> session" where
  "calm_step valid s e = (if calm s e then session_step valid s e else s)"

definition restored_ok :: "session \<Rightarrow> bool" where
  "restored_ok s \<longleftrightarrow>
     (if se_loading s then se_selected s = None \<and> se_restoring s = []
      else if se_user s = None then se_selected s = None \<and> se_stored s = None \<and> se_restoring s = []
      else if se_restoring s = [] then se_loaded s \<and> se_selected s = or_null (se_stored s)
      else se_selected s = None \<and> (\<exists>k i. i \<noteq> [] \<and> se_restoring s = [(k, i)] \<and> se_stored s = Some i))"

lemma or_null_Some: "or_null x = Some i \<longleftrightarrow> x = Some i \<and> i \<noteq> []"
  by (auto simp: or_null_def split: option.splits if_splits)

lemma restored_ok_auth:
  assumes "restored_ok s" and "se_restoring s = [] \<or> (u = None) = (se_user s = None) \<and> l = se_loading s"
    and "l \<longrightarrow> se_loading s"
  shows "restored_ok (auth_becomes valid u l s)"
proof (cases "(se_loading s, se_user s = None) = (l, u = None)")
  case True
  with assms(1) show ?thesis by (simp add: restored_ok_def auth_becomes_def)
next
  case False
  with assms show ?thesis
    by (auto simp: restored_ok_def effect_defs Let_def or_null_Some split: option.split if_splits)
       (auto simp: or_null_def split: option.splits if_splits)
qed

lemma restored_ok_select:
  "restored_ok s \<Longrightarrow> \<not> se_loading s \<Longrightarrow> se_user s \<noteq> None \<Longrightarrow> se_restoring s = [] \<Longrightarrow> restored_ok (set_selected_event valid e s)"
  by (auto simp: restored_ok_def set_selected_event_def or_null_def split: option.split)

lemma restored_ok_frame:
  assumes "restored_ok s" and "se_loading t = se_loading s" "se_user t = se_user s" "se_selected t = se_selected s"
    "se_stored t = se_stored s" "se_restoring t = se_restoring s" "se_loaded t = se_loaded s"
  shows "restored_ok t"
  using assms by (simp add: restored_ok_def)

lemma restored_ok_restore: "restored_ok s \<Longrightarrow> restored_ok (restore_answers k ok s)"
  by (auto simp: restored_ok_def restore_answers_def or_null_def Let_def split: option.split if_splits)

lemma restored_ok_archived:
  assumes "restored_ok s" and "\<not> se_loading s" "se_user s \<noteq> None" "se_restoring s = []"
  shows "restored_ok (archive_settles valid k ok s)"
proof -
  have frame: "restored_ok (refresh_events t)" if "restored_ok t" for t
    using that by (rule restored_ok_frame) (simp_all add: refresh_events_def)
  have arch: "restored_ok (s\<lparr>se_archiving := x\<rparr>)" for x using assms(1) by (rule restored_ok_frame) simp_all
  show ?thesis
    using frame [OF arch] frame [OF restored_ok_select [OF arch]] arch assms
    by (simp add: archive_settles_def Let_def split: option.split prod.split)
qed

lemma restored_ok_step:
  assumes ok: "signed_ok s" "restored_ok s" and c: "calm s e" shows "restored_ok (session_step valid s e)"
proof -
  have probing: "restored_ok (auth_becomes valid u False (s\<lparr>se_probe := x\<rparr>))" if "se_probe s \<noteq> Probed" for u x
  proof (rule restored_ok_auth)
    show "restored_ok (s\<lparr>se_probe := x\<rparr>)" using ok(2) by (rule restored_ok_frame) simp_all
    have "se_loading s" using ok(1) that by (simp add: signed_ok_def)
    then have "se_restoring s = []" using ok(2) by (simp add: restored_ok_def)
    then show "se_restoring (s\<lparr>se_probe := x\<rparr>) = [] \<or> (u = None) = (se_user (s\<lparr>se_probe := x\<rparr>) = None) \<and> False = se_loading (s\<lparr>se_probe := x\<rparr>)"
      by simp
  qed simp
  have keeps: "restored_ok (auth_becomes valid u (se_loading s) s)" if "se_restoring s = [] \<or> (u = None) = (se_user s = None)" for u
    using ok(2) that by (intro restored_ok_auth) simp_all
  have signed: "se_user s \<noteq> None" if "se_restoring s \<noteq> []"
    using ok(2) that by (auto simp: restored_ok_def split: if_splits)
  have frame: "restored_ok s'" if "se_loading s' = se_loading s" "se_user s' = se_user s" "se_selected s' = se_selected s"
      "se_stored s' = se_stored s" "se_restoring s' = se_restoring s" "se_loaded s' = se_loaded s" for s'
    using ok(2) that by (rule restored_ok_frame)
  show ?thesis
  proof (cases e)
    case (SxMe a)
    then show ?thesis using probing frame ok(2) by (simp add: me_answers_def split: option.split)
  next
    case (SxLocal a)
    then show ?thesis using probing ok(2) by (simp add: local_answers_def)
  next
    case (SxLogin a)
    have "restored_ok (auth_becomes valid (Some u) (se_loading s) s)" for u
      by (rule keeps) (use signed in \<open>simp, blast\<close>)
    with SxLogin ok(2) show ?thesis by (simp add: login_answers_def split: sum.split)
  next
    case SxExpired
    have "restored_ok (t\<lparr>se_toasts := n\<rparr>)" if "restored_ok t" for t n
      using that by (rule restored_ok_frame) simp_all
    with SxExpired c keeps ok(2) show ?thesis by (simp add: session_expired_def calm_def)
  next
    case (SxRefresh a)
    have r: "restored_ok (s\<lparr>se_refreshing := n\<rparr>)" for n by (rule frame) simp_all
    have "restored_ok (auth_becomes valid (refresh_token a) (se_loading s) (s\<lparr>se_refreshing := n\<rparr>))" for n
      using c signed SxRefresh by (intro restored_ok_auth [OF r]) (auto simp: calm_def)
    with SxRefresh ok(2) show ?thesis by (simp add: refresh_answers_def)
  next
    case SxLogout
    with c keeps show ?thesis by (simp add: logout_settles_def calm_def)
  next
    case (SxRestore k b)
    with ok(2) show ?thesis by (simp add: restored_ok_restore)
  next
    case (SxSelect i)
    with c ok(2) show ?thesis by (auto simp: calm_def intro: restored_ok_select)
  next
    case (SxArchived k b)
    with c ok(2) show ?thesis by (auto simp: calm_def intro: restored_ok_archived)
  qed (auto intro!: frame simp: refresh_timer_fires_def archive_event_def refresh_events_def events_arrive_def Let_def split: sum.split)
qed

definition session_ok :: "session \<Rightarrow> bool" where
  "session_ok s \<longleftrightarrow> signed_ok s \<and> restored_ok s"

interpretation calm_run: event_machine "calm_step valid" session_ok "page_opens stored" for valid stored
proof unfold_locales
  show "session_ok (page_opens stored)"
    by (simp add: session_ok_def signed_ok_def restored_ok_def page_opens_def)
  show "session_ok (calm_step valid s e)" if "session_ok s" for s e
    using that signed_ok_step restored_ok_step by (simp add: session_ok_def calm_step_def)
qed

section \<open>Properties\<close>

text \<open>
  The sign-in of a page: the token refresh is armed exactly while somebody is signed in, the page counts as
  loading exactly until its probe is through, and the passwordless login is asked at most once per page load, whatever happens in
  which order.
\<close>

theorem silent_login_is_asked_once:
  "let s = session_run valid stored es
   in se_timer s = (se_user s \<noteq> None) \<and> se_loading s = (se_probe s \<noteq> Probed) \<and> se_localAsked s \<le> 1"
proof -
  have "signed_ok (session_run valid stored es)" unfolding session_run_def by (rule sign.inv_run)
  then show ?thesis by (simp add: signed_ok_def Let_def)
qed

text \<open>
  C35. Signing out closes the Ereignis: in the very step in which the user goes, by a sign-out, an expired session
  or a failed refresh, nothing stays selected and nothing stays stored for the next person at the machine.
\<close>

theorem signing_out_drops_the_event:
  assumes "s = session_run valid stored es" and "se_user s \<noteq> None" and "s' = session_step valid s e" and "se_user s' = None"
    and "\<not> se_loading s'"
  shows "se_selected s' = None \<and> se_stored s' = None"
proof -
  have drop: "se_selected (auth_becomes valid None False t) = None \<and> se_stored (auth_becomes valid None False t) = None"
    if "se_user t \<noteq> None" for t
    using that by (auto simp: effect_defs Let_def)
  show ?thesis
    using assms(2-5) drop
    by (cases e)
      (auto simp: me_answers_def local_answers_def login_answers_def session_expired_def refresh_timer_fires_def refresh_answers_def
        logout_settles_def restore_answers_def archive_event_def archive_settles_def events_arrive_def Let_def
        split: option.splits sum.splits if_splits)
qed

definition some_user :: user where
  "some_user = \<lparr>us_id = ''u'', us_role = RoleEditor\<rparr>"

definition opened :: "session_event list" where
  "opened = [SxMe (AaOk some_user), SxRestore 0 True]"

lemmas run_defs = session_run_def page_opens_def me_answers_def current_user_def effect_defs restore_answers_def
  logout_settles_def login_answers_def login_answer_def set_selected_event_def or_null_def Let_def

theorem signing_out_drops_the_event_witness:
  "se_selected (session_run (\<lambda>_. True) (Some ''e'') opened) = Some ''e''
   \<and> se_selected (session_step (\<lambda>_. True) (session_run (\<lambda>_. True) (Some ''e'') opened) SxLogout) = None"
proof -
  have "se_selected (session_run (\<lambda>_. True) (Some ''e'') opened) = Some ''e''"
    "se_user (session_run (\<lambda>_. True) (Some ''e'') opened) \<noteq> None" "\<not> se_loading (session_run (\<lambda>_. True) (Some ''e'') opened)"
    by (simp_all add: opened_def run_defs)
  with signing_out_drops_the_event [OF refl _ refl, of "\<lambda>_. True" "Some ''e''" opened SxLogout]
  show ?thesis by (simp add: logout_settles_def)
qed

text \<open>
  In a calm session the screen and the storage agree: as long as nothing selects, closes or signs out while an
  Ereignis is being restored, the page is loaded as soon as it shows one, what it shows is what the next reload restores, and nobody
  signed out sees one.
\<close>

theorem calm_session_shows_what_is_stored:
  "let s = foldl (calm_step valid) (page_opens stored) es
   in (\<not> se_loading s \<and> se_user s \<noteq> None \<and> se_restoring s = [] \<longrightarrow> se_loaded s \<and> se_selected s = or_null (se_stored s))
      \<and> (se_loading s \<or> se_user s = None \<longrightarrow> se_selected s = None)"
proof -
  have "session_ok (foldl (calm_step valid) (page_opens stored) es)" by (rule calm_run.inv_run)
  then show ?thesis by (simp add: session_ok_def restored_ok_def Let_def split: if_splits)
qed

theorem calm_session_shows_what_is_stored_witness:
  "se_selected (foldl (calm_step (\<lambda>_. True)) (page_opens (Some ''e'')) opened) = Some ''e''"
  using calm_session_shows_what_is_stored [of "\<lambda>_. True" "Some ''e''" opened]
  by (simp add: opened_def calm_step_def calm_def run_defs)

text \<open>
  A restore that comes late survives the sign-out: when the operator signs out while the stored Ereignis is being
  fetched, its answer opens it all the same, and the next person who signs in on that page stands in it.
\<close>

theorem late_restore_survives_the_sign_out:
  assumes "valid i" and "i \<noteq> []"
  shows "let s = session_run valid (Some i) [SxMe (AaOk u), SxLogout, SxRestore 0 True, SxLogin (AaOk u')]
     in se_user s = Some u' \<and> se_selected s = Some i \<and> se_stored s = None \<and> se_loaded s"
  using assms by (simp add: run_defs)

theorem late_restore_survives_the_sign_out_witness:
  "se_selected (session_run (\<lambda>_. True) (Some ''e'')
     [SxMe (AaOk some_user), SxLogout, SxRestore 0 True, SxLogin (AaOk \<lparr>us_id = ''w'', us_role = RoleViewer\<rparr>)]) = Some ''e''"
  using late_restore_survives_the_sign_out [of "\<lambda>_. True" "''e''" some_user "\<lparr>us_id = ''w'', us_role = RoleViewer\<rparr>"]
  by (simp add: Let_def)

text \<open>
  A restore overrides the choice made meanwhile: the Ereignis the operator picks while the stored one is being
  fetched is left on screen when the answer comes, though storage keeps the pick; and if that fetch fails, the pick is forgotten for
  the next reload.
\<close>

theorem restore_overrides_the_choice:
  assumes "valid i" and "i \<noteq> []" and "valid j" and "j \<noteq> []"
  shows "let s = session_run valid (Some i) [SxMe (AaOk u), SxSelect (Some j)]
     in se_selected s = Some j \<and> se_stored s = Some j
        \<and> se_selected (session_step valid s (SxRestore 0 True)) = Some i
        \<and> se_stored (session_step valid s (SxRestore 0 True)) = Some j
        \<and> se_stored (session_step valid s (SxRestore 0 False)) = None"
  using assms by (simp add: run_defs)

theorem restore_overrides_the_choice_witness:
  "se_selected (session_run (\<lambda>_. True) (Some ''e'') [SxMe (AaOk some_user), SxSelect (Some ''f''), SxRestore 0 True]) = Some ''e''"
  using restore_overrides_the_choice [of "\<lambda>_. True" "''e''" "''f''" some_user] by (simp add: Let_def session_run_def)

text \<open>
  A refresh in flight undoes a sign-out: the answer of a refresh that was asked before the sign-out signs the
  user in again when it arrives.
\<close>

theorem late_refresh_signs_back_in:
  assumes "se_refreshing s > 0"
  shows "se_user (session_step valid s SxLogout) = None
     \<and> se_user (session_step valid (session_step valid s SxLogout) (SxRefresh (AaOk u))) = Some u"
  using assms by (simp add: logout_settles_def refresh_answers_def refresh_token_def)

theorem late_refresh_signs_back_in_witness:
  "se_user (session_run (\<lambda>_. True) None [SxMe (AaOk some_user), SxTimer, SxLogout, SxRefresh (AaOk some_user)]) = Some some_user"
proof -
  have "se_refreshing (session_run (\<lambda>_. True) None [SxMe (AaOk some_user), SxTimer]) > 0"
    by (simp add: run_defs refresh_timer_fires_def)
  from late_refresh_signs_back_in [OF this, of "\<lambda>_. True" some_user] show ?thesis by (simp add: session_run_def)
qed

text \<open>
  A burst of refusals speaks once: however many requests come back as unauthorised in a row, the operator is
  signed out and told so once.
\<close>

theorem expiry_speaks_once:
  "let s' = foldl (session_step valid) s (replicate n SxExpired)
   in se_toasts s' = se_toasts s + (if se_user s \<noteq> None \<and> n > 0 then 1 else 0)"
proof (cases n)
  case (Suc m)
  have quiet: "foldl (session_step valid) t (replicate k SxExpired) = t" if "se_user t = None" for t k
    using that by (induction k) (simp_all add: session_expired_def)
  have "se_user (session_expired valid s) = None" by (simp add: session_expired_def)
  with Suc quiet show ?thesis by (simp add: Let_def session_expired_def)
qed simp

text \<open>
  Archiving closes the Ereignis that was opened after it: an archive or a delete that was pressed on the open
  Ereignis closes, when it settles, whichever is open then.
\<close>

theorem archive_closes_the_next_event:
  assumes "se_selected s = Some i" and "k \<notin> fst ` set (se_archiving s)" and "valid j" and "j \<noteq> []"
    and "s' = session_step valid (session_step valid s (SxArchive k i)) (SxSelect (Some j))"
  shows "se_selected s' = Some j \<and> se_selected (session_step valid s' (SxArchived k True)) = None
     \<and> se_stored (session_step valid s' (SxArchived k True)) = None"
proof -
  have "map_of (se_archiving s @ [(k, i, True)]) k = Some (i, True)"
    using assms(2) by (simp add: map_add_def map_of_eq_None_iff [THEN iffD2])
  with assms show ?thesis
    by (simp add: archive_event_def set_selected_event_def archive_settles_def refresh_events_def Let_def)
qed

theorem archive_closes_the_next_event_witness:
  "se_selected (session_run (\<lambda>_. True) (Some ''e'') (opened @ [SxArchive 0 ''e'', SxSelect (Some ''f''), SxArchived 0 True])) = None"
  using archive_closes_the_next_event [of "session_run (\<lambda>_. True) (Some ''e'') opened" "''e''" 0 "\<lambda>_. True" "''f''", OF _ _ _ _ refl]
  by (simp add: opened_def run_defs)

end
