(* ===== verification/Messages.thy ===== *)
theory Messages
  imports Main
begin

text \<open>
  The message catalogue as the sources call it: a key and the values put into the text. What a catalogue answers is an
  argument of every definition that speaks.
\<close>

datatype message_value = MessageText string | MessageNumber int

type_synonym message_translate = "string \<Rightarrow> (string \<times> message_value) list \<Rightarrow> string"

end
