(* ===== verification/PersonNaming.thy ===== *)
theory PersonNaming
  imports JsText BoardTypes
begin

text \<open>
  Telling two people of one name apart: \<^verbatim>\<open>frontend/lib/person-label.ts\<close> and the provider of
  \<^verbatim>\<open>frontend/components/person-name.tsx\<close>, which carries the roster to the labels as one text and reads it back.
\<close>

section \<open>Names\<close>

definition name_key :: "string \<Rightarrow> string" where
  "name_key name = js_lower (str_join '' '' (filter (\<lambda>w. w \<noteq> []) (split_on is_space name)))"

definition ambiguous_step :: "string list \<times> string list \<Rightarrow> string \<Rightarrow> string list \<times> string list" where
  "ambiguous_step acc name =
     (case acc of (seen, ambiguous) \<Rightarrow>
        let key = name_key name
        in if key = [] then acc
           else if key \<in> set seen then (seen, if key \<in> set ambiguous then ambiguous else ambiguous @ [key])
           else (seen @ [key], ambiguous))"

definition ambiguous_name_keys :: "string list \<Rightarrow> string list" where
  "ambiguous_name_keys roster = snd (foldl ambiguous_step ([], []) roster)"

definition shown_kennung :: "string \<Rightarrow> string option \<Rightarrow> string list \<Rightarrow> string option" where
  "shown_kennung name kennung ambiguous =
     (if name_key name \<notin> set ambiguous then None else Some (or_str (map_option js_trim kennung) ''?''))"

datatype label_style = InlineLabel | TextLabel

definition person_label_text :: "string \<Rightarrow> string option \<Rightarrow> string list \<Rightarrow> label_style \<Rightarrow> string" where
  "person_label_text name kennung ambiguous style =
     (case or_null (shown_kennung name kennung ambiguous) of
        None \<Rightarrow> name
      | Some k \<Rightarrow> (case style of
            InlineLabel \<Rightarrow> name @ [CHR '' '', CHR 0xB7, CHR '' ''] @ k
          | TextLabel \<Rightarrow> name @ '' ('' @ k @ '')''))"

definition plain_name :: "string \<Rightarrow> ident option \<Rightarrow> string" where
  "plain_name name pid = name"

section \<open>The provider\<close>

record roster_entry =
  re_id :: ident
  re_name :: string
  re_kennung :: "string option"

record person_naming =
  pn_ambiguous :: "string list"
  pn_kennungById :: "ident \<rightharpoonup> string option"

definition unit_mark :: char where "unit_mark = CHR 0x1F"
definition record_mark :: char where "record_mark = CHR 0x1E"

definition naming_signature :: "roster_entry list \<Rightarrow> string" where
  "naming_signature roster =
     str_join [record_mark] (map (\<lambda>p. str_join [unit_mark] [re_id p, re_name p, nullish (re_kennung p) []]) roster)"

text \<open>A row without a name is a crash of the provider (\<open>None\<close>); a missing Kennung is read as none.\<close>

definition naming_of :: "string \<Rightarrow> person_naming option" where
  "naming_of signature =
     (let entries = (if signature \<noteq> [] then map (js_split unit_mark) (js_split record_mark signature) else [])
      in if list_all (\<lambda>row. length row \<ge> 2) entries
         then Some \<lparr>pn_ambiguous = ambiguous_name_keys (map (\<lambda>row. row ! 1) entries),
                    pn_kennungById = map_of (rev (map (\<lambda>row. (row ! 0, if length row > 2 then or_null (Some (row ! 2)) else None)) entries))\<rparr>
         else None)"

text \<open>A reference names its Kennung (\<open>Some\<close>) or leaves it to the id.\<close>

definition resolve_kennung :: "person_naming \<Rightarrow> ident option \<Rightarrow> string option option \<Rightarrow> string option" where
  "resolve_kennung n pid kennung =
     (case kennung of Some k \<Rightarrow> k | None \<Rightarrow> (case or_null pid of None \<Rightarrow> None | Some i \<Rightarrow> nullish (pn_kennungById n i) None))"

definition naming_text :: "person_naming \<Rightarrow> label_style \<Rightarrow> string \<Rightarrow> ident option \<Rightarrow> string option option \<Rightarrow> string" where
  "naming_text n style name pid kennung = person_label_text name (resolve_kennung n pid kennung) (pn_ambiguous n) style"

section \<open>Who shares a name\<close>

lemma ambiguous_from:
  "let acc' = foldl ambiguous_step (seen, amb) roster; keys = filter (\<lambda>k. k \<noteq> []) (map name_key roster)
   in set (fst acc') = set seen \<union> set keys
      \<and> set (snd acc') = set amb \<union> {k \<in> set keys. k \<in> set seen \<or> count_list keys k \<ge> 2}"
proof (induction roster arbitrary: seen amb)
  case (Cons name roster)
  let ?key = "name_key name"
  let ?keys = "filter (\<lambda>k. k \<noteq> []) (map name_key roster)"
  have once: "k \<in> set ?keys \<Longrightarrow> count_list ?keys k \<ge> 1" for k
    using count_list_0_iff [of ?keys k] by (simp add: Suc_le_eq)
  consider "?key = []" | "?key \<noteq> []" "?key \<in> set seen" | "?key \<noteq> []" "?key \<notin> set seen" by blast
  then show ?case
  proof cases
    case 1
    with Cons.IH [of seen amb] show ?thesis by (simp add: ambiguous_step_def Let_def)
  next
    case 2
    with Cons.IH [of seen "if ?key \<in> set amb then amb else amb @ [?key]"] once show ?thesis
      by (auto simp: ambiguous_step_def Let_def)
  next
    case 3
    with Cons.IH [of "seen @ [?key]" amb] once show ?thesis
      by (auto simp: ambiguous_step_def Let_def)
  qed
qed simp

lemma ambiguous_iff:
  "k \<in> set (ambiguous_name_keys names) \<longleftrightarrow> k \<noteq> [] \<and> count_list (map name_key names) k \<ge> 2"
proof -
  have "count_list (filter (\<lambda>k. k \<noteq> []) ks) k = (if k = [] then 0 else count_list ks k)" for ks :: "string list"
    by (induction ks) auto
  then show ?thesis using ambiguous_from [of "[]" "[]" names]
    by (auto simp: ambiguous_name_keys_def Let_def intro!: count_notin dest: count_list_0_iff [THEN iffD2])
qed

section \<open>The roster as one text\<close>

definition plain_row :: "roster_entry \<Rightarrow> bool" where
  "plain_row p = list_all (\<lambda>c. c \<noteq> unit_mark \<and> c \<noteq> record_mark) (re_id p @ re_name p @ nullish (re_kennung p) [])"

definition row_fields :: "roster_entry \<Rightarrow> string list" where
  "row_fields p = [re_id p, re_name p, nullish (re_kennung p) []]"

lemma plain_row_fields: "plain_row p \<Longrightarrow> w \<in> set (row_fields p) \<Longrightarrow> unit_mark \<notin> set w \<and> record_mark \<notin> set w"
  by (auto simp: plain_row_def row_fields_def list_all_iff)

lemma row_text: "set (str_join [unit_mark] (row_fields p)) = {unit_mark} \<union> \<Union> (set ` set (row_fields p))"
  by (auto simp: row_fields_def)

lemma signature_rows:
  assumes "list_all plain_row roster" and "roster \<noteq> []"
  shows "naming_signature roster \<noteq> []"
    and "map (js_split unit_mark) (js_split record_mark (naming_signature roster)) = map row_fields roster"
proof -
  let ?rows = "map (\<lambda>p. str_join [unit_mark] (row_fields p)) roster"
  have sig: "naming_signature roster = str_join [record_mark] ?rows" by (simp add: naming_signature_def row_fields_def)
  have marks: "unit_mark \<noteq> record_mark" by (simp add: unit_mark_def record_mark_def)
  have "record_mark \<notin> set w" if "w \<in> set ?rows" for w
    using that assms(1) plain_row_fields marks by (fastforce simp: row_text list_all_iff)
  then have "js_split record_mark (naming_signature roster) = ?rows"
    unfolding sig using assms(2) by (intro js_split_join) auto
  moreover have "js_split unit_mark (str_join [unit_mark] (row_fields p)) = row_fields p" if "p \<in> set roster" for p
    using that assms(1) plain_row_fields by (intro js_split_join) (auto simp: list_all_iff row_fields_def)
  ultimately show "map (js_split unit_mark) (js_split record_mark (naming_signature roster)) = map row_fields roster" by simp
  obtain p ps where "roster = p # ps" using assms(2) by (cases roster) auto
  then show "naming_signature roster \<noteq> []" unfolding sig by (cases ps) (simp_all add: row_fields_def)
qed

lemma naming_survives_the_signature':
  assumes "list_all plain_row roster"
  shows "naming_of (naming_signature roster) =
    Some \<lparr>pn_ambiguous = ambiguous_name_keys (map re_name roster),
          pn_kennungById = map_of (rev (map (\<lambda>p. (re_id p, or_null (re_kennung p))) roster))\<rparr>"
proof (cases "roster = []")
  case True
  then show ?thesis by (simp add: naming_of_def naming_signature_def)
next
  case False
  note rows = signature_rows [OF assms False]
  have "or_null (Some (nullish k [])) = or_null k" for k by (cases k) (simp_all add: or_null_def)
  then have "map (\<lambda>row. (row ! 0, if length row > 2 then or_null (Some (row ! 2)) else None)) (map row_fields roster)
      = map (\<lambda>p. (re_id p, or_null (re_kennung p))) roster"
    by (simp add: row_fields_def)
  moreover have "map (\<lambda>row. row ! 1) (map row_fields roster) = map re_name roster" by (simp add: row_fields_def)
  moreover have "list_all (\<lambda>row. length row \<ge> 2) (map row_fields roster)" by (simp add: row_fields_def list_all_iff)
  ultimately show ?thesis unfolding naming_of_def Let_def rows(2) using rows(1) by (simp only: if_True not_False_eq_True)
qed

text \<open>
  The roster survives its trip through the signature: the names that more than one person carries and every
  Kennung are those of the roster itself.
\<close>

theorem naming_survives_the_signature:
  assumes "list_all plain_row roster"
  shows "naming_of (naming_signature roster) =
    Some \<lparr>pn_ambiguous = ambiguous_name_keys (map re_name roster),
          pn_kennungById = map_of (rev (map (\<lambda>p. (re_id p, or_null (re_kennung p))) roster))\<rparr>"
  using assms by (rule naming_survives_the_signature')

theorem naming_survives_the_signature_witness:
  "naming_of (naming_signature [\<lparr>re_id = ''1'', re_name = ''Meier Alex'', re_kennung = Some ''1985''\<rparr>,
      \<lparr>re_id = ''2'', re_name = ''meier  alex'', re_kennung = None\<rparr>]) \<noteq> None"
  by (subst naming_survives_the_signature) (simp_all add: plain_row_def unit_mark_def record_mark_def)

text \<open>
  A person of the roster is written with the name alone exactly when nobody else has it; a namesake is followed by
  the Kennung of that very person, or by a question mark where there is none.
\<close>

theorem label_tells_namesakes_apart:
  assumes "list_all plain_row roster" and "distinct (map re_id roster)" and "p \<in> set roster" and "re_id p \<noteq> []"
    and "naming_of (naming_signature roster) = Some n"
  shows "naming_text n TextLabel (re_name p) (Some (re_id p)) None =
    (if name_key (re_name p) \<noteq> [] \<and> (\<exists>q\<in>set roster. q \<noteq> p \<and> name_key (re_name q) = name_key (re_name p))
     then re_name p @ '' ('' @ or_str (map_option js_trim (or_null (re_kennung p))) ''?'' @ '')'' else re_name p)"
proof -
  let ?k = "name_key (re_name p)"
  let ?keys = "map name_key (map re_name roster)"
  have n: "pn_ambiguous n = ambiguous_name_keys (map re_name roster)"
    "pn_kennungById n = map_of (rev (map (\<lambda>p. (re_id p, or_null (re_kennung p))) roster))"
    using naming_survives_the_signature' [OF assms(1)] assms(5) by auto
  have ken: "resolve_kennung n (Some (re_id p)) None = or_null (re_kennung p)"
  proof -
    have "map_of (rev (map (\<lambda>p. (re_id p, or_null (re_kennung p))) roster)) (re_id p) = Some (or_null (re_kennung p))"
      using assms(2,3) by (intro map_of_is_SomeI) (auto simp: comp_def rev_map [symmetric])
    then show ?thesis using assms(4) by (simp add: resolve_kennung_def n or_null_def)
  qed
  obtain ys zs where split: "roster = ys @ p # zs" using assms(3) by (meson split_list)
  with assms(2) have others: "{q \<in> set roster. q \<noteq> p} = set ys \<union> set zs" by auto
  have "count_list ?keys ?k = Suc (count_list (map name_key (map re_name (ys @ zs))) ?k)" by (simp add: split)
  moreover have "count_list (map name_key (map re_name (ys @ zs))) ?k \<noteq> 0 \<longleftrightarrow> ?k \<in> set (map name_key (map re_name (ys @ zs)))"
    by (simp only: count_list_0_iff not_not)
  ultimately have "count_list ?keys ?k \<ge> 2 \<longleftrightarrow> ?k \<in> set (map name_key (map re_name (ys @ zs)))" by linarith
  also have "\<dots> \<longleftrightarrow> (\<exists>q\<in>set ys \<union> set zs. name_key (re_name q) = ?k)"
    unfolding set_map set_append image_iff by (auto dest: sym)
  also have "\<dots> \<longleftrightarrow> (\<exists>q\<in>set roster. q \<noteq> p \<and> name_key (re_name q) = ?k)" unfolding others [symmetric] by simp blast
  finally have amb: "?k \<in> set (pn_ambiguous n) \<longleftrightarrow> ?k \<noteq> [] \<and> (\<exists>q\<in>set roster. q \<noteq> p \<and> name_key (re_name q) = ?k)"
    by (simp add: n ambiguous_iff)
  have "or_null (Some (or_str (map_option js_trim k) ''?'')) = Some (or_str (map_option js_trim k) ''?'')" for k
    by (cases k) (auto simp: or_null_def or_str_def)
  then show ?thesis by (simp add: naming_text_def person_label_text_def shown_kennung_def ken amb or_null_def)
qed

theorem label_tells_namesakes_apart_witness:
  "\<exists>n. naming_text n TextLabel ''Meier Alex'' (Some ''1'') None = ''Meier Alex (1985)''"
proof -
  let ?p = "\<lparr>re_id = ''1'', re_name = ''Meier Alex'', re_kennung = Some ''1985''\<rparr>"
  let ?q = "\<lparr>re_id = ''2'', re_name = ''Meier Alex'', re_kennung = None\<rparr>"
  have plain: "list_all plain_row [?p, ?q]" by (simp add: plain_row_def unit_mark_def record_mark_def)
  then obtain n where n: "naming_of (naming_signature [?p, ?q]) = Some n" using naming_survives_the_signature' by blast
  have key: "name_key ''Meier Alex'' \<noteq> []" by code_simp
  have trim: "or_str (map_option js_trim (or_null (Some ''1985''))) ''?'' = ''1985''" by code_simp
  from label_tells_namesakes_apart [OF plain _ _ _ n, of ?p] key
  have "naming_text n TextLabel ''Meier Alex'' (Some ''1'') None = ''Meier Alex'' @ '' ('' @ or_str (map_option js_trim (or_null (Some ''1985''))) ''?'' @ '')''"
    by simp
  with trim show ?thesis by auto
qed

end
