(* ===== verification/AddressText.thy ===== *)
theory AddressText
  imports JsText Durations
begin

text \<open>
  The short address of a card: \<^verbatim>\<open>formatLocationForDisplay\<close> of \<^verbatim>\<open>frontend/lib/utils.ts\<close> and its helpers. A regular
  expression is written as the list of what it can leave of a text, so that it is matched by evaluation and reads like the source.
\<close>

section \<open>Regular expressions\<close>

type_synonym rx = "string \<Rightarrow> string list"

definition rx_one :: "(char \<Rightarrow> bool) \<Rightarrow> rx" where
  "rx_one P s = (case s of [] \<Rightarrow> [] | c # r \<Rightarrow> if P c then [r] else [])"

definition rx_then :: "rx \<Rightarrow> rx \<Rightarrow> rx" where
  "rx_then a b s = concat (map b (a s))"

definition rx_opt :: "rx \<Rightarrow> rx" where
  "rx_opt a s = a s @ [s]"

fun rx_many :: "(char \<Rightarrow> bool) \<Rightarrow> rx" where
  "rx_many P [] = [[]]"
| "rx_many P (c # r) = (if P c then rx_many P r @ [c # r] else [c # r])"

definition rx_seq :: "rx list \<Rightarrow> rx" where
  "rx_seq rs = foldr rx_then rs (\<lambda>s. [s])"

text \<open>Anchored at both ends.\<close>

definition rx_matches :: "rx \<Rightarrow> string \<Rightarrow> bool" where
  "rx_matches r s = ([] \<in> set (r s))"

definition not_newline :: "char \<Rightarrow> bool" where
  "not_newline c = (of_char c \<noteq> (10::nat) \<and> of_char c \<noteq> (13::nat))"

definition is_letter :: "char \<Rightarrow> bool" where
  "is_letter c = (let n = (of_char c :: nat) in (65 \<le> n \<and> n \<le> 90) \<or> (97 \<le> n \<and> n \<le> 122))"

definition digits_to_three :: "rx list" where
  "digits_to_three = [rx_one is_digit, rx_opt (rx_one is_digit), rx_opt (rx_one is_digit), rx_opt (rx_one is_letter)]"

definition postcode_re :: "string \<Rightarrow> bool" where
  "postcode_re = rx_matches (rx_seq [rx_one is_digit, rx_one is_digit, rx_one is_digit, rx_one is_digit, rx_opt (rx_one is_digit)])"

definition number_re :: "string \<Rightarrow> bool" where
  "number_re = rx_matches (rx_seq [rx_one is_digit, rx_many is_digit])"

definition street_with_number_re :: "string \<Rightarrow> bool" where
  "street_with_number_re = rx_matches (rx_seq
     ([rx_many not_newline, rx_one (\<lambda>c. \<not> is_space c \<and> \<not> is_digit c), rx_one is_space, rx_many is_space]
      @ digits_to_three
      @ [rx_opt (rx_seq ([rx_many is_space, rx_one (\<lambda>c. c \<in> set ''-/''), rx_many is_space] @ digits_to_three))]))"

definition district_words :: "string list" where
  "district_words = [''bezirk'', ''region'', ''kanton'', ''canton'', ''district'', ''wahlkreis'']"

definition is_word_char :: "char \<Rightarrow> bool" where
  "is_word_char c = (is_letter c \<or> is_digit c \<or> c = CHR ''_'')"

definition district_re :: "string \<Rightarrow> bool" where
  "district_re s = list_ex (\<lambda>w. starts_with (js_lower s) w
     \<and> (case drop (length w) s of [] \<Rightarrow> True | c # _ \<Rightarrow> \<not> is_word_char c)) district_words"

section \<open>Components\<close>

definition trimmed_parts :: "char \<Rightarrow> string \<Rightarrow> string list" where
  "trimmed_parts sep s = filter (\<lambda>w. w \<noteq> []) (map js_trim (js_split sep s))"

definition country_names :: "string list" where
  "country_names = [''switzerland'', ''schweiz'', ''suisse'', ''svizzera'', ''svizra'', ''germany'', ''deutschland'', ''allemagne'',
     ''germania'', ''france'', ''frankreich'', ''francia'', ''italy'', ''italien'', ''italia'', ''italie'', ''austria'',
     CHR 0xF6 # ''sterreich'', ''autriche'', ''liechtenstein'']"

definition state_names :: "string list" where
  "state_names = [''basel-landschaft'', ''basel-stadt'']"

definition canton_abbrevs :: "string list" where
  "canton_abbrevs = [''ag'', ''ai'', ''ar'', ''be'', ''bl'', ''bs'', ''fr'', ''ge'', ''gl'', ''gr'', ''ju'', ''lu'', ''ne'',
     ''nw'', ''ow'', ''sg'', ''sh'', ''so'', ''sz'', ''tg'', ''ti'', ''ur'', ''vd'', ''vs'', ''zg'', ''zh'']"

definition is_canton_abbrev :: "string \<Rightarrow> bool" where
  "is_canton_abbrev s = (let t = js_lower (js_trim s) in length t = 2 \<and> t \<in> set canton_abbrevs)"

record city_part =
  cp_name :: string
  cp_canton :: "string option"

text \<open>\<^verbatim>\<open>replace(/\d{4,5}\s+/)\<close> at the start: the run of digits has to be that long, since a space follows it.\<close>

definition drop_postcode_prefix :: "string \<Rightarrow> string" where
  "drop_postcode_prefix s =
     (let ds = takeWhile is_digit s; r = dropWhile is_digit s
      in if (length ds = 4 \<or> length ds = 5) \<and> r \<noteq> [] \<and> is_space (hd r) then dropWhile is_space r else s)"

fun collapse_spaces :: "string \<Rightarrow> string" where
  "collapse_spaces [] = []"
| "collapse_spaces [c] = (if is_space c then '' '' else [c])"
| "collapse_spaces (c # d # cs) =
     (if is_space c then if is_space d then collapse_spaces (d # cs) else CHR '' '' # collapse_spaces (d # cs)
      else c # collapse_spaces (d # cs))"

text \<open>The two shapes of a canton behind the town: the town as matched, and the two letters.\<close>

definition canton_paren :: "string \<Rightarrow> (string \<times> string) option" where
  "canton_paren s =
     (let n = length s - 4; pre = trim_end (take n s); tl = drop n s
      in if length s > 4 \<and> tl ! 0 = CHR ''('' \<and> is_letter (tl ! 1) \<and> is_letter (tl ! 2) \<and> tl ! 3 = CHR '')'' \<and> pre \<noteq> []
         then Some (pre, [tl ! 1, tl ! 2]) else None)"

definition canton_bare :: "string \<Rightarrow> (string \<times> string) option" where
  "canton_bare s =
     (let n = length s - 2; raw = take n s; pre = trim_end raw; tl = drop n s
      in if length s > 3 \<and> is_letter (tl ! 0) \<and> is_letter (tl ! 1) \<and> is_space (last raw) \<and> pre \<noteq> []
         then Some (pre, tl) else None)"

definition parse_city_part :: "string \<Rightarrow> city_part" where
  "parse_city_part part =
     (let base = collapse_spaces (js_trim (drop_postcode_prefix part));
          try1 = (\<lambda>m. case m of Some (t, k) \<Rightarrow> if js_lower k \<in> set canton_abbrevs
                         then Some \<lparr>cp_name = js_lower (js_trim t), cp_canton = Some (js_lower k)\<rparr> else None | None \<Rightarrow> None)
      in case try1 (canton_paren base) of
           Some c \<Rightarrow> c
         | None \<Rightarrow> (case try1 (canton_bare base) of Some c \<Rightarrow> c | None \<Rightarrow> \<lparr>cp_name = js_lower base, cp_canton = None\<rparr>))"

record home_city =
  hc_names :: "string list"
  hc_canton :: "string option"

definition add_home_part :: "home_city \<Rightarrow> string \<Rightarrow> home_city" where
  "add_home_part h raw =
     (let t = js_trim raw
      in if t = [] then h
         else if is_canton_abbrev t
              then h\<lparr>hc_canton := (case hc_canton h of Some c \<Rightarrow> Some c | None \<Rightarrow> Some (js_lower t))\<rparr>
         else let p = parse_city_part t
              in if cp_name p = [] then h
                 else h\<lparr>hc_names := hc_names h @ [cp_name p],
                        hc_canton := (case hc_canton h of Some c \<Rightarrow> Some c | None \<Rightarrow> cp_canton p)\<rparr>)"

definition parse_home_city :: "string \<Rightarrow> home_city" where
  "parse_home_city s = foldl add_home_part \<lparr>hc_names = [], hc_canton = None\<rparr> (js_split CHR '','' s)"

definition is_country_part :: "string \<Rightarrow> bool" where
  "is_country_part s =
     (let ts = filter (\<lambda>w. w \<noteq> []) (map (\<lambda>t. js_lower (js_trim t)) (js_split CHR ''/'' s))
      in ts \<noteq> [] \<and> list_all (\<lambda>t. t \<in> set country_names) ts)"

definition is_address_noise :: "string \<Rightarrow> bool" where
  "is_address_noise s = (postcode_re s \<or> is_country_part s \<or> district_re s \<or> is_canton_abbrev s \<or> js_lower s \<in> set state_names)"

definition street_component_indexes :: "string list \<Rightarrow> nat list" where
  "street_component_indexes kept = filter (\<lambda>i. street_with_number_re (kept ! i)) [0..<length kept]"

definition render_street_first :: "string list \<Rightarrow> nat \<Rightarrow> string" where
  "render_street_first kept i = str_join '', '' (kept ! i # map snd (filter (\<lambda>(j, _). j \<noteq> i) (enumerate 0 kept)))"

section \<open>The short address\<close>

definition is_home_city_part :: "home_city \<Rightarrow> string \<Rightarrow> bool" where
  "is_home_city_part home part =
     (let p = parse_city_part part
      in cp_name p \<noteq> [] \<and> cp_name p \<in> set (hc_names home)
         \<and> (case (cp_canton p, hc_canton home) of (Some a, Some b) \<Rightarrow> a = b | _ \<Rightarrow> True))"

record home_reading =
  hr_number :: string
  hr_street :: string
  hr_rest :: "string list"

definition read_home_part :: "home_reading \<Rightarrow> string \<Rightarrow> home_reading" where
  "read_home_part r part =
     (if number_re part then r\<lparr>hr_number := part\<rparr>
      else if hr_street r = [] then r\<lparr>hr_street := part\<rparr> else r\<lparr>hr_rest := hr_rest r @ [part]\<rparr>)"

definition home_address :: "string list \<Rightarrow> string" where
  "home_address kept =
     (case street_component_indexes kept of
        [i] \<Rightarrow> render_street_first kept i
      | _ \<Rightarrow>
          let r = foldl read_home_part \<lparr>hr_number = [], hr_street = [], hr_rest = []\<rparr> kept
          in if hr_street r = [] then []
             else str_join '', '' ((if hr_number r \<noteq> [] then hr_street r @ '' '' @ hr_number r else hr_street r) # hr_rest r))"

record away_reading =
  ar_number :: string
  ar_street :: string
  ar_index :: "nat option"

definition read_away_part :: "away_reading \<Rightarrow> nat \<times> string \<Rightarrow> away_reading" where
  "read_away_part r ip =
     (case ip of (i, part) \<Rightarrow>
        if postcode_re part then r
        else if number_re part then r\<lparr>ar_number := part\<rparr>
        else if ar_index r = None then r\<lparr>ar_street := part, ar_index := Some i\<rparr> else r)"

text \<open>The city is looked for from the end, past the street; without a street down to the first component.\<close>

definition is_city_at :: "string list \<Rightarrow> string \<Rightarrow> nat \<Rightarrow> bool" where
  "is_city_at parts street i =
     (\<not> number_re (parts ! i) \<and> \<not> is_address_noise (parts ! i) \<and> \<not> (i > 0 \<and> district_re (parts ! (i - 1)))
      \<and> js_lower (parts ! i) \<noteq> js_lower street)"

definition away_city :: "string list \<Rightarrow> string \<Rightarrow> nat option \<Rightarrow> string" where
  "away_city parts street si =
     (case List.find (is_city_at parts street) (rev [(case si of None \<Rightarrow> 0 | Some i \<Rightarrow> i + 1)..<length parts]) of
        Some i \<Rightarrow> parts ! i
      | None \<Rightarrow> [])"

definition away_address :: "string \<Rightarrow> string list \<Rightarrow> string" where
  "away_address full parts =
     (let kept = filter (\<lambda>p. \<not> is_address_noise p) parts; streets = street_component_indexes kept
      in if length streets = 1 then render_street_first kept (hd streets)
         else if length streets > 1 then full
         else
           let r = foldl read_away_part \<lparr>ar_number = [], ar_street = [], ar_index = None\<rparr> (enumerate 0 parts);
               city = away_city parts (ar_street r) (ar_index r);
               street = str_join '' '' (filter (\<lambda>w. w \<noteq> []) [ar_street r, ar_number r])
           in if city \<noteq> [] then street @ '', '' @ city else street)"

definition format_location_for_display :: "string \<Rightarrow> string \<Rightarrow> string" where
  "format_location_for_display full homeCity =
     (if full = [] then full
      else let home = parse_home_city homeCity
           in if hc_names home = [] then full
              else let parts = trimmed_parts CHR '','' full
                   in if list_ex (is_home_city_part home) parts
                      then home_address (filter (\<lambda>p. \<not> is_address_noise p \<and> \<not> is_home_city_part home p) parts)
                      else away_address full parts)"

section \<open>Readings\<close>

lemma number_not_empty: "number_re w \<Longrightarrow> w \<noteq> []"
  by (auto simp: number_re_def rx_matches_def rx_seq_def rx_then_def rx_one_def)

definition street_line :: "string \<Rightarrow> string \<Rightarrow> string" where
  "street_line street number = (if number \<noteq> [] then street @ '' '' @ number else street)"

lemma read_home_part_simps:
  "number_re w \<Longrightarrow> read_home_part r w = r\<lparr>hr_number := w\<rparr>"
  "\<not> number_re w \<Longrightarrow> hr_street r = [] \<Longrightarrow> read_home_part r w = r\<lparr>hr_street := w\<rparr>"
  "\<not> number_re w \<Longrightarrow> hr_street r \<noteq> [] \<Longrightarrow> read_home_part r w = r\<lparr>hr_rest := hr_rest r @ [w]\<rparr>"
  by (simp_all add: read_home_part_def)

lemma home_number_from: "hr_number (foldl read_home_part r kept) \<in> {hr_number r} \<union> {w \<in> set kept. number_re w}"
proof (induction kept arbitrary: r)
  case (Cons w kept)
  have "hr_number (read_home_part r w) \<in> {hr_number r} \<union> {x \<in> {w}. number_re x}" by (simp add: read_home_part_def)
  with Cons [of "read_home_part r w"] show ?case by auto
qed simp

lemma home_rest_from:
  "hr_street r \<noteq> [] \<Longrightarrow> hr_street (foldl read_home_part r kept) = hr_street r
     \<and> hr_rest (foldl read_home_part r kept) = hr_rest r @ filter (\<lambda>w. \<not> number_re w) kept"
  by (induction kept arbitrary: r) (simp_all add: read_home_part_def)

lemma home_street_from:
  "\<forall>w\<in>set kept. w \<noteq> [] \<Longrightarrow> hr_street r = [] \<Longrightarrow> hr_rest r = [] \<Longrightarrow>
     (let r' = foldl read_home_part r kept; ws = filter (\<lambda>w. \<not> number_re w) kept
      in ws = (if hr_street r' = [] then [] else hr_street r' # hr_rest r'))"
proof (induction kept arbitrary: r)
  case (Cons w kept)
  show ?case
  proof (cases "number_re w")
    case True
    with Cons.IH [of "read_home_part r w"] Cons.prems show ?thesis by (simp add: read_home_part_simps)
  next
    case False
    with home_rest_from [of "read_home_part r w" kept] Cons.prems show ?thesis by (simp add: read_home_part_simps Let_def)
  qed
qed simp

definition first_reading :: "string list \<Rightarrow> home_reading" where
  "first_reading kept = foldl read_home_part \<lparr>hr_number = [], hr_street = [], hr_rest = []\<rparr> kept"

lemma home_reading:
  assumes "\<forall>w\<in>set kept. w \<noteq> []"
  shows "hr_number (first_reading kept) \<in> {[]} \<union> {w \<in> set kept. number_re w}"
    and "filter (\<lambda>w. \<not> number_re w) kept = (if hr_street (first_reading kept) = [] then []
           else hr_street (first_reading kept) # hr_rest (first_reading kept))"
  using home_number_from [of "\<lparr>hr_number = [], hr_street = [], hr_rest = []\<rparr>" kept]
    home_street_from [OF assms, of "\<lparr>hr_number = [], hr_street = [], hr_rest = []\<rparr>"]
  by (simp_all add: first_reading_def Let_def)

lemma home_address_cases:
  "home_address kept =
     (if length (street_component_indexes kept) = 1 then render_street_first kept (hd (street_component_indexes kept))
      else let r = first_reading kept
           in if hr_street r = [] then [] else str_join '', '' (street_line (hr_street r) (hr_number r) # hr_rest r))"
  by (simp add: home_address_def first_reading_def street_line_def Let_def split: list.split)

lemma street_index_less: "i \<in> set (street_component_indexes kept) \<Longrightarrow> i < length kept \<and> street_with_number_re (kept ! i)"
  by (simp add: street_component_indexes_def)

lemma rendered_components:
  "i < length kept \<Longrightarrow> mset (kept ! i # map snd (filter (\<lambda>(j, _). j \<noteq> i) (enumerate 0 kept))) = mset kept"
proof (induction kept arbitrary: i)
  case (Cons w kept)
  have shift: "map snd (filter (\<lambda>(j, _). j \<noteq> Suc k) (enumerate (Suc 0) kept)) = map snd (filter (\<lambda>(j, _). j \<noteq> k) (enumerate 0 kept))" for k
    by (simp add: enumerate_Suc_eq filter_map comp_def case_prod_unfold)
  show ?case
  proof (cases i)
    case 0
    have "map snd (filter (\<lambda>(j, _). j \<noteq> i) (enumerate 0 (w # kept))) = kept"
      by (simp add: 0 enumerate_Suc_eq filter_map comp_def case_prod_unfold)
    then show ?thesis using 0 by (simp only: nth_Cons_0)
  next
    case (Suc k)
    let ?rest = "map snd (filter (\<lambda>(j, _). j \<noteq> k) (enumerate 0 kept))"
    have "map snd (filter (\<lambda>(j, _). j \<noteq> i) (enumerate 0 (w # kept))) = w # ?rest" using Suc shift [of k] by simp
    moreover have "add_mset (kept ! k) (mset ?rest) = mset kept" using Cons.IH [of k] Cons.prems Suc by simp
    then have "mset (kept ! k # w # ?rest) = mset (w # kept)" by (simp only: mset.simps add_mset_commute [of "kept ! k" w])
    ultimately show ?thesis unfolding Suc by (simp only: nth_Cons_Suc)
  qed
qed simp

section \<open>Properties\<close>

text \<open>What a text shows: its comma components are components of the address, or one of them with a house number behind it.\<close>

definition shows_only :: "string list \<Rightarrow> string \<Rightarrow> bool" where
  "shows_only parts s \<longleftrightarrow> (\<exists>ws. s = str_join '', '' ws
     \<and> (\<forall>w\<in>set ws. w \<in> set parts \<or> (\<exists>a\<in>set parts. \<exists>b\<in>set parts. number_re b \<and> w = a @ '' '' @ b)))"

lemma shows_only_rendered: "i < length kept \<Longrightarrow> set kept \<subseteq> set parts \<Longrightarrow> shows_only parts (render_street_first kept i)"
  unfolding shows_only_def render_street_first_def
  using mset_eq_setD [OF rendered_components [of i kept]] by (intro exI conjI refl ballI) (simp, blast)

lemma read_away_part_simps:
  "postcode_re w \<Longrightarrow> read_away_part r (i, w) = r"
  "\<not> postcode_re w \<Longrightarrow> number_re w \<Longrightarrow> read_away_part r (i, w) = r\<lparr>ar_number := w\<rparr>"
  "\<not> postcode_re w \<Longrightarrow> \<not> number_re w \<Longrightarrow> ar_index r = None \<Longrightarrow>
     read_away_part r (i, w) = r\<lparr>ar_street := w, ar_index := Some i\<rparr>"
  "\<not> postcode_re w \<Longrightarrow> \<not> number_re w \<Longrightarrow> ar_index r = Some j \<Longrightarrow> read_away_part r (i, w) = r"
  unfolding read_away_part_def by simp_all

lemma away_reading_from:
  "\<forall>ip\<in>set ips. snd ip \<in> set parts \<Longrightarrow> ar_street r \<in> {[]} \<union> set parts \<Longrightarrow>
     ar_number r \<in> {[]} \<union> {w \<in> set parts. number_re w} \<Longrightarrow>
     let r' = foldl read_away_part r ips
     in ar_street r' \<in> {[]} \<union> set parts \<and> ar_number r' \<in> {[]} \<union> {w \<in> set parts. number_re w}"
proof (induction ips arbitrary: r)
  case (Cons ip ips)
  obtain i w where ip: "ip = (i, w)" by (cases ip)
  have "ar_street (read_away_part r ip) \<in> {[]} \<union> set parts
      \<and> ar_number (read_away_part r ip) \<in> {[]} \<union> {w \<in> set parts. number_re w}"
    using Cons.prems unfolding ip by (cases "postcode_re w"; cases "number_re w"; cases "ar_index r") (simp_all add: read_away_part_simps)
  moreover have "\<forall>ip\<in>set ips. snd ip \<in> set parts" using Cons.prems(1) by simp
  ultimately show ?case using Cons.IH [of "read_away_part r ip"] by (simp only: foldl_Cons)
qed simp

lemma away_city_in: "away_city parts street si \<in> {[]} \<union> set parts"
proof (cases "List.find (is_city_at parts street) (rev [(case si of None \<Rightarrow> 0 | Some i \<Rightarrow> i + 1)..<length parts])")
  case (Some i)
  then have "i < length parts" by (auto simp: find_Some_iff rev_nth)
  with Some show ?thesis by (simp add: away_city_def)
qed (simp add: away_city_def)

lemma number_re_iff: "number_re w \<longleftrightarrow> w \<noteq> [] \<and> list_all is_digit w"
proof -
  have many: "[] \<in> set (rx_many is_digit r) \<longleftrightarrow> list_all is_digit r" for r
    by (induction r) auto
  show ?thesis
    by (cases w) (simp_all add: number_re_def rx_matches_def rx_seq_def rx_then_def rx_one_def many)
qed

lemma rx_many_suffix: "r \<in> set (rx_many P s) \<Longrightarrow> set r \<subseteq> set s"
  by (induction s) (auto split: if_splits)

lemma street_not_number: "street_with_number_re w \<Longrightarrow> \<not> number_re w"
proof
  assume street: "street_with_number_re w" and number: "number_re w"
  from street obtain r x where "r \<in> set (rx_many not_newline w)" "x \<in> set (rx_one (\<lambda>c. \<not> is_space c \<and> \<not> is_digit c) r)"
    by (auto simp: street_with_number_re_def rx_matches_def rx_seq_def rx_then_def)
  moreover from this(2) obtain c where "c \<in> set r" "\<not> is_digit c"
    by (cases r) (auto simp: rx_one_def split: if_splits)
  ultimately show False using number rx_many_suffix by (force simp: number_re_iff list_all_iff)
qed

lemma str_join_empty: "ws \<noteq> [] \<Longrightarrow> hd ws \<noteq> [] \<Longrightarrow> str_join sep ws \<noteq> []"
  by (cases ws rule: list.exhaust; cases "tl ws") auto

lemma parts_not_empty: "w \<in> set (trimmed_parts sep s) \<Longrightarrow> w \<noteq> []"
  by (simp add: trimmed_parts_def)

definition home_parts :: "home_city \<Rightarrow> string \<Rightarrow> string list" where
  "home_parts home full = filter (\<lambda>p. \<not> is_address_noise p \<and> \<not> is_home_city_part home p) (trimmed_parts CHR '','' full)"

text \<open>The components \<open>ws\<close> a home address shows, of the components \<open>kept\<close>.\<close>

definition home_shows :: "string list \<Rightarrow> string list \<Rightarrow> bool" where
  "home_shows kept ws \<longleftrightarrow> home_address kept = str_join '', '' ws
      \<and> (\<forall>w\<in>set ws. w \<in> set kept \<or> (\<exists>a\<in>set kept. \<exists>n\<in>set kept. number_re n \<and> w = a @ '' '' @ n))
      \<and> (\<forall>w\<in>set kept. \<not> number_re w \<longrightarrow> w \<in> set ws \<or> (\<exists>n\<in>set kept. number_re n \<and> w @ '' '' @ n \<in> set ws))
      \<and> (ws = [] \<longleftrightarrow> (\<forall>w\<in>set kept. number_re w)) \<and> (ws \<noteq> [] \<longrightarrow> hd ws \<noteq> [])"

lemma home_address_words:
  assumes "\<forall>w\<in>set kept. w \<noteq> []"
  shows "\<exists>ws. home_shows kept ws"
proof (cases "length (street_component_indexes kept) = 1")
  case True
  define i where "i = hd (street_component_indexes kept)"
  with True have "i \<in> set (street_component_indexes kept)" by (cases "street_component_indexes kept") auto
  then have i: "i < length kept" "\<not> number_re (kept ! i)" using street_index_less street_not_number by blast+
  let ?ws = "kept ! i # map snd (filter (\<lambda>(j, _). j \<noteq> i) (enumerate 0 kept))"
  have "set ?ws = set kept" using rendered_components [OF i(1)] mset_eq_setD by blast
  moreover have "home_address kept = str_join '', '' ?ws" using True by (simp add: home_address_cases render_street_first_def i_def)
  moreover have "kept ! i \<in> set kept" "kept ! i \<noteq> []" using i(1) assms by simp_all
  ultimately show ?thesis unfolding home_shows_def using i by (intro exI [of _ ?ws]) auto
next
  case False
  let ?r = "first_reading kept"
  note r = home_reading [OF assms]
  show ?thesis
  proof (cases "hr_street ?r = []")
    case True
    with r(2) have "\<forall>w\<in>set kept. number_re w" by (simp add: filter_empty_conv)
    with True False show ?thesis unfolding home_shows_def by (intro exI [of _ "[]"]) (simp add: home_address_cases Let_def)
  next
    case street: False
    let ?ws = "street_line (hr_street ?r) (hr_number ?r) # hr_rest ?r"
    from street r(2) have words: "set (filter (\<lambda>w. \<not> number_re w) kept) = insert (hr_street ?r) (set (hr_rest ?r))"
      by (metis list.simps(15))
    have "home_address kept = str_join '', '' ?ws" using street False by (simp add: home_address_cases Let_def)
    moreover have "hd ?ws \<noteq> []" using street by (simp add: street_line_def)
    ultimately show ?thesis unfolding home_shows_def using words r(1) by (intro exI [of _ ?ws]) (auto simp: street_line_def)
  qed
qed

text \<open>
  An address of the home town loses the town and nothing else that names a place: every component that is not the
  town, a postcode, a canton, a district or a country is shown, with a bare number behind the street; the text is empty exactly when
  nothing but bare numbers is left.
\<close>

theorem home_address_keeps_its_places:
  assumes "full \<noteq> []" and "hc_names home \<noteq> []" and "home = parse_home_city city"
    and "\<exists>p\<in>set (trimmed_parts CHR '','' full). is_home_city_part home p"
  shows "\<exists>ws. format_location_for_display full city = str_join '', '' ws
      \<and> (\<forall>w\<in>set (home_parts home full). \<not> number_re w \<longrightarrow>
            w \<in> set ws \<or> (\<exists>n\<in>set (home_parts home full). number_re n \<and> w @ '' '' @ n \<in> set ws))
      \<and> (format_location_for_display full city = [] \<longleftrightarrow> (\<forall>w\<in>set (home_parts home full). number_re w))"
proof -
  have "\<forall>w\<in>set (home_parts home full). w \<noteq> []" by (auto simp: home_parts_def dest: parts_not_empty)
  from home_address_words [OF this] obtain ws where ws: "home_shows (home_parts home full) ws" by blast
  have "format_location_for_display full city = home_address (home_parts home full)"
    using assms by (simp add: format_location_for_display_def home_parts_def list_ex_iff Let_def)
  moreover have "str_join '', '' ws = [] \<longleftrightarrow> ws = []" using ws str_join_empty [of ws] by (cases "ws = []") (simp_all add: home_shows_def)
  ultimately show ?thesis using ws unfolding home_shows_def by (intro exI [of _ ws]) simp
qed

theorem home_address_keeps_its_places_witness:
  "format_location_for_display ''8, Storchenweg, Oberwil'' ''Oberwil'' \<noteq> []"
proof -
  let ?home = "parse_home_city ''Oberwil''"
  have parts: "trimmed_parts CHR '','' ''8, Storchenweg, Oberwil'' = [''8'', ''Storchenweg'', ''Oberwil'']" by code_simp
  have home: "hc_names ?home = [''oberwil'']" by code_simp
  have town: "is_home_city_part ?home ''Oberwil''" by code_simp
  have street: "''Storchenweg'' \<in> set (home_parts ?home ''8, Storchenweg, Oberwil'')" by code_simp
  have "\<not> number_re ''Storchenweg''" by code_simp
  moreover obtain ws where "format_location_for_display ''8, Storchenweg, Oberwil'' ''Oberwil'' = [] \<longleftrightarrow>
      (\<forall>w\<in>set (home_parts ?home ''8, Storchenweg, Oberwil''). number_re w)"
    using home_address_keeps_its_places [of "''8, Storchenweg, Oberwil''" ?home "''Oberwil''"] home town by (auto simp: parts)
  ultimately show ?thesis using street by blast
qed

lemma away_index_kept: "ar_index r = Some i \<Longrightarrow> ar_index (foldl read_away_part r ips) = Some i"
proof (induction ips arbitrary: r)
  case (Cons ip ips)
  have "ar_index (read_away_part r ip) = Some i" using Cons.prems by (cases ip) (simp add: read_away_part_def)
  with Cons.IH show ?case by simp
qed simp

lemma away_street_kept: "ar_index r \<noteq> None \<Longrightarrow> ar_street (foldl read_away_part r ips) = ar_street r"
proof (induction ips arbitrary: r)
  case (Cons ip ips)
  then obtain i where "ar_index r = Some i" by blast
  then have "ar_index (read_away_part r ip) \<noteq> None \<and> ar_street (read_away_part r ip) = ar_street r"
    by (cases ip) (simp add: read_away_part_def)
  with Cons.IH show ?case by simp
qed simp

lemma away_index_from:
  "\<forall>ip\<in>set ips. snd ip \<noteq> [] \<Longrightarrow> ar_index r = None \<Longrightarrow> ar_street r = [] \<Longrightarrow>
     ar_street (foldl read_away_part r ips) = [] \<Longrightarrow>
     ar_index (foldl read_away_part r ips) = None \<and> (\<forall>ip\<in>set ips. postcode_re (snd ip) \<or> number_re (snd ip))"
proof (induction ips arbitrary: r)
  case (Cons ip ips)
  obtain i w where ip: "ip = (i, w)" by (cases ip)
  consider "postcode_re w" | "\<not> postcode_re w" "number_re w" | "\<not> postcode_re w" "\<not> number_re w" by blast
  then show ?case
  proof cases
    case 1
    with Cons.IH [of r] Cons.prems show ?thesis by (simp add: ip read_away_part_simps)
  next
    case 2
    with Cons.IH [of "r\<lparr>ar_number := w\<rparr>"] Cons.prems show ?thesis by (simp add: ip read_away_part_simps)
  next
    case 3
    then have "ar_street (foldl read_away_part r (ip # ips)) = w"
      using Cons.prems away_street_kept [of "r\<lparr>ar_street := w, ar_index := Some i\<rparr>" ips] by (simp add: ip read_away_part_simps)
    with Cons.prems show ?thesis by (simp add: ip)
  qed
qed simp

lemma away_words:
  assumes "\<forall>w\<in>set parts. w \<noteq> []"
  shows "away_address full parts = full \<or> shows_only parts (away_address full parts)"
proof -
  let ?kept = "filter (\<lambda>p. \<not> is_address_noise p) parts"
  define r where "r = foldl read_away_part \<lparr>ar_number = [], ar_street = [], ar_index = None\<rparr> (enumerate 0 parts)"
  define city where "city = away_city parts (ar_street r) (ar_index r)"
  have snds: "\<forall>ip\<in>set (enumerate 0 parts). snd ip \<in> set parts" by (auto simp: in_set_enumerate_eq)
  then have ne: "\<forall>ip\<in>set (enumerate 0 parts). snd ip \<noteq> []" using assms by blast
  have parts: "ar_street r \<in> {[]} \<union> set parts" "ar_number r \<in> {[]} \<union> {w \<in> set parts. number_re w}"
    using away_reading_from [OF snds, of "\<lparr>ar_number = [], ar_street = [], ar_index = None\<rparr>"] by (simp_all add: r_def Let_def)
  have idx: "\<forall>ip\<in>set (enumerate 0 parts). postcode_re (snd ip) \<or> number_re (snd ip)" if "ar_street r = []"
    using away_index_from [OF ne, of "\<lparr>ar_number = [], ar_street = [], ar_index = None\<rparr>"] that by (simp add: r_def)
  have nocity: "city = []" if "ar_street r = []"
  proof (rule ccontr)
    assume "city \<noteq> []"
    then obtain i where "List.find (is_city_at parts (ar_street r)) (rev [(case ar_index r of None \<Rightarrow> 0 | Some i \<Rightarrow> i + 1)..<length parts]) = Some i"
      by (auto simp: city_def away_city_def split: option.splits)
    then have i: "is_city_at parts (ar_street r) i" "i < length parts" by (auto simp: find_Some_iff rev_nth)
    moreover have "(i, parts ! i) \<in> set (enumerate 0 parts)" using i(2) by (simp add: in_set_enumerate_eq)
    ultimately show False using idx [OF that] by (force simp: is_city_at_def is_address_noise_def)
  qed
  have city: "city \<in> {[]} \<union> set parts" unfolding city_def by (rule away_city_in)
  have line: "ar_street r = [] \<or> ar_street r \<in> set parts" using parts by auto
  let ?s = "str_join '' '' (filter (\<lambda>w. w \<noteq> []) [ar_street r, ar_number r])"
  have street: "?s = (if ar_street r = [] then ar_number r else street_line (ar_street r) (ar_number r))"
    by (simp add: street_line_def)
  let ?ws = "(if ?s = [] then [] else [?s]) @ (if city = [] then [] else [city])"
  have "shows_only parts (if city \<noteq> [] then ?s @ '', '' @ city else ?s)"
    unfolding shows_only_def
  proof (intro exI [of _ ?ws] conjI)
    show "(if city \<noteq> [] then ?s @ '', '' @ city else ?s) = str_join '', '' ?ws"
      using nocity street by (auto simp: street_line_def split: if_splits)
    show "\<forall>w\<in>set ?ws. w \<in> set parts \<or> (\<exists>a\<in>set parts. \<exists>b\<in>set parts. number_re b \<and> w = a @ '' '' @ b)"
      using parts city unfolding street by (auto simp: street_line_def)
  qed
  moreover have "shows_only parts (render_street_first ?kept (hd (street_component_indexes ?kept)))"
    if "length (street_component_indexes ?kept) = 1"
  proof (rule shows_only_rendered)
    show "hd (street_component_indexes ?kept) < length ?kept"
      using that street_index_less [of "hd (street_component_indexes ?kept)" ?kept] by (cases "street_component_indexes ?kept") auto
  qed simp
  ultimately show ?thesis
    unfolding away_address_def Let_def r_def [symmetric] city_def [symmetric] by (simp only: split: if_splits) auto
qed

text \<open>
  An address is never renamed: whatever is shown is the address as it arrived, or a list of its own
  components, one of which may carry a bare number of the address behind it.
\<close>

theorem address_shows_only_its_components:
  "format_location_for_display full city = full
   \<or> shows_only (trimmed_parts CHR '','' full) (format_location_for_display full city)"
proof (cases "full = [] \<or> hc_names (parse_home_city city) = []")
  case True
  then show ?thesis by (auto simp: format_location_for_display_def Let_def)
next
  case False
  let ?parts = "trimmed_parts CHR '','' full"
  let ?home = "parse_home_city city"
  have ne: "\<forall>w\<in>set ?parts. w \<noteq> []" by (auto dest: parts_not_empty)
  show ?thesis
  proof (cases "list_ex (is_home_city_part ?home) ?parts")
    case True
    have sub: "set (home_parts ?home full) \<subseteq> set ?parts" by (auto simp: home_parts_def)
    with ne have "\<forall>w\<in>set (home_parts ?home full). w \<noteq> []" by blast
    from home_address_words [OF this] obtain ws where ws: "home_shows (home_parts ?home full) ws" by blast
    have "shows_only ?parts (home_address (home_parts ?home full))"
      unfolding shows_only_def
    proof (intro exI [of _ ws] conjI ballI)
      fix w assume "w \<in> set ws"
      with ws have "w \<in> set (home_parts ?home full)
          \<or> (\<exists>a\<in>set (home_parts ?home full). \<exists>n\<in>set (home_parts ?home full). number_re n \<and> w = a @ '' '' @ n)"
        by (simp add: home_shows_def)
      with sub show "w \<in> set ?parts \<or> (\<exists>a\<in>set ?parts. \<exists>b\<in>set ?parts. number_re b \<and> w = a @ '' '' @ b)" by blast
    qed (use ws in \<open>simp add: home_shows_def\<close>)
    moreover have "format_location_for_display full city = home_address (home_parts ?home full)"
      unfolding format_location_for_display_def home_parts_def Let_def using True False by simp
    ultimately show ?thesis by simp
  next
    case noHome: False
    have "format_location_for_display full city = away_address full ?parts"
      unfolding format_location_for_display_def Let_def using noHome False by simp
    with away_words [OF ne, of full] show ?thesis by simp
  qed
qed

text \<open>
  A number of its own is lost where the street carries none: of an address with nothing but bare numbers beside the
  home town nothing is shown, although the code keeps everything that is neither noise nor town.
\<close>

theorem bare_numbers_get_lost:
  assumes "\<forall>w\<in>set kept. number_re w"
  shows "home_address kept = []"
proof -
  have "street_component_indexes kept = []"
    using assms street_not_number by (force simp: street_component_indexes_def filter_empty_conv)
  moreover have "\<forall>w\<in>set kept. w \<noteq> []" using assms number_not_empty by blast
  then have "hr_street (first_reading kept) = []" using home_reading(2) [of kept] assms
    by (metis filter_False list.distinct(1))
  ultimately show ?thesis by (simp add: home_address_cases Let_def)
qed

theorem bare_numbers_get_lost_witness: "home_address [''12'', ''14''] = []"
  by (rule bare_numbers_get_lost) (simp add: number_re_iff is_digit_def)

end
