(* ===== verification/Radio.thy ===== *)
theory Radio
  imports Messages PersonNaming AddressText RouteGroups "HOL-Library.List_Lexorder"
begin

text \<open>
  The radio announcement of a dispatch: \<^verbatim>\<open>frontend/lib/radio-announcement.ts\<close>,
  \<^verbatim>\<open>frontend/lib/auftrag-radio.ts\<close>, \<^verbatim>\<open>frontend/lib/crew-order.ts\<close>, and what the two dialogs of
  \<^verbatim>\<open>components/kanban\<close> that read one out do with it. The message catalogue is an argument.
\<close>

section \<open>Segments\<close>

record radio_segment =
  rg_text :: string
  rg_bold :: bool
  rg_newline :: bool
  rg_status :: "stop_mirror_status option"

definition plain_seg :: "string \<Rightarrow> radio_segment" where
  "plain_seg s = \<lparr>rg_text = s, rg_bold = False, rg_newline = False, rg_status = None\<rparr>"

definition bold_seg :: "string \<Rightarrow> radio_segment" where
  "bold_seg s = \<lparr>rg_text = s, rg_bold = True, rg_newline = False, rg_status = None\<rparr>"

record radio_vehicle =
  rv_vehicleId :: ident
  rv_name :: string
  rv_stay :: "bool option"

record radio_material =
  rm_name :: string
  rm_category :: "string option"

record radio_deployment =
  rd_crew :: "string list"
  rd_leader :: "string option"
  rd_vehicles :: "radio_vehicle list"
  rd_materials :: "radio_material list"
  rd_zuFuss :: bool

record radio_stop =
  rt_position :: int
  rt_address :: string
  rt_special :: "string option"
  rt_done :: bool
  rt_status :: "stop_mirror_status option"

definition vehicle_phrase :: "message_translate \<Rightarrow> radio_vehicle list \<Rightarrow> string" where
  "vehicle_phrase t vs = str_join '', '' (map (\<lambda>v. case rv_stay v of
       None \<Rightarrow> rv_name v
     | Some stay \<Rightarrow> rv_name v @ '' ('' @ (if stay then t ''disponiert.staysOnSite'' [] else t ''disponiert.returns'' []) @ '')'') vs)"

definition material_phrase :: "radio_material list \<Rightarrow> string" where
  "material_phrase ms = str_join '', '' (map (\<lambda>m. case or_null (rm_category m) of
       None \<Rightarrow> rm_name m | Some c \<Rightarrow> rm_name m @ '' ('' @ c @ '')'') ms)"

definition format_crew :: "radio_deployment \<Rightarrow> string" where
  "format_crew d =
     (let leaderAt = (case or_null (rd_leader d) of None \<Rightarrow> - 1 | Some l \<Rightarrow> find_index (\<lambda>name. name = l) (rd_crew d))
      in str_join '', '' (map (\<lambda>(i, name). if int i = leaderAt then ''EL '' @ name else name) (enumerate 0 (rd_crew d))))"

definition deployment_segments :: "message_translate \<Rightarrow> radio_deployment \<Rightarrow> radio_segment list" where
  "deployment_segments t d =
     (let crew = or_null (if rd_crew d \<noteq> [] then Some (format_crew d) else None);
          vehicles = or_null (if \<not> rd_zuFuss d \<and> rd_vehicles d \<noteq> [] then Some (vehicle_phrase t (rd_vehicles d)) else None);
          materials = or_null (if rd_materials d \<noteq> [] then Some (material_phrase (rd_materials d)) else None);
          connector = (if vehicles \<noteq> None then t ''disponiert.radioAnd'' [] else t ''disponiert.radioWith'' []);
          with_part = (\<lambda>word part. case part of None \<Rightarrow> [] | Some s \<Rightarrow> [plain_seg ('' '' @ word @ '' ''), bold_seg s])
      in case crew of
           Some c \<Rightarrow>
             [plain_seg (t ''disponiert.radioDeploySuffix'' []), plain_seg '' '', bold_seg c]
             @ (if rd_zuFuss d then [plain_seg '' '', bold_seg (t ''disponiert.radioZuFuss'' [])] else [])
             @ with_part (t ''disponiert.radioWith'' []) vehicles @ with_part connector materials
         | None \<Rightarrow>
             (case vehicles of
                Some v \<Rightarrow> [plain_seg (t ''disponiert.radioDeploySuffix'' []), plain_seg '' '', bold_seg v]
                          @ with_part (t ''disponiert.radioWith'' []) materials
              | None \<Rightarrow>
                  (case materials of
                     Some m \<Rightarrow> [plain_seg (t ''disponiert.radioMaterialOnly'' []), plain_seg '' '', bold_seg m]
                   | None \<Rightarrow> [])))"

definition stop_special :: "message_translate \<Rightarrow> string list \<Rightarrow> bool \<Rightarrow> string option \<Rightarrow> string option" where
  "stop_special t dangerTypes nachbarhilfe note =
     (let dangers = (if dangerTypes \<noteq> [] then Some (str_join '', '' dangerTypes) else None);
          help = (if nachbarhilfe then Some (case or_null note of
                      Some n \<Rightarrow> t ''disponiert.radioNachbarhilfeWithNote'' [(''note'', MessageText n)]
                    | None \<Rightarrow> t ''disponiert.radioNachbarhilfe'' []) else None)
      in or_null (Some (str_join '', '' (List.map_filter or_null [dangers, help]))))"

section \<open>The announcements\<close>

definition special_segments :: "message_translate \<Rightarrow> string option \<Rightarrow> radio_segment list" where
  "special_segments t special =
     (case or_null special of None \<Rightarrow> []
      | Some s \<Rightarrow> [plain_seg ('' '' @ t ''disponiert.radioSpecial'' [] @ '' ''), bold_seg s, plain_seg ''.''])"

definition incident_announcement ::
  "message_translate \<Rightarrow> string \<Rightarrow> string \<Rightarrow> radio_deployment \<Rightarrow> string option \<Rightarrow> radio_segment list" where
  "incident_announcement t funkrufname address d special =
     (let deployment = deployment_segments t d
      in [plain_seg (t ''disponiert.radioIntro'' [(''funkrufname'', MessageText funkrufname)]), plain_seg '' '', bold_seg address]
         @ (if deployment \<noteq> [] then plain_seg '', '' # deployment else [])
         @ [plain_seg ''.''] @ special_segments t special)"

definition stop_line :: "radio_stop \<Rightarrow> radio_segment" where
  "stop_line s = \<lparr>rg_text = show_int (rt_position s) @ ''. '' @ rt_address s, rg_bold = True, rg_newline = True, rg_status = rt_status s\<rparr>"

definition auftrag_full_announcement ::
  "message_translate \<Rightarrow> string \<Rightarrow> string \<Rightarrow> radio_deployment \<Rightarrow> radio_stop list \<Rightarrow> radio_segment list" where
  "auftrag_full_announcement t funkrufname name d stops =
     (let openStops = filter (\<lambda>s. \<not> rt_done s) stops;
          deployment = deployment_segments t d;
          specials = str_join '', '' (List.map_filter (\<lambda>s. map_option (\<lambda>w. rt_address s @ '' '' @ w) (or_null (rt_special s))) openStops)
      in [plain_seg (t ''disponiert.radioAuftragIntro'' [(''funkrufname'', MessageText funkrufname), (''name'', MessageText name)])]
         @ (if deployment \<noteq> [] then plain_seg '' '' # deployment @ [plain_seg ''.''] else [])
         @ (if openStops \<noteq> []
            then plain_seg ('' '' @ t ''disponiert.radioAuftragStops'' [(''count'', MessageNumber (int (length openStops)))]) # map stop_line openStops
            else [])
         @ (if specials \<noteq> []
            then [(plain_seg (t ''disponiert.radioSpecial'' [] @ '' ''))\<lparr>rg_newline := True\<rparr>, bold_seg specials, plain_seg ''.''] else []))"

definition auftrag_short_announcement :: "message_translate \<Rightarrow> string \<Rightarrow> string \<Rightarrow> radio_stop \<Rightarrow> radio_segment list" where
  "auftrag_short_announcement t funkrufname name stop =
     [plain_seg (t ''disponiert.radioAuftragContinue''
        [(''funkrufname'', MessageText funkrufname), (''name'', MessageText name), (''pos'', MessageNumber (rt_position stop))]),
      plain_seg '' '', bold_seg (rt_address stop), plain_seg ''.''] @ special_segments t (rt_special stop)"

text \<open>Sorted by code unit, as \<^verbatim>\<open>sort()\<close> without a comparator does.\<close>

definition fingerprint_part :: "string \<Rightarrow> string list \<Rightarrow> string" where
  "fingerprint_part label values = label @ '':'' @ str_join '','' (sort values)"

definition radio_fingerprint :: "radio_deployment \<Rightarrow> string" where
  "radio_fingerprint d = str_join ''|''
     [fingerprint_part ''p'' (rd_crew d),
      fingerprint_part ''l'' (case or_null (rd_leader d) of None \<Rightarrow> [] | Some l \<Rightarrow> [l]),
      fingerprint_part ''v'' (map rv_name (rd_vehicles d)),
      fingerprint_part ''m'' (map rm_name (rd_materials d))]"

definition needs_full_announcement :: "string option \<Rightarrow> string \<Rightarrow> bool" where
  "needs_full_announcement announcedPrint current = (case announcedPrint of None \<Rightarrow> True | Some f \<Rightarrow> f \<noteq> current)"

definition segments_to_text :: "radio_segment list \<Rightarrow> string" where
  "segments_to_text segs =
     concat (map (\<lambda>(i, s). if rg_newline s \<and> i > 0 then CHR 0x0A # rg_text s else rg_text s) (enumerate 0 segs))"

section \<open>From the board to the announcement\<close>

definition sort_crew_by_leader :: "('a \<Rightarrow> bool) \<Rightarrow> 'a list \<Rightarrow> 'a list" where
  "sort_crew_by_leader isLeader crew =
     (let leaders = filter isLeader crew; others = filter (\<lambda>m. \<not> isLeader m) crew
      in if leaders \<noteq> [] then leaders @ others else crew)"

definition is_leader_id :: "ident option \<Rightarrow> ident \<Rightarrow> bool" where
  "is_leader_id leaderId i = (or_null leaderId = Some i)"

definition stop_address :: "string \<Rightarrow> operation option \<Rightarrow> string \<Rightarrow> string" where
  "stop_address homeCity op fallback =
     (case op of None \<Rightarrow> fallback
      | Some o1 \<Rightarrow> or_str (Some (nullish (op_locationDisplay o1) (format_location_for_display (op_location o1) homeCity))) fallback)"

definition route_deployment ::
  "operation \<Rightarrow> group_resources \<Rightarrow> material list \<Rightarrow> (string \<Rightarrow> ident option \<Rightarrow> string) \<Rightarrow> radio_deployment" where
  "route_deployment op res materials personText =
     (let materialById = map_of (rev (map (\<lambda>m. (m_id m, m)) materials));
          items = List.map_filter materialById (op_materials op @ map gr_resource (gr_materials res));
          routeLeader = List.find (\<lambda>p. gr_isLeader p = Some True) (gr_personnel res);
          leaderId = (case routeLeader of Some p \<Rightarrow> Some (gr_resource p) | None \<Rightarrow> op_leaderId op);
          crew = map (\<lambda>m. (cm_personnelId m, cm_name m)) (op_crew op) @ map (\<lambda>p. (gr_resource p, gr_name p)) (gr_personnel res)
      in \<lparr>rd_crew = map (\<lambda>(i, name). personText name (Some i)) (sort_crew_by_leader (is_leader_id leaderId \<circ> fst) crew),
          rd_leader = (case routeLeader of
              Some p \<Rightarrow> Some (personText (gr_name p) (Some (gr_resource p)))
            | None \<Rightarrow> (case or_null (op_leaderName op) of Some name \<Rightarrow> Some (personText name (op_leaderId op)) | None \<Rightarrow> None)),
          rd_vehicles = map (\<lambda>v. \<lparr>rv_vehicleId = ov_vehicleId v, rv_name = ov_name v, rv_stay = ov_driverStay v\<rparr>) (op_vehicles op)
            @ map (\<lambda>v. \<lparr>rv_vehicleId = gr_resource v, rv_name = gr_name v, rv_stay = gr_driverStay v\<rparr>) (gr_vehicles res),
          rd_materials = map (\<lambda>m. \<lparr>rm_name = m_name m, rm_category = Some (m_category m)\<rparr>) items,
          rd_zuFuss = op_zuFuss op\<rparr>)"

definition operation_special :: "message_translate \<Rightarrow> operation \<Rightarrow> string option" where
  "operation_special t o1 =
     stop_special t (case op_rekoSummary o1 of Some rs \<Rightarrow> if rs_hasDangers rs then rs_dangerTypes rs else [] | None \<Rightarrow> [])
       (op_nachbarhilfe o1) (Some (op_nachbarhilfeNote o1))"

definition route_stop_at :: "message_translate \<Rightarrow> string \<Rightarrow> (ident \<rightharpoonup> operation) \<Rightarrow> string \<Rightarrow> nat \<times> ident \<Rightarrow> radio_stop" where
  "route_stop_at t homeCity byId fallback p =
     (let op = byId (snd p)
      in \<lparr>rt_position = int (fst p) + 1, rt_address = stop_address homeCity op fallback,
          rt_special = (case op of Some o1 \<Rightarrow> operation_special t o1 | None \<Rightarrow> None),
          rt_done = (case op of Some o1 \<Rightarrow> op_status o1 = Returning \<or> op_status o1 = Complete | None \<Rightarrow> False),
          rt_status = Some (to_stop_mirror_status op)\<rparr>)"

definition route_stops :: "message_translate \<Rightarrow> string \<Rightarrow> ident list \<Rightarrow> operation list \<Rightarrow> string \<Rightarrow> radio_stop list" where
  "route_stops t homeCity stopIds ops fallback =
     (let byId = map_of (rev (map (\<lambda>o1. (op_id o1, o1)) ops))
      in map (route_stop_at t homeCity byId fallback) (enumerate 0 stopIds))"

record radio_input =
  ri_group :: incident_route
  ri_operation :: operation
  ri_resources :: group_resources
  ri_operations :: "operation list"
  ri_materials :: "material list"
  ri_funkrufname :: string
  ri_fallbackAddress :: string
  ri_forceFull :: "bool option"
  ri_personText :: "string \<Rightarrow> ident option \<Rightarrow> string"

record auftrag_radio_result =
  au_segments :: "radio_segment list"
  au_full :: bool
  au_fingerprint :: string

definition announced_stop :: "message_translate \<Rightarrow> string \<Rightarrow> radio_input \<Rightarrow> radio_stop" where
  "announced_stop t homeCity inp =
     (let stops = route_stops t homeCity (ig_stops (ri_group inp)) (ri_operations inp) (ri_fallbackAddress inp);
          index = find_index (\<lambda>i. i = op_id (ri_operation inp)) (ig_stops (ri_group inp))
      in if index \<ge> 0 then stops ! nat index
         else \<lparr>rt_position = op_groupPosition (ri_operation inp) + 1,
               rt_address = stop_address homeCity (Some (ri_operation inp)) (ri_fallbackAddress inp),
               rt_special = None, rt_done = False, rt_status = None\<rparr>)"

definition auftrag_radio :: "message_translate \<Rightarrow> string \<Rightarrow> radio_input \<Rightarrow> auftrag_radio_result" where
  "auftrag_radio t homeCity inp =
     (let d = route_deployment (ri_operation inp) (ri_resources inp) (ri_materials inp) (ri_personText inp);
          fingerprint = radio_fingerprint d;
          isFull = nullish (ri_forceFull inp)
            (needs_full_announcement (map_option an_fingerprint (ig_announced (ri_group inp))) fingerprint);
          stops = route_stops t homeCity (ig_stops (ri_group inp)) (ri_operations inp) (ri_fallbackAddress inp)
      in \<lparr>au_segments =
            (if isFull then auftrag_full_announcement t (ri_funkrufname inp) (ig_name (ri_group inp)) d stops
             else auftrag_short_announcement t (ri_funkrufname inp) (ig_name (ri_group inp)) (announced_stop t homeCity inp)),
          au_full = isFull, au_fingerprint = fingerprint\<rparr>)"

section \<open>The dialogs\<close>

text \<open>
  The dialog of a dispatch, render by render: what it shows rests on the frozen form; its effect writes the
  announcement down once per route and stop. A render without a route or an incident has no input.
\<close>

record radio_dialog =
  dl_frozen :: "bool option"
  dl_key :: "string option"

record announcement_note =
  no_group :: ident
  no_fingerprint :: string
  no_stop :: ident
  no_full :: bool

definition shown_radio :: "message_translate \<Rightarrow> string \<Rightarrow> radio_dialog \<Rightarrow> radio_input \<Rightarrow> auftrag_radio_result" where
  "shown_radio t homeCity dl inp = auftrag_radio t homeCity (inp\<lparr>ri_forceFull := dl_frozen dl\<rparr>)"

definition dialog_effect ::
  "message_translate \<Rightarrow> string \<Rightarrow> bool \<Rightarrow> radio_input option \<Rightarrow> radio_dialog \<Rightarrow> radio_dialog \<times> announcement_note option" where
  "dialog_effect t homeCity isOpen input dl =
     (if \<not> isOpen then (\<lparr>dl_frozen = None, dl_key = None\<rparr>, None)
      else case input of
          None \<Rightarrow> (dl, None)
        | Some inp \<Rightarrow>
            let key = ig_id (ri_group inp) @ '':'' @ op_id (ri_operation inp); radio = shown_radio t homeCity dl inp
            in if dl_key dl = Some key then (dl, None)
               else (\<lparr>dl_frozen = Some (au_full radio), dl_key = Some key\<rparr>,
                     Some \<lparr>no_group = ig_id (ri_group inp), no_fingerprint = au_fingerprint radio,
                           no_stop = op_id (ri_operation inp), no_full = au_full radio\<rparr>))"

fun dialog_run :: "message_translate \<Rightarrow> string \<Rightarrow> radio_dialog \<Rightarrow> radio_input list \<Rightarrow> (bool \<times> announcement_note option) list" where
  "dialog_run t homeCity dl [] = []"
| "dialog_run t homeCity dl (inp # inps) =
     (case dialog_effect t homeCity True (Some inp) dl of
        (dl', note) \<Rightarrow> (au_full (shown_radio t homeCity dl inp), note) # dialog_run t homeCity dl' inps)"

text \<open>The stop a repeat is about: the one last announced, or the first of the route when that one is gone.\<close>

definition repeat_stop :: "incident_route \<Rightarrow> ident option" where
  "repeat_stop r =
     (case Option.bind (ig_announced r) (or_null \<circ> an_stop) of
        Some i \<Rightarrow> if i \<in> set (ig_stops r) then Some i else (case ig_stops r of [] \<Rightarrow> None | j # _ \<Rightarrow> Some j)
      | None \<Rightarrow> (case ig_stops r of [] \<Rightarrow> None | j # _ \<Rightarrow> Some j))"

definition repeated_radio :: "message_translate \<Rightarrow> string \<Rightarrow> radio_input \<Rightarrow> auftrag_radio_result option" where
  "repeated_radio t homeCity inp =
     (case Option.bind (repeat_stop (ri_group inp)) (\<lambda>i. List.find (\<lambda>o1. op_id o1 = i) (ri_operations inp)) of
        None \<Rightarrow> None
      | Some o1 \<Rightarrow> Some (auftrag_radio t homeCity
          (inp\<lparr>ri_operation := o1, ri_forceFull := map_option an_full (ig_announced (ri_group inp))\<rparr>)))"

text \<open>
  One announcement after the other over a route: each opening with what rides along at that moment and whether its note
  reached the server. A note that fails puts back what stood there before (\<open>RouteGroups.record_announcement\<close>).
\<close>

record radio_opening =
  ro_deployment :: radio_deployment
  ro_stop :: ident
  ro_saved :: bool

definition opening_full :: "announced option \<Rightarrow> radio_opening \<Rightarrow> bool" where
  "opening_full before ro = needs_full_announcement (map_option an_fingerprint before) (radio_fingerprint (ro_deployment ro))"

definition noted :: "announced option \<Rightarrow> radio_opening \<Rightarrow> announced option" where
  "noted before ro =
     (if ro_saved ro
      then Some \<lparr>an_at = None, an_fingerprint = radio_fingerprint (ro_deployment ro), an_stop = Some (ro_stop ro), an_full = opening_full before ro\<rparr>
      else before)"

fun read_outs :: "announced option \<Rightarrow> radio_opening list \<Rightarrow> bool list" where
  "read_outs before [] = []"
| "read_outs before (ro # ros) = opening_full before ro # read_outs (noted before ro) ros"

section \<open>The digest\<close>

definition plain_label :: "string \<Rightarrow> bool" where
  "plain_label s \<longleftrightarrow> s \<noteq> [] \<and> CHR '','' \<notin> set s \<and> CHR ''|'' \<notin> set s"

definition digest_lists :: "radio_deployment \<Rightarrow> string list list" where
  "digest_lists d = [rd_crew d, (case or_null (rd_leader d) of None \<Rightarrow> [] | Some l \<Rightarrow> [l]), map rv_name (rd_vehicles d), map rm_name (rd_materials d)]"

definition plain_deployment :: "radio_deployment \<Rightarrow> bool" where
  "plain_deployment d = list_all (list_all plain_label) (digest_lists d)"

text \<open>The same names ride along, in whatever order.\<close>

definition same_names :: "radio_deployment \<Rightarrow> radio_deployment \<Rightarrow> bool" where
  "same_names d e \<longleftrightarrow> map mset (digest_lists d) = map mset (digest_lists e)"

lemma join_chars: "c \<in> set (str_join sep ws) \<Longrightarrow> c \<in> set sep \<or> (\<exists>w\<in>set ws. c \<in> set w)"
  by (induction sep ws rule: str_join.induct) auto

lemma join_empty_iff: "(\<And>w. w \<in> set ws \<Longrightarrow> w \<noteq> []) \<Longrightarrow> str_join sep ws = [] \<longleftrightarrow> ws = []"
  by (induction sep ws rule: str_join.induct) auto

lemma join_inj:
  assumes "list_all plain_label xs" and "list_all plain_label ys" and "str_join '','' xs = str_join '','' ys"
  shows "xs = ys"
proof (cases "xs = [] \<or> ys = []")
  case True
  with assms join_empty_iff [of xs "'',''"] join_empty_iff [of ys "'',''"] show ?thesis
    by (auto simp: list_all_iff plain_label_def)
next
  case False
  have "js_split CHR '','' (str_join [CHR '',''] xs) = xs"
    using assms(1) False by (intro js_split_join) (simp_all add: list_all_iff plain_label_def)
  moreover have "js_split CHR '','' (str_join [CHR '',''] ys) = ys"
    using assms(2) False by (intro js_split_join) (simp_all add: list_all_iff plain_label_def)
  ultimately show ?thesis using assms(3) by metis
qed

lemma part_inj:
  assumes "list_all plain_label xs" and "list_all plain_label ys"
  shows "fingerprint_part k xs = fingerprint_part k ys \<longleftrightarrow> mset xs = mset ys"
proof
  assume "fingerprint_part k xs = fingerprint_part k ys"
  then have "str_join '','' (sort xs) = str_join '','' (sort ys)" by (simp add: fingerprint_part_def)
  moreover have "list_all plain_label (sort xs)" "list_all plain_label (sort ys)" using assms by (simp_all add: list_all_iff)
  ultimately have "sort xs = sort ys" by (intro join_inj)
  then show "mset xs = mset ys" by (metis mset_sort)
next
  assume "mset xs = mset ys"
  then have "sort xs = sort ys" by (metis properties_for_sort sorted_sort mset_sort)
  then show "fingerprint_part k xs = fingerprint_part k ys" by (simp add: fingerprint_part_def)
qed

lemma part_chars:
  assumes "list_all plain_label xs" and "CHR ''|'' \<notin> set k"
  shows "CHR ''|'' \<notin> set (fingerprint_part k xs)"
proof
  assume "CHR ''|'' \<in> set (fingerprint_part k xs)"
  with assms(2) have "CHR ''|'' \<in> set (str_join '','' (sort xs))" by (auto simp: fingerprint_part_def)
  from join_chars [OF this] assms(1) show False by (auto simp: list_all_iff plain_label_def)
qed

lemma fingerprint_parts:
  assumes "plain_deployment d"
  shows "js_split CHR ''|'' (radio_fingerprint d) = map2 fingerprint_part [''p'', ''l'', ''v'', ''m''] (digest_lists d)"
proof -
  let ?parts = "map2 fingerprint_part [''p'', ''l'', ''v'', ''m''] (digest_lists d)"
  have "radio_fingerprint d = str_join [CHR ''|''] ?parts" by (simp add: radio_fingerprint_def digest_lists_def)
  moreover have "CHR ''|'' \<notin> set w" if "w \<in> set ?parts" for w
    using that assms by (auto simp: plain_deployment_def digest_lists_def intro: part_chars [THEN notE, rotated 2])
  moreover have "?parts \<noteq> []" by (simp add: digest_lists_def)
  ultimately show ?thesis by (metis js_split_join)
qed

lemma digest_identifies:
  assumes "plain_deployment d" and "plain_deployment e"
  shows "radio_fingerprint d = radio_fingerprint e \<longleftrightarrow> same_names d e"
proof -
  have plain: "list_all plain_label xs" if "xs \<in> set (digest_lists d) \<union> set (digest_lists e)" for xs
    using that assms by (auto simp: plain_deployment_def list_all_iff)
  have "radio_fingerprint d = radio_fingerprint e \<longleftrightarrow>
      map2 fingerprint_part [''p'', ''l'', ''v'', ''m''] (digest_lists d) = map2 fingerprint_part [''p'', ''l'', ''v'', ''m''] (digest_lists e)"
  proof
    assume "map2 fingerprint_part [''p'', ''l'', ''v'', ''m''] (digest_lists d) = map2 fingerprint_part [''p'', ''l'', ''v'', ''m''] (digest_lists e)"
    then show "radio_fingerprint d = radio_fingerprint e" by (simp add: radio_fingerprint_def digest_lists_def)
  qed (metis assms fingerprint_parts)
  also have "\<dots> \<longleftrightarrow> same_names d e"
    using plain by (simp add: digest_lists_def same_names_def part_inj)
  finally show ?thesis .
qed

text \<open>
  The digest of what was read out changes exactly when a name of the crew, the Einsatzleiter, a vehicle or a device
  does; the order in which they come back from the server does not matter.
\<close>

theorem digest_tells_the_names:
  assumes "plain_deployment d" and "plain_deployment e"
  shows "needs_full_announcement (Some (radio_fingerprint d)) (radio_fingerprint e) \<longleftrightarrow> \<not> same_names d e"
  using digest_identifies [OF assms] by (simp add: needs_full_announcement_def)

theorem digest_tells_the_names_witness:
  "\<not> needs_full_announcement
     (Some (radio_fingerprint \<lparr>rd_crew = [''Moser'', ''Weber''], rd_leader = Some ''Moser'', rd_vehicles = [], rd_materials = [], rd_zuFuss = False\<rparr>))
     (radio_fingerprint \<lparr>rd_crew = [''Weber'', ''Moser''], rd_leader = Some ''Moser'', rd_vehicles = [], rd_materials = [], rd_zuFuss = False\<rparr>)"
proof -
  let ?d = "\<lambda>crew. \<lparr>rd_crew = crew, rd_leader = Some ''Moser'', rd_vehicles = [], rd_materials = [], rd_zuFuss = False\<rparr>"
  have "same_names (?d [''Moser'', ''Weber'']) (?d [''Weber'', ''Moser''])" by (simp add: same_names_def digest_lists_def)
  moreover have "plain_deployment (?d [''Moser'', ''Weber''])" "plain_deployment (?d [''Weber'', ''Moser''])"
    by (simp_all add: plain_deployment_def digest_lists_def plain_label_def or_null_def)
  ultimately show ?thesis using digest_tells_the_names by blast
qed

text \<open>
  The digest is silent about what the announcement says beside the names: a vehicle that stays on site and one that returns have the
  same digest, and so have a squad on foot and one that drives.
\<close>

theorem digest_misses_what_is_said:
  assumes "t ''disponiert.staysOnSite'' [] \<noteq> t ''disponiert.returns'' []"
  defines "d \<equiv> \<lambda>stay. \<lparr>rd_crew = [], rd_leader = None, rd_vehicles = [\<lparr>rv_vehicleId = ''v'', rv_name = ''Pio'', rv_stay = Some stay\<rparr>],
      rd_materials = [], rd_zuFuss = False\<rparr>"
  shows "radio_fingerprint (d True) = radio_fingerprint (d False)"
    and "segments_to_text (deployment_segments t (d True)) \<noteq> segments_to_text (deployment_segments t (d False))"
  using assms(1) by (simp_all add: d_def radio_fingerprint_def deployment_segments_def vehicle_phrase_def or_null_def
      segments_to_text_def plain_seg_def bold_seg_def)

section \<open>Announcements one after the other\<close>

lemma opening_after_saved: "ro_saved ro \<Longrightarrow>
   opening_full (noted before ro) next \<longleftrightarrow> radio_fingerprint (ro_deployment ro) \<noteq> radio_fingerprint (ro_deployment next)"
  by (simp add: opening_full_def noted_def needs_full_announcement_def)

lemma length_read_outs [simp]: "length (read_outs before ros) = length ros"
  by (induction ros arbitrary: before) simp_all

lemma read_outs_nth:
  "list_all ro_saved ros \<Longrightarrow> k < length ros \<Longrightarrow>
     read_outs before ros ! k = (case k of 0 \<Rightarrow> opening_full before (ros ! 0)
       | Suc j \<Rightarrow> radio_fingerprint (ro_deployment (ros ! j)) \<noteq> radio_fingerprint (ro_deployment (ros ! k)))"
proof (induction ros arbitrary: before k)
  case (Cons ro ros)
  show ?case
  proof (cases k)
    case (Suc j)
    with Cons.IH [of j "noted before ro"] Cons.prems show ?thesis
      by (cases j) (simp_all add: opening_after_saved)
  qed simp
qed simp



text \<open>
  A note that is lost is not always heard again: after a full announcement whose note failed, the next stop with the resources of
  the one before is read out short, though the squad last heard others.
\<close>

theorem lost_note_hides_a_change:
  assumes "radio_fingerprint a \<noteq> radio_fingerprint b"
  shows "read_outs None [\<lparr>ro_deployment = a, ro_stop = s1, ro_saved = True\<rparr>, \<lparr>ro_deployment = b, ro_stop = s2, ro_saved = False\<rparr>,
      \<lparr>ro_deployment = a, ro_stop = s3, ro_saved = saved\<rparr>] = [True, True, False]"
  using assms by (simp add: opening_full_def noted_def needs_full_announcement_def)

section \<open>What is heard\<close>

lemma sublist_in_concat: "y \<in> set ys \<Longrightarrow> sublist y (concat ys)"
  by (metis concat.simps(2) concat_append sublist_appendI split_list)

lemma segment_heard:
  assumes "seg \<in> set segs"
  shows "str_includes (segments_to_text segs) (rg_text seg)"
proof -
  from assms obtain i where i: "i < length segs" "segs ! i = seg" by (meson in_set_conv_nth)
  let ?say = "\<lambda>(i, s). if rg_newline s \<and> i > 0 then CHR 0x0A # rg_text s else rg_text s"
  have "(i, seg) \<in> set (enumerate 0 segs)" using i by (auto simp: in_set_enumerate_eq)
  then have "?say (i, seg) \<in> set (map ?say (enumerate 0 segs))" unfolding set_map by (rule imageI)
  then have "sublist (?say (i, seg)) (segments_to_text segs)" unfolding segments_to_text_def by (rule sublist_in_concat)
  moreover have "sublist (rg_text seg) (?say (i, seg))"
    by (simp add: sublist_Cons_right)
  ultimately show ?thesis unfolding str_includes_def using sublist_order.order.trans by blast
qed

lemma join_includes: "w \<in> set ws \<Longrightarrow> sublist w (str_join sep ws)"
proof (induction sep ws rule: str_join.induct)
  case (3 sep x y ys)
  show ?case
  proof (cases "w = x")
    case True
    then show ?thesis using sublist_appendI [of x "[]" "sep @ str_join sep (y # ys)"] by simp
  next
    case False
    with 3 have "sublist w (str_join sep (y # ys))" by simp
    then show ?thesis using sublist_appendI [of "str_join sep (y # ys)" "x @ sep" "[]"] sublist_order.order.trans by fastforce
  qed
qed simp_all

lemma crew_heard: "c \<in> set (rd_crew d) \<Longrightarrow> sublist c (format_crew d)"
proof -
  assume "c \<in> set (rd_crew d)"
  then obtain i where i: "i < length (rd_crew d)" "rd_crew d ! i = c" by (meson in_set_conv_nth)
  define say where "say = (\<lambda>(j, name). if int j = (case or_null (rd_leader d) of None \<Rightarrow> - 1 | Some l \<Rightarrow> find_index (\<lambda>name. name = l) (rd_crew d))
      then ''EL '' @ name else name)"
  have "(i, c) \<in> set (enumerate 0 (rd_crew d))" using i by (auto simp: in_set_enumerate_eq)
  then have "say (i, c) \<in> set (map say (enumerate 0 (rd_crew d)))" by simp
  from join_includes [OF this] have "sublist (say (i, c)) (format_crew d)"
    by (simp add: format_crew_def say_def Let_def)
  moreover have "sublist c (say (i, c))" using sublist_appendI [of c "''EL ''" "[]"] by (simp add: say_def)
  ultimately show ?thesis using sublist_order.order.trans by blast
qed

lemma vehicle_heard: "v \<in> set vs \<Longrightarrow> sublist (rv_name v) (vehicle_phrase t vs)"
proof -
  assume "v \<in> set vs"
  define say where "say = (\<lambda>v :: radio_vehicle. case rv_stay v of None \<Rightarrow> rv_name v
     | Some stay \<Rightarrow> rv_name v @ '' ('' @ (if stay then t ''disponiert.staysOnSite'' [] else t ''disponiert.returns'' []) @ '')'')"
  have "sublist (say v) (vehicle_phrase t vs)" unfolding vehicle_phrase_def say_def [symmetric]
    using \<open>v \<in> set vs\<close> by (intro join_includes) simp
  moreover have "sublist (rv_name v) (say v)" using sublist_appendI [of "rv_name v" "[]"] by (cases "rv_stay v") (simp_all add: say_def)
  ultimately show ?thesis using sublist_order.order.trans by blast
qed

lemma material_heard: "m \<in> set ms \<Longrightarrow> sublist (rm_name m) (material_phrase ms)"
proof -
  assume "m \<in> set ms"
  define say where "say = (\<lambda>m :: radio_material. case or_null (rm_category m) of None \<Rightarrow> rm_name m | Some c \<Rightarrow> rm_name m @ '' ('' @ c @ '')'')"
  have "sublist (say m) (material_phrase ms)" unfolding material_phrase_def say_def [symmetric]
    using \<open>m \<in> set ms\<close> by (intro join_includes) simp
  moreover have "sublist (rm_name m) (say m)" using sublist_appendI [of "rm_name m" "[]"]
    by (cases "or_null (rm_category m)") (simp_all add: say_def)
  ultimately show ?thesis using sublist_order.order.trans by blast
qed

lemma deployment_says:
  shows "rd_crew d \<noteq> [] \<Longrightarrow> format_crew d \<noteq> [] \<Longrightarrow> bold_seg (format_crew d) \<in> set (deployment_segments t d)"
    and "\<not> rd_zuFuss d \<Longrightarrow> rd_vehicles d \<noteq> [] \<Longrightarrow> vehicle_phrase t (rd_vehicles d) \<noteq> [] \<Longrightarrow>
           bold_seg (vehicle_phrase t (rd_vehicles d)) \<in> set (deployment_segments t d)"
    and "rd_materials d \<noteq> [] \<Longrightarrow> material_phrase (rd_materials d) \<noteq> [] \<Longrightarrow>
           bold_seg (material_phrase (rd_materials d)) \<in> set (deployment_segments t d)"
  by (auto simp: deployment_segments_def Let_def or_null_def split: option.splits)

text \<open>A text is heard when some segment contains it.\<close>

lemma bold_heard:
  assumes "bold_seg x \<in> set segs" and "sublist w x"
  shows "str_includes (segments_to_text segs) w"
  using segment_heard [OF assms(1)] assms(2) sublist_order.order.trans unfolding str_includes_def bold_seg_def
  by (metis radio_segment.select_convs(1))

lemma deployment_heard:
  assumes "set (deployment_segments t d) \<subseteq> set segs"
  shows "c \<in> set (rd_crew d) \<Longrightarrow> c \<noteq> [] \<Longrightarrow> str_includes (segments_to_text segs) c"
    and "\<not> rd_zuFuss d \<Longrightarrow> v \<in> set (rd_vehicles d) \<Longrightarrow> rv_name v \<noteq> [] \<Longrightarrow> str_includes (segments_to_text segs) (rv_name v)"
    and "m \<in> set (rd_materials d) \<Longrightarrow> rm_name m \<noteq> [] \<Longrightarrow> str_includes (segments_to_text segs) (rm_name m)"
proof -
  assume c: "c \<in> set (rd_crew d)" "c \<noteq> []"
  note part = crew_heard [OF c(1)]
  from c part have "rd_crew d \<noteq> []" "format_crew d \<noteq> []" by auto
  from bold_heard [OF subsetD [OF assms deployment_says(1) [OF this]] part] show "str_includes (segments_to_text segs) c" .
next
  assume v: "\<not> rd_zuFuss d" "v \<in> set (rd_vehicles d)" "rv_name v \<noteq> []"
  note part = vehicle_heard [OF v(2), of t]
  from v part have "rd_vehicles d \<noteq> []" "vehicle_phrase t (rd_vehicles d) \<noteq> []" by auto
  from bold_heard [OF subsetD [OF assms deployment_says(2) [OF v(1) this]] part] show "str_includes (segments_to_text segs) (rv_name v)" .
next
  assume m: "m \<in> set (rd_materials d)" "rm_name m \<noteq> []"
  note part = material_heard [OF m(1)]
  from m part have "rd_materials d \<noteq> []" "material_phrase (rd_materials d) \<noteq> []" by auto
  from bold_heard [OF subsetD [OF assms deployment_says(3) [OF this]] part] show "str_includes (segments_to_text segs) (rm_name m)" .
qed

lemma full_includes_deployment: "set (deployment_segments t d) \<subseteq> set (auftrag_full_announcement t f name d stops)"
  by (auto simp: auftrag_full_announcement_def Let_def)

lemma full_says_special:
  assumes "s \<in> set stops" and "\<not> rt_done s" and "or_null (rt_special s) = Some w"
  shows "str_includes (segments_to_text (auftrag_full_announcement t f name d stops)) (rt_address s @ '' '' @ w)"
proof -
  let ?list = "List.map_filter (\<lambda>s. map_option (\<lambda>w. rt_address s @ '' '' @ w) (or_null (rt_special s))) (filter (\<lambda>s. \<not> rt_done s) stops)"
  have "rt_address s @ '' '' @ w \<in> set ?list" using assms by (force simp: List.map_filter_def)
  from join_includes [OF this] have part: "sublist (rt_address s @ '' '' @ w) (str_join '', '' ?list)" .
  then have "str_join '', '' ?list \<noteq> []" by auto
  then have "bold_seg (str_join '', '' ?list) \<in> set (auftrag_full_announcement t f name d stops)"
    by (simp add: auftrag_full_announcement_def Let_def)
  from bold_heard [OF this part] show ?thesis .
qed

definition spoken_in :: "message_translate \<Rightarrow> string \<Rightarrow> string \<Rightarrow> radio_deployment \<Rightarrow> radio_stop list \<Rightarrow> string \<Rightarrow> bool" where
  "spoken_in t f name d stops w = str_includes (segments_to_text (auftrag_full_announcement t f name d stops)) w"

text \<open>
  C8. The full announcement leaves nothing out: every open stop with its number and address, every danger with the
  address it waits at, every name of the crew, every vehicle unless the squad goes on foot, every device.
\<close>

theorem full_announcement_names_everything:
  "list_all (\<lambda>s. rt_done s \<or> spoken_in t f name d stops (show_int (rt_position s) @ ''. '' @ rt_address s)) stops
   \<and> list_all (\<lambda>s. rt_done s \<or> (case or_null (rt_special s) of None \<Rightarrow> True
        | Some w \<Rightarrow> spoken_in t f name d stops (rt_address s @ '' '' @ w))) stops
   \<and> list_all (\<lambda>c. c = [] \<or> spoken_in t f name d stops c) (rd_crew d)
   \<and> (rd_zuFuss d \<or> list_all (\<lambda>v. rv_name v = [] \<or> spoken_in t f name d stops (rv_name v)) (rd_vehicles d))
   \<and> list_all (\<lambda>m. rm_name m = [] \<or> spoken_in t f name d stops (rm_name m)) (rd_materials d)"
proof (intro conjI)
  show "list_all (\<lambda>s. rt_done s \<or> spoken_in t f name d stops (show_int (rt_position s) @ ''. '' @ rt_address s)) stops"
    unfolding list_all_iff
  proof (intro ballI)
    fix s assume "s \<in> set stops"
    then have "rt_done s \<or> stop_line s \<in> set (auftrag_full_announcement t f name d stops)"
      by (auto simp: auftrag_full_announcement_def Let_def filter_empty_conv)
    then show "rt_done s \<or> spoken_in t f name d stops (show_int (rt_position s) @ ''. '' @ rt_address s)"
      using segment_heard [of "stop_line s"] by (auto simp: spoken_in_def stop_line_def)
  qed
  show "list_all (\<lambda>s. rt_done s \<or> (case or_null (rt_special s) of None \<Rightarrow> True
      | Some w \<Rightarrow> spoken_in t f name d stops (rt_address s @ '' '' @ w))) stops"
    unfolding list_all_iff spoken_in_def
  proof (intro ballI)
    fix s assume "s \<in> set stops"
    from full_says_special [OF this, where t = t and f = f and name = name and d = d]
    show "rt_done s \<or> (case or_null (rt_special s) of None \<Rightarrow> True
        | Some w \<Rightarrow> str_includes (segments_to_text (auftrag_full_announcement t f name d stops)) (rt_address s @ '' '' @ w))"
      by (cases "or_null (rt_special s)") auto
  qed
  note heard = deployment_heard [OF full_includes_deployment [of t d f name stops]]
  show "list_all (\<lambda>c. c = [] \<or> spoken_in t f name d stops c) (rd_crew d)"
    "rd_zuFuss d \<or> list_all (\<lambda>v. rv_name v = [] \<or> spoken_in t f name d stops (rv_name v)) (rd_vehicles d)"
    "list_all (\<lambda>m. rm_name m = [] \<or> spoken_in t f name d stops (rm_name m)) (rd_materials d)"
    using heard by (auto simp: list_all_iff spoken_in_def)
qed

section \<open>The Einsatzleiter\<close>

lemma leader_first:
  "distinct (map fst crew) \<Longrightarrow> (i, n) \<in> set crew \<Longrightarrow>
     sort_crew_by_leader (\<lambda>m. fst m = i) crew = (i, n) # filter (\<lambda>m. fst m \<noteq> i) crew"
proof -
  assume distinct: "distinct (map fst crew)" and mem: "(i, n) \<in> set crew"
  from mem obtain ys zs where split: "crew = ys @ (i, n) # zs" by (meson split_list)
  with distinct have "i \<notin> fst ` set ys" "i \<notin> fst ` set zs" by auto
  then have "filter (\<lambda>m. fst m = i) ys = []" "filter (\<lambda>m. fst m = i) zs = []" by (auto simp: filter_empty_conv)
  then have "filter (\<lambda>m. fst m = i) crew = [(i, n)]" by (simp add: split)
  then show ?thesis by (simp add: sort_crew_by_leader_def Let_def)
qed

lemma format_leader_first:
  "rd_crew d = l # others \<Longrightarrow> rd_leader d = Some l \<Longrightarrow> l \<noteq> [] \<Longrightarrow> format_crew d = ''EL '' @ str_join '', '' (l # others)"
proof -
  assume d: "rd_crew d = l # others" "rd_leader d = Some l" "l \<noteq> []"
  have same: "map (\<lambda>(i, name). if int i = 0 then ''EL '' @ name else name) (enumerate (Suc k) xs) = xs" for k and xs :: "string list"
    by (induction xs arbitrary: k) simp_all
  show ?thesis using d same [of 0 others] by (cases others) (simp_all add: format_crew_def or_null_def)
qed

text \<open>
  The Einsatzleiter of a route is read out first and is the one marked, however many people share the name.
\<close>

theorem leader_is_read_out_first:
  fixes op res materials personText
  defines "d \<equiv> route_deployment op res materials personText"
  defines "crewIds \<equiv> map cm_personnelId (op_crew op) @ map gr_resource (gr_personnel res)"
  assumes "List.find (\<lambda>p. gr_isLeader p = Some True) (gr_personnel res) = Some p" and "distinct crewIds"
    and "gr_resource p \<noteq> []" and "personText (gr_name p) (Some (gr_resource p)) \<noteq> []"
  shows "\<exists>others. rd_crew d = personText (gr_name p) (Some (gr_resource p)) # others
      \<and> format_crew d = ''EL '' @ str_join '', '' (rd_crew d)"
proof -
  let ?crew = "map (\<lambda>m. (cm_personnelId m, cm_name m)) (op_crew op) @ map (\<lambda>p. (gr_resource p, gr_name p)) (gr_personnel res)"
  let ?label = "personText (gr_name p) (Some (gr_resource p))"
  let ?others = "map (\<lambda>(i, name). personText name (Some i)) (filter (\<lambda>m. fst m \<noteq> gr_resource p) ?crew)"
  have "p \<in> set (gr_personnel res)" using assms(3) find_SomeD by fastforce
  then have "(gr_resource p, gr_name p) \<in> set ?crew" by auto
  moreover have "distinct (map fst ?crew)" using assms(4) by (simp add: crewIds_def comp_def)
  ultimately have "sort_crew_by_leader (\<lambda>m. fst m = gr_resource p) ?crew = (gr_resource p, gr_name p) # filter (\<lambda>m. fst m \<noteq> gr_resource p) ?crew"
    by (rule leader_first [rotated])
  moreover have "is_leader_id (Some (gr_resource p)) \<circ> (fst :: ident \<times> string \<Rightarrow> ident) = (\<lambda>m. fst m = gr_resource p)"
    using assms(5) by (auto simp: is_leader_id_def or_null_def fun_eq_iff)
  ultimately have crew: "rd_crew d = ?label # ?others" and leader: "rd_leader d = Some ?label"
    using assms(3) by (simp_all add: d_def route_deployment_def Let_def)
  from format_leader_first [OF crew leader assms(6)] crew show ?thesis by simp
qed

theorem leader_is_read_out_first_witness:
  "\<exists>others. format_crew (route_deployment
      ((blank_card ''e'' Enroute)\<lparr>op_crew := [\<lparr>cm_personnelId = ''1'', cm_assignmentId = None, cm_name = ''Moser''\<rparr>]\<rparr>)
      \<lparr>gr_vehicles = [], gr_personnel = [\<lparr>gr_assignment = ''a'', gr_resource = ''2'', gr_name = ''Moser'', gr_driverStay = None,
         gr_isLeader = Some True, gr_location = None\<rparr>], gr_materials = []\<rparr> [] plain_name) = ''EL '' @ str_join '', '' (''Moser'' # others)"
proof -
  let ?p = "\<lparr>gr_assignment = ''a'', gr_resource = ''2'', gr_name = ''Moser'', gr_driverStay = None, gr_isLeader = Some True, gr_location = None\<rparr>"
  let ?res = "\<lparr>gr_vehicles = [], gr_personnel = [?p], gr_materials = []\<rparr>"
  let ?op = "(blank_card ''e'' Enroute)\<lparr>op_crew := [\<lparr>cm_personnelId = ''1'', cm_assignmentId = None, cm_name = ''Moser''\<rparr>]\<rparr>"
  have "\<exists>others. rd_crew (route_deployment ?op ?res [] plain_name) = plain_name (gr_name ?p) (Some (gr_resource ?p)) # others
      \<and> format_crew (route_deployment ?op ?res [] plain_name) = ''EL '' @ str_join '', '' (rd_crew (route_deployment ?op ?res [] plain_name))"
    by (rule leader_is_read_out_first) (simp_all add: plain_name_def)
  then obtain others where "rd_crew (route_deployment ?op ?res [] plain_name) = ''Moser'' # others"
    "format_crew (route_deployment ?op ?res [] plain_name) = ''EL '' @ str_join '', '' (rd_crew (route_deployment ?op ?res [] plain_name))"
    unfolding plain_name_def by auto
  then show ?thesis by (intro exI [of _ others]) (simp only:)
qed

section \<open>The dialogs\<close>

lemma frozen_run:
  "list_all (\<lambda>inp. ig_id (ri_group inp) = gid \<and> op_id (ri_operation inp) = oid) inps \<Longrightarrow>
     dialog_run t homeCity \<lparr>dl_frozen = Some f, dl_key = Some (gid @ '':'' @ oid)\<rparr> inps = replicate (length inps) (f, None)"
  by (induction inps) (simp_all add: dialog_effect_def shown_radio_def auftrag_radio_def Let_def)

text \<open>
  While the dialog of a dispatch is open, the announcement keeps the form it opened with and is written down once,
  in that form, whatever is assigned or noted meanwhile.
\<close>

theorem announcement_keeps_its_form:
  fixes t :: message_translate and homeCity :: string
  assumes "list_all (\<lambda>inp. ig_id (ri_group inp) = gid \<and> op_id (ri_operation inp) = oid) (inp # inps)"
  defines "first \<equiv> auftrag_radio t homeCity (inp\<lparr>ri_forceFull := None\<rparr>)"
  shows "dialog_run t homeCity (fst (dialog_effect t homeCity False before dl)) (inp # inps) =
    (au_full first, Some \<lparr>no_group = gid, no_fingerprint = au_fingerprint first, no_stop = oid, no_full = au_full first\<rparr>)
      # replicate (length inps) (au_full first, None)"
proof -
  have "dialog_effect t homeCity False before dl = (\<lparr>dl_frozen = None, dl_key = None\<rparr>, None)" by (simp add: dialog_effect_def)
  moreover have "dialog_effect t homeCity True (Some inp) \<lparr>dl_frozen = None, dl_key = None\<rparr> =
      (\<lparr>dl_frozen = Some (au_full first), dl_key = Some (gid @ '':'' @ oid)\<rparr>,
       Some \<lparr>no_group = gid, no_fingerprint = au_fingerprint first, no_stop = oid, no_full = au_full first\<rparr>)"
    using assms(1) by (simp add: dialog_effect_def shown_radio_def first_def Let_def)
  moreover have "au_full (shown_radio t homeCity \<lparr>dl_frozen = None, dl_key = None\<rparr> inp) = au_full first"
    by (simp add: shown_radio_def first_def)
  ultimately show ?thesis using frozen_run [of gid oid inps] assms(1) by simp
qed

theorem announcement_keeps_its_form_witness:
  "\<exists>inp. ig_stops (ri_group inp) = [''e''] \<and>
     map fst (dialog_run (\<lambda>k a. k) [] (fst (dialog_effect (\<lambda>k a. k) [] False None \<lparr>dl_frozen = None, dl_key = None\<rparr>))
       [inp, inp\<lparr>ri_group := note_announcement \<lparr>an_at = None, an_fingerprint = radio_fingerprint (route_deployment (ri_operation inp)
          (ri_resources inp) (ri_materials inp) (ri_personText inp)), an_stop = Some ''e'', an_full = True\<rparr> (ri_group inp)\<rparr>]) = [True, True]"
proof -
  let ?r = "\<lparr>ig_id = ''g'', ig_event = ''ev'', ig_name = ''Sturmholz'', ig_color = None, ig_notes = None, ig_position = 0,
      ig_created = None, ig_updated = None, ig_createdBy = None, ig_stops = [''e''], ig_assignments = [], ig_total = 1, ig_done = 0,
      ig_announced = None\<rparr>"
  let ?inp = "\<lparr>ri_group = ?r, ri_operation = blank_card ''e'' Enroute, ri_resources = \<lparr>gr_vehicles = [], gr_personnel = [], gr_materials = []\<rparr>,
      ri_operations = [], ri_materials = [], ri_funkrufname = ''Omega'', ri_fallbackAddress = [], ri_forceFull = None, ri_personText = plain_name\<rparr>"
  let ?later = "?inp\<lparr>ri_group := note_announcement \<lparr>an_at = None, an_fingerprint = radio_fingerprint (route_deployment (ri_operation ?inp)
          (ri_resources ?inp) (ri_materials ?inp) (ri_personText ?inp)), an_stop = Some ''e'', an_full = True\<rparr> (ri_group ?inp)\<rparr>"
  have "list_all (\<lambda>i. ig_id (ri_group i) = ''g'' \<and> op_id (ri_operation i) = ''e'') [?inp, ?later]" by (simp add: note_announcement_def)
  note run = announcement_keeps_its_form [OF this, of "\<lambda>k a. k" "[]" None "\<lparr>dl_frozen = None, dl_key = None\<rparr>"]
  have "au_full (auftrag_radio (\<lambda>k a. k) [] (?inp\<lparr>ri_forceFull := None\<rparr>))"
    by (simp add: auftrag_radio_def needs_full_announcement_def Let_def)
  with run show ?thesis by (intro exI [of _ ?inp]) simp
qed

text \<open>
  The stop of a dialog that was taken off the route meanwhile is announced without its dangers, though no danger is to be dropped because
  the form is short.
\<close>

theorem removed_stop_loses_its_danger:
  assumes "op_id (ri_operation inp) \<notin> set (ig_stops (ri_group inp))"
  shows "rt_special (announced_stop t homeCity inp) = None"
proof -
  have "find_index (\<lambda>i. i = j) xs = - 1" if "j \<notin> set xs" for j and xs :: "ident list"
    using that by (induction xs) auto
  from this [OF assms] have "find_index (\<lambda>i. i = op_id (ri_operation inp)) (ig_stops (ri_group inp)) = - 1" .
  then show ?thesis by (simp add: announced_stop_def Let_def)
qed

text \<open>
  A repeat whose stop has left the route speaks of the first stop of the route, finished or not, where the comment promises the
  first one still open.
\<close>

theorem repeat_may_name_a_finished_stop:
  assumes "ig_announced r = Some a" and "an_stop a = Some i" and "i \<notin> set (j # js)" and "ig_stops r = j # js"
  shows "repeat_stop r = Some j"
  using assms by (cases "i = []") (simp_all add: repeat_stop_def or_null_def)

end
