(* ===== verification/Shortcuts.thy ===== *)
theory Shortcuts
  imports IncidentActions Kanban JsText
begin

text \<open>
  The keyboard of the board: \<^verbatim>\<open>frontend/lib/hooks/use-kanban-shortcuts.ts\<close>,
  \<^verbatim>\<open>use-g-prefix-navigation.ts\<close>, \<^verbatim>\<open>use-global-navigation.ts\<close>,
  \<^verbatim>\<open>use-operation-detail-shortcuts.ts\<close>, \<^verbatim>\<open>lib/board-keyboard-nav.ts\<close> and
  \<^verbatim>\<open>lib/typing-target.ts\<close>. A key press carries what the handlers read off its target; the rendered cards and whether a menu is
  open are read off the page.
\<close>

section \<open>Key presses\<close>

datatype target_kind = NoElement | InputField string | TextArea | SelectField | OtherElement

record key_target =
  kt_kind :: target_kind
  kt_editable :: bool                          \<comment> \<open>\<^verbatim>\<open>isContentEditable\<close>\<close>
  kt_inEditable :: bool                        \<comment> \<open>inside an element with the attribute\<close>
  kt_role :: "string option"
  kt_activatable :: bool                       \<comment> \<open>inside a button, a link or the like\<close>
  kt_inTabs :: bool                            \<comment> \<open>inside a tab or a list of tabs\<close>
  kt_selection :: "(nat \<times> nat) option"        \<comment> \<open>the caret, where the field tells it\<close>
  kt_length :: nat

record key_press =
  ke_key :: string
  ke_code :: string
  ke_shift :: bool
  ke_ctrl :: bool
  ke_meta :: bool
  ke_alt :: bool
  ke_prevented :: bool
  ke_target :: key_target

definition is_typing_target :: "key_target \<Rightarrow> bool" where
  "is_typing_target t =
     (case kt_kind t of
        InputField _ \<Rightarrow> True | TextArea \<Rightarrow> True | SelectField \<Rightarrow> True | NoElement \<Rightarrow> False
      | OtherElement \<Rightarrow> kt_editable t \<or> kt_inEditable t \<or> kt_role t \<in> Some ` {''combobox'', ''listbox'', ''option''})"

definition is_activation_target :: "key_target \<Rightarrow> bool" where
  "is_activation_target t = (kt_kind t \<noteq> NoElement \<and> kt_activatable t)"

section \<open>Chords with G\<close>

definition g_prefix_shortcuts :: "(string \<times> string list \<times> string) list" where
  "g_prefix_shortcuts = [(''b'', [''k''], ''/''), (''m'', [], ''/map''), (''e'', [], ''/events''), (''s'', [], ''/settings''), (''h'', [], ''/help'')]"

definition g_prefix_targets :: "string \<rightharpoonup> string" where
  "g_prefix_targets = map_of (rev (concat (map (\<lambda>(key, aliases, path). map (\<lambda>k. (k, path)) (key # aliases)) g_prefix_shortcuts)))"

definition g_prefix_hint :: "string \<Rightarrow> string option" where
  "g_prefix_hint path = map_option (\<lambda>(key, _). ''G '' @ map (\<lambda>c. char_of ((of_char c :: nat) - 32)) key)
     (List.find (\<lambda>(_, _, p). p = path) g_prefix_shortcuts)"

record g_prefix =
  gp_active :: bool
  gp_timer :: bool

definition g_idle :: g_prefix where
  "g_idle = \<lparr>gp_active = False, gp_timer = False\<rparr>"

definition g_cancel :: "g_prefix \<Rightarrow> g_prefix \<times> bool" where
  "g_cancel g = (if \<not> gp_active g then (g, False) else (g_idle, True))"

definition g_timeout :: "g_prefix \<Rightarrow> g_prefix" where
  "g_timeout g = (if gp_timer g then g_idle else g)"

text \<open>\<open>Some\<close> when the key belonged to the chord: the next state and the page to go to.\<close>

definition g_handle_key :: "string option \<Rightarrow> key_press \<Rightarrow> g_prefix \<Rightarrow> (g_prefix \<times> string option) option" where
  "g_handle_key current e g =
     (if gp_active g
      then Some (g_idle, case g_prefix_targets (js_lower (ke_key e)) of
             None \<Rightarrow> None | Some target \<Rightarrow> if Some target \<noteq> current then Some target else None)
      else if ke_key e = ''g'' \<or> ke_key e = ''G'' then Some (\<lparr>gp_active = True, gp_timer = True\<rparr>, None)
      else None)"

section \<open>Arrows between cards\<close>

datatype board_direction = DirUp | DirDown | DirLeft | DirRight

definition direction_from_key :: "string \<Rightarrow> board_direction option" where
  "direction_from_key key = map_of [(''ArrowUp'', DirUp), (''ArrowDown'', DirDown), (''ArrowLeft'', DirLeft), (''ArrowRight'', DirRight)] key"

text \<open>The rendered columns, each with the id attribute of its cards.\<close>

definition read_columns :: "string option list list \<Rightarrow> ident list list" where
  "read_columns page = map (List.map_filter or_null) page"

definition locate_card :: "ident list list \<Rightarrow> ident \<Rightarrow> (nat \<times> nat) option" where
  "locate_card grid i =
     (case List.find (\<lambda>c. i \<in> set (grid ! c)) [0..<length grid] of
        None \<Rightarrow> None
      | Some c \<Rightarrow> map_option (\<lambda>r. (c, r)) (List.find (\<lambda>r. grid ! c ! r = i) [0..<length (grid ! c)]))"

definition card_at :: "ident list \<Rightarrow> int \<Rightarrow> ident option" where
  "card_at ids n = (if 0 \<le> n \<and> n < int (length ids) then Some (ids ! nat n) else None)"

definition sideways :: "ident list list \<Rightarrow> nat list \<Rightarrow> nat \<Rightarrow> ident option" where
  "sideways grid cs row =
     map_option (\<lambda>c. grid ! c ! min row (length (grid ! c) - 1)) (List.find (\<lambda>c. grid ! c \<noteq> []) cs)"

definition next_card_id :: "ident list list \<Rightarrow> ident option \<Rightarrow> board_direction \<Rightarrow> ident option" where
  "next_card_id grid from d =
     (case Option.bind (or_null from) (locate_card grid) of
        None \<Rightarrow> map_option hd (List.find (\<lambda>ids. ids \<noteq> []) grid)
      | Some (c, r) \<Rightarrow>
          (case d of
             DirUp \<Rightarrow> card_at (grid ! c) (int r - 1)
           | DirDown \<Rightarrow> card_at (grid ! c) (int r + 1)
           | DirLeft \<Rightarrow> sideways grid (rev [0..<c]) r
           | DirRight \<Rightarrow> sideways grid [c + 1..<length grid] r))"

definition move_selection :: "ident list list \<Rightarrow> ident option \<Rightarrow> board_direction \<Rightarrow> ident option" where
  "move_selection grid selected d =
     (case or_null (next_card_id grid selected d) of None \<Rightarrow> selected | Some i \<Rightarrow> Some i)"

section \<open>The keys of the board\<close>

record vehicle_shortcut =
  vs_key :: string
  vs_id :: ident

definition vehicle_shortcuts :: "api_vehicle list \<Rightarrow> vehicle_shortcut list" where
  "vehicle_shortcuts vehicles =
     map (\<lambda>v. \<lparr>vs_key = show_int (v_display_order v), vs_id = v_id v\<rparr>)
       (js_sort (\<lambda>a b. v_display_order a - v_display_order b) vehicles)"

datatype board_action =
    GoTo string
  | BlurField
  | OpenPalette
  | MoveSelection board_direction
  | ToggleZuFuss ident
  | ToggleVehicle ident ident bool
  | SetPriority ident priority
  | MoveRight ident
  | MoveLeft ident
  | RequestDelete ident
  | OpenDetail ident
  | RefreshBoard
  | FocusSearch | FocusPersonnel | FocusMaterial
  | ToggleVehicleFooter | OpenNewEmergency | ToggleAuftraege | TogglePrint | ToggleLinks | ToggleRapporte | ToggleFigures
  | WriteJournal | ToggleJournal | ToggleLeftSidebar | ToggleRightSidebar | ToggleSidePanel | SidePanelMap | ToggleNotifications

record shortcut_state =
  sk_modalOpen :: bool
  sk_menuOpen :: bool
  sk_hovered :: "ident option"
  sk_selected :: "ident option"
  sk_operations :: "operation list"
  sk_vehicles :: "vehicle_shortcut list"
  sk_mayWrite :: bool
  sk_path :: "string option"

definition shift_priority_by_code :: "string \<rightharpoonup> priority" where
  "shift_priority_by_code = map_of [(''Digit1'', Low), (''Digit2'', Medium), (''Digit3'', High)]"

definition shift_priority_keys :: "string \<rightharpoonup> priority" where
  "shift_priority_keys = map_of [(''1'', Low), (''!'', Low), (''2'', Medium), (''@'', Medium), (''3'', High), (''#'', High)]"

text \<open>What a branch comes to: its actions, and whether the browser's own meaning of the key is taken away.\<close>

type_synonym key_outcome = "board_action list \<times> bool"

definition find_card :: "shortcut_state \<Rightarrow> ident \<Rightarrow> operation option" where
  "find_card st i = List.find (\<lambda>o1. op_id o1 = i) (sk_operations st)"

text \<open>The branches that change a card.\<close>

definition change_command :: "shortcut_state \<Rightarrow> key_press \<Rightarrow> key_outcome option" where
  "change_command st e =
     (let selected = or_null (sk_selected st);
          vehicle = List.find (\<lambda>v. vs_key v = ke_key e) (sk_vehicles st);
          prio = (case shift_priority_by_code (ke_code e) of Some p \<Rightarrow> Some p | None \<Rightarrow> shift_priority_keys (ke_key e))
      in case selected of
           None \<Rightarrow> if ke_key e \<in> {''>'', ''.'', ''<'', '',''} then Some ([], True) else None
         | Some i \<Rightarrow>
             if ke_key e = ''0'' \<and> \<not> ke_shift e then Some ([ToggleZuFuss i], True)
             else if vehicle \<noteq> None
             then Some (case find_card st i of
                 None \<Rightarrow> ([], False)
               | Some o1 \<Rightarrow> ([ToggleVehicle (vs_id (the vehicle)) i (list_ex (\<lambda>v. ov_vehicleId v = vs_id (the vehicle)) (op_vehicles o1))], False))
             else if ke_shift e \<and> prio \<noteq> None then Some ([SetPriority i (the prio)], True)
             else if ke_key e \<in> {''>'', ''.''} then Some ([MoveRight i], True)
             else if ke_key e \<in> {''<'', '',''} then Some ([MoveLeft i], True)
             else None)"

definition bare_letter :: "string list \<Rightarrow> key_press \<Rightarrow> bool" where
  "bare_letter ks e = (ke_key e \<in> set ks \<and> \<not> ke_meta e \<and> \<not> ke_ctrl e)"

definition any_key :: "string list \<Rightarrow> key_press \<Rightarrow> bool" where
  "any_key ks e = (ke_key e \<in> set ks)"

text \<open>The branches with one key and one action, in the order of the code.\<close>

definition view_keys :: "shortcut_state \<Rightarrow> ((key_press \<Rightarrow> bool) \<times> board_action) list" where
  "view_keys st =
     [(\<lambda>e. any_key [''/''] e \<or> bare_letter [''s'', ''S''] e, FocusSearch), (bare_letter [''p'', ''P''], FocusPersonnel),
      (bare_letter [''m'', ''M''], FocusMaterial), (bare_letter [''f'', ''F''], ToggleVehicleFooter),
      (bare_letter [''n'', ''N''], OpenNewEmergency), (bare_letter [''a'', ''A''], ToggleAuftraege),
      (bare_letter [''d'', ''D''], TogglePrint), (bare_letter [''t'', ''T''], ToggleLinks),
      (bare_letter [''o'', ''O''], ToggleRapporte), (bare_letter [''z'', ''Z''], ToggleFigures),
      (\<lambda>e. bare_letter [''j'', ''J''] e \<and> ke_shift e \<and> sk_mayWrite st, WriteJournal), (bare_letter [''j'', ''J''], ToggleJournal),
      (any_key [''['', ''q'', ''Q''], ToggleLeftSidebar), (any_key ['']'', ''w'', ''W''], ToggleRightSidebar),
      (any_key [[CHR 0x5C], ''i'', ''I''], ToggleSidePanel), (bare_letter [''k'', ''K''], SidePanelMap),
      (bare_letter [''b'', ''B''], ToggleNotifications)]"

definition view_command :: "shortcut_state \<Rightarrow> key_press \<Rightarrow> key_outcome" where
  "view_command st e =
     (case List.find (\<lambda>row. fst row e) (view_keys st) of
        Some row \<Rightarrow> ([snd row], True)
      | None \<Rightarrow>
          if bare_letter [''e'', ''E''] e \<or> ke_key e = ''Enter'' \<and> \<not> is_activation_target (ke_target e)
          then (case or_null (case sk_hovered st of Some i \<Rightarrow> Some i | None \<Rightarrow> sk_selected st) of
                  None \<Rightarrow> ([], False)
                | Some i \<Rightarrow> (case find_card st i of None \<Rightarrow> ([], False) | Some o1 \<Rightarrow> ([OpenDetail (op_id o1)], True)))
          else if bare_letter [''r'', ''R'', ''F5''] e then ([RefreshBoard], True)
          else if ke_key e = ''Delete'' \<or> ke_key e = ''Backspace''
          then (case Option.bind (or_null (sk_selected st)) (find_card st) of
                  None \<Rightarrow> ([], False) | Some o1 \<Rightarrow> ([RequestDelete (op_id o1)], True))
          else ([], False))"

definition board_command :: "shortcut_state \<Rightarrow> key_press \<Rightarrow> key_outcome" where
  "board_command st e =
     (if ke_key e = ''?'' then ([OpenPalette], True)
      else case direction_from_key (ke_key e) of
          Some d \<Rightarrow>
            if \<not> ke_prevented e \<and> \<not> ke_alt e \<and> \<not> ke_ctrl e \<and> \<not> ke_meta e \<and> \<not> ke_shift e then ([MoveSelection d], True)
            else (case change_command st e of Some r \<Rightarrow> r | None \<Rightarrow> view_command st e)
        | None \<Rightarrow> (case change_command st e of Some r \<Rightarrow> r | None \<Rightarrow> view_command st e))"

definition navigate :: "string option \<Rightarrow> board_action list" where
  "navigate target = (case target of None \<Rightarrow> [] | Some path \<Rightarrow> [GoTo path])"

definition board_key :: "shortcut_state \<Rightarrow> key_press \<Rightarrow> g_prefix \<Rightarrow> g_prefix \<times> key_outcome" where
  "board_key st e g =
     (if ke_key e = ''Escape'' \<and> snd (g_cancel g) then (fst (g_cancel g), [], False)
      else if ke_key e = ''Escape'' \<and> (case kt_kind (ke_target e) of InputField _ \<Rightarrow> True | TextArea \<Rightarrow> True | _ \<Rightarrow> False)
      then (g, [BlurField], False)
      else if is_typing_target (ke_target e) \<or> sk_modalOpen st \<or> sk_menuOpen st then (g, [], False)
      else case g_handle_key (sk_path st) e g of
          Some (g', target) \<Rightarrow> (g', navigate target, True)
        | None \<Rightarrow> (g, board_command st e))"

section \<open>The chords elsewhere\<close>

definition own_handler_routes :: "string list" where
  "own_handler_routes = [''/'', ''/map'']"

definition excluded_prefixes :: "string list" where
  "excluded_prefixes = [''/feld'', ''/reko'', ''/check-in'', ''/alarm'', ''/display'', ''/login'', ''/auth'', ''/setup'']"

definition global_shortcuts_enabled :: "string option \<Rightarrow> bool" where
  "global_shortcuts_enabled pathname =
     (case or_null pathname of
        None \<Rightarrow> False
      | Some p \<Rightarrow> p \<notin> set own_handler_routes \<and> \<not> list_ex (\<lambda>pre. p = pre \<or> starts_with p (pre @ ''/'')) excluded_prefixes)"

definition global_key :: "string option \<Rightarrow> bool \<Rightarrow> key_press \<Rightarrow> g_prefix \<Rightarrow> g_prefix \<times> key_outcome" where
  "global_key path overlayOpen e g =
     (if \<not> global_shortcuts_enabled path then (g, [], False)
      else if ke_key e = ''Escape'' then (fst (g_cancel g), [], False)
      else if is_typing_target (ke_target e) \<or> overlayOpen then (g, [], False)
      else if ke_meta e \<or> ke_ctrl e \<or> ke_alt e then (g, [], False)
      else case g_handle_key path e g of
          Some (g', target) \<Rightarrow> (g', navigate target, True)
        | None \<Rightarrow> if ke_key e = ''?'' then (g, [OpenPalette], True) else (g, [], False))"

section \<open>The keys of the detail\<close>

text \<open>\<^verbatim>\<open>Number.parseInt(key, 10)\<close>: white space, a sign, the leading digits.\<close>

definition parse_int :: "string \<Rightarrow> int option" where
  "parse_int s =
     (let t = trim_start s; neg = (t \<noteq> [] \<and> hd t = CHR ''-''); signed = (t \<noteq> [] \<and> hd t \<in> set ''+-'');
          ds = takeWhile is_digit (if signed then tl t else t)
      in if ds = [] then None
         else Some ((if neg then - 1 else 1) * foldl (\<lambda>n c. 10 * n + int (of_char c - 48)) 0 ds))"

definition quick_vehicle :: "key_press \<Rightarrow> nat \<Rightarrow> nat option" where
  "quick_vehicle e fleetSize =
     (case parse_int (ke_key e) of
        None \<Rightarrow> None
      | Some n \<Rightarrow> if n - 1 \<ge> 0 \<and> n - 1 < 5 \<and> n - 1 < int fleetSize then Some (nat (n - 1)) else None)"

datatype detail_change =
    DetailPriority priority
  | DetailZuFuss bool
  | DetailAssign ident
  | DetailRemove ident

definition detail_key :: "operation option \<Rightarrow> api_vehicle list \<Rightarrow> bool \<Rightarrow> key_press \<Rightarrow> detail_change option" where
  "detail_key op fleet enabled e =
     (case op of
        None \<Rightarrow> None
      | Some o1 \<Rightarrow>
          if \<not> enabled \<or> is_typing_target (ke_target e) then None
          else if ke_shift e \<and> shift_priority_keys (ke_key e) \<noteq> None then Some (DetailPriority (the (shift_priority_keys (ke_key e))))
          else if ke_key e = ''0'' \<and> \<not> ke_shift e then Some (DetailZuFuss (\<not> op_zuFuss o1))
          else case quick_vehicle e (length fleet) of
              None \<Rightarrow> None
            | Some n \<Rightarrow> let v = v_id (fleet ! n)
                in Some (if list_ex (\<lambda>x. ov_vehicleId x = v) (op_vehicles o1) then DetailRemove v else DetailAssign v))"

datatype detail_tab = TabOverview | TabReko | TabRapport | TabHistory

definition operation_detail_tabs :: "detail_tab list" where
  "operation_detail_tabs = [TabOverview, TabReko, TabRapport, TabHistory]"

definition resolve_shortcut_tab :: "key_press \<Rightarrow> nat \<Rightarrow> detail_tab option" where
  "resolve_shortcut_tab e fleetSize =
     (if is_typing_target (ke_target e) then None
      else if ke_shift e \<and> shift_priority_keys (ke_key e) \<noteq> None then Some TabOverview
      else if ke_key e = ''0'' \<and> \<not> ke_shift e then Some TabOverview
      else if quick_vehicle e fleetSize \<noteq> None then Some TabOverview else None)"

text \<open>The tab each incident was left on: a bounded list, the latest first; a write that fails changes nothing.\<close>

definition tab_memory_limit :: nat where
  "tab_memory_limit = 40"

type_synonym tab_memory = "(ident \<times> detail_tab) list option"

definition read_remembered_tab :: "tab_memory \<Rightarrow> ident \<Rightarrow> detail_tab option" where
  "read_remembered_tab stored i = (case stored of None \<Rightarrow> None | Some es \<Rightarrow> map_option snd (List.find (\<lambda>en. fst en = i) es))"

definition remember_detail_tab :: "ident \<Rightarrow> detail_tab \<Rightarrow> bool \<Rightarrow> tab_memory \<Rightarrow> tab_memory" where
  "remember_detail_tab i tab writes stored =
     (if writes then Some (take tab_memory_limit ((i, tab) # filter (\<lambda>en. fst en \<noteq> i) (nullish stored []))) else stored)"

definition arrow_owning_roles :: "string set" where
  "arrow_owning_roles = {''combobox'', ''listbox'', ''menu'', ''menubar'', ''menuitem'', ''option'', ''radio'', ''radiogroup'', ''slider'',
     ''spinbutton'', ''tab'', ''tablist''}"

definition caret_input_types :: "string set" where
  "caret_input_types = {''text'', ''search'', ''tel'', ''url'', ''email'', ''password'', []}"

definition caret_owns_arrow :: "key_target \<Rightarrow> int \<Rightarrow> bool" where
  "caret_owns_arrow t step =
     (case kt_selection t of
        None \<Rightarrow> True
      | Some (a, b) \<Rightarrow> if a \<noteq> b then True else if step = - 1 then a > 0 else b < kt_length t)"

definition resolve_arrow_tab_step :: "key_press \<Rightarrow> int" where
  "resolve_arrow_tab_step e =
     (let t = ke_target e; step = (if ke_key e = ''ArrowLeft'' then - 1 else if ke_key e = ''ArrowRight'' then 1 else 0)
      in if ke_alt e \<or> ke_ctrl e \<or> ke_meta e \<or> ke_shift e then 0
         else if step = 0 then 0
         else case kt_kind t of
             NoElement \<Rightarrow> step
           | k \<Rightarrow>
               if or_str (kt_role t) [] \<in> arrow_owning_roles then 0
               else if kt_inTabs t then 0
               else if kt_editable t then 0
               else (case k of
                   TextArea \<Rightarrow> if caret_owns_arrow t step then 0 else step
                 | InputField type \<Rightarrow> if type \<notin> caret_input_types then 0 else if caret_owns_arrow t step then 0 else step
                 | _ \<Rightarrow> step))"

text \<open>The listener of the tabs, where the key was aimed at the detail.\<close>

definition tab_after :: "detail_tab \<Rightarrow> key_press \<Rightarrow> detail_tab option" where
  "tab_after tab e =
     (let step = resolve_arrow_tab_step e; n = find_index (\<lambda>x. x = tab) operation_detail_tabs + step
      in if step = 0 then None
         else if 0 \<le> n \<and> n < int (length operation_detail_tabs) then Some (operation_detail_tabs ! nat n) else None)"

section \<open>What a key can change\<close>

text \<open>The card an action changes; the others only show something.\<close>

fun changed_card :: "board_action \<Rightarrow> ident option" where
  "changed_card (ToggleZuFuss i) = Some i"
| "changed_card (ToggleVehicle v i a) = Some i"
| "changed_card (SetPriority i p) = Some i"
| "changed_card (MoveRight i) = Some i"
| "changed_card (MoveLeft i) = Some i"
| "changed_card (RequestDelete i) = Some i"
| "changed_card _ = None"

definition only_changes :: "ident option \<Rightarrow> board_action list \<Rightarrow> bool" where
  "only_changes selected acts = list_all (\<lambda>a. changed_card a \<in> {None, selected}) acts"

lemma change_command_selected: "change_command st e = Some r \<Longrightarrow> only_changes (or_null (sk_selected st)) (fst r) \<and> length (fst r) \<le> 1"
  by (auto simp: change_command_def only_changes_def Let_def split: option.splits if_splits)

lemma view_keys_show: "row \<in> set (view_keys st) \<Longrightarrow> changed_card (snd row) = None"
  by (auto simp: view_keys_def)

lemma find_card_id: "find_card st i = Some o1 \<Longrightarrow> op_id o1 = i"
  by (auto simp: find_card_def dest: find_SomeD)

lemma view_command_selected: "only_changes (or_null (sk_selected st)) (fst (view_command st e)) \<and> length (fst (view_command st e)) \<le> 1"
proof (cases "List.find (\<lambda>row. fst row e) (view_keys st)")
  case (Some row)
  then have "changed_card (snd row) = None" using find_SomeD view_keys_show by fastforce
  with Some show ?thesis by (simp add: view_command_def only_changes_def)
next
  case None
  then show ?thesis
    by (auto simp: view_command_def only_changes_def bind_eq_Some_conv dest: find_card_id split: option.splits if_splits)
qed

lemma board_command_selected: "only_changes (or_null (sk_selected st)) (fst (board_command st e)) \<and> length (fst (board_command st e)) \<le> 1"
proof -
  have "only_changes (or_null (sk_selected st)) (fst r) \<and> length (fst r) \<le> 1"
    if "r = (case change_command st e of Some r \<Rightarrow> r | None \<Rightarrow> view_command st e)" for r
    using that view_command_selected change_command_selected by (cases "change_command st e") auto
  then show ?thesis by (auto simp: board_command_def only_changes_def split: option.splits)
qed

text \<open>
  C6. A key changes nothing but the card that was clicked, and does one thing at most: whatever the pointer rests on, the
  board is only ever changed at the selected card, and with none selected not at all.
\<close>

theorem keys_change_the_selected_card:
  "list_all (\<lambda>a. changed_card a \<in> {None, or_null (sk_selected st)}) (fst (snd (board_key st e g)))
   \<and> length (fst (snd (board_key st e g))) \<le> 1"
proof -
  have "only_changes (or_null (sk_selected st)) (navigate t) \<and> length (navigate t) \<le> 1" for t
    by (cases t) (simp_all add: navigate_def only_changes_def)
  with board_command_selected [of st e] show ?thesis
    unfolding only_changes_def [symmetric] by (auto simp: board_key_def only_changes_def split: option.splits)
qed

text \<open>
  The keyboard stands down: while somebody types, or a dialog or a menu is open, a key does nothing on the board and
  starts no chord; only Escape still ends a chord or leaves the field.
\<close>

theorem keys_stand_down:
  assumes "is_typing_target (ke_target e) \<or> sk_modalOpen st \<or> sk_menuOpen st"
  shows "board_key st e g = (g, [], False)
    \<or> ke_key e = ''Escape'' \<and> (board_key st e g = (g_idle, [], False) \<or> board_key st e g = (g, [BlurField], False))"
  using assms by (auto simp: board_key_def g_cancel_def split: target_kind.splits)

text \<open>
  A chord is two keys: after G the next key is swallowed by the chord, whatever it is, and goes to its page or
  nowhere; no shortcut of the board runs with it, and the chord is over.
\<close>

theorem chord_swallows_the_second_key:
  assumes "\<not> is_typing_target (ke_target e)" and "\<not> sk_modalOpen st" and "\<not> sk_menuOpen st" and "ke_key e \<noteq> ''Escape''"
  shows "board_key st e \<lparr>gp_active = True, gp_timer = t\<rparr> =
    (g_idle, (case g_prefix_targets (js_lower (ke_key e)) of
        None \<Rightarrow> [] | Some page \<Rightarrow> if Some page = sk_path st then [] else [GoTo page]), True)"
  using assms by (simp add: board_key_def g_handle_key_def navigate_def split: option.splits)

theorem chord_swallows_the_second_key_witness:
  "board_key \<lparr>sk_modalOpen = False, sk_menuOpen = False, sk_hovered = None, sk_selected = Some ''e1'', sk_operations = [],
       sk_vehicles = [], sk_mayWrite = True, sk_path = Some ''/''\<rparr>
     \<lparr>ke_key = ''m'', ke_code = ''KeyM'', ke_shift = False, ke_ctrl = False, ke_meta = False, ke_alt = False, ke_prevented = False,
       ke_target = \<lparr>kt_kind = NoElement, kt_editable = False, kt_inEditable = False, kt_role = None, kt_activatable = False,
         kt_inTabs = False, kt_selection = None, kt_length = 0\<rparr>\<rparr> \<lparr>gp_active = True, gp_timer = True\<rparr> = (g_idle, [GoTo ''/map''], True)"
proof -
  have "g_prefix_targets (js_lower ''m'') = Some ''/map''" by code_simp
  then show ?thesis by (subst chord_swallows_the_second_key) (simp_all add: is_typing_target_def)
qed

theorem keys_stand_down_witness:
  "board_key \<lparr>sk_modalOpen = True, sk_menuOpen = False, sk_hovered = None, sk_selected = Some ''e1'', sk_operations = [],
       sk_vehicles = [], sk_mayWrite = True, sk_path = Some ''/''\<rparr>
     \<lparr>ke_key = ''0'', ke_code = ''Digit0'', ke_shift = False, ke_ctrl = False, ke_meta = False, ke_alt = False, ke_prevented = False,
       ke_target = \<lparr>kt_kind = NoElement, kt_editable = False, kt_inEditable = False, kt_role = None, kt_activatable = False,
         kt_inTabs = False, kt_selection = None, kt_length = 0\<rparr>\<rparr> g_idle = (g_idle, [], False)"
proof -
  let ?st = "\<lparr>sk_modalOpen = True, sk_menuOpen = False, sk_hovered = None, sk_selected = Some ''e1'', sk_operations = [],
       sk_vehicles = [], sk_mayWrite = True, sk_path = Some ''/''\<rparr>"
  let ?e = "\<lparr>ke_key = ''0'', ke_code = ''Digit0'', ke_shift = False, ke_ctrl = False, ke_meta = False, ke_alt = False, ke_prevented = False,
       ke_target = \<lparr>kt_kind = NoElement, kt_editable = False, kt_inEditable = False, kt_role = None, kt_activatable = False,
         kt_inTabs = False, kt_selection = None, kt_length = 0\<rparr>\<rparr>"
  show ?thesis using keys_stand_down [of ?e ?st g_idle] by simp
qed

section \<open>Every card is within reach of the arrows\<close>

lemma find_range:
  assumes "List.find P cs = Some c"
  shows "P c \<and> c \<in> set cs"
  using find_SomeD [OF assms] by simp

lemma column_unique:
  assumes "distinct (concat grid)" and "c < length grid" and "c' < length grid" and "i \<in> set (grid ! c)" and "i \<in> set (grid ! c')"
  shows "c' = c"
  using assms
proof (induction grid arbitrary: c c')
  case (Cons ids grid)
  have other: "i \<notin> set ids" if "i \<in> set (grid ! n)" "n < length grid" for n
    using that Cons.prems(1) by (auto dest: nth_mem)
  show ?case using Cons.IH Cons.prems other by (cases c; cases c') auto
qed simp

lemma located:
  assumes "distinct (concat grid)" and "c < length grid" and "r < length (grid ! c)"
  shows "locate_card grid (grid ! c ! r) = Some (c, r)"
proof -
  let ?i = "grid ! c ! r"
  have col: "distinct (grid ! c)" using assms(1,2) by (simp add: distinct_concat_iff)
  have "List.find (\<lambda>c'. ?i \<in> set (grid ! c')) [0..<length grid] = Some c"
  proof (cases "List.find (\<lambda>c'. ?i \<in> set (grid ! c')) [0..<length grid]")
    case None
    then have "?i \<notin> set (grid ! c)" using assms(2) by (simp add: find_None_iff2)
    with assms(3) show ?thesis by simp
  next
    case (Some c')
    from find_range [OF Some] have "?i \<in> set (grid ! c')" "c' < length grid" by simp_all
    then have "c' = c" using column_unique [OF assms(1,2), of c' ?i] assms(3) by simp
    with Some show ?thesis by simp
  qed
  moreover have "List.find (\<lambda>r'. grid ! c ! r' = ?i) [0..<length (grid ! c)] = Some r"
  proof (cases "List.find (\<lambda>r'. grid ! c ! r' = ?i) [0..<length (grid ! c)]")
    case None
    then show ?thesis using assms(3) by (auto simp: find_None_iff2)
  next
    case (Some r')
    with find_range [OF Some] col assms(3) show ?thesis by (auto simp: nth_eq_iff_index_eq)
  qed
  ultimately show ?thesis by (simp add: locate_card_def)
qed

text \<open>A page with each card once.\<close>

definition proper_grid :: "ident list list \<Rightarrow> bool" where
  "proper_grid grid \<longleftrightarrow> distinct (concat grid) \<and> list_all (list_all (\<lambda>i. i \<noteq> [])) grid"

definition walk :: "ident list list \<Rightarrow> ident option \<Rightarrow> board_direction list \<Rightarrow> ident option" where
  "walk grid selected ds = foldl (move_selection grid) selected ds"

definition leads :: "ident list list \<Rightarrow> ident option \<Rightarrow> ident \<Rightarrow> bool" where
  "leads grid selected i \<longleftrightarrow> (\<exists>ds. walk grid selected ds = Some i)"

lemma leads_step: "leads grid (move_selection grid s d) i \<Longrightarrow> leads grid s i"
  unfolding leads_def walk_def by (metis foldl_Cons)

lemma leads_trans: "leads grid s j \<Longrightarrow> leads grid (Some j) i \<Longrightarrow> leads grid s i"
  unfolding leads_def walk_def by (metis foldl_append)

lemma leads_refl: "leads grid (Some i) i"
  unfolding leads_def walk_def by (intro exI [of _ "[]"]) simp

lemma card_not_empty: "proper_grid grid \<Longrightarrow> c < length grid \<Longrightarrow> r < length (grid ! c) \<Longrightarrow> grid ! c ! r \<noteq> []"
  by (auto simp: proper_grid_def list_all_length)

lemma step_to:
  assumes "proper_grid grid" and "c < length grid" and "r < length (grid ! c)"
    and "(case d of DirUp \<Rightarrow> card_at (grid ! c) (int r - 1) | DirDown \<Rightarrow> card_at (grid ! c) (int r + 1)
      | DirLeft \<Rightarrow> sideways grid (rev [0..<c]) r | DirRight \<Rightarrow> sideways grid [c + 1..<length grid] r) = Some j" and "j \<noteq> []"
  shows "move_selection grid (Some (grid ! c ! r)) d = Some j"
proof -
  have "locate_card grid (grid ! c ! r) = Some (c, r)" using assms(1-3) located by (simp add: proper_grid_def)
  moreover have "or_null (Some (grid ! c ! r)) = Some (grid ! c ! r)" using card_not_empty [OF assms(1-3)] by (simp add: or_null_def)
  ultimately have "next_card_id grid (Some (grid ! c ! r)) d = Some j" using assms(4) by (simp add: next_card_id_def)
  with assms(5) show ?thesis by (simp add: move_selection_def or_null_def)
qed

lemma up_to_top:
  assumes "proper_grid grid" and "c < length grid" and "r < length (grid ! c)"
  shows "leads grid (Some (grid ! c ! r)) (grid ! c ! 0)"
  using assms(3)
proof (induction r)
  case (Suc r)
  have "card_at (grid ! c) (int (Suc r) - 1) = Some (grid ! c ! r)" using Suc.prems by (simp add: card_at_def)
  then have "move_selection grid (Some (grid ! c ! Suc r)) DirUp = Some (grid ! c ! r)"
    using step_to [OF assms(1,2) Suc.prems, of DirUp] card_not_empty [OF assms(1,2)] Suc.prems by simp
  with Suc show ?case using leads_step [of grid _ DirUp] by simp
qed (rule leads_refl)

lemma down_from_top:
  assumes "proper_grid grid" and "c < length grid" and "r < length (grid ! c)"
  shows "leads grid (Some (grid ! c ! 0)) (grid ! c ! r)"
  using assms(3)
proof (induction r)
  case (Suc r)
  have "card_at (grid ! c) (int r + 1) = Some (grid ! c ! Suc r)" using Suc.prems by (simp add: card_at_def nat_add_distrib)
  then have "move_selection grid (Some (grid ! c ! r)) DirDown = Some (grid ! c ! Suc r)"
    using step_to [OF assms(1,2), of r DirDown] card_not_empty [OF assms(1,2) Suc.prems] Suc.prems by simp
  then have "leads grid (Some (grid ! c ! r)) (grid ! c ! Suc r)" using leads_step [of grid _ DirDown] leads_refl by simp
  with Suc show ?case using leads_trans by simp
qed (rule leads_refl)

lemma side_step:
  assumes "proper_grid grid" and "c < length grid" and "grid ! c \<noteq> []"
    and "List.find (\<lambda>c. grid ! c \<noteq> []) cs = Some c'" and "set cs \<subseteq> {0..<length grid}"
    and "d = DirLeft \<and> cs = rev [0..<c] \<or> d = DirRight \<and> cs = [c + 1..<length grid]"
  shows "leads grid (Some (grid ! c ! 0)) (grid ! c' ! 0)"
proof -
  have c': "grid ! c' \<noteq> []" "c' < length grid" using find_range [OF assms(4)] assms(5) by auto
  then have "sideways grid cs 0 = Some (grid ! c' ! 0)" using assms(4) by (simp add: sideways_def)
  moreover have "grid ! c' ! 0 \<noteq> []" using card_not_empty [OF assms(1) c'(2), of 0] c'(1) by simp
  ultimately have "move_selection grid (Some (grid ! c ! 0)) d = Some (grid ! c' ! 0)"
    using assms(6) step_to [OF assms(1,2), of 0 d] assms(3) by auto
  then show ?thesis using leads_step [of grid "Some (grid ! c ! 0)" d] leads_refl by simp
qed

lemma reach_right:
  "proper_grid grid \<Longrightarrow> t < length grid \<Longrightarrow> grid ! t \<noteq> [] \<Longrightarrow> c \<le> t \<Longrightarrow> grid ! c \<noteq> [] \<Longrightarrow>
     leads grid (Some (grid ! c ! 0)) (grid ! t ! 0)"
proof (induction "t - c" arbitrary: c rule: less_induct)
  case less
  show ?case
  proof (cases "c = t")
    case False
    obtain c' where c': "List.find (\<lambda>c. grid ! c \<noteq> []) [c + 1..<length grid] = Some c'" "c < c'" "c' \<le> t"
    proof -
      obtain c' where f: "List.find (\<lambda>c. grid ! c \<noteq> []) [c + 1..<length grid] = Some c'"
        using less.prems False by (cases "List.find (\<lambda>c. grid ! c \<noteq> []) [c + 1..<length grid]") (auto simp: find_None_iff2)
      then obtain k where k: "k < length [c + 1..<length grid]" "c' = [c + 1..<length grid] ! k"
        "\<forall>j<k. grid ! ([c + 1..<length grid] ! j) = []" by (auto simp: find_Some_iff)
      have "c' \<le> t"
      proof (rule ccontr)
        assume "\<not> c' \<le> t"
        with k less.prems False have "t - (c + 1) < k" "[c + 1..<length grid] ! (t - (c + 1)) = t" by auto
        with k(3) less.prems(3) show False by metis
      qed
      with f k show thesis by (intro that) auto
    qed
    have "leads grid (Some (grid ! c ! 0)) (grid ! c' ! 0)"
      using less.prems c' by (intro side_step [where cs = "[c + 1..<length grid]" and d = DirRight]) auto
    moreover have "grid ! c' \<noteq> []" using find_range [OF c'(1)] by simp
    then have "leads grid (Some (grid ! c' ! 0)) (grid ! t ! 0)" using less.hyps [of c'] less.prems c' by simp
    ultimately show ?thesis by (rule leads_trans)
  qed (simp add: leads_refl)
qed

lemma reach_left:
  "proper_grid grid \<Longrightarrow> c < length grid \<Longrightarrow> grid ! t \<noteq> [] \<Longrightarrow> t \<le> c \<Longrightarrow> grid ! c \<noteq> [] \<Longrightarrow>
     leads grid (Some (grid ! c ! 0)) (grid ! t ! 0)"
proof (induction c rule: less_induct)
  case (less c)
  show ?case
  proof (cases "c = t")
    case False
    obtain c' where c': "List.find (\<lambda>c. grid ! c \<noteq> []) (rev [0..<c]) = Some c'" "c' < c" "t \<le> c'"
    proof -
      obtain c' where f: "List.find (\<lambda>c. grid ! c \<noteq> []) (rev [0..<c]) = Some c'"
        using less.prems False by (cases "List.find (\<lambda>c. grid ! c \<noteq> []) (rev [0..<c])") (auto simp: find_None_iff2)
      then obtain k where k: "k < c" "c' = rev [0..<c] ! k" "\<forall>j<k. grid ! (rev [0..<c] ! j) = []"
        by (auto simp: find_Some_iff)
      have "t \<le> c'"
      proof (rule ccontr)
        assume "\<not> t \<le> c'"
        with k less.prems False have "c - 1 - t < k" "rev [0..<c] ! (c - 1 - t) = t" by (auto simp: rev_nth)
        with k(3) less.prems(3) show False by metis
      qed
      with f k show thesis by (intro that) (auto simp: rev_nth)
    qed
    have "leads grid (Some (grid ! c ! 0)) (grid ! c' ! 0)"
      using less.prems c' by (intro side_step [where cs = "rev [0..<c]" and d = DirLeft]) auto
    moreover have "grid ! c' \<noteq> []" using find_range [OF c'(1)] by simp
    then have "leads grid (Some (grid ! c' ! 0)) (grid ! t ! 0)" using less.IH [of c'] less.prems c' by simp
    ultimately show ?thesis by (rule leads_trans)
  qed (simp add: leads_refl)
qed

lemma located_SomeD:
  assumes "locate_card grid i = Some (c, r)"
  shows "c < length grid \<and> r < length (grid ! c) \<and> grid ! c ! r = i"
  using assms by (auto simp: locate_card_def dest!: find_range split: option.splits)

text \<open>
  C11. Every card is within reach of the arrow keys: from any selection, from none and from one whose card is no longer
  drawn, some presses lead to any card on the page.
\<close>

theorem arrows_reach_every_card:
  assumes "proper_grid grid" and "t < length grid" and "r < length (grid ! t)"
  shows "\<exists>ds. walk grid selected ds = Some (grid ! t ! r)"
proof -
  have target: "grid ! t \<noteq> []" using assms(3) by auto
  have from_top: "leads grid (Some (grid ! c ! 0)) (grid ! t ! r)" if "c < length grid" "grid ! c \<noteq> []" for c
  proof (rule leads_trans [OF _ down_from_top [OF assms]])
    show "leads grid (Some (grid ! c ! 0)) (grid ! t ! 0)"
      using reach_right [OF assms(1,2) target, of c] reach_left [OF assms(1) that(1) target] that by (cases "c \<le> t") simp_all
  qed
  have "leads grid selected (grid ! t ! r)"
  proof (cases "Option.bind (or_null selected) (locate_card grid)")
    case None
    let ?first = "List.find (\<lambda>ids. ids \<noteq> []) grid"
    obtain ids where ids: "?first = Some ids"
      using assms(2) target by (cases ?first) (auto simp: find_None_iff2 dest: nth_mem)
    from find_range [OF ids] obtain c where c: "c < length grid" "grid ! c = ids" "ids \<noteq> []" by (auto simp: in_set_conv_nth)
    have "move_selection grid selected DirDown = Some (grid ! c ! 0)"
      using None ids c card_not_empty [OF assms(1) c(1), of 0] by (simp add: move_selection_def next_card_id_def or_null_def hd_conv_nth)
    with from_top [OF c(1)] c show ?thesis using leads_step [of grid selected DirDown] by simp
  next
    case (Some cr)
    obtain c q where cr: "cr = (c, q)" by (cases cr)
    with Some obtain i where i: "selected = Some i" "locate_card grid i = Some (c, q)"
      by (auto simp: bind_eq_Some_conv or_null_def split: option.splits if_splits)
    note at = located_SomeD [OF i(2)]
    then have "leads grid selected (grid ! c ! 0)" using up_to_top [OF assms(1), of c q] i by simp
    moreover from at have "grid ! c \<noteq> []" by auto
    ultimately show ?thesis using from_top [of c] at leads_trans by blast
  qed
  then show ?thesis by (simp add: leads_def)
qed

theorem arrows_reach_every_card_witness:
  "\<exists>ds. walk [[''a''], [], [''b'', ''c'']] None ds = Some ''c''"
proof -
  have "proper_grid [[''a''], [], [''b'', ''c'']]" by (simp add: proper_grid_def)
  from arrows_reach_every_card [OF this, of 2 1 None] show ?thesis by (simp add: numeral_2_eq_2)
qed

section \<open>The detail follows its own keys\<close>

text \<open>
  The detail brings forward the tab that holds what a key of it changes: a press of a key moves the view exactly when it
  changes the incident.
\<close>

theorem tab_follows_the_change:
  "(detail_key (Some o1) fleet True e \<noteq> None) = (resolve_shortcut_tab e (length fleet) = Some TabOverview)"
  by (auto simp: detail_key_def resolve_shortcut_tab_def Let_def split: option.splits)

text \<open>
  The keys of the board are others: beside the detail panel it is the board that listens, and it knows the digit by its place on the
  keyboard, so on a Swiss layout Shift and 1 changes the priority while the detail stays on its tab.
\<close>

theorem swiss_priority_is_not_shown:
  assumes "sk_selected st = Some i" and "i \<noteq> []" and "\<not> sk_modalOpen st" and "\<not> sk_menuOpen st" and "list_all (\<lambda>v. vs_key v \<noteq> ''+'') (sk_vehicles st)"
    and "ke_key e = ''+''" and "ke_code e = ''Digit1''" and "ke_shift e" and "\<not> is_typing_target (ke_target e)" and "\<not> gp_active g"
  shows "fst (snd (board_key st e g)) = [SetPriority i Low]" and "resolve_shortcut_tab e n = None"
proof -
  have vehicle: "List.find (\<lambda>v. vs_key v = ''+'') (sk_vehicles st) = None" using assms(5) by (simp add: find_None_iff2 list_all_iff)
  have "board_command st e = ([SetPriority i Low], True)"
    using assms vehicle by (simp add: board_command_def direction_from_key_def change_command_def or_null_def shift_priority_by_code_def)
  with assms show "fst (snd (board_key st e g)) = [SetPriority i Low]"
    by (simp add: board_key_def g_cancel_def g_handle_key_def)
  have "parse_int ''+'' = None" by code_simp
  with assms show "resolve_shortcut_tab e n = None"
    by (simp add: resolve_shortcut_tab_def shift_priority_keys_def quick_vehicle_def)
qed

text \<open>
  Control and 0, which the browser takes to reset its zoom, sets the squad on foot; Control and G, the browser's search, starts a chord.
\<close>

theorem browser_chords_are_taken:
  assumes "sk_selected st = Some i" and "i \<noteq> []" and "\<not> sk_modalOpen st" and "\<not> sk_menuOpen st"
    and "ke_ctrl e" and "\<not> ke_shift e" and "\<not> is_typing_target (ke_target e)" and "\<not> gp_active g"
  shows "ke_key e = ''0'' \<Longrightarrow> board_key st e g = (g, [ToggleZuFuss i], True)"
    and "ke_key e = ''g'' \<Longrightarrow> board_key st e g = (\<lparr>gp_active = True, gp_timer = True\<rparr>, [], True)"
  using assms by (simp_all add: board_key_def g_cancel_def g_handle_key_def board_command_def direction_from_key_def change_command_def or_null_def navigate_def)

section \<open>The tab an incident was left on\<close>

text \<open>The incidents of a run of visits, the latest first, each with the tab of its last visit.\<close>

fun latest_tabs :: "(ident \<times> detail_tab) list \<Rightarrow> (ident \<times> detail_tab) list" where
  "latest_tabs [] = []"
| "latest_tabs (v # visits) = v # filter (\<lambda>en. fst en \<noteq> fst v) (latest_tabs visits)"

definition visit :: "tab_memory \<Rightarrow> ident \<times> detail_tab \<Rightarrow> tab_memory" where
  "visit m v = remember_detail_tab (fst v) (snd v) True m"

lemma latest_distinct: "distinct (map fst (latest_tabs visits))"
proof (induction visits)
  case (Cons v visits)
  then show ?case by (auto simp: distinct_map inj_on_def)
qed simp

lemma take_filter_one:
  "distinct (map fst es) \<Longrightarrow> take n (filter (\<lambda>en. fst en \<noteq> i) (take (Suc n) es)) = take n (filter (\<lambda>en. fst en \<noteq> i) es)"
proof (induction es arbitrary: n)
  case (Cons en es)
  show ?case
  proof (cases "fst en = i")
    case True
    then have none: "\<forall>x\<in>set es. fst x \<noteq> i" using Cons.prems by (force simp: image_iff)
    then have "filter (\<lambda>en. fst en \<noteq> i) es = es" "filter (\<lambda>en. fst en \<noteq> i) (take n es) = take n es"
      by (auto simp: filter_id_conv dest: in_set_takeD)
    with True show ?thesis by simp
  next
    case False
    with Cons.IH [of "n - 1"] Cons.prems show ?thesis by (cases n) simp_all
  qed
qed simp

lemma latest_tab: "map_of (latest_tabs visits) = map_of visits"
proof (induction visits)
  case (Cons v visits)
  have "map_of (filter (\<lambda>en. fst en \<noteq> fst v) es) i = (if i = fst v then None else map_of es i)" for es :: "(ident \<times> detail_tab) list" and i
    by (induction es) auto
  with Cons show ?case by (cases v) (auto simp: fun_eq_iff)
qed simp

lemma memory_run:
  "foldl visit None visits = (if visits = [] then None else Some (take tab_memory_limit (latest_tabs (rev visits))))"
proof (induction visits rule: rev_induct)
  case (snoc v visits)
  have cut: "take tab_memory_limit (v # filter (\<lambda>en. fst en \<noteq> fst v) (take tab_memory_limit es))
      = take tab_memory_limit (v # filter (\<lambda>en. fst en \<noteq> fst v) es)" if "distinct (map fst es)" for es
    using take_filter_one [OF that, of 39 "fst v"] by (simp add: tab_memory_limit_def numeral_eq_Suc)
  show ?case using snoc cut [OF latest_distinct, of "rev visits"]
    by (cases v) (auto simp: visit_def remember_detail_tab_def)
qed simp

lemma find_map_of: "map_option snd (List.find (\<lambda>en. fst en = i) es) = map_of es i"
  by (induction es) auto

text \<open>
  The memory never holds more than forty incidents, each once, and while no more than that were visited it gives back
  the tab every incident was last left on.
\<close>

theorem tab_memory_is_bounded_and_right:
  "case foldl visit None visits of None \<Rightarrow> visits = []
     | Some es \<Rightarrow> length es \<le> 40 \<and> distinct (map fst es) \<and>
         (length (latest_tabs (rev visits)) > 40 \<or> (\<forall>i. read_remembered_tab (Some es) i = map_of (rev visits) i))"
proof (cases "visits = []")
  case False
  have "distinct (map fst (take tab_memory_limit (latest_tabs (rev visits))))"
    using latest_distinct by (metis distinct_take take_map)
  moreover have "read_remembered_tab (Some (take tab_memory_limit (latest_tabs (rev visits)))) i = map_of (rev visits) i"
    if "\<not> length (latest_tabs (rev visits)) > 40" for i
    using that latest_tab [of "rev visits"] by (simp add: read_remembered_tab_def find_map_of tab_memory_limit_def)
  ultimately show ?thesis using False by (auto simp: memory_run tab_memory_limit_def)
qed simp

end
