(* ===== verification/FieldDesk.thy ===== *)
theory FieldDesk
  imports Messages IncidentActions JsText
begin

text \<open>
  The four reports of a crew in the field: \<^verbatim>\<open>frontend/lib/feld-delivery.ts\<close>, \<^verbatim>\<open>lib/field-requests.ts\<close> and
  the handlers of \<^verbatim>\<open>components/feld/feld-actions.tsx\<close> as one machine. A request in flight is an entry of a list; its answer
  is an event.
\<close>

section \<open>Delivery\<close>

datatype feld_action_kind = FkArrived | FkComplete | FkPickup | FkMessage

datatype delivery_state =
    Idle
  | Pending feld_action_kind string nat
  | Sent feld_action_kind string nat
  | Failed feld_action_kind string nat

datatype delivery_event =
    DeliverySend feld_action_kind string nat
  | DeliverySettled bool nat
  | DeliveryClear

fun delivery_reducer :: "delivery_state \<Rightarrow> delivery_event \<Rightarrow> delivery_state" where
  "delivery_reducer d (DeliverySend a l n) = Pending a l n"
| "delivery_reducer d (DeliverySettled ok n) =
     (case d of
        Pending a l m \<Rightarrow> if m \<noteq> n then d else if ok then Sent a l m else Failed a l m
      | _ \<Rightarrow> d)"
| "delivery_reducer d DeliveryClear = Idle"

definition is_busy :: "delivery_state \<Rightarrow> feld_action_kind option \<Rightarrow> bool" where
  "is_busy d a = (case d of Pending b _ _ \<Rightarrow> a = None \<or> a = Some b | _ \<Rightarrow> False)"

section \<open>Requests\<close>

datatype request_kind = RkMessage | RkMaterial | RkPersonnel | RkPickup | RkOther
datatype request_status = RsOpen | RsInProgress | RsDone

record field_ask =
  fq_kind :: request_kind
  fq_item :: "string option"
  fq_quantity :: "int option"
  fq_text :: "string option"
  fq_label :: string
  fq_status :: request_status
  fq_seenAt :: "string option"
  fq_notification :: "ident option"

definition is_open_request :: "request_status \<Rightarrow> bool" where
  "is_open_request s = (s = RsOpen \<or> s = RsInProgress)"

text \<open>The dash before the note is beyond the model's characters; a hyphen stands for it.\<close>

definition field_request_label ::
  "request_kind \<Rightarrow> string option \<Rightarrow> int option \<Rightarrow> string option \<Rightarrow> string \<Rightarrow> message_translate \<Rightarrow> string" where
  "field_request_label kind itm qty txt label t =
     (let note = js_trim (nullish txt []); what = js_trim (nullish itm []);
          n = (case qty of Some q \<Rightarrow> if q = 0 then None else Some q | None \<Rightarrow> None);
          joined = (\<lambda>ps. str_join '' '' (filter (\<lambda>p. p \<noteq> []) ps));
          close = (\<lambda>head. if note \<noteq> [] then head @ '' - '' @ note else head)
      in case kind of
           RkMessage \<Rightarrow> if note \<noteq> [] then note else label
         | RkMaterial \<Rightarrow>
             close (let w = joined [what, (case n of Some q \<Rightarrow> if what \<noteq> [] then t ''times'' [(''count'', MessageNumber q)] else show_int q | None \<Rightarrow> [])]
                    in if w \<noteq> [] then t ''material'' [(''what'', MessageText w)] else t ''materialEmpty'' [])
         | RkPersonnel \<Rightarrow>
             close (let w = joined [(case n of Some q \<Rightarrow> t ''people'' [(''count'', MessageNumber q)] | None \<Rightarrow> []), what]
                    in if w \<noteq> [] then t ''personnel'' [(''what'', MessageText w)] else t ''personnelEmpty'' [])
         | RkPickup \<Rightarrow> close (t ''pickup'' [])
         | RkOther \<Rightarrow> label)"

definition field_request_status_label :: "request_status \<Rightarrow> message_translate \<Rightarrow> string" where
  "field_request_status_label s t =
     (case s of RsInProgress \<Rightarrow> t ''statusInProgress'' [] | RsDone \<Rightarrow> t ''statusDone'' [] | RsOpen \<Rightarrow> t ''statusOpen'' [])"

datatype assign_target = TargetMaterials "string option" | TargetCrew

definition assign_target_for :: "request_kind \<Rightarrow> string option \<Rightarrow> assign_target option" where
  "assign_target_for kind itm =
     (case kind of
        RkMaterial \<Rightarrow> Some (TargetMaterials (or_null (map_option js_trim itm)))
      | RkPersonnel \<Rightarrow> Some TargetCrew
      | _ \<Rightarrow> None)"

datatype field_side_state = SideSent | SideSeen | SideInProgress | SideDone

definition field_side_state_of :: "request_status \<Rightarrow> string option \<Rightarrow> field_side_state" where
  "field_side_state_of s seen =
     (case s of RsDone \<Rightarrow> SideDone | RsInProgress \<Rightarrow> SideInProgress | RsOpen \<Rightarrow> (case or_null seen of Some _ \<Rightarrow> SideSeen | None \<Rightarrow> SideSent))"

definition represented_notification_ids :: "field_ask list \<Rightarrow> ident list" where
  "represented_notification_ids rs =
     remdups (List.map_filter (\<lambda>r. if is_open_request (fq_status r) then or_null (fq_notification r) else None) rs)"

section \<open>The actions of the crew\<close>

datatype feld_panel =
  PanelNone | PanelConfirmArrived | PanelConfirmComplete | PanelPickupFollowup | PanelPickup | PanelMessage | PanelMaterial | PanelPersonnel

text \<open>The request a tap builds, with the phone's own id where it has one.\<close>

datatype feld_call =
    CallArrived
  | CallComplete
  | CallPickup bool "string option"
  | CallMessage string ident
  | CallAsk request_kind "string option" int string ident

text \<open>What the handler does once its request is delivered; a repeat has no handler.\<close>

datatype feld_after = AfterNothing | AfterComplete | AfterPickup | AfterMessage | AfterAsk

record feld_desk =
  fd_delivery :: delivery_state
  fd_panel :: feld_panel
  fd_note :: string
  fd_message :: string
  fd_askItem :: string
  fd_askQuantity :: int
  fd_askNote :: string
  fd_attempt :: nat
  fd_retry :: "(feld_action_kind \<times> string \<times> feld_call) option"
  fd_flight :: "(nat \<times> feld_call \<times> feld_after) list"
  fd_log :: "(nat \<times> feld_call) list"            \<comment> \<open>every request sent\<close>
  fd_reported :: nat                              \<comment> \<open>server states handed up\<close>
  fd_reloads :: nat

definition fresh_desk :: "string option \<Rightarrow> feld_desk" where
  "fresh_desk pickupNote =
     \<lparr>fd_delivery = Idle, fd_panel = PanelNone, fd_note = nullish pickupNote [], fd_message = [], fd_askItem = [], fd_askQuantity = 1,
      fd_askNote = [], fd_attempt = 0, fd_retry = None, fd_flight = [], fd_log = [], fd_reported = 0, fd_reloads = 0\<rparr>"

definition run_report :: "feld_action_kind \<Rightarrow> string \<Rightarrow> feld_call \<Rightarrow> feld_after \<Rightarrow> feld_desk \<Rightarrow> feld_desk" where
  "run_report which label call after s =
     (let n = fd_attempt s + 1
      in s\<lparr>fd_attempt := n, fd_retry := Some (which, label, call),
           fd_delivery := delivery_reducer (fd_delivery s) (DeliverySend which label n),
           fd_flight := fd_flight s @ [(n, call, after)], fd_log := fd_log s @ [(n, call)]\<rparr>)"

definition handle_arrived :: "message_translate \<Rightarrow> feld_desk \<Rightarrow> feld_desk" where
  "handle_arrived t s = run_report FkArrived (t ''arrived'' []) CallArrived AfterNothing (s\<lparr>fd_panel := PanelNone\<rparr>)"

definition handle_complete :: "message_translate \<Rightarrow> feld_desk \<Rightarrow> feld_desk" where
  "handle_complete t s = run_report FkComplete (t ''complete'' []) CallComplete AfterComplete (s\<lparr>fd_panel := PanelNone\<rparr>)"

definition handle_pickup :: "message_translate \<Rightarrow> bool \<Rightarrow> feld_desk \<Rightarrow> feld_desk" where
  "handle_pickup t needed s =
     run_report FkPickup (if needed then t ''needPickup'' [] else t ''selfReturn'' [])
       (CallPickup needed (if needed then Some (fd_note s) else None)) AfterPickup s"

definition handle_message :: "string \<Rightarrow> ident \<Rightarrow> feld_desk \<Rightarrow> feld_desk" where
  "handle_message text uuid s =
     (let trimmed = js_trim text in if trimmed = [] then s else run_report FkMessage trimmed (CallMessage trimmed uuid) AfterMessage s)"

definition open_ask :: "bool \<Rightarrow> feld_desk \<Rightarrow> feld_desk" where
  "open_ask material s =
     s\<lparr>fd_askItem := [], fd_askNote := [], fd_askQuantity := (if material then 1 else 2),
       fd_panel := (if material then PanelMaterial else PanelPersonnel)\<rparr>"

definition handle_ask :: "message_translate \<Rightarrow> bool \<Rightarrow> ident \<Rightarrow> feld_desk \<Rightarrow> feld_desk" where
  "handle_ask t material uuid s =
     (let kind = (if material then RkMaterial else RkPersonnel); itm = or_null (Some (js_trim (fd_askItem s))); msg = js_trim (fd_askNote s)
      in run_report FkMessage (field_request_label kind itm (Some (fd_askQuantity s)) (or_null (Some msg)) [] t)
           (CallAsk kind itm (fd_askQuantity s) msg uuid) AfterAsk s)"

definition retry_report :: "feld_desk \<Rightarrow> feld_desk" where
  "retry_report s = (case fd_retry s of None \<Rightarrow> s | Some (which, label, call) \<Rightarrow> run_report which label call AfterNothing s)"

definition gives_state :: "feld_call \<Rightarrow> bool" where
  "gives_state c = (case c of CallMessage _ _ \<Rightarrow> False | CallAsk _ _ _ _ _ \<Rightarrow> False | _ \<Rightarrow> True)"

fun after_report :: "feld_after \<Rightarrow> feld_desk \<Rightarrow> feld_desk" where
  "after_report AfterNothing s = s"
| "after_report AfterComplete s = s\<lparr>fd_panel := PanelPickupFollowup\<rparr>"
| "after_report AfterPickup s = s\<lparr>fd_panel := PanelNone\<rparr>"
| "after_report AfterMessage s = s\<lparr>fd_message := [], fd_panel := PanelNone, fd_reloads := fd_reloads s + 1\<rparr>"
| "after_report AfterAsk s = s\<lparr>fd_panel := PanelNone, fd_reloads := fd_reloads s + 1\<rparr>"

definition take_answer :: "nat \<Rightarrow> bool \<Rightarrow> feld_call \<Rightarrow> feld_desk \<Rightarrow> feld_desk" where
  "take_answer n ok call s =
     s\<lparr>fd_flight := filter (\<lambda>f. fst f \<noteq> n) (fd_flight s),
       fd_reported := (if ok \<and> gives_state call then fd_reported s + 1 else fd_reported s),
       fd_delivery := delivery_reducer (fd_delivery s) (DeliverySettled ok n)\<rparr>"

definition report_answers :: "nat \<Rightarrow> bool \<Rightarrow> feld_desk \<Rightarrow> feld_desk" where
  "report_answers n ok s =
     (case List.find (\<lambda>f. fst f = n) (fd_flight s) of
        None \<Rightarrow> s
      | Some (_, call, after) \<Rightarrow> let s1 = take_answer n ok call s in if ok then after_report after s1 else s1)"

section \<open>Events\<close>

text \<open>
  The taps, each where its button is enabled; the field of a message also sends on Enter, which no guard holds
  back. Text is typed at any time.
\<close>

datatype feld_tap =
    ConfirmArrived | ConfirmComplete | AnswerPickup bool | SendMessage ident | SendChip string ident | SendAsk ident | TapRetry
  | OpenConfirm bool | ClosePanel | TogglePickup | ToggleMessage | OpenAsk bool | CancelAsk
  | PressEnter ident

datatype feld_event =
    FvTap feld_tap
  | FvTypeNote string | FvTypeMessage string | FvTypeItem string | FvTypeAskNote string | FvMore | FvLess
  | FvAnswer nat bool
  | FvQuiet                                       \<comment> \<open>the receipt has stood for its six seconds\<close>

definition busy :: "feld_desk \<Rightarrow> bool" where
  "busy s = is_busy (fd_delivery s) None"

fun feld_tap_step :: "message_translate \<Rightarrow> feld_desk \<Rightarrow> feld_tap \<Rightarrow> feld_desk" where
  "feld_tap_step t s ConfirmArrived = (if busy s \<or> fd_panel s \<noteq> PanelConfirmArrived then s else handle_arrived t s)"
| "feld_tap_step t s ConfirmComplete = (if busy s \<or> fd_panel s \<noteq> PanelConfirmComplete then s else handle_complete t s)"
| "feld_tap_step t s (AnswerPickup needed) =
     (if busy s \<or> fd_panel s \<noteq> PanelPickupFollowup \<and> \<not> (needed \<and> fd_panel s = PanelPickup) then s else handle_pickup t needed s)"
| "feld_tap_step t s (SendMessage uuid) =
     (if busy s \<or> fd_panel s \<noteq> PanelMessage \<or> js_trim (fd_message s) = [] then s else handle_message (fd_message s) uuid s)"
| "feld_tap_step t s (SendChip chip uuid) = (if busy s \<or> fd_panel s \<noteq> PanelMessage then s else handle_message chip uuid s)"
| "feld_tap_step t s (SendAsk uuid) =
     (if busy s \<or> fd_panel s \<notin> {PanelMaterial, PanelPersonnel}
         \<or> (fd_panel s = PanelMaterial \<and> js_trim (fd_askItem s) = [] \<and> js_trim (fd_askNote s) = []) then s
      else handle_ask t (fd_panel s = PanelMaterial) uuid s)"
| "feld_tap_step t s TapRetry = (case fd_delivery s of Failed _ _ _ \<Rightarrow> retry_report s | _ \<Rightarrow> s)"
| "feld_tap_step t s (OpenConfirm arrived) = (if busy s then s else s\<lparr>fd_panel := (if arrived then PanelConfirmArrived else PanelConfirmComplete)\<rparr>)"
| "feld_tap_step t s ClosePanel = (if busy s then s else s\<lparr>fd_panel := PanelNone\<rparr>)"
| "feld_tap_step t s TogglePickup = (if busy s then s else s\<lparr>fd_panel := (if fd_panel s = PanelPickup then PanelNone else PanelPickup)\<rparr>)"
| "feld_tap_step t s ToggleMessage = (if busy s then s else s\<lparr>fd_panel := (if fd_panel s = PanelMessage then PanelNone else PanelMessage)\<rparr>)"
| "feld_tap_step t s (OpenAsk material) = (if busy s then s else open_ask material s)"
| "feld_tap_step t s CancelAsk = (if busy s then s else s\<lparr>fd_panel := PanelMessage\<rparr>)"
| "feld_tap_step t s (PressEnter uuid) = (if fd_panel s \<noteq> PanelMessage then s else handle_message (fd_message s) uuid s)"

fun feld_step :: "message_translate \<Rightarrow> feld_desk \<Rightarrow> feld_event \<Rightarrow> feld_desk" where
  "feld_step t s (FvTap tap) = feld_tap_step t s tap"
| "feld_step t s (FvTypeNote x) = s\<lparr>fd_note := x\<rparr>"
| "feld_step t s (FvTypeMessage x) = s\<lparr>fd_message := x\<rparr>"
| "feld_step t s (FvTypeItem x) = s\<lparr>fd_askItem := x\<rparr>"
| "feld_step t s (FvTypeAskNote x) = s\<lparr>fd_askNote := x\<rparr>"
| "feld_step t s FvMore = (if fd_askQuantity s \<ge> 99 then s else s\<lparr>fd_askQuantity := min 99 (fd_askQuantity s + 1)\<rparr>)"
| "feld_step t s FvLess = (if fd_askQuantity s \<le> 1 then s else s\<lparr>fd_askQuantity := max 1 (fd_askQuantity s - 1)\<rparr>)"
| "feld_step t s (FvAnswer n ok) = report_answers n ok s"
| "feld_step t s FvQuiet = (case fd_delivery s of Sent _ _ _ \<Rightarrow> s\<lparr>fd_delivery := Idle\<rparr> | _ \<Rightarrow> s)"

definition feld_run :: "message_translate \<Rightarrow> feld_desk \<Rightarrow> feld_event list \<Rightarrow> feld_desk" where
  "feld_run t s es = foldl (feld_step t) s es"

section \<open>What always holds\<close>

fun delivery_shows :: "delivery_state \<Rightarrow> nat \<Rightarrow> feld_desk \<Rightarrow> bool" where
  "delivery_shows Idle n s = True"
| "delivery_shows (Pending a l m) n s = (m = n \<and> fd_log s \<noteq> [] \<and> fd_retry s = Some (a, l, snd (last (fd_log s))))"
| "delivery_shows (Sent a l m) n s = (m = n \<and> fd_log s \<noteq> [] \<and> fd_retry s = Some (a, l, snd (last (fd_log s))))"
| "delivery_shows (Failed a l m) n s = (m = n \<and> fd_log s \<noteq> [] \<and> fd_retry s = Some (a, l, snd (last (fd_log s))))"

definition desk_inv :: "feld_desk \<Rightarrow> bool" where
  "desk_inv s \<longleftrightarrow> delivery_shows (fd_delivery s) (fd_attempt s) s \<and> map fst (fd_log s) = [1..<fd_attempt s + 1]
     \<and> distinct (map fst (fd_flight s)) \<and> (\<forall>f\<in>set (fd_flight s). fst f \<le> fd_attempt s \<and> (fst f, fst (snd f)) \<in> set (fd_log s))"

text \<open>What the invariant speaks of.\<close>

definition desk_core :: "feld_desk \<Rightarrow> delivery_state \<times> nat \<times> (feld_action_kind \<times> string \<times> feld_call) option
    \<times> (nat \<times> feld_call \<times> feld_after) list \<times> (nat \<times> feld_call) list" where
  "desk_core s = (fd_delivery s, fd_attempt s, fd_retry s, fd_flight s, fd_log s)"

lemma shows_core: "desk_core s = desk_core s' \<Longrightarrow> delivery_shows d n s = delivery_shows d n s'"
  by (cases d) (auto simp: desk_core_def)

lemma inv_core: "desk_core s = desk_core s' \<Longrightarrow> desk_inv s = desk_inv s'"
  using shows_core [of s s'] by (auto simp: desk_inv_def desk_core_def)

lemma core_fields [simp]:
  "desk_core (s\<lparr>fd_panel := p\<rparr>) = desk_core s" "desk_core (s\<lparr>fd_note := x\<rparr>) = desk_core s" "desk_core (s\<lparr>fd_message := x\<rparr>) = desk_core s"
  "desk_core (s\<lparr>fd_askItem := x\<rparr>) = desk_core s" "desk_core (s\<lparr>fd_askQuantity := q\<rparr>) = desk_core s" "desk_core (s\<lparr>fd_askNote := x\<rparr>) = desk_core s"
  "desk_core (s\<lparr>fd_reported := n\<rparr>) = desk_core s" "desk_core (s\<lparr>fd_reloads := n\<rparr>) = desk_core s"
  by (simp_all add: desk_core_def)

lemma core_after [simp]: "desk_core (after_report a s) = desk_core s"
  by (cases a) simp_all

lemma inv_fields [simp]:
  "desk_inv (s\<lparr>fd_panel := p\<rparr>) = desk_inv s" "desk_inv (s\<lparr>fd_note := x\<rparr>) = desk_inv s" "desk_inv (s\<lparr>fd_message := x\<rparr>) = desk_inv s"
  "desk_inv (s\<lparr>fd_askItem := x\<rparr>) = desk_inv s" "desk_inv (s\<lparr>fd_askQuantity := q\<rparr>) = desk_inv s" "desk_inv (s\<lparr>fd_askNote := x\<rparr>) = desk_inv s"
  "desk_inv (after_report a s) = desk_inv s"
  by (rule inv_core; simp)+

lemma inv_run_report:
  assumes "desk_inv s"
  shows "desk_inv (run_report w l c a s)"
proof -
  have new: "fd_attempt s + 1 \<notin> fst ` set (fd_flight s)" using assms by (auto simp: desk_inv_def)
  have old: "fst f \<le> Suc (fd_attempt s) \<and> (fst f, fst (snd f)) \<in> set (fd_log s) \<union> {(Suc (fd_attempt s), c)}" if "f \<in> set (fd_flight s)" for f
    using assms that by (auto simp: desk_inv_def)
  from assms new old show ?thesis by (auto simp: desk_inv_def run_report_def Let_def)
qed

lemma inv_answers:
  assumes "desk_inv s"
  shows "desk_inv (report_answers n ok s)"
proof (cases "List.find (\<lambda>f. fst f = n) (fd_flight s)")
  case None
  then show ?thesis using assms by (simp add: report_answers_def)
next
  case (Some f)
  obtain k call after where f: "f = (k, call, after)" by (cases f)
  have "distinct (map fst (filter (\<lambda>f. fst f \<noteq> n) (fd_flight s)))" using assms by (simp add: desk_inv_def distinct_map_filter)
  moreover have "delivery_shows (delivery_reducer (fd_delivery s) (DeliverySettled ok n)) (fd_attempt s) (take_answer n ok call s)"
    using assms by (cases "fd_delivery s") (auto simp: desk_inv_def take_answer_def)
  ultimately have "desk_inv (take_answer n ok call s)" using assms by (simp add: desk_inv_def take_answer_def)
  then show ?thesis using Some by (cases ok) (simp_all add: report_answers_def f)
qed

lemma inv_tap: "desk_inv s \<Longrightarrow> desk_inv (feld_tap_step t s tap)"
  by (cases tap) (simp_all add: handle_arrived_def handle_complete_def handle_pickup_def handle_message_def handle_ask_def open_ask_def
      retry_report_def Let_def inv_run_report split: delivery_state.split option.split)

lemma inv_feld_step: "desk_inv s \<Longrightarrow> desk_inv (feld_step t s e)"
proof (cases e)
  case FvQuiet
  moreover assume "desk_inv s"
  ultimately show ?thesis by (cases "fd_delivery s") (auto simp: desk_inv_def)
qed (simp_all add: inv_tap inv_answers)

lemma inv_fresh: "desk_inv (fresh_desk n)"
  by (simp add: desk_inv_def fresh_desk_def)

interpretation feld: event_machine "feld_step t" desk_inv "fresh_desk n" for t n
  by unfold_locales (rule inv_fresh, rule inv_feld_step)

lemma inv_feld_run: "desk_inv (feld_run t (fresh_desk n) es)"
  unfolding feld_run_def by (rule feld.inv_run)

section \<open>One request at a time\<close>

text \<open>Enter is not pressed while a report is on its way.\<close>

fun calm :: "message_translate \<Rightarrow> feld_desk \<Rightarrow> feld_event list \<Rightarrow> bool" where
  "calm t s [] = True"
| "calm t s (e # es) = ((case e of FvTap (PressEnter _) \<Rightarrow> \<not> busy s | _ \<Rightarrow> True) \<and> calm t (feld_step t s e) es)"

definition one_at_a_time :: "feld_desk \<Rightarrow> bool" where
  "one_at_a_time s \<longleftrightarrow> (\<forall>f\<in>set (fd_flight s). \<exists>a l. fd_delivery s = Pending a l (fst f))"

lemma one_core: "desk_core s = desk_core s' \<Longrightarrow> one_at_a_time s = one_at_a_time s'"
  by (auto simp: one_at_a_time_def desk_core_def)

lemma one_fields [simp]:
  "one_at_a_time (s\<lparr>fd_panel := p\<rparr>) = one_at_a_time s" "one_at_a_time (s\<lparr>fd_note := x\<rparr>) = one_at_a_time s"
  "one_at_a_time (s\<lparr>fd_message := x\<rparr>) = one_at_a_time s" "one_at_a_time (s\<lparr>fd_askItem := x\<rparr>) = one_at_a_time s"
  "one_at_a_time (s\<lparr>fd_askQuantity := q\<rparr>) = one_at_a_time s" "one_at_a_time (s\<lparr>fd_askNote := x\<rparr>) = one_at_a_time s"
  "one_at_a_time (after_report a s) = one_at_a_time s"
  by (rule one_core; simp)+

lemma idle_flight: "one_at_a_time s \<Longrightarrow> \<not> busy s \<Longrightarrow> fd_flight s = []"
proof (cases "fd_flight s")
  case (Cons f fs)
  assume "one_at_a_time s" and idle: "\<not> busy s"
  with Cons have "\<exists>a l. fd_delivery s = Pending a l (fst f)" unfolding one_at_a_time_def by (metis list.set_intros(1))
  with idle show ?thesis by (auto simp: busy_def is_busy_def)
qed

lemma one_run_report:
  assumes "one_at_a_time s" and "\<not> busy s"
  shows "one_at_a_time (run_report w l c a s)"
  using idle_flight [OF assms] by (simp add: one_at_a_time_def run_report_def)

lemma busy_fields [simp]: "busy (s\<lparr>fd_panel := p\<rparr>) = busy s"
  by (simp add: busy_def)

lemma one_answers: "one_at_a_time s \<Longrightarrow> desk_inv s \<Longrightarrow> one_at_a_time (report_answers n ok s)"
proof -
  assume one: "one_at_a_time s" and inv: "desk_inv s"
  show ?thesis
  proof (cases "List.find (\<lambda>f. fst f = n) (fd_flight s)")
    case None
    then show ?thesis using one by (simp add: report_answers_def)
  next
    case (Some f)
    obtain k call after where f: "f = (k, call, after)" by (cases f)
    from find_SomeD [OF Some] one obtain a l where d: "fd_delivery s = Pending a l n" by (fastforce simp: one_at_a_time_def)
    then have "filter (\<lambda>f. fst f \<noteq> n) (fd_flight s) = []" using one by (auto simp: one_at_a_time_def filter_empty_conv)
    then have "one_at_a_time (take_answer n ok call s)" by (simp add: one_at_a_time_def take_answer_def)
    then show ?thesis using Some by (cases ok) (simp_all add: report_answers_def f)
  qed
qed

lemma one_step:
  assumes "one_at_a_time s" and "desk_inv s" and "case e of FvTap (PressEnter _) \<Rightarrow> \<not> busy s | _ \<Rightarrow> True"
  shows "one_at_a_time (feld_step t s e)"
proof (cases e)
  case (FvTap tap)
  show ?thesis
  proof (cases tap)
    case TapRetry
    with FvTap assms show ?thesis
      by (cases "fd_delivery s") (auto simp: retry_report_def busy_def is_busy_def intro!: one_run_report split: option.split)
  qed (use FvTap assms in \<open>simp_all add: handle_arrived_def handle_complete_def handle_pickup_def handle_message_def handle_ask_def
      open_ask_def Let_def one_run_report\<close>)
next
  case FvQuiet
  with assms show ?thesis by (cases "fd_delivery s") (auto simp: one_at_a_time_def)
qed (use assms in \<open>simp_all add: one_answers\<close>)

lemma calm_run: "one_at_a_time s \<Longrightarrow> desk_inv s \<Longrightarrow> calm t s es \<Longrightarrow> one_at_a_time (feld_run t s es) \<and> desk_inv (feld_run t s es)"
proof (induction es arbitrary: s)
  case (Cons e es)
  then have "one_at_a_time (feld_step t s e)" using one_step [of s e t] by simp
  with Cons inv_feld_step [of s t e] show ?case by (simp add: feld_run_def)
qed (simp add: feld_run_def)

section \<open>Properties\<close>

text \<open>
  C7. Every report ends in an answer on screen: unless Enter is pressed into a report on its way, at most one request is in
  flight, the screen shows it as being sent, and whatever comes of it is shown as its outcome.
\<close>

theorem every_report_is_answered:
  assumes "calm t (fresh_desk note) es" and "(n, call, after) \<in> set (fd_flight (feld_run t (fresh_desk note) es))"
  shows "\<exists>a l. fd_delivery (feld_run t (fresh_desk note) es) = Pending a l n
      \<and> fd_flight (feld_run t (fresh_desk note) es) = [(n, call, after)]
      \<and> fd_delivery (feld_step t (feld_run t (fresh_desk note) es) (FvAnswer n ok)) = (if ok then Sent a l n else Failed a l n)"
proof -
  let ?s = "feld_run t (fresh_desk note) es"
  have "one_at_a_time (fresh_desk note)" by (simp add: one_at_a_time_def fresh_desk_def)
  then have one: "one_at_a_time ?s" "desk_inv ?s" using calm_run [OF _ inv_fresh assms(1)] by blast+
  with assms(2) obtain a l where d: "fd_delivery ?s = Pending a l n" by (fastforce simp: one_at_a_time_def)
  have same: "fst f = n" if "f \<in> set (fd_flight ?s)" for f using one(1) that d by (fastforce simp: one_at_a_time_def)
  have "distinct (map fst (fd_flight ?s))" using one(2) by (simp add: desk_inv_def)
  with same assms(2) have flight: "fd_flight ?s = [(n, call, after)]"
    by (cases "fd_flight ?s"; cases "tl (fd_flight ?s)") fastforce+
  have "fd_delivery (after_report x y) = fd_delivery y" for x y by (cases x) simp_all
  then show ?thesis using d flight by (simp add: report_answers_def take_answer_def Let_def)
qed

theorem every_report_is_answered_witness:
  "fd_delivery (feld_step (\<lambda>k vs. k) (feld_run (\<lambda>k vs. k) (fresh_desk None) [FvTap (OpenConfirm False), FvTap ConfirmComplete]) (FvAnswer 1 False))
     = Failed FkComplete ''complete'' 1"
proof -
  let ?es = "[FvTap (OpenConfirm False), FvTap ConfirmComplete]"
  let ?s = "feld_run (\<lambda>k vs. k) (fresh_desk None) ?es"
  have s: "fd_flight ?s = [(1, CallComplete, AfterComplete)]" "fd_delivery ?s = Pending FkComplete ''complete'' 1"
    by (simp_all add: feld_run_def fresh_desk_def busy_def is_busy_def handle_complete_def run_report_def Let_def)
  have "calm (\<lambda>k vs. k) (fresh_desk None) ?es" by simp
  from every_report_is_answered [OF this, of 1 CallComplete AfterComplete False] s show ?thesis by auto
qed



section \<open>Where the code falls short\<close>

lemmas desk_steps = feld_run_def fresh_desk_def busy_def is_busy_def handle_arrived_def handle_complete_def handle_pickup_def
  handle_message_def run_report_def retry_report_def report_answers_def take_answer_def

text \<open>A repeated request for a pick-up carries the note of the first tap, though the comment has it read again.\<close>

theorem retry_sends_the_old_note:
  "snd (last (fd_log (feld_run t (fresh_desk (Some old))
     [FvTap TogglePickup, FvTap (AnswerPickup True), FvAnswer 1 False, FvTypeNote new, FvTap TapRetry]))) = CallPickup True (Some old)"
  by (simp add: desk_steps)

text \<open>
  A repeat that succeeds does not finish what the first tap began: the question about the way back is not asked after a
  report of completion, and a message that was delivered stays in its field, to be sent again.
\<close>

theorem retry_forgets_the_question:
  "fd_panel (feld_run t (fresh_desk None) [FvTap (OpenConfirm False), FvTap ConfirmComplete, FvAnswer 1 True]) = PanelPickupFollowup"
  "fd_panel (feld_run t (fresh_desk None) [FvTap (OpenConfirm False), FvTap ConfirmComplete, FvAnswer 1 False, FvTap TapRetry, FvAnswer 2 True]) = PanelNone"
  by (simp_all add: desk_steps)

theorem retry_leaves_the_message:
  assumes "js_trim x \<noteq> []"
  shows "fd_message (feld_run t (fresh_desk None)
    [FvTap ToggleMessage, FvTypeMessage x, FvTap (SendMessage u), FvAnswer 1 False, FvTap TapRetry, FvAnswer 2 True]) = x"
  using assms by (simp add: desk_steps Let_def)

text \<open>Enter into a report on its way: two taps of it send the message twice with two ids, and the failure of what was on its way is never shown.\<close>

theorem enter_sends_twice:
  assumes "js_trim x \<noteq> []"
  shows "fd_log (feld_run t (fresh_desk None) [FvTap ToggleMessage, FvTypeMessage x, FvTap (PressEnter u1), FvTap (PressEnter u2)])
    = [(1, CallMessage (js_trim x) u1), (2, CallMessage (js_trim x) u2)]"
  using assms by (simp add: desk_steps Let_def)

theorem enter_hides_a_failure:
  assumes "js_trim x \<noteq> []" and "js_trim chip \<noteq> []"
  shows "fd_delivery (feld_run t (fresh_desk None) [FvTap ToggleMessage, FvTypeMessage x, FvTap (SendChip chip u1), FvTap (PressEnter u2),
      FvAnswer 1 False, FvAnswer 2 True]) = Sent FkMessage (js_trim x) 2"
  using assms by (simp add: desk_steps Let_def)

text \<open>A message that is delivered clears the field, whatever was typed there since.\<close>

theorem delivery_clears_newer_text:
  assumes "js_trim x \<noteq> []"
  shows "fd_message (feld_run t (fresh_desk None)
    [FvTap ToggleMessage, FvTypeMessage x, FvTap (SendMessage u), FvTypeMessage y, FvAnswer 1 True]) = []"
  using assms by (simp add: desk_steps Let_def)

end
