(* ===== verification/FieldDoor.thy ===== *)
theory FieldDoor
  imports ReleaseUndo Durations JsText
begin

text \<open>
  The page of a crew in the field, \<^verbatim>\<open>frontend/app/feld/page.tsx\<close> with its door
  \<^verbatim>\<open>components/feld/feld-door.tsx\<close>: which credential the phone holds, whose page it shows, what survives a reload and
  what a hand-over leaves behind, as one machine; and the order of its list. A request is an entry of a list until its answer comes.
\<close>

section \<open>Credentials\<close>

text \<open>What a token says of itself; reading it (base64 and JSON) is an argument.\<close>

record jwt_payload =
  jw_type :: string
  jw_unlocked :: bool
  jw_personnel :: "ident option"
  jw_claim :: "ident option"

definition decode_feld_credential :: "(ident \<Rightarrow> jwt_payload option) \<Rightarrow> ident \<Rightarrow> ident option option" where
  "decode_feld_credential read token =
     (case read token of
        None \<Rightarrow> None
      | Some p \<Rightarrow>
          if jw_type p = ''feld'' \<and> jw_unlocked p
          then Some (case (or_null (jw_personnel p), or_null (jw_claim p)) of (Some who, Some _) \<Rightarrow> Some who | _ \<Rightarrow> None)
          else None)"

datatype unlock_failure = CodeWrong "int option" | CodeLocked int | LinkExpired | LinkReopen | DoorOffline

record feld_person =
  pn_id :: ident
  pn_name :: string

record feld_row = feld_assignment +
  fw_incident :: ident
  fw_group :: "ident option"
  fw_position :: "nat option"

text \<open>The address the page was opened with: the token of the link, and the Schadenplatz of a slip.\<close>

record feld_link =
  fl_token :: "ident option"
  fl_slip :: "ident option"
  fl_read :: "ident \<Rightarrow> jwt_payload option"

record feld_cookies =
  ck_token :: "ident option"
  ck_person :: "ident option"
  ck_incident :: "ident option"
  ck_name :: "string option"

section \<open>Requests and the page\<close>

datatype door_request =
    AskSession ident
  | AskUnlock ident string
  | AskClaim ident feld_person
  | AskRows ident ident bool          \<comment> \<open>person, token, silent\<close>
  | AskLogout ident
  | AskRekoLink ident ident ident     \<comment> \<open>incident, person, token\<close>
  | AskAttendance ident ident

datatype door_answer =
    UnlockOk ident "feld_person list"
  | UnlockRefused unlock_failure
  | SessionOff
  | ClaimOk ident
  | ClaimRefused int                  \<comment> \<open>the status of the answer\<close>
  | ClaimOffline
  | RowsOk feld_person "feld_row list" "string list" bool
  | RowsFailed "int option" string
  | DoorDone                          \<comment> \<open>a logout or a check-in\<close>
  | DoorFailed
  | RekoLinkOk ident

datatype feld_view = ViewCode | ViewList | ViewAssignments | ViewDetail
datatype feld_page_error = MissingCode | ClaimWasOffline | InvalidCode

record feld_page =
  fp_token :: "ident option"
  fp_code :: string
  fp_codeError :: "unlock_failure option"
  fp_lock :: int
  fp_unlocking :: bool
  fp_view :: feld_view
  fp_roster :: "feld_person list"
  fp_person :: "feld_person option"
  fp_rows :: "feld_row list"
  fp_incident :: "ident option"
  fp_functions :: "string list"
  fp_checkedIn :: bool
  fp_attending :: bool
  fp_error :: "feld_page_error option"
  fp_recoverable :: bool
  fp_restored :: bool
  fp_preselected :: bool
  fp_reko :: "ident option"           \<comment> \<open>the form the page was left for\<close>
  fp_cookies :: feld_cookies
  fp_asks :: "(nat \<times> door_request) list"
  fp_sent :: "door_request list"      \<comment> \<open>every request sent\<close>
  fp_source :: "ident option"         \<comment> \<open>whose rows were asked for when the rows on the page arrived\<close>

definition fresh_page :: "feld_cookies \<Rightarrow> feld_page" where
  "fresh_page ck =
     \<lparr>fp_token = None, fp_code = [], fp_codeError = None, fp_lock = 0, fp_unlocking = False, fp_view = ViewCode, fp_roster = [],
      fp_person = None, fp_rows = [], fp_incident = None, fp_functions = [], fp_checkedIn = False, fp_attending = False, fp_error = None,
      fp_recoverable = False, fp_restored = False, fp_preselected = False, fp_reko = None, fp_cookies = ck, fp_asks = [], fp_sent = [],
      fp_source = None\<rparr>"

definition send_request :: "door_request \<Rightarrow> feld_page \<Rightarrow> feld_page" where
  "send_request r s = s\<lparr>fp_asks := fp_asks s @ [(length (fp_sent s), r)], fp_sent := fp_sent s @ [r]\<rparr>"

section \<open>The door\<close>

definition admit :: "ident \<Rightarrow> bool \<Rightarrow> feld_page \<Rightarrow> feld_page" where
  "admit token remember s =
     s\<lparr>fp_token := Some token, fp_cookies := (if remember then (fp_cookies s)\<lparr>ck_token := Some token\<rparr> else fp_cookies s)\<rparr>"

definition refuse :: "unlock_failure option \<Rightarrow> feld_page \<Rightarrow> feld_page" where
  "refuse f s = s\<lparr>fp_codeError := f\<rparr>"

definition forget_person_and_place :: "feld_page \<Rightarrow> feld_page" where
  "forget_person_and_place s =
     s\<lparr>fp_person := None, fp_roster := [], fp_rows := [], fp_incident := None, fp_view := ViewCode,
       fp_cookies := (fp_cookies s)\<lparr>ck_person := None, ck_incident := None, ck_name := None\<rparr>,
       fp_restored := False, fp_preselected := False\<rparr>"

definition is_credential :: "feld_link \<Rightarrow> ident \<Rightarrow> bool" where
  "is_credential l token = (decode_feld_credential (fl_read l) token \<noteq> None)"

definition forget_device :: "feld_link \<Rightarrow> feld_page \<Rightarrow> feld_page" where
  "forget_device l s =
     forget_person_and_place
       (s\<lparr>fp_token := None, fp_code := [],
          fp_codeError := (case fl_token l of Some token \<Rightarrow> if is_credential l token then Some LinkExpired else None | None \<Rightarrow> None),
          fp_cookies := (fp_cookies s)\<lparr>ck_token := None\<rparr>\<rparr>)"

definition show_picker :: "feld_person list \<Rightarrow> feld_page \<Rightarrow> feld_page" where
  "show_picker roster s = s\<lparr>fp_roster := roster, fp_view := ViewList\<rparr>"

definition submit_code :: "feld_link \<Rightarrow> feld_page \<Rightarrow> feld_page" where
  "submit_code l s =
     (case fl_token l of
        None \<Rightarrow> s
      | Some link \<Rightarrow>
          if length (fp_code s) < 4 \<or> fp_unlocking s then s
          else send_request (AskUnlock link (fp_code s)) (s\<lparr>fp_unlocking := True, fp_codeError := None\<rparr>))"

definition unlock_failed :: "unlock_failure \<Rightarrow> feld_page \<Rightarrow> feld_page" where
  "unlock_failed f s =
     s\<lparr>fp_codeError := Some f, fp_lock := (case f of CodeLocked n \<Rightarrow> n | _ \<Rightarrow> fp_lock s),
       fp_code := (case f of CodeWrong _ \<Rightarrow> [] | _ \<Rightarrow> fp_code s), fp_unlocking := False\<rparr>"

definition unlock_ok :: "ident \<Rightarrow> feld_person list \<Rightarrow> feld_page \<Rightarrow> feld_page" where
  "unlock_ok token roster s = (show_picker roster (s\<lparr>fp_token := Some token\<rparr>))\<lparr>fp_code := [], fp_unlocking := False\<rparr>"

definition is_locked :: "feld_page \<Rightarrow> bool" where
  "is_locked s = (case fp_codeError s of Some (CodeLocked _) \<Rightarrow> True | _ \<Rightarrow> False)"

definition type_code :: "string \<Rightarrow> feld_page \<Rightarrow> feld_page" where
  "type_code x s =
     s\<lparr>fp_code := take 4 (filter is_digit x),
       fp_codeError := (case fp_codeError s of Some (CodeWrong _) \<Rightarrow> None | e \<Rightarrow> e)\<rparr>"

text \<open>The two effects of the door: the lockout lets go, and the fourth digit submits.\<close>

definition release_lock :: "feld_page \<Rightarrow> feld_page" where
  "release_lock s = (if is_locked s \<and> fp_lock s \<le> 0 then s\<lparr>fp_codeError := None\<rparr> else s)"

definition auto_submit :: "feld_link \<Rightarrow> feld_page \<Rightarrow> feld_page" where
  "auto_submit l s =
     (if fp_view s = ViewCode \<and> length (fp_code s) = 4 \<and> \<not> fp_unlocking s \<and> fp_codeError s = None then submit_code l s else s)"

section \<open>The rows of a person\<close>

definition load_rows :: "ident \<Rightarrow> ident \<Rightarrow> bool \<Rightarrow> feld_page \<Rightarrow> feld_page" where
  "load_rows who token silent s = send_request (AskRows who token silent) s"

definition rows_arrive :: "ident \<Rightarrow> feld_person \<Rightarrow> feld_row list \<Rightarrow> string list \<Rightarrow> bool \<Rightarrow> feld_page \<Rightarrow> feld_page" where
  "rows_arrive asked p rows functions here s =
     s\<lparr>fp_rows := rows, fp_source := Some asked, fp_functions := functions, fp_checkedIn := here,
       fp_cookies := (fp_cookies s)\<lparr>ck_name := Some (pn_name p)\<rparr>,
       fp_person := (case fp_person s of None \<Rightarrow> Some p | q \<Rightarrow> q)\<rparr>"

definition rows_fail :: "feld_link \<Rightarrow> bool \<Rightarrow> int option \<Rightarrow> string \<Rightarrow> feld_page \<Rightarrow> feld_page" where
  "rows_fail l silent status message s =
     (if status = Some 401 \<or> str_includes message ''401'' then forget_device l s
      else if status = Some 403 \<or> str_includes message ''403'' then s\<lparr>fp_rows := []\<rparr>
      else if \<not> silent then s\<lparr>fp_rows := []\<rparr>
      else s)"

section \<open>Naming oneself, and the Schadenplatz\<close>

definition select_person :: "feld_person \<Rightarrow> feld_page \<Rightarrow> feld_page" where
  "select_person p s = (case fp_token s of None \<Rightarrow> s | Some token \<Rightarrow> send_request (AskClaim token p) s)"

definition claim_ok :: "feld_person \<Rightarrow> ident \<Rightarrow> feld_page \<Rightarrow> feld_page" where
  "claim_ok p token s =
     (let s1 = admit token True s
      in load_rows (pn_id p) token False
           (s1\<lparr>fp_cookies := (fp_cookies s1)\<lparr>ck_person := Some (pn_id p), ck_name := Some (pn_name p)\<rparr>,
               fp_person := Some p, fp_view := ViewAssignments, fp_rows := [], fp_incident := None\<rparr>))"

definition claim_failed :: "feld_link \<Rightarrow> door_answer \<Rightarrow> feld_page \<Rightarrow> feld_page" where
  "claim_failed l a s =
     (case a of
        ClaimRefused status \<Rightarrow>
          if status = 401 \<or> status = 403 then forget_device l s else s\<lparr>fp_error := Some InvalidCode, fp_recoverable := True\<rparr>
      | ClaimOffline \<Rightarrow> s\<lparr>fp_error := Some ClaimWasOffline, fp_recoverable := True\<rparr>
      | _ \<Rightarrow> s\<lparr>fp_error := Some InvalidCode, fp_recoverable := True\<rparr>)"

definition open_assignment :: "feld_row \<Rightarrow> feld_page \<Rightarrow> feld_page" where
  "open_assignment a s =
     (case (fa_source a = SrcReko \<and> \<not> reko_window_closed (feld_assignment.truncate a), fp_token s, fp_person s) of
        (True, Some token, Some p) \<Rightarrow> send_request (AskRekoLink (fw_incident a) (pn_id p) token) s
      | _ \<Rightarrow> s\<lparr>fp_incident := Some (fw_incident a), fp_view := ViewDetail,
              fp_cookies := (fp_cookies s)\<lparr>ck_incident := Some (fw_incident a)\<rparr>\<rparr>)"

definition leave_assignment :: "feld_page \<Rightarrow> feld_page" where
  "leave_assignment s =
     s\<lparr>fp_view := ViewAssignments, fp_incident := None, fp_cookies := (fp_cookies s)\<lparr>ck_incident := None\<rparr>\<rparr>"

definition restore_incident :: "feld_link \<Rightarrow> feld_page \<Rightarrow> feld_page" where
  "restore_incident l s =
     (if fp_restored s \<or> or_null (fl_slip l) \<noteq> None \<or> fp_rows s = [] then s
      else let s1 = s\<lparr>fp_restored := True\<rparr>
           in case or_null (ck_incident (fp_cookies s)) of
                None \<Rightarrow> s1
              | Some i \<Rightarrow>
                  if \<not> js_some (\<lambda>a. fw_incident a = i) (fp_rows s) then s1\<lparr>fp_cookies := (fp_cookies s)\<lparr>ck_incident := None\<rparr>\<rparr>
                  else s1\<lparr>fp_incident := Some i, fp_view := ViewDetail\<rparr>)"

definition preselect_incident :: "feld_link \<Rightarrow> feld_page \<Rightarrow> feld_page" where
  "preselect_incident l s =
     (case or_null (fl_slip l) of
        None \<Rightarrow> s
      | Some i \<Rightarrow>
          if fp_preselected s \<or> fp_rows s = [] then s
          else let s1 = s\<lparr>fp_preselected := True\<rparr>
               in case List.find (\<lambda>a. fw_incident a = i) (fp_rows s) of None \<Rightarrow> s1 | Some a \<Rightarrow> open_assignment a s1)"

definition door_effects :: "feld_link \<Rightarrow> feld_page \<Rightarrow> feld_page" where
  "door_effects l s = auto_submit l (release_lock (preselect_incident l (restore_incident l s)))"

section \<open>Opening the page\<close>

definition pass_door :: "feld_link \<Rightarrow> feld_page \<Rightarrow> feld_page" where
  "pass_door l s =
     (case or_null (fl_token l) of
        None \<Rightarrow> s\<lparr>fp_error := Some MissingCode\<rparr>
      | Some link \<Rightarrow>
          (case decode_feld_credential (fl_read l) link of
             Some None \<Rightarrow> (refuse (Some LinkExpired) s)\<lparr>fp_view := ViewCode\<rparr>
           | Some (Some who) \<Rightarrow>
               let s1 = admit link True s
               in load_rows who link False (s1\<lparr>fp_cookies := (fp_cookies s1)\<lparr>ck_person := Some who\<rparr>, fp_view := ViewAssignments\<rparr>)
           | None \<Rightarrow>
               (case (or_null (ck_token (fp_cookies s)), or_null (ck_person (fp_cookies s))) of
                  (Some token, Some who) \<Rightarrow> load_rows who token False ((admit token False s)\<lparr>fp_view := ViewAssignments\<rparr>)
                | _ \<Rightarrow> send_request (AskSession link) s)))"

definition open_page :: "feld_link \<Rightarrow> feld_cookies \<Rightarrow> feld_page" where
  "open_page l ck = door_effects l (pass_door l (fresh_page ck))"

section \<open>Events\<close>

datatype door_event =
    DvType string | DvEnter | DvSecond
  | DvPick feld_person | DvNotMe | DvDismiss
  | DvOpenRow feld_row | DvBack
  | DvPoll | DvFocus | DvCheckIn
  | DvReported ident "string option" "string option"
  | DvAnswer nat door_answer

definition answer_step :: "feld_link \<Rightarrow> door_request \<Rightarrow> door_answer \<Rightarrow> feld_page \<Rightarrow> feld_page" where
  "answer_step l r a s =
     (case r of
        AskSession _ \<Rightarrow>
          (case a of
             UnlockOk token roster \<Rightarrow> show_picker roster (admit token False s)
           | SessionOff \<Rightarrow> s\<lparr>fp_view := ViewCode\<rparr>
           | UnlockRefused f \<Rightarrow> (refuse (Some f) s)\<lparr>fp_view := ViewCode\<rparr>
           | _ \<Rightarrow> (refuse None s)\<lparr>fp_view := ViewCode\<rparr>)
      | AskUnlock _ _ \<Rightarrow>
          (case a of
             UnlockOk token roster \<Rightarrow> unlock_ok token roster s
           | UnlockRefused f \<Rightarrow> unlock_failed f s
           | _ \<Rightarrow> unlock_failed (CodeWrong None) s)
      | AskClaim _ p \<Rightarrow> (case a of ClaimOk token \<Rightarrow> claim_ok p token s | _ \<Rightarrow> claim_failed l a s)
      | AskRows who _ silent \<Rightarrow>
          (case a of
             RowsOk p rows functions here \<Rightarrow> rows_arrive who p rows functions here s
           | RowsFailed status message \<Rightarrow> rows_fail l silent status message s
           | _ \<Rightarrow> rows_fail l silent None [] s)
      | AskLogout _ \<Rightarrow> (case a of DoorDone \<Rightarrow> forget_device l s | _ \<Rightarrow> s)
      | AskRekoLink _ _ _ \<Rightarrow> (case a of RekoLinkOk link \<Rightarrow> s\<lparr>fp_reko := Some link\<rparr> | _ \<Rightarrow> s)
      | AskAttendance _ _ \<Rightarrow> (case a of DoorDone \<Rightarrow> s\<lparr>fp_checkedIn := True, fp_attending := False\<rparr> | _ \<Rightarrow> s\<lparr>fp_attending := False\<rparr>))"

definition take_request :: "nat \<Rightarrow> feld_page \<Rightarrow> feld_page" where
  "take_request n s = s\<lparr>fp_asks := filter (\<lambda>x. fst x \<noteq> n) (fp_asks s)\<rparr>"

definition code_open :: "feld_page \<Rightarrow> bool" where
  "code_open s = (fp_view s = ViewCode \<and> fp_error s = None \<and> fp_codeError s \<noteq> Some LinkExpired \<and> fp_codeError s \<noteq> Some LinkReopen)"

text \<open>A detail whose row is gone shows the list.\<close>

definition shown_view :: "feld_page \<Rightarrow> feld_view" where
  "shown_view s =
     (if fp_view s = ViewDetail \<and> \<not> js_some (\<lambda>a. Some (fw_incident a) = fp_incident s) (fp_rows s) then ViewAssignments else fp_view s)"

fun door_event_step :: "feld_link \<Rightarrow> feld_page \<Rightarrow> door_event \<Rightarrow> feld_page" where
  "door_event_step l s (DvType x) = (if code_open s \<and> \<not> is_locked s then type_code x s else s)"
| "door_event_step l s DvEnter = (if code_open s \<and> \<not> is_locked s then submit_code l s else s)"
| "door_event_step l s DvSecond = (if is_locked s \<and> fp_lock s > 0 then s\<lparr>fp_lock := fp_lock s - 1\<rparr> else s)"
| "door_event_step l s (DvPick p) = (if fp_view s = ViewList \<and> fp_error s = None then select_person p s else s)"
| "door_event_step l s DvNotMe =
     (if shown_view s \<noteq> ViewAssignments \<or> fp_error s \<noteq> None then s
      else case fp_token s of None \<Rightarrow> s | Some token \<Rightarrow> send_request (AskLogout token) s)"
| "door_event_step l s DvDismiss = (if fp_recoverable s then s\<lparr>fp_error := None, fp_recoverable := False\<rparr> else s)"
| "door_event_step l s (DvOpenRow a) =
     (if shown_view s = ViewAssignments \<and> fp_error s = None \<and> a \<in> set (fp_rows s) then open_assignment a s else s)"
| "door_event_step l s DvBack = (if shown_view s = ViewDetail \<and> fp_error s = None then leave_assignment s else s)"
| "door_event_step l s DvPoll =
     (case (fp_person s, fp_token s) of (Some p, Some token) \<Rightarrow> load_rows (pn_id p) token True s | _ \<Rightarrow> s)"
| "door_event_step l s DvFocus =
     (case (fp_person s, fp_token s) of (Some p, Some token) \<Rightarrow> load_rows (pn_id p) token False s | _ \<Rightarrow> s)"
| "door_event_step l s DvCheckIn =
     (case (fp_token s, fp_person s) of
        (Some token, Some p) \<Rightarrow> if fp_attending s then s else send_request (AskAttendance (pn_id p) token) (s\<lparr>fp_attending := True\<rparr>)
      | _ \<Rightarrow> s)"
| "door_event_step l s (DvReported i arrived finished) =
     s\<lparr>fp_rows := modify_row fw_incident i (\<lambda>a. a\<lparr>fa_arrived_at := arrived, fa_field_complete_reported_at := finished\<rparr>) (fp_rows s)\<rparr>"
| "door_event_step l s (DvAnswer n a) =
     (case map_of (fp_asks s) n of None \<Rightarrow> s | Some r \<Rightarrow> answer_step l r a (take_request n s))"

definition door_step :: "feld_link \<Rightarrow> feld_page \<Rightarrow> door_event \<Rightarrow> feld_page" where
  "door_step l s e = door_effects l (door_event_step l s e)"

definition door_run :: "feld_link \<Rightarrow> feld_page \<Rightarrow> door_event list \<Rightarrow> feld_page" where
  "door_run l s es = foldl (door_step l) s es"

section \<open>Which credential a request carries\<close>

fun request_token :: "door_request \<Rightarrow> ident" where
  "request_token (AskSession t) = t"
| "request_token (AskUnlock t _) = t"
| "request_token (AskClaim t _) = t"
| "request_token (AskRows _ t _) = t"
| "request_token (AskLogout t) = t"
| "request_token (AskRekoLink _ _ t) = t"
| "request_token (AskAttendance _ t) = t"

fun is_unlock :: "door_request \<Rightarrow> bool" where
  "is_unlock (AskSession _) = True"
| "is_unlock (AskUnlock _ _) = True"
| "is_unlock _ = False"

fun answer_grants :: "door_answer \<Rightarrow> ident list" where
  "answer_grants (UnlockOk t _) = [t]"
| "answer_grants (ClaimOk t) = [t]"
| "answer_grants _ = []"

fun event_grants :: "door_event \<Rightarrow> ident list" where
  "event_grants (DvAnswer _ a) = answer_grants a"
| "event_grants _ = []"

definition credentials_in :: "ident set \<Rightarrow> feld_page \<Rightarrow> bool" where
  "credentials_in G s \<longleftrightarrow> set_option (fp_token s) \<subseteq> G \<and> set_option (ck_token (fp_cookies s)) \<subseteq> G
     \<and> (\<forall>r\<in>set (fp_sent s). is_unlock r \<or> request_token r \<in> G)"

lemma credentials_send:
  "credentials_in G s \<Longrightarrow> is_unlock r \<or> request_token r \<in> G \<Longrightarrow> credentials_in G (send_request r s)"
  by (auto simp: credentials_in_def send_request_def)

lemma credentials_token: "credentials_in G s \<Longrightarrow> fp_token s = Some t \<Longrightarrow> t \<in> G"
  by (simp add: credentials_in_def)

lemma credentials_core:
  "credentials_in G s \<Longrightarrow> fp_token s' = fp_token s \<Longrightarrow> ck_token (fp_cookies s') = ck_token (fp_cookies s) \<Longrightarrow> fp_sent s' = fp_sent s
   \<Longrightarrow> credentials_in G s'"
  by (simp add: credentials_in_def)

lemma credentials_admit: "credentials_in G s \<Longrightarrow> t \<in> G \<Longrightarrow> credentials_in G (admit t m s)"
  by (simp add: credentials_in_def admit_def)

lemma credentials_forget: "credentials_in G s \<Longrightarrow> credentials_in G (forget_device l s)"
  by (simp add: credentials_in_def forget_device_def forget_person_and_place_def)

lemma credentials_submit: "credentials_in G s \<Longrightarrow> credentials_in G (submit_code l s)"
  by (auto simp: submit_code_def intro!: credentials_send intro: credentials_core split: option.split)

lemma credentials_open: "credentials_in G s \<Longrightarrow> credentials_in G (open_assignment a s)"
  by (auto simp: open_assignment_def intro!: credentials_send intro: credentials_core credentials_token split: option.split bool.split)

lemma credentials_effects: "credentials_in G s \<Longrightarrow> credentials_in G (door_effects l s)"
proof -
  have restore: "credentials_in G (restore_incident l s)" if "credentials_in G s" for s
    using that by (auto simp: restore_incident_def Let_def intro: credentials_core split: option.split)
  have preselect: "credentials_in G (preselect_incident l s)" if "credentials_in G s" for s
    using that by (auto simp: preselect_incident_def Let_def intro!: credentials_open intro: credentials_core split: option.split)
  have release: "credentials_in G (release_lock s)" if "credentials_in G s" for s
    using that by (auto simp: release_lock_def intro: credentials_core)
  assume "credentials_in G s"
  then show ?thesis unfolding door_effects_def auto_submit_def by (simp add: restore preselect release credentials_submit)
qed

lemma credentials_answer:
  assumes "credentials_in G s" and "set (answer_grants a) \<subseteq> G"
  shows "credentials_in G (answer_step l r a s)"
proof (cases r)
  case (AskSession t)
  with assms show ?thesis
    by (cases a) (auto simp: answer_step_def refuse_def show_picker_def intro: credentials_core credentials_admit)
next
  case (AskUnlock t code)
  with assms show ?thesis
    by (cases a) (auto simp: answer_step_def unlock_ok_def unlock_failed_def show_picker_def credentials_in_def)
next
  case (AskClaim t p)
  have "credentials_in G (claim_failed l a s)" for a
    using assms(1) by (cases a) (auto simp: claim_failed_def intro: credentials_core credentials_forget)
  moreover have "credentials_in G (claim_ok p t s)" if "t \<in> G" for t
    using assms(1) that by (auto simp: claim_ok_def load_rows_def Let_def credentials_in_def send_request_def admit_def)
  ultimately show ?thesis using AskClaim assms by (cases a) (simp_all add: answer_step_def)
next
  case (AskRows who t silent)
  have "credentials_in G (rows_fail l silent x m s)" for x m
    using assms(1) by (auto simp: rows_fail_def intro: credentials_core credentials_forget)
  with AskRows assms(1) show ?thesis
    by (cases a) (auto simp: answer_step_def rows_arrive_def intro: credentials_core)
qed (use assms in \<open>auto simp: answer_step_def intro: credentials_forget credentials_core split: door_answer.split\<close>)

lemma credentials_step:
  assumes "credentials_in G s" and "set (event_grants e) \<subseteq> G"
  shows "credentials_in G (door_step l s e)"
proof -
  have take: "credentials_in G (take_request n s)" for n using assms(1) by (simp add: take_request_def credentials_in_def)
  have "credentials_in G (door_event_step l s e)"
  proof (cases e)
    case (DvAnswer n a)
    with take assms(2) show ?thesis by (auto intro: credentials_answer split: option.split simp: assms(1))
  qed (use assms in \<open>auto simp: type_code_def select_person_def load_rows_def leave_assignment_def
      intro!: credentials_send intro: credentials_core credentials_token credentials_submit credentials_open split: option.split\<close>)
  then show ?thesis unfolding door_step_def by (rule credentials_effects)
qed

lemma credentials_run:
  "credentials_in G s \<Longrightarrow> (\<And>e. e \<in> set es \<Longrightarrow> set (event_grants e) \<subseteq> G) \<Longrightarrow> credentials_in G (door_run l s es)"
  unfolding door_run_def by (induction es arbitrary: s) (auto intro: credentials_step)

lemma credentials_fresh: "credentials_in (set_option (ck_token ck)) (fresh_page ck)"
  by (simp add: credentials_in_def fresh_page_def)

lemma credentials_opened:
  assumes "decode_feld_credential (fl_read l) link = None" and "fl_token l = Some link" and "set_option (ck_token ck) \<subseteq> G"
  shows "credentials_in G (open_page l ck)"
proof -
  have "credentials_in G (fresh_page ck)" using assms(3) by (simp add: credentials_in_def fresh_page_def)
  then have "credentials_in G (pass_door l (fresh_page ck))"
  proof (cases "link = []")
    case True
    with assms(2) \<open>credentials_in G (fresh_page ck)\<close> show ?thesis
      by (auto simp: pass_door_def or_null_def intro: credentials_core)
  next
    case False
    then have link: "or_null (fl_token l) = Some link" using assms(2) by (simp add: or_null_def)
    have cookies: "fp_cookies (fresh_page ck) = ck" by (simp add: fresh_page_def)
    show ?thesis
    proof (cases "or_null (ck_token ck)")
      case None
      with link assms(1) \<open>credentials_in G (fresh_page ck)\<close> show ?thesis by (simp add: pass_door_def cookies credentials_send)
    next
      case (Some t)
      then have "t \<in> G" using assms(3) by (auto simp: or_null_def split: option.splits if_splits)
      then have "credentials_in G ((admit t False (fresh_page ck))\<lparr>fp_view := ViewAssignments\<rparr>)"
        by (rule credentials_core [OF credentials_admit [OF \<open>credentials_in G (fresh_page ck)\<close>]]) simp_all
      with Some link assms(1) \<open>credentials_in G (fresh_page ck)\<close> \<open>t \<in> G\<close> show ?thesis
        by (simp add: pass_door_def cookies load_rows_def credentials_send split: option.split)
    qed
  qed
  then show ?thesis unfolding open_page_def by (rule credentials_effects)
qed


section \<open>Whose rows are shown\<close>

definition asked_with :: "ident \<Rightarrow> feld_page \<Rightarrow> bool" where
  "asked_with t s = list_ex (\<lambda>x. case snd x of AskRows _ u _ \<Rightarrow> u = t | _ \<Rightarrow> False) (fp_asks s)"

text \<open>
  The answers come as from a server and a network in order: rows are those of the person asked for and arrive while the token
  they were asked with is still the phone's, and a token is given out once.
\<close>

definition in_order :: "feld_page \<Rightarrow> door_event \<Rightarrow> bool" where
  "in_order s e =
     (case e of
        DvAnswer n (RowsOk p _ _ _) \<Rightarrow>
          (case map_of (fp_asks s) n of Some (AskRows who t _) \<Rightarrow> fp_token s = Some t \<and> pn_id p = who | _ \<Rightarrow> True)
      | DvAnswer n (UnlockOk t _) \<Rightarrow> \<not> asked_with t s
      | DvAnswer n (ClaimOk t) \<Rightarrow> \<not> asked_with t s
      | _ \<Rightarrow> True)"

fun all_in_order :: "feld_link \<Rightarrow> feld_page \<Rightarrow> door_event list \<Rightarrow> bool" where
  "all_in_order l s [] = True"
| "all_in_order l s (e # es) = (in_order s e \<and> all_in_order l (door_step l s e) es)"

definition asks_for :: "ident \<Rightarrow> feld_page \<Rightarrow> bool" where
  "asks_for w s \<longleftrightarrow> (\<forall>n q t m. (n, AskRows q t m) \<in> set (fp_asks s) \<longrightarrow> fp_token s = Some t \<longrightarrow> q = w)"

definition page_of :: "feld_page \<Rightarrow> bool" where
  "page_of s \<longleftrightarrow> (fp_rows s = [] \<or> fp_person s \<noteq> None \<and> fp_source s = map_option pn_id (fp_person s))
     \<and> (\<exists>w. asks_for w s \<and> (\<forall>p. fp_person s = Some p \<longrightarrow> pn_id p = w))"

lemma asks_core: "asks_for w s \<Longrightarrow> fp_token s' = fp_token s \<Longrightarrow> set (fp_asks s') \<subseteq> set (fp_asks s) \<Longrightarrow> asks_for w s'"
  unfolding asks_for_def by (metis subsetD)

lemma asks_send: "asks_for w s \<Longrightarrow> (\<And>q t m. r = AskRows q t m \<Longrightarrow> q = w) \<Longrightarrow> asks_for w (send_request r s)"
  unfolding asks_for_def send_request_def by simp metis

lemma page_core:
  "page_of s \<Longrightarrow> fp_rows s' = fp_rows s \<or> fp_rows s' = [] \<Longrightarrow> fp_person s' = fp_person s \<Longrightarrow> fp_source s' = fp_source s
   \<Longrightarrow> fp_token s' = fp_token s \<Longrightarrow> set (fp_asks s') \<subseteq> set (fp_asks s) \<Longrightarrow> page_of s'"
  unfolding page_of_def using asks_core [of _ s s'] by metis

lemma send_fields [simp]:
  "fp_rows (send_request r s) = fp_rows s" "fp_person (send_request r s) = fp_person s" "fp_source (send_request r s) = fp_source s"
  "fp_token (send_request r s) = fp_token s"
  by (simp_all add: send_request_def)

lemma page_send: "page_of s \<Longrightarrow> (\<And>q t m. r \<noteq> AskRows q t m) \<Longrightarrow> page_of (send_request r s)"
  unfolding page_of_def using asks_send [of _ s r] by simp blast

lemma page_load: "page_of s \<Longrightarrow> fp_person s = Some p \<Longrightarrow> page_of (load_rows (pn_id p) t m s)"
  unfolding page_of_def load_rows_def using asks_send [of _ s "AskRows (pn_id p) t m"] by auto

lemma page_forget: "page_of (forget_device l s)"
  by (simp add: page_of_def asks_for_def forget_device_def forget_person_and_place_def)

lemma page_submit: "page_of s \<Longrightarrow> page_of (submit_code l s)"
proof -
  assume s: "page_of s"
  have "page_of (s\<lparr>fp_unlocking := True, fp_codeError := None\<rparr>)" by (rule page_core [OF s]) simp_all
  with s show ?thesis by (auto simp: submit_code_def intro: page_send split: option.split)
qed

lemma page_open: "page_of s \<Longrightarrow> page_of (open_assignment a s)"
proof -
  assume s: "page_of s"
  have "page_of (s\<lparr>fp_incident := i, fp_view := v, fp_cookies := c\<rparr>)" for i v c by (rule page_core [OF s]) simp_all
  with s show ?thesis by (auto simp: open_assignment_def intro: page_send split: option.split bool.split)
qed

lemma asks_none: "\<not> asked_with t s \<Longrightarrow> fp_token s' = Some t \<Longrightarrow> set (fp_asks s') \<subseteq> set (fp_asks s) \<Longrightarrow> asks_for w s'"
  by (fastforce simp: asks_for_def asked_with_def list_ex_iff)

lemma page_new_token: "page_of s \<Longrightarrow> \<not> asked_with t s \<Longrightarrow> page_of (s\<lparr>fp_token := Some t\<rparr>)"
  unfolding page_of_def using asks_none [of t s "s\<lparr>fp_token := Some t\<rparr>"] by auto

lemma page_effects: "page_of s \<Longrightarrow> page_of (door_effects l s)"
proof -
  have restore: "page_of (restore_incident l s)" if "page_of s" for s
    by (rule page_core [OF that]) (simp_all add: restore_incident_def Let_def split: option.split)
  have preselect: "page_of (preselect_incident l s)" if s: "page_of s" for s
  proof -
    have "page_of (s\<lparr>fp_preselected := True\<rparr>)" by (rule page_core [OF s]) simp_all
    with s show ?thesis by (auto simp: preselect_incident_def Let_def intro: page_open split: option.split)
  qed
  have release: "page_of (release_lock s)" if "page_of s" for s
    by (rule page_core [OF that]) (simp_all add: release_lock_def)
  assume "page_of s"
  then show ?thesis unfolding door_effects_def auto_submit_def by (simp add: restore preselect release page_submit)
qed

lemma page_rows_arrive:
  assumes "page_of s" and "asks_for who s" and "pn_id p = who" and "\<And>q. fp_person s = Some q \<Longrightarrow> pn_id q = who"
  shows "page_of (rows_arrive who p rows functions here s)"
proof -
  have "asks_for who (rows_arrive who p rows functions here s)" by (rule asks_core [OF assms(2)]) (simp_all add: rows_arrive_def)
  moreover have "fp_source (rows_arrive who p rows functions here s) = Some who" by (simp add: rows_arrive_def)
  moreover obtain q where "fp_person (rows_arrive who p rows functions here s) = Some q" "pn_id q = who"
    using assms(3,4) by (cases "fp_person s") (simp_all add: rows_arrive_def)
  ultimately show ?thesis unfolding page_of_def by simp
qed

lemma page_claim_ok:
  assumes "\<not> asked_with t s"
  shows "page_of (claim_ok p t s)"
proof -
  define x where "x c = (admit t True s)\<lparr>fp_cookies := c, fp_person := Some p, fp_view := ViewAssignments, fp_rows := [], fp_incident := None\<rparr>" for c
  have "asks_for (pn_id p) (x c)" for c by (rule asks_none [OF assms]) (simp_all add: admit_def x_def)
  then have "page_of (x c)" for c by (simp add: page_of_def x_def)
  then have "page_of (load_rows (pn_id p) t False (x c))" for c by (rule page_load) (simp add: x_def)
  then show ?thesis by (simp add: claim_ok_def Let_def x_def)
qed

lemma take_request_fields [simp]:
  "fp_token (take_request n s) = fp_token s" "fp_person (take_request n s) = fp_person s" "set (fp_asks (take_request n s)) \<subseteq> set (fp_asks s)"
  by (auto simp: take_request_def)

lemma take_not_asked: "\<not> asked_with t s \<Longrightarrow> \<not> asked_with t (take_request n s)"
  using take_request_fields(3) [of n s] unfolding asked_with_def list_ex_iff by blast

lemma page_take: "page_of s \<Longrightarrow> page_of (take_request n s)"
  by (erule page_core) (auto simp: take_request_def)

lemma page_rows_fail: "page_of s \<Longrightarrow> page_of (rows_fail l silent x m s)"
proof -
  assume s: "page_of s"
  have "page_of (s\<lparr>fp_rows := []\<rparr>)" by (rule page_core [OF s]) simp_all
  with s show ?thesis by (simp add: rows_fail_def page_forget)
qed

lemma page_answer:
  assumes s: "page_of s" and req: "map_of (fp_asks s) n = Some r" and ord: "in_order s (DvAnswer n a)"
  shows "page_of (answer_step l r a (take_request n s))"
proof -
  let ?t = "take_request n s"
  have t: "page_of ?t" by (rule page_take [OF s])
  show ?thesis
  proof (cases r)
    case (AskSession u)
    have code: "page_of (?t\<lparr>fp_view := v\<rparr>)" "page_of (?t\<lparr>fp_codeError := f, fp_view := v\<rparr>)" for f v
      by (rule page_core [OF t]; simp)+
    show ?thesis
    proof (cases a)
      case (UnlockOk tok roster)
      with ord have "\<not> asked_with tok ?t" by (simp add: in_order_def take_not_asked)
      then have "page_of (?t\<lparr>fp_token := Some tok\<rparr>)" by (rule page_new_token [OF t])
      then show ?thesis unfolding AskSession UnlockOk answer_step_def
        by (simp, elim page_core) (simp_all add: show_picker_def admit_def)
    qed (simp_all add: AskSession answer_step_def refuse_def code)
  next
    case (AskUnlock u c)
    have fails: "page_of (unlock_failed f ?t)" for f by (rule page_core [OF t]) (simp_all add: unlock_failed_def)
    show ?thesis
    proof (cases a)
      case (UnlockOk tok roster)
      with ord have "\<not> asked_with tok ?t" by (simp add: in_order_def take_not_asked)
      then have "page_of (?t\<lparr>fp_token := Some tok\<rparr>)" by (rule page_new_token [OF t])
      then show ?thesis unfolding AskUnlock UnlockOk answer_step_def
        by (simp, elim page_core) (simp_all add: show_picker_def unlock_ok_def)
    qed (simp_all add: AskUnlock answer_step_def fails)
  next
    case (AskClaim u p)
    have err: "page_of (?t\<lparr>fp_error := e, fp_recoverable := True\<rparr>)" for e by (rule page_core [OF t]) simp_all
    show ?thesis
    proof (cases a)
      case (ClaimOk tok)
      with ord have "\<not> asked_with tok ?t" by (simp add: in_order_def take_not_asked)
      then show ?thesis by (simp add: AskClaim ClaimOk answer_step_def page_claim_ok)
    qed (simp_all add: AskClaim answer_step_def claim_failed_def err page_forget)
  next
    case (AskRows who u silent)
    show ?thesis
    proof (cases a)
      case (RowsOk p rows roles here)
      with ord req AskRows have tok: "fp_token s = Some u" "pn_id p = who" by (simp_all add: in_order_def)
      from s obtain w where w: "asks_for w s" "\<And>q. fp_person s = Some q \<Longrightarrow> pn_id q = w" unfolding page_of_def by blast
      have "(n, AskRows who u silent) \<in> set (fp_asks s)" using req AskRows by (simp add: map_of_SomeD)
      with w(1) tok(1) have who: "who = w" unfolding asks_for_def by blast
      have "asks_for w ?t" by (rule asks_core [OF w(1)]) simp_all
      then have "page_of (rows_arrive who p rows roles here ?t)"
        using w(2) tok(2) by (intro page_rows_arrive [OF t]) (simp_all add: who)
      then show ?thesis by (simp add: AskRows RowsOk answer_step_def)
    qed (simp_all add: AskRows answer_step_def page_rows_fail [OF t])
  next
    case (AskLogout u)
    then show ?thesis using t by (cases a) (simp_all add: answer_step_def page_forget)
  next
    case (AskRekoLink i q u)
    have "page_of (?t\<lparr>fp_reko := x\<rparr>)" for x by (rule page_core [OF t]) simp_all
    then show ?thesis using AskRekoLink t by (cases a) (simp_all add: answer_step_def)
  next
    case (AskAttendance q u)
    have "page_of (?t\<lparr>fp_attending := x\<rparr>)" "page_of (?t\<lparr>fp_checkedIn := y, fp_attending := x\<rparr>)" for x y
      by (rule page_core [OF t]; simp)+
    then show ?thesis using AskAttendance by (cases a) (simp_all add: answer_step_def)
  qed
qed

lemma page_step:
  assumes s: "page_of s" and ord: "in_order s e"
  shows "page_of (door_step l s e)"
proof -
  have "page_of (door_event_step l s e)"
  proof (cases e)
    case (DvType x)
    have "page_of (type_code x s)" by (rule page_core [OF s]) (simp_all add: type_code_def)
    with DvType s show ?thesis by simp
  next
    case DvSecond
    have "page_of (s\<lparr>fp_lock := x\<rparr>)" for x by (rule page_core [OF s]) simp_all
    with DvSecond s show ?thesis by simp
  next
    case DvDismiss
    have "page_of (s\<lparr>fp_error := x, fp_recoverable := y\<rparr>)" for x y by (rule page_core [OF s]) simp_all
    with DvDismiss s show ?thesis by simp
  next
    case DvBack
    have "page_of (leave_assignment s)" by (rule page_core [OF s]) (simp_all add: leave_assignment_def)
    with DvBack s show ?thesis by simp
  next
    case DvCheckIn
    have "page_of (s\<lparr>fp_attending := x\<rparr>)" for x by (rule page_core [OF s]) simp_all
    with DvCheckIn s show ?thesis by (auto intro: page_send split: option.split)
  next
    case (DvReported i x y)
    have "page_of (s\<lparr>fp_rows := rows\<rparr>)" if "fp_rows s = [] \<Longrightarrow> rows = []" for rows
      using s that by (auto simp: page_of_def asks_for_def)
    with DvReported show ?thesis by simp
  next
    case (DvAnswer n a)
    show ?thesis
    proof (cases "map_of (fp_asks s) n")
      case (Some r)
      with page_answer [OF s Some] ord DvAnswer show ?thesis by simp
    qed (simp add: DvAnswer s)
  qed (use s in \<open>auto simp: select_person_def intro: page_send page_load page_submit page_open split: option.split\<close>)
  then show ?thesis unfolding door_step_def by (rule page_effects)
qed

lemma page_run: "page_of s \<Longrightarrow> all_in_order l s es \<Longrightarrow> page_of (door_run l s es)"
  by (induction es arbitrary: s) (auto simp: door_run_def intro: page_step)

lemma page_opened: "page_of (open_page l ck)"
proof -
  have one: "page_of s" if "fp_rows s = []" "fp_person s = None" "fp_asks s = [] \<or> fp_asks s = [(0, AskRows w t m)]" for s w t m
  proof -
    have "asks_for w s" using that(3) by (auto simp: asks_for_def)
    with that show ?thesis by (auto simp: page_of_def)
  qed
  have fresh: "page_of (fresh_page ck)" by (rule one) (simp_all add: fresh_page_def)
  have "page_of (pass_door l (fresh_page ck))"
  proof (cases "or_null (fl_token l)")
    case None
    then show ?thesis by (simp add: pass_door_def) (rule page_core [OF fresh]; simp)
  next
    case (Some link)
    note link = Some
    show ?thesis
    proof (cases "decode_feld_credential (fl_read l) link")
      case None
      show ?thesis
      proof (cases "or_null (ck_token ck) = None \<or> or_null (ck_person ck) = None")
        case True
        then have "pass_door l (fresh_page ck) = send_request (AskSession link) (fresh_page ck)"
          using link None by (auto simp: pass_door_def fresh_page_def split: option.split)
        then show ?thesis by (simp add: page_send fresh)
      next
        case False
        then obtain t w where "or_null (ck_token ck) = Some t" "or_null (ck_person ck) = Some w" by auto
        then show ?thesis using link None
          by (intro one [of _ w t False]) (simp_all add: pass_door_def fresh_page_def load_rows_def send_request_def admit_def)
      qed
    next
      case (Some b)
      show ?thesis
      proof (cases b)
        case None
        have "page_of ((refuse (Some LinkExpired) (fresh_page ck))\<lparr>fp_view := ViewCode\<rparr>)"
          by (rule page_core [OF fresh]) (simp_all add: refuse_def)
        then show ?thesis using link Some None by (simp add: pass_door_def)
      next
        case (Some w)
        then show ?thesis using link \<open>decode_feld_credential (fl_read l) link = Some b\<close>
          by (intro one [of _ w link False]) (simp_all add: pass_door_def fresh_page_def load_rows_def send_request_def admit_def Let_def)
      qed
    qed
  qed
  then show ?thesis unfolding open_page_def by (rule page_effects)
qed

text \<open>
  C1. While answers come in order, the rows on the page are those that were asked for the person named on it.
\<close>

theorem rows_belong_to_the_person:
  assumes "all_in_order l (open_page l ck) es" and "fp_rows (door_run l (open_page l ck) es) \<noteq> []"
  shows "\<exists>p. fp_person (door_run l (open_page l ck) es) = Some p \<and> fp_source (door_run l (open_page l ck) es) = Some (pn_id p)"
  using page_run [OF page_opened assms(1)] assms(2) by (auto simp: page_of_def)

lemmas door_defs = door_run_def door_step_def door_effects_def restore_incident_def preselect_incident_def release_lock_def
  auto_submit_def submit_code_def send_request_def load_rows_def take_request_def answer_step_def open_page_def pass_door_def fresh_page_def
  admit_def show_picker_def unlock_ok_def unlock_failed_def claim_ok_def rows_arrive_def forget_device_def forget_person_and_place_def
  select_person_def is_locked_def code_open_def type_code_def or_null_def is_credential_def decode_feld_credential_def

text \<open>The poster of the examples: a link that is no credential.\<close>

definition poster :: feld_link where
  "poster = \<lparr>fl_token = Some ''poster'', fl_slip = None, fl_read = (\<lambda>t. None)\<rparr>"

definition no_cookies :: feld_cookies where
  "no_cookies = \<lparr>ck_token = None, ck_person = None, ck_incident = None, ck_name = None\<rparr>"

definition coming_in :: "string \<Rightarrow> feld_person \<Rightarrow> ident \<Rightarrow> ident \<Rightarrow> nat \<Rightarrow> door_event list" where
  "coming_in code p unlocked bound n =
     [DvType code, DvAnswer n (UnlockOk unlocked [p]), DvPick p, DvAnswer (n + 1) (ClaimOk bound)]"





text \<open>Rows of the examples: a Schadenplatz of a crew.\<close>

definition crew_row :: "ident \<Rightarrow> feld_row" where
  "crew_row i =
     \<lparr>fa_source = SrcCrew, fa_is_active = True, fa_incident_status = Enroute, fa_arrived_at = None, fa_field_complete_reported_at = None,
      fa_rapport_state = RapportNone, fa_has_been_dispatched = True, fa_reko = None, fw_incident = i, fw_group = None, fw_position = None\<rparr>"

definition meier :: feld_person where "meier = \<lparr>pn_id = ''m'', pn_name = ''Meier''\<rparr>"
definition huber :: feld_person where "huber = \<lparr>pn_id = ''h'', pn_name = ''Huber''\<rparr>"

text \<open>Meier comes in and sees the own rows.\<close>

definition meier_works :: "feld_row list \<Rightarrow> string list \<Rightarrow> door_event list" where
  "meier_works rows roles = coming_in ''1234'' meier ''u'' ''b'' 1 @ [DvAnswer 3 (RowsOk meier rows roles True)]"

theorem rows_belong_to_the_person_witness:
  "fp_source (door_run poster (open_page poster no_cookies) (meier_works [crew_row ''i''] [])) = Some ''m''
   \<and> fp_person (door_run poster (open_page poster no_cookies) (meier_works [crew_row ''i''] [])) = Some meier"
proof -
  have "all_in_order poster (open_page poster no_cookies) (meier_works [crew_row ''i''] [])"
    "fp_rows (door_run poster (open_page poster no_cookies) (meier_works [crew_row ''i''] [])) \<noteq> []"
    by code_simp+
  from rows_belong_to_the_person [OF this]
  obtain p where "fp_person (door_run poster (open_page poster no_cookies) (meier_works [crew_row ''i''] [])) = Some p"
    "fp_source (door_run poster (open_page poster no_cookies) (meier_works [crew_row ''i''] [])) = Some (pn_id p)" by blast
  moreover have "fp_person (door_run poster (open_page poster no_cookies) (meier_works [crew_row ''i''] [])) = Some meier" by code_simp
  ultimately show ?thesis by (auto simp: meier_def)
qed


section \<open>Where the code falls short\<close>

text \<open>Meier's phone polls, Meier hands it on and Huber comes in while the answer of the poll is under way.\<close>

definition handed_on :: "feld_row list \<Rightarrow> string list \<Rightarrow> door_event list" where
  "handed_on rows roles = meier_works rows roles @ [DvPoll, DvNotMe, DvAnswer 5 DoorDone] @ coming_in ''1234'' huber ''v'' ''c'' 6"

text \<open>The rows of the one before stand on the next one's page, and the name that signs the forms is theirs again.\<close>

theorem late_rows_of_the_one_before:
  "let s = door_run poster (open_page poster no_cookies)
             (handed_on [crew_row ''i''] [] @ [DvAnswer 8 (RowsOk huber [] [] False), DvAnswer 4 (RowsOk meier [crew_row ''i''] [] True)])
   in fp_person s = Some huber \<and> fp_rows s = [crew_row ''i''] \<and> ck_name (fp_cookies s) = Some ''Meier''"
  by code_simp

text \<open>A refusal of the old token throws the next one out, although their own token is good.\<close>

theorem late_refusal_throws_out_the_next:
  "let s = door_run poster (open_page poster no_cookies) (handed_on [crew_row ''i''] [] @ [DvAnswer 4 (RowsFailed (Some 401) [])])
   in fp_view s = ViewCode \<and> fp_token s = None \<and> ck_token (fp_cookies s) = None"
  by code_simp

text \<open>The roles of the one before stay on the page until the next one's rows arrive, however long that takes.\<close>

theorem roles_of_the_one_before_stay:
  "let s = door_run poster (open_page poster no_cookies) (handed_on [crew_row ''i''] [''magazin''] @ [DvAnswer 8 (RowsFailed None [])])
   in fp_person s = Some huber \<and> fp_functions s = [''magazin''] \<and> fp_checkedIn s"
  by code_simp

text \<open>
  Two taps on one's own name: the server takes the unlocked token once, and its refusal of the second drops the bound token
  the first has earned, which nobody revokes.
\<close>

theorem second_tap_drops_the_device:
  "let s = door_run poster (open_page poster no_cookies)
             [DvType ''1234'', DvAnswer 1 (UnlockOk ''u'' [meier]), DvPick meier, DvPick meier, DvAnswer 2 (ClaimOk ''b''), DvAnswer 3 (ClaimRefused 401)]
   in fp_view s = ViewCode \<and> fp_token s = None \<and> AskLogout ''b'' \<notin> set (fp_sent s)"
  by code_simp

text \<open>When the lockout ends the digits that are still there are sent again at once.\<close>

theorem lockout_end_sends_again:
  "let s = door_run poster (open_page poster no_cookies) [DvType ''1234'', DvAnswer 1 (UnlockRefused (CodeLocked 1)), DvSecond]
   in fp_sent s = [AskSession ''poster'', AskUnlock ''poster'' ''1234'', AskUnlock ''poster'' ''1234'']"
  by code_simp

end
