(* ===== verification/FieldFeed.thy ===== *)
theory FieldFeed
  imports FieldDoor "HOL-Library.Product_Lexorder"
begin

text \<open>
  The list of a crew: which rows it shows in which order, how many stops an Auftrag has and at which of them the squad is
  (\<^verbatim>\<open>feed\<close>, \<^verbatim>\<open>auftragSizes\<close> and \<^verbatim>\<open>auftragCurrentStop\<close> of \<^verbatim>\<open>frontend/app/feld/page.tsx\<close>), and what a row of it is marked as.
\<close>

definition bucket_of :: "feld_row \<Rightarrow> nat" where
  "bucket_of a = feed_bucket (feld_assignment.truncate a)"

definition live_row :: "feld_row \<Rightarrow> bool" where
  "live_row a = is_live_assignment (feld_assignment.truncate a)"

definition bucket_cmp :: "feld_row \<Rightarrow> feld_row \<Rightarrow> int" where
  "bucket_cmp a b = int (bucket_of a) - int (bucket_of b)"

definition own_feed :: "string list \<Rightarrow> feld_row list \<Rightarrow> feld_row list" where
  "own_feed roles rows =
     js_sort bucket_cmp (filter (\<lambda>a. fa_source a \<noteq> SrcMagazin \<or> \<not> js_includes roles ''magazin'') rows)"

definition auftrag_sizes :: "feld_row list \<Rightarrow> ident \<rightharpoonup> nat" where
  "auftrag_sizes feed =
     foldl (\<lambda>m a. case or_null (fw_group a) of None \<Rightarrow> m | Some g \<Rightarrow> m(g \<mapsto> (case m g of None \<Rightarrow> 0 | Some n \<Rightarrow> n) + 1)) Map.empty feed"

record stop_candidate =
  sc_row :: ident
  sc_place :: nat
  sc_arrived :: bool

definition candidate_of :: "feld_row \<Rightarrow> stop_candidate" where
  "candidate_of a =
     \<lparr>sc_row = fw_incident a, sc_place = (case fw_position a of None \<Rightarrow> 0 | Some n \<Rightarrow> n), sc_arrived = (or_null (fa_arrived_at a) \<noteq> None)\<rparr>"

definition candidate_wins :: "stop_candidate \<Rightarrow> stop_candidate option \<Rightarrow> bool" where
  "candidate_wins c held =
     (case held of
        None \<Rightarrow> True
      | Some h \<Rightarrow> if sc_arrived c \<noteq> sc_arrived h then sc_arrived c else sc_place c < sc_place h)"

definition best_stops :: "feld_row list \<Rightarrow> ident \<rightharpoonup> stop_candidate" where
  "best_stops feed =
     foldl (\<lambda>m a. case or_null (fw_group a) of
                     None \<Rightarrow> m
                   | Some g \<Rightarrow> if live_row a \<and> candidate_wins (candidate_of a) (m g) then m(g \<mapsto> candidate_of a) else m)
       Map.empty feed"

definition auftrag_current_stop :: "feld_row list \<Rightarrow> ident \<rightharpoonup> ident" where
  "auftrag_current_stop feed g = map_option sc_row (best_stops feed g)"

text \<open>What the row at a place of the list says of itself.\<close>

record feed_mark =
  fm_startsPast :: bool
  fm_settled :: bool
  fm_startsAuftrag :: bool
  fm_current :: bool
  fm_later :: bool

definition feed_mark_at :: "feld_row list \<Rightarrow> nat \<Rightarrow> feed_mark" where
  "feed_mark_at feed k =
     (let a = feed ! k; live = live_row a;
          count = (case or_null (fw_group a) of None \<Rightarrow> 0 | Some g \<Rightarrow> (case auftrag_sizes feed g of None \<Rightarrow> 0 | Some n \<Rightarrow> n));
          current = (case or_null (fw_group a) of None \<Rightarrow> None | Some g \<Rightarrow> auftrag_current_stop feed g);
          isCurrent = (count > 1 \<and> current = Some (fw_incident a))
      in \<lparr>fm_startsPast = (\<not> live \<and> (k = 0 \<or> live_row (feed ! (k - 1)))),
          fm_settled = (\<not> live \<and> \<not> owes_rapport (feld_assignment.truncate a)),
          fm_startsAuftrag = (count > 1 \<and> (k = 0 \<or> fw_group (feed ! (k - 1)) \<noteq> fw_group a)),
          fm_current = isCurrent,
          fm_later = (count > 1 \<and> live \<and> current \<noteq> None \<and> \<not> isCurrent)\<rparr>)"

section \<open>Facts\<close>

interpretation bucket: js_comparator bucket_cmp
  by unfold_locales (auto simp: bucket_cmp_def)

definition live_in :: "ident \<Rightarrow> feld_row list \<Rightarrow> feld_row list" where
  "live_in g feed = filter (\<lambda>a. or_null (fw_group a) = Some g \<and> live_row a) feed"

definition stop_key :: "stop_candidate \<Rightarrow> bool \<times> nat" where
  "stop_key c = (\<not> sc_arrived c, sc_place c)"

lemma wins_key: "candidate_wins c (Some h) \<longleftrightarrow> stop_key c < stop_key h"
  by (auto simp: candidate_wins_def stop_key_def)

lemma best_stops_snoc:
  "best_stops (feed @ [a]) = (case or_null (fw_group a) of
      None \<Rightarrow> best_stops feed
    | Some g \<Rightarrow> if live_row a \<and> candidate_wins (candidate_of a) (best_stops feed g) then (best_stops feed)(g \<mapsto> candidate_of a) else best_stops feed)"
  by (simp only: best_stops_def foldl_append foldl.simps)

lemma live_in_snoc: "live_in g (feed @ [a]) = live_in g feed @ (if or_null (fw_group a) = Some g \<and> live_row a then [a] else [])"
  by (simp add: live_in_def)

lemma best_stops_least:
  "(best_stops feed g = None \<longleftrightarrow> live_in g feed = [])
   \<and> (\<forall>c. best_stops feed g = Some c \<longrightarrow>
        c \<in> candidate_of ` set (live_in g feed) \<and> (\<forall>a\<in>set (live_in g feed). stop_key c \<le> stop_key (candidate_of a)))"
proof (induction feed rule: rev_induct)
  case Nil
  then show ?case by (simp add: best_stops_def live_in_def)
next
  case (snoc a feed)
  show ?case
  proof (cases "or_null (fw_group a) = Some g \<and> live_row a")
    case False
    then have "best_stops (feed @ [a]) g = best_stops feed g" by (auto simp: best_stops_snoc split: option.split)
    moreover from False have "live_in g (feed @ [a]) = live_in g feed" by (auto simp: live_in_snoc)
    ultimately show ?thesis using snoc by simp
  next
    case True
    show ?thesis
    proof (cases "best_stops feed g")
      case None
      with True have "best_stops (feed @ [a]) g = Some (candidate_of a)" by (simp add: best_stops_snoc candidate_wins_def)
      with True None snoc show ?thesis by (simp add: live_in_snoc)
    next
      case (Some h)
      with snoc have h: "h \<in> candidate_of ` set (live_in g feed)" "\<forall>x\<in>set (live_in g feed). stop_key h \<le> stop_key (candidate_of x)" by simp_all
      show ?thesis
      proof (cases "stop_key (candidate_of a) < stop_key h")
        case less: True
        with True Some have "best_stops (feed @ [a]) g = Some (candidate_of a)" by (simp add: best_stops_snoc wins_key)
        moreover have "stop_key (candidate_of a) \<le> stop_key (candidate_of x)" if "x \<in> set (live_in g feed)" for x
          using less h(2) that by (meson less_imp_le order_trans)
        ultimately show ?thesis using True by (simp add: live_in_snoc)
      next
        case False
        with True Some have "best_stops (feed @ [a]) g = Some h" by (simp add: best_stops_snoc wins_key)
        with True h False show ?thesis by (simp add: live_in_snoc not_less)
      qed
    qed
  qed
qed

definition of_group :: "ident \<Rightarrow> feld_row list \<Rightarrow> feld_row list" where
  "of_group g feed = filter (\<lambda>a. or_null (fw_group a) = Some g) feed"

lemma sizes_count: "auftrag_sizes feed g = (if of_group g feed = [] then None else Some (length (of_group g feed)))"
proof (induction feed rule: rev_induct)
  case (snoc a feed)
  have "auftrag_sizes (feed @ [a]) = (case or_null (fw_group a) of None \<Rightarrow> auftrag_sizes feed
      | Some g \<Rightarrow> (auftrag_sizes feed)(g \<mapsto> (case auftrag_sizes feed g of None \<Rightarrow> 0 | Some n \<Rightarrow> n) + 1))"
    by (simp only: auftrag_sizes_def foldl_append foldl.simps)
  moreover have "of_group g (feed @ [a]) = of_group g feed @ (if or_null (fw_group a) = Some g then [a] else [])"
    by (simp add: of_group_def)
  ultimately show ?case using snoc by (auto split: option.split)
qed (simp add: auftrag_sizes_def of_group_def)

definition stands_there :: "feld_row \<Rightarrow> bool" where
  "stands_there a = sc_arrived (candidate_of a)"

definition place_of :: "feld_row \<Rightarrow> nat" where
  "place_of a = sc_place (candidate_of a)"

lemma current_stop:
  "auftrag_current_stop feed g = Some i \<longleftrightarrow> (\<exists>a\<in>set (live_in g feed). best_stops feed g = Some (candidate_of a) \<and> fw_incident a = i)"
proof
  assume "auftrag_current_stop feed g = Some i"
  then obtain c where c: "best_stops feed g = Some c" "sc_row c = i" by (auto simp: auftrag_current_stop_def)
  with best_stops_least [of feed g] obtain a where "a \<in> set (live_in g feed)" "c = candidate_of a" by auto
  with c show "\<exists>a\<in>set (live_in g feed). best_stops feed g = Some (candidate_of a) \<and> fw_incident a = i"
    by (intro bexI [of _ a]) (simp_all add: candidate_of_def)
qed (auto simp: auftrag_current_stop_def candidate_of_def)

section \<open>Properties\<close>

text \<open>
  The list of a crew holds every row that is not a stand-in for material, the most urgent bucket first and in each bucket
  in the order the server gave.
\<close>

theorem feed_orders_the_rows:
  "sorted_wrt (\<lambda>a b. bucket_of a \<le> bucket_of b) (own_feed roles rows)
   \<and> filter (\<lambda>a. bucket_of a = n) (own_feed roles rows)
       = filter (\<lambda>a. bucket_of a = n \<and> (fa_source a \<noteq> SrcMagazin \<or> ''magazin'' \<notin> set roles)) rows"
proof
  show "sorted_wrt (\<lambda>a b. bucket_of a \<le> bucket_of b) (own_feed roles rows)"
    using bucket.sorted_sort_cmp by (simp add: own_feed_def bucket_cmp_def)
  have "filter (\<lambda>a. bucket_of a = n) (own_feed roles rows)
      = filter (\<lambda>a. bucket_of a = n) (filter (\<lambda>a. fa_source a \<noteq> SrcMagazin \<or> \<not> js_includes roles ''magazin'') rows)"
    unfolding own_feed_def by (rule bucket.sort_stable) (simp add: bucket_cmp_def)
  then show "filter (\<lambda>a. bucket_of a = n) (own_feed roles rows)
       = filter (\<lambda>a. bucket_of a = n \<and> (fa_source a \<noteq> SrcMagazin \<or> ''magazin'' \<notin> set roles)) rows"
    by (simp add: conj_commute)
qed

text \<open>
  Of an Auftrag with several stops exactly one is marked as the job in hand, as long as one is live: a stop the squad
  stands at before one it does not, and among those the earliest of the route.
\<close>

theorem one_stop_is_the_job_in_hand:
  assumes "distinct (map fw_incident feed)" and "live_in g feed \<noteq> []" and "length (of_group g feed) > 1"
  shows "\<exists>k. (\<forall>j. (j < length feed \<and> or_null (fw_group (feed ! j)) = Some g \<and> fm_current (feed_mark_at feed j)) = (j = k))
    \<and> k < length feed \<and> live_row (feed ! k)
    \<and> list_all (\<lambda>b. (stands_there b \<longrightarrow> stands_there (feed ! k)) \<and> (stands_there b = stands_there (feed ! k) \<longrightarrow> place_of (feed ! k) \<le> place_of b))
        (live_in g feed)"
proof -
  have size: "auftrag_sizes feed g = Some (length (of_group g feed))" using assms(3) by (auto simp: sizes_count)
  obtain c where c: "best_stops feed g = Some c" using best_stops_least [of feed g] assms(2) by (cases "best_stops feed g") auto
  from best_stops_least [of feed g] c obtain a where a: "a \<in> set (live_in g feed)" "c = candidate_of a" by auto
  have current: "auftrag_current_stop feed g = Some (fw_incident a)" using c a(2) by (simp add: auftrag_current_stop_def candidate_of_def)
  have mark: "fm_current (feed_mark_at feed k) \<longleftrightarrow> fw_incident (feed ! k) = fw_incident a" if "or_null (fw_group (feed ! k)) = Some g" for k
    using that size current assms(3) by (auto simp: feed_mark_at_def Let_def)
  have "a \<in> set feed" and group: "or_null (fw_group a) = Some g" and live: "live_row a" using a(1) by (auto simp: live_in_def)
  then obtain k where k: "k < length feed" "feed ! k = a" by (auto simp: in_set_conv_nth)
  have same: "j = k" if "j < length feed" "fw_incident (feed ! j) = fw_incident a" for j
    using assms(1) that k by (auto simp: distinct_conv_nth)
  have "(j < length feed \<and> or_null (fw_group (feed ! j)) = Some g \<and> fm_current (feed_mark_at feed j)) = (j = k)" for j
    using same [of j] mark [of j] k group by auto
  moreover have "(stands_there b \<longrightarrow> stands_there a) \<and> (stands_there b = stands_there a \<longrightarrow> place_of a \<le> place_of b)"
    if "b \<in> set (live_in g feed)" for b
  proof -
    have "stop_key (candidate_of a) \<le> stop_key (candidate_of b)" using best_stops_least [of feed g] c a(2) that by blast
    then show ?thesis by (auto simp: stop_key_def stands_there_def place_of_def)
  qed
  ultimately show ?thesis using k live by (intro exI [of _ k]) (simp add: list_all_iff)
qed

definition route_row :: "ident \<Rightarrow> nat \<Rightarrow> bool \<Rightarrow> feld_row" where
  "route_row i n arrived =
     (crew_row i)\<lparr>fa_arrived_at := (if arrived then Some ''14:00'' else None), fw_group := Some ''r'', fw_position := Some n\<rparr>"

theorem one_stop_is_the_job_in_hand_witness:
  "\<exists>k. k < 2 \<and> live_row ([route_row ''i'' 1 True, route_row ''j'' 0 False] ! k)"
proof -
  have "distinct (map fw_incident [route_row ''i'' 1 True, route_row ''j'' 0 False])"
    "live_in ''r'' [route_row ''i'' 1 True, route_row ''j'' 0 False] \<noteq> []"
    "length (of_group ''r'' [route_row ''i'' 1 True, route_row ''j'' 0 False]) > 1"
    by code_simp+
  from one_stop_is_the_job_in_hand [OF this] obtain k where "k < length [route_row ''i'' 1 True, route_row ''j'' 0 False]"
    "live_row ([route_row ''i'' 1 True, route_row ''j'' 0 False] ! k)" by blast
  then show ?thesis by (intro exI [of _ k]) simp
qed

text \<open>Where the stops of an Auftrag are in different buckets its heading opens again.\<close>

theorem heading_opens_twice:
  "let feed = own_feed [] [route_row ''i'' 0 True, (crew_row ''x'')\<lparr>fa_is_active := False\<rparr>, route_row ''j'' 1 False\<lparr>fa_rapport_state := RapportSubmitted\<rparr>]
   in map fw_incident feed = [''i'', ''x'', ''j''] \<and> map (\<lambda>k. fm_startsAuftrag (feed_mark_at feed k)) [0, 1, 2] = [True, False, True]"
  by code_simp

end
