(* ===== verification/Readiness.thy ===== *)
theory Readiness
  imports Messages HttpTransport BoardTypes JsText
begin

text \<open>
  The Bereitschaft checklist: \<^verbatim>\<open>frontend/lib/checklist-tasks.ts\<close>, the ticking of
  \<^verbatim>\<open>components/event-setup-checklist.tsx\<close> and the badge and auto-open of
  \<^verbatim>\<open>components/board/use-board-checklist.ts\<close>. The JSON reader of the engine and the message catalogue are arguments.
\<close>

section \<open>Rows\<close>

datatype checklist_call =
    CopyCheckIn | PrintCheckIn | CopyAlarm | PrintAlarm | CopyFeld | PrintFeld
  | TestPrint | OpenFallback | OpenVehicles | OpenAttendance | OpenRekoPicker

datatype checklist_priority = PrioCritical | PrioRecommended | PrioOptional

record checklist_task =
  ct_id :: ident
  ct_title :: string
  ct_description :: string
  ct_priority :: checklist_priority
  ct_whatsapp :: "nat option"
  ct_note :: "string option"
  ct_actions :: "(string \<times> checklist_call) list"
  ct_completed :: bool
  ct_count :: "int option"
  ct_total :: "int option"
  ct_details :: "string option"

record checklist_counts =
  cc_checkedIn :: int
  cc_totalVehicles :: int
  cc_drivers :: int
  cc_withoutDriver :: int
  cc_reko :: int
  cc_magazin :: int
  cc_printerEnabled :: bool
  cc_printerOnline :: bool
  cc_fallback :: bool

definition link_action :: "message_translate \<Rightarrow> checklist_counts \<Rightarrow> checklist_call \<Rightarrow> checklist_call \<Rightarrow> string \<times> checklist_call" where
  "link_action t p copy print =
     (if cc_printerEnabled p \<and> cc_printerOnline p then (t ''checklist.actions.printQr'' [], print)
      else (t ''checklist.actions.copyLink'' [], copy))"

definition plain_task :: "message_translate \<Rightarrow> string \<Rightarrow> checklist_priority \<Rightarrow> checklist_task" where
  "plain_task t i prio =
     \<lparr>ct_id = i, ct_title = t (''checklist.tasks.'' @ i @ ''.title'') [], ct_description = t (''checklist.tasks.'' @ i @ ''.description'') [],
      ct_priority = prio, ct_whatsapp = None, ct_note = None, ct_actions = [], ct_completed = False, ct_count = None, ct_total = None, ct_details = None\<rparr>"

definition noted_task :: "message_translate \<Rightarrow> string \<Rightarrow> checklist_priority \<Rightarrow> checklist_task" where
  "noted_task t i prio = (plain_task t i prio)\<lparr>ct_note := Some (t (''checklist.tasks.'' @ i @ ''.note'') [])\<rparr>"

definition whatsapp_task :: "message_translate \<Rightarrow> string \<Rightarrow> nat \<Rightarrow> checklist_task" where
  "whatsapp_task t i n = (noted_task t i PrioRecommended)\<lparr>ct_whatsapp := Some n\<rparr>"

definition checkin_task :: "message_translate \<Rightarrow> checklist_counts \<Rightarrow> checklist_task" where
  "checkin_task t p =
     (noted_task t ''personnel-checkin'' PrioCritical)
       \<lparr>ct_completed := cc_checkedIn p \<ge> 3, ct_count := Some (cc_checkedIn p),
        ct_details := Some (t ''checklist.tasks.personnel-checkin.details'' [(''count'', MessageNumber (cc_checkedIn p))]),
        ct_actions := [link_action t p CopyCheckIn PrintCheckIn, (t ''checklist.actions.openAttendance'' [], OpenAttendance)]\<rparr>"

definition link_task :: "message_translate \<Rightarrow> checklist_counts \<Rightarrow> string \<Rightarrow> checklist_call \<Rightarrow> checklist_call \<Rightarrow> checklist_task" where
  "link_task t p i copy print = (noted_task t i PrioRecommended)\<lparr>ct_actions := [link_action t p copy print]\<rparr>"

definition reko_task :: "message_translate \<Rightarrow> checklist_counts \<Rightarrow> checklist_task" where
  "reko_task t p =
     (plain_task t ''assign-reko'' PrioRecommended)
       \<lparr>ct_completed := cc_reko p \<ge> 1, ct_count := Some (cc_reko p),
        ct_details := Some (t ''checklist.tasks.assign-reko.details'' [(''count'', MessageNumber (cc_reko p))]),
        ct_actions := [(t ''checklist.actions.chooseReko'' [], OpenRekoPicker)]\<rparr>"

definition drivers_task :: "message_translate \<Rightarrow> checklist_counts \<Rightarrow> checklist_task" where
  "drivers_task t p =
     (plain_task t ''assign-drivers'' PrioCritical)
       \<lparr>ct_completed := cc_drivers p \<ge> cc_totalVehicles p \<and> cc_totalVehicles p > 0,
        ct_count := Some (cc_drivers p), ct_total := Some (cc_totalVehicles p),
        ct_details := Some (t ''checklist.tasks.assign-drivers.details''
          [(''count'', MessageNumber (cc_drivers p)), (''total'', MessageNumber (cc_totalVehicles p))]),
        ct_actions := [(t ''checklist.actions.openVehicles'' [], OpenVehicles)]\<rparr>"

definition magazin_task :: "message_translate \<Rightarrow> checklist_counts \<Rightarrow> checklist_task" where
  "magazin_task t p =
     (plain_task t ''assign-magazin'' PrioOptional)
       \<lparr>ct_completed := cc_magazin p \<ge> 1,
        ct_details := Some (if cc_magazin p \<ge> 1
          then t ''checklist.tasks.assign-magazin.detailsAssigned'' [(''count'', MessageNumber (cc_magazin p))]
          else t ''checklist.tasks.assign-magazin.detailsNotAssigned'' [])\<rparr>"

definition printer_task :: "message_translate \<Rightarrow> checklist_counts \<Rightarrow> checklist_task" where
  "printer_task t p =
     (plain_task t ''printer-ready'' PrioRecommended)
       \<lparr>ct_completed := \<not> cc_printerEnabled p \<or> cc_printerOnline p,
        ct_details := Some (t (if \<not> cc_printerEnabled p then ''checklist.tasks.printer-ready.detailsDisabled''
          else if cc_printerOnline p then ''checklist.tasks.printer-ready.detailsOnline''
          else ''checklist.tasks.printer-ready.detailsOffline'') []),
        ct_actions := [(t ''checklist.tasks.printer-ready.testPrint'' [], TestPrint)]\<rparr>"

definition fallback_task :: "message_translate \<Rightarrow> checklist_counts \<Rightarrow> checklist_task" where
  "fallback_task t p =
     (plain_task t ''fallback-ready'' PrioRecommended)
       \<lparr>ct_completed := cc_fallback p,
        ct_details := Some (t (if cc_fallback p then ''checklist.tasks.fallback-ready.detailsActive''
          else ''checklist.tasks.fallback-ready.detailsInactive'') []),
        ct_actions := [(t ''checklist.tasks.fallback-ready.setup'' [], OpenFallback)]\<rparr>"

definition generate_checklist_tasks :: "message_translate \<Rightarrow> checklist_counts \<Rightarrow> checklist_task list" where
  "generate_checklist_tasks t p =
     [whatsapp_task t ''send-first-whatsapp'' 1, whatsapp_task t ''send-second-whatsapp'' 2, checkin_task t p,
      link_task t p ''share-alarm-link'' CopyAlarm PrintAlarm, link_task t p ''share-feld-link'' CopyFeld PrintFeld,
      reko_task t p, drivers_task t p, magazin_task t p, printer_task t p, fallback_task t p]"

definition list_checklist_tasks :: "message_translate \<Rightarrow> (ident \<times> string \<times> string option) list" where
  "list_checklist_tasks t =
     map (\<lambda>x. (ct_id x, ct_title x, ct_note x))
       (generate_checklist_tasks t
          \<lparr>cc_checkedIn = 0, cc_totalVehicles = 0, cc_drivers = 0, cc_withoutDriver = 0, cc_reko = 0, cc_magazin = 0,
           cc_printerEnabled = False, cc_printerOnline = False, cc_fallback = False\<rparr>)"

section \<open>What the rows are judged on\<close>

record checklist_facts =
  cf_checkedIn :: int
  cf_functions :: "special_function list"
  cf_vehicles :: "api_vehicle list"
  cf_printer :: "(bool \<times> bool) option"       \<comment> \<open>enabled, agent online\<close>
  cf_settings :: "string \<rightharpoonup> string"

definition find_vehicles_without_driver :: "api_vehicle list \<Rightarrow> special_function list \<Rightarrow> (ident \<times> string) list" where
  "find_vehicles_without_driver vehicles functions =
     (let driven = List.map_filter (\<lambda>f. if sf_function_type f = FDriver then or_null (sf_vehicle_id f) else None) functions
      in map (\<lambda>v. (v_id v, v_name v)) (filter (\<lambda>v. \<not> js_includes driven (v_id v)) vehicles))"

definition is_fallback_ready :: "(string \<rightharpoonup> string) \<Rightarrow> bool \<Rightarrow> bool \<Rightarrow> bool" where
  "is_fallback_ready settings printer autoDownload =
     (printer \<and> settings ''fallback.auto_print_enabled'' = Some ''true'' \<or> autoDownload)"

definition checklist_counts_of :: "checklist_facts \<Rightarrow> bool \<Rightarrow> checklist_counts" where
  "checklist_counts_of f autoDownload =
     (let enabled = (case cf_printer f of Some (e, _) \<Rightarrow> e | None \<Rightarrow> False);
          count = (\<lambda>k. int (length (filter (\<lambda>x. sf_function_type x = k) (cf_functions f))))
      in \<lparr>cc_checkedIn = cf_checkedIn f, cc_totalVehicles = int (length (cf_vehicles f)), cc_drivers = count FDriver,
          cc_withoutDriver = int (length (find_vehicles_without_driver (cf_vehicles f) (cf_functions f))),
          cc_reko = count FReko, cc_magazin = count FMagazin, cc_printerEnabled = enabled,
          cc_printerOnline = (case cf_printer f of Some (_, a) \<Rightarrow> a | None \<Rightarrow> False),
          cc_fallback = is_fallback_ready (cf_settings f) enabled autoDownload\<rparr>)"

section \<open>The station's own selection\<close>

definition read_json_setting :: "(string \<Rightarrow> js_value option) \<Rightarrow> (string \<rightharpoonup> string) \<Rightarrow> string \<Rightarrow> js_value" where
  "read_json_setting parse settings key =
     (case settings key of
        None \<Rightarrow> JNull
      | Some raw \<Rightarrow> if js_trim raw = [] then JNull else (case parse raw of None \<Rightarrow> JNull | Some v \<Rightarrow> v))"

definition str_of :: "js_value \<Rightarrow> string option" where
  "str_of v = (case v of JStr s \<Rightarrow> Some s | _ \<Rightarrow> None)"

definition parse_hidden_tasks :: "(string \<Rightarrow> js_value option) \<Rightarrow> (string \<rightharpoonup> string) \<Rightarrow> ident list" where
  "parse_hidden_tasks parse settings =
     (case read_json_setting parse settings ''checklist.hidden_tasks'' of JArr xs \<Rightarrow> List.map_filter str_of xs | _ \<Rightarrow> [])"

definition parse_task_notes :: "(string \<Rightarrow> js_value option) \<Rightarrow> (string \<rightharpoonup> string) \<Rightarrow> (ident \<times> string) list" where
  "parse_task_notes parse settings =
     (case read_json_setting parse settings ''checklist.notes'' of
        JObj es \<Rightarrow> List.map_filter (\<lambda>(k, v). map_option (Pair k) (str_of v)) es
      | _ \<Rightarrow> [])"

definition apply_checklist_settings ::
  "(string \<Rightarrow> js_value option) \<Rightarrow> checklist_task list \<Rightarrow> (string \<rightharpoonup> string) \<Rightarrow> checklist_task list" where
  "apply_checklist_settings parse tasks settings =
     (let hidden = parse_hidden_tasks parse settings; notes = parse_task_notes parse settings
      in map (\<lambda>x. case map_of notes (ct_id x) of None \<Rightarrow> x | Some n \<Rightarrow> x\<lparr>ct_note := or_null (Some (js_trim n))\<rparr>)
           (filter (\<lambda>x. \<not> js_includes hidden (ct_id x)) tasks))"

definition resolve_whatsapp_message :: "(string \<rightharpoonup> string) \<Rightarrow> string \<Rightarrow> string \<Rightarrow> string" where
  "resolve_whatsapp_message settings key fallback =
     (case settings key of None \<Rightarrow> fallback | Some s \<Rightarrow> if js_trim s = [] then fallback else s)"

section \<open>Ticks\<close>

type_synonym overrides = "ident \<rightharpoonup> bool"

definition is_task_complete :: "checklist_task \<Rightarrow> overrides \<Rightarrow> bool" where
  "is_task_complete x ov = (if ct_completed x then True else case ov (ct_id x) of Some b \<Rightarrow> b | None \<Rightarrow> False)"

definition shown_tasks :: "message_translate \<Rightarrow> (string \<Rightarrow> js_value option) \<Rightarrow> checklist_facts \<Rightarrow> bool \<Rightarrow> checklist_task list" where
  "shown_tasks t parse f autoDownload =
     apply_checklist_settings parse (generate_checklist_tasks t (checklist_counts_of f autoDownload)) (cf_settings f)"

definition progress_of :: "checklist_task list \<Rightarrow> overrides \<Rightarrow> nat \<times> nat \<times> bool" where
  "progress_of tasks ov =
     (let done = length (filter (\<lambda>x. is_task_complete x ov) tasks)
      in (done, length tasks, tasks \<noteq> [] \<and> done = length tasks))"

text \<open>The popover keeps the ticks in its state and in storage; the badge reads storage.\<close>

definition read_overrides :: "overrides option \<Rightarrow> overrides" where
  "read_overrides stored = (case stored of None \<Rightarrow> Map.empty | Some ov \<Rightarrow> ov)"

definition summarize_checklist ::
  "message_translate \<Rightarrow> (string \<Rightarrow> js_value option) \<Rightarrow> (ident \<rightharpoonup> overrides) \<Rightarrow> bool \<Rightarrow> ident \<Rightarrow> checklist_facts \<Rightarrow> nat \<times> nat \<times> bool" where
  "summarize_checklist t parse storage autoDownload event f =
     progress_of (shown_tasks t parse f autoDownload) (read_overrides (storage event))"

record checklist_desk =
  ks_storage :: "ident \<rightharpoonup> overrides"
  ks_event :: ident
  ks_facts :: checklist_facts
  ks_tasks :: "checklist_task list"
  ks_overrides :: overrides

datatype checklist_event =
    CvFacts checklist_facts                  \<comment> \<open>the board's snapshot changed\<close>
  | CvOpen ident                             \<comment> \<open>the popover shows this Ereignis\<close>
  | CvToggle ident bool                      \<comment> \<open>a row is clicked; whether storage takes the write\<close>

definition toggle_task :: "checklist_task \<Rightarrow> bool \<Rightarrow> checklist_desk \<Rightarrow> checklist_desk" where
  "toggle_task x writes s =
     (let next = (ks_overrides s)(ct_id x \<mapsto> \<not> is_task_complete x (ks_overrides s))
      in s\<lparr>ks_overrides := next, ks_storage := (if writes then (ks_storage s)(ks_event s \<mapsto> next) else ks_storage s)\<rparr>)"

fun checklist_step :: "message_translate \<Rightarrow> (string \<Rightarrow> js_value option) \<Rightarrow> bool \<Rightarrow> checklist_desk \<Rightarrow> checklist_event \<Rightarrow> checklist_desk" where
  "checklist_step t parse dl s (CvFacts f) = s\<lparr>ks_facts := f, ks_tasks := shown_tasks t parse f dl\<rparr>"
| "checklist_step t parse dl s (CvOpen e) = s\<lparr>ks_event := e, ks_overrides := read_overrides (ks_storage s e)\<rparr>"
| "checklist_step t parse dl s (CvToggle i w) =
     (case List.find (\<lambda>x. ct_id x = i) (ks_tasks s) of None \<Rightarrow> s | Some x \<Rightarrow> toggle_task x w s)"

definition open_checklist ::
  "message_translate \<Rightarrow> (string \<Rightarrow> js_value option) \<Rightarrow> bool \<Rightarrow> (ident \<rightharpoonup> overrides) \<Rightarrow> ident \<Rightarrow> checklist_facts \<Rightarrow> checklist_desk" where
  "open_checklist t parse dl storage e f =
     \<lparr>ks_storage = storage, ks_event = e, ks_facts = f, ks_tasks = shown_tasks t parse f dl, ks_overrides = read_overrides (storage e)\<rparr>"

definition checklist_run ::
  "message_translate \<Rightarrow> (string \<Rightarrow> js_value option) \<Rightarrow> bool \<Rightarrow> checklist_desk \<Rightarrow> checklist_event list \<Rightarrow> checklist_desk" where
  "checklist_run t parse dl s es = foldl (checklist_step t parse dl) s es"

section \<open>Opening by itself\<close>

record board_checklist =
  bc_open :: bool
  bc_auto :: "ident option"
  bc_dismissed :: "ident list"

definition dismissed_limit :: nat where "dismissed_limit = 30"

definition last_of :: "nat \<Rightarrow> 'a list \<Rightarrow> 'a list" where
  "last_of n xs = drop (length xs - n) xs"

definition open_change :: "bool \<Rightarrow> ident option \<Rightarrow> board_checklist \<Rightarrow> board_checklist" where
  "open_change opens event s =
     (let s1 = s\<lparr>bc_open := opens\<rparr>
      in case (opens, event) of
           (False, Some e) \<Rightarrow>
             s1\<lparr>bc_dismissed := (if js_includes (bc_dismissed s) e then bc_dismissed s else last_of dismissed_limit (bc_dismissed s @ [e]))\<rparr>
         | _ \<Rightarrow> s1)"

definition auto_open :: "ident option \<Rightarrow> bool \<Rightarrow> nat \<times> nat \<Rightarrow> board_checklist \<Rightarrow> board_checklist" where
  "auto_open event mounted progress s =
     (case event of
        None \<Rightarrow> s
      | Some e \<Rightarrow>
          if \<not> mounted \<or> snd progress = 0 \<or> fst progress \<ge> snd progress \<or> bc_auto s = Some e \<or> js_includes (bc_dismissed s) e then s
          else s\<lparr>bc_auto := Some e, bc_open := True\<rparr>)"

section \<open>Facts on the rows\<close>

lemma task_ids [simp]:
  "ct_id (plain_task t i pr) = i" "ct_id (noted_task t i pr) = i" "ct_id (whatsapp_task t i n) = i" "ct_id (link_task t p i c d) = i"
  "ct_id (checkin_task t p) = ''personnel-checkin''" "ct_id (reko_task t p) = ''assign-reko''" "ct_id (drivers_task t p) = ''assign-drivers''"
  "ct_id (magazin_task t p) = ''assign-magazin''" "ct_id (printer_task t p) = ''printer-ready''" "ct_id (fallback_task t p) = ''fallback-ready''"
  by (simp_all add: plain_task_def noted_task_def whatsapp_task_def link_task_def checkin_task_def reko_task_def drivers_task_def
      magazin_task_def printer_task_def fallback_task_def)

definition checklist_ids :: "ident list" where
  "checklist_ids = [''send-first-whatsapp'', ''send-second-whatsapp'', ''personnel-checkin'', ''share-alarm-link'', ''share-feld-link'',
     ''assign-reko'', ''assign-drivers'', ''assign-magazin'', ''printer-ready'', ''fallback-ready'']"

lemma generated_ids: "map ct_id (generate_checklist_tasks t p) = checklist_ids"
  by (simp add: generate_checklist_tasks_def checklist_ids_def)

lemma distinct_checklist_ids: "distinct checklist_ids"
  by (simp add: checklist_ids_def)

lemma shown_ids:
  "map ct_id (shown_tasks t parse f dl) = filter (\<lambda>i. i \<notin> set (parse_hidden_tasks parse (cf_settings f))) checklist_ids"
proof -
  let ?h = "\<lambda>i. i \<notin> set (parse_hidden_tasks parse (cf_settings f))"
  have keep: "map ct_id (map (\<lambda>x. case n (ct_id x) of None \<Rightarrow> x | Some m \<Rightarrow> x\<lparr>ct_note := g m\<rparr>) xs) = map ct_id xs" for n g and xs :: "checklist_task list"
    by (induction xs) (simp_all split: option.split)
  have sift: "map ct_id (filter (\<lambda>x. ?h (ct_id x)) xs) = filter ?h (map ct_id xs)" for xs :: "checklist_task list"
    by (induction xs) simp_all
  have "map ct_id (shown_tasks t parse f dl) = map ct_id (filter (\<lambda>x. ?h (ct_id x)) (generate_checklist_tasks t (checklist_counts_of f dl)))"
    unfolding shown_tasks_def apply_checklist_settings_def Let_def js_includes_iff by (rule keep)
  then show ?thesis by (simp only: sift generated_ids)
qed

lemma distinct_shown: "distinct (map ct_id (shown_tasks t parse f dl))"
  by (simp add: shown_ids distinct_checklist_ids)

definition checklist_inv :: "message_translate \<Rightarrow> (string \<Rightarrow> js_value option) \<Rightarrow> bool \<Rightarrow> checklist_desk \<Rightarrow> bool" where
  "checklist_inv t parse dl s \<longleftrightarrow> ks_tasks s = shown_tasks t parse (ks_facts s) dl \<and> ks_overrides s = read_overrides (ks_storage s (ks_event s))"

fun written :: "checklist_event \<Rightarrow> bool" where
  "written (CvToggle _ w) = w"
| "written _ = True"

lemma checklist_inv_step: "checklist_inv t parse dl s \<Longrightarrow> written e \<Longrightarrow> checklist_inv t parse dl (checklist_step t parse dl s e)"
  by (cases e) (simp_all add: checklist_inv_def toggle_task_def Let_def read_overrides_def split: option.split)

lemma checklist_inv_run: "checklist_inv t parse dl s \<Longrightarrow> list_all written es \<Longrightarrow> checklist_inv t parse dl (checklist_run t parse dl s es)"
  unfolding checklist_run_def by (induction es arbitrary: s) (auto intro: checklist_inv_step)

lemma checklist_inv_open: "checklist_inv t parse dl (open_checklist t parse dl storage e f)"
  by (simp add: checklist_inv_def open_checklist_def)

section \<open>Properties\<close>

text \<open>
  C37. The badge counts what the popover shows: as long as storage takes the ticks, after any clicks, snapshots and changes of
  the Ereignis both give the same numbers.
\<close>

theorem badge_agrees_with_the_popover:
  assumes "list_all written es" and "s = checklist_run t parse dl (open_checklist t parse dl storage e f) es"
  shows "summarize_checklist t parse (ks_storage s) dl (ks_event s) (ks_facts s) = progress_of (ks_tasks s) (ks_overrides s)"
proof -
  have "checklist_inv t parse dl s" unfolding assms(2) by (rule checklist_inv_run [OF checklist_inv_open assms(1)])
  then show ?thesis by (simp add: checklist_inv_def summarize_checklist_def)
qed

definition bare_facts :: checklist_facts where
  "bare_facts = \<lparr>cf_checkedIn = 0, cf_functions = [], cf_vehicles = [], cf_printer = None, cf_settings = Map.empty\<rparr>"

theorem badge_agrees_with_the_popover_witness:
  "\<exists>s :: checklist_desk. ks_event s = ''e'' \<and> summarize_checklist (\<lambda>k vs. k) (\<lambda>x. None) (ks_storage s) False ''e'' bare_facts = (2, 10, False)"
proof -
  let ?t = "\<lambda>k vs. k" and ?p = "\<lambda>x. None"
  define s where s: "s = checklist_run ?t ?p False (open_checklist ?t ?p False Map.empty ''e'' bare_facts) [CvToggle ''share-feld-link'' True]"
  have "list_all written [CvToggle ''share-feld-link'' True]" by simp
  note agree = badge_agrees_with_the_popover [OF this s]
  have "progress_of (ks_tasks s) (ks_overrides s) = (2, 10, False)" "ks_event s = ''e''"
    unfolding s by code_simp+
  moreover have "ks_facts s = bare_facts"
    by (simp add: s checklist_run_def open_checklist_def toggle_task_def Let_def split: option.split)
  ultimately show ?thesis using agree by (intro exI [of _ s]) simp
qed

text \<open>Every row can be switched off: the editor lists the rows of any checklist, and what is shown is all of them but the ones switched off.\<close>

theorem every_row_can_be_switched_off:
  "map fst (list_checklist_tasks t) = map ct_id (generate_checklist_tasks t p)
   \<and> map ct_id (shown_tasks t parse f dl) = filter (\<lambda>i. i \<notin> set (parse_hidden_tasks parse (cf_settings f))) (map fst (list_checklist_tasks t))"
proof -
  have "map fst (list_checklist_tasks t) = checklist_ids" by (simp add: list_checklist_tasks_def comp_def generated_ids)
  then show ?thesis by (simp add: generated_ids shown_ids)
qed

text \<open>A click ticks or unticks the row that was clicked, unless the system sees it done, and no other row.\<close>

theorem click_changes_one_row:
  assumes "x \<in> set (ks_tasks s)" and "y \<in> set (ks_tasks s)" and "distinct (map ct_id (ks_tasks s))"
  shows "is_task_complete y (ks_overrides (checklist_step t parse dl s (CvToggle (ct_id x) w)))
     = (if y = x \<and> \<not> ct_completed x then \<not> is_task_complete y (ks_overrides s) else is_task_complete y (ks_overrides s))"
proof -
  have same: "u = v" if "u \<in> set (ks_tasks s)" "v \<in> set (ks_tasks s)" "ct_id u = ct_id v" for u v
    using assms(3) that by (auto simp: distinct_map inj_on_def)
  obtain z where z: "List.find (\<lambda>z. ct_id z = ct_id x) (ks_tasks s) = Some z"
    using assms(1) by (cases "List.find (\<lambda>z. ct_id z = ct_id x) (ks_tasks s)") (auto simp: find_None_iff2)
  then have "z = x" using find_SomeD [OF z] assms(1) same by blast
  with z show ?thesis using same [OF assms(2,1)] by (auto simp: toggle_task_def Let_def is_task_complete_def)
qed

theorem click_changes_one_row_witness:
  "is_task_complete (link_task (\<lambda>k vs. k) (checklist_counts_of bare_facts False) ''share-feld-link'' CopyFeld PrintFeld)
     (ks_overrides (checklist_step (\<lambda>k vs. k) (\<lambda>x. None) False
        (open_checklist (\<lambda>k vs. k) (\<lambda>x. None) False Map.empty ''e'' bare_facts) (CvToggle ''share-feld-link'' True)))"
proof -
  let ?s = "open_checklist (\<lambda>k vs. k) (\<lambda>x. None) False Map.empty ''e'' bare_facts"
  let ?x = "link_task (\<lambda>k vs. k) (checklist_counts_of bare_facts False) ''share-feld-link'' CopyFeld PrintFeld"
  have "?x \<in> set (ks_tasks ?s)" by code_simp
  moreover have "distinct (map ct_id (ks_tasks ?s))" by (simp add: open_checklist_def distinct_shown)
  moreover have "\<not> ct_completed ?x" "\<not> is_task_complete ?x (ks_overrides ?s)" by code_simp+
  ultimately show ?thesis using click_changes_one_row [of ?x ?s ?x "\<lambda>k vs. k" "\<lambda>x. None" False True] by simp
qed

definition driven_vehicles :: "special_function list \<Rightarrow> ident list" where
  "driven_vehicles fs = List.map_filter (\<lambda>f. if sf_function_type f = FDriver then or_null (sf_vehicle_id f) else None) fs"

lemma length_driven:
  "list_all (\<lambda>f. sf_function_type f = FDriver \<longrightarrow> or_null (sf_vehicle_id f) \<noteq> None) fs
   \<Longrightarrow> length (driven_vehicles fs) = length (filter (\<lambda>f. sf_function_type f = FDriver) fs)"
  by (induction fs) (auto simp: driven_vehicles_def map_filter_simps split: option.split)

text \<open>
  Where every driver has a vehicle of the fleet and no vehicle has two, the row of the drivers is done exactly when
  nobody is missing.
\<close>

theorem drivers_row_means_nobody_missing:
  assumes "distinct (map v_id (cf_vehicles f))" and "distinct (driven_vehicles (cf_functions f))"
    and "set (driven_vehicles (cf_functions f)) \<subseteq> set (map v_id (cf_vehicles f))"
    and "list_all (\<lambda>x. sf_function_type x = FDriver \<longrightarrow> or_null (sf_vehicle_id x) \<noteq> None) (cf_functions f)"
  shows "ct_completed (drivers_task t (checklist_counts_of f dl))
     = (cf_vehicles f \<noteq> [] \<and> find_vehicles_without_driver (cf_vehicles f) (cf_functions f) = [])"
proof -
  let ?D = "driven_vehicles (cf_functions f)" and ?V = "map v_id (cf_vehicles f)"
  have "length ?D \<le> length ?V" using assms(1-3) by (metis card_mono distinct_card List.finite_set)
  have "length ?V \<le> length ?D \<longleftrightarrow> set ?V \<subseteq> set ?D"
  proof
    assume "length ?V \<le> length ?D"
    then have "card (set ?D) = card (set ?V)" using distinct_card [OF assms(1)] distinct_card [OF assms(2)] \<open>length ?D \<le> length ?V\<close> by simp
    then show "set ?V \<subseteq> set ?D" using card_subset_eq [OF _ assms(3)] by simp
  next
    assume "set ?V \<subseteq> set ?D"
    then show "length ?V \<le> length ?D" using assms(1,2) by (metis card_mono distinct_card List.finite_set)
  qed
  moreover have "find_vehicles_without_driver (cf_vehicles f) (cf_functions f) = [] \<longleftrightarrow> set ?V \<subseteq> set ?D"
    by (auto simp: find_vehicles_without_driver_def driven_vehicles_def Let_def filter_empty_conv)
  moreover have "ct_completed (drivers_task t (checklist_counts_of f dl)) \<longleftrightarrow> length ?V \<le> length ?D \<and> cf_vehicles f \<noteq> []"
    using length_driven [OF assms(4)] by (simp add: drivers_task_def plain_task_def checklist_counts_of_def Let_def)
  ultimately show ?thesis by blast
qed

definition fleet_of_two :: "special_function list \<Rightarrow> checklist_facts" where
  "fleet_of_two fs =
     bare_facts\<lparr>cf_vehicles := map (\<lambda>i. \<lparr>v_id = i, v_name = i, v_type = [], v_display_order = 1, v_radio_call_sign = [], v_out_of_service = False\<rparr>) [''tlf'', ''mtw''],
       cf_functions := fs\<rparr>"

definition drives :: "ident \<Rightarrow> ident \<Rightarrow> special_function" where
  "drives p v = \<lparr>sf_personnel_id = p, sf_function_type = FDriver, sf_vehicle_id = Some v, sf_vehicle_name = None\<rparr>"

theorem drivers_row_means_nobody_missing_witness:
  "ct_completed (drivers_task (\<lambda>k vs. k) (checklist_counts_of (fleet_of_two [drives ''a'' ''mtw'', drives ''b'' ''tlf'']) False))"
proof -
  let ?f = "fleet_of_two [drives ''a'' ''mtw'', drives ''b'' ''tlf'']"
  have "distinct (map v_id (cf_vehicles ?f))" "distinct (driven_vehicles (cf_functions ?f))"
    "set (driven_vehicles (cf_functions ?f)) \<subseteq> set (map v_id (cf_vehicles ?f))"
    "list_all (\<lambda>x. sf_function_type x = FDriver \<longrightarrow> or_null (sf_vehicle_id x) \<noteq> None) (cf_functions ?f)"
    "cf_vehicles ?f \<noteq> [] \<and> find_vehicles_without_driver (cf_vehicles ?f) (cf_functions ?f) = []"
    by code_simp+
  then show ?thesis using drivers_row_means_nobody_missing [of ?f "\<lambda>k vs. k" False] by simp
qed

datatype popover_event = BvChange bool "ident option" | BvAuto "ident option" bool "nat \<times> nat"

fun popover_step :: "board_checklist \<Rightarrow> popover_event \<Rightarrow> board_checklist" where
  "popover_step s (BvChange opens e) = open_change opens e s"
| "popover_step s (BvAuto e m p) = auto_open e m p s"

definition popover_run :: "board_checklist \<Rightarrow> popover_event list \<Rightarrow> board_checklist" where
  "popover_run s es = foldl popover_step s es"

fun is_closing :: "popover_event \<Rightarrow> bool" where
  "is_closing (BvChange opens e) = (\<not> opens \<and> e \<noteq> None)"
| "is_closing _ = False"

definition closed_among :: "ident \<Rightarrow> nat \<Rightarrow> board_checklist \<Rightarrow> bool" where
  "closed_among e k s \<longleftrightarrow> (\<exists>xs ys. bc_dismissed s = xs @ e # ys \<and> length ys \<le> k)"

lemma closed_amongI: "bc_dismissed s = xs @ e # ys \<Longrightarrow> length ys \<le> k \<Longrightarrow> closed_among e k s"
  unfolding closed_among_def by blast

lemma closed_among_mono: "closed_among e k s \<Longrightarrow> k \<le> n \<Longrightarrow> closed_among e n s"
  unfolding closed_among_def by (meson le_trans)

lemma closed_among_append:
  assumes "closed_among e k s" and "k < 29"
  shows "closed_among e (Suc k) (s\<lparr>bc_open := b, bc_dismissed := last_of dismissed_limit (bc_dismissed s @ [d])\<rparr>)"
proof -
  from assms(1) obtain xs ys where d: "bc_dismissed s = xs @ e # ys" "length ys \<le> k" by (auto simp: closed_among_def)
  have "length (xs @ e # ys @ [d]) - dismissed_limit \<le> length xs" using d(2) assms(2) by (simp add: dismissed_limit_def)
  then have "last_of dismissed_limit (xs @ e # ys @ [d]) = drop (length (xs @ e # ys @ [d]) - dismissed_limit) xs @ e # (ys @ [d])"
    by (simp add: last_of_def)
  with d show ?thesis by (intro closed_amongI [of _ "drop (length (xs @ e # ys @ [d]) - dismissed_limit) xs" _ "ys @ [d]"]) simp_all
qed

lemma closed_among_step:
  "closed_among e k s \<Longrightarrow> k < 29 \<Longrightarrow> closed_among e (if is_closing ev then Suc k else k) (popover_step s ev)"
proof (cases ev)
  case (BvChange opens x)
  assume s: "closed_among e k s" and k: "k < 29"
  have same: "closed_among e n (s\<lparr>bc_open := b\<rparr>) = closed_among e n s" for n b by (simp add: closed_among_def)
  have "closed_among e (Suc k) s" using s by (rule closed_among_mono) simp
  with BvChange s same closed_among_append [OF s k] show ?thesis
    by (cases x; cases opens) (auto simp: open_change_def Let_def closed_among_def)
next
  case (BvAuto x m p)
  moreover assume "closed_among e k s"
  ultimately show ?thesis by (auto simp: auto_open_def closed_among_def split: option.split)
qed

lemma closed_among_run:
  "closed_among e k s \<Longrightarrow> k + length (filter is_closing es) \<le> 29 \<Longrightarrow> \<exists>n. closed_among e n (popover_run s es)"
proof (induction es arbitrary: s k)
  case (Cons ev es)
  show ?case
  proof (cases "k < 29")
    case True
    with Cons closed_among_step [OF Cons.prems(1) True, of ev] show ?thesis by (cases "is_closing ev") (auto simp: popover_run_def)
  next
    case False
    with Cons.prems(2) have none: "\<not> is_closing ev" "k + length (filter is_closing es) \<le> 29" by (auto split: if_splits)
    have "bc_dismissed (popover_step s ev) = bc_dismissed s"
      using none(1) by (cases ev) (auto simp: open_change_def auto_open_def Let_def split: option.split bool.split)
    with Cons.prems(1) have "closed_among e k (popover_step s ev)" by (simp add: closed_among_def)
    with Cons.IH none(2) show ?thesis by (auto simp: popover_run_def)
  qed
qed (auto simp: popover_run_def)

text \<open>
  A checklist the operator closed does not open by itself again while at most 29 further ones are closed.
\<close>

theorem closed_checklist_stays_closed:
  assumes "e \<notin> set (bc_dismissed s)" and "length (filter is_closing es) \<le> 29"
    and "s' = popover_run (open_change False (Some e) s) es"
  shows "auto_open (Some e) mounted progress s' = s'"
proof -
  have "closed_among e 0 (open_change False (Some e) s)"
  proof -
    have "last_of dismissed_limit (bc_dismissed s @ [e]) = drop (length (bc_dismissed s) + 1 - 30) (bc_dismissed s) @ [e]"
      by (simp add: last_of_def dismissed_limit_def)
    then show ?thesis using assms(1) by (auto simp: closed_among_def open_change_def Let_def)
  qed
  from closed_among_run [OF this, of es] assms(2,3) have "e \<in> set (bc_dismissed s')" by (auto simp: closed_among_def)
  then show ?thesis by (simp add: auto_open_def)
qed

theorem closed_checklist_stays_closed_witness:
  "auto_open (Some ''e'') True (3, 10) (popover_run (open_change False (Some ''e'') \<lparr>bc_open = True, bc_auto = None, bc_dismissed = []\<rparr>)
      [BvChange False (Some ''f'')]) = \<lparr>bc_open = False, bc_auto = None, bc_dismissed = [''e'', ''f'']\<rparr>"
proof -
  let ?s = "\<lparr>bc_open = True, bc_auto = None, bc_dismissed = []\<rparr>"
  have "''e'' \<notin> set (bc_dismissed ?s)" "length (filter is_closing [BvChange False (Some ''f'')]) \<le> 29" by simp_all
  note stays = closed_checklist_stays_closed [OF this refl, of True "(3, 10)"]
  have "popover_run (open_change False (Some ''e'') ?s) [BvChange False (Some ''f'')] = \<lparr>bc_open = False, bc_auto = None, bc_dismissed = [''e'', ''f'']\<rparr>"
    by code_simp
  with stays show ?thesis by simp
qed

section \<open>Where the code falls short\<close>

text \<open>Two drivers of one vehicle make the row done although the other vehicle has none.\<close>

theorem two_drivers_hide_an_empty_seat:
  "let f = fleet_of_two [drives ''a'' ''tlf'', drives ''b'' ''tlf'']
   in ct_completed (drivers_task (\<lambda>k vs. k) (checklist_counts_of f False))
      \<and> find_vehicles_without_driver (cf_vehicles f) (cf_functions f) = [(''mtw'', ''mtw'')]"
  by code_simp

text \<open>A tick that storage does not take counts in the popover only.\<close>

theorem refused_write_parts_the_counts:
  "let s = checklist_run (\<lambda>k vs. k) (\<lambda>x. None) False (open_checklist (\<lambda>k vs. k) (\<lambda>x. None) False Map.empty ''e'' bare_facts) [CvToggle ''share-feld-link'' False]
   in fst (progress_of (ks_tasks s) (ks_overrides s)) = 2
      \<and> fst (summarize_checklist (\<lambda>k vs. k) (\<lambda>x. None) (ks_storage s) False ''e'' bare_facts) = 1"
  by code_simp

text \<open>A click on a row the system sees done changes nothing on screen and takes back the tick that was given by hand.\<close>

theorem unseen_click_takes_the_tick_back:
  assumes "ct_completed x" and "List.find (\<lambda>z. ct_id z = ct_id x) (ks_tasks s) = Some x"
  shows "is_task_complete x (ks_overrides (checklist_step t parse dl s (CvToggle (ct_id x) w)))
     \<and> \<not> is_task_complete (x\<lparr>ct_completed := False\<rparr>) (ks_overrides (checklist_step t parse dl s (CvToggle (ct_id x) w)))"
  using assms by (simp add: toggle_task_def Let_def is_task_complete_def)

text \<open>An open checklist closed after a change of the Ereignis is remembered for the other one, and the first opens again.\<close>

theorem closing_after_a_change_is_misfiled:
  "bc_open (popover_run \<lparr>bc_open = False, bc_auto = None, bc_dismissed = []\<rparr>
     [BvAuto (Some ''a'') True (3, 10), BvAuto (Some ''b'') True (3, 10), BvChange False (Some ''b''), BvAuto (Some ''a'') True (3, 10)])"
  by code_simp

end
