(* ===== verification/CardRepaint.thy ===== *)
theory CardRepaint
  imports BoardTypes HttpTransport
begin

text \<open>
  When a card is painted again: the structural comparison of \<^verbatim>\<open>frontend/lib/operation-equality.ts\<close>, the
  switches of \<^verbatim>\<open>lib/card-view.ts\<close> and the comparators handed to \<^verbatim>\<open>memo\<close> by
  \<^verbatim>\<open>components/kanban/droppable-column.tsx\<close>, \<^verbatim>\<open>draggable-operation.tsx\<close> and
  \<^verbatim>\<open>components/mobile/mobile-incident-card.tsx\<close>, each beside what its card draws.
\<close>

section \<open>Structural comparison\<close>

text \<open>The values of the walk; keys of maps and elements of sets are texts, as in an \<^verbatim>\<open>Operation\<close>.\<close>

datatype walk_number = NumNaN | NumNegZero | NumFinite rat

datatype js_walk =
    WUndef | WNull | WBool bool | WNum walk_number | WStr string | WDate js_date
  | WArr "js_walk list" | WMap "(string \<times> js_walk) list" | WSet "string list" | WObj "(string \<times> js_walk) list"

fun values_equal :: "js_walk \<Rightarrow> js_walk \<Rightarrow> bool"
  and items_equal :: "js_walk list \<Rightarrow> js_walk list \<Rightarrow> bool"
  and entries_in :: "(string \<times> js_walk) list \<Rightarrow> (string \<times> js_walk) list \<Rightarrow> bool" where
  "values_equal WUndef b = (b = WUndef)"
| "values_equal WNull b = (b = WNull)"
| "values_equal (WBool x) b = (b = WBool x)"
| "values_equal (WNum x) b = (b = WNum x)"
| "values_equal (WStr x) b = (b = WStr x)"
| "values_equal (WDate x) b = (case b of WDate y \<Rightarrow> x \<noteq> None \<and> x = y | _ \<Rightarrow> False)"
| "values_equal (WArr xs) b = (case b of WArr ys \<Rightarrow> items_equal xs ys | _ \<Rightarrow> False)"
| "values_equal (WMap m) b = (case b of WMap n \<Rightarrow> length m = length n \<and> entries_in m n | _ \<Rightarrow> False)"
| "values_equal (WSet x) b = (case b of WSet y \<Rightarrow> length x = length y \<and> list_all (\<lambda>v. js_includes y v) x | _ \<Rightarrow> False)"
| "values_equal (WObj m) b = (case b of WObj n \<Rightarrow> length m = length n \<and> entries_in m n | _ \<Rightarrow> False)"
| "items_equal [] ys = (ys = [])"
| "items_equal (x # xs) ys = (case ys of [] \<Rightarrow> False | y # ys' \<Rightarrow> values_equal x y \<and> items_equal xs ys')"
| "entries_in [] n = True"
| "entries_in ((k, v) # m) n = ((case map_of n k of None \<Rightarrow> False | Some w \<Rightarrow> values_equal v w) \<and> entries_in m n)"

definition are_operations_equal :: "js_walk \<Rightarrow> js_walk \<Rightarrow> bool" where
  "are_operations_equal a b = values_equal a b"

definition are_operation_lists_equal :: "js_walk list \<Rightarrow> js_walk list \<Rightarrow> bool" where
  "are_operation_lists_equal a b = (length a = length b \<and> list_all (\<lambda>(x, y). are_operations_equal x y) (zip a b))"

fun wf_walk :: "js_walk \<Rightarrow> bool" where
  "wf_walk (WDate d) = (d \<noteq> None)"
| "wf_walk (WArr xs) = list_all wf_walk xs"
| "wf_walk (WMap m) = (distinct (map fst m) \<and> list_all (\<lambda>e. wf_walk (snd e)) m)"
| "wf_walk (WSet x) = distinct x"
| "wf_walk (WObj m) = (distinct (map fst m) \<and> list_all (\<lambda>e. wf_walk (snd e)) m)"
| "wf_walk v = True"

lemma items_equal_iff: "items_equal xs ys \<longleftrightarrow> list_all2 values_equal xs ys"
  by (induction xs arbitrary: ys) (auto split: list.split)

lemma entries_in_iff: "entries_in m n \<longleftrightarrow> (\<forall>k v. (k, v) \<in> set m \<longrightarrow> (\<exists>w. map_of n k = Some w \<and> values_equal v w))"
proof (induction m)
  case (Cons e m)
  show ?case
  proof (cases e)
    case (Pair k v)
    have "entries_in ((k, v) # m) n \<longleftrightarrow> (\<exists>w. map_of n k = Some w \<and> values_equal v w) \<and> entries_in m n"
      by (auto split: option.split_asm option.split)
    with Pair Cons.IH show ?thesis by auto
  qed
qed simp

lemma values_equal_refl: "wf_walk v \<Longrightarrow> values_equal v v"
proof (induction v)
  case (WArr xs)
  then show ?case by (auto simp: items_equal_iff list_all_iff intro: list.rel_refl_strong)
next
  case (WMap m)
  then show ?case by (fastforce simp: entries_in_iff list_all_iff)
next
  case (WObj m)
  then show ?case by (fastforce simp: entries_in_iff list_all_iff)
qed (auto simp: list_all_iff)

text \<open>The same number of keys and every key of one in the other: every key of the other in the one.\<close>

lemma keys_back:
  assumes "length m = length n" "distinct (map fst m)" "distinct (map fst n)"
    and "\<And>k v. (k, v) \<in> set m \<Longrightarrow> \<exists>w. map_of n k = Some w \<and> R v w" and "(k, w) \<in> set n"
  shows "\<exists>v. map_of m k = Some v \<and> R v w"
proof -
  have sub: "fst ` set m \<subseteq> fst ` set n" using assms(4) by (force dest: map_of_SomeD)
  have "card (fst ` set m) = card (fst ` set n)"
    using assms(1) distinct_card [OF assms(2)] distinct_card [OF assms(3)] by simp
  with sub have "fst ` set m = fst ` set n" by (intro card_subset_eq) simp_all
  with assms(5) obtain v where v: "(k, v) \<in> set m" by force
  with assms(4) obtain w' where "map_of n k = Some w'" "R v w'" by blast
  moreover have "map_of n k = Some w" using assms(3,5) by simp
  ultimately show ?thesis using v assms(2) by simp
qed

lemma values_equal_sym: "wf_walk a \<Longrightarrow> wf_walk b \<Longrightarrow> values_equal a b \<Longrightarrow> values_equal b a"
proof (induction a arbitrary: b)
  case (WDate d)
  then show ?case by (cases b) auto
next
  case (WArr xs)
  then obtain ys where b: "b = WArr ys" by (cases b) simp_all
  have "list_all2 values_equal ys xs"
    using WArr b by (auto simp: items_equal_iff list_all2_conv_all_nth list_all_length)
  with b show ?case by (simp add: items_equal_iff)
next
  case (WMap m)
  then obtain n where b: "b = WMap n" by (cases b) simp_all
  have "\<exists>v. map_of m k = Some v \<and> values_equal w v" if e: "(k, w) \<in> set n" for k w
  proof -
    have "\<exists>v. map_of m k = Some v \<and> values_equal v w"
      using WMap.prems b by (intro keys_back [OF _ _ _ _ e]) (simp_all only: values_equal.simps wf_walk.simps js_walk.case entries_in_iff)
    then obtain v where v: "map_of m k = Some v" "values_equal v w" by blast
    then have "(k, v) \<in> set m" by (simp add: map_of_SomeD)
    then have "values_equal w v" using WMap.IH [of "(k, v)" v w] WMap.prems b v e by (force simp: list_all_iff)
    with v show ?thesis by blast
  qed
  with WMap.prems b show ?case by (auto simp: entries_in_iff)
next
  case (WObj m)
  then obtain n where b: "b = WObj n" by (cases b) simp_all
  have "\<exists>v. map_of m k = Some v \<and> values_equal w v" if e: "(k, w) \<in> set n" for k w
  proof -
    have "\<exists>v. map_of m k = Some v \<and> values_equal v w"
      using WObj.prems b by (intro keys_back [OF _ _ _ _ e]) (simp_all only: values_equal.simps wf_walk.simps js_walk.case entries_in_iff)
    then obtain v where v: "map_of m k = Some v" "values_equal v w" by blast
    then have "(k, v) \<in> set m" by (simp add: map_of_SomeD)
    then have "values_equal w v" using WObj.IH [of "(k, v)" v w] WObj.prems b v e by (force simp: list_all_iff)
    with v show ?thesis by blast
  qed
  with WObj.prems b show ?case by (auto simp: entries_in_iff)
next
  case (WSet x)
  then obtain y where b: "b = WSet y" by (cases b) simp_all
  have "set x \<subseteq> set y" "card (set x) = card (set y)" using WSet b by (auto simp: list_all_iff distinct_card)
  then have "set x = set y" by (intro card_subset_eq) simp_all
  with WSet b show ?case by (simp add: list_all_iff)
qed auto

lemma values_equal_trans: "values_equal a b \<Longrightarrow> values_equal b c \<Longrightarrow> values_equal a c"
proof (induction a arbitrary: b c)
  case (WDate d)
  then show ?case by (cases b) auto
next
  case (WArr xs)
  then obtain ys where b: "b = WArr ys" by (cases b) simp_all
  with WArr.prems obtain zs where c: "c = WArr zs" by (cases c) simp_all
  have "list_all2 values_equal xs zs"
    using WArr b c by (fastforce simp: items_equal_iff list_all2_conv_all_nth)
  with c show ?case by (simp add: items_equal_iff)
next
  case (WMap m)
  then obtain n where b: "b = WMap n" by (cases b) simp_all
  with WMap.prems obtain l where c: "c = WMap l" by (cases c) simp_all
  have "\<exists>w. map_of l k = Some w \<and> values_equal u w" if e: "(k, u) \<in> set m" for k u
  proof -
    from e WMap.prems(1) b obtain v where v: "map_of n k = Some v" "values_equal u v" by (auto simp: entries_in_iff)
    then have "(k, v) \<in> set n" by (simp add: map_of_SomeD)
    with WMap.prems(2) b c obtain w where "map_of l k = Some w" "values_equal v w" by (force simp: entries_in_iff)
    with v WMap.IH [OF e, of u v w] show ?thesis by auto
  qed
  with WMap.prems b c show ?case by (simp add: entries_in_iff)
next
  case (WObj m)
  then obtain n where b: "b = WObj n" by (cases b) simp_all
  with WObj.prems obtain l where c: "c = WObj l" by (cases c) simp_all
  have "\<exists>w. map_of l k = Some w \<and> values_equal u w" if e: "(k, u) \<in> set m" for k u
  proof -
    from e WObj.prems(1) b obtain v where v: "map_of n k = Some v" "values_equal u v" by (auto simp: entries_in_iff)
    then have "(k, v) \<in> set n" by (simp add: map_of_SomeD)
    with WObj.prems(2) b c obtain w where "map_of l k = Some w" "values_equal v w" by (force simp: entries_in_iff)
    with v WObj.IH [OF e, of u v w] show ?thesis by auto
  qed
  with WObj.prems b c show ?case by (simp add: entries_in_iff)
next
  case (WSet x)
  then show ?case by (cases b; cases c) (auto simp: list_all_iff)
qed auto

section \<open>The switches of a card\<close>

datatype card_view_key = KeyEinsatzart | KeyZeiten | KeyMeldung | KeyMelder | KeyMannschaft | KeyFahrzeuge | KeyMaterial | KeyAuftrag | KeyReko

definition card_view_keys :: "card_view_key list" where
  "card_view_keys = [KeyEinsatzart, KeyZeiten, KeyMeldung, KeyMelder, KeyMannschaft, KeyFahrzeuge, KeyMaterial, KeyAuftrag, KeyReko]"

fun key_name :: "card_view_key \<Rightarrow> string" where
  "key_name KeyEinsatzart = ''einsatzart''"
| "key_name KeyZeiten = ''zeiten''"
| "key_name KeyMeldung = ''meldung''"
| "key_name KeyMelder = ''melder''"
| "key_name KeyMannschaft = ''mannschaft''"
| "key_name KeyFahrzeuge = ''fahrzeuge''"
| "key_name KeyMaterial = ''material''"
| "key_name KeyAuftrag = ''auftrag''"
| "key_name KeyReko = ''reko''"

type_synonym card_view = "card_view_key \<Rightarrow> bool"

datatype card_view_preset = PresetKompakt | PresetStandard | PresetAlles

fun card_view_presets :: "card_view_preset \<Rightarrow> card_view" where
  "card_view_presets PresetKompakt = (\<lambda>k. False)"
| "card_view_presets PresetStandard = (\<lambda>k. k \<noteq> KeyMelder)"
| "card_view_presets PresetAlles = (\<lambda>k. True)"

definition card_view_equals :: "card_view \<Rightarrow> card_view \<Rightarrow> bool" where
  "card_view_equals a b = list_all (\<lambda>k. a k = b k) card_view_keys"

definition match_card_view_preset :: "card_view \<Rightarrow> card_view_preset option" where
  "match_card_view_preset v =
     List.find (\<lambda>p. card_view_equals (card_view_presets p) v) [PresetKompakt, PresetStandard, PresetAlles]"

definition toggle_card_view_key :: "card_view \<Rightarrow> card_view_key \<Rightarrow> card_view" where
  "toggle_card_view_key v k = v(k := \<not> v k)"

definition stored_flag :: "(string \<times> js_value) list \<Rightarrow> card_view_key \<Rightarrow> bool option" where
  "stored_flag es k = (case map_of es (key_name k) of Some (JBool b) \<Rightarrow> Some b | _ \<Rightarrow> None)"

definition coerce_card_view :: "js_value \<Rightarrow> card_view option" where
  "coerce_card_view v =
     (case v of
        JObj es \<Rightarrow>
          if filter (\<lambda>k. stored_flag es k \<noteq> None) card_view_keys = [] then None
          else Some (\<lambda>k. case stored_flag es k of Some b \<Rightarrow> b | None \<Rightarrow> card_view_presets PresetStandard k)
      | _ \<Rightarrow> None)"

text \<open>What is stored of a view: an object of its switches.\<close>

definition card_view_json :: "card_view \<Rightarrow> js_value" where
  "card_view_json v = JObj (map (\<lambda>k. (key_name k, JBool (v k))) card_view_keys)"

section \<open>The comparators\<close>

definition same_time :: "js_date option \<Rightarrow> js_date option \<Rightarrow> bool" where
  "same_time a b =
     (case (a, b) of
        (None, None) \<Rightarrow> True
      | (Some (Some x), Some (Some y)) \<Rightarrow> x = y
      | _ \<Rightarrow> False)"

definition same_strings :: "string list \<Rightarrow> string list \<Rightarrow> bool" where
  "same_strings a b = (length a = length b \<and> list_all (\<lambda>(x, y). x = y) (zip a b))"

definition same_crew :: "crew_member list \<Rightarrow> crew_member list \<Rightarrow> bool" where
  "same_crew a b =
     (length a = length b
      \<and> list_all (\<lambda>(m, n). cm_personnelId m = cm_personnelId n \<and> cm_assignmentId m = cm_assignmentId n \<and> cm_name m = cm_name n) (zip a b))"

definition same_vehicles :: "operation_vehicle list \<Rightarrow> operation_vehicle list \<Rightarrow> bool" where
  "same_vehicles a b =
     (length a = length b
      \<and> list_all (\<lambda>(v, n). ov_vehicleId v = ov_vehicleId n \<and> ov_assignmentId v = ov_assignmentId n \<and> ov_name v = ov_name n
           \<and> ov_callsign v = ov_callsign n \<and> ov_driverStay v = ov_driverStay n) (zip a b))"

text \<open>What a card is given; what is compared by identity is that identity, a number.\<close>

record card_props =
  cp_operation :: operation
  cp_drivers :: nat
  cp_doubleBooked :: nat
  cp_materials :: nat
  cp_printer :: bool
  cp_highlighted :: bool
  cp_selected :: bool
  cp_hovered :: bool
  cp_index :: nat
  cp_view :: card_view
  cp_dominant :: "string option"
  cp_canDrag :: bool

definition reko_summary_changed :: "operation \<Rightarrow> operation \<Rightarrow> bool" where
  "reko_summary_changed p n =
     (op_hasCompletedReko p \<noteq> op_hasCompletedReko n
      \<or> \<not> same_time (op_rekoArrivedAt p) (op_rekoArrivedAt n)
      \<or> map_option rs_hasDangers (op_rekoSummary p) \<noteq> map_option rs_hasDangers (op_rekoSummary n)
      \<or> \<not> same_strings (case op_rekoSummary p of None \<Rightarrow> [] | Some r \<Rightarrow> rs_dangerTypes r) (case op_rekoSummary n of None \<Rightarrow> [] | Some r \<Rightarrow> rs_dangerTypes r)
      \<or> Option.bind (op_rekoSummary p) rs_personnelCount \<noteq> Option.bind (op_rekoSummary n) rs_personnelCount
      \<or> Option.bind (op_rekoSummary p) rs_estimatedDuration \<noteq> Option.bind (op_rekoSummary n) rs_estimatedDuration
      \<or> map_option rs_isRelevant (op_rekoSummary p) \<noteq> map_option rs_isRelevant (op_rekoSummary n))"

definition assigned_reko_changed :: "operation \<Rightarrow> operation \<Rightarrow> bool" where
  "assigned_reko_changed p n =
     (map_option np_id (op_assignedReko p) \<noteq> map_option np_id (op_assignedReko n)
      \<or> map_option np_name (op_assignedReko p) \<noteq> map_option np_name (op_assignedReko n))"

definition board_card_memo :: "card_props \<Rightarrow> card_props \<Rightarrow> bool" where
  "board_card_memo pp np =
     (let p = cp_operation pp; n = cp_operation np
      in op_id p = op_id n \<and> op_number p = op_number n \<and> op_status p = op_status n \<and> op_priority p = op_priority n
       \<and> op_location p = op_location n \<and> op_locationDisplay p = op_locationDisplay n \<and> op_notes p = op_notes n
       \<and> op_contact p = op_contact n \<and> op_contactPhone p = op_contactPhone n \<and> op_incidentType p = op_incidentType n
       \<and> op_nachbarhilfe p = op_nachbarhilfe n \<and> op_nachbarhilfeNote p = op_nachbarhilfeNote n
       \<and> op_amWarten p = op_amWarten n \<and> op_amWartenNote p = op_amWartenNote n \<and> op_zuFuss p = op_zuFuss n
       \<and> op_source p = op_source n \<and> op_fromRealAlarm p = op_fromRealAlarm n \<and> op_possibleDuplicateOf p = op_possibleDuplicateOf n
       \<and> op_pickupNeeded p = op_pickupNeeded n \<and> op_pickupNote p = op_pickupNote n \<and> same_time (op_pickupRequestedAt p) (op_pickupRequestedAt n)
       \<and> same_time (op_fieldCompleteReportedAt p) (op_fieldCompleteReportedAt n) \<and> same_time (op_fieldArrivedAt p) (op_fieldArrivedAt n)
       \<and> op_hasSchadenplatzRapport p = op_hasSchadenplatzRapport n \<and> op_hasSchadenplatzRapportDraft p = op_hasSchadenplatzRapportDraft n
       \<and> op_hasBeenDispatched p = op_hasBeenDispatched n \<and> op_groupId p = op_groupId n \<and> op_groupPosition p = op_groupPosition n
       \<and> op_leaderId p = op_leaderId n \<and> op_leaderName p = op_leaderName n
       \<and> same_crew (op_crew p) (op_crew n) \<and> same_strings (op_materials p) (op_materials n) \<and> same_vehicles (op_vehicles p) (op_vehicles n)
       \<and> cp_drivers pp = cp_drivers np \<and> cp_highlighted pp = cp_highlighted np \<and> cp_selected pp = cp_selected np \<and> cp_hovered pp = cp_hovered np
       \<and> cp_index pp = cp_index np \<and> card_view_equals (cp_view pp) (cp_view np) \<and> cp_dominant pp = cp_dominant np \<and> cp_canDrag pp = cp_canDrag np
       \<and> \<not> reko_summary_changed p n \<and> \<not> assigned_reko_changed p n \<and> cp_doubleBooked pp = cp_doubleBooked np)"

definition mobile_card_memo :: "operation \<times> nat \<Rightarrow> operation \<times> nat \<Rightarrow> bool" where
  "mobile_card_memo pp np =
     (let p = fst pp; n = fst np
      in snd pp = snd np \<and> op_id p = op_id n \<and> op_status p = op_status n \<and> op_priority p = op_priority n \<and> op_location p = op_location n
       \<and> op_notes p = op_notes n \<and> op_leaderName p = op_leaderName n \<and> same_crew (op_crew p) (op_crew n) \<and> same_vehicles (op_vehicles p) (op_vehicles n)
       \<and> op_hasCompletedReko p = op_hasCompletedReko n \<and> map_option rs_hasDangers (op_rekoSummary p) = map_option rs_hasDangers (op_rekoSummary n)
       \<and> Option.bind (op_rekoSummary p) rs_summaryText = Option.bind (op_rekoSummary n) rs_summaryText
       \<and> op_hasSchadenplatzRapport p = op_hasSchadenplatzRapport n \<and> op_hasBeenDispatched p = op_hasBeenDispatched n
       \<and> op_pickupNeeded p = op_pickupNeeded n \<and> op_pickupNote p = op_pickupNote n \<and> same_time (op_pickupRequestedAt p) (op_pickupRequestedAt n)
       \<and> op_possibleDuplicateOf p = op_possibleDuplicateOf n)"

record column_props =
  co_column :: ident
  co_highlighted :: "ident option"
  co_selected :: "ident option"
  co_hovered :: "ident option"
  co_view :: nat
  co_dominant :: "string option"
  co_printer :: bool
  co_drivers :: nat
  co_materials :: nat
  co_doubleBooked :: nat
  co_canDrag :: bool
  co_onSort :: nat
  co_collapsed :: bool
  co_onToggle :: nat
  co_search :: bool
  co_operations :: "js_walk list"

definition column_memo :: "column_props \<Rightarrow> column_props \<Rightarrow> bool" where
  "column_memo p n =
     (if co_column p \<noteq> co_column n \<or> co_highlighted p \<noteq> co_highlighted n \<or> co_selected p \<noteq> co_selected n \<or> co_hovered p \<noteq> co_hovered n
         \<or> co_view p \<noteq> co_view n \<or> co_dominant p \<noteq> co_dominant n \<or> co_printer p \<noteq> co_printer n \<or> co_drivers p \<noteq> co_drivers n
         \<or> co_materials p \<noteq> co_materials n \<or> co_doubleBooked p \<noteq> co_doubleBooked n \<or> co_canDrag p \<noteq> co_canDrag n \<or> co_onSort p \<noteq> co_onSort n
         \<or> co_collapsed p \<noteq> co_collapsed n \<or> co_onToggle p \<noteq> co_onToggle n \<or> co_search p \<noteq> co_search n
      then False
      else are_operation_lists_equal (co_operations p) (co_operations n))"

section \<open>What the cards draw\<close>

type_synonym reko_face = "(bool \<times> bool \<times> string list \<times> int option \<times> rat option) option"

definition reko_drawn :: "operation \<Rightarrow> reko_face" where
  "reko_drawn n =
     map_option (\<lambda>r. (rs_isRelevant r, rs_hasDangers r, rs_dangerTypes r, rs_personnelCount r, rs_estimatedDuration r)) (op_rekoSummary n)"

record card_face =
  fc_operation :: operation                  \<comment> \<open>with what the comparator does not look at put aside\<close>
  fc_reko :: reko_face
  fc_view :: "bool list"
  fc_around :: "nat \<times> nat \<times> bool \<times> bool \<times> string option \<times> bool"

text \<open>
  The card of the board reads these of its operation; the fields it never reads, and the four that it does read but
  its comparator does not, are put aside here.
\<close>

definition board_fields :: "operation \<Rightarrow> operation" where
  "board_fields n =
     n\<lparr>op_vehicle := None, op_dispatchTime := None, op_coordinates := None, op_internalNotes := [], op_statusChangedAt := None,
       op_rekoArrivedByKp := None, op_fieldCompleteReportedBy := None, op_fieldArrivedBy := None, op_fieldArrivedByAutomation := None,
       op_pickupRequestedBy := None, op_fieldRequests := None, op_rekoSummary := None, op_materialAssignments := Map.empty\<rparr>"

definition board_face :: "card_props \<Rightarrow> card_face" where
  "board_face pp =
     \<lparr>fc_operation = board_fields (cp_operation pp), fc_reko = reko_drawn (cp_operation pp), fc_view = map (cp_view pp) card_view_keys,
      fc_around = (cp_drivers pp, cp_doubleBooked pp, cp_highlighted pp, cp_selected pp, cp_dominant pp, cp_canDrag pp)\<rparr>"

section \<open>Facts\<close>

lemma same_time_eq: "same_time a b \<Longrightarrow> a = b"
  by (auto simp: same_time_def split: option.splits)

lemma zip_equal: "length a = length b \<and> list_all (\<lambda>(x, y). x = y) (zip a b) \<longleftrightarrow> a = b"
  by (auto simp: list_all_length intro: nth_equalityI)

lemma same_strings_iff: "same_strings a b \<longleftrightarrow> a = b"
  unfolding same_strings_def by (rule zip_equal)

lemma same_crew_iff: "same_crew a b \<longleftrightarrow> a = b"
proof -
  have "(\<lambda>(m, n). cm_personnelId m = cm_personnelId n \<and> cm_assignmentId m = cm_assignmentId n \<and> cm_name m = cm_name n) = (\<lambda>(m :: crew_member, n). m = n)"
    by (auto simp: fun_eq_iff)
  then show ?thesis using zip_equal [of a b] by (simp add: same_crew_def)
qed

lemma same_vehicles_iff: "same_vehicles a b \<longleftrightarrow> a = b"
proof -
  have "(\<lambda>(v, n). ov_vehicleId v = ov_vehicleId n \<and> ov_assignmentId v = ov_assignmentId n \<and> ov_name v = ov_name n
           \<and> ov_callsign v = ov_callsign n \<and> ov_driverStay v = ov_driverStay n) = (\<lambda>(v :: operation_vehicle, n). v = n)"
    by (auto simp: fun_eq_iff)
  then show ?thesis using zip_equal [of a b] by (simp add: same_vehicles_def)
qed

lemma assigned_reko_same: "\<not> assigned_reko_changed p n \<Longrightarrow> op_assignedReko p = op_assignedReko n"
  by (cases "op_assignedReko p"; cases "op_assignedReko n") (auto simp: assigned_reko_changed_def)

lemma reko_same:
  "\<not> reko_summary_changed p n \<Longrightarrow> reko_drawn p = reko_drawn n \<and> op_hasCompletedReko p = op_hasCompletedReko n \<and> op_rekoArrivedAt p = op_rekoArrivedAt n"
  by (cases "op_rekoSummary p"; cases "op_rekoSummary n") (auto simp: reko_summary_changed_def reko_drawn_def same_strings_iff dest: same_time_eq)

lemma view_same: "card_view_equals a b \<Longrightarrow> map a card_view_keys = map b card_view_keys"
  by (simp add: card_view_equals_def list_all_iff)

lemma keys_complete: "k \<in> set card_view_keys"
  by (cases k) (simp_all add: card_view_keys_def)

lemma card_view_equals_iff: "card_view_equals a b \<longleftrightarrow> a = b"
  using keys_complete by (auto simp: card_view_equals_def list_all_iff)

section \<open>Properties\<close>


text \<open>The structural comparison is an equivalence on values with distinct keys and valid dates.\<close>

theorem comparison_is_an_equivalence:
  assumes "wf_walk a" and "wf_walk b"
  shows "values_equal a a \<and> values_equal a b = values_equal b a \<and> (values_equal a b \<longrightarrow> values_equal a c = values_equal b c)"
  using values_equal_refl [OF assms(1)] values_equal_sym [OF assms] values_equal_sym [OF assms(2,1)] values_equal_trans by blast

theorem comparison_is_an_equivalence_witness:
  "values_equal (WObj [(''b'', WNull), (''a'', WArr [WBool True])]) (WObj [(''a'', WArr [WBool True]), (''b'', WNull)])"
proof -
  let ?a = "WObj [(''a'', WArr [WBool True]), (''b'', WNull)]" and ?b = "WObj [(''b'', WNull), (''a'', WArr [WBool True])]"
  have "wf_walk ?a" "wf_walk ?b" "values_equal ?a ?b" by code_simp+
  then show ?thesis using comparison_is_an_equivalence [of ?a ?b ?a] by blast
qed

text \<open>A stored view comes back as it was, a switch moves nothing else, and each preset is recognised.\<close>

theorem card_view_comes_back:
  "coerce_card_view (card_view_json v) = Some v \<and> toggle_card_view_key (toggle_card_view_key v k) k = v
   \<and> match_card_view_preset (card_view_presets p) = Some p"
proof (intro conjI)
  have "stored_flag (map (\<lambda>k. (key_name k, JBool (v k))) card_view_keys) k = Some (v k)" for k
    by (cases k) (simp_all add: stored_flag_def card_view_keys_def)
  then show "coerce_card_view (card_view_json v) = Some v"
    by (simp add: coerce_card_view_def card_view_json_def filter_empty_conv) (simp add: card_view_keys_def)
  show "match_card_view_preset (card_view_presets p) = Some p"
    by (cases p) (auto simp: match_card_view_preset_def card_view_equals_iff fun_eq_iff)
qed (simp add: toggle_card_view_key_def)

section \<open>A card, and where the comparators fall short\<close>

definition plain_card :: "string \<Rightarrow> operation" where
  "plain_card note =
     \<lparr>op_id = ''i'', op_number = Some 1, op_location = ''Hauptstrasse 1'', op_locationDisplay = None, op_vehicle = None, op_vehicles = [],
      op_incidentType = ''elementar'', op_dispatchTime = Some 0, op_crew = [\<lparr>cm_personnelId = ''p'', cm_assignmentId = None, cm_name = ''Meier''\<rparr>],
      op_priority = Medium, op_status = Enroute, op_coordinates = None, op_materials = [], op_notes = [], op_contact = [], op_contactPhone = [],
      op_internalNotes = note, op_nachbarhilfe = False, op_nachbarhilfeNote = [], op_amWarten = False, op_amWartenNote = [], op_zuFuss = False,
      op_groupId = None, op_groupPosition = 0, op_source = None, op_fromRealAlarm = None, op_possibleDuplicateOf = None, op_statusChangedAt = None,
      op_hasCompletedReko = False, op_rekoArrivedAt = None, op_rekoArrivedByKp = None, op_fieldCompleteReportedAt = None,
      op_fieldCompleteReportedBy = None, op_fieldArrivedAt = None, op_fieldArrivedBy = None, op_fieldArrivedByAutomation = None,
      op_pickupNeeded = None, op_pickupNote = None, op_pickupRequestedAt = None, op_pickupRequestedBy = None, op_fieldRequests = None,
      op_hasSchadenplatzRapport = None, op_hasSchadenplatzRapportDraft = None, op_hasBeenDispatched = None, op_rekoSummary = None,
      op_assignedReko = None, op_leaderId = None, op_leaderName = None, op_materialAssignments = Map.empty\<rparr>"

definition plain_props :: "operation \<Rightarrow> card_props" where
  "plain_props n =
     \<lparr>cp_operation = n, cp_drivers = 0, cp_doubleBooked = 0, cp_materials = 0, cp_printer = False, cp_highlighted = False, cp_selected = False,
      cp_hovered = False, cp_index = 0, cp_view = card_view_presets PresetStandard, cp_dominant = None, cp_canDrag = True\<rparr>"

definition valid_times :: "operation \<Rightarrow> bool" where
  "valid_times n = list_all (\<lambda>t. t \<noteq> Some None) [op_rekoArrivedAt n, op_fieldCompleteReportedAt n, op_fieldArrivedAt n, op_pickupRequestedAt n]"

lemma same_time_refl: "t \<noteq> Some None \<Longrightarrow> same_time t t"
  by (auto simp: same_time_def split: option.split)

lemma reko_unchanged: "valid_times n \<Longrightarrow> \<not> reko_summary_changed n n"
  by (simp add: reko_summary_changed_def same_strings_iff same_time_refl valid_times_def)

lemma assigned_unchanged: "\<not> assigned_reko_changed n n"
  by (simp add: assigned_reko_changed_def)

lemma changed_fields [simp]:
  "reko_summary_changed n (n\<lparr>op_fieldRequests := r\<rparr>) = reko_summary_changed n n" "assigned_reko_changed n (n\<lparr>op_fieldRequests := r\<rparr>) = assigned_reko_changed n n"
  "reko_summary_changed n (n\<lparr>op_statusChangedAt := t\<rparr>) = reko_summary_changed n n" "assigned_reko_changed n (n\<lparr>op_statusChangedAt := t\<rparr>) = assigned_reko_changed n n"
  "reko_summary_changed n (n\<lparr>op_internalNotes := x\<rparr>) = reko_summary_changed n n" "assigned_reko_changed n (n\<lparr>op_internalNotes := x\<rparr>) = assigned_reko_changed n n"
  by (simp_all add: reko_summary_changed_def assigned_reko_changed_def)


text \<open>
  The card of the board is not painted for a request from the field, the time of a status that comes late, a material that is
  renamed or the printer that comes on.
\<close>

theorem card_misses_four_changes:
  assumes "valid_times (cp_operation p)"
  shows "board_card_memo p (p\<lparr>cp_operation := (cp_operation p)\<lparr>op_fieldRequests := r\<rparr>\<rparr>)
    \<and> board_card_memo p (p\<lparr>cp_operation := (cp_operation p)\<lparr>op_statusChangedAt := t\<rparr>\<rparr>)
    \<and> board_card_memo p (p\<lparr>cp_materials := m, cp_printer := b\<rparr>)"
  using assms reko_unchanged [OF assms]
  by (simp add: board_card_memo_def assigned_unchanged same_crew_iff same_strings_iff same_vehicles_iff card_view_equals_iff same_time_refl valid_times_def)

theorem card_misses_four_changes_witness:
  "board_card_memo (plain_props (plain_card [])) (plain_props ((plain_card [])\<lparr>op_fieldRequests := Some []\<rparr>))"
  using card_misses_four_changes [of "plain_props (plain_card [])" "Some []"]
  by (simp add: plain_props_def valid_times_def plain_card_def)

text \<open>The card on the phone draws the type of the Einsatz and is not painted when it changes.\<close>

theorem phone_card_misses_the_type:
  assumes "op_pickupRequestedAt n \<noteq> Some None"
  shows "mobile_card_memo (n, d) (n\<lparr>op_incidentType := x\<rparr>, d)"
  using assms by (simp add: mobile_card_memo_def same_crew_iff same_vehicles_iff same_time_refl)

text \<open>The rest of what it draws is current.\<close>

definition phone_face :: "operation \<times> nat \<Rightarrow> (string \<times> string option \<times> string \<times> incident_status \<times> priority)
    \<times> (crew_member list \<times> operation_vehicle list \<times> nat) \<times> (bool \<times> bool option \<times> string option)
    \<times> (bool option \<times> string option \<times> js_date option) \<times> (bool option \<times> bool option \<times> ident option)" where
  "phone_face c =
     (let n = fst c
      in ((op_location n, op_leaderName n, op_notes n, op_status n, op_priority n), (op_crew n, op_vehicles n, snd c),
          (op_hasCompletedReko n, map_option rs_hasDangers (op_rekoSummary n), Option.bind (op_rekoSummary n) rs_summaryText),
          (op_pickupNeeded n, op_pickupNote n, op_pickupRequestedAt n),
          (op_hasSchadenplatzRapport n, op_hasBeenDispatched n, op_possibleDuplicateOf n)))"

theorem unpainted_phone_card_is_current:
  assumes "mobile_card_memo p n"
  shows "phone_face p = phone_face n"
  using assms by (simp add: mobile_card_memo_def phone_face_def Let_def same_crew_iff same_vehicles_iff same_time_eq)

end
