(* ===== verification/Spec2Isabelle.thy ===== *)
theory Spec2Isabelle
  imports Durations Kanban ResourceStatus ReleaseUndo Reconcile HttpTransport FieldSave BoardSync DispatchSafety DoubleBooking RoutePlan RapportDraft StatusWorkflow CommandDispatch ReleaseOffers PrintTracker NotificationPolicy NotificationCenter SharedDisplay Session Radio Shortcuts FieldDesk FieldFeed Readiness CardRepaint
begin

text \<open>
  A verification library of the command-post board of KP Rueck: the Next.js frontend under \<^verbatim>\<open>src/frontend\<close>.
  The definitions are a shallow embedding of the TypeScript modules that carry the board's own logic; paths below are relative to
  \<^verbatim>\<open>src/frontend\<close>, and \<^verbatim>\<open>operations/\<close> is \<^verbatim>\<open>lib/contexts/operations/\<close>.

  \<^bold>\<open>The program.\<close>
  One \<^emph>\<open>Ereignis\<close> (event) holds incidents, which the board shows as cards in columns. Crew, vehicles, material
  and Reko people are assigned to cards, and to \<^emph>\<open>Auftraege\<close> (routes) that hold several cards as stops. Every edit is made on
  screen at once and sent to the server after it; a refused edit is taken back. Loads of the whole board run beside the edits, started
  by a poll, by the socket or by the operator, and are reconciled with what is on screen. The hard part is everything that
  may arrive in the wrong order: answers of old requests, loads that raced an edit, two questions at once, typed commands that wait for a
  dialog.

  \<^bold>\<open>Theories and sources.\<close>
  \<^item> \<open>KpPrelude\<close>: names of the types, the list idioms (edit the row with this id, sort by a comparator) and the
    interfaces \<open>row_edit\<close>, \<open>row_undo\<close>, \<open>js_comparator\<close> and \<open>event_machine\<close>, each interpreted where a component provides it.
  \<^item> \<open>JsText\<close>: the string functions of the language that the sources use.
  \<^item> \<open>Durations\<close> (\<^verbatim>\<open>lib/duration.ts\<close>), \<open>Kanban\<close> (\<^verbatim>\<open>lib/kanban-utils.ts\<close>, \<^verbatim>\<open>lib/priority.ts\<close>, \<^verbatim>\<open>lib/map-colors.ts\<close>),
    \<open>ResourceStatus\<close> (\<^verbatim>\<open>lib/resource-status.ts\<close>), \<open>ReleaseUndo\<close> (\<^verbatim>\<open>lib/release-undo.ts\<close>, \<^verbatim>\<open>lib/recent-removals.ts\<close>,
    \<^verbatim>\<open>lib/driver-conflict.ts\<close>, \<^verbatim>\<open>lib/restore-incident.ts\<close>, \<^verbatim>\<open>lib/rapport-visibility.ts\<close>), \<open>BoardTypes\<close> (the data).
  \<^item> \<open>Reconcile\<close> (\<^verbatim>\<open>operations/mapping.ts\<close>, \<^verbatim>\<open>operations/reconcile.ts\<close>): from the rows of a load to the cards on
    screen. \<open>BoardSync\<close> (\<^verbatim>\<open>operations/use-board-sync.ts\<close>, \<^verbatim>\<open>operations/sync-cooldown.ts\<close>): the loader as a machine whose events are
    loads that start, succeed and fail, edits, the poll and the socket. \<open>ReloadScheduler\<close> (\<^verbatim>\<open>lib/reload-scheduler.ts\<close>): which
    load starts when. \<open>Realtime\<close> (\<^verbatim>\<open>lib/websocket-client.ts\<close>), \<open>Polling\<close> (\<^verbatim>\<open>lib/hooks/use-polling.ts\<close>) and
    \<open>HttpTransport\<close> (\<^verbatim>\<open>lib/api/http.ts\<close>): how changes and answers get there.
  \<^item> \<open>Batching\<close> (\<^verbatim>\<open>lib/update-batcher.ts\<close>), \<open>BoardState\<close> (\<^verbatim>\<open>operations/board-context.ts\<close>), \<open>IncidentActions\<close>
    (\<^verbatim>\<open>operations/incident-actions.ts\<close>), \<open>StatusConflict\<close> (\<^verbatim>\<open>lib/status-conflict.ts\<close>), \<open>ResourceActions\<close>
    (\<^verbatim>\<open>operations/resource-actions.ts\<close>), \<open>RouteGroups\<close> (\<^verbatim>\<open>lib/contexts/groups-context.tsx\<close>), \<open>FieldSave\<close>
    (\<^verbatim>\<open>lib/field-save.ts\<close>), \<open>RapportDraft\<close> (\<^verbatim>\<open>lib/rapport-draft.ts\<close>): the edits and what becomes of them. A call is a value
    with its captured undo; its answer is an event that may come at any later time.
  \<^item> \<open>KanbanDrop\<close> (\<^verbatim>\<open>lib/hooks/use-kanban-drag-drop.ts\<close>), \<open>DoubleBooking\<close> (\<^verbatim>\<open>lib/hooks/use-assignment-conflicts.ts\<close> and the
    assignment handlers of \<^verbatim>\<open>app/page.tsx\<close>), \<open>StatusWorkflow\<close> (\<^verbatim>\<open>components/kanban/incident-status-workflow.tsx\<close>),
    \<open>ReleaseOffers\<close> (\<^verbatim>\<open>lib/hooks/use-release-undo.ts\<close>), \<open>RoutePlan\<close> (\<^verbatim>\<open>lib/hooks/use-route-planning.ts\<close>,
    \<^verbatim>\<open>lib/route-start.ts\<close>, \<^verbatim>\<open>lib/vehicle-positions.ts\<close>): what the operator's gestures do.
  \<^item> \<open>DispatchMatch\<close>, \<open>Dispatch\<close>, \<open>DispatchSafety\<close> (\<^verbatim>\<open>lib/command-dispatch.ts\<close>) and \<open>CommandDispatch\<close>
    (\<^verbatim>\<open>lib/hooks/use-command-dispatch.ts\<close>, \<^verbatim>\<open>components/board/use-board-dispatch.ts\<close>): a typed line, its parse and its run.
  \<^item> \<open>NotificationPolicy\<close> (\<^verbatim>\<open>lib/notification-policy.ts\<close>, \<^verbatim>\<open>lib/toast-lifetime.ts\<close>), \<open>NotificationCenter\<close>
    (\<^verbatim>\<open>lib/contexts/notification-context.tsx\<close>), \<open>PrintTracker\<close> (\<^verbatim>\<open>lib/print-job-tracker.ts\<close>): what the board reports.
  \<^item> \<open>SharedDisplay\<close> (\<^verbatim>\<open>lib/viewer-data.ts\<close>, \<^verbatim>\<open>lib/hooks/use-status-data.ts\<close>): the board rebuilt behind a share
    link, compared with \<open>Reconcile\<close>.
  \<^item> \<open>Session\<close> (\<^verbatim>\<open>lib/contexts/auth-context.tsx\<close>, \<^verbatim>\<open>lib/contexts/event-context.tsx\<close>, \<^verbatim>\<open>lib/auth-client.ts\<close>): who is
    signed in and which Ereignis is open, as one machine.
  \<^item> \<open>AddressText\<close> (\<^verbatim>\<open>lib/utils.ts\<close>): the short address of a card. \<open>PersonNaming\<close> (\<^verbatim>\<open>lib/person-label.ts\<close>): namesakes.
  \<^item> \<open>Shortcuts\<close> (\<^verbatim>\<open>lib/hooks/use-kanban-shortcuts.ts\<close> and the other key handlers): what a key does.
  \<^item> \<open>Radio\<close> (\<^verbatim>\<open>lib/radio-announcement.ts\<close>, \<^verbatim>\<open>lib/auftrag-radio.ts\<close>): what is read out over the radio, and when in full.
  \<^item> \<open>FieldDesk\<close> (\<^verbatim>\<open>lib/feld-delivery.ts\<close>, \<^verbatim>\<open>lib/field-requests.ts\<close>, \<^verbatim>\<open>components/feld/feld-actions.tsx\<close>): the
    reports of a crew in the field, each with its request and its repeat.
  \<^item> \<open>FieldDoor\<close> and \<open>FieldFeed\<close> (\<^verbatim>\<open>app/feld/page.tsx\<close>, \<^verbatim>\<open>components/feld/feld-door.tsx\<close>): the door of the
    field page with its credentials and cookies, and the list of a crew.
  \<^item> \<open>Readiness\<close> (\<^verbatim>\<open>lib/checklist-tasks.ts\<close>, \<^verbatim>\<open>components/event-setup-checklist.tsx\<close>): the checklist, its
    ticks, its badge and when it opens by itself.
  \<^item> \<open>CardRepaint\<close> (\<^verbatim>\<open>lib/operation-equality.ts\<close>, \<^verbatim>\<open>lib/card-view.ts\<close> and the comparators of the cards):
    when a card is painted again, beside what it draws.
  \<^bold>\<open>How the state corresponds.\<close>
  A provider's state and refs are one record, a callback is a function on it, a promise in flight is an entry of a list in that record, and
  what settles it is an event. Where the code reads this render's closure and where it reads a ref is kept apart (\<open>BoardState\<close>,
  \<open>CommandDispatch\<close>), since several properties depend on it. Object identity is a number beside the value where the code compares
  objects (\<open>NotificationCenter\<close>). Times are integers of milliseconds; decimals the code rounds are rationals. Text is a list of
  characters of one byte, which the folding tables treat as Latin-1.

  \<^bold>\<open>What the lemmas show.\<close>
  Every machine has an invariant, proved for all sequences of its events through \<open>event_machine\<close> (no bound on their number or order),
  and the properties are read off it: nothing typed is lost or overwritten by an older answer (\<open>FieldSave\<close>, \<open>Batching\<close>,
  \<open>BoardSync\<close>, \<open>NotificationCenter\<close>), what is refused is taken back and only that (\<open>IncidentActions\<close>,
  \<open>ResourceActions\<close>, \<open>RouteGroups\<close>, \<open>ReleaseOffers\<close>), holds and listeners are balanced
  (\<open>ResourceActions\<close>, \<open>Realtime\<close>), one load and one question at a time (\<open>ReloadScheduler\<close>, \<open>Polling\<close>,
  \<open>CommandDispatch\<close>, \<open>DoubleBooking\<close>), and nothing happens that the operator did not ask for (\<open>DispatchSafety\<close>,
  \<open>StatusWorkflow\<close>, \<open>KanbanDrop\<close>). The pure modules have their functional behaviour, round trips and bounds. A lemma named as
  a finding in the manifest states a case in which the code departs from its comment.

  \<^bold>\<open>Bounds and fuel.\<close>
  No definition needs fuel: recursions are structural or have a measure (the words of a text, the parse of a typed line, the greedy route); the retry loop of a request is bounded by
  its retry count. \<open>CommandDispatch\<close> proves that a command ends within three looks at the board per
  resource when the board asks nothing; \<open>PrintTracker\<close> that every followed job is let go.

  \<^bold>\<open>Parameters.\<close>
  What is not under \<^verbatim>\<open>src\<close> or is not arithmetic the model can carry out is an argument: the collation of the engine's
  \<^verbatim>\<open>localeCompare\<close>, the great-circle distance (floating point), the message catalogue, random jitter, the pattern test of an id,
  the outcome of every request.

  \<^bold>\<open>Not modelled.\<close>
  Rendering, styles and layout (\<^verbatim>\<open>components\<close> and \<^verbatim>\<open>app\<close> apart from the callbacks named above), maps and geocoding, translations,
  the Microsoft sign-in start, the server under \<^verbatim>\<open>src/backend\<close> (Python), the print agent, scripts, tests and generated clients. The manifest lists
  each part with its reason.
\<close>

end
